(* ===== verification/Prelude.thy ===== *)
theory Prelude
  imports Main "HOL-Library.Word" "HOL-Library.Sublist"
begin

text \<open>
  Shared types, arithmetic and contracts.

  Machine integers are words of the width the Rust code gives them. UUIDs (the
  \<open>uuid\<close> crate) are the 128-bit number their sixteen bytes denote; the crate's
  \<open>Ord\<close> compares the bytes lexicographically, which is the order of that number.
  An \<open>f64\<close> is its bit pattern; \<open>Float_Order\<close> compares them.
  \<open>serde_json::Value\<close> is a type parameter \<open>'j\<close> of everything that carries one.

  The locales state the contracts the components share: what an operation may do to the
  audit log, what a lifecycle may do to its rank, what an invariant needs. Each component
  interprets the ones it provides.
\<close>

section \<open>Types\<close>

type_synonym u8 = "8 word"
type_synonym u32 = "32 word"
type_synonym u64 = "64 word"
type_synonym usize = "64 word"
type_synonym f64 = "64 word"
type_synonym uuid = "128 word"

text \<open>The identifier newtypes of \<open>ify-core\<close> are transparent wrappers of a UUID.\<close>

type_synonym task_id = uuid
type_synonym dimension_id = uuid
type_synonym artifact_id = uuid

text \<open>
  A method that returns a \<open>Result\<close> and may change its receiver yields both the result and
  the state it leaves behind, on the error branches too.
\<close>

type_synonym ('e, 'a, 's) outcome = "('e + 'a) \<times> 's"

abbreviation result :: "('e, 'a, 's) outcome \<Rightarrow> 'e + 'a" where
  "result \<equiv> fst"

abbreviation after :: "('e, 'a, 's) outcome \<Rightarrow> 's" where
  "after \<equiv> snd"

definition is_ok :: "'e + 'a \<Rightarrow> bool" where
  "is_ok r = (case r of Inl _ \<Rightarrow> False | Inr _ \<Rightarrow> True)"

lemma is_ok_simps [simp]: "is_ok (Inr a)" "\<not> is_ok (Inl e)"
  by (simp_all add: is_ok_def)

definition err_of :: "'e + 'a \<Rightarrow> 'e option" where
  "err_of r = (case r of Inl e \<Rightarrow> Some e | Inr _ \<Rightarrow> None)"

lemma err_of_simps [simp]: "err_of (Inr a) = None" "err_of (Inl e) = Some e"
  by (simp_all add: err_of_def)

lemma err_of_None_iff: "err_of r = None \<longleftrightarrow> is_ok r"
  by (cases r) simp_all

text \<open>
  What an operation draws from outside the program while it appends to the log: the clock
  reading and the fresh identifier of the log entry.
\<close>

record env =
  env_now :: u64
  env_event_id :: uuid

section \<open>Arithmetic\<close>

text \<open>Rust's \<open>saturating_add\<close>, \<open>saturating_sub\<close> and \<open>saturating_mul\<close>.\<close>

definition saturating_add :: "'l::len word \<Rightarrow> 'l word \<Rightarrow> 'l word" where
  "saturating_add a b = (if unat a + unat b < 2 ^ LENGTH('l) then a + b else - 1)"

definition saturating_sub :: "'l::len word \<Rightarrow> 'l word \<Rightarrow> 'l word" where
  "saturating_sub a b = (if a < b then 0 else a - b)"

definition saturating_mul :: "'l::len word \<Rightarrow> 'l word \<Rightarrow> 'l word" where
  "saturating_mul a b = (if unat a * unat b < 2 ^ LENGTH('l) then a * b else - 1)"

lemma unat_max_word: "unat (- 1 :: 'l::len word) = 2 ^ LENGTH('l) - 1"
  by (simp add: unsigned_minus_1_eq_mask mask_eq_exp_minus_1)

lemma unat_saturating_add:
  "unat (saturating_add a b) = min (unat a + unat b) (2 ^ LENGTH('l) - 1)"
  for a b :: "'l::len word"
  by (auto simp: saturating_add_def unat_max_word unat_word_ariths)

lemma unat_saturating_sub: "unat (saturating_sub a b) = unat a - unat b"
  for a b :: "'l::len word"
  by (auto simp: saturating_sub_def word_less_nat_alt unat_sub word_le_nat_alt)

lemma unat_saturating_mul:
  "unat (saturating_mul a b) = min (unat a * unat b) (2 ^ LENGTH('l) - 1)"
  for a b :: "'l::len word"
  by (auto simp: saturating_mul_def unat_max_word unat_word_ariths)

lemma unat_Suc_word: "unat a + 1 < 2 ^ LENGTH('l) \<Longrightarrow> unat (a + 1) = unat a + 1"
  for a :: "'l::len word"
  by (simp add: unat_word_ariths)

section \<open>Lists\<close>

text \<open>\<open>iter().position(p)\<close>.\<close>

definition position :: "('a \<Rightarrow> bool) \<Rightarrow> 'a list \<Rightarrow> nat option" where
  "position p xs =
     (let n = List.length (takeWhile (\<lambda>x. \<not> p x) xs) in if n < List.length xs then Some n else None)"

lemma position_Some:
  "position p xs = Some n \<Longrightarrow>
     \<exists>ys x zs. xs = ys @ x # zs \<and> List.length ys = n \<and> p x \<and> (\<forall>y \<in> set ys. \<not> p y)"
proof -
  assume pos: "position p xs = Some n"
  let ?ys = "takeWhile (\<lambda>x. \<not> p x) xs"
  from pos have n: "n = List.length ?ys" "n < List.length xs"
    by (auto simp: position_def Let_def split: if_splits)
  then have "xs = take n xs @ xs ! n # drop (Suc n) xs" by (simp add: id_take_nth_drop)
  moreover have "take n xs = ?ys" using n(1) by (simp add: takeWhile_eq_take [symmetric])
  moreover have "p (xs ! n)" using n nth_length_takeWhile [of "\<lambda>x. \<not> p x" xs] by simp
  ultimately show ?thesis
    using n(1) by (metis set_takeWhileD)
qed

lemma position_None: "position p xs = None \<longleftrightarrow> (\<forall>x \<in> set xs. \<not> p x)"
proof -
  have "\<not> List.length (takeWhile (\<lambda>x. \<not> p x) xs) < List.length xs \<longleftrightarrow> takeWhile (\<lambda>x. \<not> p x) xs = xs"
    using length_takeWhile_le [of "\<lambda>x. \<not> p x" xs] by (metis less_irrefl linorder_neqE_nat not_less takeWhile_eq_take take_all)
  also have "\<dots> \<longleftrightarrow> (\<forall>x \<in> set xs. \<not> p x)" by (simp add: takeWhile_eq_all_conv)
  finally show ?thesis unfolding position_def Let_def by (metis option.distinct(1))
qed

lemma map_filter_Nil: "List.map_filter f xs = [] \<longleftrightarrow> list_all (\<lambda>x. f x = None) xs"
  by (induction xs) (auto simp: List.map_filter_simps split: option.splits)

lemma map_filter_append: "List.map_filter f (xs @ ys) = List.map_filter f xs @ List.map_filter f ys"
  by (simp add: List.map_filter_def)

section \<open>Text\<close>

text \<open>Quotes around a name in a message.\<close>

definition quoted :: "string \<Rightarrow> string" where
  "quoted name = CHR 0x27 # name @ [CHR 0x27]"

text \<open>Changing a predicate at one element changes a count by at most one.\<close>

lemma length_filter_change:
  assumes "distinct xs" "t \<in> set xs" "\<And>x. x \<noteq> t \<Longrightarrow> P' x = P x"
  shows "List.length (filter P' xs) + (if P t then 1 else 0) =
         List.length (filter P xs) + (if P' t then 1 else 0)"
  using assms
proof (induction xs)
  case Nil
  then show ?case by simp
next
  case (Cons x xs)
  show ?case
  proof (cases "x = t")
    case True
    have "P' y = P y" if "y \<in> set xs" for y
      using Cons.prems(1,3) True that by (cases "y = t") auto
    then have "filter P' xs = filter P xs" by (intro filter_cong) simp_all
    with True show ?thesis by simp
  next
    case False
    with Cons show ?thesis by auto
  qed
qed

section \<open>Contracts\<close>

text \<open>
  An invariant and the operations that keep it. \<open>ok\<close> is the guard under which an operation
  is taken: \<open>admissible\<close> says that every operation of a run meets it where it is taken.
\<close>

fun admissible :: "('op \<Rightarrow> 's \<Rightarrow> bool) \<Rightarrow> ('op \<Rightarrow> 's \<Rightarrow> 's) \<Rightarrow> 'op list \<Rightarrow> 's \<Rightarrow> bool" where
  "admissible ok step [] s = True"
| "admissible ok step (op # ops) s = (ok op s \<and> admissible ok step ops (step op s))"

lemma admissible_True [simp]: "admissible (\<lambda>_ _. True) step ops s"
  by (induction ops arbitrary: s) auto

locale invariant_system =
  fixes ok :: "'op \<Rightarrow> 's \<Rightarrow> bool"
    and step :: "'op \<Rightarrow> 's \<Rightarrow> 's"
    and inv :: "'s \<Rightarrow> bool"
  assumes step_inv: "inv s \<Longrightarrow> ok op s \<Longrightarrow> inv (step op s)"
begin

lemma run_inv: "inv s \<Longrightarrow> admissible ok step ops s \<Longrightarrow> inv (fold step ops s)"
  by (induction ops arbitrary: s) (auto intro: step_inv)

end

text \<open>
  An audited component: whatever an operation does, the log afterwards extends the log
  before. Runs then extend it too, so no entry is ever lost or rewritten.
\<close>

locale audited =
  fixes step :: "'op \<Rightarrow> 's \<Rightarrow> 's"
    and entries_of :: "'s \<Rightarrow> 'e list"
  assumes step_extends: "prefix (entries_of s) (entries_of (step op s))"
begin

lemma run_extends: "prefix (entries_of s) (entries_of (fold step ops s))"
proof (induction ops arbitrary: s)
  case Nil
  show ?case by simp
next
  case (Cons op ops)
  have "prefix (entries_of s) (entries_of (step op s))" by (rule step_extends)
  also have "prefix (entries_of (step op s)) (entries_of (fold step ops (step op s)))"
    by (rule Cons.IH)
  finally show ?case by simp
qed

lemma run_keeps_entry:
  "e \<in> set (entries_of s) \<Longrightarrow> e \<in> set (entries_of (fold step ops s))"
  using run_extends set_mono_prefix by blast

end

text \<open>
  A one-way lifecycle: operations never lower the rank, and leave a state of maximal rank
  as it is.
\<close>

locale lifecycle =
  fixes step :: "'op \<Rightarrow> 's \<Rightarrow> 's"
    and rank :: "'s \<Rightarrow> nat"
    and terminal :: "'s \<Rightarrow> bool"
  assumes step_rank: "rank s \<le> rank (step op s)"
    and step_terminal: "terminal s \<Longrightarrow> step op s = s"
begin

lemma run_rank: "rank s \<le> rank (fold step ops s)"
  by (induction ops arbitrary: s) (auto intro: order_trans step_rank)

lemma run_terminal: "terminal s \<Longrightarrow> fold step ops s = s"
  by (induction ops arbitrary: s) (auto simp: step_terminal)

lemma run_reaches_terminal_once:
  "terminal (fold step ops s) \<Longrightarrow> fold step (ops @ ops') s = fold step ops s"
  by (simp add: run_terminal)

end

end
