(* ===== verification/Core.thy ===== *)
theory Core
  imports Prelude
begin

text \<open>
  The shared types of \<open>ify-core\<close>: identifiers parsed from text and the capability mask.
  The UUID parser is the \<open>uuid\<close> crate's and is the argument \<open>parse_uuid\<close>; the mask is
  the bit mask the \<open>bitflags!\<close> block declares, one 64-bit constant per capability.
\<close>

unbundle bit_operations_syntax

section \<open>Identifiers\<close>

datatype ify_core_error =
    InvalidId string
  | CapabilityDenied u64
  | Internal string

text \<open>\<open>TaskId::parse_str\<close>; \<open>DimensionId\<close> and \<open>ArtifactId\<close> have the same body.\<close>

definition parse_str :: "(string \<Rightarrow> uuid option) \<Rightarrow> string \<Rightarrow> ify_core_error + uuid" where
  "parse_str parse_uuid s = (case parse_uuid s of None \<Rightarrow> Inl (InvalidId s) | Some u \<Rightarrow> Inr u)"

section \<open>Capabilities\<close>

datatype capability =
    MEMORY | SCHEDULER | FS | NET | PERF | GPU | FS_WRITE | NET_INGRESS | SPAWN_TASKS
  | SPAWN_DIMENSIONS | READ_ARTIFACTS | WRITE_ARTIFACTS | INVOKE_TOOLS | INVOKE_MODEL
  | DEPLOY | READ_ENV | READ_SECRETS | PUBLISH_MARKETPLACE | ADMIN

primrec capability_bits :: "capability \<Rightarrow> u64" where
  "capability_bits MEMORY = push_bit 0 1"
| "capability_bits SCHEDULER = push_bit 1 1"
| "capability_bits FS = push_bit 2 1"
| "capability_bits NET = push_bit 3 1"
| "capability_bits PERF = push_bit 4 1"
| "capability_bits GPU = push_bit 5 1"
| "capability_bits FS_WRITE = push_bit 8 1"
| "capability_bits NET_INGRESS = push_bit 9 1"
| "capability_bits SPAWN_TASKS = push_bit 16 1"
| "capability_bits SPAWN_DIMENSIONS = push_bit 17 1"
| "capability_bits READ_ARTIFACTS = push_bit 18 1"
| "capability_bits WRITE_ARTIFACTS = push_bit 19 1"
| "capability_bits INVOKE_TOOLS = push_bit 20 1"
| "capability_bits INVOKE_MODEL = push_bit 21 1"
| "capability_bits DEPLOY = push_bit 22 1"
| "capability_bits READ_ENV = push_bit 32 1"
| "capability_bits READ_SECRETS = push_bit 33 1"
| "capability_bits PUBLISH_MARKETPLACE = push_bit 34 1"
| "capability_bits ADMIN = push_bit 63 1"

text \<open>No two capabilities share a bit, so granting one never grants another.\<close>

lemma capability_bits_disjoint:
  "c \<noteq> d \<Longrightarrow> capability_bits c AND capability_bits d = 0"
  by (cases c; cases d) simp_all

lemma capability_bits_nonzero: "capability_bits c \<noteq> 0"
  by (cases c) simp_all

end
