(* ===== verification/Action_Log.thy ===== *)
theory Action_Log
  imports Core
begin

text \<open>
  The audit log (\<open>ify-controller/src/action_log.rs\<close>): the event taxonomy with its wire
  names, the entry envelope, and the append-only log every controller component writes to.

  The arguments of \<open>serde_json::json!\<close> are kept as the key and value pairs the code hands to
  the macro; the macro's serialisation is not modelled. \<open>tx.send\<close> of the broadcast channel is
  recorded as the sequence of values sent; delivery to subscribers belongs to tokio.
\<close>

section \<open>Event types\<close>

datatype (plugins only: size) event_type =
    ControllerRegistered
  | ControllerLinked
  | ControllerIsolated
  | ControllerDisposed
  | TaskSubmitted
  | TaskStarted
  | TaskCompleted
  | TaskFailed
  | TaskCancelled
  | TaskRetried
  | NodeCreated
  | NodeUpdated
  | NodeDeleted
  | NodeUndo
  | NodeRedo
  | FlowEvaluated
  | FlowAdvanced
  | ModelHyperparametersAdjusted
  | ModelReloadRequested
  | ReplicaProvisioned
  | ReplicaReleased
  | ChatRequestReceived
  | ChatPayloadGenerated
  | ArtifactProduced
  | ArtifactConsumed
  | ArtifactSnapshot
  | ArtifactPatched
  | EditorCreated
  | InterpreterAttached
  | RuntimeBound
  | OrchestratorSubmit
  | OrchestratorCancel
  | OrchestratorReplay
  | OrchestratorProgress
  | LinkCreated
  | LinkRemoved
  | GroupCreated
  | GroupRemoved
  | SubgraphCreated
  | GraphValidated
  | GraphPatched
  | NodeExecutionStarted
  | NodeExecutionProgress
  | NodeExecutionCompleted
  | NodeExecutionFailed
  | NodeExecutionCancelled
  | NodeRelationCreated
  | NodeRelationRemoved
  | NodeMessageSent
  | NodeMessageBroadcast
  | TaskLeaseRenewed
  | TaskPaused
  | TaskResumed
  | TemplateCreated
  | TemplateCloned
  | TemplateForked
  | InstanceCreated
  | PipelineCreated
  | PipelineExecuted
  | PipelineStepExecuted
  | PipelineStepDeadLettered
  | TransformVersionSaved
  | TransformReplayRequested
  | SchemaRegistered
  | SchemaValidated
  | PipelineCheckpointed
  | PipelineResumed
  | PipelineLineageRecorded
  | StorageConnectorRegistered
  | PrivilegedReadSecret
  | PrivilegedDeploy
  | PrivilegedCapabilityChange
  | PrivilegedAdminChange
  | PrivilegedMarketplacePublish
  | SecurityAccessDenied
  | SecurityValidationFailed
  | SecuritySandboxViolation
  | SecurityArtifactVerified
  | SecurityArtifactVerificationFailed
  | SecuritySupplyChainVerified

primrec as_str :: "event_type \<Rightarrow> string" where
  "as_str ControllerRegistered = ''controller.registered''"
| "as_str ControllerLinked = ''controller.linked''"
| "as_str ControllerIsolated = ''controller.isolated''"
| "as_str ControllerDisposed = ''controller.disposed''"
| "as_str TaskSubmitted = ''task.submitted''"
| "as_str TaskStarted = ''task.started''"
| "as_str TaskCompleted = ''task.completed''"
| "as_str TaskFailed = ''task.failed''"
| "as_str TaskCancelled = ''task.cancelled''"
| "as_str TaskRetried = ''task.retried''"
| "as_str NodeCreated = ''node.created''"
| "as_str NodeUpdated = ''node.updated''"
| "as_str NodeDeleted = ''node.deleted''"
| "as_str NodeUndo = ''node.undo''"
| "as_str NodeRedo = ''node.redo''"
| "as_str FlowEvaluated = ''flow.evaluated''"
| "as_str FlowAdvanced = ''flow.advanced''"
| "as_str ModelHyperparametersAdjusted = ''model.hyperparameters_adjusted''"
| "as_str ModelReloadRequested = ''model.reload_requested''"
| "as_str ReplicaProvisioned = ''replica.provisioned''"
| "as_str ReplicaReleased = ''replica.released''"
| "as_str ChatRequestReceived = ''chat.request_received''"
| "as_str ChatPayloadGenerated = ''chat.payload_generated''"
| "as_str ArtifactProduced = ''artifact.produced''"
| "as_str ArtifactConsumed = ''artifact.consumed''"
| "as_str ArtifactSnapshot = ''artifact.snapshot''"
| "as_str ArtifactPatched = ''artifact.patched''"
| "as_str EditorCreated = ''editor.created''"
| "as_str InterpreterAttached = ''interpreter.attached''"
| "as_str RuntimeBound = ''runtime.bound''"
| "as_str OrchestratorSubmit = ''orchestrator.submit''"
| "as_str OrchestratorCancel = ''orchestrator.cancel''"
| "as_str OrchestratorReplay = ''orchestrator.replay''"
| "as_str OrchestratorProgress = ''orchestrator.progress''"
| "as_str LinkCreated = ''link.created''"
| "as_str LinkRemoved = ''link.removed''"
| "as_str GroupCreated = ''group.created''"
| "as_str GroupRemoved = ''group.removed''"
| "as_str SubgraphCreated = ''subgraph.created''"
| "as_str GraphValidated = ''graph.validated''"
| "as_str GraphPatched = ''graph.patched''"
| "as_str NodeExecutionStarted = ''node_execution.started''"
| "as_str NodeExecutionProgress = ''node_execution.progress''"
| "as_str NodeExecutionCompleted = ''node_execution.completed''"
| "as_str NodeExecutionFailed = ''node_execution.failed''"
| "as_str NodeExecutionCancelled = ''node_execution.cancelled''"
| "as_str NodeRelationCreated = ''node_relation.created''"
| "as_str NodeRelationRemoved = ''node_relation.removed''"
| "as_str NodeMessageSent = ''node_message.sent''"
| "as_str NodeMessageBroadcast = ''node_message.broadcast''"
| "as_str TaskLeaseRenewed = ''task.lease_renewed''"
| "as_str TaskPaused = ''task.paused''"
| "as_str TaskResumed = ''task.resumed''"
| "as_str TemplateCreated = ''template.created''"
| "as_str TemplateCloned = ''template.cloned''"
| "as_str TemplateForked = ''template.forked''"
| "as_str InstanceCreated = ''instance.created''"
| "as_str PipelineCreated = ''pipeline.created''"
| "as_str PipelineExecuted = ''pipeline.executed''"
| "as_str PipelineStepExecuted = ''pipeline_step.executed''"
| "as_str PipelineStepDeadLettered = ''pipeline_step.dead_lettered''"
| "as_str TransformVersionSaved = ''transform.version_saved''"
| "as_str TransformReplayRequested = ''transform.replay_requested''"
| "as_str SchemaRegistered = ''schema.registered''"
| "as_str SchemaValidated = ''schema.validated''"
| "as_str PipelineCheckpointed = ''pipeline.checkpointed''"
| "as_str PipelineResumed = ''pipeline.resumed''"
| "as_str PipelineLineageRecorded = ''pipeline.lineage_recorded''"
| "as_str StorageConnectorRegistered = ''storage_connector.registered''"
| "as_str PrivilegedReadSecret = ''privileged.read_secret''"
| "as_str PrivilegedDeploy = ''privileged.deploy''"
| "as_str PrivilegedCapabilityChange = ''privileged.capability_change''"
| "as_str PrivilegedAdminChange = ''privileged.admin_change''"
| "as_str PrivilegedMarketplacePublish = ''privileged.marketplace_publish''"
| "as_str SecurityAccessDenied = ''security.access_denied''"
| "as_str SecurityValidationFailed = ''security.validation_failed''"
| "as_str SecuritySandboxViolation = ''security.sandbox_violation''"
| "as_str SecurityArtifactVerified = ''security.artifact_verified''"
| "as_str SecurityArtifactVerificationFailed = ''security.artifact_verification_failed''"
| "as_str SecuritySupplyChainVerified = ''security.supply_chain_verified''"

section \<open>Entries\<close>

datatype actor = User string | Agent string | System | Kernel

datatype 'j payload_value =
    PNull
  | PId uuid
  | PIds "uuid list"
  | PText string
  | PTexts "string list"
  | PNum u64
  | PBool bool
  | PFloat f64
  | PJson 'j
  | PList "'j payload_value list"
  | PObject "(string \<times> 'j payload_value) list"

type_synonym 'j payload = "(string \<times> 'j payload_value) list"

record 'j action_log_entry =
  le_event_id :: artifact_id
  le_event_type :: event_type
  le_occurred_at_ms :: u64
  le_dimension_id :: "dimension_id option"
  le_task_id :: "task_id option"
  le_actor :: actor
  le_causality_id :: "uuid option"
  le_correlation_id :: "string option"
  le_payload :: "'j payload"

definition new_entry ::
  "env \<Rightarrow> event_type \<Rightarrow> actor \<Rightarrow> dimension_id option \<Rightarrow> task_id option \<Rightarrow> 'j payload
     \<Rightarrow> 'j action_log_entry" where
  "new_entry e event_type actor dimension_id task_id payload =
     \<lparr>le_event_id = env_event_id e, le_event_type = event_type,
      le_occurred_at_ms = env_now e, le_dimension_id = dimension_id, le_task_id = task_id,
      le_actor = actor, le_causality_id = None, le_correlation_id = None,
      le_payload = payload\<rparr>"

definition with_causality :: "uuid \<Rightarrow> 'j action_log_entry \<Rightarrow> 'j action_log_entry" where
  "with_causality causality_id x = x\<lparr>le_causality_id := Some causality_id\<rparr>"

definition with_correlation :: "string \<Rightarrow> 'j action_log_entry \<Rightarrow> 'j action_log_entry" where
  "with_correlation correlation_id x = x\<lparr>le_correlation_id := Some correlation_id\<rparr>"

section \<open>The log\<close>

record 'j action_log =
  al_entries :: "'j action_log_entry list"
  al_sent :: "'j action_log_entry list"

definition new_log :: "'j action_log" where
  "new_log = \<lparr>al_entries = [], al_sent = []\<rparr>"

definition append_log :: "'j action_log_entry \<Rightarrow> 'j action_log \<Rightarrow> 'j action_log" where
  "append_log x l = l\<lparr>al_entries := al_entries l @ [x], al_sent := al_sent l @ [x]\<rparr>"

definition entries_for_dimension ::
  "'j action_log \<Rightarrow> dimension_id \<Rightarrow> 'j action_log_entry list" where
  "entries_for_dimension l d = filter (\<lambda>x. le_dimension_id x = Some d) (al_entries l)"

definition entries_for_task :: "'j action_log \<Rightarrow> task_id \<Rightarrow> 'j action_log_entry list" where
  "entries_for_task l t = filter (\<lambda>x. le_task_id x = Some t) (al_entries l)"

definition all_entries :: "'j action_log \<Rightarrow> 'j action_log_entry list" where
  "all_entries l = al_entries l"

definition log_len :: "'j action_log \<Rightarrow> nat" where
  "log_len l = List.length (al_entries l)"

definition log_is_empty :: "'j action_log \<Rightarrow> bool" where
  "log_is_empty l = (log_len l = 0)"

text \<open>The entry most components append: actor \<open>System\<close>, scoped to a dimension and a task.\<close>

definition log_system ::
  "env \<Rightarrow> event_type \<Rightarrow> dimension_id \<Rightarrow> task_id \<Rightarrow> 'j payload \<Rightarrow> 'j action_log \<Rightarrow> 'j action_log"
where
  "log_system e ev d t p = append_log (new_entry e ev System (Some d) (Some t) p)"

section \<open>Lemmas\<close>

named_theorems log_simps

lemma al_entries_append_log [log_simps]: "al_entries (append_log x l) = al_entries l @ [x]"
  by (simp add: append_log_def)

lemma al_sent_append_log [log_simps]: "al_sent (append_log x l) = al_sent l @ [x]"
  by (simp add: append_log_def)

lemma al_entries_log_system [log_simps]:
  "al_entries (log_system e ev d t p l) =
     al_entries l @ [new_entry e ev System (Some d) (Some t) p]"
  by (simp add: log_system_def al_entries_append_log)

lemma new_entry_simps [log_simps]:
  "le_event_type (new_entry e ev a d t p) = ev"
  "le_dimension_id (new_entry e ev a d t p) = d"
  "le_task_id (new_entry e ev a d t p) = t"
  "le_actor (new_entry e ev a d t p) = a"
  "le_payload (new_entry e ev a d t p) = p"
  "le_event_id (new_entry e ev a d t p) = env_event_id e"
  by (simp_all add: new_entry_def)

lemma prefix_append_log [log_simps, intro]:
  "prefix (al_entries l) (al_entries (append_log x l))"
  by (simp add: append_log_def)

lemma prefix_log_system [log_simps, intro]:
  "prefix (al_entries l) (al_entries (log_system e ev d t p l))"
  by (simp add: log_system_def prefix_append_log)

lemma entries_for_dimension_append [log_simps]:
  "entries_for_dimension (append_log x l) d =
     entries_for_dimension l d @ (if le_dimension_id x = Some d then [x] else [])"
  by (simp add: entries_for_dimension_def append_log_def)

lemma entries_for_task_append [log_simps]:
  "entries_for_task (append_log x l) t =
     entries_for_task l t @ (if le_task_id x = Some t then [x] else [])"
  by (simp add: entries_for_task_def append_log_def)

interpretation appends: audited append_log al_entries
  by unfold_locales (rule prefix_append_log)

section \<open>Wire names\<close>

definition event_types :: "event_type list" where
  "event_types =
  [ControllerRegistered, ControllerLinked, ControllerIsolated, ControllerDisposed,
   TaskSubmitted, TaskStarted, TaskCompleted, TaskFailed,
   TaskCancelled, TaskRetried, NodeCreated, NodeUpdated,
   NodeDeleted, NodeUndo, NodeRedo, FlowEvaluated,
   FlowAdvanced, ModelHyperparametersAdjusted, ModelReloadRequested, ReplicaProvisioned,
   ReplicaReleased, ChatRequestReceived, ChatPayloadGenerated, ArtifactProduced,
   ArtifactConsumed, ArtifactSnapshot, ArtifactPatched, EditorCreated,
   InterpreterAttached, RuntimeBound, OrchestratorSubmit, OrchestratorCancel,
   OrchestratorReplay, OrchestratorProgress, LinkCreated, LinkRemoved,
   GroupCreated, GroupRemoved, SubgraphCreated, GraphValidated,
   GraphPatched, NodeExecutionStarted, NodeExecutionProgress, NodeExecutionCompleted,
   NodeExecutionFailed, NodeExecutionCancelled, NodeRelationCreated, NodeRelationRemoved,
   NodeMessageSent, NodeMessageBroadcast, TaskLeaseRenewed, TaskPaused,
   TaskResumed, TemplateCreated, TemplateCloned, TemplateForked,
   InstanceCreated, PipelineCreated, PipelineExecuted, PipelineStepExecuted,
   PipelineStepDeadLettered, TransformVersionSaved, TransformReplayRequested, SchemaRegistered,
   SchemaValidated, PipelineCheckpointed, PipelineResumed, PipelineLineageRecorded,
   StorageConnectorRegistered, PrivilegedReadSecret, PrivilegedDeploy, PrivilegedCapabilityChange,
   PrivilegedAdminChange, PrivilegedMarketplacePublish, SecurityAccessDenied, SecurityValidationFailed,
   SecuritySandboxViolation, SecurityArtifactVerified, SecurityArtifactVerificationFailed, SecuritySupplyChainVerified]"

lemma set_event_types: "set event_types = UNIV"
proof -
  have "x \<in> set event_types" for x
    by (cases x) (simp_all add: event_types_def)
  then show ?thesis by auto
qed

lemma distinct_wire_names: "distinct (map as_str event_types)"
  by (simp add: event_types_def)

lemma inj_as_str: "inj as_str"
  using distinct_wire_names by (simp add: distinct_map set_event_types)

section \<open>Properties\<close>

text \<open>The wire name of an event type identifies it: no two variants of \<open>EventType\<close> are
  written as the same string, so a log reader can tell every kind of event apart.\<close>

theorem event_names_unambiguous: "as_str a = as_str b \<longleftrightarrow> a = b"
  using inj_as_str by (auto dest: injD)

end
