(* ===== verification/Task_Allocator.thy ===== *)
theory Task_Allocator
  imports Action_Log
begin

text \<open>
  The per-dimension task identifier allocator (\<open>task_allocator.rs\<close>). The map behind the
  mutex is the state. \<open>TaskId::new()\<close> draws a UUID v7 from the \<open>uuid\<close> crate; the value
  drawn is the argument \<open>fresh\<close>. \<open>Uuid::new_v5\<close> and the hyphenated form of a UUID are the
  crate's as well and are the arguments \<open>new_v5\<close> and \<open>hyphenated\<close> of \<open>derive\<close>.
\<close>

datatype allocator_error = UnknownDimension dimension_id

record task_allocator =
  ta_last :: "dimension_id \<rightharpoonup> task_id"

definition new_allocator :: task_allocator where
  "new_allocator = \<lparr>ta_last = Map.empty\<rparr>"

definition derive_namespace :: uuid where
  "derive_namespace = 0x7a9f3c1e8b4d5e2fa6013c7d9e0b1f24"

text \<open>\<open>entry(dim).or_default()\<close>: the default of a \<open>TaskId\<close> is a fresh one.\<close>

definition register_dimension ::
  "task_id \<Rightarrow> dimension_id \<Rightarrow> task_allocator \<Rightarrow> task_allocator" where
  "register_dimension fresh dim a =
     (case ta_last a dim of
        None \<Rightarrow> a\<lparr>ta_last := (ta_last a)(dim \<mapsto> fresh)\<rparr>
      | Some _ \<Rightarrow> a)"

definition alloc_next ::
  "task_id \<Rightarrow> dimension_id \<Rightarrow> task_allocator
     \<Rightarrow> (allocator_error, task_id, task_allocator) outcome" where
  "alloc_next fresh dim a =
     (if dim \<notin> dom (ta_last a) then (Inl (UnknownDimension dim), a)
      else (Inr fresh, a\<lparr>ta_last := (ta_last a)(dim \<mapsto> fresh)\<rparr>))"

definition derive ::
  "(uuid \<Rightarrow> string \<Rightarrow> uuid) \<Rightarrow> (uuid \<Rightarrow> string) \<Rightarrow> dimension_id \<Rightarrow> string \<Rightarrow> task_id" where
  "derive new_v5 hyphenated dim name =
     new_v5 derive_namespace (hyphenated dim @ '':'' @ name)"

definition last_for :: "task_allocator \<Rightarrow> dimension_id \<Rightarrow> task_id option" where
  "last_for a dim = ta_last a dim"

datatype allocator_op = RegisterDimension task_id dimension_id | AllocNext task_id dimension_id

primrec allocator_step :: "allocator_op \<Rightarrow> task_allocator \<Rightarrow> task_allocator" where
  "allocator_step (RegisterDimension fresh dim) a = register_dimension fresh dim a"
| "allocator_step (AllocNext fresh dim) a = after (alloc_next fresh dim a)"

text \<open>The identifier an operation draws from the UUID v7 source.\<close>

primrec drawn :: "allocator_op \<Rightarrow> task_id" where
  "drawn (RegisterDimension fresh dim) = fresh"
| "drawn (AllocNext fresh dim) = fresh"

text \<open>The identifiers a run hands out for one dimension, in order.\<close>

fun issued :: "dimension_id \<Rightarrow> allocator_op list \<Rightarrow> task_allocator \<Rightarrow> task_id list" where
  "issued d [] a = []"
| "issued d (op # ops) a =
     (case op of
        AllocNext fresh dim \<Rightarrow>
          (if dim = d \<and> is_ok (result (alloc_next fresh dim a)) then [fresh] else [])
      | _ \<Rightarrow> []) @ issued d ops (allocator_step op a)"

section \<open>Lemmas\<close>

lemma registered_stays:
  "d \<in> dom (ta_last a) \<Longrightarrow> d \<in> dom (ta_last (allocator_step op a))"
  by (cases op) (auto simp: register_dimension_def alloc_next_def split: option.splits)

lemma alloc_next_ok_iff: "is_ok (result (alloc_next fresh dim a)) = (dim \<in> dom (ta_last a))"
  by (simp add: alloc_next_def)

text \<open>Whatever is issued was drawn, in the order drawn.\<close>

lemma issued_subseq: "subseq (issued d ops a) (map drawn ops)"
proof (induction ops arbitrary: a)
  case Nil
  show ?case by simp
next
  case (Cons op ops)
  from Cons.IH[of "allocator_step op a"] show ?case
    by (cases op) (auto intro: subseq_Cons')
qed

lemma sorted_subseq: "subseq xs ys \<Longrightarrow> sorted ys \<Longrightarrow> sorted xs"
  for xs :: "'a::linorder list"
proof (induction rule: list_emb.induct)
  case (list_emb_Cons2 x y xs ys)
  then have "set xs \<subseteq> set ys" by (auto dest: list_emb_set)
  with list_emb_Cons2 show ?case by auto
qed auto

lemma issued_sorted: "sorted (map drawn ops) \<Longrightarrow> sorted (issued d ops a)"
  by (rule sorted_subseq [OF issued_subseq])

lemma issued_append:
  "issued d (ops @ ops') a = issued d ops a @ issued d ops' (fold allocator_step ops a)"
  by (induction ops arbitrary: a) auto

lemma last_for_issued:
  "issued d ops a \<noteq> [] \<Longrightarrow> last_for (fold allocator_step ops a) d = Some (last (issued d ops a))"
proof (induction ops arbitrary: a rule: rev_induct)
  case Nil
  then show ?case by simp
next
  case (snoc op ops)
  note app = issued_append [of d ops "[op]" a]
  show ?case
  proof (cases "issued d [op] (fold allocator_step ops a) = []")
    case True
    with snoc app have ih: "last_for (fold allocator_step ops a) d = Some (last (issued d ops a))"
      by simp
    have "last_for (allocator_step op b) d = last_for b d"
      if "issued d [op] b = []" "last_for b d \<noteq> None" for b
      using that
      by (cases op)
        (auto simp: last_for_def register_dimension_def alloc_next_def split: option.splits if_splits)
    with True ih app show ?thesis by simp
  next
    case False
    then show ?thesis
      by (cases op) (auto simp: issued_append last_for_def alloc_next_def split: if_splits)
  qed
qed

section \<open>Properties\<close>

text \<open>If the UUID source never goes backwards over a run, the identifiers handed out for a
  dimension are non-decreasing, and \<open>last_for\<close> reports the last of them.\<close>

theorem allocator_monotone:
  assumes "sorted (map drawn ops)" and "issued d ops a \<noteq> []"
  shows "sorted (issued d ops a) \<and>
    last_for (fold allocator_step ops a) d = Some (last (issued d ops a))"
  using issued_sorted [OF assms(1)] last_for_issued [OF assms(2)] by simp

lemma allocator_monotone_witness:
  "sorted (issued 7 [RegisterDimension 1 7, AllocNext 2 7, AllocNext 3 8, AllocNext 5 7] new_allocator)
   \<and> last_for (fold allocator_step
        [RegisterDimension 1 7, AllocNext 2 7, AllocNext 3 8, AllocNext 5 7] new_allocator) 7
      = Some (last (issued 7 [RegisterDimension 1 7, AllocNext 2 7, AllocNext 3 8, AllocNext 5 7]
          new_allocator))"
  by (rule allocator_monotone)
    (simp_all add: new_allocator_def register_dimension_def alloc_next_def)

end
