(* ===== verification/Controller.thy ===== *)
theory Controller
  imports Action_Log
begin

text \<open>
  \<open>BlockController\<close> (\<open>controller.rs\<close>): the lifecycle create, link, isolate, dispose. A
  method runs with the inner mutex held, so it is one atomic step on the controller and the
  shared log. \<open>Instant::now()\<close> is a monotonic clock in milliseconds, read as a number.
\<close>

datatype controller_state = Created | Linked | Isolated | Disposed

datatype block_controller_error =
    DimensionMismatch dimension_id dimension_id
  | InvalidTransition controller_state string
  | AlreadyDisposed uuid

record block_controller =
  bc_id :: uuid
  bc_dimension_id :: dimension_id
  bc_task_id :: task_id
  bc_state :: controller_state
  bc_peer_dimension :: "dimension_id option"
  bc_created_at :: nat

type_synonym 'j controller_sys = "block_controller \<times> 'j action_log"

text \<open>
  \<open>create\<close>: \<open>new_id\<close> is the fresh UUID v4, \<open>instant\<close> the monotonic clock, and \<open>to_str\<close> the
  crate's hyphenated form of an identifier.
\<close>

definition create ::
  "(uuid \<Rightarrow> string) \<Rightarrow> env \<Rightarrow> uuid \<Rightarrow> nat \<Rightarrow> dimension_id \<Rightarrow> task_id \<Rightarrow> 'j action_log
     \<Rightarrow> 'j controller_sys" where
  "create to_str e new_id instant dimension_id task_id l =
     (\<lparr>bc_id = new_id, bc_dimension_id = dimension_id, bc_task_id = task_id,
       bc_state = Created, bc_peer_dimension = None, bc_created_at = instant\<rparr>,
      log_system e ControllerRegistered dimension_id task_id
        [(''controller_id'', PId new_id), (''controller_kind'', PText ''block''),
         (''dimension_id'', PText (to_str dimension_id))] l)"

definition validate_dimension ::
  "block_controller \<Rightarrow> dimension_id \<Rightarrow> block_controller_error + unit" where
  "validate_dimension c dim =
     (if dim \<noteq> bc_dimension_id c then Inl (DimensionMismatch (bc_dimension_id c) dim)
      else Inr ())"

definition link ::
  "(uuid \<Rightarrow> string) \<Rightarrow> env \<Rightarrow> dimension_id \<Rightarrow> 'j controller_sys
     \<Rightarrow> (block_controller_error, unit, 'j controller_sys) outcome" where
  "link to_str e peer_dimension = (\<lambda>(c, l).
     if bc_state c \<noteq> Created
     then (Inl (InvalidTransition (bc_state c) ''link() requires Created state''), (c, l))
     else (Inr (),
       (c\<lparr>bc_state := Linked, bc_peer_dimension := Some peer_dimension\<rparr>,
        log_system e ControllerLinked (bc_dimension_id c) (bc_task_id c)
          [(''controller_id'', PId (bc_id c)), (''target_id'', PText (to_str peer_dimension)),
           (''target_kind'', PText ''dimension'')] l)))"

definition isolate ::
  "env \<Rightarrow> 'j controller_sys \<Rightarrow> (block_controller_error, unit, 'j controller_sys) outcome" where
  "isolate e = (\<lambda>(c, l).
     if bc_state c \<noteq> Linked
     then (Inl (InvalidTransition (bc_state c) ''isolate() requires Linked state''), (c, l))
     else (Inr (),
       (c\<lparr>bc_state := Isolated\<rparr>,
        log_system e ControllerIsolated (bc_dimension_id c) (bc_task_id c)
          [(''controller_id'', PId (bc_id c)),
           (''reason'', PText ''explicit isolate() call'')] l)))"

text \<open>\<open>Instant::elapsed\<close> saturates at zero, as subtraction on naturals does.\<close>

definition dispose ::
  "env \<Rightarrow> nat \<Rightarrow> 'j controller_sys
     \<Rightarrow> (block_controller_error, unit, 'j controller_sys) outcome" where
  "dispose e instant = (\<lambda>(c, l).
     if bc_state c = Disposed then (Inl (AlreadyDisposed (bc_id c)), (c, l))
     else (let lifetime_ms = of_nat (instant - bc_created_at c) :: u64 in
       (Inr (),
        (c\<lparr>bc_state := Disposed\<rparr>,
         log_system e ControllerDisposed (bc_dimension_id c) (bc_task_id c)
           [(''controller_id'', PId (bc_id c)), (''lifetime_ms'', PNum lifetime_ms)] l))))"

datatype controller_op = Link dimension_id | Isolate | Dispose nat

text \<open>A call is an operation with what it draws from the environment.\<close>

type_synonym controller_call = "env \<times> controller_op"

fun controller_call ::
  "(uuid \<Rightarrow> string) \<Rightarrow> controller_call \<Rightarrow> 'j controller_sys
     \<Rightarrow> (block_controller_error, unit, 'j controller_sys) outcome" where
  "controller_call to_str (e, Link peer) s = link to_str e peer s"
| "controller_call to_str (e, Isolate) s = isolate e s"
| "controller_call to_str (e, Dispose instant) s = dispose e instant s"

definition controller_step ::
  "(uuid \<Rightarrow> string) \<Rightarrow> controller_call \<Rightarrow> 'j controller_sys \<Rightarrow> 'j controller_sys" where
  "controller_step to_str k s = after (controller_call to_str k s)"

section \<open>The documented diagram as a relation\<close>

inductive lifecycle_edge :: "controller_state \<Rightarrow> controller_state \<Rightarrow> bool" where
  created_linked: "lifecycle_edge Created Linked"
| linked_isolated: "lifecycle_edge Linked Isolated"
| to_disposed: "s \<noteq> Disposed \<Longrightarrow> lifecycle_edge s Disposed"

inductive_simps lifecycle_edge_simps [simp]:
  "lifecycle_edge Created t" "lifecycle_edge Linked t" "lifecycle_edge Isolated t"
  "lifecycle_edge Disposed t"

primrec lifecycle_rank :: "controller_state \<Rightarrow> nat" where
  "lifecycle_rank Created = 0"
| "lifecycle_rank Linked = 1"
| "lifecycle_rank Isolated = 2"
| "lifecycle_rank Disposed = 3"

lemma lifecycle_edge_rank: "lifecycle_edge s t \<Longrightarrow> lifecycle_rank s < lifecycle_rank t"
  by (cases s) auto

lemma lifecycle_rank_le_3: "lifecycle_rank s \<le> 3"
  by (cases s) auto

lemmas controller_defs = link_def isolate_def dispose_def Let_def

lemma controller_call_cases:
  obtains (failed) err where "result (controller_call to_str k (c, l)) = Inl err"
      "after (controller_call to_str k (c, l)) = (c, l)"
  | (succeeded) c' x where "result (controller_call to_str k (c, l)) = Inr ()"
      "after (controller_call to_str k (c, l)) = (c', append_log x l)"
      "lifecycle_edge (bc_state c) (bc_state c')"
      "bc_id c' = bc_id c" "bc_dimension_id c' = bc_dimension_id c"
      "bc_task_id c' = bc_task_id c"
      "le_dimension_id x = Some (bc_dimension_id c)" "le_task_id x = Some (bc_task_id c)"
proof -
  obtain e op where k: "k = (e, op)" by (cases k)
  show ?thesis
  proof (cases "is_ok (result (controller_call to_str k (c, l)))")
    case True
    then show ?thesis
      by (cases op; cases "bc_state c")
        (auto simp: k controller_defs log_system_def log_simps
          intro: succeeded split: if_splits)
  next
    case False
    then show ?thesis
      by (cases op; cases "bc_state c")
        (auto simp: k controller_defs intro: failed split: if_splits)
  qed
qed

text \<open>
  The operations a run takes successfully, and the log entries it writes: one per success,
  none per failure.
\<close>

fun successes :: "(uuid \<Rightarrow> string) \<Rightarrow> controller_call list \<Rightarrow> 'j controller_sys \<Rightarrow> nat" where
  "successes to_str [] s = 0"
| "successes to_str (k # ks) s =
     (if is_ok (result (controller_call to_str k s)) then 1 else 0)
       + successes to_str ks (controller_step to_str k s)"

lemma controller_step_entries:
  "List.length (al_entries (snd (controller_step to_str k s))) =
     List.length (al_entries (snd s))
       + (if is_ok (result (controller_call to_str k s)) then 1 else 0)"
  by (cases s; rule controller_call_cases [of to_str k "fst s" "snd s"])
    (auto simp: controller_step_def log_simps)

lemma controller_step_rank:
  "lifecycle_rank (bc_state (fst s)) + (if is_ok (result (controller_call to_str k s)) then 1 else 0)
     \<le> lifecycle_rank (bc_state (fst (controller_step to_str k s)))"
  by (cases s; rule controller_call_cases [of to_str k "fst s" "snd s"])
    (auto simp: controller_step_def dest!: lifecycle_edge_rank)

lemma run_entries:
  "List.length (al_entries (snd (fold (controller_step to_str) ks s))) =
     List.length (al_entries (snd s)) + successes to_str ks s"
  by (induction ks arbitrary: s) (auto simp: controller_step_entries)

lemma run_rank_successes:
  "lifecycle_rank (bc_state (fst s)) + successes to_str ks s
     \<le> lifecycle_rank (bc_state (fst (fold (controller_step to_str) ks s)))"
proof (induction ks arbitrary: s)
  case Nil
  show ?case by simp
next
  case (Cons k ks)
  from Cons.IH[of "controller_step to_str k s"] controller_step_rank[of s to_str k]
  show ?case by simp
qed

lemma successes_le_3: "successes to_str ks s \<le> 3"
  using run_rank_successes[of s to_str ks] lifecycle_rank_le_3[of "bc_state (fst (fold (controller_step to_str) ks s))"]
  by linarith

section \<open>Contracts\<close>

interpretation controller_audit:
  audited "controller_step to_str" "\<lambda>s :: 'j controller_sys. al_entries (snd s)"
  for to_str :: "uuid \<Rightarrow> string"
proof unfold_locales
  fix k and s :: "'j controller_sys"
  show "prefix (al_entries (snd s)) (al_entries (snd (controller_step to_str k s)))"
    by (cases s; rule controller_call_cases [of to_str k "fst s" "snd s"])
      (auto simp: controller_step_def log_simps)
qed

interpretation controller_life:
  lifecycle "controller_step to_str" "\<lambda>s :: 'j controller_sys. lifecycle_rank (bc_state (fst s))"
    "\<lambda>s. bc_state (fst s) = Disposed"
  for to_str :: "uuid \<Rightarrow> string"
proof unfold_locales
  fix k and s :: "'j controller_sys"
  show "lifecycle_rank (bc_state (fst s)) \<le> lifecycle_rank (bc_state (fst (controller_step to_str k s)))"
    using controller_step_rank[of s to_str k] by simp
next
  fix k and s :: "'j controller_sys"
  assume "bc_state (fst s) = Disposed"
  then show "controller_step to_str k s = s"
    by (cases s; cases k; cases "snd k") (auto simp: controller_step_def controller_defs)
qed

section \<open>Properties\<close>

text \<open>A lifecycle call succeeds exactly in the state its guard names and then moves along an
  edge of the documented diagram, appending one log entry of the controller's dimension and task;
  otherwise controller and log are left as they were.\<close>

theorem controller_call_spec:
  "is_ok (result (controller_call to_str (e, op) (c, l))) =
     (case op of Link peer \<Rightarrow> bc_state c = Created | Isolate \<Rightarrow> bc_state c = Linked
      | Dispose t \<Rightarrow> bc_state c \<noteq> Disposed)
   \<and> (if is_ok (result (controller_call to_str (e, op) (c, l)))
      then \<exists>c' x. after (controller_call to_str (e, op) (c, l)) = (c', append_log x l)
             \<and> lifecycle_edge (bc_state c) (bc_state c')
             \<and> bc_id c' = bc_id c \<and> bc_dimension_id c' = bc_dimension_id c
             \<and> le_dimension_id x = Some (bc_dimension_id c) \<and> le_task_id x = Some (bc_task_id c)
      else after (controller_call to_str (e, op) (c, l)) = (c, l))"
  (is "?guard \<and> ?effect")
proof
  show ?guard by (cases op) (auto simp: controller_defs)
  show ?effect by (rule controller_call_cases [of to_str "(e, op)" c l]) auto
qed

text \<open>Over any run of lifecycle calls the log gains exactly one entry per successful call,
  keeps every earlier entry, and there are at most three successes; a disposed controller no
  longer changes at all.\<close>

theorem controller_run_audited:
  fixes s :: "'j controller_sys"
  shows "prefix (al_entries (snd s)) (al_entries (snd (fold (controller_step to_str) ks s)))
   \<and> List.length (al_entries (snd (fold (controller_step to_str) ks s))) =
       List.length (al_entries (snd s)) + successes to_str ks s
   \<and> lifecycle_rank (bc_state (fst s)) + successes to_str ks s
       \<le> lifecycle_rank (bc_state (fst (fold (controller_step to_str) ks s)))
   \<and> successes to_str ks s \<le> 3
   \<and> (if bc_state (fst s) = Disposed then fold (controller_step to_str) ks s = s else True)"
  using controller_audit.run_extends [of s to_str ks] controller_life.run_terminal [of s to_str ks]
  by (simp add: run_entries run_rank_successes successes_le_3)

text \<open>
  The documented fifth invariant (a mismatched dimension is refused by \<open>link\<close>) is not what the
  code does: in the \<open>Created\<close> state it links to any dimension.
\<close>

lemma link_ignores_dimension:
  "bc_state c = Created \<Longrightarrow> result (link to_str e peer (c, l)) = Inr ()"
  by (simp add: link_def)

end
