(* ===== verification/Registry.thy ===== *)
theory Registry
  imports Action_Log
begin

text \<open>
  The block registration pipeline (\<open>registry.rs\<close>): register, create editor, attach
  interpreter, bind runtime. Every method holds the mutex of \<open>blocks\<close> from its first read to
  its last write, so it is one atomic step; \<open>new_id\<close> arguments are fresh UUIDs.

  The contract is the abstract pipeline below: each block has a stage from 0 to 3, and a call
  succeeds exactly at its own stage and moves the block to the next.
\<close>

section \<open>State and operations\<close>

datatype registry_error =
    BlockNotFound uuid
  | StageNotComplete uuid string
  | EditorAlreadyExists uuid
  | InterpreterAlreadyAttached uuid
  | AlreadyBound uuid
  | InternalInvariant uuid string

record editor_instance =
  ed_id :: uuid
  ed_dimension_id :: dimension_id
  ed_language :: string
  ed_content :: string

record 'j interpreter_attachment =
  ia_editor_id :: uuid
  ia_interpreter_type :: string
  ia_config :: 'j

record runtime_binding =
  rb_block_id :: uuid
  rb_editor_id :: uuid
  rb_dimension_id :: dimension_id
  rb_task_id :: task_id

record 'j registered_block =
  blk_dimension_id :: dimension_id
  blk_task_id :: task_id
  blk_editor :: "editor_instance option"
  blk_interpreter :: "'j interpreter_attachment option"
  blk_binding :: "runtime_binding option"

type_synonym 'j registry_sys = "(uuid \<rightharpoonup> 'j registered_block) \<times> 'j action_log"

definition new_registry :: "'j action_log \<Rightarrow> 'j registry_sys" where
  "new_registry l = (Map.empty, l)"

definition register_block ::
  "env \<Rightarrow> uuid \<Rightarrow> dimension_id \<Rightarrow> task_id \<Rightarrow> 'j registry_sys \<Rightarrow> uuid \<times> 'j registry_sys" where
  "register_block e new_id dimension_id task_id = (\<lambda>(bs, l).
     (new_id,
      (bs(new_id \<mapsto> \<lparr>blk_dimension_id = dimension_id, blk_task_id = task_id,
                    blk_editor = None, blk_interpreter = None, blk_binding = None\<rparr>),
       log_system e ControllerRegistered dimension_id task_id
         [(''block_id'', PId new_id), (''stage'', PText ''register'')] l)))"

definition create_editor ::
  "env \<Rightarrow> uuid \<Rightarrow> uuid \<Rightarrow> string \<Rightarrow> 'j registry_sys
     \<Rightarrow> (registry_error, uuid, 'j registry_sys) outcome" where
  "create_editor e new_id block_id language = (\<lambda>(bs, l).
     case bs block_id of
       None \<Rightarrow> (Inl (BlockNotFound block_id), (bs, l))
     | Some b \<Rightarrow>
         if blk_editor b \<noteq> None then (Inl (EditorAlreadyExists block_id), (bs, l))
         else
           let editor = \<lparr>ed_id = new_id, ed_dimension_id = blk_dimension_id b,
                         ed_language = language, ed_content = ''''\<rparr>
           in (Inr new_id,
               (bs(block_id \<mapsto> b\<lparr>blk_editor := Some editor\<rparr>),
                log_system e EditorCreated (blk_dimension_id b) (blk_task_id b)
                  [(''block_id'', PId block_id), (''editor_id'', PId new_id),
                   (''language'', PText language)] l)))"

definition attach_interpreter ::
  "env \<Rightarrow> uuid \<Rightarrow> string \<Rightarrow> 'j \<Rightarrow> 'j registry_sys
     \<Rightarrow> (registry_error, unit, 'j registry_sys) outcome" where
  "attach_interpreter e block_id interpreter_type config = (\<lambda>(bs, l).
     case bs block_id of
       None \<Rightarrow> (Inl (BlockNotFound block_id), (bs, l))
     | Some b \<Rightarrow>
        (case blk_editor b of
           None \<Rightarrow> (Inl (StageNotComplete block_id
                     ''create_editor() must be called before attach_interpreter()''), (bs, l))
         | Some ed \<Rightarrow>
             if blk_interpreter b \<noteq> None
             then (Inl (InterpreterAlreadyAttached block_id), (bs, l))
             else
               let attachment = \<lparr>ia_editor_id = ed_id ed,
                     ia_interpreter_type = interpreter_type, ia_config = config\<rparr>
               in (Inr (),
                   (bs(block_id \<mapsto> b\<lparr>blk_interpreter := Some attachment\<rparr>),
                    log_system e InterpreterAttached (blk_dimension_id b) (blk_task_id b)
                      [(''block_id'', PId block_id), (''editor_id'', PId (ed_id ed)),
                       (''interpreter_type'', PText interpreter_type),
                       (''config'', PJson config)] l))))"

definition bind_runtime ::
  "(uuid \<Rightarrow> string) \<Rightarrow> env \<Rightarrow> uuid \<Rightarrow> 'j registry_sys
     \<Rightarrow> (registry_error, runtime_binding, 'j registry_sys) outcome" where
  "bind_runtime to_str e block_id = (\<lambda>(bs, l).
     case bs block_id of
       None \<Rightarrow> (Inl (BlockNotFound block_id), (bs, l))
     | Some b \<Rightarrow>
        (case blk_editor b of
           None \<Rightarrow> (Inl (StageNotComplete block_id
                     ''create_editor() and attach_interpreter() must be called first''), (bs, l))
         | Some ed \<Rightarrow>
             if blk_interpreter b = None
             then (Inl (StageNotComplete block_id
                     ''attach_interpreter() must be called before bind_runtime()''), (bs, l))
             else if blk_binding b \<noteq> None then (Inl (AlreadyBound block_id), (bs, l))
             else
               let binding = \<lparr>rb_block_id = block_id, rb_editor_id = ed_id ed,
                     rb_dimension_id = blk_dimension_id b, rb_task_id = blk_task_id b\<rparr>
               in (Inr binding,
                   (bs(block_id \<mapsto> b\<lparr>blk_binding := Some binding\<rparr>),
                    log_system e RuntimeBound (blk_dimension_id b) (blk_task_id b)
                      [(''block_id'', PId block_id), (''editor_id'', PId (ed_id ed)),
                       (''dimension_id'', PText (to_str (blk_dimension_id b)))] l))))"

definition binding_for :: "'j registry_sys \<Rightarrow> uuid \<Rightarrow> runtime_binding option" where
  "binding_for s block_id = Option.bind (fst s block_id) blk_binding"

definition editor_for :: "'j registry_sys \<Rightarrow> uuid \<Rightarrow> editor_instance option" where
  "editor_for s block_id = Option.bind (fst s block_id) blk_editor"

datatype 'j registry_op =
    RegisterBlock uuid dimension_id task_id
  | CreateEditor uuid uuid string
  | AttachInterpreter uuid string 'j
  | BindRuntime uuid

fun registry_call ::
  "(uuid \<Rightarrow> string) \<Rightarrow> env \<times> 'j registry_op \<Rightarrow> 'j registry_sys
     \<Rightarrow> registry_error option \<times> 'j registry_sys" where
  "registry_call to_str (e, RegisterBlock new_id d t) s = (None, snd (register_block e new_id d t s))"
| "registry_call to_str (e, CreateEditor new_id b lang) s =
     (let r = create_editor e new_id b lang s in (err_of (result r), after r))"
| "registry_call to_str (e, AttachInterpreter b ty cfg) s =
     (let r = attach_interpreter e b ty cfg s in (err_of (result r), after r))"
| "registry_call to_str (e, BindRuntime b) s =
     (let r = bind_runtime to_str e b s in (err_of (result r), after r))"

definition registry_step ::
  "(uuid \<Rightarrow> string) \<Rightarrow> env \<times> 'j registry_op \<Rightarrow> 'j registry_sys \<Rightarrow> 'j registry_sys" where
  "registry_step to_str k s = snd (registry_call to_str k s)"

section \<open>Invariant: later stages are built on earlier ones\<close>

definition block_wf :: "uuid \<Rightarrow> 'j registered_block \<Rightarrow> bool" where
  "block_wf b r =
     ((case blk_editor r of None \<Rightarrow> blk_interpreter r = None
       | Some ed \<Rightarrow> ed_dimension_id ed = blk_dimension_id r \<and>
           (case blk_interpreter r of None \<Rightarrow> True | Some ia \<Rightarrow> ia_editor_id ia = ed_id ed)) \<and>
      (case blk_binding r of None \<Rightarrow> True
       | Some rb \<Rightarrow> blk_interpreter r \<noteq> None \<and> rb_block_id rb = b \<and>
           map_option ed_id (blk_editor r) = Some (rb_editor_id rb) \<and>
           rb_dimension_id rb = blk_dimension_id r \<and> rb_task_id rb = blk_task_id r))"

definition registry_inv :: "'j registry_sys \<Rightarrow> bool" where
  "registry_inv s = (\<forall>b r. fst s b = Some r \<longrightarrow> block_wf b r)"

lemmas registry_defs =
  register_block_def create_editor_def attach_interpreter_def bind_runtime_def Let_def

lemma registry_inv_new: "registry_inv (new_registry l)"
  by (simp add: registry_inv_def new_registry_def)

lemma registry_inv_upd:
  "registry_inv (bs, l) \<Longrightarrow> block_wf b r \<Longrightarrow> registry_inv (bs(b \<mapsto> r), l')"
  by (simp add: registry_inv_def)

lemma registry_invD: "registry_inv (bs, l) \<Longrightarrow> bs b = Some r \<Longrightarrow> block_wf b r"
  by (simp add: registry_inv_def)

lemma block_wf_stages:
  "block_wf b r \<Longrightarrow> blk_editor r = None \<Longrightarrow> blk_interpreter r = None"
  "block_wf b r \<Longrightarrow> blk_interpreter r = None \<Longrightarrow> blk_binding r = None"
  by (simp_all add: block_wf_def split: option.splits)

lemma block_wf_editor:
  assumes "block_wf b r" "blk_editor r = None" "ed_dimension_id ed = blk_dimension_id r"
  shows "block_wf b (r\<lparr>blk_editor := Some ed\<rparr>)"
proof -
  have "blk_interpreter r = None" using assms by (simp add: block_wf_stages)
  moreover from this have "blk_binding r = None" using assms by (simp add: block_wf_stages)
  ultimately show ?thesis using assms by (simp add: block_wf_def)
qed

lemma block_wf_interpreter:
  assumes "block_wf b r" "blk_interpreter r = None" "blk_editor r = Some ed"
    "ia_editor_id ia = ed_id ed"
  shows "block_wf b (r\<lparr>blk_interpreter := Some ia\<rparr>)"
proof -
  have "blk_binding r = None" using assms by (simp add: block_wf_stages)
  with assms show ?thesis by (simp add: block_wf_def)
qed

lemma block_wf_binding:
  "block_wf b r \<Longrightarrow> blk_editor r = Some ed \<Longrightarrow> blk_interpreter r \<noteq> None \<Longrightarrow>
     rb_block_id rb = b \<Longrightarrow> rb_editor_id rb = ed_id ed \<Longrightarrow>
     rb_dimension_id rb = blk_dimension_id r \<Longrightarrow> rb_task_id rb = blk_task_id r \<Longrightarrow>
     block_wf b (r\<lparr>blk_binding := Some rb\<rparr>)"
  by (simp add: block_wf_def)

lemma registry_step_inv: "registry_inv s \<Longrightarrow> registry_inv (registry_step to_str k s)"
proof -
  assume inv: "registry_inv s"
  obtain bs l where s: "s = (bs, l)" by (cases s)
  obtain e op where k: "k = (e, op)" by (cases k)
  note inv' = inv [unfolded s]
  note wf = registry_invD [OF inv']
  show ?thesis
  proof (cases op)
    case (RegisterBlock new_id d t)
    have "block_wf new_id \<lparr>blk_dimension_id = d, blk_task_id = t, blk_editor = None,
        blk_interpreter = None, blk_binding = None\<rparr>"
      by (simp add: block_wf_def)
    with inv' show ?thesis
      by (auto simp: RegisterBlock k s registry_step_def register_block_def intro: registry_inv_upd [OF inv'])
  next
    case (CreateEditor new_id b lang)
    with inv' show ?thesis
      by (auto simp: k s registry_step_def create_editor_def Let_def split: option.splits
          intro!: registry_inv_upd [OF inv'] block_wf_editor simp: wf)
  next
    case (AttachInterpreter b ty cfg)
    with inv' show ?thesis
      by (auto simp: k s registry_step_def attach_interpreter_def Let_def split: option.splits
          intro!: registry_inv_upd [OF inv'] block_wf_interpreter simp: wf)
  next
    case (BindRuntime b)
    with inv' show ?thesis
      by (auto simp: k s registry_step_def bind_runtime_def Let_def split: option.splits
          intro!: registry_inv_upd [OF inv'] block_wf_binding simp: wf)
  qed
qed

interpretation registry_sys:
  invariant_system "\<lambda>_ _. True" "registry_step to_str" registry_inv for to_str
  by unfold_locales (rule registry_step_inv)

lemma registry_step_prefix:
  "prefix (al_entries (snd s)) (al_entries (snd (registry_step to_str k s)))"
  by (cases s; cases k; cases "snd k")
    (auto simp: registry_step_def registry_defs log_simps split: option.splits)

interpretation registry_audit:
  audited "registry_step to_str" "\<lambda>s. al_entries (snd s)" for to_str
  by unfold_locales (rule registry_step_prefix)

section \<open>The abstract pipeline\<close>

definition stage_of :: "'j registered_block \<Rightarrow> nat" where
  "stage_of r =
     (if blk_binding r \<noteq> None then 3 else if blk_interpreter r \<noteq> None then 2
      else if blk_editor r \<noteq> None then 1 else 0)"

definition registry_abs :: "'j registry_sys \<Rightarrow> (uuid \<rightharpoonup> nat)" where
  "registry_abs s = map_option stage_of \<circ> fst s"

definition advance_stage :: "nat \<Rightarrow> uuid \<Rightarrow> (uuid \<rightharpoonup> nat) \<Rightarrow> (uuid \<rightharpoonup> nat)" where
  "advance_stage n b m = (if m b = Some n then m(b \<mapsto> Suc n) else m)"

primrec stage_step :: "'j registry_op \<Rightarrow> (uuid \<rightharpoonup> nat) \<Rightarrow> (uuid \<rightharpoonup> nat)" where
  "stage_step (RegisterBlock new_id d t) m = m(new_id \<mapsto> 0)"
| "stage_step (CreateEditor new_id b lang) m = advance_stage 0 b m"
| "stage_step (AttachInterpreter b ty cfg) m = advance_stage 1 b m"
| "stage_step (BindRuntime b) m = advance_stage 2 b m"

primrec pipeline_enabled :: "'j registry_op \<Rightarrow> (uuid \<rightharpoonup> nat) \<Rightarrow> bool" where
  "pipeline_enabled (RegisterBlock new_id d t) m = True"
| "pipeline_enabled (CreateEditor new_id b lang) m = (m b = Some 0)"
| "pipeline_enabled (AttachInterpreter b ty cfg) m = (m b = Some 1)"
| "pipeline_enabled (BindRuntime b) m = (m b = Some 2)"

lemma registry_abs_pair: "registry_abs (bs, l) = (\<lambda>b. map_option stage_of (bs b))"
  by (simp add: registry_abs_def fun_eq_iff)

lemma block_cases:
  assumes "registry_inv (bs, l)"
  obtains (absent) "bs b = None"
  | (s0) r where "bs b = Some r" "blk_editor r = None" "blk_interpreter r = None"
      "blk_binding r = None"
  | (s1) r ed where "bs b = Some r" "blk_editor r = Some ed" "blk_interpreter r = None"
      "blk_binding r = None"
  | (s2) r ed ia where "bs b = Some r" "blk_editor r = Some ed" "blk_interpreter r = Some ia"
      "blk_binding r = None"
  | (s3) r ed ia rb where "bs b = Some r" "blk_editor r = Some ed" "blk_interpreter r = Some ia"
      "blk_binding r = Some rb"
proof (cases "bs b")
  case None
  then show thesis by (rule absent)
next
  case (Some r)
  have "block_wf b r" using assms Some by (rule registry_invD)
  note st = block_wf_stages [OF this]
  show thesis
    by (cases "blk_editor r"; cases "blk_interpreter r"; cases "blk_binding r")
      (use Some st in \<open>auto intro: s0 s1 s2 s3\<close>)
qed

lemma create_editor_refines:
  assumes "registry_inv (bs, l)"
  shows "is_ok (result (create_editor e n b lang (bs, l))) \<longleftrightarrow> registry_abs (bs, l) b = Some 0" (is ?ok)
    and "registry_abs (after (create_editor e n b lang (bs, l))) = advance_stage 0 b (registry_abs (bs, l))" (is ?abs)
proof -
  show ?ok
    by (cases rule: block_cases [OF assms, of b])
      (simp_all add: create_editor_def registry_abs_pair stage_of_def Let_def)
  show ?abs
    by (cases rule: block_cases [OF assms, of b])
      (simp_all add: create_editor_def registry_abs_pair stage_of_def advance_stage_def Let_def fun_eq_iff)
qed

lemma attach_interpreter_refines:
  assumes "registry_inv (bs, l)"
  shows "is_ok (result (attach_interpreter e b ty cfg (bs, l))) \<longleftrightarrow> registry_abs (bs, l) b = Some 1" (is ?ok)
    and "registry_abs (after (attach_interpreter e b ty cfg (bs, l))) = advance_stage 1 b (registry_abs (bs, l))" (is ?abs)
proof -
  show ?ok
    by (cases rule: block_cases [OF assms, of b])
      (simp_all add: attach_interpreter_def registry_abs_pair stage_of_def Let_def)
  show ?abs
    by (cases rule: block_cases [OF assms, of b])
      (simp_all add: attach_interpreter_def registry_abs_pair stage_of_def advance_stage_def Let_def fun_eq_iff)
qed

lemma bind_runtime_refines:
  assumes "registry_inv (bs, l)"
  shows "is_ok (result (bind_runtime to_str e b (bs, l))) \<longleftrightarrow> registry_abs (bs, l) b = Some 2" (is ?ok)
    and "registry_abs (after (bind_runtime to_str e b (bs, l))) = advance_stage 2 b (registry_abs (bs, l))" (is ?abs)
proof -
  show ?ok
    by (cases rule: block_cases [OF assms, of b])
      (simp_all add: bind_runtime_def registry_abs_pair stage_of_def Let_def)
  show ?abs
    by (cases rule: block_cases [OF assms, of b])
      (simp_all add: bind_runtime_def registry_abs_pair stage_of_def advance_stage_def Let_def fun_eq_iff)
qed

lemma registry_call_refines:
  assumes "registry_inv s"
  shows "registry_abs (registry_step to_str (e, op) s) = stage_step op (registry_abs s)"
    and "(fst (registry_call to_str (e, op) s) = None) = pipeline_enabled op (registry_abs s)"
proof -
  obtain bs l where s: "s = (bs, l)" by (cases s)
  note refines = create_editor_refines attach_interpreter_refines bind_runtime_refines
  note ref = refines [OF assms [unfolded s]]
  show "registry_abs (registry_step to_str (e, op) s) = stage_step op (registry_abs s)"
    by (cases op) (simp_all add: s registry_step_def Let_def ref
        register_block_def stage_of_def registry_abs_pair fun_eq_iff)
  show "(fst (registry_call to_str (e, op) s) = None) = pipeline_enabled op (registry_abs s)"
    by (cases op) (simp_all add: s Let_def err_of_None_iff ref)
qed

lemma registry_run_refines:
  "registry_inv s \<Longrightarrow>
     registry_abs (fold (registry_step to_str) ks s) = fold stage_step (map snd ks) (registry_abs s)"
proof (induction ks arbitrary: s)
  case Nil
  then show ?case by simp
next
  case (Cons k ks)
  obtain e op where k: "k = (e, op)" by (cases k)
  from Cons.prems have "registry_inv (registry_step to_str k s)" by (rule registry_step_inv)
  then have "registry_abs (fold (registry_step to_str) ks (registry_step to_str k s)) =
      fold stage_step (map snd ks) (registry_abs (registry_step to_str k s))"
    by (rule Cons.IH)
  with Cons.prems show ?case by (simp add: k registry_call_refines)
qed

section \<open>Properties\<close>

text \<open>The registry implements the abstract four-stage pipeline: after any run from the empty
  registry the stage of every block is what the abstract run gives it, and the next call
  succeeds exactly when the abstract pipeline enables it.\<close>

theorem registry_implements_pipeline:
  "registry_abs (fold (registry_step to_str) ks (new_registry l)) =
       fold stage_step (map snd ks) Map.empty
   \<and> (fst (registry_call to_str (e, op) (fold (registry_step to_str) ks (new_registry l))) = None) =
       pipeline_enabled op (fold stage_step (map snd ks) Map.empty)"
proof -
  have inv: "registry_inv (fold (registry_step to_str) ks (new_registry l))"
    by (rule registry_sys.run_inv) (simp_all add: registry_inv_new)
  have abs: "registry_abs (fold (registry_step to_str) ks (new_registry l)) =
      fold stage_step (map snd ks) Map.empty"
    using registry_run_refines [OF registry_inv_new, of to_str ks l]
    by (simp add: registry_abs_def new_registry_def comp_def)
  show ?thesis using registry_call_refines(2) [OF inv] abs by simp
qed

text \<open>Whatever the history of calls, a runtime binding names its own block, the editor that
  block has, and the block's dimension and task; and an editor lives in its block's dimension.\<close>

theorem bindings_consistent:
  "case binding_for (fold (registry_step to_str) ks (new_registry l)) b of
     None \<Rightarrow> True
   | Some rb \<Rightarrow> rb_block_id rb = b \<and>
       (\<exists>ed r. editor_for (fold (registry_step to_str) ks (new_registry l)) b = Some ed \<and>
          fst (fold (registry_step to_str) ks (new_registry l)) b = Some r \<and>
          rb_editor_id rb = ed_id ed \<and> ed_dimension_id ed = rb_dimension_id rb \<and>
          rb_dimension_id rb = blk_dimension_id r \<and> rb_task_id rb = blk_task_id r)"
proof -
  define s where "s = fold (registry_step to_str) ks (new_registry l)"
  have inv: "registry_inv s"
    unfolding s_def by (rule registry_sys.run_inv) (simp_all add: registry_inv_new)
  show ?thesis
  proof (cases "binding_for s b")
    case None
    then show ?thesis by (simp add: s_def)
  next
    case (Some rb)
    then obtain r where r: "fst s b = Some r" "blk_binding r = Some rb"
      by (auto simp: binding_for_def Option.bind_eq_Some_conv)
    with inv have "block_wf b r" by (simp add: registry_inv_def)
    with r Some show ?thesis
      unfolding s_def [symmetric] by (auto simp: block_wf_def editor_for_def split: option.splits)
  qed
qed

end
