(* ===== verification/Orchestrator.thy ===== *)
theory Orchestrator
  imports Action_Log
begin

text \<open>
  \<open>LocalOrchestrator\<close> (\<open>orchestrator.rs\<close>): submit, progress, complete, fail, cancel and
  replay over one event history per task. The state is the task map, the sequence of events
  handed to the broadcast channel, and the shared log. \<open>to_str\<close> is the crate's text form of
  an identifier.
\<close>

section \<open>State and operations\<close>

datatype orchestrator_error =
    TaskNotFound task_id
  | AlreadyTerminal task_id
  | OrchDimensionMismatch dimension_id dimension_id

datatype orchestrator_event =
    Submitted (ev_task: task_id)
  | Progress (ev_task: task_id) u8 string
  | Completed (ev_task: task_id)
  | Failed (ev_task: task_id) string
  | Cancelled (ev_task: task_id)

fun ev_is_terminal :: "orchestrator_event \<Rightarrow> bool" where
  "ev_is_terminal (Completed t) = True"
| "ev_is_terminal (Failed t e) = True"
| "ev_is_terminal (Cancelled t) = True"
| "ev_is_terminal _ = False"

record orch_task_record =
  otr_history :: "orchestrator_event list"
  otr_terminal :: bool

record 'j orchestrator =
  or_dimension_id :: dimension_id
  or_tasks :: "task_id \<rightharpoonup> orch_task_record"
  or_sent :: "orchestrator_event list"
  or_log :: "'j action_log"

definition new_orchestrator :: "dimension_id \<Rightarrow> 'j action_log \<Rightarrow> 'j orchestrator" where
  "new_orchestrator d l =
     \<lparr>or_dimension_id = d, or_tasks = Map.empty, or_sent = [], or_log = l\<rparr>"

definition broadcast :: "orchestrator_event \<Rightarrow> 'j orchestrator \<Rightarrow> 'j orchestrator" where
  "broadcast event s = s\<lparr>or_sent := or_sent s @ [event]\<rparr>"

definition orch_log ::
  "env \<Rightarrow> event_type \<Rightarrow> task_id \<Rightarrow> 'j payload \<Rightarrow> 'j orchestrator \<Rightarrow> 'j orchestrator" where
  "orch_log e ev t p s = s\<lparr>or_log := log_system e ev (or_dimension_id s) t p (or_log s)\<rparr>"

definition record_event ::
  "task_id \<Rightarrow> orchestrator_event \<Rightarrow> 'j orchestrator
     \<Rightarrow> (orchestrator_error, unit, 'j orchestrator) outcome" where
  "record_event task_id event s =
     (case or_tasks s task_id of
        None \<Rightarrow> (Inl (TaskNotFound task_id), s)
      | Some r \<Rightarrow>
          if otr_terminal r then (Inl (AlreadyTerminal task_id), s)
          else (Inr (), s\<lparr>or_tasks := (or_tasks s)
                 (task_id \<mapsto> r\<lparr>otr_history := otr_history r @ [event]\<rparr>)\<rparr>))"

definition record_terminal ::
  "task_id \<Rightarrow> orchestrator_event \<Rightarrow> 'j orchestrator
     \<Rightarrow> (orchestrator_error, unit, 'j orchestrator) outcome" where
  "record_terminal task_id event s =
     (case or_tasks s task_id of
        None \<Rightarrow> (Inl (TaskNotFound task_id), s)
      | Some r \<Rightarrow>
          if otr_terminal r then (Inl (AlreadyTerminal task_id), s)
          else (Inr (), s\<lparr>or_tasks := (or_tasks s)
                 (task_id \<mapsto> r\<lparr>otr_history := otr_history r @ [event], otr_terminal := True\<rparr>)\<rparr>))"

definition orch_submit ::
  "(uuid \<Rightarrow> string) \<Rightarrow> env \<Rightarrow> task_id \<Rightarrow> dimension_id \<Rightarrow> 'j orchestrator
     \<Rightarrow> (orchestrator_error, unit, 'j orchestrator) outcome" where
  "orch_submit to_str e task_id dimension_id s =
     (if dimension_id \<noteq> or_dimension_id s
      then (Inl (OrchDimensionMismatch (or_dimension_id s) dimension_id), s)
      else
        let event = Submitted task_id;
            s1 = s\<lparr>or_tasks := (or_tasks s)
                   (task_id \<mapsto> \<lparr>otr_history = [event], otr_terminal = False\<rparr>)\<rparr>;
            s2 = broadcast event s1
        in (Inr (), orch_log e OrchestratorSubmit task_id
                      [(''task_id'', PText (to_str task_id))] s2))"

definition orch_progress ::
  "(uuid \<Rightarrow> string) \<Rightarrow> env \<Rightarrow> task_id \<Rightarrow> u8 \<Rightarrow> string \<Rightarrow> 'j orchestrator
     \<Rightarrow> (orchestrator_error, unit, 'j orchestrator) outcome" where
  "orch_progress to_str e task_id percent message s =
     (let event = Progress task_id percent message in
      case record_event task_id event s of
        (Inl err, s1) \<Rightarrow> (Inl err, s1)
      | (Inr _, s1) \<Rightarrow>
          (Inr (), orch_log e OrchestratorProgress task_id
             [(''task_id'', PText (to_str task_id)), (''percent'', PNum (ucast percent)),
              (''message'', PText message)] (broadcast event s1)))"

definition orch_complete ::
  "(uuid \<Rightarrow> string) \<Rightarrow> env \<Rightarrow> task_id \<Rightarrow> 'j orchestrator
     \<Rightarrow> (orchestrator_error, unit, 'j orchestrator) outcome" where
  "orch_complete to_str e task_id s =
     (let event = Completed task_id in
      case record_terminal task_id event s of
        (Inl err, s1) \<Rightarrow> (Inl err, s1)
      | (Inr _, s1) \<Rightarrow>
          (Inr (), orch_log e TaskCompleted task_id
             [(''task_id'', PText (to_str task_id))] (broadcast event s1)))"

definition orch_fail ::
  "(uuid \<Rightarrow> string) \<Rightarrow> env \<Rightarrow> task_id \<Rightarrow> string \<Rightarrow> 'j orchestrator
     \<Rightarrow> (orchestrator_error, unit, 'j orchestrator) outcome" where
  "orch_fail to_str e task_id error s =
     (let event = Failed task_id error in
      case record_terminal task_id event s of
        (Inl err, s1) \<Rightarrow> (Inl err, s1)
      | (Inr _, s1) \<Rightarrow>
          (Inr (), orch_log e TaskFailed task_id
             [(''task_id'', PText (to_str task_id)), (''error'', PText error)]
             (broadcast event s1)))"

definition orch_cancel ::
  "(uuid \<Rightarrow> string) \<Rightarrow> env \<Rightarrow> task_id \<Rightarrow> 'j orchestrator
     \<Rightarrow> (orchestrator_error, unit, 'j orchestrator) outcome" where
  "orch_cancel to_str e task_id s =
     (let event = Cancelled task_id in
      case record_terminal task_id event s of
        (Inl err, s1) \<Rightarrow> (Inl err, s1)
      | (Inr _, s1) \<Rightarrow>
          (Inr (), orch_log e OrchestratorCancel task_id
             [(''task_id'', PText (to_str task_id))] (broadcast event s1)))"

definition orch_replay ::
  "(uuid \<Rightarrow> string) \<Rightarrow> env \<Rightarrow> task_id \<Rightarrow> 'j orchestrator
     \<Rightarrow> (orchestrator_error, orchestrator_event list, 'j orchestrator) outcome" where
  "orch_replay to_str e task_id s =
     (case or_tasks s task_id of
        None \<Rightarrow> (Inl (TaskNotFound task_id), s)
      | Some r \<Rightarrow>
          (let events = otr_history r in
           (Inr events, orch_log e OrchestratorReplay task_id
             [(''task_id'', PText (to_str task_id)),
              (''event_count'', PNum (of_nat (List.length events)))] s)))"

datatype orch_op =
    OSubmit task_id dimension_id
  | OProgress task_id u8 string
  | OComplete task_id
  | OFail task_id string
  | OCancel task_id
  | OReplay task_id

fun orch_call ::
  "(uuid \<Rightarrow> string) \<Rightarrow> env \<times> orch_op \<Rightarrow> 'j orchestrator
     \<Rightarrow> orchestrator_error option \<times> 'j orchestrator" where
  "orch_call to_str (e, OSubmit t d) s =
     (let r = orch_submit to_str e t d s in (err_of (result r), after r))"
| "orch_call to_str (e, OProgress t p m) s =
     (let r = orch_progress to_str e t p m s in (err_of (result r), after r))"
| "orch_call to_str (e, OComplete t) s =
     (let r = orch_complete to_str e t s in (err_of (result r), after r))"
| "orch_call to_str (e, OFail t m) s =
     (let r = orch_fail to_str e t m s in (err_of (result r), after r))"
| "orch_call to_str (e, OCancel t) s =
     (let r = orch_cancel to_str e t s in (err_of (result r), after r))"
| "orch_call to_str (e, OReplay t) s =
     (let r = orch_replay to_str e t s in (err_of (result r), after r))"

definition orch_step ::
  "(uuid \<Rightarrow> string) \<Rightarrow> env \<times> orch_op \<Rightarrow> 'j orchestrator \<Rightarrow> 'j orchestrator" where
  "orch_step to_str k s = snd (orch_call to_str k s)"

section \<open>What a subscriber has seen of a task\<close>

text \<open>
  The events of task \<open>t\<close> in a broadcast sequence, from its last submission on. \<open>replay\<close> is
  meant to return exactly this.
\<close>

definition replay_push :: "task_id \<Rightarrow> orchestrator_event \<Rightarrow> orchestrator_event list
     \<Rightarrow> orchestrator_event list" where
  "replay_push t ev acc =
     (if ev_task ev \<noteq> t then acc
      else case ev of Submitted _ \<Rightarrow> [ev] | _ \<Rightarrow> acc @ [ev])"

definition replay_view :: "task_id \<Rightarrow> orchestrator_event list \<Rightarrow> orchestrator_event list" where
  "replay_view t sent = fold (replay_push t) sent []"

text \<open>
  The invariant: a task is known exactly when it was submitted, its history is what was
  broadcast for it, and the terminal flag says that the history has ended with its only
  terminal event.
\<close>

definition history_wf :: "task_id \<Rightarrow> orch_task_record \<Rightarrow> bool" where
  "history_wf t r =
     ((\<exists>evs. otr_history r = Submitted t # evs \<and> (\<forall>ev \<in> set evs. ev \<noteq> Submitted t)) \<and>
      (\<forall>ev \<in> set (otr_history r). ev_task ev = t) \<and>
      (\<forall>ev \<in> set (butlast (otr_history r)). \<not> ev_is_terminal ev) \<and>
      otr_terminal r = ev_is_terminal (last (otr_history r)))"

definition orch_inv :: "'j orchestrator \<Rightarrow> bool" where
  "orch_inv s =
     (\<forall>t. replay_view t (or_sent s) = (case or_tasks s t of None \<Rightarrow> [] | Some r \<Rightarrow> otr_history r) \<and>
       (case or_tasks s t of None \<Rightarrow> True | Some r \<Rightarrow> history_wf t r))"

lemma replay_view_snoc [simp]:
  "replay_view t (sent @ [ev]) = replay_push t ev (replay_view t sent)"
  by (simp add: replay_view_def)

lemma history_wf_submitted:
  "history_wf t \<lparr>otr_history = [Submitted t], otr_terminal = False\<rparr>"
  by (simp add: history_wf_def)

lemma history_wf_snoc:
  assumes "history_wf t r" "\<not> otr_terminal r" "ev_task ev = t" "ev \<noteq> Submitted t"
  shows "history_wf t \<lparr>otr_history = otr_history r @ [ev], otr_terminal = ev_is_terminal ev\<rparr>"
proof -
  from assms obtain evs where h: "otr_history r = Submitted t # evs"
    "\<forall>ev \<in> set evs. ev \<noteq> Submitted t" by (auto simp: history_wf_def)
  have "otr_history r = butlast (otr_history r) @ [last (otr_history r)]" using h by simp
  then have "set (otr_history r) = set (butlast (otr_history r)) \<union> {last (otr_history r)}"
    by (metis Un_insert_right list.simps(15) set_append sup_bot.right_neutral empty_set)
  with assms h show ?thesis by (auto simp: history_wf_def)
qed

text \<open>One lemma for the five appends: what an event adds to the state.\<close>

definition orch_push :: "orchestrator_event \<Rightarrow> 'j orchestrator \<Rightarrow> 'j orchestrator" where
  "orch_push ev s = s\<lparr>or_tasks := (or_tasks s)(ev_task ev \<mapsto>
     (case ev of Submitted t \<Rightarrow> \<lparr>otr_history = [ev], otr_terminal = False\<rparr>
      | _ \<Rightarrow> \<lparr>otr_history = otr_history (the (or_tasks s (ev_task ev))) @ [ev],
             otr_terminal = ev_is_terminal ev\<rparr>)),
     or_sent := or_sent s @ [ev]\<rparr>"

lemma orch_push_inv:
  assumes inv: "orch_inv s"
    and live: "case ev of Submitted t \<Rightarrow> True
      | _ \<Rightarrow> \<exists>r. or_tasks s (ev_task ev) = Some r \<and> \<not> otr_terminal r"
  shows "orch_inv (orch_push ev s)"
proof (cases "\<exists>t. ev = Submitted t")
  case True
  with inv show ?thesis
    by (auto simp: orch_inv_def orch_push_def replay_push_def history_wf_submitted)
next
  case False
  with live obtain r where r: "or_tasks s (ev_task ev) = Some r" "\<not> otr_terminal r"
    by (cases ev) auto
  with inv have "history_wf (ev_task ev) r" by (auto simp: orch_inv_def split: option.splits)
  with r False have "history_wf (ev_task ev)
      \<lparr>otr_history = otr_history r @ [ev], otr_terminal = ev_is_terminal ev\<rparr>"
    by (intro history_wf_snoc) auto
  with inv r False show ?thesis
    by (cases ev) (auto simp: orch_inv_def orch_push_def replay_push_def)
qed

lemma orch_log_fields [simp]:
  "or_tasks (orch_log e ev t p s) = or_tasks s" "or_sent (orch_log e ev t p s) = or_sent s"
  "or_dimension_id (orch_log e ev t p s) = or_dimension_id s"
  by (simp_all add: orch_log_def)

lemma orch_inv_log [simp]: "orch_inv (orch_log e ev t p s) = orch_inv s"
  by (simp add: orch_inv_def)

lemma orch_log_prefix [simp]:
  "prefix (al_entries (or_log s)) (al_entries (or_log (orch_log e ev t p s)))"
  by (simp add: orch_log_def log_simps)

lemma orch_push_log [simp]: "or_log (orch_push ev s) = or_log s"
  by (simp add: orch_push_def)

lemma live_record_history [simp]:
  "\<not> otr_terminal r \<Longrightarrow> r\<lparr>otr_history := h\<rparr> = \<lparr>otr_history = h, otr_terminal = False\<rparr>"
  by (cases r) simp

lemma record_terminal_update [simp]:
  "r\<lparr>otr_history := h, otr_terminal := b\<rparr> = \<lparr>otr_history = h, otr_terminal = b\<rparr>"
  for r :: orch_task_record
  by (cases r) simp

lemmas orch_defs = orch_submit_def orch_progress_def orch_complete_def orch_fail_def
  orch_cancel_def orch_replay_def record_event_def record_terminal_def broadcast_def Let_def

text \<open>Every call fails and changes nothing, or pushes one event and logs, or only logs.\<close>

lemma orch_call_cases:
  obtains (failed) err where "orch_call to_str k s = (Some err, s)"
  | (pushed) ev e et t p where "orch_call to_str k s = (None, orch_log e et t p (orch_push ev s))"
      "case ev of Submitted t \<Rightarrow> True
        | _ \<Rightarrow> \<exists>r. or_tasks s (ev_task ev) = Some r \<and> \<not> otr_terminal r"
  | (logged) e et t p where "orch_call to_str k s = (None, orch_log e et t p s)"
proof -
  obtain e op where k: "k = (e, op)" by (cases k)
  show thesis
  proof (cases op)
    case (OSubmit t d)
    show thesis
    proof (cases "d = or_dimension_id s")
      case True
      then show thesis
        by (intro pushed [of e OrchestratorSubmit t "[(''task_id'', PText (to_str t))]" "Submitted t"])
          (simp_all add: k OSubmit orch_submit_def orch_push_def broadcast_def Let_def)
    qed (auto simp: k OSubmit orch_submit_def intro: failed)
  next
    case (OProgress t pc m)
    show thesis
    proof (cases "\<exists>r. or_tasks s t = Some r \<and> \<not> otr_terminal r")
      case True
      then show thesis
        by (intro pushed [where ev = "Progress t pc m"])
          (auto simp: k OProgress orch_defs orch_push_def)
    qed (cases "or_tasks s t"; auto simp: k OProgress orch_defs intro!: failed)
  next
    case (OComplete t)
    show thesis
    proof (cases "\<exists>r. or_tasks s t = Some r \<and> \<not> otr_terminal r")
      case True
      then show thesis
        by (intro pushed [where ev = "Completed t"]) (auto simp: k OComplete orch_defs orch_push_def)
    qed (cases "or_tasks s t"; auto simp: k OComplete orch_defs intro!: failed)
  next
    case (OFail t m)
    show thesis
    proof (cases "\<exists>r. or_tasks s t = Some r \<and> \<not> otr_terminal r")
      case True
      then show thesis
        by (intro pushed [where ev = "Failed t m"]) (auto simp: k OFail orch_defs orch_push_def)
    qed (cases "or_tasks s t"; auto simp: k OFail orch_defs intro!: failed)
  next
    case (OCancel t)
    show thesis
    proof (cases "\<exists>r. or_tasks s t = Some r \<and> \<not> otr_terminal r")
      case True
      then show thesis
        by (intro pushed [where ev = "Cancelled t"]) (auto simp: k OCancel orch_defs orch_push_def)
    qed (cases "or_tasks s t"; auto simp: k OCancel orch_defs intro!: failed)
  next
    case (OReplay t)
    then show thesis
      by (cases "or_tasks s t") (auto simp: k orch_defs intro: failed logged)
  qed
qed

lemma orch_step_inv: "orch_inv s \<Longrightarrow> orch_inv (orch_step to_str k s)"
  by (rule orch_call_cases [of to_str k s]) (auto simp: orch_step_def intro: orch_push_inv)

lemma orch_step_prefix:
  "prefix (al_entries (or_log s)) (al_entries (or_log (orch_step to_str k s)))"
  by (rule orch_call_cases [of to_str k s]) (auto simp: orch_step_def orch_log_def log_simps)

lemma orch_inv_new: "orch_inv (new_orchestrator d l)"
  by (simp add: orch_inv_def new_orchestrator_def replay_view_def)

interpretation orch_sys: invariant_system "\<lambda>_ _. True" "orch_step to_str" orch_inv for to_str
  by unfold_locales (rule orch_step_inv)

interpretation orch_audit:
  audited "orch_step to_str" "\<lambda>s. al_entries (or_log s)" for to_str
  by unfold_locales (rule orch_step_prefix)

section \<open>A terminal task stays as it is until it is submitted again\<close>

definition resubmits :: "task_id \<Rightarrow> env \<times> orch_op \<Rightarrow> bool" where
  "resubmits t k = (\<exists>d. snd k = OSubmit t d)"

lemma slot_step_terminal:
  assumes "or_tasks s t = Some r" "otr_terminal r" "\<not> resubmits t k"
  shows "or_tasks (orch_step to_str k s) t = Some r"
proof -
  obtain e op where k: "k = (e, op)" by (cases k)
  with assms have op: "op \<noteq> OSubmit t d" for d by (auto simp: resubmits_def)
  show ?thesis
    by (cases op) (use assms op in
      \<open>auto simp: orch_step_def k orch_defs split: option.splits if_splits\<close>)
qed

lemma slot_run_terminal:
  "or_tasks s t = Some r \<Longrightarrow> otr_terminal r \<Longrightarrow> \<forall>k \<in> set ks. \<not> resubmits t k \<Longrightarrow>
     or_tasks (fold (orch_step to_str) ks s) t = Some r"
proof (induction ks arbitrary: s)
  case Nil
  then show ?case by simp
next
  case (Cons k ks)
  have "or_tasks (orch_step to_str k s) t = Some r"
    using Cons.prems by (intro slot_step_terminal) auto
  with Cons show ?case by simp
qed

section \<open>Properties\<close>

text \<open>After any run of calls, replaying a task returns exactly the events broadcast for it
  since its last submission, in order, and fails exactly for the tasks never submitted; that
  history starts with the submission and a terminal event can only be its last.\<close>

theorem replay_matches_broadcast:
  "let s = fold (orch_step to_str) ks (new_orchestrator d l) in
     result (orch_replay to_str e t s) =
       (if replay_view t (or_sent s) = [] then Inl (TaskNotFound t)
        else Inr (replay_view t (or_sent s)))
     \<and> (case or_tasks s t of None \<Rightarrow> True | Some r \<Rightarrow> history_wf t r)"
proof -
  define s where "s = fold (orch_step to_str) ks (new_orchestrator d l)"
  have "orch_inv s"
    unfolding s_def by (rule orch_sys.run_inv) (simp_all add: orch_inv_new)
  then have at: "replay_view t (or_sent s) = (case or_tasks s t of None \<Rightarrow> [] | Some r \<Rightarrow> otr_history r)"
    "case or_tasks s t of None \<Rightarrow> True | Some r \<Rightarrow> history_wf t r"
    by (auto simp: orch_inv_def)
  then show ?thesis
    unfolding s_def [symmetric] Let_def
    by (cases "or_tasks s t") (auto simp: orch_replay_def Let_def history_wf_def)
qed

text \<open>Once a task has ended (completed, failed or cancelled), no sequence of calls that does
  not submit it again changes its record: further progress, completion, failure and cancellation
  are refused.\<close>

theorem terminal_task_frozen:
  assumes "or_tasks s t = Some r" and "otr_terminal r" and "\<forall>k \<in> set ks. \<not> resubmits t k"
  shows "or_tasks (fold (orch_step to_str) ks s) t = Some r
    \<and> result (orch_cancel to_str e t (fold (orch_step to_str) ks s)) = Inl (AlreadyTerminal t)"
  using slot_run_terminal [OF assms, of to_str] assms(2)
  by (simp add: orch_cancel_def record_terminal_def)

definition ended_orchestrator :: "nat orchestrator" where
  "ended_orchestrator = fold (orch_step (\<lambda>_. []))
     [(\<lparr>env_now = 1, env_event_id = 1\<rparr>, OSubmit 5 9), (\<lparr>env_now = 2, env_event_id = 2\<rparr>, OCancel 5)]
     (new_orchestrator 9 new_log)"

lemma terminal_task_frozen_witness:
  "or_tasks (fold (orch_step (\<lambda>_. [])) [(\<lparr>env_now = 3, env_event_id = 3\<rparr>, OComplete 5)]
      ended_orchestrator) 5 = Some \<lparr>otr_history = [Submitted 5, Cancelled 5], otr_terminal = True\<rparr>
   \<and> result (orch_cancel (\<lambda>_. []) \<lparr>env_now = 4, env_event_id = 4\<rparr> 5
        (fold (orch_step (\<lambda>_. [])) [(\<lparr>env_now = 3, env_event_id = 3\<rparr>, OComplete 5)]
          ended_orchestrator)) = Inl (AlreadyTerminal 5)"
  by (rule terminal_task_frozen)
    (simp_all add: ended_orchestrator_def new_orchestrator_def orch_step_def orch_defs orch_log_def
      resubmits_def)

end
