(* ===== verification/Executor.thy ===== *)
theory Executor
  imports Core
begin

text \<open>
  The task execution engine (\<open>ify-executor\<close>). Tasks run concurrently, so the executor is a
  step relation: one rule per atomic action of the source (a queue access under its mutex, one
  compare-exchange, one store, a semaphore acquire or release, one send), and any enabled action
  may be next. The future of a task is the environment's: it may resolve at any time with any
  result, or panic; that it awaits other tasks is a restriction on runs, stated where runs are
  judged. The unwinding of a panic (the permit dropped, the sender dropped unsent) is one action.
  One \<open>run_all\<close> drives at a time, which is how the crate uses it; a task's \<open>JoinHandle\<close> is
  awaited before \<open>run_all\<close> returns, so a new drive starts when the batch is done.
\<close>

section \<open>Task states\<close>

datatype task_state = Queued | Running | Paused | Cancelled | Failed | Completed

primrec as_u8 :: "task_state \<Rightarrow> u8" where
  "as_u8 Queued = 0"
| "as_u8 Running = 1"
| "as_u8 Paused = 2"
| "as_u8 Cancelled = 3"
| "as_u8 Failed = 4"
| "as_u8 Completed = 5"

definition from_u8 :: "u8 \<Rightarrow> task_state" where
  "from_u8 v =
     (if v = 0 then Queued else if v = 1 then Running else if v = 2 then Paused
      else if v = 3 then Cancelled else if v = 4 then Failed else if v = 5 then Completed
      else Failed)"

lemma from_as_u8 [simp]: "from_u8 (as_u8 st) = st"
  by (cases st) (simp_all add: from_u8_def)

lemma as_u8_eq_iff [simp]: "as_u8 a = as_u8 b \<longleftrightarrow> a = b"
  by (cases a; cases b) simp_all

datatype executor_error =
    QueueFull usize
  | TaskNotFound task_id
  | CancelledError task_id
  | TaskFailed task_id string
  | ShutDown

record executor_config =
  max_concurrent :: nat
  queue_depth :: nat

definition default_config :: executor_config where
  "default_config = \<lparr>max_concurrent = 32, queue_depth = 1024\<rparr>"

section \<open>State\<close>

text \<open>
  Where a task is in \<open>submit\<close> and \<open>run_all\<close>: in the queue; taken into the batch; spawned
  with a permit; running its future; its future resolved; its permit dropped; the result stored;
  done, with its completion message sent; or its future panicked, with the permit and the sender
  dropped.
\<close>

datatype exec_phase =
    InQueue
  | InBatch
  | Spawned
  | Polling
  | Resolved "string + unit"
  | Released "string + unit"
  | Stored "string + unit"
  | Done "string + unit"
  | Panicked

record exec_task =
  et_state :: u8
  et_phase :: exec_phase
  et_completion :: "(executor_error + unit) option"

record executor =
  ex_config :: executor_config
  ex_queue :: "task_id list"
  ex_batch :: "task_id list"
  ex_flight :: "task_id list"
  ex_tasks :: "task_id \<rightharpoonup> exec_task"
  ex_permits :: nat
  ex_cancels :: "task_id list"

definition new_executor :: "executor_config \<Rightarrow> executor" where
  "new_executor cfg =
     \<lparr>ex_config = cfg, ex_queue = [], ex_batch = [], ex_flight = [], ex_tasks = Map.empty,
      ex_permits = max_concurrent cfg, ex_cancels = []\<rparr>"

text \<open>\<open>submit\<close>: the body under the queue lock.\<close>

definition submit ::
  "task_id \<Rightarrow> executor \<Rightarrow> (executor_error, task_id, executor) outcome" where
  "submit fresh s =
     (if queue_depth (ex_config s) \<le> List.length (ex_queue s)
      then (Inl (QueueFull (of_nat (queue_depth (ex_config s)))), s)
      else (Inr fresh,
        s\<lparr>ex_queue := ex_queue s @ [fresh],
          ex_tasks := (ex_tasks s)(fresh \<mapsto>
            \<lparr>et_state = as_u8 Queued, et_phase = InQueue, et_completion = None\<rparr>)\<rparr>))"

text \<open>One \<open>compare_exchange\<close> on a task's state cell.\<close>

definition compare_exchange :: "task_id \<Rightarrow> u8 \<Rightarrow> u8 \<Rightarrow> executor \<Rightarrow> executor" where
  "compare_exchange t old new s =
     (case ex_tasks s t of
        None \<Rightarrow> s
      | Some x \<Rightarrow> if et_state x = old then s\<lparr>ex_tasks := (ex_tasks s)(t \<mapsto> x\<lparr>et_state := new\<rparr>)\<rparr>
          else s)"

definition set_task :: "task_id \<Rightarrow> exec_task \<Rightarrow> executor \<Rightarrow> executor" where
  "set_task t x s = s\<lparr>ex_tasks := (ex_tasks s)(t \<mapsto> x)\<rparr>"

text \<open>The message and the final state the spawned task writes.\<close>

fun completion_of :: "task_id \<Rightarrow> string + unit \<Rightarrow> executor_error + unit" where
  "completion_of t (Inr u) = Inr ()"
| "completion_of t (Inl msg) = Inl (TaskFailed t msg)"

fun final_state :: "string + unit \<Rightarrow> task_state" where
  "final_state (Inr u) = Completed"
| "final_state (Inl msg) = Failed"

text \<open>
  \<open>cancel\<close> is two compare-exchanges, first from \<open>Running\<close> and then from \<open>Queued\<close>; another
  thread may act in between. \<open>ex_cancels\<close> holds the calls that are between the two.
\<close>

inductive exec_step :: "executor \<Rightarrow> executor \<Rightarrow> bool" where
  submitted: "fresh \<notin> dom (ex_tasks s) \<Longrightarrow> submit fresh s = (Inr fresh, s') \<Longrightarrow> exec_step s s'"
| take_batch: "ex_batch s = [] \<Longrightarrow> ex_flight s = [] \<Longrightarrow>
    exec_step s (s\<lparr>ex_queue := [], ex_batch := ex_queue s,
      ex_permits := max_concurrent (ex_config s),
      ex_tasks := (\<lambda>t. if t \<in> set (ex_queue s)
        then map_option (\<lambda>x. x\<lparr>et_phase := InBatch\<rparr>) (ex_tasks s t) else ex_tasks s t)\<rparr>)"
| spawn: "ex_batch s = t # ts \<Longrightarrow> 0 < ex_permits s \<Longrightarrow> ex_tasks s t = Some x \<Longrightarrow>
    exec_step s (set_task t (x\<lparr>et_phase := Spawned\<rparr>)
      (s\<lparr>ex_batch := ts, ex_permits := ex_permits s - 1, ex_flight := t # ex_flight s\<rparr>))"
| start: "ex_tasks s t = Some x \<Longrightarrow> et_phase x = Spawned \<Longrightarrow>
    exec_step s (set_task t (x\<lparr>et_state := as_u8 Running, et_phase := Polling\<rparr>) s)"
| resolve: "ex_tasks s t = Some x \<Longrightarrow> et_phase x = Polling \<Longrightarrow>
    exec_step s (set_task t (x\<lparr>et_phase := Resolved r\<rparr>) s)"
| release: "ex_tasks s t = Some x \<Longrightarrow> et_phase x = Resolved r \<Longrightarrow>
    exec_step s (set_task t (x\<lparr>et_phase := Released r\<rparr>) (s\<lparr>ex_permits := ex_permits s + 1\<rparr>))"
| store: "ex_tasks s t = Some x \<Longrightarrow> et_phase x = Released r \<Longrightarrow>
    exec_step s (set_task t (x\<lparr>et_state := as_u8 (final_state r), et_phase := Stored r\<rparr>) s)"
| finish: "ex_tasks s t = Some x \<Longrightarrow> et_phase x = Stored r \<Longrightarrow>
    exec_step s (set_task t (x\<lparr>et_phase := Done r, et_completion := Some (completion_of t r)\<rparr>)
      (s\<lparr>ex_flight := removeAll t (ex_flight s)\<rparr>))"
| panic: "ex_tasks s t = Some x \<Longrightarrow> et_phase x = Polling \<Longrightarrow>
    exec_step s (set_task t (x\<lparr>et_phase := Panicked\<rparr>)
      (s\<lparr>ex_permits := ex_permits s + 1, ex_flight := removeAll t (ex_flight s)\<rparr>))"
| cancel_running: "t \<in> dom (ex_tasks s) \<Longrightarrow>
    exec_step s ((compare_exchange t (as_u8 Running) (as_u8 Cancelled) s)
      \<lparr>ex_cancels := t # ex_cancels s\<rparr>)"
| cancel_queued: "t \<in> set (ex_cancels s) \<Longrightarrow>
    exec_step s ((compare_exchange t (as_u8 Queued) (as_u8 Cancelled) s)
      \<lparr>ex_cancels := remove1 t (ex_cancels s)\<rparr>)"

inductive exec_reachable :: "executor_config \<Rightarrow> executor \<Rightarrow> bool" for cfg where
  initial: "exec_reachable cfg (new_executor cfg)"
| next_step: "exec_reachable cfg s \<Longrightarrow> exec_step s s' \<Longrightarrow> exec_reachable cfg s'"

section \<open>Invariant\<close>

fun holds_permit :: "exec_phase \<Rightarrow> bool" where
  "holds_permit Spawned = True"
| "holds_permit Polling = True"
| "holds_permit (Resolved r) = True"
| "holds_permit _ = False"

fun in_flight :: "exec_phase \<Rightarrow> bool" where
  "in_flight Spawned = True"
| "in_flight Polling = True"
| "in_flight (Resolved r) = True"
| "in_flight (Released r) = True"
| "in_flight (Stored r) = True"
| "in_flight _ = False"

text \<open>The tasks that hold a permit: the ones that execute at the same time.\<close>

definition phase_of :: "executor \<Rightarrow> task_id \<Rightarrow> exec_phase option" where
  "phase_of s t = map_option et_phase (ex_tasks s t)"

definition executing :: "executor \<Rightarrow> task_id list" where
  "executing s = filter (\<lambda>t. case phase_of s t of None \<Rightarrow> False | Some p \<Rightarrow> holds_permit p) (ex_flight s)"

text \<open>The tasks of the three lists are distinct and each is in the phase of its list.\<close>

definition exec_places :: "executor \<Rightarrow> bool" where
  "exec_places s =
     (distinct (ex_queue s) \<and> distinct (ex_batch s) \<and> distinct (ex_flight s) \<and>
      (\<forall>t. (t \<in> set (ex_queue s)) = (phase_of s t = Some InQueue)) \<and>
      (\<forall>t. (t \<in> set (ex_batch s)) = (phase_of s t = Some InBatch)) \<and>
      (\<forall>t. (t \<in> set (ex_flight s)) = (\<exists>p. phase_of s t = Some p \<and> in_flight p)))"

definition exec_counts :: "executor \<Rightarrow> bool" where
  "exec_counts s =
     (List.length (executing s) + ex_permits s = max_concurrent (ex_config s) \<and>
      List.length (ex_queue s) \<le> queue_depth (ex_config s))"

text \<open>What the state cell and the completion channel say of a task.\<close>

fun was_started :: "exec_phase \<Rightarrow> bool" where
  "was_started Polling = True"
| "was_started (Resolved r) = True"
| "was_started (Released r) = True"
| "was_started Panicked = True"
| "was_started _ = False"

definition task_reports :: "task_id \<Rightarrow> exec_task \<Rightarrow> bool" where
  "task_reports t x =
     (case et_phase x of
        Done r \<Rightarrow> et_state x = as_u8 (final_state r) \<and> et_completion x = Some (completion_of t r)
      | Stored r \<Rightarrow> et_state x = as_u8 (final_state r) \<and> et_completion x = None
      | p \<Rightarrow> et_completion x = None \<and>
          et_state x \<in> (if was_started p then {as_u8 Running, as_u8 Cancelled}
                        else {as_u8 Queued, as_u8 Cancelled}))"

definition exec_reports :: "executor \<Rightarrow> bool" where
  "exec_reports s = (\<forall>t x. ex_tasks s t = Some x \<longrightarrow> task_reports t x)"

definition exec_inv :: "executor \<Rightarrow> bool" where
  "exec_inv s = (exec_places s \<and> exec_counts s \<and> exec_reports s)"

lemma exec_inv_new: "exec_inv (new_executor cfg)"
  by (simp add: exec_inv_def exec_places_def exec_counts_def exec_reports_def new_executor_def
      phase_of_def executing_def)

text \<open>What each rule does to phases and to the state cell, one task at a time.\<close>

lemma set_task_fields [simp]:
  "ex_config (set_task t x s) = ex_config s" "ex_queue (set_task t x s) = ex_queue s"
  "ex_batch (set_task t x s) = ex_batch s" "ex_flight (set_task t x s) = ex_flight s"
  "ex_permits (set_task t x s) = ex_permits s"
  "ex_tasks (set_task t x s) = (ex_tasks s)(t \<mapsto> x)"
  by (simp_all add: set_task_def)

lemma phase_of_updates [simp]:
  "phase_of (s\<lparr>ex_queue := a\<rparr>) = phase_of s" "phase_of (s\<lparr>ex_batch := a\<rparr>) = phase_of s"
  "phase_of (s\<lparr>ex_flight := a\<rparr>) = phase_of s" "phase_of (s\<lparr>ex_permits := n\<rparr>) = phase_of s"
  "phase_of (s\<lparr>ex_cancels := a\<rparr>) = phase_of s"
  by (simp_all add: phase_of_def fun_eq_iff)

lemma phase_of_set_task [simp]:
  "phase_of (set_task t x s) = (phase_of s)(t \<mapsto> et_phase x)"
  by (simp add: phase_of_def fun_eq_iff)

lemma compare_exchange_fields [simp]:
  "ex_config (compare_exchange t a b s) = ex_config s"
  "ex_queue (compare_exchange t a b s) = ex_queue s"
  "ex_batch (compare_exchange t a b s) = ex_batch s"
  "ex_flight (compare_exchange t a b s) = ex_flight s"
  "ex_permits (compare_exchange t a b s) = ex_permits s"
  "phase_of (compare_exchange t a b s) = phase_of s"
  by (auto simp: compare_exchange_def phase_of_def fun_eq_iff split: option.splits)

lemma exec_places_cong:
  "ex_queue s' = ex_queue s \<Longrightarrow> ex_batch s' = ex_batch s \<Longrightarrow> ex_flight s' = ex_flight s \<Longrightarrow>
     phase_of s' = phase_of s \<Longrightarrow> exec_places s' = exec_places s"
  by (simp add: exec_places_def)

lemma exec_counts_cong:
  "ex_queue s' = ex_queue s \<Longrightarrow> ex_config s' = ex_config s \<Longrightarrow> ex_flight s' = ex_flight s \<Longrightarrow>
     phase_of s' = phase_of s \<Longrightarrow> ex_permits s' = ex_permits s \<Longrightarrow> exec_counts s' = exec_counts s"
  by (simp add: exec_counts_def executing_def)

lemma final_state_u8 [simp]:
  "as_u8 (final_state r) \<noteq> 0" "as_u8 (final_state r) \<noteq> 1" "as_u8 (final_state r) \<noteq> 3"
  by (cases r; simp)+

lemma task_reports_cancel:
  "task_reports t x \<Longrightarrow> et_state x = as_u8 Queued \<or> et_state x = as_u8 Running \<Longrightarrow>
     task_reports t (x\<lparr>et_state := as_u8 Cancelled\<rparr>)"
  by (cases "et_phase x") (auto simp: task_reports_def)

lemma compare_exchange_reports:
  "exec_reports s \<Longrightarrow> old = as_u8 Queued \<or> old = as_u8 Running \<Longrightarrow>
     exec_reports (compare_exchange t old (as_u8 Cancelled) s)"
  unfolding exec_reports_def compare_exchange_def
  by (auto split: option.splits simp del: as_u8.simps intro: task_reports_cancel)

lemma exec_reports_set_task:
  "exec_reports s \<Longrightarrow> task_reports t x \<Longrightarrow> exec_reports (set_task t x s)"
  by (simp add: exec_reports_def)

lemma task_reports_of:
  "exec_reports s \<Longrightarrow> ex_tasks s t = Some x \<Longrightarrow> task_reports t x"
  by (simp add: exec_reports_def)

text \<open>One preservation lemma per rule.\<close>

lemma submitted_inv:
  assumes inv: "exec_inv s" and fresh: "fresh \<notin> dom (ex_tasks s)"
    and ok: "submit fresh s = (Inr fresh, s')"
  shows "exec_inv s'"
proof -
  have ph: "phase_of s fresh = None" using fresh by (auto simp: phase_of_def)
  from ok have room: "List.length (ex_queue s) < queue_depth (ex_config s)"
    and s': "s' = set_task fresh \<lparr>et_state = as_u8 Queued, et_phase = InQueue, et_completion = None\<rparr>
        (s\<lparr>ex_queue := ex_queue s @ [fresh]\<rparr>)"
    by (auto simp: submit_def set_task_def split: if_splits)
  from inv ph have nofl: "fresh \<notin> set (ex_flight s)" "fresh \<notin> set (ex_queue s)" "fresh \<notin> set (ex_batch s)"
    by (auto simp: exec_inv_def exec_places_def)
  have "executing s' = executing s"
    unfolding executing_def using nofl by (auto simp: s' intro!: filter_cong)
  moreover have "exec_reports s'"
  proof -
    have "task_reports fresh \<lparr>et_state = as_u8 Queued, et_phase = InQueue, et_completion = None\<rparr>"
      by (simp add: task_reports_def)
    then show ?thesis using inv by (simp add: s' exec_inv_def exec_reports_def)
  qed
  ultimately show ?thesis
    using inv room nofl ph by (auto simp: exec_inv_def exec_counts_def exec_places_def s')
qed

lemma take_batch_inv:
  assumes inv: "exec_inv s" and empty: "ex_batch s = []" "ex_flight s = []"
  shows "exec_inv (s\<lparr>ex_queue := [], ex_batch := ex_queue s,
      ex_permits := max_concurrent (ex_config s),
      ex_tasks := (\<lambda>t. if t \<in> set (ex_queue s)
        then map_option (\<lambda>x. x\<lparr>et_phase := InBatch\<rparr>) (ex_tasks s t) else ex_tasks s t)\<rparr>)"
    (is "exec_inv ?s'")
proof -
  define s' where "s' = ?s'"
  have fields: "ex_queue s' = []" "ex_batch s' = ex_queue s" "ex_flight s' = []"
    "ex_permits s' = max_concurrent (ex_config s)" "ex_config s' = ex_config s"
    using empty by (simp_all add: s'_def)
  have ph': "phase_of s' t = (if t \<in> set (ex_queue s) then Some InBatch else phase_of s t)" for t
    using inv by (auto simp: s'_def phase_of_def exec_inv_def exec_places_def)
  have "exec_reports s'"
  proof -
    have "task_reports t (x\<lparr>et_phase := InBatch\<rparr>)" if "t \<in> set (ex_queue s)" "ex_tasks s t = Some x" for t x
    proof -
      have "et_phase x = InQueue"
        using inv that by (auto simp: exec_inv_def exec_places_def phase_of_def)
      moreover have "task_reports t x" using inv that by (auto simp: exec_inv_def intro: task_reports_of)
      ultimately show ?thesis by (simp add: task_reports_def)
    qed
    then show ?thesis using inv by (auto simp: s'_def exec_inv_def exec_reports_def)
  qed
  moreover have "exec_places s'"
    using inv empty by (auto simp: exec_inv_def exec_places_def fields ph')
  moreover have "exec_counts s'"
    by (simp add: exec_counts_def executing_def fields)
  ultimately show ?thesis by (simp add: exec_inv_def s'_def)
qed

lemma spawn_inv:
  assumes inv: "exec_inv s" and step: "ex_batch s = t # ts" "0 < ex_permits s" "ex_tasks s t = Some x"
  shows "exec_inv (set_task t (x\<lparr>et_phase := Spawned\<rparr>)
      (s\<lparr>ex_batch := ts, ex_permits := ex_permits s - 1, ex_flight := t # ex_flight s\<rparr>))"
    (is "exec_inv ?s'")
proof -
  have pht: "phase_of s t = Some InBatch"
    using inv step by (auto simp: exec_inv_def exec_places_def)
  from inv pht have nofl: "t \<notin> set (ex_flight s)" "t \<notin> set (ex_queue s)" "t \<notin> set ts" "distinct ts"
    using step by (auto simp: exec_inv_def exec_places_def)
  have "executing ?s' = t # executing s"
    unfolding executing_def using nofl by (auto intro!: filter_cong)
  moreover have "exec_reports ?s'"
  proof -
    have "task_reports t x" using inv step by (auto simp: exec_inv_def intro: task_reports_of)
    moreover have "et_phase x = InBatch" using pht step by (simp add: phase_of_def)
    ultimately have "task_reports t (x\<lparr>et_phase := Spawned\<rparr>)" by (simp add: task_reports_def)
    then show ?thesis using inv by (simp add: exec_inv_def exec_reports_def)
  qed
  moreover have "exec_places ?s'"
    using inv nofl step pht by (auto simp: exec_inv_def exec_places_def)
  ultimately show ?thesis
    using inv step by (auto simp: exec_inv_def exec_counts_def)
qed

text \<open>A task in flight takes its next step, or leaves the flight.\<close>

lemma flight_step_inv:
  assumes inv: "exec_inv s" and x: "ex_tasks s t = Some x" "in_flight (et_phase x)"
    and x': "in_flight (et_phase x')" "task_reports t x'"
    and n: "n + (if holds_permit (et_phase x') then 1 else 0) =
      ex_permits s + (if holds_permit (et_phase x) then 1 else 0)"
  shows "exec_inv (set_task t x' (s\<lparr>ex_permits := n\<rparr>))" (is "exec_inv ?s'")
proof -
  have pht: "phase_of s t = Some (et_phase x)" using x by (simp add: phase_of_def)
  have fl: "distinct (ex_flight s)" "t \<in> set (ex_flight s)"
    using inv pht x(2) by (auto simp: exec_inv_def exec_places_def)
  have "List.length (executing ?s') + (if holds_permit (et_phase x) then 1 else 0) =
      List.length (executing s) + (if holds_permit (et_phase x') then 1 else 0)"
    using length_filter_change [OF fl,
        of "\<lambda>u. case phase_of ?s' u of None \<Rightarrow> False | Some p \<Rightarrow> holds_permit p"
          "\<lambda>u. case phase_of s u of None \<Rightarrow> False | Some p \<Rightarrow> holds_permit p"] pht
    by (simp add: executing_def)
  moreover have "exec_reports ?s'"
    using inv x'(2) by (intro exec_reports_set_task) (simp_all add: exec_inv_def exec_reports_def)
  moreover have "exec_places ?s'"
    using inv pht x(2) x'(1) by (auto simp: exec_inv_def exec_places_def)
  ultimately show ?thesis using inv n by (auto simp: exec_inv_def exec_counts_def split: if_splits)
qed

lemma flight_leave_inv:
  assumes inv: "exec_inv s" and x: "ex_tasks s t = Some x" "in_flight (et_phase x)"
    and x': "\<not> in_flight (et_phase x')" "et_phase x' \<noteq> InQueue" "et_phase x' \<noteq> InBatch"
      "task_reports t x'"
    and n: "n = ex_permits s + (if holds_permit (et_phase x) then 1 else 0)"
  shows "exec_inv (set_task t x' (s\<lparr>ex_permits := n, ex_flight := removeAll t (ex_flight s)\<rparr>))"
    (is "exec_inv ?s'")
proof -
  have pht: "phase_of s t = Some (et_phase x)" using x by (simp add: phase_of_def)
  have fl: "distinct (ex_flight s)" "t \<in> set (ex_flight s)"
    using inv pht x(2) by (auto simp: exec_inv_def exec_places_def)
  have "executing ?s' = filter (\<lambda>u. u \<noteq> t \<and>
      (case phase_of s u of None \<Rightarrow> False | Some p \<Rightarrow> holds_permit p)) (ex_flight s)"
    unfolding executing_def by (auto simp: removeAll_filter_not_eq intro!: filter_cong)
  then have "List.length (executing ?s') + (if holds_permit (et_phase x) then 1 else 0) =
      List.length (executing s)"
    using length_filter_change [OF fl,
        of "\<lambda>u. u \<noteq> t \<and> (case phase_of s u of None \<Rightarrow> False | Some p \<Rightarrow> holds_permit p)"
          "\<lambda>u. case phase_of s u of None \<Rightarrow> False | Some p \<Rightarrow> holds_permit p"] pht
    by (simp add: executing_def)
  moreover have "exec_reports ?s'"
    using inv x'(4) by (intro exec_reports_set_task) (simp_all add: exec_inv_def exec_reports_def)
  moreover have "exec_places ?s'"
    using inv pht x(2) x'(1-3) by (auto simp: exec_inv_def exec_places_def distinct_removeAll)
  ultimately show ?thesis using inv n by (auto simp: exec_inv_def exec_counts_def split: if_splits)
qed

lemma flight_rules_inv:
  assumes inv: "exec_inv s" and x: "ex_tasks s t = Some x"
  shows "et_phase x = Spawned \<Longrightarrow>
      exec_inv (set_task t (x\<lparr>et_state := as_u8 Running, et_phase := Polling\<rparr>) s)"
    "et_phase x = Polling \<Longrightarrow> exec_inv (set_task t (x\<lparr>et_phase := Resolved r\<rparr>) s)"
    "et_phase x = Resolved r \<Longrightarrow>
      exec_inv (set_task t (x\<lparr>et_phase := Released r\<rparr>) (s\<lparr>ex_permits := ex_permits s + 1\<rparr>))"
    "et_phase x = Released r \<Longrightarrow>
      exec_inv (set_task t (x\<lparr>et_state := as_u8 (final_state r), et_phase := Stored r\<rparr>) s)"
    "et_phase x = Stored r \<Longrightarrow>
      exec_inv (set_task t (x\<lparr>et_phase := Done r, et_completion := Some (completion_of t r)\<rparr>)
        (s\<lparr>ex_flight := removeAll t (ex_flight s)\<rparr>))"
    "et_phase x = Polling \<Longrightarrow>
      exec_inv (set_task t (x\<lparr>et_phase := Panicked\<rparr>)
        (s\<lparr>ex_permits := ex_permits s + 1, ex_flight := removeAll t (ex_flight s)\<rparr>))"
proof -
  have reports: "task_reports t x" using inv x by (auto simp: exec_inv_def intro: task_reports_of)
  note stay = flight_step_inv [OF inv x, where n = "ex_permits s", simplified]
    and free = flight_step_inv [OF inv x, where n = "ex_permits s + 1"]
  show "exec_inv (set_task t (x\<lparr>et_state := as_u8 Running, et_phase := Polling\<rparr>) s)"
    if "et_phase x = Spawned"
    using that reports by (intro stay) (simp_all add: task_reports_def)
  show "exec_inv (set_task t (x\<lparr>et_phase := Resolved r\<rparr>) s)" if "et_phase x = Polling"
    using that reports by (intro stay) (simp_all add: task_reports_def)
  show "exec_inv (set_task t (x\<lparr>et_phase := Released r\<rparr>) (s\<lparr>ex_permits := ex_permits s + 1\<rparr>))"
    if "et_phase x = Resolved r"
    using that reports by (intro free) (simp_all add: task_reports_def)
  show "exec_inv (set_task t (x\<lparr>et_state := as_u8 (final_state r), et_phase := Stored r\<rparr>) s)"
    if "et_phase x = Released r"
    using that reports by (intro stay) (simp_all add: task_reports_def)
  show "exec_inv (set_task t (x\<lparr>et_phase := Done r, et_completion := Some (completion_of t r)\<rparr>)
      (s\<lparr>ex_flight := removeAll t (ex_flight s)\<rparr>))" if "et_phase x = Stored r"
    using that reports flight_leave_inv [OF inv x, where n = "ex_permits s",
        of "x\<lparr>et_phase := Done r, et_completion := Some (completion_of t r)\<rparr>"]
    by (simp add: task_reports_def)
  show "exec_inv (set_task t (x\<lparr>et_phase := Panicked\<rparr>)
      (s\<lparr>ex_permits := ex_permits s + 1, ex_flight := removeAll t (ex_flight s)\<rparr>))"
    if "et_phase x = Polling"
    using that reports by (intro flight_leave_inv [OF inv x]) (simp_all add: task_reports_def)
qed

lemma cancel_inv:
  assumes inv: "exec_inv s" and old: "old = as_u8 Queued \<or> old = as_u8 Running"
  shows "exec_inv ((compare_exchange t old (as_u8 Cancelled) s)\<lparr>ex_cancels := cs\<rparr>)"
    (is "exec_inv ?s'")
proof -
  have ph: "phase_of ?s' = phase_of s"
    using compare_exchange_fields(6) by (simp add: phase_of_def)
  have "exec_reports ?s'"
    using compare_exchange_reports [of s old t] inv old by (simp add: exec_inv_def exec_reports_def)
  then show ?thesis
    using inv by (simp add: exec_inv_def exec_places_def exec_counts_def executing_def ph)
qed

lemma exec_step_inv: "exec_step s s' \<Longrightarrow> exec_inv s \<Longrightarrow> exec_inv s'"
  by (induction rule: exec_step.induct)
    (blast intro: submitted_inv take_batch_inv spawn_inv flight_rules_inv cancel_inv)+

lemma exec_reachable_inv: "exec_reachable cfg s \<Longrightarrow> exec_inv s"
  by (induction rule: exec_reachable.induct) (auto intro: exec_inv_new exec_step_inv)

lemma exec_step_config: "exec_step s s' \<Longrightarrow> ex_config s' = ex_config s"
  by (induction rule: exec_step.induct) (auto simp: submit_def split: if_splits)

lemma exec_reachable_config: "exec_reachable cfg s \<Longrightarrow> ex_config s = cfg"
  by (induction rule: exec_reachable.induct) (auto simp: new_executor_def exec_step_config)

section \<open>Drives\<close>

text \<open>
  What a future may wait for. \<open>waits t\<close> are the tasks whose completion the future of \<open>t\<close> awaits: it
  resolves only when each of them has finished, by sending its completion or by dropping the sender
  in a panic. \<open>waits_back\<close> says that what is awaited has finished or comes earlier in the batch.
\<close>

definition finished :: "executor \<Rightarrow> task_id \<Rightarrow> bool" where
  "finished s t = (case phase_of s t of Some (Done r) \<Rightarrow> True | Some Panicked \<Rightarrow> True | _ \<Rightarrow> False)"

definition resolves_after :: "(task_id \<Rightarrow> task_id list) \<Rightarrow> executor \<Rightarrow> executor \<Rightarrow> bool" where
  "resolves_after waits s s' =
     (\<forall>t r. phase_of s t = Some Polling \<longrightarrow> phase_of s' t = Some (Resolved r) \<longrightarrow>
        list_all (finished s) (waits t))"

fun back_ok :: "(task_id \<Rightarrow> task_id list) \<Rightarrow> (task_id \<Rightarrow> bool) \<Rightarrow> task_id list \<Rightarrow> bool" where
  "back_ok waits over [] = True"
| "back_ok waits over (t # ts) = (list_all over (waits t) \<and> back_ok waits (\<lambda>u. over u \<or> u = t) ts)"

definition waits_back :: "(task_id \<Rightarrow> task_id list) \<Rightarrow> executor \<Rightarrow> bool" where
  "waits_back waits s = back_ok waits (finished s) (rev (ex_flight s) @ ex_batch s)"

definition drained :: "executor \<Rightarrow> bool" where
  "drained s = (ex_batch s = [] \<and> ex_flight s = [])"

text \<open>A step in which a task goes on, and one in which it does so without a panic.\<close>

definition moved :: "executor \<Rightarrow> executor \<Rightarrow> bool" where
  "moved s s' = (\<exists>t. phase_of s t \<noteq> None \<and> phase_of s' t \<noteq> phase_of s t)"

definition proceeds :: "(task_id \<Rightarrow> task_id list) \<Rightarrow> executor \<Rightarrow> executor \<Rightarrow> bool" where
  "proceeds waits s s' =
     (exec_step s s' \<and> resolves_after waits s s' \<and>
      (\<exists>t. phase_of s t \<noteq> None \<and> phase_of s' t \<noteq> phase_of s t \<and> phase_of s' t \<noteq> Some Panicked))"

text \<open>The steps of a drive until it is drained, submissions and cancellations between them included;
  \<open>k\<close> counts those in which a task goes on.\<close>

inductive drive_run :: "(task_id \<Rightarrow> task_id list) \<Rightarrow> nat \<Rightarrow> executor \<Rightarrow> executor \<Rightarrow> bool" for waits where
  drive_start: "drive_run waits 0 s s"
| drive_step: "drive_run waits k s s' \<Longrightarrow> \<not> drained s' \<Longrightarrow> exec_step s' s'' \<Longrightarrow> resolves_after waits s' s'' \<Longrightarrow>
    drive_run waits (if moved s' s'' then Suc k else k) s s''"

text \<open>The work left in a drive: every step of a task on its way from the batch to \<open>Done\<close> lowers it.\<close>

fun phase_work :: "exec_phase option \<Rightarrow> nat" where
  "phase_work (Some Spawned) = 5"
| "phase_work (Some Polling) = 4"
| "phase_work (Some (Resolved r)) = 3"
| "phase_work (Some (Released r)) = 2"
| "phase_work (Some (Stored r)) = 1"
| "phase_work _ = 0"

definition work_left :: "executor \<Rightarrow> nat" where
  "work_left s = 6 * List.length (ex_batch s) + (\<Sum>t \<in> set (ex_flight s). phase_work (phase_of s t))"

lemma in_flight_work: "in_flight p \<Longrightarrow> 0 < phase_work (Some p)"
  by (cases p) simp_all

lemma flight_phase:
  "exec_inv s \<Longrightarrow> t \<in> set (ex_flight s) \<Longrightarrow>
     \<exists>x. ex_tasks s t = Some x \<and> phase_of s t = Some (et_phase x) \<and> in_flight (et_phase x)"
  unfolding exec_inv_def exec_places_def phase_of_def by fastforce

lemma drained_iff: "exec_inv s \<Longrightarrow> drained s = (work_left s = 0)"
  using flight_phase [of s] in_flight_work unfolding drained_def work_left_def
  by (cases "ex_flight s") fastforce+

text \<open>How the work left changes when one task in flight goes on, or leaves.\<close>

lemma sum_split:
  fixes f :: "'a \<Rightarrow> nat"
  shows "t \<in> set ts \<Longrightarrow> sum f (set ts) = f t + sum f (set ts - {t})"
  by (rule sum.remove) simp_all

lemma work_left_step:
  assumes "t \<in> set (ex_flight s)" "phase_work (Some (et_phase x')) < phase_work (phase_of s t)"
  shows "work_left (set_task t x' (s\<lparr>ex_permits := n\<rparr>)) < work_left s"
proof -
  have "(\<Sum>u \<in> set (ex_flight s) - {t}. phase_work (((phase_of s)(t \<mapsto> et_phase x')) u)) =
      (\<Sum>u \<in> set (ex_flight s) - {t}. phase_work (phase_of s u))"
    by (intro sum.cong) auto
  then show ?thesis using assms by (simp add: work_left_def sum_split [OF assms(1)])
qed

lemma work_left_leave:
  assumes "t \<in> set (ex_flight s)" "0 < phase_work (phase_of s t)"
  shows "work_left (set_task t x' (s\<lparr>ex_permits := n, ex_flight := removeAll t (ex_flight s)\<rparr>)) < work_left s"
proof -
  have "(\<Sum>u \<in> set (ex_flight s) - {t}. phase_work (((phase_of s)(t \<mapsto> et_phase x')) u)) =
      (\<Sum>u \<in> set (ex_flight s) - {t}. phase_work (phase_of s u))"
    by (intro sum.cong) auto
  then show ?thesis using assms by (simp add: work_left_def sum_split [OF assms(1)])
qed

lemma drive_step_work:
  assumes inv: "exec_inv s" and busy: "\<not> drained s" and step: "exec_step s s'"
  shows "if moved s s' then work_left s' < work_left s else work_left s' = work_left s"
proof -
  have known: "t \<in> set (ex_flight s)" "phase_of s t = Some (et_phase x)"
    if "ex_tasks s t = Some x" "in_flight (et_phase x)" for t x
    using inv that by (auto simp: exec_inv_def exec_places_def phase_of_def)
  have m: "moved s s'" if "phase_of s t = Some p" "phase_of s' t \<noteq> Some p" for t p
    using that by (auto simp: moved_def)
  have same: ?thesis
    if "ex_batch s' = ex_batch s" "ex_flight s' = ex_flight s" "\<And>t. phase_of s t \<noteq> None \<Longrightarrow> phase_of s' t = phase_of s t"
  proof -
    have "phase_of s' t = phase_of s t" if "t \<in> set (ex_flight s)" for t
      using flight_phase [OF inv that] \<open>\<And>t. phase_of s t \<noteq> None \<Longrightarrow> phase_of s' t = phase_of s t\<close> by auto
    moreover have "\<not> moved s s'" using that(3) unfolding moved_def by blast
    ultimately show ?thesis by (simp add: work_left_def that(1,2))
  qed
  note stay = work_left_step [where n = "ex_permits s", simplified]
  note leave = work_left_leave [where n = "ex_permits s", simplified]
  from step show ?thesis
  proof cases
    case (submitted fresh)
    then show ?thesis by (intro same) (auto simp: submit_def phase_of_def split: if_splits)
  next
    case take_batch
    then show ?thesis using busy by (simp add: drained_def)
  next
    case (spawn t ts x)
    then have ph: "phase_of s t = Some InBatch"
      using inv by (auto simp: exec_inv_def exec_places_def)
    moreover have "t \<notin> set (ex_flight s)" using ph flight_phase [OF inv, of t] by auto
    moreover have "(\<Sum>u \<in> set (ex_flight s). phase_work (((phase_of s)(t \<mapsto> Spawned)) u)) =
        (\<Sum>u \<in> set (ex_flight s). phase_work (phase_of s u))"
      using calculation(2) by (intro sum.cong) auto
    ultimately show ?thesis using m [of t InBatch] by (simp add: spawn work_left_def)
  next
    case (start t x)
    then show ?thesis
      using known [of t x] m [of t Spawned] stay [of t s "x\<lparr>et_state := 1, et_phase := Polling\<rparr>"] by simp
  next
    case (resolve t x r)
    then show ?thesis
      using known [of t x] m [of t Polling] stay [of t s "x\<lparr>et_phase := Resolved r\<rparr>"] by simp
  next
    case (release t x r)
    then show ?thesis
      using known [of t x] m [of t "Resolved r"]
        work_left_step [of t s "x\<lparr>et_phase := Released r\<rparr>" "ex_permits s + 1"] by simp
  next
    case (store t x r)
    then show ?thesis
      using known [of t x] m [of t "Released r"]
        stay [of t s "x\<lparr>et_state := as_u8 (final_state r), et_phase := Stored r\<rparr>"] by simp
  next
    case (finish t x r)
    then show ?thesis
      using known [of t x] m [of t "Stored r"]
        leave [of t s "x\<lparr>et_phase := Done r, et_completion := Some (completion_of t r)\<rparr>"] by simp
  next
    case (panic t x)
    then show ?thesis
      using known [of t x] m [of t Polling]
        work_left_leave [of t s "x\<lparr>et_phase := Panicked\<rparr>" "ex_permits s + 1"] by simp
  next
    case (cancel_running t)
    then show ?thesis by (intro same) simp_all
  next
    case (cancel_queued t)
    then show ?thesis by (intro same) simp_all
  qed
qed

text \<open>What is awaited stays behind what awaits it.\<close>

lemma back_ok_mono:
  "back_ok waits over ts \<Longrightarrow> (\<And>u. over u \<Longrightarrow> over' u) \<Longrightarrow> back_ok waits over' ts"
proof (induction ts arbitrary: over over')
  case Nil
  then show ?case by simp
next
  case (Cons t ts)
  have "list_all over (waits t)" "back_ok waits (\<lambda>u. over u \<or> u = t) ts"
    using Cons.prems(1) by simp_all
  moreover have "back_ok waits (\<lambda>u. over' u \<or> u = t) ts"
    by (rule Cons.IH [OF calculation(2)]) (use Cons.prems(2) in blast)
  ultimately show ?case using Cons.prems(2) by (simp add: list_all_iff)
qed

lemma back_ok_remove: "back_ok waits over ts \<Longrightarrow> back_ok waits (\<lambda>u. over u \<or> u = t) (removeAll t ts)"
proof (induction ts arbitrary: over)
  case Nil
  then show ?case by simp
next
  case (Cons x ts)
  have "back_ok waits (\<lambda>u. (over u \<or> u = x) \<or> u = t) (removeAll t ts)"
    using Cons.prems by (intro Cons.IH) simp
  then have rest: "back_ok waits (\<lambda>u. (over u \<or> u = t) \<or> u = x) (removeAll t ts)"
    by (rule back_ok_mono) auto
  show ?case
  proof (cases "x = t")
    case True
    have "back_ok waits (\<lambda>u. over u \<or> u = t) (removeAll t ts)"
      by (rule back_ok_mono [OF rest]) (auto simp: True)
    then show ?thesis by (simp add: True)
  next
    case False
    then show ?thesis using Cons.prems rest by (auto simp: list_all_iff)
  qed
qed

lemma drive_step_waits:
  assumes inv: "exec_inv s" and busy: "\<not> drained s" and step: "exec_step s s'" and w: "waits_back waits s"
  shows "waits_back waits s'"
proof -
  have keep: ?thesis
    if "rev (ex_flight s') @ ex_batch s' = rev (ex_flight s) @ ex_batch s" "\<And>u. finished s u \<Longrightarrow> finished s' u"
    using w back_ok_mono [of waits "finished s"] that by (simp add: waits_back_def)
  have leave: ?thesis
    if t: "t \<in> set (ex_flight s)" and lists: "ex_flight s' = removeAll t (ex_flight s)" "ex_batch s' = ex_batch s"
      and fin: "finished s' t" "\<And>u. finished s u \<Longrightarrow> finished s' u" for t
  proof -
    have "t \<notin> set (ex_batch s)" using inv flight_phase [OF inv t] by (auto simp: exec_inv_def exec_places_def)
    then have "rev (ex_flight s') @ ex_batch s' = removeAll t (rev (ex_flight s) @ ex_batch s)"
      by (auto simp: lists rev_filter removeAll_filter_not_eq intro!: filter_True [symmetric])
    moreover have "back_ok waits (finished s') (removeAll t (rev (ex_flight s) @ ex_batch s))"
      by (rule back_ok_mono [OF back_ok_remove [OF w [unfolded waits_back_def], of t]]) (use fin in auto)
    ultimately show ?thesis by (simp add: waits_back_def)
  qed
  have known: "t \<in> set (ex_flight s)" "phase_of s t = Some (et_phase x)"
    if "ex_tasks s t = Some x" "in_flight (et_phase x)" for t x
    using inv that by (auto simp: exec_inv_def exec_places_def phase_of_def)
  from step show ?thesis
  proof cases
    case (submitted fresh)
    then show ?thesis by (intro keep) (auto simp: submit_def finished_def phase_of_def split: if_splits option.splits)
  next
    case take_batch
    then show ?thesis using busy by (simp add: drained_def)
  next
    case (spawn t ts x)
    then have "phase_of s t = Some InBatch" using inv by (auto simp: exec_inv_def exec_places_def)
    then show ?thesis by (intro keep) (auto simp: spawn finished_def)
  next
    case (start t x)
    then show ?thesis using known [of t x] by (intro keep) (auto simp: finished_def)
  next
    case (resolve t x r)
    then show ?thesis using known [of t x] by (intro keep) (auto simp: finished_def)
  next
    case (release t x r)
    then show ?thesis using known [of t x] by (intro keep) (auto simp: finished_def)
  next
    case (store t x r)
    then show ?thesis using known [of t x] by (intro keep) (auto simp: finished_def)
  next
    case (finish t x r)
    then show ?thesis using known [of t x] by (intro leave [of t]) (auto simp: finished_def)
  next
    case (panic t x)
    then show ?thesis using known [of t x] by (intro leave [of t]) (auto simp: finished_def)
  next
    case (cancel_running t)
    then show ?thesis by (intro keep) (simp_all add: finished_def)
  next
    case (cancel_queued t)
    then show ?thesis by (intro keep) (simp_all add: finished_def)
  qed
qed

text \<open>The task spawned first among those in flight can always go on.\<close>

lemma drive_progress:
  assumes inv: "exec_inv s" and cap: "0 < max_concurrent (ex_config s)"
    and w: "waits_back waits s" and busy: "\<not> drained s"
  shows "\<exists>s'. proceeds waits s s'"
proof (cases "rev (ex_flight s)")
  case Nil
  with busy obtain t ts where b: "ex_batch s = t # ts" by (cases "ex_batch s") (auto simp: drained_def)
  have "0 < ex_permits s"
    using inv cap Nil by (simp add: exec_inv_def exec_counts_def executing_def)
  moreover have ph: "phase_of s t = Some InBatch"
    using inv b by (auto simp: exec_inv_def exec_places_def)
  then obtain x where "ex_tasks s t = Some x" by (auto simp: phase_of_def)
  ultimately have "exec_step s (set_task t (x\<lparr>et_phase := Spawned\<rparr>)
      (s\<lparr>ex_batch := ts, ex_permits := ex_permits s - 1, ex_flight := t # ex_flight s\<rparr>))"
    using b by (intro exec_step.spawn)
  then show ?thesis
    using ph by (intro exI, unfold proceeds_def resolves_after_def) (auto split: if_splits intro!: exI [of _ t])
next
  case (Cons t ts)
  then have t: "t \<in> set (ex_flight s)" by (metis list.set_intros(1) set_rev)
  have over: "list_all (finished s) (waits t)" using w by (simp add: waits_back_def Cons)
  from flight_phase [OF inv t] obtain x where
    x: "ex_tasks s t = Some x" "phase_of s t = Some (et_phase x)" "in_flight (et_phase x)" by blast
  have go: ?thesis
    if "exec_step s s'" "phase_of s' = (phase_of s)(t \<mapsto> p)" "p \<noteq> et_phase x" "p \<noteq> Panicked" for s' p
    using that x over unfolding proceeds_def resolves_after_def
    by (intro exI [of _ s'] conjI allI impI exI [of _ t]) (auto split: if_splits)
  consider "et_phase x = Spawned" | "et_phase x = Polling" | r where "et_phase x = Resolved r"
    | r where "et_phase x = Released r" | r where "et_phase x = Stored r"
    using x(3) by (cases "et_phase x") auto
  then show ?thesis
  proof cases
    case 1
    then show ?thesis by (intro go [OF exec_step.start [OF x(1)], of Polling]) simp_all
  next
    case 2
    then show ?thesis by (intro go [OF exec_step.resolve [OF x(1), of "Inr ()"], of "Resolved (Inr ())"]) simp_all
  next
    case (3 r)
    then show ?thesis by (intro go [OF exec_step.release [OF x(1)], of r "Released r"]) simp_all
  next
    case (4 r)
    then show ?thesis by (intro go [OF exec_step.store [OF x(1)], of r "Stored r"]) simp_all
  next
    case (5 r)
    then show ?thesis by (intro go [OF exec_step.finish [OF x(1)], of r "Done r"]) simp_all
  qed
qed

lemma drive_run_spec:
  assumes "drive_run waits k s s'" "exec_inv s" "waits_back waits s"
  shows "exec_inv s' \<and> waits_back waits s' \<and> ex_config s' = ex_config s \<and> k + work_left s' \<le> work_left s"
  using assms
proof (induction rule: drive_run.induct)
  case (drive_start s)
  then show ?case by simp
next
  case (drive_step k s s' s'')
  then have s': "exec_inv s'" "waits_back waits s'" "ex_config s' = ex_config s" "k + work_left s' \<le> work_left s"
    by simp_all
  show ?case
    using drive_step_work [OF s'(1) drive_step.hyps(2,3)] drive_step_waits [OF s'(1) drive_step.hyps(2,3) s'(2)]
      exec_step_inv [OF drive_step.hyps(3) s'(1)] exec_step_config [OF drive_step.hyps(3)] s'(3,4)
    by (auto split: if_splits)
qed

section \<open>Properties\<close>

text \<open>In every reachable state of the concurrent executor at most \<open>max_concurrent\<close> tasks hold
  a permit, exactly the remaining permits are free, and the queue never exceeds its depth.\<close>

theorem executor_capacity:
  assumes "exec_reachable cfg s"
  shows "List.length (executing s) + ex_permits s = max_concurrent cfg
    \<and> distinct (executing s) \<and> List.length (ex_queue s) \<le> queue_depth cfg"
  using exec_reachable_inv [OF assms] exec_reachable_config [OF assms]
  by (simp add: exec_inv_def exec_counts_def exec_places_def executing_def)

lemma executor_capacity_witness:
  "List.length (executing (new_executor default_config)) + ex_permits (new_executor default_config)
     = max_concurrent default_config
   \<and> distinct (executing (new_executor default_config))
   \<and> List.length (ex_queue (new_executor default_config)) \<le> queue_depth default_config"
  by (rule executor_capacity) (rule exec_reachable.initial)

text \<open>Whatever cancellations were requested and however they interleave, a task whose future
  has resolved ends in \<open>Completed\<close> or \<open>Failed\<close> exactly as the future did, its handle receives
  that result, and no completion is sent before, nor ever after a panic: a cancelled task that was
  already taken up is still run to its end and reported as such.\<close>

theorem executor_result_wins:
  assumes "exec_reachable cfg s" and "ex_tasks s t = Some x"
  shows "case et_phase x of
     Done r \<Rightarrow> from_u8 (et_state x) = final_state r \<and> et_completion x = Some (completion_of t r)
   | _ \<Rightarrow> et_completion x = None"
proof -
  have "task_reports t x"
    using exec_reachable_inv [OF assms(1)] assms(2) by (auto simp: exec_inv_def intro: task_reports_of)
  then show ?thesis by (cases "et_phase x") (auto simp: task_reports_def)
qed

text \<open>A run in which a task is cancelled while queued and completes all the same.\<close>

definition cancel_lost :: executor where
  "cancel_lost = \<lparr>ex_config = default_config, ex_queue = [], ex_batch = [], ex_flight = [],
     ex_tasks = [7 \<mapsto> \<lparr>et_state = as_u8 Completed, et_phase = Done (Inr ()),
                        et_completion = Some (Inr ())\<rparr>],
     ex_permits = 32, ex_cancels = []\<rparr>"

lemma cancelled_task_completes: "exec_reachable default_config cancel_lost"
proof -
  let ?x = "\<lambda>v p c. \<lparr>et_state = v, et_phase = p, et_completion = c\<rparr>"
  let ?s = "\<lambda>q b f x n cs. \<lparr>ex_config = default_config, ex_queue = q, ex_batch = b, ex_flight = f,
     ex_tasks = [7 \<mapsto> x], ex_permits = n, ex_cancels = cs\<rparr> :: executor"
  have fin: "exec_reachable default_config s \<Longrightarrow> exec_step s s' \<Longrightarrow> s' = u \<Longrightarrow>
      exec_reachable default_config u" for s s' u
    using exec_reachable.next_step by simp
  have 0: "exec_reachable default_config (new_executor default_config)"
    by (rule exec_reachable.initial)
  have 1: "exec_reachable default_config (?s [7] [] [] (?x 0 InQueue None) 32 [])"
    by (rule fin [OF 0 exec_step.submitted [of 7]])
      (simp_all add: new_executor_def submit_def default_config_def)
  have 2: "exec_reachable default_config (?s [7] [] [] (?x 0 InQueue None) 32 [7])"
    by (rule fin [OF 1 exec_step.cancel_running [of 7]]) (simp_all add: compare_exchange_def)
  have 3: "exec_reachable default_config (?s [7] [] [] (?x 3 InQueue None) 32 [])"
    by (rule fin [OF 2 exec_step.cancel_queued [of 7]]) (simp_all add: compare_exchange_def)
  have 4: "exec_reachable default_config (?s [] [7] [] (?x 3 InBatch None) 32 [])"
    by (rule fin [OF 3 exec_step.take_batch]) (auto simp: default_config_def fun_eq_iff)
  have 5: "exec_reachable default_config (?s [] [] [7] (?x 3 Spawned None) 31 [])"
    by (rule fin [OF 4 exec_step.spawn [of _ 7 "[]" "?x 3 InBatch None"]]) (simp_all add: set_task_def)
  have 6: "exec_reachable default_config (?s [] [] [7] (?x 1 Polling None) 31 [])"
    by (rule fin [OF 5 exec_step.start [of _ 7 "?x 3 Spawned None"]]) (simp_all add: set_task_def)
  have 7: "exec_reachable default_config (?s [] [] [7] (?x 1 (Resolved (Inr ())) None) 31 [])"
    by (rule fin [OF 6 exec_step.resolve [of _ 7 "?x 1 Polling None" "Inr ()"]]) (simp_all add: set_task_def)
  have 8: "exec_reachable default_config (?s [] [] [7] (?x 1 (Released (Inr ())) None) 32 [])"
    by (rule fin [OF 7 exec_step.release [of _ 7 "?x 1 (Resolved (Inr ())) None" "Inr ()"]])
      (simp_all add: set_task_def)
  have 9: "exec_reachable default_config (?s [] [] [7] (?x 5 (Stored (Inr ())) None) 32 [])"
    by (rule fin [OF 8 exec_step.store [of _ 7 "?x 1 (Released (Inr ())) None" "Inr ()"]])
      (simp_all add: set_task_def)
  show ?thesis
    unfolding cancel_lost_def
    by (rule fin [OF 9 exec_step.finish [of _ 7 "?x 5 (Stored (Inr ())) None" "Inr ()"]])
      (simp_all add: set_task_def)
qed

lemma executor_result_wins_witness:
  "from_u8 (as_u8 Completed) = final_state (Inr ()) \<and>
   (Some (Inr ()) :: (executor_error + unit) option) = Some (completion_of 7 (Inr ()))"
  using executor_result_wins [OF cancelled_task_completes, of 7
      "\<lparr>et_state = as_u8 Completed, et_phase = Done (Inr ()), et_completion = Some (Inr ())\<rparr>"]
  by (simp add: cancel_lost_def)

text \<open>C40: A drive comes to its end. With at least one permit, and futures that await only tasks which
  have finished or come earlier in the batch, whatever the interleaving and whatever is submitted,
  cancelled or panics meanwhile: the tasks of the batch take at most \<open>work_left\<close> steps between them,
  nothing is left exactly when batch and flight are empty, and until then some task can go on.\<close>

theorem executor_drains:
  assumes "exec_reachable cfg s" and "0 < max_concurrent cfg" and "waits_back waits s"
    and "drive_run waits k s s'"
  shows "k + work_left s' \<le> work_left s
    \<and> drained s' = (work_left s' = 0)
    \<and> (if drained s' then True else \<exists>s''. proceeds waits s' s'')"
proof -
  have inv: "exec_inv s" by (rule exec_reachable_inv [OF assms(1)])
  note run = drive_run_spec [OF assms(4) inv assms(3)]
  have "0 < max_concurrent (ex_config s')"
    using run exec_reachable_config [OF assms(1)] assms(2) by simp
  then show ?thesis
    using run drained_iff [of s'] drive_progress [of s' waits] by auto
qed

text \<open>A batch of two tasks under one permit, the second awaiting the first or the first the second.\<close>

definition one_permit :: executor_config where
  "one_permit = \<lparr>max_concurrent = 1, queue_depth = 4\<rparr>"

definition pair_state :: "task_id list \<Rightarrow> task_id list \<Rightarrow> nat \<Rightarrow> u8 \<Rightarrow> exec_phase \<Rightarrow> executor" where
  "pair_state b f n v p =
     \<lparr>ex_config = one_permit, ex_queue = [], ex_batch = b, ex_flight = f,
      ex_tasks = [7 \<mapsto> \<lparr>et_state = v, et_phase = p, et_completion = None\<rparr>,
                  8 \<mapsto> \<lparr>et_state = 0, et_phase = InBatch, et_completion = None\<rparr>],
      ex_permits = n, ex_cancels = []\<rparr>"

lemma pair_reachable: "exec_reachable one_permit (pair_state [7, 8] [] 1 0 InBatch)"
proof -
  let ?x = "\<lparr>et_state = 0, et_phase = InQueue, et_completion = None\<rparr>"
  let ?s = "\<lambda>q m. \<lparr>ex_config = one_permit, ex_queue = q, ex_batch = [], ex_flight = [],
     ex_tasks = m, ex_permits = 1, ex_cancels = []\<rparr> :: executor"
  have fin: "exec_reachable one_permit s \<Longrightarrow> exec_step s s' \<Longrightarrow> s' = u \<Longrightarrow> exec_reachable one_permit u"
    for s s' u
    using exec_reachable.next_step by simp
  have 1: "exec_reachable one_permit (?s [7] [7 \<mapsto> ?x])"
    by (rule fin [OF exec_reachable.initial exec_step.submitted [of 7]])
      (simp_all add: new_executor_def submit_def one_permit_def)
  have 2: "exec_reachable one_permit (?s [7, 8] [7 \<mapsto> ?x, 8 \<mapsto> ?x])"
    by (rule fin [OF 1 exec_step.submitted [of 8]]) (simp_all add: submit_def one_permit_def)
  show ?thesis
    by (rule fin [OF 2 exec_step.take_batch]) (auto simp: pair_state_def one_permit_def fun_eq_iff)
qed

lemma pair_spawned: "exec_step (pair_state [7, 8] [] 1 0 InBatch) (pair_state [8] [7] 0 0 Spawned)"
  using exec_step.spawn [of "pair_state [7, 8] [] 1 0 InBatch" 7 "[8]"
      "\<lparr>et_state = 0, et_phase = InBatch, et_completion = None\<rparr>"]
  by (simp add: pair_state_def set_task_def fun_upd_twist)

lemma executor_drains_witness:
  "work_left (pair_state [8] [7] 0 0 Spawned) = 11
   \<and> (\<exists>s''. proceeds (\<lambda>t. if t = 8 then [7] else []) (pair_state [8] [7] 0 0 Spawned) s'')"
proof -
  let ?s = "pair_state [7, 8] [] 1 0 InBatch" and ?s' = "pair_state [8] [7] 0 0 Spawned"
  let ?w = "\<lambda>t. if t = 8 then [7] else [] :: task_id list"
  have "moved ?s ?s'" by (auto simp: moved_def pair_state_def phase_of_def intro!: exI [of _ 7])
  moreover have "resolves_after ?w ?s ?s'" by (simp add: resolves_after_def pair_state_def phase_of_def)
  moreover have "\<not> drained ?s" by (simp add: drained_def pair_state_def)
  ultimately have run: "drive_run ?w 1 ?s ?s'"
    using drive_run.drive_step [OF drive_run.drive_start _ pair_spawned, of ?w] by simp
  have "waits_back ?w ?s" by (simp add: waits_back_def pair_state_def)
  from executor_drains [OF pair_reachable _ this run] show ?thesis
    by (simp add: one_permit_def drained_def work_left_def pair_state_def phase_of_def)
qed

text \<open>The order is needed: a task that awaits a later one holds the only permit, and nothing but its
  own panic gets the drive on.\<close>

lemma forward_wait_hangs:
  "exec_reachable one_permit (pair_state [8] [7] 0 1 Polling)"
  "\<not> drained (pair_state [8] [7] 0 1 Polling)"
  "\<not> proceeds (\<lambda>t. if t = 7 then [8] else []) (pair_state [8] [7] 0 1 Polling) s'"
proof -
  have "exec_step (pair_state [8] [7] 0 0 Spawned) (pair_state [8] [7] 0 1 Polling)"
    using exec_step.start [of "pair_state [8] [7] 0 0 Spawned" 7
        "\<lparr>et_state = 0, et_phase = Spawned, et_completion = None\<rparr>"]
    by (simp add: pair_state_def set_task_def fun_upd_twist)
  then show "exec_reachable one_permit (pair_state [8] [7] 0 1 Polling)"
    using pair_reachable pair_spawned exec_reachable.next_step by blast
  show "\<not> drained (pair_state [8] [7] 0 1 Polling)" by (simp add: drained_def pair_state_def)
  let ?s = "pair_state [8] [7] 0 1 Polling"
  have ph: "phase_of ?s = [7 \<mapsto> Polling, 8 \<mapsto> InBatch]"
    by (auto simp: phase_of_def pair_state_def fun_eq_iff)
  have task: "t = 7 \<and> et_phase x = Polling \<or> t = 8 \<and> et_phase x = InBatch"
    if "ex_tasks ?s t = Some x" for t x
    using that by (auto simp: pair_state_def split: if_splits)
  have "\<not> (\<exists>t. phase_of ?s t \<noteq> None \<and> phase_of s' t \<noteq> phase_of ?s t \<and> phase_of s' t \<noteq> Some Panicked)"
    if step: "exec_step ?s s'" and "resolves_after (\<lambda>t. if t = 7 then [8] else []) ?s s'"
    using step
  proof cases
    case (submitted fresh)
    then show ?thesis by (auto simp: submit_def phase_of_def split: if_splits)
  next
    case take_batch
    then show ?thesis by (simp add: pair_state_def)
  next
    case (spawn t ts x)
    then show ?thesis by (simp add: pair_state_def)
  next
    case (resolve t x r)
    then have "t = 7" using task [of t x] by auto
    then have "phase_of ?s 7 = Some Polling" "phase_of s' 7 = Some (Resolved r)"
      using resolve ph by simp_all
    with that(2) have "list_all (finished ?s) (if (7 :: task_id) = 7 then [8] else [])"
      unfolding resolves_after_def by blast
    then show ?thesis by (simp add: finished_def ph)
  next
    case (panic t x)
    then show ?thesis using task [of t x] by (auto simp: ph)
  qed (use task in \<open>auto simp: ph dest!: task\<close>)
  then show "\<not> proceeds (\<lambda>t. if t = 7 then [8] else []) ?s s'" unfolding proceeds_def by blast
qed

text \<open>The other way for the drive to get on is that panic: the permit comes back and the second task is
  spawned, but the state of the first stays \<open>Running\<close>, since nobody looks at what the join returns.\<close>

lemma panicked_task_stays_running:
  assumes "exec_reachable cfg s" "ex_tasks s t = Some x" "et_phase x = Panicked"
  shows "et_completion x = None" "from_u8 (et_state x) = Running \<or> from_u8 (et_state x) = Cancelled"
proof -
  have "task_reports t x"
    using exec_reachable_inv [OF assms(1)] assms(2) by (auto simp: exec_inv_def intro: task_reports_of)
  then show "et_completion x = None" "from_u8 (et_state x) = Running \<or> from_u8 (et_state x) = Cancelled"
    using assms(3) from_as_u8 [of Running] from_as_u8 [of Cancelled] by (auto simp: task_reports_def)
qed

end
