(* ===== verification/Scheduler.thy ===== *)
theory Scheduler
  imports Action_Log "HOL-Library.Product_Lexorder"
begin

text \<open>
  \<open>TaskScheduler\<close> (\<open>scheduler.rs\<close>): task states and their transition graph, priorities,
  retries, leases, quotas, dependencies, preemption, templates and the persistence hooks.

  The clock is read through \<open>env_now\<close>: one value stands for the readings of one operation,
  except in \<open>renew_lease\<close>, which compares two. Counters keep their width and wrap as in a
  release build. Where the code iterates, it iterates in insertion order, which is a list; the
  hash maps are only looked up. Serialisation is \<open>serde_json\<close>: \<open>snapshot\<close> is the list of records
  handed to it and \<open>restore\<close> takes the parser as an argument.
\<close>

section \<open>Task states and priorities\<close>

datatype task_state = Pending | Queued | Running | Paused | Completed | Failed | Cancelled

definition is_terminal :: "task_state \<Rightarrow> bool" where
  "is_terminal st = (st = Completed \<or> st = Failed \<or> st = Cancelled)"

fun can_transition_to :: "task_state \<Rightarrow> task_state \<Rightarrow> bool" where
  "can_transition_to Pending next = (next = Queued \<or> next = Cancelled)"
| "can_transition_to Queued next = (next = Running \<or> next = Cancelled)"
| "can_transition_to Running next =
     (next = Paused \<or> next = Completed \<or> next = Failed \<or> next = Cancelled)"
| "can_transition_to Paused next = (next = Queued \<or> next = Cancelled)"
| "can_transition_to Failed next = (next = Queued \<or> next = Cancelled)"
| "can_transition_to _ next = False"

datatype task_priority = Background | Normal | High | Critical

primrec priority_value :: "task_priority \<Rightarrow> nat" where
  "priority_value Background = 0"
| "priority_value Normal = 1"
| "priority_value High = 2"
| "priority_value Critical = 3"

lemma priority_value_inject [simp]: "priority_value p = priority_value q \<longleftrightarrow> p = q"
  by (cases p; cases q) simp_all

text \<open>The derived \<open>Ord\<close> of the Rust enum compares the discriminants.\<close>

instantiation task_priority :: linorder
begin

definition less_eq_task_priority :: "task_priority \<Rightarrow> task_priority \<Rightarrow> bool" where
  "less_eq_task_priority p q = (priority_value p \<le> priority_value q)"

definition less_task_priority :: "task_priority \<Rightarrow> task_priority \<Rightarrow> bool" where
  "less_task_priority p q = (priority_value p < priority_value q)"

instance
  by standard (auto simp: less_eq_task_priority_def less_task_priority_def)

end

section \<open>Policies, leases, quotas, templates\<close>

record retry_policy =
  rp_max_attempts :: u32
  rp_base_backoff_ms :: u64
  rp_max_backoff_ms :: u64

definition retry_none :: retry_policy where
  "retry_none = \<lparr>rp_max_attempts = 1, rp_base_backoff_ms = 0, rp_max_backoff_ms = 0\<rparr>"

definition exponential :: "u32 \<Rightarrow> u64 \<Rightarrow> u64 \<Rightarrow> retry_policy" where
  "exponential max_attempts base_backoff_ms max_backoff_ms =
     \<lparr>rp_max_attempts = max_attempts, rp_base_backoff_ms = base_backoff_ms,
      rp_max_backoff_ms = max_backoff_ms\<rparr>"

definition default_retry :: retry_policy where
  "default_retry = exponential 3 500 30000"

text \<open>\<open>backoff_for\<close>, in milliseconds.\<close>

definition backoff_for :: "retry_policy \<Rightarrow> u32 \<Rightarrow> u64" where
  "backoff_for p attempt =
     (if rp_base_backoff_ms p = 0 then 0
      else let shift = min attempt 62;
               raw = saturating_mul (rp_base_backoff_ms p) (push_bit (unat shift) 1)
           in min raw (rp_max_backoff_ms p))"

datatype preemption_policy = NoPreemption | CriticalPreemptsAll | HigherPriorityWins

record task_lease =
  tl_task_id :: task_id
  tl_worker_id :: string
  tl_issued_at_ms :: u64
  tl_expires_at_ms :: u64

definition new_lease :: "u64 \<Rightarrow> task_id \<Rightarrow> string \<Rightarrow> u64 \<Rightarrow> task_lease" where
  "new_lease now task_id worker_id duration_ms =
     \<lparr>tl_task_id = task_id, tl_worker_id = worker_id, tl_issued_at_ms = now,
      tl_expires_at_ms = saturating_add now duration_ms\<rparr>"

definition lease_is_valid :: "task_lease \<Rightarrow> u64 \<Rightarrow> bool" where
  "lease_is_valid lease now = (now < tl_expires_at_ms lease)"

definition lease_renew :: "u64 \<Rightarrow> u64 \<Rightarrow> task_lease \<Rightarrow> task_lease" where
  "lease_renew now duration_ms lease =
     lease\<lparr>tl_issued_at_ms := now, tl_expires_at_ms := saturating_add now duration_ms\<rparr>"

record dimension_quota =
  dq_max_concurrent :: u32
  dq_max_queued :: u32
  dq_tasks_per_minute :: u32

definition quota_unlimited :: dimension_quota where
  "quota_unlimited = \<lparr>dq_max_concurrent = - 1, dq_max_queued = - 1, dq_tasks_per_minute = 0\<rparr>"

definition default_limits :: dimension_quota where
  "default_limits = \<lparr>dq_max_concurrent = 4, dq_max_queued = 100, dq_tasks_per_minute = 60\<rparr>"

record 'j task_spec =
  ts_dimension_id :: dimension_id
  ts_kind :: string
  ts_label :: string
  ts_priority :: task_priority
  ts_params :: "string \<rightharpoonup> 'j"
  ts_retry_policy :: retry_policy
  ts_dependencies :: "task_id list"
  ts_template_id :: "uuid option"

definition new_spec :: "dimension_id \<Rightarrow> string \<Rightarrow> string \<Rightarrow> 'j task_spec" where
  "new_spec dim kind label =
     \<lparr>ts_dimension_id = dim, ts_kind = kind, ts_label = label, ts_priority = Normal,
      ts_params = Map.empty, ts_retry_policy = default_retry, ts_dependencies = [],
      ts_template_id = None\<rparr>"

record 'j task_template =
  tt_id :: uuid
  tt_name :: string
  tt_description :: string
  tt_kind :: string
  tt_default_params :: "string \<rightharpoonup> 'j"
  tt_priority :: task_priority
  tt_retry_policy :: retry_policy

definition new_template :: "uuid \<Rightarrow> string \<Rightarrow> string \<Rightarrow> 'j task_template" where
  "new_template fresh name kind =
     \<lparr>tt_id = fresh, tt_name = name, tt_description = '''', tt_kind = kind,
      tt_default_params = Map.empty, tt_priority = Normal, tt_retry_policy = default_retry\<rparr>"

definition instantiate ::
  "'j task_template \<Rightarrow> dimension_id \<Rightarrow> (string \<rightharpoonup> 'j) \<Rightarrow> 'j task_spec" where
  "instantiate t dim overrides =
     \<lparr>ts_dimension_id = dim, ts_kind = tt_kind t, ts_label = tt_name t,
      ts_priority = tt_priority t, ts_params = tt_default_params t ++ overrides,
      ts_retry_policy = tt_retry_policy t, ts_dependencies = [],
      ts_template_id = Some (tt_id t)\<rparr>"

section \<open>Records, index, scheduler\<close>

datatype scheduler_error =
    DuplicateTaskId task_id
  | TaskNotFound task_id
  | InvalidTransition task_id task_state task_state
  | QuotaExceeded dimension_id u32 u32
  | PrerequisiteNotFound task_id
  | LeaseExpired task_id
  | TemplateNotFound uuid

record 'j task_record =
  tr_task_id :: task_id
  tr_spec :: "'j task_spec"
  tr_state :: task_state
  tr_attempt :: u32
  tr_submitted_at_ms :: u64
  tr_updated_at_ms :: u64
  tr_failure_reason :: "string option"
  tr_lease :: "task_lease option"
  tr_seq :: u64

definition new_record :: "u64 \<Rightarrow> task_id \<Rightarrow> 'j task_spec \<Rightarrow> u64 \<Rightarrow> 'j task_record" where
  "new_record now task_id spec sq =
     \<lparr>tr_task_id = task_id, tr_spec = spec, tr_state = Pending, tr_attempt = 0,
      tr_submitted_at_ms = now, tr_updated_at_ms = now, tr_failure_reason = None,
      tr_lease = None, tr_seq = sq\<rparr>"

record 'j task_index =
  ix_records :: "task_id \<rightharpoonup> 'j task_record"
  ix_insertion_order :: "task_id list"
  ix_seq :: u64

definition new_index :: "'j task_index" where
  "new_index = \<lparr>ix_records = Map.empty, ix_insertion_order = [], ix_seq = 0\<rparr>"

definition index_insert ::
  "u64 \<Rightarrow> task_id \<Rightarrow> 'j task_spec \<Rightarrow> 'j task_index
     \<Rightarrow> (scheduler_error, unit, 'j task_index) outcome" where
  "index_insert now task_id spec ix =
     (if ix_records ix task_id \<noteq> None then (Inl (DuplicateTaskId task_id), ix)
      else let sq = ix_seq ix + 1 in
        (Inr (), \<lparr>ix_records = (ix_records ix)(task_id \<mapsto> new_record now task_id spec sq),
                  ix_insertion_order = ix_insertion_order ix @ [task_id], ix_seq = sq\<rparr>))"

definition index_contains :: "'j task_index \<Rightarrow> task_id \<Rightarrow> bool" where
  "index_contains ix t = (ix_records ix t \<noteq> None)"

definition iter_in_order :: "'j task_index \<Rightarrow> 'j task_record list" where
  "iter_in_order ix = List.map_filter (ix_records ix) (ix_insertion_order ix)"

type_synonym ready_entry = "task_priority \<times> u64 \<times> task_id"

record 'j task_scheduler =
  sc_index :: "'j task_index"
  sc_ready_queue :: "ready_entry list"
  sc_quotas :: "dimension_id \<rightharpoonup> dimension_quota"
  sc_running_count :: "dimension_id \<rightharpoonup> u32"
  sc_templates :: "uuid \<rightharpoonup> 'j task_template"
  sc_preemption_policy :: preemption_policy
  sc_lease_duration_ms :: u64
  sc_action_log :: "'j action_log"
  sc_dimension_id :: dimension_id
  sc_coordinator_task_id :: task_id

definition new_scheduler ::
  "dimension_id \<Rightarrow> task_id \<Rightarrow> preemption_policy \<Rightarrow> u64 \<Rightarrow> 'j action_log \<Rightarrow> 'j task_scheduler" where
  "new_scheduler d c pp lease_ms l =
     \<lparr>sc_index = new_index, sc_ready_queue = [], sc_quotas = Map.empty,
      sc_running_count = Map.empty, sc_templates = Map.empty, sc_preemption_policy = pp,
      sc_lease_duration_ms = lease_ms, sc_action_log = l, sc_dimension_id = d,
      sc_coordinator_task_id = c\<rparr>"

text \<open>\<open>get\<close> and the write through \<open>get_mut\<close>.\<close>

definition get_task :: "'j task_scheduler \<Rightarrow> task_id \<Rightarrow> 'j task_record option" where
  "get_task s t = ix_records (sc_index s) t"

definition put_task :: "task_id \<Rightarrow> 'j task_record \<Rightarrow> 'j task_scheduler \<Rightarrow> 'j task_scheduler" where
  "put_task t r s =
     s\<lparr>sc_index := (sc_index s)\<lparr>ix_records := (ix_records (sc_index s))(t \<mapsto> r)\<rparr>\<rparr>"

definition log_sched ::
  "env \<Rightarrow> event_type \<Rightarrow> task_id \<Rightarrow> 'j payload \<Rightarrow> 'j task_scheduler \<Rightarrow> 'j task_scheduler" where
  "log_sched e ev t p s =
     s\<lparr>sc_action_log := log_system e ev (sc_dimension_id s) t p (sc_action_log s)\<rparr>"

section \<open>Quotas and counters\<close>

definition set_quota ::
  "dimension_id \<Rightarrow> dimension_quota \<Rightarrow> 'j task_scheduler \<Rightarrow> 'j task_scheduler" where
  "set_quota dim quota s = s\<lparr>sc_quotas := (sc_quotas s)(dim \<mapsto> quota)\<rparr>"

definition quota_for :: "'j task_scheduler \<Rightarrow> dimension_id \<Rightarrow> dimension_quota" where
  "quota_for s dim = (case sc_quotas s dim of None \<Rightarrow> quota_unlimited | Some q \<Rightarrow> q)"

definition running_for :: "'j task_scheduler \<Rightarrow> dimension_id \<Rightarrow> u32" where
  "running_for s dim = (case sc_running_count s dim of None \<Rightarrow> 0 | Some n \<Rightarrow> n)"

definition increment_running :: "dimension_id \<Rightarrow> 'j task_scheduler \<Rightarrow> 'j task_scheduler" where
  "increment_running dim s =
     s\<lparr>sc_running_count := (sc_running_count s)(dim \<mapsto> running_for s dim + 1)\<rparr>"

definition decrement_running :: "dimension_id \<Rightarrow> 'j task_scheduler \<Rightarrow> 'j task_scheduler" where
  "decrement_running dim s =
     s\<lparr>sc_running_count := (sc_running_count s)(dim \<mapsto> saturating_sub (running_for s dim) 1)\<rparr>"

section \<open>The ready queue and transitions\<close>

text \<open>
  \<open>sort_by(|a, b| b.0.cmp(&a.0).then(a.1.cmp(&b.1)))\<close>, a stable sort: highest priority first,
  then lowest sequence number.
\<close>

definition ready_key :: "ready_entry \<Rightarrow> int \<times> u64" where
  "ready_key = (\<lambda>(prio, sq, t). (- int (priority_value prio), sq))"

definition sort_ready_queue :: "'j task_scheduler \<Rightarrow> 'j task_scheduler" where
  "sort_ready_queue s = s\<lparr>sc_ready_queue := sort_key ready_key (sc_ready_queue s)\<rparr>"

definition enqueue ::
  "task_id \<Rightarrow> task_priority \<Rightarrow> u64 \<Rightarrow> 'j task_scheduler \<Rightarrow> 'j task_scheduler" where
  "enqueue t prio sq s =
     sort_ready_queue (s\<lparr>sc_ready_queue := sc_ready_queue s @ [(prio, sq, t)]\<rparr>)"

definition transition ::
  "u64 \<Rightarrow> task_id \<Rightarrow> task_state \<Rightarrow> 'j task_scheduler
     \<Rightarrow> (scheduler_error, unit, 'j task_scheduler) outcome" where
  "transition now task_id next s =
     (case get_task s task_id of
        None \<Rightarrow> (Inl (TaskNotFound task_id), s)
      | Some r \<Rightarrow>
          if \<not> can_transition_to (tr_state r) next
          then (Inl (InvalidTransition task_id (tr_state r) next), s)
          else
            let s1 = put_task task_id (r\<lparr>tr_state := next, tr_updated_at_ms := now\<rparr>) s in
            (Inr (),
             if next = Queued then enqueue task_id (ts_priority (tr_spec r)) (tr_seq r) s1
             else if next = Running then increment_running (ts_dimension_id (tr_spec r)) s1
             else s1))"

definition all_deps_completed :: "'j task_scheduler \<Rightarrow> task_id list \<Rightarrow> bool" where
  "all_deps_completed s deps =
     list_all (\<lambda>t. case get_task s t of None \<Rightarrow> False | Some r \<Rightarrow> tr_state r = Completed) deps"

text \<open>\<open>promote_pending_tasks\<close>: the pending tasks are listed once, then promoted one by one.\<close>

definition promote_one :: "u64 \<Rightarrow> task_id \<Rightarrow> 'j task_scheduler \<Rightarrow> 'j task_scheduler" where
  "promote_one now t s =
     (let deps = (case get_task s t of None \<Rightarrow> [] | Some r \<Rightarrow> ts_dependencies (tr_spec r)) in
      if all_deps_completed s deps then after (transition now t Queued s) else s)"

definition promote_pending_tasks :: "u64 \<Rightarrow> 'j task_scheduler \<Rightarrow> 'j task_scheduler" where
  "promote_pending_tasks now s =
     fold (promote_one now)
       (map tr_task_id (filter (\<lambda>r. tr_state r = Pending) (iter_in_order (sc_index s)))) s"

section \<open>Submission\<close>

fun first_missing :: "'j task_index \<Rightarrow> task_id list \<Rightarrow> task_id option" where
  "first_missing ix [] = None"
| "first_missing ix (t # ts) = (if \<not> index_contains ix t then Some t else first_missing ix ts)"

definition submit ::
  "env \<Rightarrow> task_id \<Rightarrow> 'j task_spec \<Rightarrow> 'j task_scheduler
     \<Rightarrow> (scheduler_error, unit, 'j task_scheduler) outcome" where
  "submit e task_id spec s =
     (if index_contains (sc_index s) task_id then (Inl (DuplicateTaskId task_id), s)
      else
        let dim = ts_dimension_id spec;
            queued_count = (of_nat (List.length (filter
                (\<lambda>r. ts_dimension_id (tr_spec r) = dim \<and> tr_state r = Queued)
                (iter_in_order (sc_index s)))) :: u32);
            quota = quota_for s dim
        in if dq_max_queued quota \<le> queued_count
           then (Inl (QuotaExceeded dim (running_for s dim) (dq_max_queued quota)), s)
           else case first_missing (sc_index s) (ts_dependencies spec) of
             Some prereq \<Rightarrow> (Inl (PrerequisiteNotFound prereq), s)
           | None \<Rightarrow>
               let deps_done = all_deps_completed s (ts_dependencies spec) in
               case index_insert (env_now e) task_id spec (sc_index s) of
                 (Inl err, _) \<Rightarrow> (Inl err, s)
               | (Inr _, ix) \<Rightarrow>
                   let s1 = log_sched e TaskSubmitted task_id [(''task_id'', PId task_id)]
                              (s\<lparr>sc_index := ix\<rparr>)
                   in if deps_done then transition (env_now e) task_id Queued s1
                      else (Inr (), s1))"

definition register_template :: "'j task_template \<Rightarrow> 'j task_scheduler \<Rightarrow> 'j task_scheduler" where
  "register_template tmpl s = s\<lparr>sc_templates := (sc_templates s)(tt_id tmpl \<mapsto> tmpl)\<rparr>"

definition get_template :: "'j task_scheduler \<Rightarrow> uuid \<Rightarrow> 'j task_template option" where
  "get_template s u = sc_templates s u"

definition submit_from_template ::
  "env \<Rightarrow> uuid \<Rightarrow> task_id \<Rightarrow> (string \<rightharpoonup> 'j) \<Rightarrow> 'j task_scheduler
     \<Rightarrow> (scheduler_error, unit, 'j task_scheduler) outcome" where
  "submit_from_template e template_id task_id overrides s =
     (case sc_templates s template_id of
        None \<Rightarrow> (Inl (TemplateNotFound template_id), s)
      | Some tmpl \<Rightarrow> submit e task_id (instantiate tmpl (sc_dimension_id s) overrides) s)"

section \<open>Workers\<close>

definition dispatchable :: "'j task_scheduler \<Rightarrow> ready_entry \<Rightarrow> bool" where
  "dispatchable s = (\<lambda>(_, _, t).
     case get_task s t of
       None \<Rightarrow> False
     | Some r \<Rightarrow>
         (let dim = ts_dimension_id (tr_spec r)
          in running_for s dim < dq_max_concurrent (quota_for s dim)))"

text \<open>\<open>next_ready\<close>: \<open>worker\<close> is the formatted identifier of the worker, with its fresh UUID.\<close>

definition next_ready ::
  "env \<Rightarrow> string \<Rightarrow> 'j task_scheduler
     \<Rightarrow> ('j task_record \<times> task_lease) option \<times> 'j task_scheduler" where
  "next_ready e worker s =
     (let s0 = sort_ready_queue s in
      case position (dispatchable s0) (sc_ready_queue s0) of
        None \<Rightarrow> (None, s0)
      | Some pos \<Rightarrow>
          let task_id = snd (snd (sc_ready_queue s0 ! pos));
              s1 = s0\<lparr>sc_ready_queue := take pos (sc_ready_queue s0) @ drop (Suc pos) (sc_ready_queue s0)\<rparr>
          in case transition (env_now e) task_id Running s1 of
               (Inl _, s2) \<Rightarrow> (None, s2)
             | (Inr _, s2) \<Rightarrow>
                 let lease = new_lease (env_now e) task_id worker (sc_lease_duration_ms s2) in
                 case get_task s2 task_id of
                   None \<Rightarrow> (None, s2)
                 | Some r \<Rightarrow>
                     let r' = r\<lparr>tr_lease := Some lease, tr_attempt := tr_attempt r + 1\<rparr>;
                         s3 = log_sched e TaskStarted task_id
                                [(''task_id'', PId task_id), (''worker'', PText (tl_worker_id lease)),
                                 (''attempt'', PNum (ucast (tr_attempt r')))]
                                (put_task task_id r' s2)
                     in (Some (r', lease), s3))"

text \<open>\<open>renew_lease\<close>: \<open>now\<close> is the reading that is checked, \<open>now'\<close> the one \<open>renew\<close> takes.\<close>

definition renew_lease ::
  "u64 \<Rightarrow> u64 \<Rightarrow> task_id \<Rightarrow> 'j task_scheduler
     \<Rightarrow> (scheduler_error, task_lease, 'j task_scheduler) outcome" where
  "renew_lease now now' task_id s =
     (case get_task s task_id of
        None \<Rightarrow> (Inl (TaskNotFound task_id), s)
      | Some r \<Rightarrow>
          (case tr_lease r of
             None \<Rightarrow> (Inl (LeaseExpired task_id), s)
           | Some lease \<Rightarrow>
               if \<not> lease_is_valid lease now then (Inl (LeaseExpired task_id), s)
               else let lease' = lease_renew now' (sc_lease_duration_ms s) lease
                    in (Inr lease', put_task task_id (r\<lparr>tr_lease := Some lease'\<rparr>) s)))"

section \<open>Outcomes\<close>

definition dim_of_task :: "'j task_scheduler \<Rightarrow> task_id \<Rightarrow> dimension_id" where
  "dim_of_task s t =
     (case get_task s t of None \<Rightarrow> sc_dimension_id s | Some r \<Rightarrow> ts_dimension_id (tr_spec r))"

definition complete ::
  "env \<Rightarrow> task_id \<Rightarrow> 'j task_scheduler \<Rightarrow> (scheduler_error, unit, 'j task_scheduler) outcome" where
  "complete e task_id s =
     (case transition (env_now e) task_id Completed s of
        (Inl err, s1) \<Rightarrow> (Inl err, s1)
      | (Inr _, s1) \<Rightarrow>
          let s2 = decrement_running (dim_of_task s1 task_id) s1;
              s3 = log_sched e TaskCompleted task_id [(''task_id'', PId task_id)] s2
          in (Inr (), promote_pending_tasks (env_now e) s3))"

definition fail ::
  "env \<Rightarrow> task_id \<Rightarrow> string \<Rightarrow> 'j task_scheduler
     \<Rightarrow> (scheduler_error, unit, 'j task_scheduler) outcome" where
  "fail e task_id reason s =
     (case get_task s task_id of
        None \<Rightarrow> (Inl (TaskNotFound task_id), s)
      | Some r \<Rightarrow>
          let attempt = tr_attempt r;
              max_attempts = rp_max_attempts (ts_retry_policy (tr_spec r));
              dim = ts_dimension_id (tr_spec r)
          in case transition (env_now e) task_id Failed s of
               (Inl err, s1) \<Rightarrow> (Inl err, s1)
             | (Inr _, s1) \<Rightarrow>
                (case get_task s1 task_id of
                   None \<Rightarrow> (Inl (TaskNotFound task_id), s1)
                 | Some r1 \<Rightarrow>
                    (let s2 = decrement_running dim
                           (put_task task_id (r1\<lparr>tr_failure_reason := Some reason\<rparr>) s1) in
                     if attempt < max_attempts
                     then transition (env_now e) task_id Queued
                            (log_sched e TaskRetried task_id
                              [(''task_id'', PId task_id), (''attempt'', PNum (ucast attempt)),
                               (''reason'', PText reason)] s2)
                     else (Inr (), log_sched e TaskFailed task_id
                              [(''task_id'', PId task_id), (''reason'', PText reason)] s2))))"

definition cancel ::
  "env \<Rightarrow> task_id \<Rightarrow> 'j task_scheduler \<Rightarrow> (scheduler_error, unit, 'j task_scheduler) outcome" where
  "cancel e task_id s =
     (let was_running = (case get_task s task_id of
            None \<Rightarrow> False | Some r \<Rightarrow> tr_state r = Running);
          dim = dim_of_task s task_id
      in case transition (env_now e) task_id Cancelled s of
           (Inl err, s1) \<Rightarrow> (Inl err, s1)
         | (Inr _, s1) \<Rightarrow>
             let s2 = (if was_running then decrement_running dim s1 else s1);
                 s3 = s2\<lparr>sc_ready_queue := filter (\<lambda>(_, _, t). t \<noteq> task_id) (sc_ready_queue s2)\<rparr>
             in (Inr (), log_sched e TaskCancelled task_id [(''task_id'', PId task_id)] s3))"

definition pause ::
  "u64 \<Rightarrow> task_id \<Rightarrow> 'j task_scheduler \<Rightarrow> (scheduler_error, unit, 'j task_scheduler) outcome" where
  "pause now task_id s =
     (let dim = dim_of_task s task_id in
      case transition now task_id Paused s of
        (Inl err, s1) \<Rightarrow> (Inl err, s1)
      | (Inr _, s1) \<Rightarrow> (Inr (), decrement_running dim s1))"

definition resume ::
  "u64 \<Rightarrow> task_id \<Rightarrow> 'j task_scheduler \<Rightarrow> (scheduler_error, unit, 'j task_scheduler) outcome" where
  "resume now task_id s = transition now task_id Queued s"

section \<open>Preemption, queries, persistence\<close>

definition candidates_for_preemption :: "'j task_scheduler \<Rightarrow> task_id \<Rightarrow> task_id list" where
  "candidates_for_preemption s new_task_id =
     (case get_task s new_task_id of
        None \<Rightarrow> []
      | Some nr \<Rightarrow>
          let new_prio = ts_priority (tr_spec nr) in
          case sc_preemption_policy s of
            NoPreemption \<Rightarrow> []
          | CriticalPreemptsAll \<Rightarrow>
              if new_prio < Critical then []
              else map tr_task_id (filter
                (\<lambda>r. tr_state r = Running \<and> ts_priority (tr_spec r) < Critical)
                (iter_in_order (sc_index s)))
          | HigherPriorityWins \<Rightarrow>
              map tr_task_id (filter
                (\<lambda>r. tr_state r = Running \<and> ts_priority (tr_spec r) < new_prio)
                (iter_in_order (sc_index s))))"

definition all_tasks :: "'j task_scheduler \<Rightarrow> 'j task_record list" where
  "all_tasks s = iter_in_order (sc_index s)"

definition tasks_in_state :: "'j task_scheduler \<Rightarrow> task_state \<Rightarrow> 'j task_record list" where
  "tasks_in_state s st = filter (\<lambda>r. tr_state r = st) (iter_in_order (sc_index s))"

definition tasks_for_dimension :: "'j task_scheduler \<Rightarrow> dimension_id \<Rightarrow> 'j task_record list" where
  "tasks_for_dimension s d =
     filter (\<lambda>r. ts_dimension_id (tr_spec r) = d) (iter_in_order (sc_index s))"

definition sched_len :: "'j task_scheduler \<Rightarrow> nat" where
  "sched_len s = card (dom (ix_records (sc_index s)))"

definition sched_is_empty :: "'j task_scheduler \<Rightarrow> bool" where
  "sched_is_empty s = (dom (ix_records (sc_index s)) = {})"

text \<open>\<open>snapshot\<close>: the records handed to the serialiser \<open>to_json\<close>.\<close>

definition snapshot :: "('j task_record list \<Rightarrow> 'e + string) \<Rightarrow> 'j task_scheduler \<Rightarrow> 'e + string" where
  "snapshot to_json s = to_json (iter_in_order (sc_index s))"

definition restore_one :: "'j task_record \<Rightarrow> 'j task_scheduler \<Rightarrow> 'j task_scheduler" where
  "restore_one r s =
     (let t = tr_task_id r;
          s1 = (if \<not> index_contains (sc_index s) t
                then s\<lparr>sc_index := (sc_index s)
                       \<lparr>ix_records := (ix_records (sc_index s))(t \<mapsto> r),
                        ix_insertion_order := ix_insertion_order (sc_index s) @ [t]\<rparr>\<rparr>
                else s)
      in if tr_state r = Queued then enqueue t (ts_priority (tr_spec r)) (tr_seq r) s1 else s1)"

definition restore ::
  "(string \<Rightarrow> 'e + 'j task_record list) \<Rightarrow> string \<Rightarrow> 'j task_scheduler
     \<Rightarrow> ('e, unit, 'j task_scheduler) outcome" where
  "restore from_json json s =
     (case from_json json of
        Inl err \<Rightarrow> (Inl err, s)
      | Inr records \<Rightarrow> (Inr (), fold restore_one records s))"

section \<open>Calls\<close>

datatype 'j sched_op =
    SetQuota dimension_id dimension_quota
  | RegisterTemplate "'j task_template"
  | Submit task_id "'j task_spec"
  | SubmitFromTemplate uuid task_id "string \<rightharpoonup> 'j"
  | NextReady string
  | RenewLease u64 task_id
  | Complete task_id
  | Fail task_id string
  | Cancel task_id
  | Pause task_id
  | Resume task_id

primrec sched_call ::
  "env \<Rightarrow> 'j sched_op \<Rightarrow> 'j task_scheduler \<Rightarrow> scheduler_error option \<times> 'j task_scheduler" where
  "sched_call e (SetQuota d q) s = (None, set_quota d q s)"
| "sched_call e (RegisterTemplate tmpl) s = (None, register_template tmpl s)"
| "sched_call e (Submit t spec) s = (let r = submit e t spec s in (err_of (result r), after r))"
| "sched_call e (SubmitFromTemplate u t ov) s =
     (let r = submit_from_template e u t ov s in (err_of (result r), after r))"
| "sched_call e (NextReady w) s = (None, snd (next_ready e w s))"
| "sched_call e (RenewLease now' t) s =
     (let r = renew_lease (env_now e) now' t s in (err_of (result r), after r))"
| "sched_call e (Complete t) s = (let r = complete e t s in (err_of (result r), after r))"
| "sched_call e (Fail t reason) s = (let r = fail e t reason s in (err_of (result r), after r))"
| "sched_call e (Cancel t) s = (let r = cancel e t s in (err_of (result r), after r))"
| "sched_call e (Pause t) s = (let r = pause (env_now e) t s in (err_of (result r), after r))"
| "sched_call e (Resume t) s = (let r = resume (env_now e) t s in (err_of (result r), after r))"

definition sched_step :: "env \<times> 'j sched_op \<Rightarrow> 'j task_scheduler \<Rightarrow> 'j task_scheduler" where
  "sched_step k s = snd (sched_call (fst k) (snd k) s)"

text \<open>
  What a client does with a scheduler: the calls above, and \<open>restore\<close>, which takes a parser.
\<close>

datatype 'j sched_event = Call env "'j sched_op" | Restore string

primrec event_step ::
  "(string \<Rightarrow> 'e + 'j task_record list) \<Rightarrow> 'j sched_event \<Rightarrow> 'j task_scheduler \<Rightarrow> 'j task_scheduler" where
  "event_step from_json (Call e op) s = sched_step (e, op) s"
| "event_step from_json (Restore json) s = after (restore from_json json s)"

primrec is_restore :: "'j sched_event \<Rightarrow> bool" where
  "is_restore (Call e op) = False"
| "is_restore (Restore json) = True"

end
