(* ===== verification/Scheduler_Inv.thy ===== *)
theory Scheduler_Inv
  imports Scheduler
begin

text \<open>
  Invariants of the scheduler: the index is a duplicate-free enumeration of the records, the
  ready queue holds exactly the queued tasks in dispatch order, the running counters count the
  running tasks, dependencies point backwards in submission order, and tasks leave \<open>Pending\<close>
  exactly when their dependencies are completed.
\<close>

section \<open>Views of the state\<close>

definition order_of :: "'j task_scheduler \<Rightarrow> task_id list" where
  "order_of s = ix_insertion_order (sc_index s)"

definition entry_of :: "'j task_record \<Rightarrow> ready_entry" where
  "entry_of r = (ts_priority (tr_spec r), tr_seq r, tr_task_id r)"

definition completed :: "'j task_scheduler \<Rightarrow> task_id \<Rightarrow> bool" where
  "completed s t = (case get_task s t of None \<Rightarrow> False | Some r \<Rightarrow> tr_state r = Completed)"

lemma all_deps_completed_iff: "all_deps_completed s deps = (\<forall>t \<in> set deps. completed s t)"
  by (simp add: all_deps_completed_def completed_def list_all_iff)

text \<open>How the primitive updates show in the views.\<close>

lemma put_task_views [simp]:
  "get_task (put_task t r s) = (get_task s)(t \<mapsto> r)" "order_of (put_task t r s) = order_of s"
  "sc_ready_queue (put_task t r s) = sc_ready_queue s"
  "running_for (put_task t r s) = running_for s" "quota_for (put_task t r s) = quota_for s"
  "sc_action_log (put_task t r s) = sc_action_log s"
  "sc_dimension_id (put_task t r s) = sc_dimension_id s"
  "sc_lease_duration_ms (put_task t r s) = sc_lease_duration_ms s"
  by (simp_all add: put_task_def get_task_def order_of_def running_for_def quota_for_def fun_eq_iff)

lemma log_sched_views [simp]:
  "get_task (log_sched e ev t p s) = get_task s" "order_of (log_sched e ev t p s) = order_of s"
  "sc_ready_queue (log_sched e ev t p s) = sc_ready_queue s"
  "running_for (log_sched e ev t p s) = running_for s"
  "quota_for (log_sched e ev t p s) = quota_for s"
  "sc_index (log_sched e ev t p s) = sc_index s"
  "sc_dimension_id (log_sched e ev t p s) = sc_dimension_id s"
  by (simp_all add: log_sched_def get_task_def order_of_def running_for_def quota_for_def fun_eq_iff)

lemma queue_update_views [simp]:
  "get_task (s\<lparr>sc_ready_queue := q\<rparr>) = get_task s" "order_of (s\<lparr>sc_ready_queue := q\<rparr>) = order_of s"
  "running_for (s\<lparr>sc_ready_queue := q\<rparr>) = running_for s"
  "quota_for (s\<lparr>sc_ready_queue := q\<rparr>) = quota_for s"
  by (simp_all add: get_task_def order_of_def running_for_def quota_for_def fun_eq_iff)

lemma sort_ready_queue_views [simp]:
  "get_task (sort_ready_queue s) = get_task s" "order_of (sort_ready_queue s) = order_of s"
  "running_for (sort_ready_queue s) = running_for s" "quota_for (sort_ready_queue s) = quota_for s"
  "sc_ready_queue (sort_ready_queue s) = sort_key ready_key (sc_ready_queue s)"
  "sc_action_log (sort_ready_queue s) = sc_action_log s"
  by (simp_all add: sort_ready_queue_def)

lemma enqueue_views [simp]:
  "get_task (enqueue t p sq s) = get_task s" "order_of (enqueue t p sq s) = order_of s"
  "running_for (enqueue t p sq s) = running_for s" "quota_for (enqueue t p sq s) = quota_for s"
  "sc_ready_queue (enqueue t p sq s) = sort_key ready_key (sc_ready_queue s @ [(p, sq, t)])"
  "sc_action_log (enqueue t p sq s) = sc_action_log s"
  by (simp_all add: enqueue_def)

lemma counter_views [simp]:
  "get_task (increment_running d s) = get_task s" "order_of (increment_running d s) = order_of s"
  "sc_ready_queue (increment_running d s) = sc_ready_queue s"
  "running_for (increment_running d s) = (running_for s)(d := running_for s d + 1)"
  "quota_for (increment_running d s) = quota_for s"
  "sc_action_log (increment_running d s) = sc_action_log s"
  "get_task (decrement_running d s) = get_task s" "order_of (decrement_running d s) = order_of s"
  "sc_ready_queue (decrement_running d s) = sc_ready_queue s"
  "running_for (decrement_running d s) =
     (running_for s)(d := saturating_sub (running_for s d) 1)"
  "quota_for (decrement_running d s) = quota_for s"
  "sc_action_log (decrement_running d s) = sc_action_log s"
  by (simp_all add: increment_running_def decrement_running_def get_task_def order_of_def
      running_for_def quota_for_def fun_eq_iff)

section \<open>Invariants\<close>

definition index_wf :: "'j task_scheduler \<Rightarrow> bool" where
  "index_wf s =
     (distinct (order_of s) \<and> (\<forall>t. (t \<in> set (order_of s)) = (get_task s t \<noteq> None)) \<and>
      (\<forall>t r. get_task s t = Some r \<longrightarrow> tr_task_id r = t))"

definition queue_wf :: "'j task_scheduler \<Rightarrow> bool" where
  "queue_wf s =
     (distinct (sc_ready_queue s) \<and> sorted (map ready_key (sc_ready_queue s)) \<and>
      (\<forall>x. (x \<in> set (sc_ready_queue s)) =
           (\<exists>t r. get_task s t = Some r \<and> tr_state r = Queued \<and> x = entry_of r)))"

definition runs_in :: "'j task_scheduler \<Rightarrow> dimension_id \<Rightarrow> task_id \<Rightarrow> bool" where
  "runs_in s d t =
     (case get_task s t of None \<Rightarrow> False
      | Some r \<Rightarrow> tr_state r = Running \<and> ts_dimension_id (tr_spec r) = d)"

definition running_list :: "'j task_scheduler \<Rightarrow> dimension_id \<Rightarrow> task_id list" where
  "running_list s d = filter (runs_in s d) (order_of s)"

definition count_ok :: "'j task_scheduler \<Rightarrow> bool" where
  "count_ok s = (\<forall>d. unat (running_for s d) = List.length (running_list s d))"

definition deps_wf :: "'j task_scheduler \<Rightarrow> bool" where
  "deps_wf s =
     (\<forall>xs t ys r. order_of s = xs @ t # ys \<longrightarrow> get_task s t = Some r \<longrightarrow>
        set (ts_dependencies (tr_spec r)) \<subseteq> set xs)"

text \<open>A task that is not cancelled waits in \<open>Pending\<close> exactly while a dependency is open.\<close>

definition gate_wf :: "'j task_scheduler \<Rightarrow> bool" where
  "gate_wf s =
     (\<forall>t r. get_task s t = Some r \<longrightarrow> tr_state r \<noteq> Cancelled \<longrightarrow>
        (tr_state r = Pending) = (\<not> all_deps_completed s (ts_dependencies (tr_spec r))))"

section \<open>Changing one record\<close>

definition same_task :: "'j task_record \<Rightarrow> 'j task_record \<Rightarrow> bool" where
  "same_task r r' =
     (tr_task_id r' = tr_task_id r \<and> tr_spec r' = tr_spec r \<and> tr_seq r' = tr_seq r)"

lemma same_task_entry: "same_task r r' \<Longrightarrow> entry_of r' = entry_of r"
  by (simp add: same_task_def entry_of_def)

lemma index_wf_id: "index_wf s \<Longrightarrow> get_task s t = Some r \<Longrightarrow> tr_task_id r = t"
  by (simp add: index_wf_def)

lemma index_wf_change:
  assumes "index_wf s" "get_task s t = Some r" "same_task r r'"
    "get_task s' = (get_task s)(t \<mapsto> r')" "order_of s' = order_of s"
  shows "index_wf s'"
  using assms index_wf_id [OF assms(1,2)] by (auto simp: index_wf_def same_task_def)

lemma deps_wf_change:
  assumes "deps_wf s" "get_task s t = Some r" "same_task r r'"
    "get_task s' = (get_task s)(t \<mapsto> r')" "order_of s' = order_of s"
  shows "deps_wf s'"
  unfolding deps_wf_def
proof (intro allI impI)
  fix xs u ys q
  assume "order_of s' = xs @ u # ys" "get_task s' u = Some q"
  with assms(2-5) obtain p where "order_of s = xs @ u # ys" "get_task s u = Some p"
      "tr_spec q = tr_spec p"
    by (cases "u = t") (auto simp: same_task_def)
  with assms(1) show "set (ts_dependencies (tr_spec q)) \<subseteq> set xs"
    by (simp add: deps_wf_def)
qed

lemma entry_of_inject:
  "index_wf s \<Longrightarrow> get_task s t = Some r \<Longrightarrow> get_task s u = Some q \<Longrightarrow> entry_of r = entry_of q \<Longrightarrow> t = u"
  by (auto simp: entry_of_def dest: index_wf_id)

lemma queue_wf_change:
  assumes ix: "index_wf s" and q: "queue_wf s" and r: "get_task s t = Some r"
    and same: "same_task r r'" and get': "get_task s' = (get_task s)(t \<mapsto> r')"
    and mem: "\<And>x. x \<in> set (sc_ready_queue s') \<longleftrightarrow>
       x \<in> set (sc_ready_queue s) \<and> x \<noteq> entry_of r \<or> x = entry_of r \<and> tr_state r' = Queued"
    and "distinct (sc_ready_queue s')" "sorted (map ready_key (sc_ready_queue s'))"
  shows "queue_wf s'"
proof -
  have entry': "entry_of r' = entry_of r" by (rule same_task_entry [OF same])
  have "(x \<in> set (sc_ready_queue s')) =
      (\<exists>u v. get_task s' u = Some v \<and> tr_state v = Queued \<and> x = entry_of v)" for x
  proof (cases "x = entry_of r")
    case True
    have "v = r'" if "get_task s' u = Some v" "x = entry_of v" for u v
    proof (rule ccontr)
      assume "v \<noteq> r'"
      with that(1) have "u \<noteq> t" "get_task s u = Some v" by (auto simp: get' split: if_splits)
      moreover have "entry_of r = entry_of v" using True that(2) by (rule subst)
      ultimately show False using entry_of_inject [OF ix r] by metis
    qed
    note only = this
    have "(x \<in> set (sc_ready_queue s')) = (tr_state r' = Queued)" using mem True by simp
    also have "\<dots> = (\<exists>u v. get_task s' u = Some v \<and> tr_state v = Queued \<and> x = entry_of v)"
    proof
      assume "tr_state r' = Queued"
      with True entry' have "get_task s' t = Some r' \<and> tr_state r' = Queued \<and> x = entry_of r'"
        by (simp add: get')
      then show "\<exists>u v. get_task s' u = Some v \<and> tr_state v = Queued \<and> x = entry_of v"
        by (intro exI)
    next
      assume "\<exists>u v. get_task s' u = Some v \<and> tr_state v = Queued \<and> x = entry_of v"
      then obtain u v where "get_task s' u = Some v" "tr_state v = Queued" "x = entry_of v"
        by (elim exE conjE)
      with only show "tr_state r' = Queued" by metis
    qed
    finally show ?thesis .
  next
    case False
    have "(get_task s' u = Some v \<and> x = entry_of v) = (get_task s u = Some v \<and> x = entry_of v)" for u v
    proof (cases "u = t")
      case True
      with False r entry' show ?thesis by (simp add: get') blast
    next
      case False
      then show ?thesis by (simp add: get')
    qed
    note get_eq = this
    have "(get_task s' u = Some v \<and> tr_state v = Queued \<and> x = entry_of v) =
        (get_task s u = Some v \<and> tr_state v = Queued \<and> x = entry_of v)" for u v
      using get_eq [of u v] by blast
    moreover have "(x \<in> set (sc_ready_queue s)) =
        (\<exists>u v. get_task s u = Some v \<and> tr_state v = Queued \<and> x = entry_of v)"
      using q unfolding queue_wf_def by (elim conjE) (rule spec)
    ultimately show ?thesis using False by (simp add: mem)
  qed
  with assms(7,8) show ?thesis unfolding queue_wf_def by (intro conjI allI)
qed

lemma queue_wf_notin:
  assumes "index_wf s" "queue_wf s" "get_task s t = Some r" "tr_state r \<noteq> Queued"
  shows "entry_of r \<notin> set (sc_ready_queue s)"
proof
  assume "entry_of r \<in> set (sc_ready_queue s)"
  with assms(2) obtain u v where uv: "get_task s u = Some v" "tr_state v = Queued"
      "entry_of r = entry_of v"
    unfolding queue_wf_def by blast
  from entry_of_inject [OF assms(1,3) uv(1,3)] have "t = u" .
  with uv assms(3,4) show False by simp
qed

lemma queue_wf_in:
  "queue_wf s \<Longrightarrow> get_task s t = Some r \<Longrightarrow> tr_state r = Queued \<Longrightarrow>
     entry_of r \<in> set (sc_ready_queue s)"
  unfolding queue_wf_def by blast

text \<open>A record that neither is nor becomes queued, and an untouched queue.\<close>

lemma queue_wf_off:
  assumes "index_wf s" "queue_wf s" "get_task s t = Some r" "same_task r r'"
    "tr_state r \<noteq> Queued" "tr_state r' \<noteq> Queued"
    "get_task s' = (get_task s)(t \<mapsto> r')" "sc_ready_queue s' = sc_ready_queue s"
  shows "queue_wf s'"
  using assms queue_wf_notin [OF assms(1-3,5)]
  by (intro queue_wf_change [OF assms(1-4,7)]) (auto simp: queue_wf_def)

text \<open>A record whose state stays.\<close>

lemma queue_wf_keep:
  assumes "index_wf s" "queue_wf s" "get_task s t = Some r" "same_task r r'"
    "tr_state r' = tr_state r"
    "get_task s' = (get_task s)(t \<mapsto> r')" "sc_ready_queue s' = sc_ready_queue s"
  shows "queue_wf s'"
  using assms queue_wf_notin [OF assms(1-3)] queue_wf_in [OF assms(2,3)]
  by (intro queue_wf_change [OF assms(1-4,6)]) (auto simp: queue_wf_def)

text \<open>A record that becomes queued and is enqueued.\<close>

lemma queue_wf_enqueue:
  assumes "index_wf s" "queue_wf s" "get_task s t = Some r" "same_task r r'"
    "tr_state r \<noteq> Queued" "tr_state r' = Queued"
    "get_task s' = (get_task s)(t \<mapsto> r')"
    "sc_ready_queue s' = sort_key ready_key (sc_ready_queue s @ [entry_of r])"
  shows "queue_wf s'"
  using assms queue_wf_notin [OF assms(1-3,5)]
  by (intro queue_wf_change [OF assms(1-4,7)]) (auto simp: queue_wf_def)

text \<open>A queued record that leaves the queue.\<close>

lemma queue_wf_remove:
  assumes "index_wf s" "queue_wf s" "get_task s t = Some r" "same_task r r'"
    "tr_state r' \<noteq> Queued"
    "get_task s' = (get_task s)(t \<mapsto> r')"
    "sc_ready_queue s' = filter (\<lambda>x. x \<noteq> entry_of r) (sc_ready_queue s)"
  shows "queue_wf s'"
  using assms
  by (intro queue_wf_change [OF assms(1-4,6)]) (auto simp: queue_wf_def sorted_filter)

section \<open>Counting running tasks\<close>

lemma running_list_change:
  assumes "index_wf s" "get_task s t = Some r"
    "get_task s' = (get_task s)(t \<mapsto> r')" "order_of s' = order_of s"
  shows "List.length (running_list s' d)
           + (if tr_state r = Running \<and> ts_dimension_id (tr_spec r) = d then 1 else 0) =
         List.length (running_list s d)
           + (if tr_state r' = Running \<and> ts_dimension_id (tr_spec r') = d then 1 else 0)"
proof -
  have "distinct (order_of s)" "t \<in> set (order_of s)"
    using assms by (auto simp: index_wf_def)
  then have "List.length (filter (runs_in s' d) (order_of s)) + (if runs_in s d t then 1 else 0) =
      List.length (filter (runs_in s d) (order_of s)) + (if runs_in s' d t then 1 else 0)"
    by (rule length_filter_change) (simp add: runs_in_def assms)
  then show ?thesis using assms by (simp add: running_list_def runs_in_def)
qed

lemma running_list_le: "List.length (running_list s d) \<le> List.length (order_of s)"
  by (simp add: running_list_def)

lemma running_list_less:
  assumes "get_task s t = Some r" "tr_state r \<noteq> Running" "t \<in> set (order_of s)"
  shows "List.length (running_list s d) < List.length (order_of s)"
  unfolding running_list_def
  by (rule length_filter_less [of t]) (use assms in \<open>auto simp: runs_in_def\<close>)

lemma count_ok_cong:
  "get_task s' = get_task s \<Longrightarrow> order_of s' = order_of s \<Longrightarrow> running_for s' = running_for s \<Longrightarrow>
     count_ok s' = count_ok s"
  by (simp add: count_ok_def running_list_def runs_in_def fun_eq_iff cong: filter_cong)

lemma count_ok_off:
  assumes "count_ok s" "index_wf s" "get_task s t = Some r" "same_task r r'"
    "(tr_state r' = Running) = (tr_state r = Running)"
    "get_task s' = (get_task s)(t \<mapsto> r')" "order_of s' = order_of s" "running_for s' = running_for s"
  shows "count_ok s'"
  unfolding count_ok_def
proof
  fix d
  show "unat (running_for s' d) = List.length (running_list s' d)"
    using running_list_change [OF assms(2,3,6,7), of d] assms(1,4,5,8)
    by (auto simp: count_ok_def same_task_def split: if_splits)
qed

lemma count_ok_start:
  assumes "count_ok s" "index_wf s" "get_task s t = Some r" "same_task r r'"
    "tr_state r \<noteq> Running" "tr_state r' = Running" "List.length (order_of s) < 2 ^ 32"
    "get_task s' = (get_task s)(t \<mapsto> r')" "order_of s' = order_of s"
    "running_for s' = (running_for s)(ts_dimension_id (tr_spec r) :=
       running_for s (ts_dimension_id (tr_spec r)) + 1)"
  shows "count_ok s'"
  unfolding count_ok_def
proof
  fix d
  have "t \<in> set (order_of s)" using assms by (auto simp: index_wf_def)
  then have "unat (running_for s d) + 1 < 2 ^ 32"
    using running_list_less [OF assms(3,5), of d] assms(1,7) by (simp add: count_ok_def)
  then have "unat (running_for s d + 1) = unat (running_for s d) + 1"
    by (intro unat_Suc_word) simp
  moreover have "unat (running_for s d) = List.length (running_list s d)"
    using assms(1) by (simp add: count_ok_def)
  moreover have "tr_spec r' = tr_spec r" using assms(4) by (simp add: same_task_def)
  ultimately show "unat (running_for s' d) = List.length (running_list s' d)"
    using running_list_change [OF assms(2,3,8,9), of d] assms(5,6,10)
    by (cases "d = ts_dimension_id (tr_spec r)") simp_all
qed

lemma count_ok_stop:
  assumes "count_ok s" "index_wf s" "get_task s t = Some r" "same_task r r'"
    "tr_state r = Running" "tr_state r' \<noteq> Running"
    "get_task s' = (get_task s)(t \<mapsto> r')" "order_of s' = order_of s"
    "running_for s' = (running_for s)(ts_dimension_id (tr_spec r) :=
       saturating_sub (running_for s (ts_dimension_id (tr_spec r))) 1)"
  shows "count_ok s'"
  unfolding count_ok_def
proof
  fix d
  show "unat (running_for s' d) = List.length (running_list s' d)"
    using running_list_change [OF assms(2,3,7,8), of d] assms(1,4-6,9)
    by (auto simp: count_ok_def same_task_def unat_saturating_sub split: if_splits)
qed

end
