(* ===== verification/Scheduler_Steps.thy ===== *)
theory Scheduler_Steps
  imports Scheduler_Inv
begin

text \<open>
  The abstract steps of the scheduler: a task is inserted, or one record moves and the queue
  and the running counters follow it. Every operation of \<open>Scheduler\<close> is a sequence of such
  steps; the invariants are proved once for the steps.
\<close>

section \<open>Steps\<close>

definition queue_follows :: "'j task_record \<Rightarrow> 'j task_record \<Rightarrow> ready_entry list \<Rightarrow> ready_entry list" where
  "queue_follows r r' q =
     (if tr_state r' = Queued then
        if tr_state r = Queued then q else sort_key ready_key (q @ [entry_of r])
      else if tr_state r = Queued then filter (\<lambda>x. x \<noteq> entry_of r) q else q)"

definition count_follows ::
  "'j task_record \<Rightarrow> 'j task_record \<Rightarrow> (dimension_id \<Rightarrow> u32) \<Rightarrow> dimension_id \<Rightarrow> u32" where
  "count_follows r r' n =
     (let d = ts_dimension_id (tr_spec r) in
      if tr_state r' = Running then
        if tr_state r = Running then n else n(d := n d + 1)
      else if tr_state r = Running then n(d := saturating_sub (n d) 1) else n)"

definition seq_of :: "'j task_scheduler \<Rightarrow> u64" where
  "seq_of s = ix_seq (sc_index s)"

definition moves ::
  "task_id \<Rightarrow> 'j task_record \<Rightarrow> 'j task_record \<Rightarrow> 'j task_scheduler \<Rightarrow> 'j task_scheduler \<Rightarrow> bool" where
  "moves t r r' s s' =
     (get_task s t = Some r \<and> same_task r r' \<and> get_task s' = (get_task s)(t \<mapsto> r') \<and>
      order_of s' = order_of s \<and> seq_of s' = seq_of s \<and>
      sc_ready_queue s' = queue_follows r r' (sc_ready_queue s) \<and>
      running_for s' = count_follows r r' (running_for s))"

definition inserts :: "task_id \<Rightarrow> 'j task_record \<Rightarrow> 'j task_scheduler \<Rightarrow> 'j task_scheduler \<Rightarrow> bool" where
  "inserts t r s s' =
     (get_task s t = None \<and> tr_task_id r = t \<and> tr_seq r = seq_of s + 1 \<and> tr_state r = Pending \<and>
      (\<forall>u \<in> set (ts_dependencies (tr_spec r)). get_task s u \<noteq> None) \<and>
      get_task s' = (get_task s)(t \<mapsto> r) \<and> order_of s' = order_of s @ [t] \<and>
      seq_of s' = seq_of s + 1 \<and> sc_ready_queue s' = sc_ready_queue s \<and>
      running_for s' = running_for s)"

definition same_view :: "'j task_scheduler \<Rightarrow> 'j task_scheduler \<Rightarrow> bool" where
  "same_view s s' =
     (get_task s' = get_task s \<and> order_of s' = order_of s \<and> seq_of s' = seq_of s \<and>
      sc_ready_queue s' = sc_ready_queue s \<and> running_for s' = running_for s)"

text \<open>The sequence number of a record is its place in the insertion order.\<close>

definition seq_wf :: "'j task_scheduler \<Rightarrow> bool" where
  "seq_wf s =
     (seq_of s = of_nat (List.length (order_of s)) \<and>
      (\<forall>i r. i < List.length (order_of s) \<longrightarrow> get_task s (order_of s ! i) = Some r \<longrightarrow>
         tr_seq r = of_nat (Suc i)))"

text \<open>The counters are \<open>u32\<close>: exact as long as there are fewer tasks than that.\<close>

definition count_wf :: "'j task_scheduler \<Rightarrow> bool" where
  "count_wf s = (List.length (order_of s) < 2 ^ 32 \<longrightarrow> count_ok s)"

definition sched_inv :: "'j task_scheduler \<Rightarrow> bool" where
  "sched_inv s = (index_wf s \<and> queue_wf s \<and> count_wf s \<and> deps_wf s \<and> seq_wf s)"

lemma sched_invD:
  assumes "sched_inv s"
  shows "index_wf s" "queue_wf s" "count_wf s" "deps_wf s" "seq_wf s"
  using assms by (simp_all add: sched_inv_def)

lemma movesD:
  assumes "moves t r r' s s'"
  shows "get_task s t = Some r" "same_task r r'" "get_task s' = (get_task s)(t \<mapsto> r')"
    "order_of s' = order_of s" "seq_of s' = seq_of s"
    "sc_ready_queue s' = queue_follows r r' (sc_ready_queue s)"
    "running_for s' = count_follows r r' (running_for s)"
  using assms by (simp_all add: moves_def)

section \<open>Moves keep the invariants\<close>

lemma queue_wf_moves:
  assumes "index_wf s" "queue_wf s" and m: "moves t r r' s s'"
  shows "queue_wf s'"
proof (cases "tr_state r' = Queued")
  case True
  note q' = this
  show ?thesis
  proof (cases "tr_state r = Queued")
    case True
    with q' show ?thesis
      by (intro queue_wf_keep [OF assms(1,2) movesD(1-2) [OF m] _ movesD(3) [OF m]])
        (simp_all add: movesD(6) [OF m] queue_follows_def)
  next
    case False
    with q' show ?thesis
      by (intro queue_wf_enqueue [OF assms(1,2) movesD(1-2) [OF m] _ _ movesD(3) [OF m]])
        (simp_all add: movesD(6) [OF m] queue_follows_def)
  qed
next
  case False
  note q' = this
  show ?thesis
  proof (cases "tr_state r = Queued")
    case True
    with q' show ?thesis
      by (intro queue_wf_remove [OF assms(1,2) movesD(1-2) [OF m] _ movesD(3) [OF m]])
        (simp_all add: movesD(6) [OF m] queue_follows_def)
  next
    case False
    with q' show ?thesis
      by (intro queue_wf_off [OF assms(1,2) movesD(1-2) [OF m] _ _ movesD(3) [OF m]])
        (simp_all add: movesD(6) [OF m] queue_follows_def)
  qed
qed

lemma count_ok_moves:
  assumes "count_ok s" "index_wf s" "List.length (order_of s) < 2 ^ 32" and m: "moves t r r' s s'"
  shows "count_ok s'"
proof (cases "(tr_state r' = Running) = (tr_state r = Running)")
  case True
  then show ?thesis
    by (intro count_ok_off [OF assms(1,2) movesD(1-2) [OF m] _ movesD(3,4) [OF m]])
      (auto simp: movesD(7) [OF m] count_follows_def Let_def)
next
  case False
  note differ = this
  show ?thesis
  proof (cases "tr_state r = Running")
    case True
    with differ show ?thesis
      by (intro count_ok_stop [OF assms(1,2) movesD(1-2) [OF m] _ _ movesD(3,4) [OF m]])
        (simp_all add: movesD(7) [OF m] count_follows_def Let_def)
  next
    case False
    with differ show ?thesis
      by (intro count_ok_start [OF assms(1,2) movesD(1-2) [OF m] _ _ assms(3) movesD(3,4) [OF m]])
        (simp_all add: movesD(7) [OF m] count_follows_def Let_def)
  qed
qed

lemma seq_wf_moves:
  assumes "seq_wf s" and m: "moves t r r' s s'"
  shows "seq_wf s'"
  unfolding seq_wf_def movesD(3-5) [OF m]
proof (intro conjI allI impI)
  show "seq_of s = of_nat (List.length (order_of s))" using assms(1) by (simp add: seq_wf_def)
next
  fix i q
  assume i: "i < List.length (order_of s)" and q: "((get_task s)(t \<mapsto> r')) (order_of s ! i) = Some q"
  from q movesD(1,2) [OF m] obtain p where "get_task s (order_of s ! i) = Some p" "tr_seq q = tr_seq p"
    by (cases "order_of s ! i = t") (auto simp: same_task_def)
  with i assms(1) show "tr_seq q = of_nat (Suc i)" by (simp add: seq_wf_def del: of_nat_Suc)
qed

lemma sched_inv_moves: "sched_inv s \<Longrightarrow> moves t r r' s s' \<Longrightarrow> sched_inv s'"
  unfolding sched_inv_def count_wf_def
  by (metis index_wf_change deps_wf_change movesD count_ok_moves queue_wf_moves seq_wf_moves)

section \<open>Insertion and unchanged views\<close>

lemma index_wf_inserts:
  assumes "index_wf s" "inserts t r s s'"
  shows "index_wf s'"
  using assms by (auto simp: index_wf_def inserts_def)

lemma queue_wf_inserts:
  assumes "queue_wf s" and i: "inserts t r s s'"
  shows "queue_wf s'"
proof -
  have "(get_task s' u = Some v \<and> tr_state v = Queued \<and> x = entry_of v) =
      (get_task s u = Some v \<and> tr_state v = Queued \<and> x = entry_of v)" for u v x
    using i by (cases "u = t") (auto simp: inserts_def)
  moreover have "sc_ready_queue s' = sc_ready_queue s" using i by (simp add: inserts_def)
  ultimately show ?thesis using assms(1) by (simp only: queue_wf_def simp_thms)
qed

lemma count_ok_inserts:
  assumes "count_ok s" "index_wf s" and i: "inserts t r s s'"
  shows "count_ok s'"
proof -
  have t: "t \<notin> set (order_of s)" using assms(2) i by (simp add: index_wf_def inserts_def)
  have "runs_in s' d u = runs_in s d u" if "u \<noteq> t" for d u
    using i that by (simp add: runs_in_def inserts_def)
  moreover have "\<not> runs_in s' d t" for d using i by (simp add: runs_in_def inserts_def)
  moreover have "filter (runs_in s' d) (order_of s) = filter (runs_in s d) (order_of s)" for d
  proof (rule filter_cong [OF refl])
    fix u
    assume "u \<in> set (order_of s)"
    with t have "u \<noteq> t" by auto
    then show "runs_in s' d u = runs_in s d u" by (rule calculation(1))
  qed
  ultimately have "running_list s' d = running_list s d" for d
    using i by (simp add: running_list_def inserts_def)
  then show ?thesis using assms(1) i by (simp add: count_ok_def inserts_def)
qed

lemma deps_wf_inserts:
  assumes d: "deps_wf s" and ix: "index_wf s" and i: "inserts t r s s'"
  shows "deps_wf s'"
  unfolding deps_wf_def
proof (intro allI impI)
  fix xs u ys q
  assume split: "order_of s' = xs @ u # ys" and q: "get_task s' u = Some q"
  show "set (ts_dependencies (tr_spec q)) \<subseteq> set xs"
  proof (cases ys rule: rev_cases)
    case Nil
    with split i have "xs = order_of s" "u = t" by (simp_all add: inserts_def)
    with q i ix show ?thesis by (auto simp: inserts_def index_wf_def)
  next
    case (snoc zs z)
    with split i have split': "order_of s = xs @ u # zs" by (simp add: inserts_def)
    then have "u \<in> set (order_of s)" by simp
    moreover have "t \<notin> set (order_of s)" using ix i by (simp add: index_wf_def inserts_def)
    ultimately have "u \<noteq> t" by metis
    with q i have "get_task s u = Some q" by (simp add: inserts_def)
    with d split' show ?thesis by (simp add: deps_wf_def)
  qed
qed

lemma seq_wf_inserts:
  assumes "seq_wf s" "index_wf s" and i: "inserts t r s s'"
  shows "seq_wf s'"
  unfolding seq_wf_def
proof (intro conjI allI impI)
  show "seq_of s' = of_nat (List.length (order_of s'))"
    using assms(1) i by (simp add: seq_wf_def inserts_def)
next
  fix k q
  assume k: "k < List.length (order_of s')" and q: "get_task s' (order_of s' ! k) = Some q"
  show "tr_seq q = of_nat (Suc k)"
  proof (cases "k = List.length (order_of s)")
    case True
    with q i assms(1) show ?thesis by (simp add: inserts_def seq_wf_def)
  next
    case False
    with k i have k': "k < List.length (order_of s)" by (simp add: inserts_def)
    with i have nth: "order_of s' ! k = order_of s ! k" by (simp add: inserts_def nth_append)
    have "order_of s ! k \<in> set (order_of s)" using k' by simp
    moreover have "t \<notin> set (order_of s)" using assms(2) i by (simp add: index_wf_def inserts_def)
    ultimately have "order_of s ! k \<noteq> t" by metis
    with q i nth have "get_task s (order_of s ! k) = Some q" by (simp add: inserts_def)
    with k' assms(1) show ?thesis by (simp add: seq_wf_def del: of_nat_Suc)
  qed
qed

lemma sched_inv_inserts: "sched_inv s \<Longrightarrow> inserts t r s s' \<Longrightarrow> sched_inv s'"
proof -
  assume inv: "sched_inv s" and i: "inserts t r s s'"
  have "count_wf s'"
    using sched_invD [OF inv] i count_ok_inserts [OF _ _ i] by (auto simp: count_wf_def inserts_def)
  then show ?thesis
    using sched_invD [OF inv] i index_wf_inserts queue_wf_inserts deps_wf_inserts seq_wf_inserts
    unfolding sched_inv_def by metis
qed

lemma sched_inv_same_view:
  assumes "same_view s s'"
  shows "sched_inv s' = sched_inv s"
proof -
  have "count_ok s' = count_ok s" using assms by (intro count_ok_cong) (simp_all add: same_view_def)
  with assms show ?thesis
    by (simp only: same_view_def sched_inv_def index_wf_def queue_wf_def count_wf_def deps_wf_def
        seq_wf_def)
qed

section \<open>What \<open>restore\<close> keeps\<close>

text \<open>A record read from a snapshot: it comes with its own state and sequence number.\<close>

definition restores :: "'j task_record \<Rightarrow> 'j task_scheduler \<Rightarrow> 'j task_scheduler \<Rightarrow> bool" where
  "restores r s s' =
     (get_task s (tr_task_id r) = None \<and> get_task s' = (get_task s)(tr_task_id r \<mapsto> r) \<and>
      order_of s' = order_of s @ [tr_task_id r] \<and>
      sc_ready_queue s' = (if tr_state r = Queued then sort_key ready_key (sc_ready_queue s @ [entry_of r])
                           else sc_ready_queue s) \<and>
      running_for s' = running_for s)"

text \<open>The part of the invariants that survives a \<open>restore\<close>: it counts no restored task, so the
  counters are only lower bounds then.\<close>

definition count_le :: "'j task_scheduler \<Rightarrow> bool" where
  "count_le s = (\<forall>d. unat (running_for s d) \<le> List.length (running_list s d))"

definition sched_core :: "'j task_scheduler \<Rightarrow> bool" where
  "sched_core s = (index_wf s \<and> queue_wf s \<and> count_le s)"

lemma sched_coreD:
  assumes "sched_core s"
  shows "index_wf s" "queue_wf s" "count_le s"
  using assms by (simp_all add: sched_core_def)

lemma unat_add_one_le: "unat (x + 1 :: 'l::len word) \<le> unat x + 1"
  by (simp add: unat_word_ariths)

lemma count_le_moves:
  assumes "count_le s" "index_wf s" and m: "moves t r r' s s'"
  shows "count_le s'"
  unfolding count_le_def
proof
  fix d
  have le: "unat (running_for s d) \<le> List.length (running_list s d)" using assms(1) by (simp add: count_le_def)
  have "tr_spec r' = tr_spec r" using movesD(2) [OF m] by (simp add: same_task_def)
  then show "unat (running_for s' d) \<le> List.length (running_list s' d)"
    using running_list_change [OF assms(2) movesD(1,3,4) [OF m], of d] le
      unat_add_one_le [of "running_for s d"]
    by (auto simp: movesD(7) [OF m] count_follows_def Let_def unat_saturating_sub split: if_splits)
qed

lemma count_le_grows:
  assumes "count_le s" "running_for s' = running_for s" "order_of s' = order_of s @ [t]"
    "\<And>u. u \<in> set (order_of s) \<Longrightarrow> get_task s' u = get_task s u"
  shows "count_le s'"
proof -
  have "filter (runs_in s' d) (order_of s) = filter (runs_in s d) (order_of s)" for d
    by (rule filter_cong) (simp_all add: runs_in_def assms(4))
  then have "List.length (running_list s d) \<le> List.length (running_list s' d)" for d
    by (simp add: running_list_def assms(3))
  then show ?thesis using assms(1,2) le_trans unfolding count_le_def by fastforce
qed

lemma sched_core_moves: "sched_core s \<Longrightarrow> moves t r r' s s' \<Longrightarrow> sched_core s'"
  unfolding sched_core_def
  by (metis index_wf_change movesD(1-4) queue_wf_moves count_le_moves)

lemma sched_core_inserts:
  assumes "sched_core s" and i: "inserts t r s s'"
  shows "sched_core s'"
proof -
  have "count_le s'"
    by (rule count_le_grows [of s _ t])
      (use assms in \<open>auto simp: sched_core_def index_wf_def inserts_def\<close>)
  then show ?thesis
    using assms index_wf_inserts queue_wf_inserts unfolding sched_core_def by blast
qed

lemma sched_core_same_view:
  assumes "same_view s s'"
  shows "sched_core s' = sched_core s"
  using assms
  by (simp add: same_view_def sched_core_def index_wf_def queue_wf_def count_le_def running_list_def
      runs_in_def [abs_def])

lemma queue_wf_restores:
  assumes ix: "index_wf s" and q: "queue_wf s" and r: "restores r s s'"
  shows "queue_wf s'"
proof (cases "tr_state r = Queued")
  case False
  then have "(get_task s' t = Some v \<and> tr_state v = Queued) = (get_task s t = Some v \<and> tr_state v = Queued)"
    for t v using r by (auto simp: restores_def)
  then show ?thesis using q r False by (simp add: queue_wf_def restores_def flip: conj_assoc)
next
  case True
  have new: "entry_of r \<notin> set (sc_ready_queue s)"
  proof
    assume "entry_of r \<in> set (sc_ready_queue s)"
    then obtain u v where "get_task s u = Some v" "entry_of r = entry_of v"
      using q unfolding queue_wf_def by blast
    then show False using index_wf_id [OF ix, of u v] r by (simp add: entry_of_def restores_def)
  qed
  have mem: "set (sc_ready_queue s') = insert (entry_of r) (set (sc_ready_queue s))"
    using r True by (simp add: restores_def)
  have "(x \<in> set (sc_ready_queue s')) =
      (\<exists>t v. get_task s' t = Some v \<and> tr_state v = Queued \<and> x = entry_of v)" for x
  proof -
    have "(x \<in> set (sc_ready_queue s)) =
        (\<exists>t v. get_task s t = Some v \<and> tr_state v = Queued \<and> x = entry_of v)"
      using q unfolding queue_wf_def by blast
    moreover have "get_task s' t = Some v \<longleftrightarrow> t = tr_task_id r \<and> v = r \<or> get_task s t = Some v" for t v
      using r by (auto simp: restores_def)
    then have "(\<exists>t v. get_task s' t = Some v \<and> tr_state v = Queued \<and> x = entry_of v) =
        (x = entry_of r \<or> (\<exists>t v. get_task s t = Some v \<and> tr_state v = Queued \<and> x = entry_of v))"
      using True by auto
    ultimately show ?thesis by (simp add: mem)
  qed
  then show ?thesis using q r True new by (simp add: queue_wf_def restores_def)
qed

lemma sched_core_restores:
  assumes "sched_core s" and r: "restores r s s'"
  shows "sched_core s'"
proof -
  have "index_wf s'" using assms by (auto simp: sched_core_def index_wf_def restores_def)
  moreover have "count_le s'"
    by (rule count_le_grows [of s _ "tr_task_id r"])
      (use assms in \<open>auto simp: sched_core_def index_wf_def restores_def\<close>)
  ultimately show ?thesis
    using assms queue_wf_restores unfolding sched_core_def by blast
qed

end
