(* ===== verification/Scheduler_Ops.thy ===== *)
theory Scheduler_Ops
  imports Scheduler_Steps
begin

text \<open>
  Every operation of the scheduler, case by case: it fails and leaves the scheduler as it was,
  or it takes the abstract steps of \<open>Scheduler_Steps\<close>.
\<close>

section \<open>Transitions\<close>

lemma can_transition_iff [simp]:
  "can_transition_to st Pending \<longleftrightarrow> False"
  "can_transition_to st Queued \<longleftrightarrow> st = Pending \<or> st = Paused \<or> st = Failed"
  "can_transition_to st Running \<longleftrightarrow> st = Queued"
  "can_transition_to st Paused \<longleftrightarrow> st = Running"
  "can_transition_to st Completed \<longleftrightarrow> st = Running"
  "can_transition_to st Failed \<longleftrightarrow> st = Running"
  "can_transition_to st Cancelled \<longleftrightarrow> st \<noteq> Completed \<and> st \<noteq> Cancelled"
  by (cases st; simp)+

definition touched :: "u64 \<Rightarrow> task_state \<Rightarrow> 'j task_record \<Rightarrow> 'j task_record" where
  "touched now st r = r\<lparr>tr_state := st, tr_updated_at_ms := now\<rparr>"

lemma touched_simps [simp]:
  "tr_state (touched now st r) = st" "tr_spec (touched now st r) = tr_spec r"
  "tr_task_id (touched now st r) = tr_task_id r" "tr_seq (touched now st r) = tr_seq r"
  "tr_attempt (touched now st r) = tr_attempt r" "same_task r (touched now st r)"
  by (simp_all add: touched_def same_task_def)

lemma seq_views [simp]:
  "seq_of (put_task t r s) = seq_of s" "seq_of (log_sched e ev t p s) = seq_of s"
  "seq_of (s\<lparr>sc_ready_queue := q\<rparr>) = seq_of s" "seq_of (sort_ready_queue s) = seq_of s"
  "seq_of (enqueue t pr sq s) = seq_of s" "seq_of (increment_running d s) = seq_of s"
  "seq_of (decrement_running d s) = seq_of s"
  by (simp_all add: seq_of_def put_task_def log_sched_def sort_ready_queue_def enqueue_def
      increment_running_def decrement_running_def)

lemma transition_ok:
  "get_task s t = Some r \<Longrightarrow> can_transition_to (tr_state r) next \<Longrightarrow>
     transition now t next s =
       (Inr (), if next = Queued then enqueue t (ts_priority (tr_spec r)) (tr_seq r)
                                        (put_task t (touched now next r) s)
                else if next = Running then increment_running (ts_dimension_id (tr_spec r))
                                              (put_task t (touched now next r) s)
                else put_task t (touched now next r) s)"
  by (simp add: transition_def touched_def Let_def)

lemma transition_missing:
  "get_task s t = None \<Longrightarrow> transition now t next s = (Inl (TaskNotFound t), s)"
  by (simp add: transition_def)

lemma transition_bad:
  "get_task s t = Some r \<Longrightarrow> \<not> can_transition_to (tr_state r) next \<Longrightarrow>
     transition now t next s = (Inl (InvalidTransition t (tr_state r) next), s)"
  by (simp add: transition_def)

text \<open>The error a transition gives, if any.\<close>

definition refused :: "'j task_scheduler \<Rightarrow> task_id \<Rightarrow> task_state \<Rightarrow> scheduler_error option" where
  "refused s t next =
     (case get_task s t of
        None \<Rightarrow> Some (TaskNotFound t)
      | Some r \<Rightarrow> if can_transition_to (tr_state r) next then None
                  else Some (InvalidTransition t (tr_state r) next))"

lemma refused_cases:
  obtains (refused) err where "refused s t next = Some err"
      "\<And>now. transition now t next s = (Inl err, s)"
    | (allowed) r where "refused s t next = None" "get_task s t = Some r"
      "can_transition_to (tr_state r) next"
proof (cases "get_task s t")
  case None
  then show thesis using refused transition_missing [OF None] by (simp add: refused_def)
next
  case (Some r)
  show thesis
  proof (cases "can_transition_to (tr_state r) next")
    case True
    with Some show thesis using allowed by (simp add: refused_def)
  next
    case False
    with Some show thesis using refused transition_bad [OF Some False] by (simp add: refused_def)
  qed
qed

lemma resume_moves:
  assumes "index_wf s" "get_task s t = Some r" "can_transition_to (tr_state r) Queued"
  shows "result (resume now t s) = Inr ()"
    "moves t r (touched now Queued r) s (after (resume now t s))"
  using assms index_wf_id [OF assms(1,2)]
  by (auto simp: resume_def transition_ok moves_def queue_follows_def count_follows_def entry_of_def)

lemma pause_moves:
  assumes "get_task s t = Some r" "tr_state r = Running"
  shows "result (pause now t s) = Inr ()"
    "moves t r (touched now Paused r) s (after (pause now t s))"
  using assms
  by (simp_all add: pause_def transition_ok dim_of_task_def moves_def queue_follows_def
      count_follows_def Let_def)

lemma filter_queue_task:
  assumes "index_wf s" "queue_wf s" "get_task s t = Some r"
  shows "filter (\<lambda>(_, _, u). u \<noteq> t) (sc_ready_queue s) =
     (if tr_state r = Queued then filter (\<lambda>x. x \<noteq> entry_of r) (sc_ready_queue s)
      else sc_ready_queue s)"
proof -
  have id: "(snd (snd x) \<noteq> t) = (x \<noteq> entry_of r)" if x: "x \<in> set (sc_ready_queue s)" for x
  proof -
    from x assms(2) obtain u v where uv: "get_task s u = Some v" "x = entry_of v"
      unfolding queue_wf_def by blast
    have "snd (snd x) = u" using uv index_wf_id [OF assms(1) uv(1)] by (simp add: entry_of_def)
    moreover have "x = entry_of r" if "u = t" using uv assms(3) that by simp
    moreover have "snd (snd (entry_of r)) = t"
      using index_wf_id [OF assms(1,3)] by (simp add: entry_of_def)
    ultimately show ?thesis by metis
  qed
  have "filter (\<lambda>(_, _, u). u \<noteq> t) (sc_ready_queue s) =
      filter (\<lambda>x. x \<noteq> entry_of r) (sc_ready_queue s)"
    by (rule filter_cong [OF refl]) (use id in \<open>simp add: case_prod_beta\<close>)
  moreover have "filter (\<lambda>x. x \<noteq> entry_of r) (sc_ready_queue s) = sc_ready_queue s"
    if "tr_state r \<noteq> Queued"
    using queue_wf_notin [OF assms that] by (intro filter_True) auto
  ultimately show ?thesis by simp
qed

lemma cancel_moves:
  assumes "index_wf s" "queue_wf s" "get_task s t = Some r" "can_transition_to (tr_state r) Cancelled"
  shows "result (cancel e t s) = Inr ()"
    "moves t r (touched (env_now e) Cancelled r) s (after (cancel e t s))"
proof -
  show "result (cancel e t s) = Inr ()"
    using assms(3,4) by (simp add: cancel_def transition_ok Let_def)
  show "moves t r (touched (env_now e) Cancelled r) s (after (cancel e t s))"
    using assms(3,4) filter_queue_task [OF assms(1-3)]
    by (simp add: cancel_def transition_ok dim_of_task_def moves_def queue_follows_def
        count_follows_def Let_def)
qed

definition failed_record :: "u64 \<Rightarrow> string \<Rightarrow> 'j task_record \<Rightarrow> 'j task_record" where
  "failed_record now reason r =
     (let r1 = (touched now Failed r)\<lparr>tr_failure_reason := Some reason\<rparr> in
      if tr_attempt r < rp_max_attempts (ts_retry_policy (tr_spec r)) then touched now Queued r1
      else r1)"

lemma failed_record_simps [simp]:
  "tr_state (failed_record now reason r) =
     (if tr_attempt r < rp_max_attempts (ts_retry_policy (tr_spec r)) then Queued else Failed)"
  "tr_spec (failed_record now reason r) = tr_spec r"
  "tr_attempt (failed_record now reason r) = tr_attempt r"
  "tr_failure_reason (failed_record now reason r) = Some reason"
  "same_task r (failed_record now reason r)"
  by (simp_all add: failed_record_def touched_def same_task_def Let_def)

lemma fail_moves:
  assumes "index_wf s" "get_task s t = Some r" "tr_state r = Running"
  shows "result (fail e t reason s) = Inr ()"
    "moves t r (failed_record (env_now e) reason r) s (after (fail e t reason s))"
proof -
  let ?s2 = "decrement_running (ts_dimension_id (tr_spec r))
    (put_task t ((touched (env_now e) Failed r)\<lparr>tr_failure_reason := Some reason\<rparr>)
      (put_task t (touched (env_now e) Failed r) s))"
  have get2: "get_task (log_sched e ev t p ?s2) t =
      Some ((touched (env_now e) Failed r)\<lparr>tr_failure_reason := Some reason\<rparr>)" for ev p
    by simp
  have fail: "fail e t reason s =
     (if tr_attempt r < rp_max_attempts (ts_retry_policy (tr_spec r))
      then transition (env_now e) t Queued (log_sched e TaskRetried t
             [(''task_id'', PId t), (''attempt'', PNum (ucast (tr_attempt r))),
              (''reason'', PText reason)] ?s2)
      else (Inr (), log_sched e TaskFailed t
             [(''task_id'', PId t), (''reason'', PText reason)] ?s2))"
    using assms(2,3) by (simp add: fail_def transition_ok Let_def)
  show "result (fail e t reason s) = Inr ()"
    unfolding fail by (simp add: transition_ok [OF get2])
  show "moves t r (failed_record (env_now e) reason r) s (after (fail e t reason s))"
    unfolding fail moves_def
    using assms(2,3) index_wf_id [OF assms(1,2)]
    by (simp add: transition_ok [OF get2] failed_record_def Let_def queue_follows_def
        count_follows_def entry_of_def) (simp add: same_task_def)
qed

section \<open>Promotion\<close>

lemma ids_in_order:
  assumes "index_wf s"
  shows "map tr_task_id (filter P (iter_in_order (sc_index s))) =
     filter (\<lambda>t. case get_task s t of None \<Rightarrow> False | Some r \<Rightarrow> P r) (order_of s)"
proof -
  have "map tr_task_id (filter P (List.map_filter (get_task s) xs)) =
      filter (\<lambda>t. case get_task s t of None \<Rightarrow> False | Some r \<Rightarrow> P r) xs" for xs
    by (induction xs) (auto simp: map_filter_simps index_wf_id [OF assms] split: option.splits)
  then show ?thesis by (simp add: iter_in_order_def order_of_def get_task_def [abs_def])
qed

text \<open>What the promotion of the tasks \<open>ts\<close> makes of the record of \<open>u\<close>.\<close>

definition promoted ::
  "u64 \<Rightarrow> task_id set \<Rightarrow> 'j task_scheduler \<Rightarrow> task_id \<Rightarrow> 'j task_record option" where
  "promoted now ts s u =
     (if u \<in> ts
      then map_option (\<lambda>r. if all_deps_completed s (ts_dependencies (tr_spec r))
                           then touched now Queued r else r) (get_task s u)
      else get_task s u)"

definition pending :: "'j task_scheduler \<Rightarrow> task_id \<Rightarrow> bool" where
  "pending s t = (case get_task s t of None \<Rightarrow> False | Some r \<Rightarrow> tr_state r = Pending)"

lemma promote_one_cases:
  assumes "index_wf s" "pending s t"
  obtains (stay) r where "get_task s t = Some r" "promote_one now t s = s"
      "\<not> all_deps_completed s (ts_dependencies (tr_spec r))"
    | (promote) r where "get_task s t = Some r" "tr_state r = Pending"
      "all_deps_completed s (ts_dependencies (tr_spec r))"
      "moves t r (touched now Queued r) s (promote_one now t s)"
proof -
  from assms(2) obtain r where r: "get_task s t = Some r" "tr_state r = Pending"
    by (auto simp: pending_def split: option.splits)
  show thesis
  proof (cases "all_deps_completed s (ts_dependencies (tr_spec r))")
    case True
    with r resume_moves(2) [OF assms(1) r(1), of now] show thesis
      by (intro promote [OF r True]) (simp add: promote_one_def resume_def)
  next
    case False
    with r show thesis by (intro stay [OF r(1)]) (simp_all add: promote_one_def)
  qed
qed

lemma completed_moves:
  assumes "moves t r r' s s'" "(tr_state r' = Completed) = (tr_state r = Completed)"
  shows "completed s' = completed s"
proof
  show "completed s' u = completed s u" for u
    using assms movesD(1,3) [OF assms(1)] by (cases "u = t") (simp_all add: completed_def)
qed

lemma fold_promote:
  assumes "sched_inv s" "distinct ts" "\<And>t. t \<in> set ts \<Longrightarrow> pending s t"
  shows "sched_inv (fold (promote_one now) ts s) \<and>
    order_of (fold (promote_one now) ts s) = order_of s \<and>
    completed (fold (promote_one now) ts s) = completed s \<and>
    running_for (fold (promote_one now) ts s) = running_for s \<and>
    get_task (fold (promote_one now) ts s) = promoted now (set ts) s"
  using assms
proof (induction ts arbitrary: s)
  case Nil
  then show ?case by (simp add: promoted_def fun_eq_iff)
next
  case (Cons t ts)
  let ?s1 = "promote_one now t s"
  have ix: "index_wf s" by (rule sched_invD(1) [OF Cons.prems(1)])
  have s1: "sched_inv ?s1 \<and> order_of ?s1 = order_of s \<and> completed ?s1 = completed s \<and>
      running_for ?s1 = running_for s \<and> get_task ?s1 = promoted now {t} s"
  proof (rule promote_one_cases [OF ix Cons.prems(3) [of t], of now])
    show "t \<in> set (t # ts)" by simp
  next
    fix r
    assume "get_task s t = Some r" "?s1 = s" "\<not> all_deps_completed s (ts_dependencies (tr_spec r))"
    then show ?thesis using Cons.prems(1) by (simp add: promoted_def fun_eq_iff)
  next
    fix r
    assume r: "get_task s t = Some r" "tr_state r = Pending"
        "all_deps_completed s (ts_dependencies (tr_spec r))"
      and m: "moves t r (touched now Queued r) s ?s1"
    have "completed ?s1 = completed s" by (rule completed_moves [OF m]) (simp add: r)
    moreover have "running_for ?s1 = running_for s"
      using movesD(7) [OF m] r by (simp add: count_follows_def Let_def)
    moreover have "get_task ?s1 = promoted now {t} s"
      using movesD(3) [OF m] r by (auto simp: promoted_def fun_eq_iff)
    ultimately show ?thesis using sched_inv_moves [OF Cons.prems(1) m] movesD(4) [OF m] by simp
  qed
  have rest: "pending ?s1 u" if "u \<in> set ts" for u
  proof -
    from that Cons.prems(2) have "u \<noteq> t" by auto
    with s1 have "get_task ?s1 u = get_task s u" by (simp add: promoted_def)
    with Cons.prems(3) [of u] that show ?thesis by (simp add: pending_def)
  qed
  have deps: "all_deps_completed ?s1 ds = all_deps_completed s ds" for ds
    using s1 by (simp add: all_deps_completed_iff)
  have "promoted now (set ts) ?s1 = promoted now (set (t # ts)) s"
    using s1 Cons.prems(2) by (auto simp: promoted_def fun_eq_iff deps)
  with Cons.IH [of ?s1] s1 rest Cons.prems(2) show ?case by simp
qed

lemma promote_pending_spec:
  fixes s :: "'j task_scheduler"
  assumes "sched_inv s"
  shows "sched_inv (promote_pending_tasks now s)"
    "order_of (promote_pending_tasks now s) = order_of s"
    "completed (promote_pending_tasks now s) = completed s"
    "running_for (promote_pending_tasks now s) = running_for s"
    "get_task (promote_pending_tasks now s) = promoted now {t. pending s t} s"
proof -
  define ts where "ts = filter (pending s) (order_of s)"
  note ix = sched_invD(1) [OF assms]
  have fold: "promote_pending_tasks now s = fold (promote_one now) ts s"
    unfolding promote_pending_tasks_def ids_in_order [OF ix] ts_def pending_def [abs_def] ..
  have "distinct ts" using ix by (simp add: ts_def index_wf_def)
  moreover have "pending s t" if "t \<in> set ts" for t using that by (simp add: ts_def)
  ultimately have *: "sched_inv (fold (promote_one now) ts s) \<and>
    order_of (fold (promote_one now) ts s) = order_of s \<and>
    completed (fold (promote_one now) ts s) = completed s \<and>
    running_for (fold (promote_one now) ts s) = running_for s \<and>
    get_task (fold (promote_one now) ts s) = promoted now (set ts) s"
    by (intro fold_promote [OF assms]) auto
  have "set ts = {t. pending s t}"
    using ix by (auto simp: ts_def index_wf_def pending_def split: option.splits)
  with * show "sched_inv (promote_pending_tasks now s)"
    "order_of (promote_pending_tasks now s) = order_of s"
    "completed (promote_pending_tasks now s) = completed s"
    "running_for (promote_pending_tasks now s) = running_for s"
    "get_task (promote_pending_tasks now s) = promoted now {t. pending s t} s"
    unfolding fold by simp_all
qed

text \<open>A property that moves keep survives a promotion.\<close>

lemma promote_pending_keeps:
  assumes P: "P s" and ix: "\<And>s. P s \<Longrightarrow> index_wf s"
    and m: "\<And>s t r r' s'. P s \<Longrightarrow> moves t r r' s s' \<Longrightarrow> P s'"
  shows "P (promote_pending_tasks now s)"
proof -
  have one: "P (promote_one now t s)" if "P s" for t s
  proof (rule refused_cases [of s t Queued])
    fix err assume "\<And>now. transition now t Queued s = (Inl err, s)"
    then show ?thesis using that by (simp add: promote_one_def Let_def)
  next
    fix r assume "get_task s t = Some r" "can_transition_to (tr_state r) Queued"
    then have "P (after (transition now t Queued s))"
      using resume_moves(2) [OF ix [OF that], of t r now] m [OF that] unfolding resume_def by blast
    then show ?thesis using that by (simp add: promote_one_def Let_def)
  qed
  have "P (fold (promote_one now) ts s)" for ts
    using P by (induction ts arbitrary: s) (simp_all add: one)
  then show ?thesis by (simp add: promote_pending_tasks_def)
qed

end
