(* ===== verification/Scheduler_Calls.thy ===== *)
theory Scheduler_Calls
  imports Scheduler_Ops
begin

text \<open>
  The operations that take more than one abstract step (\<open>complete\<close>, \<open>submit\<close>,
  \<open>next_ready\<close>), and what a call of any operation does to the invariants and to the log.
\<close>

section \<open>Completion\<close>

definition after_completion :: "env \<Rightarrow> task_id \<Rightarrow> 'j task_record \<Rightarrow> 'j task_scheduler \<Rightarrow> 'j task_scheduler" where
  "after_completion e t r s =
     log_sched e TaskCompleted t [(''task_id'', PId t)]
       (decrement_running (ts_dimension_id (tr_spec r))
         (put_task t (touched (env_now e) Completed r) s))"

lemma complete_moves:
  assumes "get_task s t = Some r" "tr_state r = Running"
  shows "complete e t s = (Inr (), promote_pending_tasks (env_now e) (after_completion e t r s))"
    "moves t r (touched (env_now e) Completed r) s (after_completion e t r s)"
  using assms
  by (simp_all add: complete_def transition_ok dim_of_task_def after_completion_def moves_def
      queue_follows_def count_follows_def Let_def)

section \<open>Submission\<close>

definition queued_count :: "'j task_scheduler \<Rightarrow> dimension_id \<Rightarrow> u32" where
  "queued_count s d =
     of_nat (List.length (filter (\<lambda>r. ts_dimension_id (tr_spec r) = d \<and> tr_state r = Queued)
       (iter_in_order (sc_index s))))"

text \<open>The checks of \<open>submit\<close>, in their order.\<close>

definition submit_refused :: "'j task_scheduler \<Rightarrow> task_id \<Rightarrow> 'j task_spec \<Rightarrow> scheduler_error option" where
  "submit_refused s t spec =
     (if get_task s t \<noteq> None then Some (DuplicateTaskId t)
      else if dq_max_queued (quota_for s (ts_dimension_id spec)) \<le> queued_count s (ts_dimension_id spec)
      then Some (QuotaExceeded (ts_dimension_id spec) (running_for s (ts_dimension_id spec))
             (dq_max_queued (quota_for s (ts_dimension_id spec))))
      else map_option PrerequisiteNotFound (first_missing (sc_index s) (ts_dependencies spec)))"

lemma first_missing_None:
  "first_missing (sc_index s) ts = None \<longleftrightarrow> (\<forall>t \<in> set ts. get_task s t \<noteq> None)"
  by (induction ts) (auto simp: index_contains_def get_task_def)

definition inserted :: "env \<Rightarrow> task_id \<Rightarrow> 'j task_spec \<Rightarrow> 'j task_scheduler \<Rightarrow> 'j task_scheduler" where
  "inserted e t spec s =
     log_sched e TaskSubmitted t [(''task_id'', PId t)]
       (s\<lparr>sc_index := after (index_insert (env_now e) t spec (sc_index s))\<rparr>)"

lemma inserted_inserts:
  assumes "get_task s t = None" "\<And>u. u \<in> set (ts_dependencies spec) \<Longrightarrow> get_task s u \<noteq> None"
  shows "inserts t (new_record (env_now e) t spec (seq_of s + 1)) s (inserted e t spec s)"
  using assms
  by (auto simp: inserts_def inserted_def index_insert_def new_record_def log_sched_def get_task_def
      order_of_def seq_of_def running_for_def fun_eq_iff Let_def)

lemma submit_cases:
  obtains (refused) err where "submit_refused s t spec = Some err" "submit e t spec s = (Inl err, s)"
    | (waits) "submit_refused s t spec = None"
      "inserts t (new_record (env_now e) t spec (seq_of s + 1)) s (inserted e t spec s)"
      "\<not> all_deps_completed s (ts_dependencies spec)"
      "submit e t spec s = (Inr (), inserted e t spec s)"
    | (ready) "submit_refused s t spec = None"
      "inserts t (new_record (env_now e) t spec (seq_of s + 1)) s (inserted e t spec s)"
      "all_deps_completed s (ts_dependencies spec)"
      "submit e t spec s = transition (env_now e) t Queued (inserted e t spec s)"
proof (cases "submit_refused s t spec")
  case (Some err)
  then have "submit e t spec s = (Inl err, s)"
    by (auto simp: submit_refused_def submit_def queued_count_def index_contains_def get_task_def
        Let_def split: if_splits)
  with Some refused show thesis by blast
next
  case None
  then have new: "get_task s t = None" and deps: "first_missing (sc_index s) (ts_dependencies spec) = None"
    and quota: "\<not> dq_max_queued (quota_for s (ts_dimension_id spec)) \<le> queued_count s (ts_dimension_id spec)"
    by (auto simp: submit_refused_def split: if_splits)
  have ins: "inserts t (new_record (env_now e) t spec (seq_of s + 1)) s (inserted e t spec s)"
    using new deps unfolding first_missing_None by (intro inserted_inserts) auto
  have "submit e t spec s =
      (if all_deps_completed s (ts_dependencies spec)
       then transition (env_now e) t Queued (inserted e t spec s)
       else (Inr (), inserted e t spec s))"
    using new deps quota
    by (simp add: submit_def inserted_def queued_count_def index_contains_def get_task_def
        index_insert_def Let_def)
  with ins None waits ready show thesis by (cases "all_deps_completed s (ts_dependencies spec)") auto
qed

lemma submit_ready_moves:
  assumes "index_wf s" "inserts t r s s1"
  shows "transition now t Queued s1 = (Inr (), after (transition now t Queued s1))"
    "moves t r (touched now Queued r) s1 (after (transition now t Queued s1))"
proof -
  have r: "get_task s1 t = Some r" "tr_state r = Pending" using assms(2) by (auto simp: inserts_def)
  have ix: "index_wf s1" by (rule index_wf_inserts [OF assms])
  show "moves t r (touched now Queued r) s1 (after (transition now t Queued s1))"
    using resume_moves(2) [OF ix r(1), of now] r(2) by (simp add: resume_def)
  show "transition now t Queued s1 = (Inr (), after (transition now t Queued s1))"
    using resume_moves(1) [OF ix r(1), of now] r(2) by (simp add: resume_def prod_eq_iff)
qed

section \<open>Dispatch\<close>

definition started_record :: "u64 \<Rightarrow> task_lease \<Rightarrow> 'j task_record \<Rightarrow> 'j task_record" where
  "started_record now lease r =
     (touched now Running r)\<lparr>tr_lease := Some lease, tr_attempt := tr_attempt r + 1\<rparr>"

lemma started_record_simps [simp]:
  "tr_state (started_record now lease r) = Running"
  "tr_spec (started_record now lease r) = tr_spec r"
  "tr_task_id (started_record now lease r) = tr_task_id r"
  "tr_lease (started_record now lease r) = Some lease"
  "tr_attempt (started_record now lease r) = tr_attempt r + 1"
  "same_task r (started_record now lease r)"
  by (simp_all add: started_record_def touched_def same_task_def)

lemma sort_ready_queue_id:
  assumes "queue_wf s"
  shows "sort_ready_queue s = s"
proof -
  have "sort_key ready_key (sc_ready_queue s) = sc_ready_queue s"
    using assms by (intro sort_key_id_if_sorted) (simp add: queue_wf_def)
  then show ?thesis by (simp add: sort_ready_queue_def)
qed

lemma next_ready_cases:
  assumes ix: "index_wf s" and q: "queue_wf s"
  obtains (idle) "\<And>x. x \<in> set (sc_ready_queue s) \<Longrightarrow> \<not> dispatchable s x"
      "next_ready e worker s = (None, s)"
    | (start) t r xs ys lease where
      "lease = new_lease (env_now e) t worker (sc_lease_duration_ms s)"
      "sc_ready_queue s = xs @ entry_of r # ys" "\<And>x. x \<in> set xs \<Longrightarrow> \<not> dispatchable s x"
      "dispatchable s (entry_of r)" "get_task s t = Some r" "tr_state r = Queued"
      "fst (next_ready e worker s) = Some (started_record (env_now e) lease r, lease)"
      "moves t r (started_record (env_now e) lease r) s (snd (next_ready e worker s))"
      "sc_action_log (snd (next_ready e worker s)) =
         log_system e TaskStarted (sc_dimension_id s) t
           [(''task_id'', PId t), (''worker'', PText worker),
            (''attempt'', PNum (ucast (tr_attempt r + 1)))] (sc_action_log s)"
proof (cases "position (dispatchable s) (sc_ready_queue s)")
  case None
  then have "next_ready e worker s = (None, s)"
    by (simp add: next_ready_def sort_ready_queue_id [OF q] Let_def)
  with None idle show thesis by (simp add: position_None)
next
  case (Some pos)
  from position_Some [OF this] obtain xs x ys where
    split: "sc_ready_queue s = xs @ x # ys" and pos: "List.length xs = pos"
    and disp: "dispatchable s x" and skip: "\<forall>y \<in> set xs. \<not> dispatchable s y"
    by blast
  have "x \<in> set (sc_ready_queue s)" by (simp add: split)
  with q obtain t r where r: "get_task s t = Some r" "tr_state r = Queued" "x = entry_of r"
    unfolding queue_wf_def by blast
  define lease where "lease = new_lease (env_now e) t worker (sc_lease_duration_ms s)"
  have id: "tr_task_id r = t" by (rule index_wf_id [OF ix r(1)])
  have filter: "filter (\<lambda>y. y \<noteq> entry_of r) (xs @ x # ys) = xs @ ys"
  proof -
    have d: "distinct (xs @ x # ys)" using q split by (simp add: queue_wf_def)
    have "filter (\<lambda>y. y \<noteq> entry_of r) xs = xs" using d r(3) by (intro filter_True) auto
    moreover have "filter (\<lambda>y. y \<noteq> entry_of r) ys = ys" using d r(3) by (intro filter_True) auto
    ultimately show "filter (\<lambda>y. y \<noteq> entry_of r) (xs @ x # ys) = xs @ ys" using r(3) by simp
  qed
  let ?s1 = "s\<lparr>sc_ready_queue := xs @ ys\<rparr>"
  have get1: "get_task ?s1 t = Some r" by (simp add: r(1))
  have nth: "snd (snd (sc_ready_queue s ! pos)) = t"
    using split pos r(3) id by (auto simp: nth_append entry_of_def)
  have rest: "take pos (sc_ready_queue s) @ drop (Suc pos) (sc_ready_queue s) = xs @ ys"
    using split pos by auto
  let ?s2 = "increment_running (ts_dimension_id (tr_spec r))
    (put_task t (touched (env_now e) Running r) ?s1)"
  have lease2: "new_lease (env_now e) t worker (sc_lease_duration_ms ?s2) = lease"
    by (simp add: lease_def increment_running_def put_task_def)
  have worker: "tl_worker_id lease = worker" by (simp add: lease_def new_lease_def)
  have tr: "transition (env_now e) t Running ?s1 = (Inr (), ?s2)"
    by (simp add: transition_ok [OF get1] r(2))
  have get2: "get_task ?s2 t = Some (touched (env_now e) Running r)" by simp
  have nr: "next_ready e worker s =
      (Some (started_record (env_now e) lease r, lease),
       log_sched e TaskStarted t
         [(''task_id'', PId t), (''worker'', PText worker),
          (''attempt'', PNum (ucast (tr_attempt r + 1)))]
         (put_task t (started_record (env_now e) lease r) ?s2))"
    by (simp add: next_ready_def Let_def sort_ready_queue_id [OF q] Some nth rest tr lease2 get2
        worker started_record_def)
  have "moves t r (started_record (env_now e) lease r) s (snd (next_ready e worker s))"
    using r split filter
    by (simp add: nr moves_def queue_follows_def count_follows_def Let_def)
  moreover have "sc_action_log (snd (next_ready e worker s)) =
         log_system e TaskStarted (sc_dimension_id s) t
           [(''task_id'', PId t), (''worker'', PText worker),
            (''attempt'', PNum (ucast (tr_attempt r + 1)))] (sc_action_log s)"
    by (simp add: nr log_sched_def increment_running_def put_task_def)
  ultimately show thesis
    using start [OF lease_def _ _ _ r(1,2)] split r(3) skip disp by (simp add: nr)
qed

section \<open>Calls keep the invariants\<close>

lemma new_scheduler_views [simp]:
  "get_task (new_scheduler d c pp lease_ms l) = Map.empty"
  "order_of (new_scheduler d c pp lease_ms l) = []" "seq_of (new_scheduler d c pp lease_ms l) = 0"
  "sc_ready_queue (new_scheduler d c pp lease_ms l) = []"
  "running_for (new_scheduler d c pp lease_ms l) = (\<lambda>_. 0)"
  by (simp_all add: new_scheduler_def new_index_def get_task_def [abs_def] order_of_def seq_of_def
      running_for_def fun_eq_iff)

lemma sched_inv_new: "sched_inv (new_scheduler d c pp lease_ms l)"
  by (simp add: sched_inv_def index_wf_def queue_wf_def count_wf_def count_ok_def deps_wf_def
      seq_wf_def running_list_def)

lemma same_view_refl [simp]: "same_view s s"
  by (simp add: same_view_def)

lemma same_view_settings [simp]:
  "same_view s (set_quota d q s)" "same_view s (register_template tmpl s)"
  by (simp_all add: same_view_def set_quota_def register_template_def get_task_def order_of_def
      seq_of_def running_for_def fun_eq_iff)

text \<open>The five shapes a call can have.\<close>

definition allowed_move :: "'j sched_op \<Rightarrow> 'j task_record \<Rightarrow> 'j task_record \<Rightarrow> bool" where
  "allowed_move op r r' =
     (case op of
        NextReady w \<Rightarrow> tr_state r = Queued \<and> tr_state r' = Running
      | RenewLease now t \<Rightarrow> tr_state r' = tr_state r
      | Fail t reason \<Rightarrow> tr_state r = Running \<and> (tr_state r' = Queued \<or> tr_state r' = Failed)
      | Cancel t \<Rightarrow> can_transition_to (tr_state r) Cancelled \<and> tr_state r' = Cancelled
      | Pause t \<Rightarrow> tr_state r = Running \<and> tr_state r' = Paused
      | Resume t \<Rightarrow> can_transition_to (tr_state r) Queued \<and> tr_state r' = Queued
      | _ \<Rightarrow> False)"

lemma renew_lease_cases:
  obtains (refused) err where "renew_lease now now' t s = (Inl err, s)"
    | (renewed) r lease where "get_task s t = Some r" "tr_lease r = Some lease"
      "lease_is_valid lease now"
      "renew_lease now now' t s = (Inr (lease_renew now' (sc_lease_duration_ms s) lease),
         put_task t (r\<lparr>tr_lease := Some (lease_renew now' (sc_lease_duration_ms s) lease)\<rparr>) s)"
  by (cases "renew_lease now now' t s")
    (auto simp: renew_lease_def Let_def split: option.splits if_splits)

lemma renew_moves:
  "get_task s t = Some r \<Longrightarrow> moves t r (r\<lparr>tr_lease := l\<rparr>) s (put_task t (r\<lparr>tr_lease := l\<rparr>) s)"
  by (simp add: moves_def same_task_def queue_follows_def count_follows_def Let_def)

lemma sched_step_cases:
  assumes ix: "index_wf s" and q: "queue_wf s"
  obtains (stay) "same_view s (sched_step (e, op) s)"
    | (move) t r r' where "moves t r r' s (sched_step (e, op) s)" "allowed_move op r r'"
      "\<And>u. op = Resume u \<Longrightarrow> u = t"
    | (complete) t r s1 where "op = Complete t"
      "moves t r (touched (env_now e) Completed r) s s1" "tr_state r = Running"
      "sched_step (e, op) s = promote_pending_tasks (env_now e) s1"
    | (wait) t r where "inserts t r s (sched_step (e, op) s)"
      "\<not> all_deps_completed s (ts_dependencies (tr_spec r))"
    | (ready) t r s1 where "inserts t r s s1" "all_deps_completed s (ts_dependencies (tr_spec r))"
      "moves t r (touched (env_now e) Queued r) s1 (sched_step (e, op) s)"
proof -
  have submit_thesis: thesis if step: "sched_step (e, op) s = after (submit e t spec s)" for t spec
  proof (rule submit_cases [of s t spec e])
    fix err assume "submit e t spec s = (Inl err, s)"
    then show thesis using stay step by simp
  next
    assume "inserts t (new_record (env_now e) t spec (seq_of s + 1)) s (inserted e t spec s)"
      "\<not> all_deps_completed s (ts_dependencies spec)"
      "submit e t spec s = (Inr (), inserted e t spec s)"
    then show thesis using wait step by (simp add: new_record_def)
  next
    assume ins: "inserts t (new_record (env_now e) t spec (seq_of s + 1)) s (inserted e t spec s)"
      and "all_deps_completed s (ts_dependencies spec)"
        "submit e t spec s = transition (env_now e) t Queued (inserted e t spec s)"
    then show thesis
      using ready [OF ins] submit_ready_moves(2) [OF ix ins, of "env_now e"] step
      by (simp add: new_record_def)
  qed
  show thesis
  proof (cases op)
    case (SetQuota d qu)
    then show thesis using stay by (simp add: sched_step_def)
  next
    case (RegisterTemplate tmpl)
    then show thesis using stay by (simp add: sched_step_def)
  next
    case (Submit t spec)
    then show thesis using submit_thesis by (simp add: sched_step_def Let_def)
  next
    case (SubmitFromTemplate u t ov)
    show thesis
    proof (cases "sc_templates s u")
      case None
      then show thesis using stay SubmitFromTemplate
        by (simp add: sched_step_def submit_from_template_def Let_def)
    next
      case (Some tmpl)
      then show thesis using submit_thesis SubmitFromTemplate
        by (simp add: sched_step_def submit_from_template_def Let_def)
    qed
  next
    case (NextReady w)
    show thesis
    proof (rule next_ready_cases [OF ix q, of e w])
      assume "next_ready e w s = (None, s)"
      then show thesis using stay NextReady by (simp add: sched_step_def)
    next
      fix t r lease
      assume "moves t r (started_record (env_now e) lease r) s (snd (next_ready e w s))"
        "tr_state r = Queued"
      then show thesis using move [of t r] NextReady by (simp add: sched_step_def allowed_move_def)
    qed
  next
    case (RenewLease now' t)
    show thesis
    proof (rule renew_lease_cases [of "env_now e" now' t s])
      fix err assume "renew_lease (env_now e) now' t s = (Inl err, s)"
      then show thesis using stay RenewLease by (simp add: sched_step_def Let_def)
    next
      fix r lease
      assume "get_task s t = Some r"
        "renew_lease (env_now e) now' t s = (Inr (lease_renew now' (sc_lease_duration_ms s) lease),
           put_task t (r\<lparr>tr_lease := Some (lease_renew now' (sc_lease_duration_ms s) lease)\<rparr>) s)"
      then show thesis
        using move [of t r "r\<lparr>tr_lease := Some (lease_renew now' (sc_lease_duration_ms s) lease)\<rparr>"]
          renew_moves [of s t r] RenewLease
        by (simp add: sched_step_def allowed_move_def Let_def)
    qed
  next
    case (Complete t)
    show thesis
    proof (rule refused_cases [of s t Completed])
      fix err assume "\<And>now. transition now t Completed s = (Inl err, s)"
      then show thesis using stay Complete by (simp add: sched_step_def complete_def Let_def)
    next
      fix r assume r: "get_task s t = Some r" "can_transition_to (tr_state r) Completed"
      then show thesis using complete [OF Complete] complete_moves [of s t r e] Complete
        by (simp add: sched_step_def Let_def)
    qed
  next
    case (Fail t reason)
    show thesis
    proof (rule refused_cases [of s t Failed])
      fix err assume "\<And>now. transition now t Failed s = (Inl err, s)"
      then show thesis using stay Fail
        by (simp add: sched_step_def fail_def Let_def split: option.split)
    next
      fix r assume r: "get_task s t = Some r" "can_transition_to (tr_state r) Failed"
      then show thesis using move [of t r] fail_moves [OF ix r(1), of e reason] Fail
        by (simp add: sched_step_def allowed_move_def Let_def)
    qed
  next
    case (Cancel t)
    show thesis
    proof (rule refused_cases [of s t Cancelled])
      fix err assume "\<And>now. transition now t Cancelled s = (Inl err, s)"
      then show thesis using stay Cancel by (simp add: sched_step_def cancel_def Let_def)
    next
      fix r assume r: "get_task s t = Some r" "can_transition_to (tr_state r) Cancelled"
      then show thesis using move [of t r] cancel_moves [OF ix q r(1), of e] Cancel
        by (simp add: sched_step_def allowed_move_def Let_def)
    qed
  next
    case (Pause t)
    show thesis
    proof (rule refused_cases [of s t Paused])
      fix err assume "\<And>now. transition now t Paused s = (Inl err, s)"
      then show thesis using stay Pause by (simp add: sched_step_def pause_def Let_def)
    next
      fix r assume r: "get_task s t = Some r" "can_transition_to (tr_state r) Paused"
      then show thesis using move [of t r] pause_moves [of s t r "env_now e"] Pause
        by (simp add: sched_step_def allowed_move_def Let_def)
    qed
  next
    case (Resume t)
    show thesis
    proof (rule refused_cases [of s t Queued])
      fix err assume "\<And>now. transition now t Queued s = (Inl err, s)"
      then show thesis using stay Resume by (simp add: sched_step_def resume_def Let_def)
    next
      fix r assume r: "get_task s t = Some r" "can_transition_to (tr_state r) Queued"
      have step: "sched_step (e, op) s = after (resume (env_now e) t s)"
        by (simp add: Resume sched_step_def Let_def)
      show thesis
      proof (rule move [of t r "touched (env_now e) Queued r"])
        show "moves t r (touched (env_now e) Queued r) s (sched_step (e, op) s)"
          unfolding step by (rule resume_moves [OF ix r])
        show "allowed_move op r (touched (env_now e) Queued r)"
          using r(2) by (simp add: Resume allowed_move_def)
        show "u = t" if "op = Resume u" for u using that Resume by simp
      qed
    qed
  qed
qed

lemma sched_inv_step:
  assumes "sched_inv s"
  shows "sched_inv (sched_step (e, op) s)"
proof (rule sched_step_cases [OF sched_invD(1,2) [OF assms], of e op])
  assume "same_view s (sched_step (e, op) s)"
  then show ?thesis using assms by (simp add: sched_inv_same_view)
next
  fix t r r' assume "moves t r r' s (sched_step (e, op) s)"
  then show ?thesis by (rule sched_inv_moves [OF assms])
next
  fix t r s1
  assume "moves t r (touched (env_now e) Completed r) s s1"
    and step: "sched_step (e, op) s = promote_pending_tasks (env_now e) s1"
  then have "sched_inv s1" by (intro sched_inv_moves [OF assms])
  then show ?thesis unfolding step by (rule promote_pending_spec(1))
next
  fix t r assume "inserts t r s (sched_step (e, op) s)"
  then show ?thesis by (rule sched_inv_inserts [OF assms])
next
  fix t r s1
  assume "inserts t r s s1" "moves t r (touched (env_now e) Queued r) s1 (sched_step (e, op) s)"
  then show ?thesis by (intro sched_inv_moves [OF sched_inv_inserts [OF assms]])
qed

lemma sched_core_step:
  assumes core: "sched_core s"
  shows "sched_core (sched_step (e, op) s)"
proof (rule sched_step_cases [OF sched_coreD(1,2) [OF core], of e op])
  assume "same_view s (sched_step (e, op) s)"
  then show ?thesis using core by (simp add: sched_core_same_view)
next
  fix t r r' assume "moves t r r' s (sched_step (e, op) s)"
  then show ?thesis by (rule sched_core_moves [OF core])
next
  fix t r s1
  assume "moves t r (touched (env_now e) Completed r) s s1"
    and step: "sched_step (e, op) s = promote_pending_tasks (env_now e) s1"
  then have "sched_core s1" by (intro sched_core_moves [OF core])
  then show ?thesis unfolding step by (rule promote_pending_keeps) (blast intro: sched_coreD sched_core_moves)+
next
  fix t r assume "inserts t r s (sched_step (e, op) s)"
  then show ?thesis by (rule sched_core_inserts [OF core])
next
  fix t r s1
  assume "inserts t r s s1" "moves t r (touched (env_now e) Queued r) s1 (sched_step (e, op) s)"
  then show ?thesis by (intro sched_core_moves [OF sched_core_inserts [OF core]])
qed

end
