(* ===== verification/Scheduler_Props.thy ===== *)
theory Scheduler_Props
  imports Scheduler_Calls
begin

text \<open>
  The contracts of the scheduler (invariants, dependency gate, final states, audit log) as
  interpretations of the shared locales on \<open>sched_step\<close>, and the properties that rest on them.
\<close>

section \<open>The dependency gate\<close>

lemma gate_wfD:
  "gate_wf s \<Longrightarrow> get_task s t = Some r \<Longrightarrow> tr_state r \<noteq> Cancelled \<Longrightarrow>
     (tr_state r = Pending) = (\<not> all_deps_completed s (ts_dependencies (tr_spec r)))"
  by (simp add: gate_wf_def)

lemma gate_wf_moves:
  assumes gate: "gate_wf s" and m: "moves t r r' s s'"
    and comp: "(tr_state r' = Completed) = (tr_state r = Completed)"
    and ok: "tr_state r' = Cancelled \<or>
      tr_state r \<noteq> Cancelled \<and> (tr_state r' = Pending) = (tr_state r = Pending) \<or>
      tr_state r' \<noteq> Pending \<and> all_deps_completed s (ts_dependencies (tr_spec r))"
  shows "gate_wf s'"
  unfolding gate_wf_def
proof (intro allI impI)
  fix u q
  assume q: "get_task s' u = Some q" "tr_state q \<noteq> Cancelled"
  have deps: "all_deps_completed s' ds = all_deps_completed s ds" for ds
    by (simp add: all_deps_completed_iff completed_moves [OF m comp])
  show "(tr_state q = Pending) = (\<not> all_deps_completed s' (ts_dependencies (tr_spec q)))"
  proof (cases "u = t")
    case True
    with q(1) movesD(2,3) [OF m] have "q = r'" "tr_spec q = tr_spec r" by (auto simp: same_task_def)
    with ok q(2) gate movesD(1) [OF m] show ?thesis by (auto simp: deps gate_wf_def)
  next
    case False
    with q movesD(3) [OF m] gate show ?thesis by (simp add: deps gate_wf_def)
  qed
qed

lemma completed_inserts: "inserts t r s s' \<Longrightarrow> completed s' = completed s"
  by (auto simp: inserts_def completed_def fun_eq_iff)

lemma gate_wf_wait:
  assumes gate: "gate_wf s" and i: "inserts t r s s'"
    and "\<not> all_deps_completed s (ts_dependencies (tr_spec r))"
  shows "gate_wf s'"
  unfolding gate_wf_def
proof (intro allI impI)
  fix u q
  assume q: "get_task s' u = Some q" "tr_state q \<noteq> Cancelled"
  show "(tr_state q = Pending) = (\<not> all_deps_completed s' (ts_dependencies (tr_spec q)))"
    using q gate assms(3) i completed_inserts [OF i]
    by (cases "u = t") (auto simp: inserts_def gate_wf_def all_deps_completed_iff)
qed

lemma gate_wf_ready:
  assumes gate: "gate_wf s" and i: "inserts t r s s1"
    and deps: "all_deps_completed s (ts_dependencies (tr_spec r))"
    and m: "moves t r (touched now Queued r) s1 s'"
  shows "gate_wf s'"
  unfolding gate_wf_def
proof (intro allI impI)
  fix u q
  assume q: "get_task s' u = Some q" "tr_state q \<noteq> Cancelled"
  have "completed s' = completed s1" using i by (intro completed_moves [OF m]) (simp add: inserts_def)
  then have c: "completed s' = completed s" by (simp add: completed_inserts [OF i])
  show "(tr_state q = Pending) = (\<not> all_deps_completed s' (ts_dependencies (tr_spec q)))"
    using q gate deps i movesD(3) [OF m] c
    by (cases "u = t") (auto simp: inserts_def gate_wf_def all_deps_completed_iff)
qed

lemma gate_wf_complete:
  assumes gate: "gate_wf s" and m: "moves t r (touched now Completed r) s s1"
    and run: "tr_state r = Running" and inv: "sched_inv s1"
  shows "gate_wf (promote_pending_tasks now' s1)"
  unfolding gate_wf_def
proof (intro allI impI)
  fix u q
  assume q: "get_task (promote_pending_tasks now' s1) u = Some q" "tr_state q \<noteq> Cancelled"
  note spec = promote_pending_spec [OF inv, of now']
  have deps': "all_deps_completed (promote_pending_tasks now' s1) ds = all_deps_completed s1 ds" for ds
    by (simp add: all_deps_completed_iff spec(3))
  have mono: "all_deps_completed s1 ds" if "all_deps_completed s ds" for ds
    using that movesD(1,3) [OF m] by (auto simp: all_deps_completed_iff completed_def)
  show "(tr_state q = Pending) =
      (\<not> all_deps_completed (promote_pending_tasks now' s1) (ts_dependencies (tr_spec q)))"
  proof (cases "pending s1 u")
    case True
    with q(1) show ?thesis
      by (auto simp: spec(5) promoted_def deps' pending_def split: option.splits if_splits)
  next
    case False
    with q(1) have q1: "get_task s1 u = Some q" by (simp add: spec(5) promoted_def)
    with False have "tr_state q \<noteq> Pending" by (simp add: pending_def)
    moreover have "all_deps_completed s (ts_dependencies (tr_spec q))"
    proof (cases "u = t")
      case True
      with q1 movesD(3) [OF m] have "tr_spec q = tr_spec r" by auto
      with gate_wfD [OF gate movesD(1) [OF m]] run show ?thesis by simp
    next
      case False
      with q1 movesD(3) [OF m] have "get_task s u = Some q" by simp
      with gate_wfD [OF gate this q(2)] \<open>tr_state q \<noteq> Pending\<close> show ?thesis by simp
    qed
    ultimately show ?thesis using mono by (simp add: deps')
  qed
qed

text \<open>
  The guard of the gate: \<open>resume\<close> is not called on a task that still waits for its dependencies.
\<close>

definition gate_ok :: "env \<times> 'j sched_op \<Rightarrow> 'j task_scheduler \<Rightarrow> bool" where
  "gate_ok k s = (case snd k of Resume t \<Rightarrow> \<not> pending s t | _ \<Rightarrow> True)"

lemma gate_wf_step:
  assumes inv: "sched_inv s" and gate: "gate_wf s" and ok: "gate_ok (e, op) s"
  shows "gate_wf (sched_step (e, op) s)"
proof (rule sched_step_cases [OF sched_invD(1,2) [OF inv], of e op])
  assume "same_view s (sched_step (e, op) s)"
  then show ?thesis
    using gate by (simp only: same_view_def gate_wf_def all_deps_completed_def)
next
  fix t r r'
  assume m: "moves t r r' s (sched_step (e, op) s)" and a: "allowed_move op r r'"
    and res: "\<And>u. op = Resume u \<Longrightarrow> u = t"
  have pend: "tr_state r \<noteq> Pending" if "op = Resume u" for u
    using that res [OF that] ok movesD(1) [OF m] by (simp add: gate_ok_def pending_def)
  show ?thesis
  proof (rule gate_wf_moves [OF gate m])
    show "(tr_state r' = Completed) = (tr_state r = Completed)"
      using a by (cases op) (auto simp: allowed_move_def)
    show "tr_state r' = Cancelled \<or>
      tr_state r \<noteq> Cancelled \<and> (tr_state r' = Pending) = (tr_state r = Pending) \<or>
      tr_state r' \<noteq> Pending \<and> all_deps_completed s (ts_dependencies (tr_spec r))"
      using a pend by (cases op) (auto simp: allowed_move_def)
  qed
next
  fix t r s1
  assume m: "moves t r (touched (env_now e) Completed r) s s1" and "tr_state r = Running"
    and step: "sched_step (e, op) s = promote_pending_tasks (env_now e) s1"
  then show ?thesis
    unfolding step by (intro gate_wf_complete [OF gate m _ sched_inv_moves [OF inv m]])
next
  fix t r
  assume "inserts t r s (sched_step (e, op) s)"
    "\<not> all_deps_completed s (ts_dependencies (tr_spec r))"
  then show ?thesis by (rule gate_wf_wait [OF gate])
next
  fix t r s1
  assume "inserts t r s s1" "all_deps_completed s (ts_dependencies (tr_spec r))"
    "moves t r (touched (env_now e) Queued r) s1 (sched_step (e, op) s)"
  then show ?thesis by (rule gate_wf_ready [OF gate])
qed

section \<open>What a call does to a task\<close>

text \<open>A step of the documented graph, or the retry edge \<open>Running\<close>, \<open>Failed\<close>, \<open>Queued\<close> taken at once.\<close>

definition state_step :: "task_state \<Rightarrow> task_state \<Rightarrow> bool" where
  "state_step st st' =
     (st' = st \<or> can_transition_to st st' \<or>
      can_transition_to st Failed \<and> can_transition_to Failed st' \<and> st' = Queued)"

definition keeps_task :: "'j task_scheduler \<Rightarrow> 'j task_scheduler \<Rightarrow> bool" where
  "keeps_task s s' =
     (\<forall>t r. get_task s t = Some r \<longrightarrow>
        (\<exists>r'. get_task s' t = Some r' \<and> same_task r r' \<and> state_step (tr_state r) (tr_state r')))"

lemma same_task_refl [simp]: "same_task r r"
  by (simp add: same_task_def)

lemma keeps_task_same: "get_task s' = get_task s \<Longrightarrow> keeps_task s s'"
  by (simp add: keeps_task_def state_step_def)

lemma keeps_task_moves:
  assumes "moves t r r' s s'" "state_step (tr_state r) (tr_state r')"
  shows "keeps_task s s'"
  unfolding keeps_task_def
proof (intro allI impI)
  fix u q assume "get_task s u = Some q"
  then show "\<exists>q'. get_task s' u = Some q' \<and> same_task q q' \<and> state_step (tr_state q) (tr_state q')"
    using movesD(1-3) [OF assms(1)] assms(2) by (cases "u = t") (auto simp: state_step_def)
qed

lemma keeps_task_promoted:
  assumes "keeps_task s s1" "sched_inv s1" "\<And>t r. get_task s t = Some r \<Longrightarrow> tr_state r = Running \<Longrightarrow>
     \<not> pending s1 t"
  shows "keeps_task s (promote_pending_tasks now s1)"
  unfolding keeps_task_def
proof (intro allI impI)
  fix u q assume q: "get_task s u = Some q"
  with assms(1) obtain q1 where q1: "get_task s1 u = Some q1" "same_task q q1"
      "state_step (tr_state q) (tr_state q1)"
    unfolding keeps_task_def by blast
  have "tr_state q = Pending" if "tr_state q1 = Pending"
    using q1(3) that by (auto simp: state_step_def)
  then show "\<exists>q'. get_task (promote_pending_tasks now s1) u = Some q' \<and> same_task q q' \<and>
      state_step (tr_state q) (tr_state q')"
    using q1 by (auto simp: promote_pending_spec(5) [OF assms(2)] promoted_def pending_def
        same_task_def state_step_def)
qed

lemma keeps_task_inserts: "inserts t r s s' \<Longrightarrow> keeps_task s s'"
  by (auto simp: keeps_task_def inserts_def state_step_def)

lemma keeps_task_step:
  assumes inv: "sched_inv s"
  shows "keeps_task s (sched_step (e, op) s)"
proof (rule sched_step_cases [OF sched_invD(1,2) [OF inv], of e op])
  assume "same_view s (sched_step (e, op) s)"
  then show ?thesis by (intro keeps_task_same) (simp add: same_view_def)
next
  fix t r r'
  assume m: "moves t r r' s (sched_step (e, op) s)" and a: "allowed_move op r r'"
  show ?thesis
    by (rule keeps_task_moves [OF m]) (use a in \<open>cases op; auto simp: allowed_move_def state_step_def\<close>)
next
  fix t r s1
  assume m: "moves t r (touched (env_now e) Completed r) s s1" and run: "tr_state r = Running"
    and step: "sched_step (e, op) s = promote_pending_tasks (env_now e) s1"
  show ?thesis
    unfolding step
  proof (rule keeps_task_promoted [OF _ sched_inv_moves [OF inv m]])
    show "keeps_task s s1" by (rule keeps_task_moves [OF m]) (simp add: state_step_def run)
    show "\<not> pending s1 u" if "get_task s u = Some q" "tr_state q = Running" for u q
      using that movesD(3) [OF m] by (simp add: pending_def)
  qed
next
  fix t r assume "inserts t r s (sched_step (e, op) s)"
  then show ?thesis by (rule keeps_task_inserts)
next
  fix t r s1
  assume i: "inserts t r s s1" and m: "moves t r (touched (env_now e) Queued r) s1 (sched_step (e, op) s)"
  have "get_task s u = Some q \<Longrightarrow> get_task (sched_step (e, op) s) u = Some q" for u q
    using i movesD(3) [OF m] by (auto simp: inserts_def)
  then show ?thesis by (auto simp: keeps_task_def state_step_def)
qed

section \<open>The log\<close>

lemma transition_log [simp]:
  "sc_action_log (after (transition now t st s)) = sc_action_log s"
  by (simp add: transition_def Let_def put_task_def enqueue_def sort_ready_queue_def
      increment_running_def split: option.split)

lemma promote_log [simp]: "sc_action_log (promote_pending_tasks now s) = sc_action_log s"
proof -
  have "sc_action_log (fold (promote_one now) ts s) = sc_action_log s" for ts
    by (induction ts arbitrary: s) (simp_all add: promote_one_def Let_def)
  then show ?thesis by (simp add: promote_pending_tasks_def)
qed

text \<open>An operation that succeeds in its transition logs at most entries of the scheduler.\<close>

lemma log_sched_extends [simp]:
  "sc_action_log (log_sched e ev t p s) = log_system e ev (sc_dimension_id s) t p (sc_action_log s)"
  by (simp add: log_sched_def)

lemma sched_log_extends:
  fixes s :: "'j task_scheduler"
  shows "prefix (al_entries (sc_action_log s)) (al_entries (sc_action_log (sched_step k s)))"
proof -
  obtain e op where k: "k = (e, op)" by (cases k)
  have tr: "sc_action_log s1 = sc_action_log s" if "transition now t st s = (x, s1)"
    for now t st x and s1 s :: "'j task_scheduler"
    using transition_log [of now t st s] that by simp
  have sub: "prefix (al_entries (sc_action_log s)) (al_entries (sc_action_log (after (submit e t spec s))))"
    for t spec
    by (rule submit_cases [of s t spec e]) (simp_all add: inserted_def log_simps)
  show ?thesis
  proof (cases op)
    case (SubmitFromTemplate u t ov)
    then show ?thesis
      using sub by (simp add: k sched_step_def submit_from_template_def Let_def split: option.split)
  next
    case (NextReady w)
    then show ?thesis
      by (auto simp: k sched_step_def next_ready_def Let_def log_simps dest!: tr split: option.split sum.split prod.split)
  next
    case (Fail t reason)
    then show ?thesis
      by (auto simp: k sched_step_def fail_def Let_def log_simps dest!: tr split: option.split sum.split prod.split)
  next
    case (Cancel t)
    then show ?thesis
      by (auto simp: k sched_step_def cancel_def Let_def log_simps dest!: tr split: option.split sum.split prod.split)
  next
    case (Complete t)
    then show ?thesis
      by (auto simp: k sched_step_def complete_def Let_def log_simps dest!: tr split: option.split sum.split prod.split)
  next
    case (Pause t)
    then show ?thesis
      by (auto simp: k sched_step_def pause_def Let_def dest!: tr split: option.split sum.split prod.split)
  next
    case (RenewLease now' t)
    show ?thesis
      by (rule renew_lease_cases [of "env_now e" now' t s])
        (simp_all add: k RenewLease sched_step_def Let_def)
  qed (use sub in \<open>simp_all add: k sched_step_def resume_def Let_def set_quota_def register_template_def\<close>)
qed

section \<open>Contracts\<close>

interpretation sched_audit: audited sched_step "\<lambda>s :: 'j task_scheduler. al_entries (sc_action_log s)"
  by unfold_locales (rule sched_log_extends)

interpretation sched_wf: invariant_system "\<lambda>_ _. True" sched_step "sched_inv :: 'j task_scheduler \<Rightarrow> bool"
  by unfold_locales (metis prod.collapse sched_inv_step)

interpretation sched_gate: invariant_system gate_ok sched_step
  "\<lambda>s :: 'j task_scheduler. sched_inv s \<and> gate_wf s"
  by unfold_locales (metis prod.collapse sched_inv_step gate_wf_step)

text \<open>A task that is completed or cancelled.\<close>

definition settled_as :: "task_id \<Rightarrow> task_state \<Rightarrow> 'j task_spec \<Rightarrow> 'j task_scheduler \<Rightarrow> bool" where
  "settled_as t st spec s =
     ((st = Completed \<or> st = Cancelled) \<and>
      (\<exists>r. get_task s t = Some r \<and> tr_state r = st \<and> tr_spec r = spec))"

interpretation sched_settled: invariant_system "\<lambda>_ _. True" sched_step
  "\<lambda>s :: 'j task_scheduler. sched_inv s \<and> settled_as t st spec s" for t st spec
proof unfold_locales
  fix s :: "'j task_scheduler" and k :: "env \<times> 'j sched_op"
  assume s: "sched_inv s \<and> settled_as t st spec s"
  obtain e op where k: "k = (e, op)" by (cases k)
  have keeps: "keeps_task s (sched_step k s)" using s unfolding k by (intro keeps_task_step) simp
  from s have st: "st = Completed \<or> st = Cancelled"
    and "\<exists>r. get_task s t = Some r \<and> tr_state r = st \<and> tr_spec r = spec"
    by (simp_all add: settled_as_def)
  then obtain r where r: "get_task s t = Some r" "tr_state r = st" "tr_spec r = spec" by blast
  from keeps r(1) obtain r' where r': "get_task (sched_step k s) t = Some r'" "same_task r r'"
      "state_step (tr_state r) (tr_state r')"
    unfolding keeps_task_def by blast
  have "tr_state r' = st" using r'(3) st r(2) by (auto simp: state_step_def)
  moreover have "tr_spec r' = spec" using r'(2) r(3) by (simp add: same_task_def)
  moreover have "sched_inv (sched_step k s)" using s unfolding k by (intro sched_inv_step) simp
  ultimately show "sched_inv (sched_step k s) \<and> settled_as t st spec (sched_step k s)"
    using st r'(1) by (simp add: settled_as_def)
qed

text \<open>The state after a run of calls on a new scheduler.\<close>

definition scheduler_run ::
  "dimension_id \<Rightarrow> task_id \<Rightarrow> preemption_policy \<Rightarrow> u64 \<Rightarrow> 'j action_log
     \<Rightarrow> (env \<times> 'j sched_op) list \<Rightarrow> 'j task_scheduler" where
  "scheduler_run d c pp lease_ms l ks = fold sched_step ks (new_scheduler d c pp lease_ms l)"

lemma scheduler_run_inv: "sched_inv (scheduler_run d c pp lease_ms l ks)"
  unfolding scheduler_run_def by (rule sched_wf.run_inv) (simp_all add: sched_inv_new)

section \<open>Runs with restores\<close>

text \<open>
  The guard of a restore: no two records have the same id, and a queued record's task is not known
  yet. \<open>restore\<close> checks neither, and enqueues such a task twice otherwise.
\<close>

definition restore_ok ::
  "(string \<Rightarrow> 'e + 'j task_record list) \<Rightarrow> 'j sched_event \<Rightarrow> 'j task_scheduler \<Rightarrow> bool" where
  "restore_ok from_json ev s =
     (case ev of
        Call e op \<Rightarrow> True
      | Restore json \<Rightarrow>
          (case from_json json of
             Inl err \<Rightarrow> True
           | Inr records \<Rightarrow> distinct (map tr_task_id records) \<and>
               list_all (\<lambda>r. tr_state r = Queued \<longrightarrow> get_task s (tr_task_id r) = None) records))"

lemma restore_one_known:
  "get_task s (tr_task_id r) \<noteq> None \<Longrightarrow> tr_state r \<noteq> Queued \<Longrightarrow> restore_one r s = s"
  by (auto simp: restore_one_def index_contains_def get_task_def Let_def)

lemma restore_one_restores:
  assumes "get_task s (tr_task_id r) = None"
  shows "restores r s (restore_one r s)"
proof -
  let ?t = "tr_task_id r"
  let ?ins = "s\<lparr>sc_index := (sc_index s)\<lparr>ix_records := (ix_records (sc_index s))(?t \<mapsto> r),
                ix_insertion_order := ix_insertion_order (sc_index s) @ [?t]\<rparr>\<rparr>"
  have "get_task ?ins = (get_task s)(?t \<mapsto> r)" "order_of ?ins = order_of s @ [?t]"
      "running_for ?ins = running_for s" "sc_ready_queue ?ins = sc_ready_queue s"
    by (simp_all add: get_task_def order_of_def running_for_def fun_eq_iff)
  moreover have "restore_one r s =
      (if tr_state r = Queued then enqueue ?t (ts_priority (tr_spec r)) (tr_seq r) ?ins else ?ins)"
    using assms by (simp add: restore_one_def index_contains_def get_task_def Let_def)
  ultimately show ?thesis using assms by (simp add: restores_def entry_of_def)
qed

lemma restore_fold_core:
  assumes "sched_core s" "distinct (map tr_task_id records)"
    "\<And>r. r \<in> set records \<Longrightarrow> tr_state r = Queued \<Longrightarrow> get_task s (tr_task_id r) = None"
  shows "sched_core (fold restore_one records s)"
  using assms
proof (induction records arbitrary: s)
  case Nil
  then show ?case by simp
next
  case (Cons r records)
  have rest: "tr_task_id q \<noteq> tr_task_id r" if "q \<in> set records" for q
    using that Cons.prems(2) by (metis distinct.simps(2) image_eqI list.map(2) list.set_map)
  show ?case
  proof (cases "get_task s (tr_task_id r)")
    case None
    then have r: "restores r s (restore_one r s)" by (rule restore_one_restores)
    have "sched_core (fold restore_one records (restore_one r s))"
    proof (rule Cons.IH [OF sched_core_restores [OF Cons.prems(1) r]])
      show "get_task (restore_one r s) (tr_task_id q) = None" if "q \<in> set records" "tr_state q = Queued" for q
        using r that rest [OF that(1)] Cons.prems(3) [of q] by (simp add: restores_def)
    qed (use Cons.prems(2) in simp)
    then show ?thesis by simp
  next
    case (Some v)
    then have "restore_one r s = s" using Cons.prems(3) [of r] by (intro restore_one_known) auto
    then show ?thesis using Cons.IH [of s] Cons.prems by simp
  qed
qed

lemma event_step_core:
  assumes "sched_core s" "restore_ok from_json ev s"
  shows "sched_core (event_step from_json ev s)"
proof (cases ev)
  case (Call e op)
  then show ?thesis using sched_core_step [OF assms(1)] by simp
next
  case (Restore json)
  then show ?thesis
    using assms restore_fold_core [OF assms(1)]
    by (cases "from_json json") (auto simp: restore_ok_def restore_def list_all_iff)
qed

interpretation sched_events: invariant_system "restore_ok from_json" "event_step from_json"
  "sched_core :: 'j task_scheduler \<Rightarrow> bool"
  for from_json :: "string \<Rightarrow> 'e + 'j task_record list"
  by unfold_locales (rule event_step_core)

lemma event_run_core:
  assumes "admissible (restore_ok from_json) (event_step from_json) evs (new_scheduler d c pp lease_ms l)"
  shows "sched_core (fold (event_step from_json) evs (new_scheduler d c pp lease_ms l))"
  by (rule sched_events.run_inv [OF _ assms])
    (simp add: sched_core_def index_wf_def queue_wf_def count_le_def running_list_def)

text \<open>Without restores the events are a run of calls.\<close>

lemma event_run_calls:
  assumes "\<not> list_ex is_restore evs"
  shows "\<exists>ks. fold (event_step from_json) evs (new_scheduler d c pp lease_ms l) =
    scheduler_run d c pp lease_ms l ks"
proof -
  have "fold (event_step from_json) evs s =
      fold sched_step (map (\<lambda>ev. case ev of Call e op \<Rightarrow> (e, op) | Restore json \<Rightarrow> undefined) evs) s" for s
    using assms
  proof (induction evs arbitrary: s)
    case (Cons ev evs)
    then show ?case by (cases ev) simp_all
  qed simp
  then show ?thesis unfolding scheduler_run_def by blast
qed

end
