(* ===== verification/Scheduler_Claims.thy ===== *)
theory Scheduler_Claims
  imports Scheduler_Props "HOL-Library.Multiset"
begin

text \<open>
  The properties of the scheduler. The runs of \<open>scheduler_run\<close> are sequences of calls of any
  operations but \<open>restore\<close>, with any arguments, on a new scheduler; the runs of \<open>event_step\<close>
  restore as well, under the guard \<open>restore_ok\<close>: \<open>restore\<close> takes the sequence numbers of the
  snapshot, leaves the counters as they are, and queues a task again that is already queued.
\<close>

section \<open>Views\<close>

lemma iter_in_order_map:
  assumes "index_wf s"
  shows "all_tasks s = map (\<lambda>t. the (get_task s t)) (order_of s)"
proof -
  have "List.map_filter (get_task s) xs = map (\<lambda>t. the (get_task s t)) xs"
    if "\<forall>t \<in> set xs. get_task s t \<noteq> None" for xs
    using that by (induction xs) (auto simp: map_filter_simps)
  with assms show ?thesis
    by (simp add: all_tasks_def iter_in_order_def order_of_def get_task_def [abs_def] index_wf_def)
qed

lemma sorted_ready_keys:
  "sorted (map ready_key q) \<Longrightarrow>
     sorted_wrt (\<lambda>(p, n, _) (p', n', _). p' < p \<or> p' = p \<and> n \<le> n') q"
  unfolding sorted_map
  by (rule sorted_wrt_mono_rel)
    (auto simp: ready_key_def less_eq_prod_def less_prod_def less_task_priority_def split: prod.splits)

text \<open>The ready queue read as a set, and the sequence numbers of a run without restores.\<close>

lemma queue_is_queued:
  assumes ix: "index_wf s" and q: "queue_wf s"
  shows "set (sc_ready_queue s) =
     {(ts_priority (tr_spec r), tr_seq r, t) | t r. get_task s t = Some r \<and> tr_state r = Queued}"
    (is "_ = ?R")
proof (rule set_eqI)
  fix x
  have "(x \<in> set (sc_ready_queue s)) =
      (\<exists>t r. get_task s t = Some r \<and> tr_state r = Queued \<and> x = entry_of r)"
    using q unfolding queue_wf_def by blast
  also have "\<dots> = (\<exists>t r. get_task s t = Some r \<and> tr_state r = Queued \<and>
      x = (ts_priority (tr_spec r), tr_seq r, t))"
    by (intro ex_cong1 conj_cong refl) (simp add: entry_of_def index_wf_id [OF ix])
  also have "\<dots> = (x \<in> ?R)" by blast
  finally show "(x \<in> set (sc_ready_queue s)) = (x \<in> ?R)" .
qed

lemma seq_numbers:
  assumes ix: "index_wf s" and sq: "seq_wf s"
  shows "map tr_seq (all_tasks s) = map of_nat [1..<Suc (List.length (all_tasks s))]"
proof (rule nth_equalityI)
  show "List.length (map tr_seq (all_tasks s)) =
      List.length (map of_nat [1..<Suc (List.length (all_tasks s))])"
    by (simp del: upt_Suc)
  fix i assume "i < List.length (map tr_seq (all_tasks s))"
  then have i: "i < List.length (order_of s)" by (simp add: iter_in_order_map [OF ix])
  then have "order_of s ! i \<in> set (order_of s)" by simp
  with ix obtain r where r: "get_task s (order_of s ! i) = Some r"
    unfolding index_wf_def by blast
  with sq i have "tr_seq r = of_nat (Suc i)" by (simp add: seq_wf_def del: of_nat_Suc)
  with r i show "map tr_seq (all_tasks s) ! i =
      map of_nat [1..<Suc (List.length (all_tasks s))] ! i"
    by (simp add: iter_in_order_map [OF ix] del: upt_Suc)
qed

lemma event_seq_numbers:
  assumes "\<not> list_ex is_restore evs"
  shows "let s = fold (event_step from_json) evs (new_scheduler d c pp lease_ms l) in
    map tr_seq (all_tasks s) = map of_nat [1..<Suc (List.length (all_tasks s))]"
proof -
  obtain ks where "fold (event_step from_json) evs (new_scheduler d c pp lease_ms l) =
      scheduler_run d c pp lease_ms l ks"
    using event_run_calls [OF assms] by blast
  then show ?thesis
    using seq_numbers [OF sched_invD(1,5) [OF scheduler_run_inv]] by (simp only: Let_def)
qed

lemma running_list_length:
  assumes "index_wf s"
  shows "List.length (running_list s dim) = List.length (filter
      (\<lambda>r. tr_state r = Running \<and> ts_dimension_id (tr_spec r) = dim) (all_tasks s))"
  using ids_in_order [OF assms, of "\<lambda>r. tr_state r = Running \<and> ts_dimension_id (tr_spec r) = dim"]
  by (simp add: running_list_def runs_in_def [abs_def] all_tasks_def) (metis length_map)

lemma scheduler_run_counts:
  "\<not> 2 ^ 32 \<le> List.length (all_tasks (scheduler_run d c pp lease_ms l ks)) \<Longrightarrow>
     unat (running_for (scheduler_run d c pp lease_ms l ks) dim) =
     List.length (running_list (scheduler_run d c pp lease_ms l ks) dim)"
  using sched_invD(1,3) [OF scheduler_run_inv [of d c pp lease_ms l ks]]
  by (simp add: iter_in_order_map count_wf_def count_ok_def)

section \<open>Demonstration calls\<close>

definition demo_spec :: "uuid list \<Rightarrow> nat task_spec" where
  "demo_spec deps = (new_spec 7 ''build'' ''demo'')\<lparr>ts_dependencies := deps\<rparr>"

definition demo_env :: env where
  "demo_env = \<lparr>env_now = 5, env_event_id = 9\<rparr>"

section \<open>Queue, counters, dispatch\<close>

text \<open>C1: After any run of calls, failing ones and restores included, the ready queue holds exactly
  the tasks in state \<open>Queued\<close>, each once, with their priority and sequence number, and is ordered
  by falling priority and, within a priority, by sequence number; as long as nothing was restored, the
  sequence numbers are the submission order. A restore must bring no id twice and no queued task that
  the scheduler knows already: it queues such a task a second time.\<close>

theorem ready_queue_exact:
  assumes "admissible (restore_ok from_json) (event_step from_json) evs (new_scheduler d c pp lease_ms l)"
  shows "let s = fold (event_step from_json) evs (new_scheduler d c pp lease_ms l) in
     distinct (sc_ready_queue s)
   \<and> set (sc_ready_queue s) =
       {(ts_priority (tr_spec r), tr_seq r, t) | t r. get_task s t = Some r \<and> tr_state r = Queued}
   \<and> sorted_wrt (\<lambda>(p, n, _) (p', n', _). p' < p \<or> p' = p \<and> n \<le> n') (sc_ready_queue s)
   \<and> (if list_ex is_restore evs then True
      else map tr_seq (all_tasks s) = map of_nat [1..<Suc (List.length (all_tasks s))])"
  (is "let s = ?run in _")
proof -
  let ?s = ?run
  note core = event_run_core [OF assms]
  have "distinct (sc_ready_queue ?s)" "sorted (map ready_key (sc_ready_queue ?s))"
    using sched_coreD(2) [OF core] by (simp_all add: queue_wf_def)
  moreover have "if list_ex is_restore evs then True
      else map tr_seq (all_tasks ?s) = map of_nat [1..<Suc (List.length (all_tasks ?s))]"
    using event_seq_numbers [of evs from_json d c pp lease_ms l]
    by (cases "list_ex is_restore evs") (simp_all only: Let_def simp_thms if_True if_False)
  ultimately show ?thesis
    using queue_is_queued [OF sched_coreD(1,2) [OF core]] sorted_ready_keys
    by (simp only: Let_def simp_thms)
qed

text \<open>A snapshot that another scheduler has written: a queued and a running task.\<close>

definition demo_records :: "nat task_record list" where
  "demo_records =
     [(new_record 1 5 (demo_spec []) 9)\<lparr>tr_state := Queued\<rparr>,
      (new_record 1 6 (demo_spec []) 8)\<lparr>tr_state := Running\<rparr>]"

definition demo_events :: "nat sched_event list" where
  "demo_events = [Restore ''x'', Call demo_env (Submit 1 (demo_spec [])), Call demo_env (NextReady ''w'')]"

lemma demo_admissible:
  "admissible (restore_ok (\<lambda>_. Inr demo_records :: unit + nat task_record list))
     (event_step (\<lambda>_. Inr demo_records :: unit + nat task_record list)) demo_events
     (new_scheduler 7 3 NoPreemption 100 new_log)"
  by (simp add: demo_events_def demo_records_def restore_ok_def new_record_def)

theorem ready_queue_exact_witness:
  "set (sc_ready_queue (fold (event_step (\<lambda>_. Inr demo_records :: unit + nat task_record list)) demo_events
        (new_scheduler 7 3 NoPreemption 100 new_log))) =
     {(ts_priority (tr_spec r), tr_seq r, t) | t r.
        get_task (fold (event_step (\<lambda>_. Inr demo_records :: unit + nat task_record list)) demo_events
          (new_scheduler 7 3 NoPreemption 100 new_log)) t = Some r \<and> tr_state r = Queued}"
  using ready_queue_exact [OF demo_admissible] by (simp add: Let_def)

text \<open>Without the guard the queue is not exact: a second restore of the same snapshot queues the task
  again.\<close>

lemma restored_twice_queued_twice:
  "sc_ready_queue (fold (event_step (\<lambda>_. Inr demo_records :: unit + nat task_record list))
     [Restore ''x'', Restore ''x''] (new_scheduler 7 3 NoPreemption 100 new_log))
   = [(ts_priority (demo_spec []), 9, 5), (ts_priority (demo_spec []), 9, 5)]"
  by (simp add: demo_records_def restore_def restore_one_def new_scheduler_def new_index_def new_record_def
      index_contains_def enqueue_def sort_ready_queue_def)

text \<open>C3: After any run of calls, failing ones and restores included, the running counter of a
  dimension never exceeds the number of its tasks in state \<open>Running\<close>; as long as nothing was
  restored and fewer than \<open>2 ^ 32\<close> tasks were submitted, it is that number: no call loses a
  decrement, counts twice or underflows. A restore counts none of the running tasks it brings.\<close>

theorem running_counters_exact:
  assumes "admissible (restore_ok from_json) (event_step from_json) evs (new_scheduler d c pp lease_ms l)"
  shows "let s = fold (event_step from_json) evs (new_scheduler d c pp lease_ms l);
       running = (\<lambda>dim. List.length (filter
           (\<lambda>r. tr_state r = Running \<and> ts_dimension_id (tr_spec r) = dim) (all_tasks s)))
   in (\<lambda>dim. unat (running_for s dim)) \<le> running
   \<and> (if list_ex is_restore evs \<or> 2 ^ 32 \<le> List.length (all_tasks s) then True
      else (\<lambda>dim. unat (running_for s dim)) = running)"
  (is "let s = ?run; running = _ in _")
proof -
  note core = event_run_core [OF assms]
  note len = running_list_length [OF sched_coreD(1) [OF core]]
  have "(\<lambda>dim. unat (running_for ?run dim)) =
      (\<lambda>dim. List.length (running_list ?run dim))"
    if "\<not> list_ex is_restore evs" "\<not> 2 ^ 32 \<le> List.length (all_tasks ?run)"
    using event_run_calls [OF that(1), of from_json d c pp lease_ms l] scheduler_run_counts that(2) by fastforce
  then show ?thesis
    using sched_coreD(3) [OF core] by (auto simp: Let_def count_le_def le_fun_def len)
qed

theorem running_counters_exact_witness:
  "let s = fold (event_step (\<lambda>_. Inl () :: unit + nat task_record list))
        [Call demo_env (Submit 1 (demo_spec [])), Call demo_env (NextReady ''w'')]
        (new_scheduler 7 3 NoPreemption 100 new_log)
   in (\<lambda>dim. unat (running_for s dim)) \<le> (\<lambda>dim. List.length (filter
        (\<lambda>r. tr_state r = Running \<and> ts_dimension_id (tr_spec r) = dim) (all_tasks s)))"
  using running_counters_exact [of "\<lambda>_. Inl () :: unit + nat task_record list"
      "[Call demo_env (Submit 1 (demo_spec [])), Call demo_env (NextReady ''w'')]"
      7 3 NoPreemption 100 new_log]
  by (simp add: Let_def restore_ok_def)

text \<open>C4: \<open>next_ready\<close>, after any run of calls but \<open>restore\<close>, hands out the first task of the queue whose dimension is
  below its concurrency limit (every task before it, of higher priority or submitted earlier, is
  held back by its own limit), marks it \<open>Running\<close> under a fresh lease, counts it and takes it off
  the queue; it hands out nothing, and changes nothing, only when every queued task is held back.\<close>

theorem next_ready_spec:
  "let s = scheduler_run d c pp lease_ms l ks;
       free = (\<lambda>t. case get_task s t of None \<Rightarrow> False
               | Some r \<Rightarrow> running_for s (ts_dimension_id (tr_spec r))
                            < dq_max_concurrent (quota_for s (ts_dimension_id (tr_spec r))))
   in case next_ready e w s of
     (None, s') \<Rightarrow> list_all (\<lambda>(_, _, t). \<not> free t) (sc_ready_queue s) \<and> s' = s
   | (Some (r', lease), s') \<Rightarrow>
       \<exists>t r xs ys. sc_ready_queue s = xs @ (ts_priority (tr_spec r), tr_seq r, t) # ys
         \<and> list_all (\<lambda>(_, _, t). \<not> free t) xs \<and> free t
         \<and> get_task s t = Some r \<and> tr_state r = Queued
         \<and> lease = new_lease (env_now e) t w (sc_lease_duration_ms s)
         \<and> r' = r\<lparr>tr_state := Running, tr_updated_at_ms := env_now e, tr_lease := Some lease,
                   tr_attempt := tr_attempt r + 1\<rparr>
         \<and> get_task s' = (get_task s)(t \<mapsto> r') \<and> sc_ready_queue s' = xs @ ys
         \<and> running_for s' = (running_for s)(ts_dimension_id (tr_spec r) :=
             running_for s (ts_dimension_id (tr_spec r)) + 1)"
  (is "let s = ?run; free = _ in _")
proof -
  let ?s = ?run
  let ?free = "\<lambda>t. case get_task ?s t of None \<Rightarrow> False
               | Some r \<Rightarrow> running_for ?s (ts_dimension_id (tr_spec r))
                            < dq_max_concurrent (quota_for ?s (ts_dimension_id (tr_spec r)))"
  note inv = scheduler_run_inv [of d c pp lease_ms l ks]
  note ix = sched_invD(1) [OF inv] and q = sched_invD(2) [OF inv]
  have disp: "dispatchable ?s x = ?free (snd (snd x))" for x
    by (cases x) (simp add: dispatchable_def Let_def split: option.split)
  show ?thesis
  proof (rule next_ready_cases [OF ix q, of e w])
    assume "\<And>x. x \<in> set (sc_ready_queue ?s) \<Longrightarrow> \<not> dispatchable ?s x" "next_ready e w ?s = (None, ?s)"
    then show ?thesis by (simp add: Let_def disp list_all_iff case_prod_beta)
  next
    fix t r xs ys lease
    assume lease: "lease = new_lease (env_now e) t w (sc_lease_duration_ms ?s)"
      and split: "sc_ready_queue ?s = xs @ entry_of r # ys"
      and skip: "\<And>x. x \<in> set xs \<Longrightarrow> \<not> dispatchable ?s x" and fits: "dispatchable ?s (entry_of r)"
      and r: "get_task ?s t = Some r" "tr_state r = Queued"
      and res: "fst (next_ready e w ?s) = Some (started_record (env_now e) lease r, lease)"
      and m: "moves t r (started_record (env_now e) lease r) ?s (snd (next_ready e w ?s))"
    define s' where "s' = snd (next_ready e w ?s)"
    have nr: "next_ready e w ?s = (Some (started_record (env_now e) lease r, lease), s')"
      using res by (simp add: s'_def prod_eq_iff)
    have id: "tr_task_id r = t" by (rule index_wf_id [OF ix r(1)])
    have dist: "distinct (xs @ entry_of r # ys)" using q split by (simp add: queue_wf_def)
    have "filter (\<lambda>x. x \<noteq> entry_of r) xs = xs" "filter (\<lambda>x. x \<noteq> entry_of r) ys = ys"
      using dist by (auto intro: filter_True)
    then have "sc_ready_queue s' = xs @ ys"
      using movesD(6) [OF m] r(2) split by (simp add: queue_follows_def s'_def)
    moreover have "running_for s' = (running_for ?s)(ts_dimension_id (tr_spec r) :=
             running_for ?s (ts_dimension_id (tr_spec r)) + 1)"
      using movesD(7) [OF m] r(2) by (simp add: count_follows_def Let_def s'_def)
    moreover have "get_task s' = (get_task ?s)(t \<mapsto> started_record (env_now e) lease r)"
      using movesD(3) [OF m] by (simp add: s'_def)
    moreover have "list_all (\<lambda>(_, _, t). \<not> ?free t) xs"
      using skip by (simp add: disp list_all_iff case_prod_beta)
    moreover have "?free t" using fits id by (simp add: disp entry_of_def)
    moreover have "sc_ready_queue ?s = xs @ (ts_priority (tr_spec r), tr_seq r, t) # ys"
      using split id by (simp add: entry_of_def)
    moreover have "started_record (env_now e) lease r =
        r\<lparr>tr_state := Running, tr_updated_at_ms := env_now e, tr_lease := Some lease,
                   tr_attempt := tr_attempt r + 1\<rparr>"
      by (simp add: started_record_def touched_def)
    ultimately show ?thesis unfolding Let_def nr prod.case option.case using r lease by blast
  qed
qed

section \<open>Dependencies\<close>

text \<open>C2: Dependency gating is exact: unless \<open>resume\<close> is called on a waiting task, after any run of
  calls but \<open>restore\<close> a task that is not cancelled is in \<open>Pending\<close> if and only if one of its dependencies is not
  completed. No task is queued early, and none is left stuck once its dependencies are done.\<close>

theorem dependency_gate_exact:
  assumes "admissible gate_ok sched_step ks (new_scheduler d c pp lease_ms l)"
  shows "list_all (\<lambda>r. tr_state r = Cancelled \<or>
             (tr_state r = Pending) =
               (\<not> all_deps_completed (scheduler_run d c pp lease_ms l ks) (ts_dependencies (tr_spec r))))
           (all_tasks (scheduler_run d c pp lease_ms l ks))"
proof -
  let ?s = "scheduler_run d c pp lease_ms l ks"
  have "gate_wf (new_scheduler d c pp lease_ms l)" by (simp add: gate_wf_def)
  with sched_gate.run_inv [OF _ assms] sched_inv_new
  have inv: "sched_inv ?s" and gate: "gate_wf ?s" unfolding scheduler_run_def by blast+
  note ix = sched_invD(1) [OF inv]
  have "tr_state r = Cancelled \<or> (tr_state r = Pending) = (\<not> all_deps_completed ?s (ts_dependencies (tr_spec r)))"
    if "r \<in> set (all_tasks ?s)" for r
  proof -
    from that ix obtain t where "get_task ?s t = Some r"
      by (auto simp: iter_in_order_map [OF ix] index_wf_def)
    from gate_wfD [OF gate this] show ?thesis by blast
  qed
  then show ?thesis by (simp add: list_all_iff)
qed

definition demo_calls :: "(env \<times> nat sched_op) list" where
  "demo_calls = map (Pair demo_env)
     [Resume 1, Submit 1 (demo_spec []), Submit 2 (demo_spec [1]), NextReady ''w'',
      Complete 1, NextReady ''w'']"

theorem dependency_gate_exact_witness:
  "admissible gate_ok sched_step demo_calls (new_scheduler 7 3 NoPreemption 100 new_log)
   \<and> list_all (\<lambda>r. tr_state r = Cancelled \<or>
             (tr_state r = Pending) =
               (\<not> all_deps_completed (scheduler_run 7 3 NoPreemption 100 new_log demo_calls)
                    (ts_dependencies (tr_spec r))))
           (all_tasks (scheduler_run 7 3 NoPreemption 100 new_log demo_calls))"
proof -
  have "admissible gate_ok sched_step demo_calls (new_scheduler 7 3 NoPreemption 100 new_log)"
    by (simp add: demo_calls_def gate_ok_def pending_def)
  then show ?thesis using dependency_gate_exact by blast
qed

text \<open>The dependency relation is well founded at any time: every dependency of a known task is a
  known task submitted before it, so there is no cycle through which tasks wait for each other.\<close>

theorem dependencies_acyclic:
  "let s = scheduler_run d c pp lease_ms l ks in
   acyclic {(u, t). \<exists>r. get_task s t = Some r \<and> u \<in> set (ts_dependencies (tr_spec r))}
   \<and> {u. \<exists>t r. get_task s t = Some r \<and> u \<in> set (ts_dependencies (tr_spec r))} \<subseteq> dom (get_task s)"
  (is "let s = ?run in _")
proof -
  let ?s = ?run
  let ?R = "{(u, t). \<exists>r. get_task ?s t = Some r \<and> u \<in> set (ts_dependencies (tr_spec r))}"
  note inv = scheduler_run_inv [of d c pp lease_ms l ks]
  note ix = sched_invD(1) [OF inv] and deps = sched_invD(4) [OF inv]
  define place where "place t = List.length (takeWhile (\<lambda>u. u \<noteq> t) (order_of ?s))" for t
  have step: "place u < place t \<and> u \<in> set (order_of ?s)" if edge: "(u, t) \<in> ?R" for u t
  proof -
    from edge obtain r where r: "get_task ?s t = Some r" "u \<in> set (ts_dependencies (tr_spec r))"
      by blast
    with ix have "t \<in> set (order_of ?s)" by (simp add: index_wf_def)
    then obtain xs ys where split: "order_of ?s = xs @ t # ys" "t \<notin> set xs" by (meson split_list_first)
    with deps r have u: "u \<in> set xs" by (auto simp: deps_wf_def)
    have "place t = List.length xs"
    proof -
      have "takeWhile (\<lambda>u. u \<noteq> t) xs = xs" using split(2) by (auto simp: takeWhile_eq_all_conv)
      then show ?thesis using split by (simp add: place_def takeWhile_append)
    qed
    moreover obtain as bs where "xs = as @ u # bs" "u \<notin> set as" using u by (meson split_list_first)
    then have "place u = List.length as \<and> List.length as < List.length xs"
      using split by (auto simp: place_def takeWhile_append)
    ultimately show ?thesis using u split(1) by simp
  qed
  have "acyclic ?R"
    by (rule acyclicI_order [of _ "\<lambda>t. - int (place t)"]) (use step in force)
  moreover have "{u. \<exists>t r. get_task ?s t = Some r \<and> u \<in> set (ts_dependencies (tr_spec r))} \<subseteq> dom (get_task ?s)"
    using step ix unfolding index_wf_def by blast
  ultimately show ?thesis by (simp only: Let_def simp_thms)
qed

section \<open>States and errors\<close>

text \<open>C18: After any run of calls but \<open>restore\<close>, one more such call changes the state of any task only along the documented transition graph (a
  retried failure takes \<open>Running\<close>, \<open>Failed\<close>, \<open>Queued\<close> in one call), never its specification or
  sequence number, and forgets no task; and a task that is completed or cancelled stays so, with the
  same specification, whatever is called afterwards.\<close>

theorem task_states_follow_graph:
  "let s = scheduler_run d c pp lease_ms l ks in
   case get_task s t of None \<Rightarrow> True | Some r \<Rightarrow>
     (case get_task (sched_step k s) t of None \<Rightarrow> False | Some r' \<Rightarrow>
        tr_spec r' = tr_spec r \<and> tr_seq r' = tr_seq r
        \<and> (tr_state r' = tr_state r \<or> can_transition_to (tr_state r) (tr_state r')
            \<or> (tr_state r = Running \<and> tr_state r' = Queued)))
     \<and> (if tr_state r \<in> {Completed, Cancelled}
         then \<exists>r'. get_task (fold sched_step ks' s) t = Some r' \<and> tr_state r' = tr_state r
                  \<and> tr_spec r' = tr_spec r
         else True)"
  (is "let s = ?run in _")
proof (cases "get_task ?run t")
  case None
  then show ?thesis by (simp add: Let_def)
next
  case (Some r)
  let ?s = ?run
  note inv = scheduler_run_inv [of d c pp lease_ms l ks]
  obtain e op where k: "k = (e, op)" by (cases k)
  from keeps_task_step [OF inv, of e op] Some obtain r' where r': "get_task (sched_step k ?s) t = Some r'"
      "same_task r r'" "state_step (tr_state r) (tr_state r')"
    unfolding keeps_task_def k by blast
  have "\<exists>r'. get_task (fold sched_step ks' ?s) t = Some r' \<and> tr_state r' = tr_state r
      \<and> tr_spec r' = tr_spec r"
    if final: "tr_state r \<in> {Completed, Cancelled}"
  proof -
    have "settled_as t (tr_state r) (tr_spec r) ?s" using Some final by (simp add: settled_as_def)
    with inv have "settled_as t (tr_state r) (tr_spec r) (fold sched_step ks' ?s)"
      using sched_settled.run_inv [of ?s t "tr_state r" "tr_spec r" ks'] by simp
    then show ?thesis by (simp add: settled_as_def)
  qed
  with Some r' show ?thesis by (auto simp: Let_def same_task_def state_step_def)
qed

text \<open>C21: A refused call is refused whole: whatever the operation, \<open>restore\<close> apart, and the state, reachable or not,
  a call that returns an error leaves the scheduler, its log included, exactly as it was.\<close>

theorem refused_call_changes_nothing:
  "case sched_call e op s of (None, s') \<Rightarrow> True | (Some err, s') \<Rightarrow> s' = s"
proof -
  have tr: "transition now t st s = (Inl err, s1) \<Longrightarrow> s1 = s" for now t st err s1
    and s :: "'a task_scheduler"
    by (auto simp: transition_def Let_def split: option.splits if_splits)
  have ok: "\<exists>s2. transition now t Queued s1 = (Inr (), s2)"
    if "get_task s1 t = Some r" "tr_state r = Pending \<or> tr_state r = Failed"
    for now t r and s1 :: "'a task_scheduler"
    using that by (auto simp: transition_ok)
  have sub: "after (submit e t spec s) = s" if "result (submit e t spec s) = Inl err" for t spec err
  proof (rule submit_cases [of s t spec e])
    fix err' assume "submit e t spec s = (Inl err', s)"
    then show ?thesis by simp
  next
    assume "submit e t spec s = (Inr (), inserted e t spec s)"
    with that show ?thesis by simp
  next
    assume i: "inserts t (new_record (env_now e) t spec (seq_of s + 1)) s (inserted e t spec s)"
      and s: "submit e t spec s = transition (env_now e) t Queued (inserted e t spec s)"
    from i have "get_task (inserted e t spec s) t = Some (new_record (env_now e) t spec (seq_of s + 1))"
      by (simp add: inserts_def)
    from ok [OF this, of "env_now e"] that s show ?thesis by (auto simp: new_record_def)
  qed
  have fl: "after (fail e t reason s) = s" if err: "result (fail e t reason s) = Inl err" for t reason err
  proof (rule refused_cases [of s t Failed])
    fix err' assume "\<And>now. transition now t Failed s = (Inl err', s)"
    then show ?thesis by (simp add: fail_def Let_def split: option.split)
  next
    fix r assume r: "get_task s t = Some r" "can_transition_to (tr_state r) Failed"
    let ?s1 = "put_task t (touched (env_now e) Failed r) s"
    let ?r2 = "(touched (env_now e) Failed r)\<lparr>tr_failure_reason := Some reason\<rparr>"
    have "get_task (log_sched e ev t p (decrement_running dim (put_task t ?r2 ?s1))) t = Some ?r2"
      for ev p dim by simp
    from ok [OF this] err r show ?thesis
      by (fastforce simp: fail_def transition_ok Let_def split: if_splits)
  qed
  show ?thesis
  proof (cases op)
    case (SubmitFromTemplate u t ov)
    then show ?thesis
      using sub by (auto simp: submit_from_template_def Let_def err_of_def split: option.split sum.split)
  next
    case (RenewLease now' t)
    show ?thesis
      by (rule renew_lease_cases [of "env_now e" now' t s]) (simp_all add: RenewLease Let_def)
  next
    case (Complete t)
    then show ?thesis by (auto simp: complete_def Let_def dest: tr split: sum.split prod.split)
  next
    case (Cancel t)
    then show ?thesis by (auto simp: cancel_def Let_def dest: tr split: sum.split prod.split)
  next
    case (Pause t)
    then show ?thesis by (auto simp: pause_def Let_def dest: tr split: sum.split prod.split)
  next
    case (Resume t)
    then show ?thesis
      using tr [of "env_now e" t Queued s]
      by (auto simp: resume_def Let_def err_of_def prod_eq_iff split: sum.split option.split)
  qed (use sub fl in \<open>auto simp: Let_def err_of_def split: sum.split\<close>)
qed

text \<open>A failure of a running task records its reason and, while the attempts made are fewer than
  the policy's maximum, puts the task back on the queue and logs the retry; otherwise the task stays
  \<open>Failed\<close> and the failure is logged. Either way the slot of its dimension is freed.\<close>

theorem fail_retries_within_policy:
  "let s = scheduler_run d c pp lease_ms l ks; s' = after (fail e t reason s) in
   case get_task s t of
     None \<Rightarrow> fail e t reason s = (Inl (TaskNotFound t), s)
   | Some r \<Rightarrow>
       if tr_state r = Running
       then result (fail e t reason s) = Inr ()
          \<and> (\<exists>r'. get_task s' = (get_task s)(t \<mapsto> r')
               \<and> tr_failure_reason r' = Some reason \<and> tr_attempt r' = tr_attempt r
               \<and> tr_state r' = (if tr_attempt r < rp_max_attempts (ts_retry_policy (tr_spec r))
                               then Queued else Failed))
          \<and> ((ts_priority (tr_spec r), tr_seq r, t) \<in> set (sc_ready_queue s')) =
              (tr_attempt r < rp_max_attempts (ts_retry_policy (tr_spec r)))
          \<and> running_for s' = (running_for s)(ts_dimension_id (tr_spec r) :=
              saturating_sub (running_for s (ts_dimension_id (tr_spec r))) 1)
       else fail e t reason s = (Inl (InvalidTransition t (tr_state r) Failed), s)"
  (is "let s = ?run; s' = _ in _")
proof (cases "get_task ?run t")
  case None
  then show ?thesis by (simp add: Let_def fail_def)
next
  case (Some r)
  let ?s = ?run
  note inv = scheduler_run_inv [of d c pp lease_ms l ks]
  note ix = sched_invD(1) [OF inv]
  show ?thesis
  proof (cases "tr_state r = Running")
    case False
    with Some show ?thesis by (simp add: Let_def fail_def transition_bad)
  next
    case True
    let ?s' = "after (fail e t reason ?s)"
    note m = fail_moves(2) [OF ix Some True, of e reason]
    have inv': "sched_inv ?s'" by (rule sched_inv_moves [OF inv m])
    have get': "get_task ?s' t = Some (failed_record (env_now e) reason r)"
      using movesD(3) [OF m] by simp
    have entry: "(ts_priority (tr_spec r), tr_seq r, t) = entry_of (failed_record (env_now e) reason r)"
      using same_task_entry [OF movesD(2) [OF m]] index_wf_id [OF ix Some] by (simp add: entry_of_def)
    have "(entry_of (failed_record (env_now e) reason r) \<in> set (sc_ready_queue ?s')) =
        (tr_state (failed_record (env_now e) reason r) = Queued)"
      using queue_wf_in [OF sched_invD(2) [OF inv'] get']
        queue_wf_notin [OF sched_invD(1,2) [OF inv'] get'] by blast
    moreover have "running_for ?s' = (running_for ?s)(ts_dimension_id (tr_spec r) :=
              saturating_sub (running_for ?s (ts_dimension_id (tr_spec r))) 1)"
      using movesD(7) [OF m] True by (simp add: count_follows_def Let_def)
    moreover have "get_task ?s' = (get_task ?s)(t \<mapsto> failed_record (env_now e) reason r)"
      by (rule movesD(3) [OF m])
    ultimately show ?thesis
      using Some True fail_moves(1) [OF ix Some True, of e reason]
      by (auto simp: Let_def entry intro!: exI [of _ "failed_record (env_now e) reason r"])
  qed
qed

text \<open>The retry delay is, for every policy and every attempt number, exactly
  \<open>min (base * 2 ^ min attempt 62) max\<close> milliseconds of unbounded arithmetic: the saturation and the
  shift of the machine code never distort it, it never exceeds the maximum and never decreases
  from one attempt to the next.\<close>

theorem backoff_closed_form:
  "unat (backoff_for p attempt) =
     min (unat (rp_base_backoff_ms p) * 2 ^ min (unat attempt) 62) (unat (rp_max_backoff_ms p))
   \<and> mono (backoff_for p)"
proof -
  have closed: "unat (backoff_for p a) =
     min (unat (rp_base_backoff_ms p) * 2 ^ min (unat a) 62) (unat (rp_max_backoff_ms p))" for a
  proof -
    have min_unat: "unat (min x y) = min (unat x) (unat y)" for x y :: "'l::len word"
      by (auto simp: min_def word_le_nat_alt)
    have sh: "unat (min a 62) = min (unat a) 62" by (simp add: min_unat)
    have "unat (push_bit (min (unat a) 62) 1 :: u64) = 2 ^ min (unat a) 62"
    proof -
      have "(2::nat) ^ min (unat a) 62 \<le> 2 ^ 62" by (intro power_increasing) simp_all
      then have "(2::nat) ^ min (unat a) 62 mod 2 ^ 64 = 2 ^ min (unat a) 62" by (intro mod_less) simp
      then show ?thesis unfolding unsigned_push_bit_eq by (simp add: push_bit_eq_mult take_bit_eq_mod)
    qed
    then have raw: "unat (saturating_mul (rp_base_backoff_ms p) (push_bit (unat (min a 62)) 1)) =
        min (unat (rp_base_backoff_ms p) * 2 ^ min (unat a) 62) (2 ^ 64 - 1)"
      unfolding unat_saturating_mul sh by simp
    have max: "unat (rp_max_backoff_ms p) \<le> 2 ^ 64 - 1"
      using unsigned_less [of "rp_max_backoff_ms p", where 'a = nat] by simp
    show ?thesis
    proof (cases "rp_base_backoff_ms p = 0")
      case True
      then show ?thesis by (simp add: backoff_for_def)
    next
      case False
      then have "unat (backoff_for p a) = unat (min (saturating_mul (rp_base_backoff_ms p)
          (push_bit (unat (min a 62)) 1)) (rp_max_backoff_ms p))"
        by (simp only: backoff_for_def Let_def if_False)
      also have "\<dots> = min (unat (saturating_mul (rp_base_backoff_ms p) (push_bit (unat (min a 62)) 1)))
          (unat (rp_max_backoff_ms p))"
        by (rule min_unat)
      also have "\<dots> = min (min (unat (rp_base_backoff_ms p) * 2 ^ min (unat a) 62) (2 ^ 64 - 1))
          (unat (rp_max_backoff_ms p))"
        by (simp only: raw)
      also have "\<dots> = min (unat (rp_base_backoff_ms p) * 2 ^ min (unat a) 62) (unat (rp_max_backoff_ms p))"
        using max by (simp only: min.assoc min_absorb2)
      finally show ?thesis .
    qed
  qed
  have "backoff_for p a \<le> backoff_for p b" if "a \<le> b" for a b
  proof -
    have "min (unat a) 62 \<le> min (unat b) 62" using that by (auto simp: word_le_nat_alt)
    then have "(2::nat) ^ min (unat a) 62 \<le> 2 ^ min (unat b) 62" by (intro power_increasing) simp_all
    then have "unat (rp_base_backoff_ms p) * 2 ^ min (unat a) 62 \<le> unat (rp_base_backoff_ms p) * 2 ^ min (unat b) 62"
      by (rule mult_le_mono2)
    then show ?thesis unfolding word_le_nat_alt closed by (rule min.mono) simp
  qed
  with closed show ?thesis by (auto intro: monoI)
qed

text \<open>\<open>resume\<close> skips the dependency gate: called on a task that still waits for a dependency it
  succeeds and puts the task on the ready queue, whatever its dependencies.\<close>

theorem resume_skips_gate:
  "let s = scheduler_run d c pp lease_ms l ks; s' = after (resume now t s) in
   case get_task s t of None \<Rightarrow> True | Some r \<Rightarrow>
     if tr_state r = Pending
     then result (resume now t s) = Inr ()
        \<and> get_task s' = (get_task s)(t \<mapsto> r\<lparr>tr_state := Queued, tr_updated_at_ms := now\<rparr>)
        \<and> (ts_priority (tr_spec r), tr_seq r, t) \<in> set (sc_ready_queue s')
     else True"
proof -
  let ?s = "scheduler_run d c pp lease_ms l ks"
  note inv = scheduler_run_inv [of d c pp lease_ms l ks]
  note ix = sched_invD(1) [OF inv]
  have "result (resume now t ?s) = Inr ()
        \<and> get_task (after (resume now t ?s)) = (get_task ?s)(t \<mapsto> r\<lparr>tr_state := Queued, tr_updated_at_ms := now\<rparr>)
        \<and> (ts_priority (tr_spec r), tr_seq r, t) \<in> set (sc_ready_queue (after (resume now t ?s)))"
    if r: "get_task ?s t = Some r" "tr_state r = Pending" for r
    using resume_moves(1) [OF ix r(1), of now] movesD(3,6) [OF resume_moves(2) [OF ix r(1), of now]] r(2)
      index_wf_id [OF ix r(1)]
    by (simp add: touched_def queue_follows_def entry_of_def)
  then show ?thesis by (simp add: Let_def split: option.split)
qed

section \<open>Persistence\<close>

lemma restore_fold:
  fixes f :: "task_id \<Rightarrow> 'j task_record"
  assumes "distinct ts" "\<And>t. t \<in> set ts \<Longrightarrow> tr_task_id (f t) = t \<and> get_task s t = None"
    "sorted (map ready_key (sc_ready_queue s))"
  shows "get_task (fold restore_one (map f ts) s) = (\<lambda>t. if t \<in> set ts then Some (f t) else get_task s t)
    \<and> order_of (fold restore_one (map f ts) s) = order_of s @ ts
    \<and> mset (sc_ready_queue (fold restore_one (map f ts) s)) =
        mset (sc_ready_queue s) + mset (map entry_of (filter (\<lambda>r. tr_state r = Queued) (map f ts)))
    \<and> sorted (map ready_key (sc_ready_queue (fold restore_one (map f ts) s)))
    \<and> running_for (fold restore_one (map f ts) s) = running_for s
    \<and> seq_of (fold restore_one (map f ts) s) = seq_of s"
  using assms
proof (induction ts arbitrary: s)
  case Nil
  then show ?case by (simp add: fun_eq_iff)
next
  case (Cons t ts)
  have t: "tr_task_id (f t) = t" "get_task s t = None" using Cons.prems(2) [of t] by auto
  let ?ins = "s\<lparr>sc_index := (sc_index s)\<lparr>ix_records := (ix_records (sc_index s))(t \<mapsto> f t),
                ix_insertion_order := ix_insertion_order (sc_index s) @ [t]\<rparr>\<rparr>"
  let ?s1 = "restore_one (f t) s"
  have ins: "get_task ?ins = (get_task s)(t \<mapsto> f t)" "order_of ?ins = order_of s @ [t]"
      "running_for ?ins = running_for s" "seq_of ?ins = seq_of s"
    by (simp_all add: get_task_def order_of_def running_for_def seq_of_def fun_eq_iff)
  have one: "?s1 = (if tr_state (f t) = Queued
      then enqueue t (ts_priority (tr_spec (f t))) (tr_seq (f t)) ?ins else ?ins)"
    using t by (simp add: restore_one_def index_contains_def get_task_def Let_def)
  have s1: "get_task ?s1 = (get_task s)(t \<mapsto> f t)" "order_of ?s1 = order_of s @ [t]"
      "running_for ?s1 = running_for s" "seq_of ?s1 = seq_of s"
      "mset (sc_ready_queue ?s1) = mset (sc_ready_queue s) +
         (if tr_state (f t) = Queued then {#entry_of (f t)#} else {#})"
      "sorted (map ready_key (sc_ready_queue ?s1))"
    using Cons.prems(3) t(1) by (simp_all add: one ins entry_of_def)
  have "tr_task_id (f u) = u \<and> get_task ?s1 u = None" if "u \<in> set ts" for u
    using that Cons.prems(1) Cons.prems(2) [of u] s1(1) by auto
  with Cons.IH [of ?s1] Cons.prems(1) s1 show ?case by (auto simp: fun_eq_iff)
qed

text \<open>\<open>restore\<close> of a \<open>snapshot\<close> into a new scheduler rebuilds every record, the submission
  order and the ready queue, provided the parser reads back what the serialiser wrote. It does not
  rebuild the running counters or the sequence counter, which start again from zero.\<close>

theorem snapshot_restore:
  assumes "\<And>records text. to_json records = Inr text \<Longrightarrow> from_json text = Inr records"
    and "snapshot to_json (scheduler_run d c pp lease_ms l ks) = Inr json"
  shows "let s = scheduler_run d c pp lease_ms l ks;
             s' = after (restore from_json json (new_scheduler d' c' pp' lease_ms' l')) in
     result (restore from_json json (new_scheduler d' c' pp' lease_ms' l')) = Inr ()
   \<and> get_task s' = get_task s \<and> all_tasks s' = all_tasks s
   \<and> mset (sc_ready_queue s') = mset (sc_ready_queue s)
   \<and> sorted (map ready_key (sc_ready_queue s'))
   \<and> running_for s' = (\<lambda>_. 0) \<and> ix_seq (sc_index s') = 0"
proof -
  let ?s = "scheduler_run d c pp lease_ms l ks" and ?n = "new_scheduler d' c' pp' lease_ms' l'"
  let ?f = "\<lambda>t. the (get_task ?s t)"
  note inv = scheduler_run_inv [of d c pp lease_ms l ks]
  note ix = sched_invD(1) [OF inv] and q = sched_invD(2) [OF inv]
  have known: "get_task ?s t = Some (?f t)" if "t \<in> set (order_of ?s)" for t
    using that ix by (auto simp: index_wf_def)
  have "from_json json = Inr (all_tasks ?s)"
    using assms(2) by (intro assms(1)) (simp add: snapshot_def all_tasks_def)
  then have res: "restore from_json json ?n = (Inr (), fold restore_one (map ?f (order_of ?s)) ?n)"
    by (simp add: restore_def iter_in_order_map [OF ix])
  define s' where "s' = fold restore_one (map ?f (order_of ?s)) ?n"
  have rebuilt: "get_task s' = (\<lambda>t. if t \<in> set (order_of ?s) then Some (?f t) else None)
    \<and> order_of s' = order_of ?s
    \<and> mset (sc_ready_queue s') = mset (map entry_of (filter (\<lambda>r. tr_state r = Queued) (map ?f (order_of ?s))))
    \<and> sorted (map ready_key (sc_ready_queue s')) \<and> running_for s' = (\<lambda>_. 0) \<and> seq_of s' = 0"
    unfolding s'_def
    using restore_fold [of "order_of ?s" ?f ?n, unfolded new_scheduler_views] ix known
      index_wf_id [OF ix]
    by (simp add: index_wf_def)
  then have get: "get_task s' = get_task ?s"
    using known ix by (auto simp: index_wf_def fun_eq_iff split: option.splits)
  have all: "all_tasks s' = all_tasks ?s"
  proof -
    have "all_tasks s' = List.map_filter (get_task s') (order_of s')"
      "all_tasks ?s = List.map_filter (get_task ?s) (order_of ?s)"
      by (simp_all add: all_tasks_def iter_in_order_def order_of_def get_task_def [abs_def])
    with get rebuilt show ?thesis by simp
  qed
  have "mset (sc_ready_queue ?s) = mset (map entry_of (filter (\<lambda>r. tr_state r = Queued) (map ?f (order_of ?s))))"
  proof -
    let ?e = "map entry_of (filter (\<lambda>r. tr_state r = Queued) (map ?f (order_of ?s)))"
    have "inj_on (entry_of \<circ> ?f) (set (order_of ?s))"
      by (rule inj_onI) (use entry_of_inject [OF ix known known] in simp)
    moreover have "?e = map (entry_of \<circ> ?f) (filter (\<lambda>t. tr_state (?f t) = Queued) (order_of ?s))"
      by (simp add: filter_map comp_def)
    ultimately have "distinct ?e"
      using ix by (auto simp: distinct_map index_wf_def intro: inj_on_subset)
    moreover have "set ?e = set (sc_ready_queue ?s)"
    proof (rule set_eqI)
      fix x
      have "(x \<in> set (sc_ready_queue ?s)) =
          (\<exists>t r. get_task ?s t = Some r \<and> tr_state r = Queued \<and> x = entry_of r)"
        using q unfolding queue_wf_def by blast
      also have "\<dots> = (x \<in> set ?e)"
      proof
        assume "\<exists>t r. get_task ?s t = Some r \<and> tr_state r = Queued \<and> x = entry_of r"
        then obtain t r where r: "get_task ?s t = Some r" "tr_state r = Queued" "x = entry_of r"
          by (elim exE conjE)
        with ix have "t \<in> set (order_of ?s)" "?f t = r" by (simp_all add: index_wf_def)
        then have "r \<in> ?f ` set (order_of ?s)" by (metis imageI)
        with r(2) have "r \<in> set (filter (\<lambda>r. tr_state r = Queued) (map ?f (order_of ?s)))" by simp
        with r(3) show "x \<in> set ?e" by simp
      next
        assume "x \<in> set ?e"
        then obtain t where "t \<in> set (order_of ?s)" "tr_state (?f t) = Queued" "x = entry_of (?f t)"
          by auto
        with known show "\<exists>t r. get_task ?s t = Some r \<and> tr_state r = Queued \<and> x = entry_of r"
          by metis
      qed
      finally show "(x \<in> set ?e) = (x \<in> set (sc_ready_queue ?s))" ..
    qed
    moreover have "distinct (sc_ready_queue ?s)" using q by (simp add: queue_wf_def)
    ultimately have "mset ?e = mset (sc_ready_queue ?s)"
      using set_eq_iff_mset_eq_distinct by blast
    then show ?thesis ..
  qed
  then show ?thesis using rebuilt get all by (simp add: Let_def res s'_def [symmetric] seq_of_def)
qed

definition demo_scheduler :: "nat task_scheduler" where
  "demo_scheduler = scheduler_run 7 3 NoPreemption 100 new_log demo_calls"

definition demo_to_json :: "nat task_record list \<Rightarrow> unit + string" where
  "demo_to_json records = (if records = all_tasks demo_scheduler then Inr ''x'' else Inl ())"

definition demo_from_json :: "string \<Rightarrow> unit + nat task_record list" where
  "demo_from_json text = Inr (all_tasks demo_scheduler)"

theorem snapshot_restore_witness:
  "all_tasks (after (restore demo_from_json ''x'' (new_scheduler 7 3 NoPreemption 100 new_log)))
     = all_tasks demo_scheduler"
proof -
  have "demo_from_json js = Inr records" if "demo_to_json records = Inr js" for records js
    using that by (simp add: demo_to_json_def demo_from_json_def split: if_splits)
  moreover have "snapshot demo_to_json (scheduler_run 7 3 NoPreemption 100 new_log demo_calls) = Inr ''x''"
    by (simp add: snapshot_def demo_to_json_def demo_scheduler_def all_tasks_def)
  ultimately show ?thesis
    using snapshot_restore [of demo_to_json demo_from_json 7 3 NoPreemption 100 new_log demo_calls
        "''x''" 7 3 NoPreemption 100 new_log]
    by (simp add: Let_def demo_scheduler_def)
qed

end
