(* ===== verification/Ordered_Map.thy ===== *)
theory Ordered_Map
  imports Prelude
begin

text \<open>
  Rust's \<open>BTreeMap\<close> as the list of its entries in key order, which is also the order in which
  the code iterates over it: \<open>insert\<close>, \<open>remove\<close>, \<open>get\<close>, \<open>retain\<close>, iteration. The locale
  \<open>keyed_store\<close> states the contract its clients rely on; the laws of maps follow from it.
\<close>

section \<open>Contract\<close>

locale keyed_store =
  fixes ok :: "'m \<Rightarrow> bool"
    and get :: "'m \<Rightarrow> 'k \<Rightarrow> 'v option"
    and put :: "'k \<Rightarrow> 'v \<Rightarrow> 'm \<Rightarrow> 'm"
    and del :: "'k \<Rightarrow> 'm \<Rightarrow> 'm"
  assumes get_put: "ok m \<Longrightarrow> get (put k v m) = (get m)(k \<mapsto> v)"
    and get_del: "ok m \<Longrightarrow> get (del k m) = (get m)(k := None)"
    and ok_put: "ok m \<Longrightarrow> ok (put k v m)"
    and ok_del: "ok m \<Longrightarrow> ok (del k m)"
    and ext: "ok m \<Longrightarrow> ok n \<Longrightarrow> get m = get n \<Longrightarrow> m = n"
begin

lemma put_put: "ok m \<Longrightarrow> put k v (put k w m) = put k v m"
  by (rule ext) (simp_all add: ok_put get_put)

lemma put_commute: "ok m \<Longrightarrow> k \<noteq> k' \<Longrightarrow> put k v (put k' w m) = put k' w (put k v m)"
  by (rule ext) (simp_all add: ok_put get_put fun_upd_twist)

lemma del_put: "ok m \<Longrightarrow> del k (put k v m) = del k m"
  by (rule ext) (simp_all add: ok_put ok_del get_put get_del)

lemma del_fresh: "ok m \<Longrightarrow> get m k = None \<Longrightarrow> del k m = m"
  by (rule ext) (auto simp: ok_del get_del)

lemma put_same: "ok m \<Longrightarrow> get m k = Some v \<Longrightarrow> put k v m = m"
  by (rule ext) (auto simp: ok_put get_put)

text \<open>An undo: removing a fresh insertion, reinserting what was removed.\<close>

lemma del_put_fresh: "ok m \<Longrightarrow> get m k = None \<Longrightarrow> del k (put k v m) = m"
  by (simp add: del_put del_fresh)

lemma put_del_same: "ok m \<Longrightarrow> get m k = Some v \<Longrightarrow> put k v (del k m) = m"
  by (rule ext) (auto simp: ok_put ok_del get_put get_del)

lemma fold_put:
  "ok m \<Longrightarrow> ok (fold (\<lambda>(k, v). put k v) kvs m) \<and>
     get (fold (\<lambda>(k, v). put k v) kvs m) = get m ++ map_of (rev kvs)"
  by (induction kvs arbitrary: m) (auto simp: ok_put get_put)

lemma fold_del:
  "ok m \<Longrightarrow> ok (fold del ks m) \<and> get (fold del ks m) = (\<lambda>k. if k \<in> set ks then None else get m k)"
  by (induction ks arbitrary: m) (auto simp: ok_del get_del fun_eq_iff)

end

section \<open>Entries in key order\<close>

type_synonym ('k, 'v) om = "('k \<times> 'v) list"

abbreviation om_empty :: "('k, 'v) om" where
  "om_empty \<equiv> []"

abbreviation om_keys :: "('k, 'v) om \<Rightarrow> 'k list" where
  "om_keys m \<equiv> map fst m"

abbreviation om_values :: "('k, 'v) om \<Rightarrow> 'v list" where
  "om_values m \<equiv> map snd m"

definition om_ok :: "('k::linorder, 'v) om \<Rightarrow> bool" where
  "om_ok m = sorted_wrt (<) (om_keys m)"

abbreviation om_get :: "('k, 'v) om \<Rightarrow> 'k \<Rightarrow> 'v option" where
  "om_get \<equiv> map_of"

definition om_contains :: "('k, 'v) om \<Rightarrow> 'k \<Rightarrow> bool" where
  "om_contains m k = (om_get m k \<noteq> None)"

fun om_insert :: "'k::linorder \<Rightarrow> 'v \<Rightarrow> ('k, 'v) om \<Rightarrow> ('k, 'v) om" where
  "om_insert k v [] = [(k, v)]"
| "om_insert k v ((k', v') # m) =
     (if k < k' then (k, v) # (k', v') # m
      else if k = k' then (k, v) # m
      else (k', v') # om_insert k v m)"

definition om_remove :: "'k \<Rightarrow> ('k, 'v) om \<Rightarrow> ('k, 'v) om" where
  "om_remove k m = filter (\<lambda>e. fst e \<noteq> k) m"

definition om_retain :: "('k \<Rightarrow> 'v \<Rightarrow> bool) \<Rightarrow> ('k, 'v) om \<Rightarrow> ('k, 'v) om" where
  "om_retain p m = filter (\<lambda>(k, v). p k v) m"

text \<open>A change of every value in place (\<open>values_mut\<close>), or of one (\<open>get_mut\<close>).\<close>

definition om_map_values :: "('v \<Rightarrow> 'v) \<Rightarrow> ('k, 'v) om \<Rightarrow> ('k, 'v) om" where
  "om_map_values f m = map (\<lambda>(k, v). (k, f v)) m"

section \<open>Lemmas\<close>

named_theorems om_simps

lemma om_ok_Nil [om_simps, simp]: "om_ok []"
  by (simp add: om_ok_def)

lemma om_ok_Cons: "om_ok ((k, v) # m) \<longleftrightarrow> (\<forall>k' \<in> fst ` set m. k < k') \<and> om_ok m"
  by (simp add: om_ok_def)

lemma om_ok_distinct: "om_ok m \<Longrightarrow> distinct (om_keys m)"
  by (simp add: om_ok_def strict_sorted_iff)

lemma om_ok_sorted: "om_ok m \<Longrightarrow> sorted (om_keys m)"
  by (simp add: om_ok_def strict_sorted_iff)

lemma om_insert_keys: "fst ` set (om_insert k v m) = insert k (fst ` set m)"
proof (induction m)
  case Nil
  show ?case by simp
next
  case (Cons e m)
  then show ?case by (cases e) (simp add: insert_commute)
qed

lemma om_insert_ok [om_simps]: "om_ok m \<Longrightarrow> om_ok (om_insert k v m)"
proof (induction m)
  case Nil
  show ?case by (simp add: om_ok_def)
next
  case (Cons e m)
  obtain k' v' where e: "e = (k', v')" by (cases e)
  with Cons show ?case
    by (cases k k' rule: linorder_cases) (auto simp: om_ok_Cons om_insert_keys)
qed

lemma om_get_insert [om_simps]: "om_ok m \<Longrightarrow> om_get (om_insert k v m) = (om_get m)(k \<mapsto> v)"
proof (induction m)
  case Nil
  show ?case by simp
next
  case (Cons e m)
  obtain k' v' where e: "e = (k', v')" by (cases e)
  with Cons.prems have "om_ok m" by (simp add: om_ok_Cons)
  then have "om_get (om_insert k v m) = (om_get m)(k \<mapsto> v)" by (rule Cons.IH)
  then show ?case using e by (auto simp: fun_eq_iff)
qed

lemma om_get_filter:
  "om_get (filter (\<lambda>e. P (fst e)) m) = (\<lambda>k. if P k then om_get m k else None)"
  by (induction m) (auto simp: fun_eq_iff)

lemma om_get_remove [om_simps]: "om_get (om_remove k m) = (om_get m)(k := None)"
  unfolding om_remove_def using om_get_filter [of "\<lambda>x. x \<noteq> k" m] by (auto simp: fun_eq_iff)

lemma om_filter_ok: "om_ok m \<Longrightarrow> om_ok (filter P m)"
  unfolding om_ok_def by (induction m) auto

lemma om_remove_ok [om_simps]: "om_ok m \<Longrightarrow> om_ok (om_remove k m)"
  by (simp add: om_remove_def om_filter_ok)

lemma om_retain_ok [om_simps]: "om_ok m \<Longrightarrow> om_ok (om_retain p m)"
  by (simp add: om_retain_def om_filter_ok)

lemma om_get_retain [om_simps]:
  "om_ok m \<Longrightarrow> om_get (om_retain p m) =
     (\<lambda>k. case om_get m k of None \<Rightarrow> None | Some v \<Rightarrow> if p k v then Some v else None)"
proof (induction m)
  case Nil
  show ?case by (simp add: om_retain_def)
next
  case (Cons e m)
  obtain k v where e: "e = (k, v)" by (cases e)
  with Cons have IH: "om_get (om_retain p m) =
      (\<lambda>k. case om_get m k of None \<Rightarrow> None | Some v \<Rightarrow> if p k v then Some v else None)"
    by (simp add: om_ok_Cons)
  have "k \<notin> fst ` set m" using Cons.prems e by (auto simp: om_ok_Cons)
  then have "om_get m k = None" by (simp add: map_of_eq_None_iff)
  with IH show ?case by (auto simp: e om_retain_def fun_eq_iff)
qed

lemma om_keys_map_values [om_simps]: "om_keys (om_map_values f m) = om_keys m"
  by (simp add: om_map_values_def case_prod_beta comp_def)

lemma om_map_values_ok [om_simps]: "om_ok (om_map_values f m) = om_ok m"
  by (simp add: om_ok_def om_keys_map_values)

lemma om_get_map_values [om_simps]: "om_get (om_map_values f m) k = map_option f (om_get m k)"
  by (induction m) (auto simp: om_map_values_def)

lemma om_ext: "om_ok m \<Longrightarrow> om_ok n \<Longrightarrow> om_get m = om_get n \<Longrightarrow> m = n"
proof -
  assume ok: "om_ok m" "om_ok n" and eq: "om_get m = om_get n"
  have "set m = set n"
    using eq map_of_eq_Some_iff [OF om_ok_distinct [OF ok(1)]] map_of_eq_Some_iff [OF om_ok_distinct [OF ok(2)]]
    by (metis prod.collapse subsetI subset_antisym)
  moreover have "sorted (om_keys m)" "sorted (om_keys n)" "distinct (om_keys m)" "distinct (om_keys n)"
    using ok by (simp_all add: om_ok_sorted om_ok_distinct)
  moreover from calculation have "inj_on fst (set m \<union> set n)" by (simp add: distinct_map)
  ultimately show "m = n" by (intro map_sorted_distinct_set_unique [of fst])
qed

lemma om_contains_iff: "om_contains m k = (k \<in> set (om_keys m))"
  by (auto simp: om_contains_def map_of_eq_None_iff)

lemma dom_om_get: "dom (om_get m) = set (om_keys m)"
  by (simp add: dom_map_of_conv_image_fst)

lemma om_get_in_set: "om_get m k = Some v \<Longrightarrow> (k, v) \<in> set m"
  by (rule map_of_SomeD)

lemma om_get_iff: "om_ok m \<Longrightarrow> om_get m k = Some v \<longleftrightarrow> (k, v) \<in> set m"
  by (simp add: map_of_eq_Some_iff om_ok_distinct)

lemma om_values_mem: "om_ok m \<Longrightarrow> v \<in> set (om_values m) \<longleftrightarrow> (\<exists>k. om_get m k = Some v)"
  by (force simp: om_get_iff)

interpretation om: keyed_store om_ok om_get om_insert om_remove
  by unfold_locales (simp_all add: om_simps om_ext)

text \<open>A map updated and looked up: facts that need no order.\<close>

lemma om_get_update: "om_ok m \<Longrightarrow> om_get (om_insert k v m) k' = (if k' = k then Some v else om_get m k')"
  by (simp add: om_get_insert)

lemma om_sum_insert:
  fixes n :: nat
  assumes "om_ok m" "om_get m k = Some v"
  shows "sum_list (om_values (om_insert k n m)) + v = sum_list (om_values m) + n"
  using assms
proof (induction m)
  case Nil
  then show ?case by simp
next
  case (Cons e m)
  obtain k' v' where e: "e = (k', v')" by (cases e)
  show ?case
  proof (cases "k = k'")
    case True
    with Cons.prems e show ?thesis by simp
  next
    case False
    with Cons.prems e have m: "om_get m k = Some v" "om_ok m" by (simp_all add: om_ok_Cons)
    then have "k \<in> fst ` set m" by (force dest: om_get_in_set)
    with Cons.prems(1) e have "k' < k" by (auto simp: om_ok_Cons)
    then have "\<not> k < k'" by simp
    with Cons.IH [OF m(2,1)] e False show ?thesis by simp
  qed
qed

text \<open>Maps whose values carry their own key.\<close>

definition identified :: "('v \<Rightarrow> 'k) \<Rightarrow> ('k, 'v) om \<Rightarrow> bool" where
  "identified id_of arts = (\<forall>i a. om_get arts i = Some a \<longrightarrow> id_of a = i)"

lemma identified_remove: "identified id_of arts \<Longrightarrow> identified id_of (om_remove i arts)"
  by (auto simp: identified_def om_get_remove)

lemma identified_insert:
  "om_ok arts \<Longrightarrow> identified id_of arts \<Longrightarrow> id_of a = i \<Longrightarrow> identified id_of (om_insert i a arts)"
  by (auto simp: identified_def om_get_insert)

lemma identified_retain:
  "om_ok arts \<Longrightarrow> identified id_of arts \<Longrightarrow> identified id_of (om_retain p arts)"
  by (auto simp: identified_def om_get_retain split: option.splits if_splits)

text \<open>The values after an insertion; a function stays injective on them when the new value is new.\<close>

lemma om_insert_values: "set (om_values (om_insert k v m)) \<subseteq> insert v (set (om_values m))"
proof (induction m)
  case (Cons e m)
  then show ?case by (cases e) (auto split: if_splits)
qed simp

lemma om_insert_values_distinct:
  assumes "distinct (map f (om_values m))" and "f v \<notin> f ` set (om_values m)"
  shows "distinct (map f (om_values (om_insert k v m)))"
  using assms
proof (induction m)
  case (Cons e m)
  obtain k' v' where e: "e = (k', v')" by (cases e)
  have "f v' \<noteq> f v" "f v' \<notin> f ` set (om_values m)"
    using Cons.prems by (auto simp add: e image_image o_def)
  then have "f v' \<notin> f ` set (om_values (om_insert k v m))"
    using om_insert_values [of k v m] by blast
  then show ?case using Cons by (auto simp: e)
qed simp

end
