(* ===== verification/Flow_Graph.thy ===== *)
theory Flow_Graph
  imports Action_Log Ordered_Map
begin

text \<open>
  The data model of a flow graph (\<open>graph.rs\<close>): ports, links, groups, relations, nodes,
  subgraphs and the schema that holds them, the operations on them with their log entries, node
  execution contracts, patches and diffs. Cycle detection, ordering and validation follow in
  \<open>Graph_Cycle\<close>, \<open>Graph_Order\<close> and \<open>Graph_Validate\<close>.

  A \<open>BTreeMap\<close> is an ordered map, a \<open>HashMap\<close> that is only looked up is a partial map. Fresh
  identifiers, the clock and the text form of a UUID are arguments. Formatted messages are kept
  as the list of their parts, since \<open>Display\<close> of a UUID belongs to the \<open>uuid\<close> crate.
\<close>

section \<open>Errors\<close>

datatype port_direction = In | Out

datatype port_data_type = Any | Number | String | Bool | Json | Array

datatype flow_graph_error =
    NodeNotFound uuid
  | LinkNotFound uuid
  | PortNotFound uuid uuid
  | GroupNotFound uuid
  | SubgraphNotFound uuid
  | RelationNotFound uuid
  | CycleDetected "uuid list"
  | TypeMismatch uuid port_data_type port_data_type
  | UnconnectedRequiredPort uuid string
  | ForbiddenEdge uuid uuid string
  | InvalidPatch "message_part list"
  | SchemaMismatch u32 u32
  | InvalidStateTransition uuid string string
  | DuplicatePortName uuid string
  | DimensionMismatch dimension_id dimension_id
and message_part =
    MText string
  | MId uuid
  | MType port_data_type
  | MIds "uuid list"
  | MError flow_graph_error

definition GRAPH_SCHEMA_VERSION :: u32 where
  "GRAPH_SCHEMA_VERSION = 1"

section \<open>Ports, links, groups, relations, nodes\<close>

definition is_compatible_with :: "port_data_type \<Rightarrow> port_data_type \<Rightarrow> bool" where
  "is_compatible_with a b = (a = Any \<or> b = Any \<or> a = b)"

record port_def =
  pd_id :: uuid
  pd_name :: string
  pd_direction :: port_direction
  pd_data_type :: port_data_type
  pd_required :: bool
  pd_description :: string

definition new_port :: "uuid \<Rightarrow> string \<Rightarrow> port_direction \<Rightarrow> port_data_type \<Rightarrow> port_def" where
  "new_port fresh name direction data_type =
     \<lparr>pd_id = fresh, pd_name = name, pd_direction = direction, pd_data_type = data_type,
      pd_required = False, pd_description = ''''\<rparr>"

definition port_required :: "port_def \<Rightarrow> port_def" where
  "port_required p = p\<lparr>pd_required := True\<rparr>"

definition with_description :: "string \<Rightarrow> port_def \<Rightarrow> port_def" where
  "with_description desc p = p\<lparr>pd_description := desc\<rparr>"

record link =
  ln_id :: uuid
  ln_source_node :: uuid
  ln_source_port :: uuid
  ln_target_node :: uuid
  ln_target_port :: uuid
  ln_label :: "string option"

definition new_link :: "uuid \<Rightarrow> uuid \<Rightarrow> uuid \<Rightarrow> uuid \<Rightarrow> uuid \<Rightarrow> link" where
  "new_link fresh source_node source_port target_node target_port =
     \<lparr>ln_id = fresh, ln_source_node = source_node, ln_source_port = source_port,
      ln_target_node = target_node, ln_target_port = target_port, ln_label = None\<rparr>"

record group =
  gp_id :: uuid
  gp_name :: string
  gp_node_ids :: "uuid set"

definition new_group :: "uuid \<Rightarrow> string \<Rightarrow> group" where
  "new_group fresh name = \<lparr>gp_id = fresh, gp_name = name, gp_node_ids = {}\<rparr>"

datatype relation_kind = DependsOn | Triggers | ObservedBy | ProvidesDataTo | Custom string

fun relation_as_str :: "relation_kind \<Rightarrow> string" where
  "relation_as_str DependsOn = ''depends_on''"
| "relation_as_str Triggers = ''triggers''"
| "relation_as_str ObservedBy = ''observed_by''"
| "relation_as_str ProvidesDataTo = ''provides_data_to''"
| "relation_as_str (Custom s) = s"

record 'j node_relation =
  nr_id :: uuid
  nr_from_node :: uuid
  nr_to_node :: uuid
  nr_kind :: relation_kind
  nr_label :: "string option"
  nr_metadata :: "string \<rightharpoonup> 'j"

definition new_relation :: "uuid \<Rightarrow> uuid \<Rightarrow> uuid \<Rightarrow> relation_kind \<Rightarrow> 'j node_relation" where
  "new_relation fresh from_node to_node kind =
     \<lparr>nr_id = fresh, nr_from_node = from_node, nr_to_node = to_node, nr_kind = kind,
      nr_label = None, nr_metadata = Map.empty\<rparr>"

record node_provenance =
  np_created_by :: string
  np_created_at_ms :: u64
  np_modified_by :: "string option"
  np_modified_at_ms :: "u64 option"
  np_reason :: "string option"
  np_task_id :: "string option"

definition for_actor :: "u64 \<Rightarrow> string \<Rightarrow> node_provenance" where
  "for_actor now a =
     \<lparr>np_created_by = a, np_created_at_ms = now, np_modified_by = None, np_modified_at_ms = None,
      np_reason = None, np_task_id = None\<rparr>"

definition touch :: "u64 \<Rightarrow> string \<Rightarrow> node_provenance \<Rightarrow> node_provenance" where
  "touch now a p = p\<lparr>np_modified_by := Some a, np_modified_at_ms := Some now\<rparr>"

record 'j graph_node =
  gn_id :: uuid
  gn_kind :: string
  gn_label :: string
  gn_ports :: "(uuid, port_def) om"
  gn_parameters :: "string \<rightharpoonup> 'j"
  gn_position :: "f64 \<times> f64"
  gn_subgraph_ref :: "uuid option"
  gn_provenance :: node_provenance

definition new_node :: "u64 \<Rightarrow> uuid \<Rightarrow> string \<Rightarrow> string \<Rightarrow> 'j graph_node" where
  "new_node now fresh kind label =
     \<lparr>gn_id = fresh, gn_kind = kind, gn_label = label, gn_ports = om_empty,
      gn_parameters = Map.empty, gn_position = (0, 0), gn_subgraph_ref = None,
      gn_provenance = for_actor now ''system''\<rparr>"

definition add_port ::
  "port_def \<Rightarrow> 'j graph_node \<Rightarrow> (flow_graph_error, uuid, 'j graph_node) outcome" where
  "add_port port n =
     (if list_ex (\<lambda>p. pd_name p = pd_name port) (om_values (gn_ports n))
      then (Inl (DuplicatePortName (gn_id n) (pd_name port)), n)
      else (Inr (pd_id port), n\<lparr>gn_ports := om_insert (pd_id port) port (gn_ports n)\<rparr>))"

definition inputs :: "'j graph_node \<Rightarrow> port_def list" where
  "inputs n = filter (\<lambda>p. pd_direction p = In) (om_values (gn_ports n))"

definition outputs :: "'j graph_node \<Rightarrow> port_def list" where
  "outputs n = filter (\<lambda>p. pd_direction p = Out) (om_values (gn_ports n))"

definition is_subgraph_ref :: "'j graph_node \<Rightarrow> bool" where
  "is_subgraph_ref n = (gn_subgraph_ref n \<noteq> None)"

section \<open>Schema and subgraphs\<close>

text \<open>A subgraph holds a whole inner schema, so the two types are mutually recursive.\<close>

datatype 'j flow_graph_schema =
  FlowGraphSchema
    (fs_schema_version: u32)
    (fs_graph_id: uuid)
    (fs_dimension_id: dimension_id)
    (fs_nodes: "(uuid \<times> 'j graph_node) list")
    (fs_links: "(uuid \<times> link) list")
    (fs_groups: "(uuid \<times> group) list")
    (fs_subgraphs: "(uuid \<times> 'j subgraph) list")
    (fs_relations: "(uuid \<times> 'j node_relation) list")
and 'j subgraph =
  Subgraph
    (sg_id: uuid)
    (sg_version: u32)
    (sg_name: string)
    (sg_description: string)
    (sg_exposed_inputs: "(uuid \<times> port_def) list")
    (sg_exposed_outputs: "(uuid \<times> port_def) list")
    (sg_inner: "'j flow_graph_schema")

definition new_schema :: "uuid \<Rightarrow> dimension_id \<Rightarrow> 'j flow_graph_schema" where
  "new_schema fresh d =
     FlowGraphSchema GRAPH_SCHEMA_VERSION fresh d om_empty om_empty om_empty om_empty om_empty"

definition new_subgraph :: "uuid \<Rightarrow> string \<Rightarrow> 'j flow_graph_schema \<Rightarrow> 'j subgraph" where
  "new_subgraph fresh name inner = Subgraph fresh 1 name '''' om_empty om_empty inner"

text \<open>Assignments to one field of a schema.\<close>

definition set_nodes :: "(uuid, 'j graph_node) om \<Rightarrow> 'j flow_graph_schema \<Rightarrow> 'j flow_graph_schema" where
  "set_nodes x s = FlowGraphSchema (fs_schema_version s) (fs_graph_id s) (fs_dimension_id s)
     x (fs_links s) (fs_groups s) (fs_subgraphs s) (fs_relations s)"

definition set_links :: "(uuid, link) om \<Rightarrow> 'j flow_graph_schema \<Rightarrow> 'j flow_graph_schema" where
  "set_links x s = FlowGraphSchema (fs_schema_version s) (fs_graph_id s) (fs_dimension_id s)
     (fs_nodes s) x (fs_groups s) (fs_subgraphs s) (fs_relations s)"

definition set_groups :: "(uuid, group) om \<Rightarrow> 'j flow_graph_schema \<Rightarrow> 'j flow_graph_schema" where
  "set_groups x s = FlowGraphSchema (fs_schema_version s) (fs_graph_id s) (fs_dimension_id s)
     (fs_nodes s) (fs_links s) x (fs_subgraphs s) (fs_relations s)"

definition set_subgraphs :: "(uuid, 'j subgraph) om \<Rightarrow> 'j flow_graph_schema \<Rightarrow> 'j flow_graph_schema" where
  "set_subgraphs x s = FlowGraphSchema (fs_schema_version s) (fs_graph_id s) (fs_dimension_id s)
     (fs_nodes s) (fs_links s) (fs_groups s) x (fs_relations s)"

definition set_relations :: "(uuid, 'j node_relation) om \<Rightarrow> 'j flow_graph_schema \<Rightarrow> 'j flow_graph_schema" where
  "set_relations x s = FlowGraphSchema (fs_schema_version s) (fs_graph_id s) (fs_dimension_id s)
     (fs_nodes s) (fs_links s) (fs_groups s) (fs_subgraphs s) x"

text \<open>\<open>to_json\<close> and \<open>from_json\<close> around the serialiser and the parser of \<open>serde_json\<close>.\<close>

definition schema_to_json ::
  "('j flow_graph_schema \<Rightarrow> 'e + string) \<Rightarrow> 'j flow_graph_schema \<Rightarrow> 'e + string" where
  "schema_to_json to_string s = to_string s"

definition schema_from_json ::
  "(string \<Rightarrow> string + 'j flow_graph_schema) \<Rightarrow> string \<Rightarrow> flow_graph_error + 'j flow_graph_schema" where
  "schema_from_json from_str json =
     (case from_str json of
        Inl e \<Rightarrow> Inl (InvalidPatch [MText e])
      | Inr schema \<Rightarrow>
          if fs_schema_version schema \<noteq> GRAPH_SCHEMA_VERSION
          then Inl (SchemaMismatch GRAPH_SCHEMA_VERSION (fs_schema_version schema))
          else Inr schema)"

section \<open>Node execution contracts\<close>

datatype 'j node_execution_state =
    Idle
  | Running u64
  | Progress f64 string
  | Complete u64 'j
  | Failed string u64
  | Cancelled u64

primrec state_label :: "'j node_execution_state \<Rightarrow> string" where
  "state_label Idle = ''Idle''"
| "state_label (Running t) = ''Running''"
| "state_label (Progress p m) = ''Progress''"
| "state_label (Complete t out) = ''Complete''"
| "state_label (Failed e t) = ''Failed''"
| "state_label (Cancelled t) = ''Cancelled''"

primrec node_is_terminal :: "'j node_execution_state \<Rightarrow> bool" where
  "node_is_terminal Idle = False"
| "node_is_terminal (Running t) = False"
| "node_is_terminal (Progress p m) = False"
| "node_is_terminal (Complete t out) = True"
| "node_is_terminal (Failed e t) = True"
| "node_is_terminal (Cancelled t) = True"

primrec is_running :: "'j node_execution_state \<Rightarrow> bool" where
  "is_running Idle = False"
| "is_running (Running t) = True"
| "is_running (Progress p m) = True"
| "is_running (Complete t out) = False"
| "is_running (Failed e t) = False"
| "is_running (Cancelled t) = False"

record 'j node_execution_contract =
  nc_node_id :: uuid
  nc_dimension_id :: dimension_id
  nc_task_id :: task_id
  nc_state :: "'j node_execution_state"

type_synonym 'j contract_sys = "'j node_execution_contract \<times> 'j action_log"

definition new_contract :: "uuid \<Rightarrow> dimension_id \<Rightarrow> task_id \<Rightarrow> 'j node_execution_contract" where
  "new_contract node_id d t =
     \<lparr>nc_node_id = node_id, nc_dimension_id = d, nc_task_id = t, nc_state = Idle\<rparr>"

text \<open>
  The entry a transition appends: correlated with the node, whose text form \<open>to_str\<close> gives.
\<close>

definition contract_entry ::
  "(uuid \<Rightarrow> string) \<Rightarrow> env \<Rightarrow> event_type \<Rightarrow> 'j payload \<Rightarrow> 'j node_execution_contract
     \<Rightarrow> 'j action_log_entry" where
  "contract_entry to_str e ev p c =
     with_correlation (to_str (nc_node_id c))
       (new_entry e ev System (Some (nc_dimension_id c)) (Some (nc_task_id c)) p)"

definition contract_start ::
  "(uuid \<Rightarrow> string) \<Rightarrow> env \<Rightarrow> 'j contract_sys \<Rightarrow> (flow_graph_error, unit, 'j contract_sys) outcome" where
  "contract_start to_str e = (\<lambda>(c, l).
     if nc_state c \<noteq> Idle
     then (Inl (InvalidStateTransition (nc_node_id c) (state_label (nc_state c)) ''Running''), (c, l))
     else (Inr (),
       (c\<lparr>nc_state := Running (env_now e)\<rparr>,
        append_log (contract_entry to_str e NodeExecutionStarted
          [(''node_id'', PId (nc_node_id c))] c) l)))"

definition contract_progress ::
  "(uuid \<Rightarrow> string) \<Rightarrow> env \<Rightarrow> f64 \<Rightarrow> string \<Rightarrow> 'j contract_sys
     \<Rightarrow> (flow_graph_error, unit, 'j contract_sys) outcome" where
  "contract_progress to_str e percent message = (\<lambda>(c, l).
     if \<not> is_running (nc_state c)
     then (Inl (InvalidStateTransition (nc_node_id c) (state_label (nc_state c)) ''Progress''), (c, l))
     else (Inr (),
       (c\<lparr>nc_state := Progress percent message\<rparr>,
        append_log (contract_entry to_str e NodeExecutionProgress
          [(''node_id'', PId (nc_node_id c)), (''percent'', PFloat percent),
           (''message'', PText message)] c) l)))"

definition contract_complete ::
  "(uuid \<Rightarrow> string) \<Rightarrow> env \<Rightarrow> 'j \<Rightarrow> 'j contract_sys
     \<Rightarrow> (flow_graph_error, unit, 'j contract_sys) outcome" where
  "contract_complete to_str e out = (\<lambda>(c, l).
     if \<not> is_running (nc_state c)
     then (Inl (InvalidStateTransition (nc_node_id c) (state_label (nc_state c)) ''Complete''), (c, l))
     else (Inr (),
       (c\<lparr>nc_state := Complete (env_now e) out\<rparr>,
        append_log (contract_entry to_str e NodeExecutionCompleted
          [(''node_id'', PId (nc_node_id c)), (''output'', PJson out)] c) l)))"

definition contract_fail ::
  "(uuid \<Rightarrow> string) \<Rightarrow> env \<Rightarrow> string \<Rightarrow> 'j contract_sys
     \<Rightarrow> (flow_graph_error, unit, 'j contract_sys) outcome" where
  "contract_fail to_str e err = (\<lambda>(c, l).
     if \<not> is_running (nc_state c)
     then (Inl (InvalidStateTransition (nc_node_id c) (state_label (nc_state c)) ''Failed''), (c, l))
     else (Inr (),
       (c\<lparr>nc_state := Failed err (env_now e)\<rparr>,
        append_log (contract_entry to_str e NodeExecutionFailed
          [(''node_id'', PId (nc_node_id c)), (''error'', PText err)] c) l)))"

definition contract_cancel ::
  "(uuid \<Rightarrow> string) \<Rightarrow> env \<Rightarrow> 'j contract_sys \<Rightarrow> (flow_graph_error, unit, 'j contract_sys) outcome" where
  "contract_cancel to_str e = (\<lambda>(c, l).
     if \<not> is_running (nc_state c)
     then (Inl (InvalidStateTransition (nc_node_id c) (state_label (nc_state c)) ''Cancelled''), (c, l))
     else (Inr (),
       (c\<lparr>nc_state := Cancelled (env_now e)\<rparr>,
        append_log (contract_entry to_str e NodeExecutionCancelled
          [(''node_id'', PId (nc_node_id c))] c) l)))"

end
