(* ===== verification/Graph_Ops.thy ===== *)
theory Graph_Ops
  imports Flow_Graph
begin

text \<open>
  Operations on a flow graph (\<open>graph.rs\<close>): nodes, links, groups, subgraphs and relations with
  their log entries; patches, applied all or nothing; the diff of two schemas.
\<close>

section \<open>The graph\<close>

record 'j flow_graph =
  fg_schema :: "'j flow_graph_schema"
  fg_execution_states :: "uuid \<rightharpoonup> 'j node_execution_state"
  fg_action_log :: "'j action_log"
  fg_dimension_id :: dimension_id
  fg_task_id :: task_id

definition new_flow_graph ::
  "uuid \<Rightarrow> dimension_id \<Rightarrow> task_id \<Rightarrow> 'j action_log \<Rightarrow> 'j flow_graph" where
  "new_flow_graph fresh d t l =
     \<lparr>fg_schema = new_schema fresh d, fg_execution_states = Map.empty, fg_action_log = l,
      fg_dimension_id = d, fg_task_id = t\<rparr>"

definition log_graph :: "env \<Rightarrow> event_type \<Rightarrow> 'j payload \<Rightarrow> 'j flow_graph \<Rightarrow> 'j flow_graph" where
  "log_graph e ev p g =
     g\<lparr>fg_action_log := log_system e ev (fg_dimension_id g) (fg_task_id g) p (fg_action_log g)\<rparr>"

text \<open>Writing through \<open>self.schema\<close>.\<close>

definition on_schema ::
  "('j flow_graph_schema \<Rightarrow> 'j flow_graph_schema) \<Rightarrow> 'j flow_graph \<Rightarrow> 'j flow_graph" where
  "on_schema f g = g\<lparr>fg_schema := f (fg_schema g)\<rparr>"

section \<open>Nodes\<close>

definition add_node :: "env \<Rightarrow> 'j graph_node \<Rightarrow> 'j flow_graph \<Rightarrow> uuid \<times> 'j flow_graph" where
  "add_node e node g =
     (let node_id = gn_id node;
          g1 = on_schema (\<lambda>s. set_nodes (om_insert node_id node (fs_nodes s)) s) g;
          g2 = g1\<lparr>fg_execution_states := (fg_execution_states g1)(node_id \<mapsto> Idle)\<rparr>
      in (node_id, log_graph e NodeCreated [(''node_id'', PId node_id)] g2))"

text \<open>Removing a node drops its links and takes it out of every group.\<close>

definition drop_links_of :: "uuid \<Rightarrow> (uuid, link) om \<Rightarrow> (uuid, link) om" where
  "drop_links_of n = om_retain (\<lambda>_ l. ln_source_node l \<noteq> n \<and> ln_target_node l \<noteq> n)"

definition drop_from_groups :: "uuid \<Rightarrow> (uuid, group) om \<Rightarrow> (uuid, group) om" where
  "drop_from_groups n = om_map_values (\<lambda>gr. gr\<lparr>gp_node_ids := gp_node_ids gr - {n}\<rparr>)"

definition remove_node ::
  "env \<Rightarrow> uuid \<Rightarrow> 'j flow_graph \<Rightarrow> (flow_graph_error, 'j graph_node, 'j flow_graph) outcome" where
  "remove_node e n g =
     (case om_get (fs_nodes (fg_schema g)) n of
        None \<Rightarrow> (Inl (NodeNotFound n), g)
      | Some node \<Rightarrow>
          let g1 = on_schema (\<lambda>s. set_nodes (om_remove n (fs_nodes s)) s) g;
              g2 = g1\<lparr>fg_execution_states := (fg_execution_states g1)(n := None)\<rparr>;
              g3 = on_schema (\<lambda>s. set_links (drop_links_of n (fs_links s)) s) g2;
              g4 = on_schema (\<lambda>s. set_groups (drop_from_groups n (fs_groups s)) s) g3
          in (Inr node, log_graph e NodeDeleted [(''node_id'', PId n)] g4))"

definition get_node :: "'j flow_graph \<Rightarrow> uuid \<Rightarrow> 'j graph_node option" where
  "get_node g n = om_get (fs_nodes (fg_schema g)) n"

section \<open>Links\<close>

definition add_link ::
  "env \<Rightarrow> link \<Rightarrow> 'j flow_graph \<Rightarrow> (flow_graph_error, uuid, 'j flow_graph) outcome" where
  "add_link e l g =
     (case om_get (fs_nodes (fg_schema g)) (ln_source_node l) of
        None \<Rightarrow> (Inl (NodeNotFound (ln_source_node l)), g)
      | Some src_node \<Rightarrow>
     (case om_get (gn_ports src_node) (ln_source_port l) of
        None \<Rightarrow> (Inl (PortNotFound (ln_source_node l) (ln_source_port l)), g)
      | Some src_port \<Rightarrow>
     (case om_get (fs_nodes (fg_schema g)) (ln_target_node l) of
        None \<Rightarrow> (Inl (NodeNotFound (ln_target_node l)), g)
      | Some tgt_node \<Rightarrow>
     (case om_get (gn_ports tgt_node) (ln_target_port l) of
        None \<Rightarrow> (Inl (PortNotFound (ln_target_node l) (ln_target_port l)), g)
      | Some tgt_port \<Rightarrow>
          if \<not> is_compatible_with (pd_data_type src_port) (pd_data_type tgt_port)
          then (Inl (TypeMismatch (ln_id l) (pd_data_type src_port) (pd_data_type tgt_port)), g)
          else (Inr (ln_id l),
            log_graph e LinkCreated [(''link_id'', PId (ln_id l))]
              (on_schema (\<lambda>s. set_links (om_insert (ln_id l) l (fs_links s)) s) g))))))"

definition remove_link ::
  "env \<Rightarrow> uuid \<Rightarrow> 'j flow_graph \<Rightarrow> (flow_graph_error, link, 'j flow_graph) outcome" where
  "remove_link e k g =
     (case om_get (fs_links (fg_schema g)) k of
        None \<Rightarrow> (Inl (LinkNotFound k), g)
      | Some l \<Rightarrow> (Inr l, log_graph e LinkRemoved [(''link_id'', PId k)]
              (on_schema (\<lambda>s. set_links (om_remove k (fs_links s)) s) g)))"

section \<open>Groups and subgraphs\<close>

definition add_group :: "env \<Rightarrow> group \<Rightarrow> 'j flow_graph \<Rightarrow> uuid \<times> 'j flow_graph" where
  "add_group e gr g =
     (gp_id gr, log_graph e GroupCreated [(''group_id'', PId (gp_id gr))]
        (on_schema (\<lambda>s. set_groups (om_insert (gp_id gr) gr (fs_groups s)) s) g))"

definition remove_group ::
  "env \<Rightarrow> uuid \<Rightarrow> 'j flow_graph \<Rightarrow> (flow_graph_error, group, 'j flow_graph) outcome" where
  "remove_group e k g =
     (case om_get (fs_groups (fg_schema g)) k of
        None \<Rightarrow> (Inl (GroupNotFound k), g)
      | Some gr \<Rightarrow> (Inr gr, log_graph e GroupRemoved [(''group_id'', PId k)]
              (on_schema (\<lambda>s. set_groups (om_remove k (fs_groups s)) s) g)))"

definition add_subgraph :: "env \<Rightarrow> 'j subgraph \<Rightarrow> 'j flow_graph \<Rightarrow> uuid \<times> 'j flow_graph" where
  "add_subgraph e sg g =
     (sg_id sg, log_graph e SubgraphCreated [(''subgraph_id'', PId (sg_id sg))]
        (on_schema (\<lambda>s. set_subgraphs (om_insert (sg_id sg) sg (fs_subgraphs s)) s) g))"

text \<open>Removing a subgraph appends nothing to the log.\<close>

definition remove_subgraph ::
  "uuid \<Rightarrow> 'j flow_graph \<Rightarrow> (flow_graph_error, 'j subgraph, 'j flow_graph) outcome" where
  "remove_subgraph k g =
     (case om_get (fs_subgraphs (fg_schema g)) k of
        None \<Rightarrow> (Inl (SubgraphNotFound k), g)
      | Some sg \<Rightarrow> (Inr sg, on_schema (\<lambda>s. set_subgraphs (om_remove k (fs_subgraphs s)) s) g))"

section \<open>Relations\<close>

definition add_relation ::
  "env \<Rightarrow> 'j node_relation \<Rightarrow> 'j flow_graph \<Rightarrow> (flow_graph_error, uuid, 'j flow_graph) outcome" where
  "add_relation e r g =
     (if \<not> om_contains (fs_nodes (fg_schema g)) (nr_from_node r)
      then (Inl (NodeNotFound (nr_from_node r)), g)
      else if \<not> om_contains (fs_nodes (fg_schema g)) (nr_to_node r)
      then (Inl (NodeNotFound (nr_to_node r)), g)
      else (Inr (nr_id r), log_graph e NodeRelationCreated [(''relation_id'', PId (nr_id r))]
              (on_schema (\<lambda>s. set_relations (om_insert (nr_id r) r (fs_relations s)) s) g)))"

definition remove_relation ::
  "env \<Rightarrow> uuid \<Rightarrow> 'j flow_graph \<Rightarrow> (flow_graph_error, 'j node_relation, 'j flow_graph) outcome" where
  "remove_relation e k g =
     (case om_get (fs_relations (fg_schema g)) k of
        None \<Rightarrow> (Inl (RelationNotFound k), g)
      | Some r \<Rightarrow> (Inr r, log_graph e NodeRelationRemoved [(''relation_id'', PId k)]
              (on_schema (\<lambda>s. set_relations (om_remove k (fs_relations s)) s) g)))"

definition relations_for_node :: "'j flow_graph \<Rightarrow> uuid \<Rightarrow> 'j node_relation list" where
  "relations_for_node g n =
     filter (\<lambda>r. nr_from_node r = n \<or> nr_to_node r = n) (om_values (fs_relations (fg_schema g)))"

definition outgoing_relations :: "'j flow_graph \<Rightarrow> uuid \<Rightarrow> 'j node_relation list" where
  "outgoing_relations g n =
     filter (\<lambda>r. nr_from_node r = n) (om_values (fs_relations (fg_schema g)))"

definition incoming_relations :: "'j flow_graph \<Rightarrow> uuid \<Rightarrow> 'j node_relation list" where
  "incoming_relations g n =
     filter (\<lambda>r. nr_to_node r = n) (om_values (fs_relations (fg_schema g)))"

definition execution_state :: "'j flow_graph \<Rightarrow> uuid \<Rightarrow> 'j node_execution_state option" where
  "execution_state g n = fg_execution_states g n"

definition execution_contract ::
  "'j flow_graph \<Rightarrow> uuid \<Rightarrow> flow_graph_error + 'j node_execution_contract" where
  "execution_contract g n =
     (if \<not> om_contains (fs_nodes (fg_schema g)) n then Inl (NodeNotFound n)
      else Inr (new_contract n (fg_dimension_id g) (fg_task_id g)))"

section \<open>Patches\<close>

datatype 'j graph_patch_op =
    AddNode "'j graph_node"
  | RemoveNode uuid
  | UpdateNodeLabel uuid string
  | UpdateNodeParams uuid "string \<rightharpoonup> 'j"
  | MoveNode uuid "f64 \<times> f64"
  | AddLink link
  | RemoveLink uuid
  | AddGroup group
  | RemoveGroup uuid
  | AddNodeToGroup uuid uuid
  | RemoveNodeFromGroup uuid uuid
  | AddSubgraph "'j subgraph"
  | RemoveSubgraph uuid

record 'j graph_patch =
  pt_id :: uuid
  pt_author :: string
  pt_created_at_ms :: u64
  pt_ops :: "'j graph_patch_op list"

definition new_patch :: "uuid \<Rightarrow> u64 \<Rightarrow> string \<Rightarrow> 'j graph_patch_op list \<Rightarrow> 'j graph_patch" where
  "new_patch fresh now author ops =
     \<lparr>pt_id = fresh, pt_author = author, pt_created_at_ms = now, pt_ops = ops\<rparr>"

definition already_exists :: "string \<Rightarrow> uuid \<Rightarrow> flow_graph_error" where
  "already_exists what k = InvalidPatch [MText what, MId k, MText '' already exists'']"

text \<open>A change of one node in place, through \<open>get_mut\<close>.\<close>

definition update_node ::
  "uuid \<Rightarrow> ('j graph_node \<Rightarrow> 'j graph_node) \<Rightarrow> 'j flow_graph_schema
     \<Rightarrow> flow_graph_error + 'j flow_graph_schema" where
  "update_node n f s =
     (case om_get (fs_nodes s) n of
        None \<Rightarrow> Inl (NodeNotFound n)
      | Some node \<Rightarrow> Inr (set_nodes (om_insert n (f node) (fs_nodes s)) s))"

definition update_group ::
  "uuid \<Rightarrow> (group \<Rightarrow> group) \<Rightarrow> 'j flow_graph_schema \<Rightarrow> flow_graph_error + 'j flow_graph_schema" where
  "update_group k f s =
     (case om_get (fs_groups s) k of
        None \<Rightarrow> Inl (GroupNotFound k)
      | Some gr \<Rightarrow> Inr (set_groups (om_insert k (f gr) (fs_groups s)) s))"

fun apply_op_to_schema ::
  "'j graph_patch_op \<Rightarrow> 'j flow_graph_schema \<Rightarrow> flow_graph_error + 'j flow_graph_schema" where
  "apply_op_to_schema (AddNode node) s =
     (if om_contains (fs_nodes s) (gn_id node) then Inl (already_exists ''node '' (gn_id node))
      else Inr (set_nodes (om_insert (gn_id node) node (fs_nodes s)) s))"
| "apply_op_to_schema (RemoveNode n) s =
     (if \<not> om_contains (fs_nodes s) n then Inl (NodeNotFound n)
      else Inr (set_groups (drop_from_groups n (fs_groups s))
                 (set_links (drop_links_of n (fs_links s))
                   (set_nodes (om_remove n (fs_nodes s)) s))))"
| "apply_op_to_schema (UpdateNodeLabel n new_label) s =
     update_node n (\<lambda>node. node\<lparr>gn_label := new_label\<rparr>) s"
| "apply_op_to_schema (UpdateNodeParams n params) s =
     update_node n (\<lambda>node. node\<lparr>gn_parameters := gn_parameters node ++ params\<rparr>) s"
| "apply_op_to_schema (MoveNode n pos) s =
     update_node n (\<lambda>node. node\<lparr>gn_position := pos\<rparr>) s"
| "apply_op_to_schema (AddLink l) s =
     (if om_contains (fs_links s) (ln_id l) then Inl (already_exists ''link '' (ln_id l))
      else Inr (set_links (om_insert (ln_id l) l (fs_links s)) s))"
| "apply_op_to_schema (RemoveLink k) s =
     (if \<not> om_contains (fs_links s) k then Inl (LinkNotFound k)
      else Inr (set_links (om_remove k (fs_links s)) s))"
| "apply_op_to_schema (AddGroup gr) s =
     (if om_contains (fs_groups s) (gp_id gr) then Inl (already_exists ''group '' (gp_id gr))
      else Inr (set_groups (om_insert (gp_id gr) gr (fs_groups s)) s))"
| "apply_op_to_schema (RemoveGroup k) s =
     (if \<not> om_contains (fs_groups s) k then Inl (GroupNotFound k)
      else Inr (set_groups (om_remove k (fs_groups s)) s))"
| "apply_op_to_schema (AddNodeToGroup n k) s =
     update_group k (\<lambda>gr. gr\<lparr>gp_node_ids := insert n (gp_node_ids gr)\<rparr>) s"
| "apply_op_to_schema (RemoveNodeFromGroup n k) s =
     update_group k (\<lambda>gr. gr\<lparr>gp_node_ids := gp_node_ids gr - {n}\<rparr>) s"
| "apply_op_to_schema (AddSubgraph sg) s =
     (if om_contains (fs_subgraphs s) (sg_id sg) then Inl (already_exists ''subgraph '' (sg_id sg))
      else Inr (set_subgraphs (om_insert (sg_id sg) sg (fs_subgraphs s)) s))"
| "apply_op_to_schema (RemoveSubgraph k) s =
     (if \<not> om_contains (fs_subgraphs s) k then Inl (SubgraphNotFound k)
      else Inr (set_subgraphs (om_remove k (fs_subgraphs s)) s))"

text \<open>The loop of \<open>apply_patch\<close> over the working copy.\<close>

fun apply_ops ::
  "'j graph_patch_op list \<Rightarrow> 'j flow_graph_schema \<Rightarrow> flow_graph_error + 'j flow_graph_schema" where
  "apply_ops [] s = Inr s"
| "apply_ops (op # ops) s =
     (case apply_op_to_schema op s of Inl err \<Rightarrow> Inl err | Inr s' \<Rightarrow> apply_ops ops s')"

definition apply_patch ::
  "env \<Rightarrow> 'j graph_patch \<Rightarrow> 'j flow_graph \<Rightarrow> (flow_graph_error, unit, 'j flow_graph) outcome" where
  "apply_patch e p g =
     (case apply_ops (pt_ops p) (fg_schema g) of
        Inl err \<Rightarrow>
          (Inl (InvalidPatch [MText ''patch '', MId (pt_id p), MText '' op failed: '', MError err]), g)
      | Inr working \<Rightarrow>
          (Inr (), log_graph e GraphPatched
             [(''patch_id'', PId (pt_id p)), (''author'', PText (pt_author p)),
              (''op_count'', PNum (of_nat (List.length (pt_ops p))))]
             (g\<lparr>fg_schema := working\<rparr>)))"

section \<open>Diff\<close>

definition diff_added :: "('v \<Rightarrow> 'op) \<Rightarrow> (uuid, 'v) om \<Rightarrow> (uuid, 'v) om \<Rightarrow> 'op list" where
  "diff_added add from_map to_map =
     map (\<lambda>(k, v). add v) (filter (\<lambda>(k, v). \<not> om_contains from_map k) to_map)"

definition diff_removed :: "(uuid \<Rightarrow> 'op) \<Rightarrow> (uuid, 'v) om \<Rightarrow> (uuid, 'v) om \<Rightarrow> 'op list" where
  "diff_removed remove from_map to_map =
     map remove (filter (\<lambda>k. \<not> om_contains to_map k) (om_keys from_map))"

definition diff_ops :: "'j flow_graph_schema \<Rightarrow> 'j flow_graph_schema \<Rightarrow> 'j graph_patch_op list" where
  "diff_ops from_schema to_schema =
     diff_added AddNode (fs_nodes from_schema) (fs_nodes to_schema)
     @ diff_removed RemoveNode (fs_nodes from_schema) (fs_nodes to_schema)
     @ diff_added AddLink (fs_links from_schema) (fs_links to_schema)
     @ diff_removed RemoveLink (fs_links from_schema) (fs_links to_schema)
     @ diff_added AddGroup (fs_groups from_schema) (fs_groups to_schema)
     @ diff_removed RemoveGroup (fs_groups from_schema) (fs_groups to_schema)
     @ diff_added AddSubgraph (fs_subgraphs from_schema) (fs_subgraphs to_schema)
     @ diff_removed RemoveSubgraph (fs_subgraphs from_schema) (fs_subgraphs to_schema)"

definition compute_diff ::
  "uuid \<Rightarrow> u64 \<Rightarrow> 'j flow_graph_schema \<Rightarrow> 'j flow_graph_schema \<Rightarrow> string \<Rightarrow> 'j graph_patch" where
  "compute_diff fresh now from_schema to_schema author =
     new_patch fresh now author (diff_ops from_schema to_schema)"

section \<open>Adjacency\<close>

text \<open>
  \<open>adjacency_list\<close>: the targets of the links of each source, in the order of the link
  identifiers. The code keeps it in a \<open>HashMap\<close>; it iterates over the values only to count.
\<close>

definition adjacency_list :: "'j flow_graph_schema \<Rightarrow> (uuid, uuid list) om" where
  "adjacency_list s =
     fold (\<lambda>l adj.
         let targets = (case om_get adj (ln_source_node l) of None \<Rightarrow> [] | Some ts \<Rightarrow> ts)
         in om_insert (ln_source_node l) (targets @ [ln_target_node l]) adj)
       (om_values (fs_links s)) (map (\<lambda>k. (k, [])) (om_keys (fs_nodes s)))"

end
