(* ===== verification/Graph_Cycle.thy ===== *)
theory Graph_Cycle
  imports Graph_Ops
begin

text \<open>
  \<open>detect_cycle\<close> (\<open>graph.rs\<close>): a depth-first search with three colours, stated with fuel that
  bounds the recursion depth, the proof that the number of nodes and links is fuel enough, and
  the proof that the search finds a cycle exactly when there is one. The search itself is stated
  over any type of node, so that the cycle check of \<open>ify-quality\<close> can be refined to it.
\<close>

section \<open>The search\<close>

type_synonym 'k adjacency = "('k, 'k list) om"
type_synonym 'k dfs_state = "('k \<rightharpoonup> u8) \<times> 'k list"

text \<open>0 is unvisited, 1 is on the stack, 2 is done.\<close>

definition colour_of :: "('k \<rightharpoonup> u8) \<Rightarrow> 'k \<Rightarrow> u8" where
  "colour_of colour n = (case colour n of None \<Rightarrow> 0 | Some c \<Rightarrow> c)"

definition cycle_at :: "'k list \<Rightarrow> 'k \<Rightarrow> 'k list" where
  "cycle_at stack next =
     drop (case position (\<lambda>n. n = next) stack of None \<Rightarrow> 0 | Some i \<Rightarrow> i) stack @ [next]"

text \<open>
  The loop over the neighbours; \<open>dfs\<close> is the recursive call. The result is \<open>None\<close> when the fuel
  runs out, \<open>Inl\<close> the cycle of \<open>CycleDetected\<close>, or \<open>Inr\<close> the colours and the stack.
\<close>

fun visit ::
  "('k \<Rightarrow> 'k dfs_state \<Rightarrow> ('k list + 'k dfs_state) option) \<Rightarrow> 'k list \<Rightarrow> 'k dfs_state
     \<Rightarrow> ('k list + 'k dfs_state) option" where
  "visit dfs [] st = Some (Inr st)"
| "visit dfs (next # ns) (colour, stack) =
     (if colour_of colour next = 1 then Some (Inl (cycle_at stack next))
      else if colour_of colour next = 0 then
        (case dfs next (colour, stack) of
           None \<Rightarrow> None
         | Some (Inl cycle) \<Rightarrow> Some (Inl cycle)
         | Some (Inr st) \<Rightarrow> visit dfs ns st)
      else visit dfs ns (colour, stack))"

primrec dfs_cycle ::
  "nat \<Rightarrow> 'k adjacency \<Rightarrow> 'k \<Rightarrow> 'k dfs_state \<Rightarrow> ('k list + 'k dfs_state) option" where
  "dfs_cycle 0 = (\<lambda>adj node st. None)"
| "dfs_cycle (Suc fuel) = (\<lambda>adj node (colour, stack).
     let entered = (colour(node \<mapsto> 1), stack @ [node]);
         visited = (case om_get adj node of
                      None \<Rightarrow> Some (Inr entered)
                    | Some neighbours \<Rightarrow> visit (dfs_cycle fuel adj) neighbours entered)
     in case visited of
          None \<Rightarrow> None
        | Some (Inl cycle) \<Rightarrow> Some (Inl cycle)
        | Some (Inr (colour', stack')) \<Rightarrow> Some (Inr (colour'(node \<mapsto> 2), butlast stack')))"

fun detect_from ::
  "nat \<Rightarrow> 'k adjacency \<Rightarrow> 'k list \<Rightarrow> 'k dfs_state \<Rightarrow> ('k list + 'k dfs_state) option" where
  "detect_from fuel adj [] st = Some (Inr st)"
| "detect_from fuel adj (start # ids) (colour, stack) =
     (if colour_of colour start = 0 then
        (case dfs_cycle fuel adj start (colour, stack) of
           None \<Rightarrow> None
         | Some (Inl cycle) \<Rightarrow> Some (Inl cycle)
         | Some (Inr st) \<Rightarrow> detect_from fuel adj ids st)
      else detect_from fuel adj ids (colour, stack))"

definition cycle_fuel :: "'j flow_graph_schema \<Rightarrow> nat" where
  "cycle_fuel s = List.length (fs_nodes s) + List.length (fs_links s)"

definition detect_cycle :: "nat \<Rightarrow> 'j flow_graph_schema \<Rightarrow> (flow_graph_error + unit) option" where
  "detect_cycle fuel s =
     (let ids = om_keys (fs_nodes s) in
      case detect_from fuel (adjacency_list s) ids (map_of (map (\<lambda>k. (k, 0)) ids), []) of
        None \<Rightarrow> None
      | Some (Inl cycle) \<Rightarrow> Some (Inl (CycleDetected cycle))
      | Some (Inr st) \<Rightarrow> Some (Inr ()))"

section \<open>Edges and adjacency\<close>

definition edges :: "'j flow_graph_schema \<Rightarrow> (uuid \<times> uuid) set" where
  "edges s = {(ln_source_node l, ln_target_node l) | l. l \<in> set (om_values (fs_links s))}"

definition succs :: "'j flow_graph_schema \<Rightarrow> uuid \<Rightarrow> uuid list" where
  "succs s n = map ln_target_node (filter (\<lambda>l. ln_source_node l = n) (om_values (fs_links s)))"

lemma set_succs: "set (succs s n) = {v. (n, v) \<in> edges s}"
  by (auto simp: succs_def edges_def)

lemma om_ok_const_keys: "om_ok m \<Longrightarrow> om_ok (map (\<lambda>k. (k, v)) (om_keys m))"
  by (simp add: om_ok_def comp_def)

lemma om_get_const: "om_get (map (\<lambda>k. (k, v)) ks) n = (if n \<in> set ks then Some v else None)"
  by (induction ks) auto

lemma adjacency_fold:
  assumes "om_ok adj"
  defines "f \<equiv> fold (\<lambda>l adj.
         let targets = (case om_get adj (ln_source_node l) of None \<Rightarrow> [] | Some ts \<Rightarrow> ts)
         in om_insert (ln_source_node l) (targets @ [ln_target_node l]) adj)"
  shows "om_ok (f ls adj) \<and> om_get (f ls adj) n =
     (if om_get adj n = None \<and> n \<notin> ln_source_node ` set ls then None
      else Some ((case om_get adj n of None \<Rightarrow> [] | Some ts \<Rightarrow> ts)
                   @ map ln_target_node (filter (\<lambda>l. ln_source_node l = n) ls)))"
  using assms(1)
proof (induction ls arbitrary: adj)
  case Nil
  then show ?case by (simp add: f_def split: option.split)
next
  case (Cons l ls)
  let ?adj' = "om_insert (ln_source_node l)
    ((case om_get adj (ln_source_node l) of None \<Rightarrow> [] | Some ts \<Rightarrow> ts) @ [ln_target_node l]) adj"
  have step: "f (l # ls) adj = f ls ?adj'" by (simp add: f_def Let_def)
  have ok: "om_ok ?adj'" using Cons.prems by (rule om_insert_ok)
  show ?case
    unfolding step
    using Cons.IH [OF ok] om_get_insert [OF Cons.prems, of "ln_source_node l"
        "(case om_get adj (ln_source_node l) of None \<Rightarrow> [] | Some ts \<Rightarrow> ts) @ [ln_target_node l]"]
    by (auto split: option.split)
qed

lemma adjacency_list_get:
  assumes "om_ok (fs_nodes s)"
  shows "om_ok (adjacency_list s)"
    "om_get (adjacency_list s) n =
      (if n \<in> set (om_keys (fs_nodes s)) \<or> n \<in> ln_source_node ` set (om_values (fs_links s))
       then Some (succs s n) else None)"
proof -
  have keys: "om_get (map (\<lambda>k. (k, [])) (om_keys (fs_nodes s))) n =
      (if n \<in> set (om_keys (fs_nodes s)) then Some [] else None)"
    by (rule om_get_const)
  note fold = adjacency_fold [OF om_ok_const_keys [OF assms, of "[]"], where n = n
      and ls = "om_values (fs_links s)"]
  show "om_ok (adjacency_list s)" using fold by (simp add: adjacency_list_def)
  show "om_get (adjacency_list s) n =
      (if n \<in> set (om_keys (fs_nodes s)) \<or> n \<in> ln_source_node ` set (om_values (fs_links s))
       then Some (succs s n) else None)"
    using fold unfolding adjacency_list_def keys succs_def by (auto simp del: map_map)
qed

definition adj_of :: "'k adjacency \<Rightarrow> 'k \<Rightarrow> 'k list" where
  "adj_of adj n = (case om_get adj n of None \<Rightarrow> [] | Some ns \<Rightarrow> ns)"

lemma adj_of_adjacency_list:
  assumes "om_ok (fs_nodes s)"
  shows "adj_of (adjacency_list s) n = succs s n"
proof (cases "n \<in> ln_source_node ` set (om_values (fs_links s))")
  case True
  then show ?thesis by (simp add: adj_of_def adjacency_list_get [OF assms])
next
  case False
  then have "succs s n = []" by (auto simp: succs_def filter_empty_conv)
  then show ?thesis by (simp add: adj_of_def adjacency_list_get [OF assms])
qed

section \<open>Correctness of the search\<close>

definition adj_edges :: "'k adjacency \<Rightarrow> ('k \<times> 'k) set" where
  "adj_edges adj = {(u, v). v \<in> set (adj_of adj u)}"

definition closed_walk :: "('k \<times> 'k) set \<Rightarrow> 'k list \<Rightarrow> bool" where
  "closed_walk E xs =
     (2 \<le> List.length xs \<and> hd xs = last xs \<and> successively (\<lambda>u v. (u, v) \<in> E) xs)"

definition greys :: "('k \<rightharpoonup> u8) \<Rightarrow> 'k set" where
  "greys c = {n. colour_of c n = 1}"

definition blacks :: "('k \<rightharpoonup> u8) \<Rightarrow> 'k set" where
  "blacks c = {n. colour_of c n \<noteq> 0 \<and> colour_of c n \<noteq> 1}"

definition whites :: "'k set \<Rightarrow> ('k \<rightharpoonup> u8) \<Rightarrow> 'k set" where
  "whites U c = {n \<in> U. colour_of c n = 0}"

definition dfs_inv :: "'k adjacency \<Rightarrow> 'k dfs_state \<Rightarrow> bool" where
  "dfs_inv adj = (\<lambda>(c, stack).
     set stack = greys c \<and> distinct stack \<and> successively (\<lambda>u v. (u, v) \<in> adj_edges adj) stack \<and>
     adj_edges adj `` blacks c \<subseteq> blacks c \<and> acyclic (adj_edges adj \<inter> blacks c \<times> blacks c))"

text \<open>What a successful (part of the) search leaves behind.\<close>

definition dfs_post :: "'k adjacency \<Rightarrow> 'k set \<Rightarrow> 'k set \<Rightarrow> 'k dfs_state \<Rightarrow> 'k dfs_state \<Rightarrow> bool" where
  "dfs_post adj U D st st' =
     (snd st' = snd st \<and> dfs_inv adj st' \<and> blacks (fst st) \<union> D \<subseteq> blacks (fst st') \<and>
      whites U (fst st') \<subseteq> whites U (fst st))"

lemma colour_of_upd [simp]: "colour_of (c(n \<mapsto> k)) m = (if m = n then k else colour_of c m)"
  by (simp add: colour_of_def)

lemma acyclic_add_source:
  assumes ac: "acyclic (E \<inter> B \<times> B)" and closed: "E `` B \<subseteq> B" and new: "n \<notin> B" "E `` {n} \<subseteq> B"
  shows "acyclic (E \<inter> insert n B \<times> insert n B)"
proof -
  let ?R = "E \<inter> insert n B \<times> insert n B"
  have no_in: "v \<in> B" if "(u, v) \<in> ?R" for u v using that closed new by auto
  have stays: "(x, y) \<in> (E \<inter> B \<times> B)\<^sup>+" if "(x, y) \<in> ?R\<^sup>+" "x \<in> B" for x y
    using that
  proof (induction rule: trancl_induct)
    case (base y)
    then show ?case using closed by (intro r_into_trancl) auto
  next
    case (step y z)
    then have "(x, y) \<in> (E \<inter> B \<times> B)\<^sup>+" by blast
    moreover from this have "y \<in> B" by (auto elim: tranclE)
    then have "(y, z) \<in> E \<inter> B \<times> B" using step.hyps(2) closed by auto
    ultimately show ?case by (rule trancl_into_trancl)
  qed
  have "(x, x) \<notin> ?R\<^sup>+" for x
  proof
    assume cyc: "(x, x) \<in> ?R\<^sup>+"
    then obtain w where "(w, x) \<in> ?R" by (auto elim: tranclE)
    then have "x \<in> B" by (rule no_in)
    with stays [OF cyc] ac show False by (simp add: acyclic_def)
  qed
  then show ?thesis by (simp add: acyclic_def)
qed

lemma cycle_at_walk:
  assumes "dfs_inv adj (c, stack)" "stack \<noteq> []" "colour_of c next = 1" "(last stack, next) \<in> adj_edges adj"
  shows "closed_walk (adj_edges adj) (cycle_at stack next)"
proof -
  from assms(1,3) have "next \<in> set stack" by (simp add: dfs_inv_def greys_def)
  then have "position (\<lambda>n. n = next) stack \<noteq> None" by (simp add: position_None)
  then obtain i where "position (\<lambda>n. n = next) stack = Some i" by auto
  moreover from position_Some [OF this] obtain ys zs where
    "stack = ys @ next # zs" "List.length ys = i" by blast
  ultimately have "cycle_at stack next = (next # zs) @ [next]" and split: "stack = ys @ next # zs"
    by (simp_all add: cycle_at_def)
  moreover have "successively (\<lambda>u v. (u, v) \<in> adj_edges adj) (next # zs)"
    using assms(1) split by (simp add: dfs_inv_def successively_append_iff)
  moreover have "last (next # zs) = last stack" using split by simp
  moreover have "successively (\<lambda>u v. (u, v) \<in> adj_edges adj) ((next # zs) @ [next])"
    using calculation(3,4) assms(4) unfolding successively_append_iff by simp
  ultimately show ?thesis by (simp add: closed_walk_def)
qed

text \<open>The contract of a call of the search with enough fuel, and of the loop over neighbours.\<close>

definition dfs_ok ::
  "'k adjacency \<Rightarrow> 'k set \<Rightarrow> nat \<Rightarrow> ('k \<Rightarrow> 'k dfs_state \<Rightarrow> ('k list + 'k dfs_state) option) \<Rightarrow> bool" where
  "dfs_ok adj U fuel dfs =
     (\<forall>node c stack.
        dfs_inv adj (c, stack) \<longrightarrow> node \<in> U \<longrightarrow> colour_of c node = 0 \<longrightarrow>
        (stack \<noteq> [] \<longrightarrow> (last stack, node) \<in> adj_edges adj) \<longrightarrow> card (whites U c) \<le> fuel \<longrightarrow>
        (case dfs node (c, stack) of
           None \<Rightarrow> False
         | Some (Inl cycle) \<Rightarrow> closed_walk (adj_edges adj) cycle
         | Some (Inr st') \<Rightarrow> dfs_post adj U {node} (c, stack) st'))"

lemma dfs_post_refl: "dfs_inv adj st \<Longrightarrow> dfs_post adj U {} st st"
  by (simp add: dfs_post_def)

lemma dfs_post_trans:
  "dfs_post adj U A st st1 \<Longrightarrow> dfs_post adj U B st1 st2 \<Longrightarrow> dfs_post adj U (A \<union> B) st st2"
  by (auto simp: dfs_post_def)

lemma visit_ok:
  assumes dfs: "dfs_ok adj U fuel dfs" and fin: "finite U" and stack: "stack \<noteq> []"
  shows "dfs_inv adj (c, stack) \<Longrightarrow> set ns \<subseteq> U \<Longrightarrow> set ns \<subseteq> adj_edges adj `` {last stack} \<Longrightarrow>
     card (whites U c) \<le> fuel \<Longrightarrow>
     (case visit dfs ns (c, stack) of
        None \<Rightarrow> False
      | Some (Inl cycle) \<Rightarrow> closed_walk (adj_edges adj) cycle
      | Some (Inr st') \<Rightarrow> dfs_post adj U (set ns) (c, stack) st')"
proof (induction ns arbitrary: c)
  case Nil
  then show ?case by (simp add: dfs_post_refl)
next
  case (Cons v ns)
  from Cons.prems(3) have edge: "(last stack, v) \<in> adj_edges adj" by auto
  consider (grey) "colour_of c v = 1" | (white) "colour_of c v = 0"
    | (black) "colour_of c v \<noteq> 0" "colour_of c v \<noteq> 1" by blast
  then show ?case
  proof cases
    case grey
    then show ?thesis using cycle_at_walk [OF Cons.prems(1) stack grey edge] by simp
  next
    case black
    then have "v \<in> blacks c" by (simp add: blacks_def)
    moreover have "case visit dfs ns (c, stack) of
        None \<Rightarrow> False
      | Some (Inl cycle) \<Rightarrow> closed_walk (adj_edges adj) cycle
      | Some (Inr st') \<Rightarrow> dfs_post adj U (set ns) (c, stack) st'"
      using Cons.prems by (intro Cons.IH) auto
    ultimately show ?thesis using black
      by (auto simp: dfs_post_def split: option.splits sum.splits)
  next
    case white
    have call: "case dfs v (c, stack) of
           None \<Rightarrow> False
         | Some (Inl cycle) \<Rightarrow> closed_walk (adj_edges adj) cycle
         | Some (Inr st') \<Rightarrow> dfs_post adj U {v} (c, stack) st'"
      using dfs Cons.prems white edge unfolding dfs_ok_def by simp
    show ?thesis
    proof (cases "dfs v (c, stack)")
      case None
      with call show ?thesis by simp
    next
      case (Some r)
      show ?thesis
      proof (cases r)
        case (Inl cycle)
        with Some call white show ?thesis by simp
      next
        case (Inr st1)
        obtain c1 stack1 where st1: "st1 = (c1, stack1)" by (cases st1)
        from call Some Inr have post: "dfs_post adj U {v} (c, stack) (c1, stack1)"
          by (simp add: st1)
        then have eq: "stack1 = stack" by (simp add: dfs_post_def)
        with post have inv1: "dfs_inv adj (c1, stack)" and sub: "whites U c1 \<subseteq> whites U c"
          by (simp_all add: dfs_post_def)
        have "card (whites U c1) \<le> fuel"
          using card_mono [OF _ sub] fin Cons.prems(4) by (simp add: whites_def)
        then have "case visit dfs ns (c1, stack) of
            None \<Rightarrow> False
          | Some (Inl cycle) \<Rightarrow> closed_walk (adj_edges adj) cycle
          | Some (Inr st') \<Rightarrow> dfs_post adj U (set ns) (c1, stack) st'"
          using Cons.prems inv1 by (intro Cons.IH) auto
        then show ?thesis
          using white Some Inr st1 eq dfs_post_trans [OF post, of "set ns"]
          by (auto split: option.splits sum.splits)
      qed
    qed
  qed
qed

lemma dfs_inv_enter:
  assumes inv: "dfs_inv adj (c, stack)" and white: "colour_of c node = 0"
    and edge: "stack \<noteq> [] \<Longrightarrow> (last stack, node) \<in> adj_edges adj"
  shows "dfs_inv adj (c(node \<mapsto> 1), stack @ [node])"
proof -
  have "node \<notin> set stack" "node \<notin> blacks c"
    using inv white by (auto simp: dfs_inv_def greys_def blacks_def)
  moreover have "greys (c(node \<mapsto> 1)) = insert node (greys c)" by (auto simp: greys_def)
  moreover have "blacks (c(node \<mapsto> 1)) = blacks c" using white by (auto simp: blacks_def)
  ultimately show ?thesis
    using inv edge by (auto simp: dfs_inv_def successively_append_iff)
qed

lemma dfs_inv_leave:
  assumes inv: "dfs_inv adj (c, stack @ [node])" and succs: "adj_edges adj `` {node} \<subseteq> blacks c"
  shows "dfs_inv adj (c(node \<mapsto> 2), stack)" "blacks (c(node \<mapsto> 2)) = insert node (blacks c)"
proof -
  have grey: "node \<in> greys c" "node \<notin> set stack" using inv by (auto simp: dfs_inv_def)
  then have white: "node \<notin> blacks c" by (simp add: greys_def blacks_def)
  show b: "blacks (c(node \<mapsto> 2)) = insert node (blacks c)" by (auto simp: blacks_def)
  have g: "greys (c(node \<mapsto> 2)) = greys c - {node}" by (auto simp: greys_def)
  have "acyclic (adj_edges adj \<inter> insert node (blacks c) \<times> insert node (blacks c))"
    using inv by (intro acyclic_add_source [OF _ _ white succs]) (simp_all add: dfs_inv_def)
  then show "dfs_inv adj (c(node \<mapsto> 2), stack)"
    using inv grey succs by (auto simp: dfs_inv_def b g successively_append_iff)
qed

lemma dfs_cycle_ok:
  assumes fin: "finite U" and closed: "adj_edges adj `` U \<subseteq> U"
  shows "dfs_ok adj U fuel (dfs_cycle fuel adj)"
proof (induction fuel)
  case 0
  show ?case
    unfolding dfs_ok_def
  proof (intro allI impI)
    fix node c stack
    assume "node \<in> U" "colour_of c node = 0" "card (whites U c) \<le> 0"
    then have "node \<in> whites U c" "whites U c = {}" using fin by (simp_all add: whites_def)
    then show "case dfs_cycle 0 adj node (c, stack) of
           None \<Rightarrow> False
         | Some (Inl cycle) \<Rightarrow> closed_walk (adj_edges adj) cycle
         | Some (Inr st') \<Rightarrow> dfs_post adj U {node} (c, stack) st'"
      by simp
  qed
next
  case (Suc fuel)
  show ?case
    unfolding dfs_ok_def
  proof (intro allI impI)
    fix node c stack
    assume inv: "dfs_inv adj (c, stack)" and U: "node \<in> U" and white: "colour_of c node = 0"
      and edge: "stack \<noteq> [] \<longrightarrow> (last stack, node) \<in> adj_edges adj"
      and fuel: "card (whites U c) \<le> Suc fuel"
    let ?c = "c(node \<mapsto> 1)"
    have inv1: "dfs_inv adj (?c, stack @ [node])" using inv white edge by (intro dfs_inv_enter) auto
    have w1: "whites U ?c = whites U c - {node}" by (auto simp: whites_def)
    have "node \<in> whites U c" "finite (whites U c)" using U white fin by (simp_all add: whites_def)
    then have fuel1: "card (whites U ?c) \<le> fuel" using fuel by (simp add: w1)
    have ns: "set (adj_of adj node) = adj_edges adj `` {node}" by (auto simp: adj_edges_def)
    have visited: "(case om_get adj node of None \<Rightarrow> Some (Inr (?c, stack @ [node]))
        | Some neighbours \<Rightarrow> visit (dfs_cycle fuel adj) neighbours (?c, stack @ [node])) =
        visit (dfs_cycle fuel adj) (adj_of adj node) (?c, stack @ [node])"
      by (simp add: adj_of_def split: option.split)
    have loop: "case visit (dfs_cycle fuel adj) (adj_of adj node) (?c, stack @ [node]) of
        None \<Rightarrow> False
      | Some (Inl cycle) \<Rightarrow> closed_walk (adj_edges adj) cycle
      | Some (Inr st') \<Rightarrow> dfs_post adj U (set (adj_of adj node)) (?c, stack @ [node]) st'"
      using closed U ns inv1 fuel1 by (intro visit_ok [OF Suc.IH fin]) auto
    show "case dfs_cycle (Suc fuel) adj node (c, stack) of
           None \<Rightarrow> False
         | Some (Inl cycle) \<Rightarrow> closed_walk (adj_edges adj) cycle
         | Some (Inr st') \<Rightarrow> dfs_post adj U {node} (c, stack) st'"
    proof (cases "visit (dfs_cycle fuel adj) (adj_of adj node) (?c, stack @ [node])")
      case None
      with loop show ?thesis by simp
    next
      case (Some r)
      show ?thesis
      proof (cases r)
        case (Inl cycle)
        with Some loop show ?thesis by (simp add: Let_def visited)
      next
        case (Inr st1)
        obtain c1 stack1 where st1: "st1 = (c1, stack1)" by (cases st1)
        from loop Some Inr have post: "dfs_post adj U (adj_edges adj `` {node}) (?c, stack @ [node]) (c1, stack1)"
          by (simp add: st1 ns)
        then have eq: "stack1 = stack @ [node]" by (simp add: dfs_post_def)
        with post have inv2: "dfs_inv adj (c1, stack @ [node])" and b: "blacks ?c \<subseteq> blacks c1"
          and s: "adj_edges adj `` {node} \<subseteq> blacks c1" and w: "whites U c1 \<subseteq> whites U ?c"
          by (simp_all add: dfs_post_def)
        have "blacks ?c = blacks c" using white by (auto simp: blacks_def)
        with b dfs_inv_leave [OF inv2 s] w w1
        have "dfs_post adj U {node} (c, stack) (c1(node \<mapsto> 2), stack)"
          by (auto simp: dfs_post_def whites_def)
        then show ?thesis using Some Inr st1 eq by (simp add: Let_def visited)
      qed
    qed
  qed
qed

lemma detect_from_ok:
  assumes fin: "finite U" and closed: "adj_edges adj `` U \<subseteq> U" and fuel: "card U \<le> fuel"
  shows "dfs_inv adj (c, []) \<Longrightarrow> set ids \<subseteq> U \<Longrightarrow>
     (case detect_from fuel adj ids (c, []) of
        None \<Rightarrow> False
      | Some (Inl cycle) \<Rightarrow> closed_walk (adj_edges adj) cycle
      | Some (Inr (c', stack)) \<Rightarrow> dfs_inv adj (c', []) \<and> blacks c \<union> set ids \<subseteq> blacks c')"
proof (induction ids arbitrary: c)
  case Nil
  then show ?case by simp
next
  case (Cons v ids)
  show ?case
  proof (cases "colour_of c v = 0")
    case False
    have "greys c = {}" using Cons.prems(1) by (simp add: dfs_inv_def)
    with False have "v \<in> blacks c" by (auto simp: blacks_def greys_def)
    with Cons.IH [of c] Cons.prems False show ?thesis
      by (auto split: option.splits sum.splits)
  next
    case True
    have "card (whites U c) \<le> fuel"
      using card_mono [OF fin, of "whites U c"] fuel by (auto simp: whites_def)
    with dfs_cycle_ok [OF fin closed, of fuel] Cons.prems True
    have call: "case dfs_cycle fuel adj v (c, []) of
           None \<Rightarrow> False
         | Some (Inl cycle) \<Rightarrow> closed_walk (adj_edges adj) cycle
         | Some (Inr st') \<Rightarrow> dfs_post adj U {v} (c, []) st'"
      unfolding dfs_ok_def by simp
    show ?thesis
    proof (cases "dfs_cycle fuel adj v (c, [])")
      case None
      with call show ?thesis by simp
    next
      case (Some r)
      show ?thesis
      proof (cases r)
        case (Inl cycle)
        with Some call True show ?thesis by simp
      next
        case (Inr st1)
        obtain c1 stack1 where st1: "st1 = (c1, stack1)" by (cases st1)
        from call Some Inr have post: "dfs_post adj U {v} (c, []) (c1, stack1)" by (simp add: st1)
        then have eq: "stack1 = []" by (simp add: dfs_post_def)
        with post have "dfs_inv adj (c1, [])" and b: "blacks c \<union> {v} \<subseteq> blacks c1"
          by (simp_all add: dfs_post_def)
        with Cons.IH [of c1] Cons.prems(2) have "case detect_from fuel adj ids (c1, []) of
            None \<Rightarrow> False
          | Some (Inl cycle) \<Rightarrow> closed_walk (adj_edges adj) cycle
          | Some (Inr (c', stack)) \<Rightarrow> dfs_inv adj (c', []) \<and> blacks c1 \<union> set ids \<subseteq> blacks c'"
          by simp
        with b True Some Inr st1 eq show ?thesis
          by (auto split: option.splits sum.splits)
      qed
    qed
  qed
qed

section \<open>Where the search goes\<close>

text \<open>The search stays within any set that holds its start and is closed under the links.\<close>

definition stays_in :: "'k set \<Rightarrow> 'k list + 'k dfs_state \<Rightarrow> bool" where
  "stays_in R r = (case r of Inl cycle \<Rightarrow> set cycle \<subseteq> R | Inr (c, stack) \<Rightarrow> set stack \<subseteq> R)"

lemma visit_stays:
  assumes dfs: "\<And>node c stack r. node \<in> R \<Longrightarrow> set stack \<subseteq> R \<Longrightarrow> dfs node (c, stack) = Some r \<Longrightarrow> stays_in R r"
  shows "set ns \<subseteq> R \<Longrightarrow> set stack \<subseteq> R \<Longrightarrow> visit dfs ns (c, stack) = Some r \<Longrightarrow> stays_in R r"
proof (induction ns arbitrary: c stack)
  case Nil
  then show ?case by (auto simp: stays_in_def)
next
  case (Cons v ns)
  have walk: "set (cycle_at stack v) \<subseteq> R"
    using Cons.prems(1,2) set_drop_subset unfolding cycle_at_def by fastforce
  show ?case
  proof (cases "colour_of c v = 0")
    case False
    then show ?thesis
      using Cons.prems Cons.IH [of stack c] walk by (auto simp: stays_in_def split: if_splits)
  next
    case True
    with Cons.prems obtain q where q: "dfs v (c, stack) = Some q" by (auto split: option.splits)
    have "stays_in R q" using dfs [OF _ Cons.prems(2) q] Cons.prems(1) by simp
    then show ?thesis
      using Cons.prems(1,3) True q Cons.IH
      by (cases q) (auto simp: stays_in_def)
  qed
qed

lemma dfs_cycle_stays:
  assumes closed: "adj_edges adj `` R \<subseteq> R"
  shows "node \<in> R \<Longrightarrow> set stack \<subseteq> R \<Longrightarrow> dfs_cycle fuel adj node (c, stack) = Some r \<Longrightarrow> stays_in R r"
proof (induction fuel arbitrary: node c stack r)
  case 0
  then show ?case by simp
next
  case (Suc fuel)
  let ?st = "(c(node \<mapsto> 1), stack @ [node])"
  have visited: "(case om_get adj node of None \<Rightarrow> Some (Inr ?st)
      | Some neighbours \<Rightarrow> visit (dfs_cycle fuel adj) neighbours ?st) =
      visit (dfs_cycle fuel adj) (adj_of adj node) ?st"
    by (simp add: adj_of_def split: option.split)
  have ns: "set (adj_of adj node) \<subseteq> R" using closed Suc.prems(1) by (auto simp: adj_edges_def)
  have entered: "set (stack @ [node]) \<subseteq> R" using Suc.prems(1,2) by simp
  have stays: "stays_in R q" if "visit (dfs_cycle fuel adj) (adj_of adj node) ?st = Some q" for q
    by (rule visit_stays [OF _ ns entered that]) (rule Suc.IH)
  from Suc.prems(3) obtain q where q: "visit (dfs_cycle fuel adj) (adj_of adj node) ?st = Some q"
    by (auto simp: visited Let_def split: option.splits)
  have "set (butlast b) \<subseteq> R" if "set b \<subseteq> R" for b
    using that in_set_butlastD by fast
  then show ?case
    using stays [OF q] Suc.prems(3) q
    by (cases q) (auto simp: visited Let_def stays_in_def)
qed

lemma detect_from_stays:
  assumes closed: "adj_edges adj `` R \<subseteq> R"
  shows "set ids \<subseteq> R \<Longrightarrow> set stack \<subseteq> R \<Longrightarrow> detect_from fuel adj ids (c, stack) = Some r \<Longrightarrow> stays_in R r"
proof (induction ids arbitrary: c stack)
  case Nil
  then show ?case by (auto simp: stays_in_def)
next
  case (Cons v ids)
  show ?case
  proof (cases "colour_of c v = 0")
    case False
    then show ?thesis using Cons by simp
  next
    case True
    with Cons.prems obtain q where q: "dfs_cycle fuel adj v (c, stack) = Some q" by (auto split: option.splits)
    have "stays_in R q" using dfs_cycle_stays [OF closed _ Cons.prems(2) q] Cons.prems(1) by simp
    then show ?thesis
      using Cons.prems(1,3) True q Cons.IH by (cases q) (auto simp: stays_in_def)
  qed
qed

section \<open>The whole search\<close>

definition node_set :: "'j flow_graph_schema \<Rightarrow> uuid set" where
  "node_set s = set (om_keys (fs_nodes s))"

text \<open>The links join nodes of the graph, and the nodes are in key order.\<close>

definition link_closed :: "'j flow_graph_schema \<Rightarrow> bool" where
  "link_closed s = (om_ok (fs_nodes s) \<and> edges s \<subseteq> node_set s \<times> node_set s)"

lemma closed_walk_cyclic: "closed_walk E xs \<Longrightarrow> \<not> acyclic E"
proof -
  assume w: "closed_walk E xs"
  then obtain x y ys where xs: "xs = x # y # ys" by (cases xs; cases "tl xs") (auto simp: closed_walk_def)
  have "successively (\<lambda>u v. (u, v) \<in> E) (z # zs) \<Longrightarrow> (z, last (z # zs)) \<in> E\<^sup>*" for z zs
    by (induction zs arbitrary: z) (auto simp: successively_Cons intro: converse_rtrancl_into_rtrancl)
  with w xs have "(y, x) \<in> E\<^sup>*" "(x, y) \<in> E" by (auto simp: closed_walk_def successively_Cons)
  then have "(x, x) \<in> E\<^sup>+" by (rule rtrancl_into_trancl2 [rotated])
  then show ?thesis by (auto simp: acyclic_def)
qed

lemma adj_edges_adjacency:
  "om_ok (fs_nodes s) \<Longrightarrow> adj_edges (adjacency_list s) = edges s"
  by (auto simp: adj_edges_def adj_of_adjacency_list set_succs)

lemma dfs_inv_start: "dfs_inv adj (map_of (map (\<lambda>k. (k, 0)) ids), [])"
proof -
  have "colour_of (map_of (map (\<lambda>k. (k, 0)) ids)) n = 0" for n
    by (simp add: colour_of_def om_get_const)
  then show ?thesis by (simp add: dfs_inv_def greys_def blacks_def acyclic_def)
qed

lemma closed_walk_within:
  "closed_walk E xs \<Longrightarrow> set xs \<subseteq> R \<Longrightarrow> closed_walk (E \<inter> R \<times> R) xs"
  by (auto simp: closed_walk_def elim!: successively_mono)

text \<open>What can be reached along links from the nodes; a patched graph can have links elsewhere.\<close>

definition reach :: "'j flow_graph_schema \<Rightarrow> uuid set" where
  "reach s = (edges s)\<^sup>* `` node_set s"

lemma reach_closed: "edges s `` reach s \<subseteq> reach s"
  by (auto simp: reach_def intro: rtrancl_into_rtrancl)

lemma reach_least: "node_set s \<subseteq> B \<Longrightarrow> edges s `` B \<subseteq> B \<Longrightarrow> reach s \<subseteq> B"
  unfolding reach_def using Image_closed_trancl by blast

lemma reach_nodes: "node_set s \<subseteq> reach s"
  by (auto simp: reach_def)

text \<open>With the fuel of \<open>cycle_fuel\<close> or more the search ends, whatever the graph.\<close>

lemma detect_cycle_total:
  assumes ok: "om_ok (fs_nodes s)" and fuel: "cycle_fuel s \<le> fuel"
  obtains (cycle) c where "detect_cycle fuel s = Some (Inl (CycleDetected c))" "closed_walk (edges s) c"
      "set c \<subseteq> reach s"
    | (none) "detect_cycle fuel s = Some (Inr ())" "link_closed s \<Longrightarrow> acyclic (edges s)"
      "acyclic (edges s \<inter> reach s \<times> reach s)"
proof -
  let ?adj = "adjacency_list s" and ?ids = "om_keys (fs_nodes s)"
  let ?U = "set (?ids @ map ln_target_node (om_values (fs_links s)))"
  let ?c = "map_of (map (\<lambda>k. (k, 0)) ?ids) :: uuid \<rightharpoonup> u8"
  have E: "adj_edges ?adj = edges s" by (rule adj_edges_adjacency [OF ok])
  have "edges s `` ?U \<subseteq> ?U" by (auto simp: edges_def)
  moreover have "card ?U \<le> List.length (?ids @ map ln_target_node (om_values (fs_links s)))"
    by (rule card_length)
  then have "card ?U \<le> fuel" using fuel by (simp add: cycle_fuel_def)
  ultimately have res: "case detect_from fuel ?adj ?ids (?c, []) of
        None \<Rightarrow> False
      | Some (Inl cycle) \<Rightarrow> closed_walk (edges s) cycle
      | Some (Inr (c', stack)) \<Rightarrow> dfs_inv ?adj (c', []) \<and> blacks ?c \<union> set ?ids \<subseteq> blacks c'"
    unfolding E [symmetric] by (intro detect_from_ok [OF _ _ _ dfs_inv_start]) auto
  show thesis
  proof (cases "detect_from fuel ?adj ?ids (?c, [])")
    case None
    with res show thesis by simp
  next
    case (Some r)
    show thesis
    proof (cases r)
      case (Inl c)
      have "set ?ids \<subseteq> reach s" using reach_nodes by (simp add: node_set_def)
      then have "stays_in (reach s) r"
        using detect_from_stays [OF _ _ _ Some] reach_closed [of s] by (simp add: E)
      with Inl Some res show thesis by (intro cycle [of c]) (simp_all add: detect_cycle_def stays_in_def)
    next
      case (Inr st)
      obtain c' stack where st: "st = (c', stack)" by (cases st)
      from res Some Inr st have inv: "dfs_inv ?adj (c', [])" and b: "set ?ids \<subseteq> blacks c'" by simp_all
      have "acyclic (edges s)" if "link_closed s"
      proof -
        have "edges s \<subseteq> blacks c' \<times> blacks c'"
          using that b unfolding link_closed_def node_set_def by blast
        then have "edges s \<inter> blacks c' \<times> blacks c' = edges s" by blast
        with inv show ?thesis by (simp add: dfs_inv_def E)
      qed
      moreover have "acyclic (edges s \<inter> reach s \<times> reach s)"
      proof -
        have "reach s \<subseteq> blacks c'"
          using inv b by (intro reach_least) (simp_all add: dfs_inv_def E node_set_def)
        then have "edges s \<inter> reach s \<times> reach s \<subseteq> edges s \<inter> blacks c' \<times> blacks c'" by blast
        moreover have "acyclic (edges s \<inter> blacks c' \<times> blacks c')" using inv by (simp add: dfs_inv_def E)
        ultimately show ?thesis using acyclic_subset by blast
      qed
      ultimately show thesis using Some Inr by (intro none) (simp_all add: detect_cycle_def)
    qed
  qed
qed

lemma detect_cycle_iff:
  assumes "link_closed s" "cycle_fuel s \<le> fuel"
  shows "detect_cycle fuel s = Some (Inr ()) \<longleftrightarrow> acyclic (edges s)"
  by (rule detect_cycle_total [of s fuel])
    (use assms closed_walk_cyclic in \<open>auto simp: link_closed_def\<close>)

end
