(* ===== verification/Graph_Order.thy ===== *)
theory Graph_Order
  imports Graph_Cycle
begin

text \<open>
  \<open>topological_order\<close> (\<open>graph.rs\<close>): Kahn's algorithm. The loop is a \<open>partial_function\<close>, so that
  not returning is \<open>None\<close>; \<open>None\<close> is also the panic of an in-degree that would fall below zero.
  The proofs show that on a graph whose links join its nodes neither happens, and that the result
  is an execution order exactly when the links have no cycle.
\<close>

section \<open>The algorithm\<close>

definition degree_of :: "(uuid, nat) om \<Rightarrow> uuid \<Rightarrow> nat" where
  "degree_of d v = (case om_get d v of None \<Rightarrow> 0 | Some n \<Rightarrow> n)"

definition in_degrees :: "'j flow_graph_schema \<Rightarrow> (uuid, nat) om" where
  "in_degrees s =
     fold (fold (\<lambda>tgt d. om_insert tgt (degree_of d tgt + 1) d)) (om_values (adjacency_list s))
       (map (\<lambda>k. (k, 0)) (om_keys (fs_nodes s)))"

text \<open>The neighbours of a dequeued node lose one incoming edge each; those at zero form the batch.\<close>

fun relax ::
  "uuid list \<Rightarrow> (uuid, nat) om \<Rightarrow> uuid list \<Rightarrow> ((uuid, nat) om \<times> uuid list) option" where
  "relax [] d batch = Some (d, batch)"
| "relax (v # ns) d batch =
     (case degree_of d v of
        0 \<Rightarrow> None
      | Suc k \<Rightarrow> relax ns (om_insert v k d) (if k = 0 then batch @ [v] else batch))"

partial_function (option) kahn ::
  "uuid adjacency \<Rightarrow> uuid list \<Rightarrow> (uuid, nat) om \<Rightarrow> uuid list \<Rightarrow> uuid list option" where
  [code]: "kahn adj queue d order =
     (case queue of
        [] \<Rightarrow> Some order
      | node # rest \<Rightarrow>
          (case om_get adj node of
             None \<Rightarrow> kahn adj rest d (order @ [node])
           | Some neighbours \<Rightarrow>
               (case relax neighbours d [] of
                  None \<Rightarrow> None
                | Some (d', batch) \<Rightarrow> kahn adj (rest @ sort batch) d' (order @ [node]))))"

definition topological_order ::
  "'j flow_graph_schema \<Rightarrow> (flow_graph_error + uuid list) option" where
  "topological_order s =
     (let d = in_degrees s;
          queue = sort (map fst (filter (\<lambda>(_, deg). deg = 0) d))
      in case kahn (adjacency_list s) queue d [] of
           None \<Rightarrow> None
         | Some order \<Rightarrow>
             Some (if List.length order \<noteq> List.length (fs_nodes s)
                   then Inl (CycleDetected (filter (\<lambda>k. k \<notin> set order) (om_keys (fs_nodes s))))
                   else Inr order))"

section \<open>Counting incoming links\<close>

definition links_of :: "'j flow_graph_schema \<Rightarrow> link list" where
  "links_of s = om_values (fs_links s)"

text \<open>The links into \<open>v\<close> from nodes that are not yet in the order.\<close>

definition open_links :: "link list \<Rightarrow> uuid list \<Rightarrow> uuid \<Rightarrow> nat" where
  "open_links ls order v =
     List.length (filter (\<lambda>l. ln_target_node l = v \<and> ln_source_node l \<notin> set order) ls)"

lemma open_links_step:
  assumes "u \<notin> set order"
  shows "open_links ls order v =
     open_links ls (order @ [u]) v
       + count_list (map ln_target_node (filter (\<lambda>l. ln_source_node l = u) ls)) v"
  using assms by (induction ls) (auto simp: open_links_def)

lemma open_links_zero:
  "open_links ls order v = 0 \<longleftrightarrow>
     (\<forall>l \<in> set ls. ln_target_node l = v \<longrightarrow> ln_source_node l \<in> set order)"
  by (auto simp: open_links_def filter_empty_conv)

lemma degree_of_insert:
  "om_ok d \<Longrightarrow> degree_of (om_insert v n d) u = (if u = v then n else degree_of d u)"
  by (simp add: degree_of_def om_get_insert)

lemma count_targets_fold:
  assumes "om_ok d"
  shows "om_ok (fold (\<lambda>tgt d. om_insert tgt (degree_of d tgt + 1) d) ts d) \<and>
    degree_of (fold (\<lambda>tgt d. om_insert tgt (degree_of d tgt + 1) d) ts d) v =
      degree_of d v + count_list ts v \<and>
    set (om_keys (fold (\<lambda>tgt d. om_insert tgt (degree_of d tgt + 1) d) ts d)) =
      set (om_keys d) \<union> set ts"
  using assms
proof (induction ts arbitrary: d)
  case Nil
  then show ?case by simp
next
  case (Cons t ts)
  have ok: "om_ok (om_insert t (degree_of d t + 1) d)" using Cons.prems by (rule om_insert_ok)
  show ?case
    using Cons.IH [OF ok] degree_of_insert [OF Cons.prems, of t "degree_of d t + 1" v]
      om_insert_keys [of t "degree_of d t + 1" d]
    by auto
qed

lemma count_all_fold:
  assumes "om_ok d"
  defines "f \<equiv> fold (fold (\<lambda>tgt d. om_insert tgt (degree_of d tgt + 1) d))"
  shows "om_ok (f tss d) \<and> degree_of (f tss d) v = degree_of d v + count_list (concat tss) v \<and>
    set (om_keys (f tss d)) = set (om_keys d) \<union> set (concat tss)"
  using assms(1)
proof (induction tss arbitrary: d)
  case Nil
  then show ?case by (simp add: f_def)
next
  case (Cons ts tss)
  note one = count_targets_fold [OF Cons.prems, of ts v]
  have step: "f (ts # tss) d = f tss (fold (\<lambda>tgt d. om_insert tgt (degree_of d tgt + 1) d) ts d)"
    by (simp add: f_def)
  show ?case unfolding step using Cons.IH [OF conjunct1 [OF one]] one by auto
qed

text \<open>Counting over the adjacency lists, in whatever order, counts every link once.\<close>

lemma count_concat: "count_list (concat tss) v = (\<Sum>ts \<leftarrow> tss. count_list ts v)"
  by (induction tss) auto

lemma count_by_source:
  assumes "distinct ks" "ln_source_node ` set ls \<subseteq> set ks"
  shows "(\<Sum>k \<leftarrow> ks. count_list (map ln_target_node (filter (\<lambda>l. ln_source_node l = k) ls)) v) =
    count_list (map ln_target_node ls) v"
  using assms(2)
proof (induction ls)
  case Nil
  then show ?case by (induction ks) auto
next
  case (Cons l ls)
  let ?n = "\<lambda>k. count_list (map ln_target_node (filter (\<lambda>l. ln_source_node l = k) ls)) v"
  have "(\<Sum>k \<leftarrow> ks. count_list (map ln_target_node (filter (\<lambda>l. ln_source_node l = k) (l # ls))) v) =
      (\<Sum>k \<leftarrow> ks. ?n k + (if k = ln_source_node l \<and> ln_target_node l = v then 1 else 0))"
    by (intro arg_cong [where f = sum_list] map_cong refl) simp
  also have "\<dots> = (\<Sum>k \<leftarrow> ks. ?n k)
      + (\<Sum>k \<leftarrow> ks. if k = ln_source_node l \<and> ln_target_node l = v then 1 else 0)"
    by (rule sum_list_addf)
  also have "(\<Sum>k \<leftarrow> ks. if k = ln_source_node l \<and> ln_target_node l = v then 1 else 0) =
      (if ln_target_node l = v then 1 else (0::nat))"
  proof -
    have "ln_source_node l \<in> set ks" using Cons.prems by simp
    with assms(1) have "(\<Sum>k \<leftarrow> ks. if k = ln_source_node l then 1 else (0::nat)) = 1"
      by (simp add: sum_list_distinct_conv_sum_set)
    then show ?thesis by (cases "ln_target_node l = v") simp_all
  qed
  finally show ?case using Cons by simp
qed

lemma in_degrees_spec:
  assumes ok: "om_ok (fs_nodes s)"
  shows "om_ok (in_degrees s)" "degree_of (in_degrees s) v = open_links (links_of s) [] v"
    "set (om_keys (in_degrees s)) = node_set s \<union> ln_target_node ` set (links_of s)"
proof -
  let ?adj = "adjacency_list s" and ?d0 = "map (\<lambda>k. (k, 0)) (om_keys (fs_nodes s)) :: (uuid, nat) om"
  have d0: "om_ok ?d0" using ok by (rule om_ok_const_keys)
  note all = count_all_fold [OF d0, of "om_values ?adj" v]
  have adj: "om_ok ?adj" by (rule adjacency_list_get [OF ok])
  have keys: "set (om_keys ?adj) = node_set s \<union> ln_source_node ` set (links_of s)"
  proof (rule set_eqI)
    fix x
    have "(x \<in> set (om_keys ?adj)) = (om_get ?adj x \<noteq> None)"
      by (simp only: dom_om_get [symmetric] domIff)
    then show "(x \<in> set (om_keys ?adj)) = (x \<in> node_set s \<union> ln_source_node ` set (links_of s))"
      by (simp add: adjacency_list_get(2) [OF ok] node_set_def links_of_def)
  qed
  have vals: "om_values ?adj = map (succs s) (om_keys ?adj)"
  proof -
    have "snd e = succs s (fst e)" if "e \<in> set ?adj" for e
    proof -
      have "om_get ?adj (fst e) = Some (snd e)" using that adj by (simp add: om_get_iff)
      then show ?thesis using adjacency_list_get(2) [OF ok] by (auto split: if_splits)
    qed
    then show ?thesis by simp
  qed
  have count: "count_list (concat (om_values ?adj)) v = count_list (map ln_target_node (links_of s)) v"
  proof -
    have "count_list (concat (om_values ?adj)) v =
        (\<Sum>k \<leftarrow> om_keys ?adj. count_list (map ln_target_node (filter (\<lambda>l. ln_source_node l = k) (links_of s))) v)"
      by (simp add: vals count_concat succs_def links_of_def comp_def)
    also have "\<dots> = count_list (map ln_target_node (links_of s)) v"
      by (rule count_by_source) (use om_ok_distinct [OF adj] keys in auto)
    finally show ?thesis .
  qed
  have zero: "degree_of ?d0 v = 0"
    unfolding degree_of_def om_get_const by simp
  have "count_list (map ln_target_node ls) v = open_links ls [] v" for ls
    by (induction ls) (simp_all add: open_links_def)
  with all count zero show "degree_of (in_degrees s) v = open_links (links_of s) [] v"
    by (simp add: in_degrees_def)
  show "om_ok (in_degrees s)" using all by (simp add: in_degrees_def)
  have "set (concat (om_values ?adj)) = ln_target_node ` set (links_of s)"
  proof -
    have "set (concat (om_values ?adj)) = (\<Union>k \<in> set (om_keys ?adj). set (succs s k))"
      by (simp add: vals)
    also have "\<dots> = ln_target_node ` set (links_of s)"
      unfolding keys succs_def links_of_def by auto
    finally show ?thesis .
  qed
  with all show "set (om_keys (in_degrees s)) = node_set s \<union> ln_target_node ` set (links_of s)"
    by (simp add: in_degrees_def node_set_def image_comp)
qed

section \<open>One round\<close>

lemma relax_spec:
  assumes "om_ok d" "\<And>v. count_list ns v \<le> degree_of d v"
  shows "\<exists>d' new. relax ns d batch = Some (d', batch @ new) \<and> om_ok d' \<and>
     (\<forall>v. degree_of d' v + count_list ns v = degree_of d v) \<and>
     distinct new \<and> set new = {v \<in> set ns. degree_of d v = count_list ns v}"
  using assms
proof (induction ns arbitrary: d batch)
  case Nil
  then show ?case by simp
next
  case (Cons u ns)
  from Cons.prems(2) [of u] obtain k where k: "degree_of d u = Suc k" by (cases "degree_of d u") auto
  let ?d = "om_insert u k d"
  have ok: "om_ok ?d" using Cons.prems(1) by (rule om_insert_ok)
  have deg: "degree_of ?d v = (if v = u then k else degree_of d v)" for v
    by (rule degree_of_insert [OF Cons.prems(1)])
  have le: "count_list ns v \<le> degree_of ?d v" for v
    using Cons.prems(2) [of v] k by (auto simp: deg split: if_splits)
  obtain d' new where IH:
      "relax ns ?d (if k = 0 then batch @ [u] else batch) =
         Some (d', (if k = 0 then batch @ [u] else batch) @ new)"
      "om_ok d'" "\<And>v. degree_of d' v + count_list ns v = degree_of ?d v" "distinct new"
      "set new = {v \<in> set ns. degree_of ?d v = count_list ns v}"
    using Cons.IH [OF ok le] by blast
  let ?new = "if k = 0 then u # new else new"
  have "relax (u # ns) d batch = Some (d', batch @ ?new)"
    using IH(1) k by simp
  moreover have "degree_of d' v + count_list (u # ns) v = degree_of d v" for v
    using IH(3) [of v] k by (simp add: deg split: if_splits)
  moreover have "k = 0 \<Longrightarrow> u \<notin> set ns"
    using le [of u] deg [of u] by (simp add: count_list_0_iff)
  then have "distinct ?new" using IH(4,5) by auto
  moreover have "(v \<in> set ?new) = (v \<in> set (u # ns) \<and> degree_of d v = count_list (u # ns) v)" for v
  proof (cases "v = u")
    case True
    have "(u \<in> set new) = (u \<in> set ns \<and> k = count_list ns u)" using IH(5) deg [of u] by simp
    moreover have "count_list ns u \<le> k" using le [of u] deg [of u] by simp
    moreover have "u \<in> set ns" if "count_list ns u \<noteq> 0" using that count_list_0_iff [of ns u] by simp
    ultimately show ?thesis using True k by (cases "k = 0") auto
  next
    case False
    have "(v \<in> set new) = (v \<in> set ns \<and> degree_of d v = count_list ns v)"
      using IH(5) deg [of v] False by simp
    then show ?thesis using False by simp
  qed
  then have "set ?new = {v \<in> set (u # ns). degree_of d v = count_list (u # ns) v}"
    by (intro set_eqI) (simp only: mem_Collect_eq)
  ultimately show ?case using IH(2) by blast
qed

definition kahn_inv ::
  "link list \<Rightarrow> uuid set \<Rightarrow> uuid list \<Rightarrow> (uuid, nat) om \<Rightarrow> uuid list \<Rightarrow> bool" where
  "kahn_inv ls K queue d order =
     (om_ok d \<and> (\<forall>v. degree_of d v = open_links ls order v) \<and> distinct (order @ queue) \<and>
      set (order @ queue) = {v \<in> K. open_links ls order v = 0} \<and>
      (\<forall>xs v ys. order = xs @ v # ys \<longrightarrow> open_links ls xs v = 0))"

lemma kahn_inv_step:
  assumes inv: "kahn_inv ls K (node # rest) d order"
    and K: "ln_target_node ` set ls \<subseteq> K"
  defines "ns \<equiv> map ln_target_node (filter (\<lambda>l. ln_source_node l = node) ls)"
  obtains d' batch where "relax ns d [] = Some (d', batch)"
    "kahn_inv ls K (rest @ sort batch) d' (order @ [node])"
proof -
  have ok: "om_ok d" and deg: "\<And>v. degree_of d v = open_links ls order v"
    and dist: "distinct (order @ node # rest)"
    and zeros: "set (order @ node # rest) = {v \<in> K. open_links ls order v = 0}"
    and before: "\<And>xs v ys. order = xs @ v # ys \<Longrightarrow> open_links ls xs v = 0"
    using inv by (simp_all add: kahn_inv_def)
  have "node \<notin> set order" using dist by simp
  from open_links_step [OF this, of ls]
  have step: "open_links ls order v = open_links ls (order @ [node]) v + count_list ns v" for v
    by (simp add: ns_def)
  then have le: "count_list ns v \<le> degree_of d v" for v by (simp add: deg)
  from relax_spec [OF ok le, of "[]"] obtain d' batch where
    r: "relax ns d [] = Some (d', batch)" "om_ok d'" "distinct batch"
      "\<And>v. degree_of d' v + count_list ns v = degree_of d v"
      "set batch = {v \<in> set ns. degree_of d v = count_list ns v}"
    by auto
  have deg': "degree_of d' v = open_links ls (order @ [node]) v" for v
    using r(4) [of v] step [of v] deg [of v] by simp
  have batch: "set batch = {v \<in> set ns. open_links ls (order @ [node]) v = 0}"
    unfolding r(5) using step deg by auto
  have nz: "open_links ls order v \<noteq> 0" if "v \<in> set ns" for v
    using that step [of v] count_list_0_iff [of ns v] by auto
  have disj: "set batch \<inter> set (order @ node # rest) = {}" unfolding zeros batch using nz by fastforce
  have nsK: "set ns \<subseteq> K" using K by (auto simp: ns_def)
  have "set (order @ [node]) \<union> set rest \<union> set batch = {v \<in> K. open_links ls (order @ [node]) v = 0}"
    (is "?L = ?R")
  proof (rule set_eqI)
    fix v
    show "(v \<in> ?L) = (v \<in> ?R)"
    proof (cases "v \<in> set ns")
      case True
      have "v \<notin> set (order @ node # rest)" unfolding zeros using nz [OF True] by simp
      with True nsK show ?thesis by (auto simp: batch)
    next
      case False
      then have "open_links ls (order @ [node]) v = open_links ls order v" "v \<notin> set batch"
        using step [of v] count_list_0_iff [of ns v] by (auto simp: batch)
      moreover have "(v \<in> set (order @ node # rest)) = (v \<in> K \<and> open_links ls order v = 0)"
        unfolding zeros by simp
      ultimately show ?thesis by auto
    qed
  qed
  moreover have "distinct ((order @ [node]) @ rest @ sort batch)" using dist disj r(3) by auto
  moreover have "open_links ls xs v = 0" if "order @ [node] = xs @ v # ys" for xs v ys
  proof (cases ys rule: rev_cases)
    case Nil
    with that have "xs = order" "v = node" by simp_all
    moreover have "node \<in> {v \<in> K. open_links ls order v = 0}" unfolding zeros [symmetric] by simp
    ultimately show ?thesis by simp
  next
    case (snoc zs z)
    with that have "order = xs @ v # zs" by simp
    then show ?thesis by (rule before)
  qed
  ultimately have "kahn_inv ls K (rest @ sort batch) d' (order @ [node])"
    using r(2) deg' by (simp add: kahn_inv_def Un_assoc)
  with r(1) show thesis by (rule that)
qed

lemma kahn_total:
  assumes "kahn_inv ls K queue d order" "finite K" "ln_target_node ` set ls \<subseteq> K"
    and adj: "\<And>n. om_get adj n = None \<Longrightarrow> filter (\<lambda>l. ln_source_node l = n) ls = []"
      "\<And>n ns. om_get adj n = Some ns \<Longrightarrow> ns = map ln_target_node (filter (\<lambda>l. ln_source_node l = n) ls)"
  shows "\<exists>order' d'. kahn adj queue d order = Some order' \<and> kahn_inv ls K [] d' order'"
  using assms(1)
proof (induction "card (K - set order)" arbitrary: queue d order rule: less_induct)
  case less
  show ?case
  proof (cases queue)
    case Nil
    with less.prems show ?thesis by (auto simp: kahn.simps)
  next
    case (Cons node rest)
    let ?ns = "map ln_target_node (filter (\<lambda>l. ln_source_node l = node) ls)"
    from less.prems Cons have inv: "kahn_inv ls K (node # rest) d order" by simp
    from kahn_inv_step [OF inv assms(3)] obtain d' batch where
      r: "relax ?ns d [] = Some (d', batch)" and inv': "kahn_inv ls K (rest @ sort batch) d' (order @ [node])"
      by blast
    have "set (order @ node # rest) \<subseteq> K" "node \<notin> set order"
      using inv unfolding kahn_inv_def by auto
    then have "node \<in> K - set order" by simp
    then have "card (K - set (order @ [node])) < card (K - set order)"
      using assms(2) by (intro psubset_card_mono) auto
    from less.hyps [OF this inv'] obtain order' d'' where
      IH: "kahn adj (rest @ sort batch) d' (order @ [node]) = Some order'" "kahn_inv ls K [] d'' order'"
      by blast
    have "kahn adj queue d order = kahn adj (rest @ sort batch) d' (order @ [node])"
    proof (cases "om_get adj node")
      case None
      then have "?ns = []" using adj(1) by simp
      with r None Cons show ?thesis by (simp add: kahn.simps [of adj "node # rest"])
    next
      case (Some ns)
      then have "ns = ?ns" by (rule adj(2))
      with r Some Cons show ?thesis by (simp add: kahn.simps [of adj "node # rest"])
    qed
    with IH show ?thesis by auto
  qed
qed

section \<open>The order\<close>

text \<open>An execution order: every node once, and every link goes from an earlier to a later node.\<close>

definition execution_order :: "'j flow_graph_schema \<Rightarrow> uuid list \<Rightarrow> bool" where
  "execution_order s order =
     (distinct order \<and> set order = node_set s \<and>
      (\<forall>xs v ys. order = xs @ v # ys \<longrightarrow> edges s `` {v} \<subseteq> set ys))"

lemma edges_links: "edges s = {(ln_source_node l, ln_target_node l) | l. l \<in> set (links_of s)}"
  by (simp add: edges_def links_of_def)

lemma execution_order_acyclic:
  assumes order: "execution_order s order" and closed: "link_closed s"
  shows "acyclic (edges s)"
proof -
  define place where "place v = List.length (takeWhile (\<lambda>u. u \<noteq> v) order)" for v
  have forward: "place u < place v" if "(u, v) \<in> edges s" for u v
  proof -
    have "u \<in> set order" using that closed order by (auto simp: link_closed_def execution_order_def)
    then obtain xs ys where split: "order = xs @ u # ys" "u \<notin> set xs" by (meson split_list_first)
    with order that have v: "v \<in> set ys" unfolding execution_order_def by blast
    with split order have "v \<notin> set xs" "v \<noteq> u" by (auto simp: execution_order_def)
    then have "List.length xs < place v" using split by (auto simp: place_def takeWhile_append)
    moreover have "takeWhile (\<lambda>w. w \<noteq> u) xs = xs" using split(2) by (auto simp: takeWhile_eq_all_conv)
    then have "place u = List.length xs" using split(1) by (simp add: place_def takeWhile_append)
    ultimately show ?thesis by simp
  qed
  show ?thesis by (rule acyclicI_order [of _ "\<lambda>v. - int (place v)"]) (use forward in force)
qed

lemma topological_order_cases:
  assumes closed: "link_closed s"
  obtains (ordered) order where "topological_order s = Some (Inr order)" "execution_order s order"
    | (cyclic) rest where "topological_order s = Some (Inl (CycleDetected rest))" "\<not> acyclic (edges s)"
      "set rest \<noteq> {}" "set rest \<subseteq> node_set s" "\<And>v. v \<in> set rest \<Longrightarrow> \<exists>u \<in> set rest. (u, v) \<in> edges s"
proof -
  let ?ls = "links_of s" and ?d = "in_degrees s"
  let ?q = "sort (map fst (filter (\<lambda>(_, deg). deg = 0) ?d))"
  have ok: "om_ok (fs_nodes s)" using closed by (simp add: link_closed_def)
  have targets: "ln_target_node ` set ?ls \<subseteq> node_set s" "ln_source_node ` set ?ls \<subseteq> node_set s"
    using closed by (auto simp: link_closed_def edges_links)
  note d = in_degrees_spec [OF ok]
  have keys: "set (om_keys ?d) = node_set s" using d(3) targets(1) by auto
  have q: "set ?q = {v \<in> node_set s. open_links ?ls [] v = 0}"
  proof (rule set_eqI)
    fix v
    have "(v \<in> set ?q) = (om_get ?d v = Some 0)"
      using om_get_iff [OF d(1), of v 0] by force
    also have "\<dots> = (v \<in> set (om_keys ?d) \<and> degree_of ?d v = 0)"
      by (auto simp: degree_of_def dom_om_get [symmetric] simp del: set_map split: option.splits)
    finally show "(v \<in> set ?q) = (v \<in> {v \<in> node_set s. open_links ?ls [] v = 0})"
      using keys d(2) [of v] by simp
  qed
  have "distinct ?q" using om_ok_distinct [OF d(1)] by (simp add: distinct_map_filter)
  with q d(1,2) have inv: "kahn_inv ?ls (node_set s) ?q ?d []" by (simp add: kahn_inv_def)
  have src: "om_get (adjacency_list s) n = None \<Longrightarrow> filter (\<lambda>l. ln_source_node l = n) ?ls = []"
    "om_get (adjacency_list s) n = Some ns \<Longrightarrow> ns = map ln_target_node (filter (\<lambda>l. ln_source_node l = n) ?ls)"
    for n ns
    unfolding adjacency_list_get(2) [OF ok]
    by (auto simp: succs_def links_of_def filter_empty_conv split: if_splits)
  have "finite (node_set s)" by (simp add: node_set_def)
  from kahn_total [OF inv this targets(1) src] obtain order d' where
    res: "kahn (adjacency_list s) ?q ?d [] = Some order" and fin: "kahn_inv ?ls (node_set s) [] d' order"
    by blast
  from fin have dist: "distinct order" and zero: "set order = {v \<in> node_set s. open_links ?ls order v = 0}"
    and before: "\<And>xs v ys. order = xs @ v # ys \<Longrightarrow> open_links ?ls xs v = 0"
    by (simp_all add: kahn_inv_def)
  have len: "List.length (fs_nodes s) = card (node_set s)"
    using distinct_card [OF om_ok_distinct [OF ok]] by (simp add: node_set_def)
  show thesis
  proof (cases "set order = node_set s")
    case True
    then have "List.length order = List.length (fs_nodes s)" using distinct_card [OF dist] len by simp
    then have "topological_order s = Some (Inr order)" by (simp add: topological_order_def res)
    moreover have "execution_order s order"
      unfolding execution_order_def
    proof (intro conjI allI impI subsetI)
      show "distinct order" "set order = node_set s" by (fact dist, fact True)
      fix xs v ys w
      assume split: "order = xs @ v # ys" and "w \<in> edges s `` {v}"
      then have edge: "(v, w) \<in> edges s" by simp
      then have "w \<in> set order" using closed True by (auto simp: link_closed_def)
      then obtain as bs where w: "order = as @ w # bs" by (meson split_list)
      have "v \<in> set as" using before [OF w] edge unfolding open_links_zero edges_links by auto
      then obtain as1 as2 where "as = as1 @ v # as2" by (meson split_list)
      with w have "order = as1 @ v # (as2 @ w # bs)" by simp
      with split dist have "xs = as1 \<and> ys = as2 @ w # bs"
        by (metis append_Cons_eq_iff distinct_append not_distinct_conv_prefix distinct.simps(2) append_eq_append_conv_if)
      then show "w \<in> set ys" by simp
    qed
    ultimately show thesis by (rule ordered)
  next
    case False
    let ?rest = "filter (\<lambda>k. k \<notin> set order) (om_keys (fs_nodes s))"
    have sub: "set order \<subseteq> node_set s" using zero by auto
    with False have "set order \<subset> node_set s" by auto
    then have "card (set order) < card (node_set s)" by (intro psubset_card_mono) (simp add: node_set_def)
    then have "List.length order \<noteq> List.length (fs_nodes s)" using distinct_card [OF dist] len by simp
    then have top: "topological_order s = Some (Inl (CycleDetected ?rest))"
      by (simp add: topological_order_def res)
    have rest: "set ?rest = node_set s - set order" by (auto simp: node_set_def)
    have pred: "\<exists>u \<in> set ?rest. (u, v) \<in> edges s" if "v \<in> set ?rest" for v
    proof -
      from that have "v \<in> node_set s" "v \<notin> set order" unfolding rest by simp_all
      then have "open_links ?ls order v \<noteq> 0" using zero by auto
      then obtain l where "l \<in> set ?ls" "ln_target_node l = v" "ln_source_node l \<notin> set order"
        by (auto simp: open_links_zero)
      then show ?thesis using targets(2) unfolding rest edges_links by (intro bexI [of _ "ln_source_node l"]) auto
    qed
    have "\<not> acyclic (edges s)"
    proof
      assume "acyclic (edges s)"
      moreover have "finite (edges s)"
        using closed finite_subset [of "edges s" "node_set s \<times> node_set s"] by (simp add: link_closed_def node_set_def)
      ultimately have "wf (edges s)" by (rule finite_acyclic_wf [rotated])
      moreover obtain v where "v \<in> set ?rest" unfolding rest using False sub by blast
      ultimately obtain z where "z \<in> set ?rest" "\<And>y. (y, z) \<in> edges s \<Longrightarrow> y \<notin> set ?rest"
        by (rule wfE_min) blast
      with pred show False by blast
    qed
    moreover have "set ?rest \<noteq> {}" "set ?rest \<subseteq> node_set s" unfolding rest using False sub by auto
    ultimately show thesis using cyclic [OF top] pred by blast
  qed
qed

end
