(* ===== verification/Graph_Validate.thy ===== *)
theory Graph_Validate
  imports Graph_Order
begin

text \<open>
  \<open>validate\<close> (\<open>graph.rs\<close>): the report with every issue it can hold, message by message, and what a
  report without issues says of the graph.
\<close>

section \<open>Validation\<close>

record validation_issue =
  vi_kind :: string
  vi_description :: "message_part list"
  vi_node_id :: "uuid option"
  vi_link_id :: "uuid option"

record validation_report =
  vr_valid :: bool
  vr_issues :: "validation_issue list"

definition new_report :: validation_report where
  "new_report = \<lparr>vr_valid = True, vr_issues = []\<rparr>"

definition push_issue :: "validation_issue \<Rightarrow> validation_report \<Rightarrow> validation_report" where
  "push_issue issue r = \<lparr>vr_valid = False, vr_issues = vr_issues r @ [issue]\<rparr>"

definition issue ::
  "string \<Rightarrow> message_part list \<Rightarrow> uuid option \<Rightarrow> uuid option \<Rightarrow> validation_issue" where
  "issue kind description node_id link_id =
     \<lparr>vi_kind = kind, vi_description = description, vi_node_id = node_id, vi_link_id = link_id\<rparr>"

text \<open>The UTF-8 bytes of the arrow \<open> \<not>\<rightarrow> \<close> between types.\<close>

definition mismatch_arrow :: string where
  "mismatch_arrow = [CHR 0x20, CHR 0xE2, CHR 0x86, CHR 0x9B, CHR 0x20]"

text \<open>The port a link names: \<open>nodes.get(node).and_then(|n| n.ports.get(port))\<close>.\<close>

definition port_at :: "'j flow_graph_schema \<Rightarrow> uuid \<Rightarrow> uuid \<Rightarrow> port_def option" where
  "port_at s n p =
     (case om_get (fs_nodes s) n of None \<Rightarrow> None | Some node \<Rightarrow> om_get (gn_ports node) p)"

type_synonym incoming = "uuid \<times> uuid \<Rightarrow> nat option"

definition check_link ::
  "'j flow_graph_schema \<Rightarrow> uuid \<times> link \<Rightarrow> validation_report \<times> incoming
     \<Rightarrow> validation_report \<times> incoming" where
  "check_link s = (\<lambda>(k, l) (report, inc).
     case (port_at s (ln_source_node l) (ln_source_port l),
           port_at s (ln_target_node l) (ln_target_port l)) of
       (Some src, Some tgt) \<Rightarrow>
         let r1 = (if pd_direction src \<noteq> Out
                   then push_issue (issue ''wrong_source_port_direction''
                          [MText ''Link '', MId k, MText '': source port '', MText (quoted (pd_name src)),
                           MText '' is not an Out port''] (Some (ln_source_node l)) (Some k)) report
                   else report);
             r2 = (if pd_direction tgt \<noteq> In
                   then push_issue (issue ''wrong_target_port_direction''
                          [MText ''Link '', MId k, MText '': target port '', MText (quoted (pd_name tgt)),
                           MText '' is not an In port''] (Some (ln_target_node l)) (Some k)) r1
                   else r1);
             r3 = (if \<not> is_compatible_with (pd_data_type src) (pd_data_type tgt)
                   then push_issue (issue ''type_mismatch''
                          [MText ''Link '', MId k, MText '': type '', MType (pd_data_type src),
                           MText mismatch_arrow, MType (pd_data_type tgt)] None (Some k)) r2
                   else r2);
             key = (ln_target_node l, ln_target_port l)
         in (r3, inc(key \<mapsto> (case inc key of None \<Rightarrow> 0 | Some n \<Rightarrow> n) + 1))
     | (None, _) \<Rightarrow>
         (push_issue
            (if \<not> om_contains (fs_nodes s) (ln_source_node l)
             then issue ''missing_source_node''
                    [MText ''Link '', MId k, MText '': source node '', MId (ln_source_node l),
                     MText '' not found''] (Some (ln_source_node l)) (Some k)
             else issue ''missing_source_port''
                    [MText ''Link '', MId k, MText '': source port '', MId (ln_source_port l),
                     MText '' not found on node '', MId (ln_source_node l)]
                    (Some (ln_source_node l)) (Some k)) report, inc)
     | (Some src, None) \<Rightarrow>
         (push_issue
            (if \<not> om_contains (fs_nodes s) (ln_target_node l)
             then issue ''missing_target_node''
                    [MText ''Link '', MId k, MText '': target node '', MId (ln_target_node l),
                     MText '' not found''] (Some (ln_target_node l)) (Some k)
             else issue ''missing_target_port''
                    [MText ''Link '', MId k, MText '': target port '', MId (ln_target_port l),
                     MText '' not found on node '', MId (ln_target_node l)]
                    (Some (ln_target_node l)) (Some k)) report, inc))"

definition check_port :: "incoming \<Rightarrow> uuid \<Rightarrow> port_def \<Rightarrow> validation_report \<Rightarrow> validation_report" where
  "check_port inc n p report =
     (if (case inc (n, pd_id p) of None \<Rightarrow> 0 | Some c \<Rightarrow> c) = 0
      then push_issue (issue ''unconnected_required_port''
             [MText ''Node '', MId n, MText '': required input port '', MText (quoted (pd_name p)),
              MText '' has no incoming link''] (Some n) None) report
      else report)"

definition check_node :: "incoming \<Rightarrow> uuid \<times> 'j graph_node \<Rightarrow> validation_report \<Rightarrow> validation_report" where
  "check_node inc = (\<lambda>(n, node). fold (check_port inc n) (filter pd_required (inputs node)))"

definition check_cycle :: "'j flow_graph_schema \<Rightarrow> validation_report \<Rightarrow> validation_report" where
  "check_cycle s report =
     (case detect_cycle (cycle_fuel s) s of
        Some (Inl (CycleDetected cycle)) \<Rightarrow>
          push_issue (issue ''cycle_detected''
            [MText ''Directed cycle detected through nodes: '', MIds cycle] None None) report
      | _ \<Rightarrow> report)"

definition validate_schema :: "'j flow_graph_schema \<Rightarrow> validation_report" where
  "validate_schema s =
     (let (r1, inc) = fold (check_link s) (fs_links s) (new_report, Map.empty);
          r2 = fold (check_node inc) (fs_nodes s) r1
      in check_cycle s r2)"

definition validate :: "env \<Rightarrow> 'j flow_graph \<Rightarrow> validation_report \<times> 'j flow_graph" where
  "validate e g =
     (let report = validate_schema (fg_schema g)
      in (report, log_graph e GraphValidated
            [(''valid'', PBool (vr_valid report)),
             (''issue_count'', PNum (of_nat (List.length (vr_issues report))))] g))"

section \<open>What a valid report says\<close>

definition well_typed_link :: "'j flow_graph_schema \<Rightarrow> link \<Rightarrow> bool" where
  "well_typed_link s l =
     (case (port_at s (ln_source_node l) (ln_source_port l),
            port_at s (ln_target_node l) (ln_target_port l)) of
        (Some src, Some tgt) \<Rightarrow>
          pd_direction src = Out \<and> pd_direction tgt = In \<and>
          is_compatible_with (pd_data_type src) (pd_data_type tgt)
      | _ \<Rightarrow> False)"

definition fed :: "'j flow_graph_schema \<Rightarrow> uuid \<Rightarrow> port_def \<Rightarrow> bool" where
  "fed s n p = list_ex (\<lambda>l. ln_target_node l = n \<and> ln_target_port l = pd_id p) (om_values (fs_links s))"

lemma push_issue_valid [simp]: "vr_valid (push_issue i r) = False"
  by (simp add: push_issue_def)

lemma new_report_valid [simp]: "vr_valid new_report"
  by (simp add: new_report_def)

lemma check_link_valid:
  "vr_valid (fst (check_link s (k, l) (r, inc))) = (vr_valid r \<and> well_typed_link s l)"
  by (auto simp: check_link_def well_typed_link_def Let_def split: option.split)

lemma check_links_valid:
  "vr_valid (fst (fold (check_link s) kls (r, inc))) =
     (vr_valid r \<and> list_all (well_typed_link s) (om_values kls))"
proof (induction kls arbitrary: r inc)
  case Nil
  then show ?case by simp
next
  case (Cons kl kls)
  obtain k l where kl: "kl = (k, l)" by (cases kl)
  obtain r1 inc1 where c: "check_link s (k, l) (r, inc) = (r1, inc1)" by (cases "check_link s (k, l) (r, inc)")
  from check_link_valid [of s k l r inc] have "vr_valid r1 = (vr_valid r \<and> well_typed_link s l)"
    by (simp add: c)
  with Cons.IH [of r1 inc1] show ?case by (simp add: kl c)
qed

definition counted :: "incoming \<Rightarrow> uuid \<times> uuid \<Rightarrow> bool" where
  "counted inc key = ((case inc key of None \<Rightarrow> 0 | Some c \<Rightarrow> c) \<noteq> 0)"

lemma check_link_counts:
  "well_typed_link s l \<Longrightarrow> counted (snd (check_link s (k, l) (r, inc))) key =
     (counted inc key \<or> key = (ln_target_node l, ln_target_port l))"
  by (auto simp: check_link_def well_typed_link_def counted_def Let_def split: option.splits)

lemma check_links_count:
  "list_all (well_typed_link s) (om_values kls) \<Longrightarrow>
     counted (snd (fold (check_link s) kls (r, inc))) key =
     (counted inc key \<or> key \<in> (\<lambda>l. (ln_target_node l, ln_target_port l)) ` set (om_values kls))"
proof (induction kls arbitrary: r inc)
  case Nil
  then show ?case by simp
next
  case (Cons kl kls)
  obtain k l where kl: "kl = (k, l)" by (cases kl)
  obtain r1 inc1 where c: "check_link s (k, l) (r, inc) = (r1, inc1)" by (cases "check_link s (k, l) (r, inc)")
  from Cons.prems check_link_counts [of s l k r inc key]
  have "counted inc1 key = (counted inc key \<or> key = (ln_target_node l, ln_target_port l))"
    by (simp add: c kl)
  with Cons.IH [of r1 inc1] Cons.prems show ?case by (auto simp: kl c)
qed

lemma check_port_valid: "vr_valid (check_port inc n p r) = (vr_valid r \<and> counted inc (n, pd_id p))"
  by (simp add: check_port_def counted_def)

lemma check_node_valid:
  "vr_valid (check_node inc (n, node) r) =
     (vr_valid r \<and> list_all (\<lambda>p. counted inc (n, pd_id p)) (filter pd_required (inputs node)))"
proof -
  have "vr_valid (fold (check_port inc n) ps r) = (vr_valid r \<and> list_all (\<lambda>p. counted inc (n, pd_id p)) ps)" for ps
    by (induction ps arbitrary: r) (simp_all add: check_port_valid)
  then show ?thesis by (simp add: check_node_def)
qed

lemma check_nodes_valid:
  "vr_valid (fold (check_node inc) kns r) =
     (vr_valid r \<and> list_all (\<lambda>(n, node). list_all (\<lambda>p. counted inc (n, pd_id p))
        (filter pd_required (inputs node))) kns)"
proof (induction kns arbitrary: r)
  case Nil
  show ?case by simp
next
  case (Cons kn kns)
  obtain n node where kn: "kn = (n, node)" by (cases kn)
  show ?case unfolding kn fold_Cons o_apply Cons.IH check_node_valid by simp
qed

lemma well_typed_closed:
  assumes "om_ok (fs_nodes s)" "list_all (well_typed_link s) (om_values (fs_links s))"
  shows "link_closed s"
proof -
  have "ln_source_node l \<in> node_set s \<and> ln_target_node l \<in> node_set s" if "well_typed_link s l" for l
    using that
    by (auto simp: well_typed_link_def port_at_def node_set_def dom_om_get [symmetric] simp del: set_map
        split: option.splits)
  with assms show ?thesis unfolding link_closed_def edges_def list_all_iff by blast
qed

lemma validate_schema_valid:
  assumes ok: "om_ok (fs_nodes s)"
  shows "vr_valid (validate_schema s) =
     (list_all (well_typed_link s) (om_values (fs_links s)) \<and>
      list_all (\<lambda>(n, node). list_all (fed s n) (filter pd_required (inputs node))) (fs_nodes s) \<and>
      acyclic (edges s))"
proof -
  obtain r1 inc where fold: "fold (check_link s) (fs_links s) (new_report, Map.empty) = (r1, inc)"
    by (cases "fold (check_link s) (fs_links s) (new_report, Map.empty)")
  have r1: "vr_valid r1 = list_all (well_typed_link s) (om_values (fs_links s))"
    using check_links_valid [of s "fs_links s" new_report Map.empty] by (simp add: fold)
  have cycle: "vr_valid (check_cycle s r) = (vr_valid r \<and> acyclic (edges s))" if "link_closed s" for r
    by (rule detect_cycle_total [OF ok order_refl])
      (use that closed_walk_cyclic in \<open>auto simp: check_cycle_def\<close>)
  have weaker: "vr_valid (check_cycle s r) \<Longrightarrow> vr_valid r" for r
    by (auto simp: check_cycle_def split: option.splits sum.splits flow_graph_error.splits)
  have v: "validate_schema s = check_cycle s (fold (check_node inc) (fs_nodes s) r1)"
    by (simp add: validate_schema_def fold)
  show ?thesis
  proof (cases "list_all (well_typed_link s) (om_values (fs_links s))")
    case False
    then have "\<not> vr_valid r1" using r1 by simp
    then have "\<not> vr_valid (validate_schema s)"
      unfolding v using weaker check_nodes_valid [of inc "fs_nodes s" r1] by blast
    with False show ?thesis by simp
  next
    case True
    have "counted inc (n, pd_id p) = fed s n p" for n p
      using check_links_count [OF True, of new_report Map.empty "(n, pd_id p)"]
      by (auto simp: fold counted_def fed_def list_ex_iff)
    then show ?thesis
      using True r1 cycle [OF well_typed_closed [OF ok True]] by (simp add: v check_nodes_valid)
  qed
qed

end
