(* ===== verification/Graph_Calls.thy ===== *)
theory Graph_Calls
  imports Graph_Validate
begin

text \<open>
  The public operations of a flow graph as one call type, the invariants every call keeps, and
  the interpretations of the shared contracts. The execution contract of a node is a lifecycle
  of its own and is interpreted as one.
\<close>

section \<open>Calls\<close>

text \<open>\<open>CEditNode\<close> is whatever a caller writes through \<open>get_node_mut\<close>.\<close>

datatype 'j graph_op =
    CAddNode "'j graph_node"
  | CRemoveNode uuid
  | CEditNode uuid "'j graph_node \<Rightarrow> 'j graph_node"
  | CAddLink link
  | CRemoveLink uuid
  | CAddGroup group
  | CRemoveGroup uuid
  | CAddSubgraph "'j subgraph"
  | CRemoveSubgraph uuid
  | CAddRelation "'j node_relation"
  | CRemoveRelation uuid
  | CValidate
  | CApplyPatch "'j graph_patch"

definition edit_node ::
  "uuid \<Rightarrow> ('j graph_node \<Rightarrow> 'j graph_node) \<Rightarrow> 'j flow_graph \<Rightarrow> 'j flow_graph" where
  "edit_node n f g =
     (case om_get (fs_nodes (fg_schema g)) n of
        None \<Rightarrow> g
      | Some node \<Rightarrow> on_schema (\<lambda>s. set_nodes (om_insert n (f node) (fs_nodes s)) s) g)"

primrec graph_call ::
  "env \<Rightarrow> 'j graph_op \<Rightarrow> 'j flow_graph \<Rightarrow> flow_graph_error option \<times> 'j flow_graph" where
  "graph_call e (CAddNode node) g = (None, snd (add_node e node g))"
| "graph_call e (CRemoveNode n) g = (let r = remove_node e n g in (err_of (result r), after r))"
| "graph_call e (CEditNode n f) g = (None, edit_node n f g)"
| "graph_call e (CAddLink l) g = (let r = add_link e l g in (err_of (result r), after r))"
| "graph_call e (CRemoveLink k) g = (let r = remove_link e k g in (err_of (result r), after r))"
| "graph_call e (CAddGroup gr) g = (None, snd (add_group e gr g))"
| "graph_call e (CRemoveGroup k) g = (let r = remove_group e k g in (err_of (result r), after r))"
| "graph_call e (CAddSubgraph sg) g = (None, snd (add_subgraph e sg g))"
| "graph_call e (CRemoveSubgraph k) g = (let r = remove_subgraph k g in (err_of (result r), after r))"
| "graph_call e (CAddRelation rel) g = (let r = add_relation e rel g in (err_of (result r), after r))"
| "graph_call e (CRemoveRelation k) g =
     (let r = remove_relation e k g in (err_of (result r), after r))"
| "graph_call e CValidate g = (None, snd (validate e g))"
| "graph_call e (CApplyPatch p) g = (let r = apply_patch e p g in (err_of (result r), after r))"

definition graph_step :: "env \<times> 'j graph_op \<Rightarrow> 'j flow_graph \<Rightarrow> 'j flow_graph" where
  "graph_step k g = snd (graph_call (fst k) (snd k) g)"

definition graph_run ::
  "uuid \<Rightarrow> dimension_id \<Rightarrow> task_id \<Rightarrow> 'j action_log \<Rightarrow> (env \<times> 'j graph_op) list \<Rightarrow> 'j flow_graph" where
  "graph_run fresh d t l ks = fold graph_step ks (new_flow_graph fresh d t l)"

section \<open>Views\<close>

lemma set_field_views [simp]:
  "fs_nodes (set_nodes x s) = x" "fs_links (set_nodes x s) = fs_links s"
  "fs_groups (set_nodes x s) = fs_groups s" "fs_subgraphs (set_nodes x s) = fs_subgraphs s"
  "fs_relations (set_nodes x s) = fs_relations s"
  "fs_nodes (set_links y s) = fs_nodes s" "fs_links (set_links y s) = y"
  "fs_groups (set_links y s) = fs_groups s" "fs_subgraphs (set_links y s) = fs_subgraphs s"
  "fs_relations (set_links y s) = fs_relations s"
  "fs_nodes (set_groups z s) = fs_nodes s" "fs_links (set_groups z s) = fs_links s"
  "fs_groups (set_groups z s) = z" "fs_subgraphs (set_groups z s) = fs_subgraphs s"
  "fs_relations (set_groups z s) = fs_relations s"
  "fs_nodes (set_subgraphs u s) = fs_nodes s" "fs_links (set_subgraphs u s) = fs_links s"
  "fs_groups (set_subgraphs u s) = fs_groups s" "fs_subgraphs (set_subgraphs u s) = u"
  "fs_relations (set_subgraphs u s) = fs_relations s"
  "fs_nodes (set_relations w s) = fs_nodes s" "fs_links (set_relations w s) = fs_links s"
  "fs_groups (set_relations w s) = fs_groups s" "fs_subgraphs (set_relations w s) = fs_subgraphs s"
  "fs_relations (set_relations w s) = w"
  by (simp_all add: set_nodes_def set_links_def set_groups_def set_subgraphs_def set_relations_def)

lemma graph_views [simp]:
  "fg_schema (log_graph e ev p g) = fg_schema g"
  "fg_execution_states (log_graph e ev p g) = fg_execution_states g"
  "fg_action_log (log_graph e ev p g) =
     log_system e ev (fg_dimension_id g) (fg_task_id g) p (fg_action_log g)"
  "fg_dimension_id (log_graph e ev p g) = fg_dimension_id g"
  "fg_task_id (log_graph e ev p g) = fg_task_id g"
  "fg_schema (on_schema f g) = f (fg_schema g)"
  "fg_execution_states (on_schema f g) = fg_execution_states g"
  "fg_action_log (on_schema f g) = fg_action_log g"
  by (simp_all add: log_graph_def on_schema_def)

lemmas graph_op_defs = add_node_def remove_node_def edit_node_def add_link_def remove_link_def
  add_group_def remove_group_def add_subgraph_def remove_subgraph_def add_relation_def
  remove_relation_def validate_def apply_patch_def

section \<open>Invariants\<close>

text \<open>Every map of the schema is in key order.\<close>

definition schema_ok :: "'j flow_graph_schema \<Rightarrow> bool" where
  "schema_ok s =
     (om_ok (fs_nodes s) \<and> om_ok (fs_links s) \<and> om_ok (fs_groups s) \<and> om_ok (fs_subgraphs s) \<and>
      om_ok (fs_relations s))"

lemma schema_okI:
  "om_ok (fs_nodes s) \<Longrightarrow> om_ok (fs_links s) \<Longrightarrow> om_ok (fs_groups s) \<Longrightarrow> om_ok (fs_subgraphs s) \<Longrightarrow>
     om_ok (fs_relations s) \<Longrightarrow> schema_ok s"
  by (simp add: schema_ok_def)

lemma schema_okD:
  assumes "schema_ok s"
  shows "om_ok (fs_nodes s)" "om_ok (fs_links s)" "om_ok (fs_groups s)" "om_ok (fs_subgraphs s)"
    "om_ok (fs_relations s)"
  using assms by (simp_all add: schema_ok_def)

lemma drops_ok [om_simps]:
  "om_ok m \<Longrightarrow> om_ok (drop_links_of n m)" "om_ok m' \<Longrightarrow> om_ok (drop_from_groups n m')"
  by (simp_all add: drop_links_of_def drop_from_groups_def om_simps)

lemma schema_ok_sets:
  assumes "schema_ok s"
  shows "om_ok x \<Longrightarrow> schema_ok (set_nodes x s)" "om_ok y \<Longrightarrow> schema_ok (set_links y s)"
    "om_ok z \<Longrightarrow> schema_ok (set_groups z s)" "om_ok u \<Longrightarrow> schema_ok (set_subgraphs u s)"
    "om_ok w \<Longrightarrow> schema_ok (set_relations w s)"
  using assms by (simp_all add: schema_ok_def)

lemma schema_ok_apply_op:
  "schema_ok s \<Longrightarrow> apply_op_to_schema op s = Inr s' \<Longrightarrow> schema_ok s'"
  by (cases op)
    (auto simp: schema_okD om_simps update_node_def update_group_def intro!: schema_ok_sets
      split: if_splits option.splits)

lemma schema_ok_apply_ops: "schema_ok s \<Longrightarrow> apply_ops ops s = Inr s' \<Longrightarrow> schema_ok s'"
  by (induction ops arbitrary: s) (auto intro: schema_ok_apply_op split: sum.splits)

lemma schema_ok_step:
  assumes ok: "schema_ok (fg_schema g)"
  shows "schema_ok (fg_schema (graph_step k g))"
proof -
  obtain e op where k: "k = (e, op)" by (cases k)
  note intros = schema_ok_sets
  note simps = k graph_step_def graph_op_defs Let_def schema_okD [OF ok] om_simps ok
  show ?thesis
  proof (cases op)
    case (CAddLink l)
    then show ?thesis
      by (simp add: simps split: option.split) (auto simp: simps intro!: intros)
  next
    case (CApplyPatch p)
    then show ?thesis
      by (cases "apply_ops (pt_ops p) (fg_schema g)") (simp_all add: simps schema_ok_apply_ops [OF ok])
  qed (auto simp: simps intro!: intros split: option.split)
qed

lemma execution_states_step:
  assumes "ran (fg_execution_states g) \<subseteq> {Idle}"
  shows "ran (fg_execution_states (graph_step k g)) \<subseteq> {Idle}"
proof -
  obtain e op where k: "k = (e, op)" by (cases k)
  show ?thesis
    using assms
    by (cases op)
      (auto simp: k graph_step_def graph_op_defs Let_def ran_def split: option.splits if_splits sum.splits)
qed

section \<open>Links join nodes\<close>

lemma om_values_insert: "v \<in> set (om_values (om_insert k x m)) \<Longrightarrow> v = x \<or> v \<in> set (om_values m)"
proof (induction m)
  case Nil
  then show ?case by simp
next
  case (Cons e m)
  then show ?case by (cases e) (auto split: if_splits)
qed

lemma om_values_remove: "v \<in> set (om_values (om_remove k m)) \<Longrightarrow> v \<in> set (om_values m)"
  by (auto simp: om_remove_def)

lemma node_set_views [simp]:
  "node_set (set_nodes (om_insert n node (fs_nodes s)) s) = insert n (node_set s)"
  "node_set (set_nodes (om_remove n (fs_nodes s)) s) = node_set s - {n}"
  "node_set (set_links y s) = node_set s" "node_set (set_groups z s) = node_set s"
  "node_set (set_subgraphs u s) = node_set s" "node_set (set_relations w s) = node_set s"
  by (auto simp: node_set_def om_insert_keys om_remove_def)

lemma link_closed_iff:
  "link_closed s \<longleftrightarrow> om_ok (fs_nodes s) \<and>
     (\<forall>l \<in> set (om_values (fs_links s)). ln_source_node l \<in> node_set s \<and> ln_target_node l \<in> node_set s)"
  by (auto simp: link_closed_def edges_def)

lemma link_closed_mono:
  assumes "link_closed s" "om_ok (fs_nodes s')" "node_set s \<subseteq> node_set s'"
    "set (om_values (fs_links s')) \<subseteq> set (om_values (fs_links s))"
  shows "link_closed s'"
  using assms unfolding link_closed_iff by blast

lemma link_closed_put_node:
  "link_closed s \<Longrightarrow> link_closed (set_nodes (om_insert n node (fs_nodes s)) s)"
  by (rule link_closed_mono) (auto simp: link_closed_iff om_insert_ok)

lemma link_closed_remove_link:
  "link_closed s \<Longrightarrow> link_closed (set_links (om_remove k (fs_links s)) s)"
  by (rule link_closed_mono) (auto simp: link_closed_iff om_remove_def)

lemma link_closed_other:
  "link_closed (set_groups z s) = link_closed s" "link_closed (set_subgraphs u s) = link_closed s"
  "link_closed (set_relations w s) = link_closed s"
  by (simp_all add: link_closed_iff)

lemma link_closed_add_link:
  assumes "link_closed s" "ln_source_node l \<in> node_set s" "ln_target_node l \<in> node_set s"
  shows "link_closed (set_links (om_insert k l (fs_links s)) s)"
  unfolding link_closed_iff
proof (intro conjI ballI)
  show "om_ok (fs_nodes (set_links (om_insert k l (fs_links s)) s))"
    using assms(1) by (simp add: link_closed_iff)
  fix x assume "x \<in> set (om_values (fs_links (set_links (om_insert k l (fs_links s)) s)))"
  then have "x = l \<or> x \<in> set (om_values (fs_links s))" by (intro om_values_insert) simp
  with assms show "ln_source_node x \<in> node_set (set_links (om_insert k l (fs_links s)) s)"
    "ln_target_node x \<in> node_set (set_links (om_insert k l (fs_links s)) s)"
    unfolding link_closed_iff by auto
qed

lemma link_closed_remove_node:
  assumes "link_closed s"
  shows "link_closed (set_links (drop_links_of n (fs_links s)) (set_nodes (om_remove n (fs_nodes s)) s))"
proof -
  have "x \<in> set (om_values (fs_links s)) \<and> ln_source_node x \<noteq> n \<and> ln_target_node x \<noteq> n"
    if "x \<in> set (om_values (drop_links_of n (fs_links s)))" for x
    using that by (auto simp: drop_links_of_def om_retain_def)
  with assms show ?thesis
    unfolding link_closed_iff set_field_views node_set_views by (blast intro: om_remove_ok)
qed

lemma node_set_get: "om_get (fs_nodes s) n = Some node \<Longrightarrow> n \<in> node_set s"
  unfolding node_set_def dom_om_get [symmetric] by auto

primrec checked_op :: "'j graph_patch_op \<Rightarrow> bool" where
  "checked_op (AddNode node) = True"
| "checked_op (RemoveNode n) = True"
| "checked_op (UpdateNodeLabel n new_label) = True"
| "checked_op (UpdateNodeParams n params) = True"
| "checked_op (MoveNode n pos) = True"
| "checked_op (AddLink l) = False"
| "checked_op (RemoveLink k) = True"
| "checked_op (AddGroup gr) = True"
| "checked_op (RemoveGroup k) = True"
| "checked_op (AddNodeToGroup n k) = True"
| "checked_op (RemoveNodeFromGroup n k) = True"
| "checked_op (AddSubgraph sg) = True"
| "checked_op (RemoveSubgraph k) = True"

lemma link_closed_apply_op:
  "link_closed s \<Longrightarrow> checked_op op \<Longrightarrow> apply_op_to_schema op s = Inr s' \<Longrightarrow> link_closed s'"
  by (cases op)
    (auto simp: update_node_def update_group_def link_closed_other
      intro: link_closed_put_node link_closed_remove_link link_closed_remove_node
      split: if_splits option.splits)

lemma link_closed_apply_ops:
  "link_closed s \<Longrightarrow> list_all checked_op ops \<Longrightarrow> apply_ops ops s = Inr s' \<Longrightarrow> link_closed s'"
  by (induction ops arbitrary: s) (auto intro: link_closed_apply_op split: sum.splits)

text \<open>
  The guard under which links keep joining nodes: a patch adds no link. \<open>AddLink\<close> in a patch is
  not checked by the code, \<open>add_link\<close> is.
\<close>

definition checked_call :: "env \<times> 'j graph_op \<Rightarrow> 'j flow_graph \<Rightarrow> bool" where
  "checked_call k g = (case snd k of CApplyPatch p \<Rightarrow> list_all checked_op (pt_ops p) | _ \<Rightarrow> True)"

lemma add_link_cases:
  obtains (refused) err where "add_link e l g = (Inl err, g)"
    | (added) src_node tgt_node where "om_get (fs_nodes (fg_schema g)) (ln_source_node l) = Some src_node"
      "om_get (fs_nodes (fg_schema g)) (ln_target_node l) = Some tgt_node"
      "add_link e l g = (Inr (ln_id l), log_graph e LinkCreated [(''link_id'', PId (ln_id l))]
              (on_schema (\<lambda>s. set_links (om_insert (ln_id l) l (fs_links s)) s) g))"
  by (cases "add_link e l g") (auto simp: add_link_def split: option.splits if_splits)

lemma link_closed_step:
  assumes closed: "link_closed (fg_schema g)" and ok: "checked_call k g"
  shows "link_closed (fg_schema (graph_step k g))"
proof -
  obtain e op where k: "k = (e, op)" by (cases k)
  note simps = k graph_step_def graph_op_defs Let_def closed link_closed_other
  show ?thesis
  proof (cases op)
    case (CAddLink l)
    show ?thesis
    proof (rule add_link_cases [of e l g])
      fix err assume "add_link e l g = (Inl err, g)"
      then show ?thesis using closed by (simp add: k graph_step_def CAddLink Let_def)
    next
      fix sn tn
      assume "om_get (fs_nodes (fg_schema g)) (ln_source_node l) = Some sn"
        "om_get (fs_nodes (fg_schema g)) (ln_target_node l) = Some tn"
        "add_link e l g = (Inr (ln_id l), log_graph e LinkCreated [(''link_id'', PId (ln_id l))]
              (on_schema (\<lambda>s. set_links (om_insert (ln_id l) l (fs_links s)) s) g))"
      then show ?thesis
        using link_closed_add_link [OF closed node_set_get node_set_get]
        by (simp add: k graph_step_def CAddLink Let_def)
    qed
  next
    case (CApplyPatch p)
    with ok have "list_all checked_op (pt_ops p)" by (simp add: checked_call_def k)
    with CApplyPatch show ?thesis
      by (cases "apply_ops (pt_ops p) (fg_schema g)")
        (simp_all add: simps link_closed_apply_ops [OF closed])
  qed (use closed in \<open>auto simp: simps intro: link_closed_put_node link_closed_remove_link
        link_closed_remove_node split: option.split\<close>)
qed

section \<open>The log\<close>

lemma graph_log_extends:
  "prefix (al_entries (fg_action_log g)) (al_entries (fg_action_log (graph_step k g)))"
proof -
  obtain e op where k: "k = (e, op)" by (cases k)
  show ?thesis
  proof (cases op)
    case (CAddLink l)
    then show ?thesis
      by (cases rule: add_link_cases [of e l g]) (simp_all add: k graph_step_def Let_def log_simps)
  qed (auto simp: k graph_step_def graph_op_defs Let_def log_simps split: option.split sum.split)
qed

section \<open>Contracts\<close>

interpretation graph_audit: audited graph_step "\<lambda>g :: 'j flow_graph. al_entries (fg_action_log g)"
  by unfold_locales (rule graph_log_extends)

interpretation graph_wf: invariant_system "\<lambda>_ _. True" graph_step
  "\<lambda>g :: 'j flow_graph. schema_ok (fg_schema g) \<and> ran (fg_execution_states g) \<subseteq> {Idle}"
  by unfold_locales (simp add: schema_ok_step execution_states_step)

interpretation graph_closed: invariant_system checked_call graph_step
  "\<lambda>g :: 'j flow_graph. link_closed (fg_schema g)"
  by unfold_locales (rule link_closed_step)

lemma graph_run_ok:
  "schema_ok (fg_schema (graph_run fresh d t l ks))"
  "ran (fg_execution_states (graph_run fresh d t l ks)) \<subseteq> {Idle}"
  using graph_wf.run_inv [of "new_flow_graph fresh d t l" ks]
  by (simp_all add: graph_run_def new_flow_graph_def new_schema_def schema_ok_def)

lemma graph_run_closed:
  "admissible checked_call graph_step ks (new_flow_graph fresh d t l) \<Longrightarrow>
     link_closed (fg_schema (graph_run fresh d t l ks))"
  unfolding graph_run_def
  by (rule graph_closed.run_inv) (simp_all add: new_flow_graph_def new_schema_def link_closed_def edges_def)

section \<open>Execution contracts\<close>

datatype 'j contract_op =
    Start
  | ReportProgress f64 string
  | Finish 'j
  | Abort string
  | CancelRun

primrec contract_call ::
  "(uuid \<Rightarrow> string) \<Rightarrow> env \<Rightarrow> 'j contract_op \<Rightarrow> 'j contract_sys
     \<Rightarrow> (flow_graph_error, unit, 'j contract_sys) outcome" where
  "contract_call to_str e Start = contract_start to_str e"
| "contract_call to_str e (ReportProgress p m) = contract_progress to_str e p m"
| "contract_call to_str e (Finish out) = contract_complete to_str e out"
| "contract_call to_str e (Abort err) = contract_fail to_str e err"
| "contract_call to_str e CancelRun = contract_cancel to_str e"

definition contract_step ::
  "(uuid \<Rightarrow> string) \<Rightarrow> env \<times> 'j contract_op \<Rightarrow> 'j contract_sys \<Rightarrow> 'j contract_sys" where
  "contract_step to_str k s = after (contract_call to_str (fst k) (snd k) s)"

lemmas contract_defs = contract_start_def contract_progress_def contract_complete_def
  contract_fail_def contract_cancel_def

primrec contract_rank :: "'j node_execution_state \<Rightarrow> nat" where
  "contract_rank Idle = 0"
| "contract_rank (Running t) = 1"
| "contract_rank (Progress p m) = 2"
| "contract_rank (Complete t out) = 3"
| "contract_rank (Failed e t) = 3"
| "contract_rank (Cancelled t) = 3"

interpretation contract_life:
  lifecycle "contract_step to_str" "\<lambda>s :: 'j contract_sys. contract_rank (nc_state (fst s))"
    "\<lambda>s. node_is_terminal (nc_state (fst s))"
  for to_str :: "uuid \<Rightarrow> string"
proof unfold_locales
  fix k and s :: "'j contract_sys"
  show "contract_rank (nc_state (fst s)) \<le> contract_rank (nc_state (fst (contract_step to_str k s)))"
    by (cases s; cases "snd k"; cases "nc_state (fst s)") (simp_all add: contract_step_def contract_defs)
next
  fix k and s :: "'j contract_sys"
  assume "node_is_terminal (nc_state (fst s))"
  then show "contract_step to_str k s = s"
    by (cases s; cases "snd k"; cases "nc_state (fst s)") (simp_all add: contract_step_def contract_defs)
qed

interpretation contract_audit:
  audited "contract_step to_str" "\<lambda>s :: 'j contract_sys. al_entries (snd s)"
  for to_str :: "uuid \<Rightarrow> string"
proof unfold_locales
  fix k and s :: "'j contract_sys"
  show "prefix (al_entries (snd s)) (al_entries (snd (contract_step to_str k s)))"
    by (cases s; cases "snd k") (auto simp: contract_step_def contract_defs log_simps)
qed

end
