(* ===== verification/Graph_Claims.thy ===== *)
theory Graph_Claims
  imports Graph_Calls
begin

text \<open>
  The properties of flow graphs, stated over the graphs that a run of calls can produce.
\<close>

section \<open>Orders and cycles\<close>

definition graph_env :: env where
  "graph_env = \<lparr>env_now = 5, env_event_id = 9\<rparr>"

definition sample_node :: "uuid \<Rightarrow> nat graph_node" where
  "sample_node n = (new_node 0 n ''task'' ''t'')
     \<lparr>gn_ports := [(1, new_port 1 ''in'' In Any), (2, new_port 2 ''out'' Out Any)]\<rparr>"

definition sample_calls :: "(env \<times> nat graph_op) list" where
  "sample_calls = map (Pair graph_env)
     [CAddNode (sample_node 1), CAddNode (sample_node 2), CAddLink (new_link 7 2 2 1 1), CValidate]"

text \<open>C8: As long as links enter through \<open>add_link\<close>, \<open>topological_order\<close> always returns (it neither
  loops nor underflows a counter), gives every node exactly once with every link going forward if
  the links are acyclic, and otherwise reports a non-empty set of nodes each of which has a
  predecessor in the set.\<close>

theorem topological_order_correct:
  assumes "admissible checked_call graph_step ks (new_flow_graph fresh d t l)"
  shows "let s = fg_schema (graph_run fresh d t l ks) in
    case topological_order s of
      None \<Rightarrow> False
    | Some (Inr order) \<Rightarrow>
        acyclic (edges s) \<and> distinct order \<and> set order = node_set s
        \<and> edges s \<subseteq> {(u, v). \<exists>xs ys zs. order = xs @ u # ys @ v # zs}
    | Some (Inl err) \<Rightarrow>
        \<not> acyclic (edges s)
        \<and> (\<exists>rest. err = CycleDetected rest \<and> rest \<noteq> [] \<and> set rest \<subseteq> node_set s
              \<and> set rest \<subseteq> edges s `` set rest)"
proof -
  let ?s = "fg_schema (graph_run fresh d t l ks)"
  have closed: "link_closed ?s" using assms by (rule graph_run_closed)
  show ?thesis
  proof (rule topological_order_cases [OF closed])
    fix order
    assume top: "topological_order ?s = Some (Inr order)" and order: "execution_order ?s order"
    have "\<exists>xs ys zs. order = xs @ u # ys @ v # zs" if "(u, v) \<in> edges ?s" for u v
    proof -
      have "u \<in> set order" using that closed order by (auto simp: link_closed_def execution_order_def)
      then obtain xs ys where split: "order = xs @ u # ys" by (meson split_list)
      with order that have "v \<in> set ys" unfolding execution_order_def by blast
      then obtain as bs where "ys = as @ v # bs" by (meson split_list)
      with split show ?thesis by blast
    qed
    then have "edges ?s \<subseteq> {(u, v). \<exists>xs ys zs. order = xs @ u # ys @ v # zs}" by auto
    with top order execution_order_acyclic [OF order closed] show ?thesis
      by (simp add: Let_def execution_order_def)
  next
    fix rest
    assume top: "topological_order ?s = Some (Inl (CycleDetected rest))" and "\<not> acyclic (edges ?s)"
      and "set rest \<noteq> {}" "set rest \<subseteq> node_set ?s"
      and pred: "\<And>v. v \<in> set rest \<Longrightarrow> \<exists>u \<in> set rest. (u, v) \<in> edges ?s"
    moreover have "set rest \<subseteq> edges ?s `` set rest" using pred by blast
    ultimately show ?thesis by (simp add: Let_def)
  qed
qed

theorem topological_order_correct_witness:
  "case topological_order (fg_schema (graph_run 50 7 8 new_log sample_calls)) of
     None \<Rightarrow> False | Some r \<Rightarrow> True"
proof -
  have "admissible checked_call graph_step sample_calls (new_flow_graph 50 7 8 new_log)"
    by (simp add: sample_calls_def checked_call_def)
  from topological_order_correct [OF this] show ?thesis by (auto simp: Let_def split: option.splits)
qed

text \<open>C10: \<open>detect_cycle\<close> ends on every graph that calls can produce, patched ones included, within a
  recursion depth of the number of nodes and links. It reports a cycle exactly when links reachable
  from a node form one, and what it reports is a closed walk along such links. A patch can bring links
  between missing nodes, which are not searched; if all links entered through \<open>add_link\<close> there are
  none, and it reports a cycle exactly when the links have one.\<close>

theorem detect_cycle_correct:
  "let s = fg_schema (graph_run fresh d t l ks);
       found = (edges s)\<^sup>* `` node_set s in
   case detect_cycle (List.length (fs_nodes s) + List.length (fs_links s) + extra) s of
     None \<Rightarrow> False
   | Some (Inl err) \<Rightarrow>
       (\<exists>c. err = CycleDetected c \<and> closed_walk (edges s) c \<and> set c \<subseteq> found)
       \<and> \<not> acyclic (edges s \<inter> found \<times> found) \<and> \<not> acyclic (edges s)
   | Some (Inr _) \<Rightarrow>
       acyclic (edges s \<inter> found \<times> found)
       \<and> (if admissible checked_call graph_step ks (new_flow_graph fresh d t l)
        then acyclic (edges s) else True)"
proof -
  let ?s = "fg_schema (graph_run fresh d t l ks)"
  have ok: "om_ok (fs_nodes ?s)" by (rule schema_okD [OF graph_run_ok(1)])
  have fuel: "cycle_fuel ?s \<le> List.length (fs_nodes ?s) + List.length (fs_links ?s) + extra"
    by (simp add: cycle_fuel_def)
  show ?thesis
  proof (rule detect_cycle_total [OF ok fuel])
    fix c
    assume c: "detect_cycle (List.length (fs_nodes ?s) + List.length (fs_links ?s) + extra) ?s =
        Some (Inl (CycleDetected c))" "closed_walk (edges ?s) c" "set c \<subseteq> reach ?s"
    then have "\<not> acyclic (edges ?s \<inter> reach ?s \<times> reach ?s)"
      using closed_walk_cyclic closed_walk_within by blast
    then show ?thesis using c closed_walk_cyclic [OF c(2)] by (simp add: Let_def reach_def)
  qed (simp_all add: Let_def graph_run_closed reach_def)
qed

text \<open>C9: A report of \<open>validate\<close> is valid if and only if every link joins an existing output port to
  an existing input port of a compatible type, every required input port has an incoming link, and
  the links are acyclic; on any graph that calls can produce, patched ones included. Validation
  itself changes nothing but the log.\<close>

theorem validate_correct:
  "let g = graph_run fresh d t l ks; s = fg_schema g; (report, g') = validate e g in
   vr_valid report =
     (list_all (well_typed_link s) (om_values (fs_links s))
      \<and> list_all (\<lambda>(n, node). list_all (fed s n) (filter pd_required (inputs node))) (fs_nodes s)
      \<and> acyclic (edges s))
   \<and> vr_valid report = (vr_issues report = [])
   \<and> fg_schema g' = s \<and> fg_execution_states g' = fg_execution_states g"
proof -
  let ?g = "graph_run fresh d t l ks"
  let ?s = "fg_schema ?g"
  have ok: "om_ok (fs_nodes ?s)" by (rule schema_okD [OF graph_run_ok(1)])
  have push: "vr_valid (push_issue i r) = (vr_issues (push_issue i r) = [])" for i r
    by (simp add: push_issue_def)
  have link: "vr_valid (fst (check_link s kl st)) = (vr_issues (fst (check_link s kl st)) = [])"
    if "vr_valid (fst st) = (vr_issues (fst st) = [])" for s :: "'a flow_graph_schema" and kl st
    using that by (cases kl; cases st) (auto simp: check_link_def Let_def push_issue_def split: option.splits)
  have links: "vr_valid (fst (fold (check_link s) kls st)) = (vr_issues (fst (fold (check_link s) kls st)) = [])"
    if "vr_valid (fst st) = (vr_issues (fst st) = [])" for s :: "'a flow_graph_schema" and kls st
    using that by (induction kls arbitrary: st) (simp_all add: link)
  have ports: "vr_valid (fold (check_port inc n) ps r) = (vr_issues (fold (check_port inc n) ps r) = [])"
    if "vr_valid r = (vr_issues r = [])" for inc n ps r
    using that by (induction ps arbitrary: r) (simp_all add: check_port_def push_issue_def)
  have nodes: "vr_valid (fold (check_node inc) kns r) = (vr_issues (fold (check_node inc) kns r) = [])"
    if "vr_valid r = (vr_issues r = [])" for inc r and kns :: "(uuid \<times> 'a graph_node) list"
    using that by (induction kns arbitrary: r) (simp_all add: check_node_def case_prod_beta ports)
  have cycle: "vr_valid (check_cycle s r) = (vr_issues (check_cycle s r) = [])"
    if "vr_valid r = (vr_issues r = [])" for s :: "'a flow_graph_schema" and r
    using that by (auto simp: check_cycle_def push_issue_def split: option.split sum.split flow_graph_error.split)
  have "vr_valid (validate_schema ?s) = (vr_issues (validate_schema ?s) = [])"
    unfolding validate_schema_def Let_def case_prod_beta
    by (intro cycle nodes links) (simp add: new_report_def)
  then show ?thesis by (simp add: validate_def Let_def validate_schema_valid [OF ok])
qed

section \<open>Patches\<close>

lemma apply_ops_append:
  "apply_ops (xs @ ys) s = (case apply_ops xs s of Inl err \<Rightarrow> Inl err | Inr s' \<Rightarrow> apply_ops ys s')"
  by (induction xs arbitrary: s) (simp_all split: sum.split)

lemma apply_ops_fails:
  "apply_ops ops s = Inl err \<Longrightarrow>
     \<exists>pre op post s'. ops = pre @ op # post \<and> apply_ops pre s = Inr s' \<and> apply_op_to_schema op s' = Inl err"
proof (induction ops arbitrary: s)
  case Nil
  then show ?case by simp
next
  case (Cons op ops)
  show ?case
  proof (cases "apply_op_to_schema op s")
    case (Inl e)
    with Cons.prems have "apply_op_to_schema op s = Inl err" by simp
    then have "op # ops = [] @ op # ops \<and> apply_ops [] s = Inr s \<and> apply_op_to_schema op s = Inl err" by simp
    then show ?thesis by (intro exI)
  next
    case (Inr s1)
    with Cons.prems have "apply_ops ops s1 = Inl err" by simp
    from Cons.IH [OF this] obtain pre op' post s' where
      "ops = pre @ op' # post" "apply_ops pre s1 = Inr s'" "apply_op_to_schema op' s' = Inl err" by blast
    with Inr have "op # ops = (op # pre) @ op' # post \<and> apply_ops (op # pre) s = Inr s' \<and>
        apply_op_to_schema op' s' = Inl err" by simp
    then show ?thesis by (intro exI)
  qed
qed

text \<open>C11: A patch is applied whole or not at all: if it fails, the graph and its log are exactly as
  before and the error carries that of the first operation that could not be applied to what the
  operations before it produced; if it succeeds, the schema is the result of all operations in
  order, and one entry is logged.\<close>

theorem apply_patch_all_or_nothing:
  "case apply_patch e p g of
     (Inl err, g') \<Rightarrow> g' = g
       \<and> (\<exists>pre op post s cause. pt_ops p = pre @ op # post \<and> apply_ops pre (fg_schema g) = Inr s
            \<and> apply_op_to_schema op s = Inl cause
            \<and> err = InvalidPatch [MText ''patch '', MId (pt_id p), MText '' op failed: '', MError cause])
   | (Inr _, g') \<Rightarrow> apply_ops (pt_ops p) (fg_schema g) = Inr (fg_schema g')
       \<and> fg_execution_states g' = fg_execution_states g
       \<and> List.length (al_entries (fg_action_log g')) = List.length (al_entries (fg_action_log g)) + 1"
proof (cases "apply_ops (pt_ops p) (fg_schema g)")
  case (Inl cause)
  from apply_ops_fails [OF this] Inl show ?thesis by (simp add: apply_patch_def)
next
  case (Inr s)
  then show ?thesis by (simp add: apply_patch_def log_simps)
qed

end
