(* ===== verification/Graph_Diff.thy ===== *)
theory Graph_Diff
  imports Graph_Claims
begin

text \<open>
  \<open>compute_diff\<close> followed by \<open>apply_patch\<close>: when it reproduces the target, and the case in which
  the computed patch cannot be applied. Also what patches can do to the execution order, and the
  life of an execution contract.
\<close>

section \<open>Phases of a diff\<close>

lemma fs_eqI:
  "fs_schema_version s = fs_schema_version s' \<Longrightarrow> fs_graph_id s = fs_graph_id s' \<Longrightarrow>
     fs_dimension_id s = fs_dimension_id s' \<Longrightarrow> fs_nodes s = fs_nodes s' \<Longrightarrow>
     fs_links s = fs_links s' \<Longrightarrow> fs_groups s = fs_groups s' \<Longrightarrow> fs_subgraphs s = fs_subgraphs s' \<Longrightarrow>
     fs_relations s = fs_relations s' \<Longrightarrow> s = s'"
  by (cases s; cases s') simp

lemma set_field_id [simp]:
  "set_nodes (fs_nodes s) s = s" "set_links (fs_links s) s = s" "set_groups (fs_groups s) s = s"
  "set_subgraphs (fs_subgraphs s) s = s"
  by (cases s; simp add: set_nodes_def set_links_def set_groups_def set_subgraphs_def)+

lemma set_field_twice [simp]:
  "set_nodes x (set_nodes x' s) = set_nodes x s" "set_links y (set_links y' s) = set_links y s"
  "set_groups z (set_groups z' s) = set_groups z s" "set_subgraphs u (set_subgraphs u' s) = set_subgraphs u s"
  by (simp_all add: set_nodes_def set_links_def set_groups_def set_subgraphs_def)

definition named :: "('v \<Rightarrow> uuid) \<Rightarrow> (uuid, 'v) om \<Rightarrow> bool" where
  "named name m = list_all (\<lambda>(k, v). name v = k) m"

text \<open>
  Adding fresh entries and removing present ones, for each kind of entry: the operation \<open>op\<close> acts
  on the field \<open>get\<close>/\<open>put\<close> of the schema as an insertion or a removal.
\<close>

lemma add_phase:
  assumes op: "\<And>k v s. name v = k \<Longrightarrow> om_get (get s) k = None \<Longrightarrow>
      apply_op_to_schema (add v) s = Inr (put (om_insert k v (get s)) s)"
    and field: "\<And>x s. get (put x s) = x" "\<And>x y s. put x (put y s) = put x s" "\<And>s. put (get s) s = s"
  shows "om_ok (get s) \<Longrightarrow> distinct (map fst kvs) \<Longrightarrow> list_all (\<lambda>(k, v). name v = k) kvs \<Longrightarrow>
     (\<And>k. k \<in> fst ` set kvs \<Longrightarrow> om_get (get s) k = None) \<Longrightarrow>
     apply_ops (map (\<lambda>(k, v). add v) kvs) s = Inr (put (fold (\<lambda>(k, v). om_insert k v) kvs (get s)) s)"
proof (induction kvs arbitrary: s)
  case Nil
  then show ?case by (simp add: field)
next
  case (Cons kv kvs)
  obtain k v where kv: "kv = (k, v)" by (cases kv)
  let ?s = "put (om_insert k v (get s)) s"
  have "apply_op_to_schema (add v) s = Inr ?s" using Cons.prems by (intro op) (simp_all add: kv)
  moreover have "apply_ops (map (\<lambda>(k, v). add v) kvs) ?s =
      Inr (put (fold (\<lambda>(k, v). om_insert k v) kvs (get ?s)) ?s)"
  proof (rule Cons.IH)
    show "om_ok (get ?s)" using Cons.prems(1) by (simp add: field om_insert_ok)
    show "distinct (map fst kvs)" "list_all (\<lambda>(k, v). name v = k) kvs"
      using Cons.prems(2,3) by simp_all
    fix k' assume k': "k' \<in> fst ` set kvs"
    then have "k' \<noteq> k" using Cons.prems(2) kv by auto
    then show "om_get (get ?s) k' = None"
      using Cons.prems(1,4) k' kv by (simp add: field om_get_insert)
  qed
  ultimately show ?case by (simp add: kv field)
qed

lemma remove_phase:
  assumes op: "\<And>k s. om_get (get s) k \<noteq> None \<Longrightarrow>
      apply_op_to_schema (remove k) s = Inr (put (om_remove k (get s)) s)"
    and field: "\<And>x s. get (put x s) = x" "\<And>x y s. put x (put y s) = put x s" "\<And>s. put (get s) s = s"
  shows "distinct ks \<Longrightarrow> (\<And>k. k \<in> set ks \<Longrightarrow> om_get (get s) k \<noteq> None) \<Longrightarrow>
     apply_ops (map remove ks) s = Inr (put (fold om_remove ks (get s)) s)"
proof (induction ks arbitrary: s)
  case Nil
  then show ?case by (simp add: field)
next
  case (Cons k ks)
  let ?s = "put (om_remove k (get s)) s"
  have "apply_op_to_schema (remove k) s = Inr ?s" using Cons.prems(2) [of k] by (intro op) simp
  moreover have "apply_ops (map remove ks) ?s = Inr (put (fold om_remove ks (get ?s)) ?s)"
  proof (rule Cons.IH)
    show "distinct ks" using Cons.prems(1) by simp
    fix k' assume "k' \<in> set ks"
    with Cons.prems show "om_get (get ?s) k' \<noteq> None" by (auto simp: field om_get_remove)
  qed
  ultimately show ?case by (simp add: field)
qed

text \<open>The map after the additions and removals of a diff.\<close>

definition changed_map :: "(uuid, 'v) om \<Rightarrow> (uuid, 'v) om \<Rightarrow> (uuid, 'v) om" where
  "changed_map a b =
     fold om_remove (filter (\<lambda>k. \<not> om_contains b k) (om_keys a))
       (fold (\<lambda>(k, v). om_insert k v) (filter (\<lambda>(k, v). \<not> om_contains a k) b) a)"

definition agree :: "(uuid, 'v) om \<Rightarrow> (uuid, 'v) om \<Rightarrow> bool" where
  "agree a b = list_all (\<lambda>(k, v). om_get b k = None \<or> om_get b k = Some v) a"

lemma added_entries:
  assumes "om_ok b"
  shows "distinct (map fst (filter (\<lambda>(k, v). \<not> om_contains a k) b))"
    "map_of (rev (filter (\<lambda>(k, v). \<not> om_contains a k) b)) =
       (\<lambda>k. if om_get a k = None then om_get b k else None)"
proof -
  have eq: "filter (\<lambda>(k, v). \<not> om_contains a k) b = filter (\<lambda>e. \<not> om_contains a (fst e)) b"
    by (rule filter_cong) auto
  have ok: "om_ok (filter (\<lambda>(k, v). \<not> om_contains a k) b)" using assms by (rule om_filter_ok)
  then show dist: "distinct (map fst (filter (\<lambda>(k, v). \<not> om_contains a k) b))" by (rule om_ok_distinct)
  show "map_of (rev (filter (\<lambda>(k, v). \<not> om_contains a k) b)) =
       (\<lambda>k. if om_get a k = None then om_get b k else None)"
  proof -
    have "map_of (rev (filter (\<lambda>(k, v). \<not> om_contains a k) b)) =
        map_of (filter (\<lambda>(k, v). \<not> om_contains a k) b)"
      using dist by (intro map_of_inject_set [THEN iffD2]) (simp_all add: rev_map [symmetric])
    also have "\<dots> = (\<lambda>k. if om_get a k = None then om_get b k else None)"
      unfolding eq by (subst om_get_filter [of "\<lambda>k. \<not> om_contains a k"]) (simp add: om_contains_def)
    finally show ?thesis .
  qed
qed

lemma changed_map_is_target:
  assumes a: "om_ok a" and b: "om_ok b" and agree: "agree a b"
  shows "changed_map a b = b"
proof -
  let ?add = "filter (\<lambda>(k, v). \<not> om_contains a k) b"
  have mid: "om_ok (fold (\<lambda>(k, v). om_insert k v) ?add a)"
    "om_get (fold (\<lambda>(k, v). om_insert k v) ?add a) = om_get a ++ map_of (rev ?add)"
    using om.fold_put [OF a, of ?add] by auto
  have "om_ok (changed_map a b)" "om_get (changed_map a b) =
      (\<lambda>k. if k \<in> set (filter (\<lambda>k. \<not> om_contains b k) (om_keys a)) then None
           else (om_get a ++ map_of (rev ?add)) k)"
    using om.fold_del [OF mid(1), of "filter (\<lambda>k. \<not> om_contains b k) (om_keys a)"]
    by (auto simp: changed_map_def mid(2))
  moreover have "(if k \<in> set (filter (\<lambda>k. \<not> om_contains b k) (om_keys a)) then None
           else (om_get a ++ map_of (rev ?add)) k) = om_get b k" for k
  proof (cases "om_get a k")
    case None
    then have "k \<notin> set (om_keys a)" by (simp add: map_of_eq_None_iff)
    with None show ?thesis by (simp add: added_entries(2) [OF b] map_add_def split: option.split)
  next
    case (Some v)
    then have "(k, v) \<in> set a" by (rule om_get_in_set)
    with agree have "om_get b k = None \<or> om_get b k = Some v" by (auto simp: agree_def list_all_iff)
    moreover have "k \<in> set (om_keys a)" using \<open>(k, v) \<in> set a\<close> by force
    moreover have "om_contains b k = (om_get b k \<noteq> None)" by (simp add: om_contains_def)
    ultimately show ?thesis
      using Some by (auto simp: added_entries(2) [OF b] map_add_def split: option.split)
  qed
  ultimately show ?thesis using b by (intro om_ext) (simp_all add: fun_eq_iff)
qed

section \<open>Removing nodes\<close>

definition attached :: "uuid \<Rightarrow> link \<Rightarrow> bool" where
  "attached n l = (ln_source_node l = n \<or> ln_target_node l = n)"

lemma drop_links_none:
  "list_all (\<lambda>l. \<not> attached n l) (om_values ls) \<Longrightarrow> drop_links_of n ls = ls"
  by (auto simp: drop_links_of_def om_retain_def attached_def list_all_iff intro!: filter_True)

lemma fold_drop_links_none:
  "list_all (\<lambda>n. list_all (\<lambda>l. \<not> attached n l) (om_values ls)) ns \<Longrightarrow> fold drop_links_of ns ls = ls"
  by (induction ns) (simp_all add: drop_links_none)

lemma fold_drop_groups:
  "om_ok grs \<Longrightarrow> om_ok (fold drop_from_groups ns grs) \<and> om_get (fold drop_from_groups ns grs) k =
     map_option (\<lambda>gr. gr\<lparr>gp_node_ids := gp_node_ids gr - set ns\<rparr>) (om_get grs k)"
proof (induction ns arbitrary: grs)
  case Nil
  then show ?case by (simp add: option.map_ident)
next
  case (Cons n ns)
  have ok: "om_ok (drop_from_groups n grs)" using Cons.prems by (simp add: om_simps)
  have "gp_node_ids gr - {n} - set ns = gp_node_ids gr - set (n # ns)" for gr :: group by auto
  with Cons.IH [OF ok] show ?case
    by (cases "om_get grs k") (simp_all add: drop_from_groups_def om_get_map_values)
qed

lemma remove_nodes_phase:
  "distinct ns \<Longrightarrow> (\<And>n. n \<in> set ns \<Longrightarrow> om_get (fs_nodes s) n \<noteq> None) \<Longrightarrow>
     apply_ops (map RemoveNode ns) s =
       Inr (set_groups (fold drop_from_groups ns (fs_groups s))
             (set_links (fold drop_links_of ns (fs_links s))
               (set_nodes (fold om_remove ns (fs_nodes s)) s)))"
proof (induction ns arbitrary: s)
  case Nil
  show ?case by simp
next
  case (Cons n ns)
  let ?s = "set_groups (drop_from_groups n (fs_groups s))
    (set_links (drop_links_of n (fs_links s)) (set_nodes (om_remove n (fs_nodes s)) s))"
  have "apply_op_to_schema (RemoveNode n) s = Inr ?s"
    using Cons.prems(2) [of n] by (simp add: om_contains_def)
  moreover have "apply_ops (map RemoveNode ns) ?s =
       Inr (set_groups (fold drop_from_groups ns (fs_groups ?s))
             (set_links (fold drop_links_of ns (fs_links ?s))
               (set_nodes (fold om_remove ns (fs_nodes ?s)) ?s)))"
  proof (rule Cons.IH)
    show "distinct ns" using Cons.prems(1) by simp
    fix m assume "m \<in> set ns"
    with Cons.prems show "om_get (fs_nodes ?s) m \<noteq> None" by (auto simp: om_get_remove)
  qed
  ultimately show ?case by (simp add: set_nodes_def set_links_def set_groups_def)
qed

section \<open>The whole diff\<close>

lemma add_ops:
  "gn_id v = k \<Longrightarrow> om_get (fs_nodes s) k = None \<Longrightarrow>
     apply_op_to_schema (AddNode v) s = Inr (set_nodes (om_insert k v (fs_nodes s)) s)"
  "ln_id l = k \<Longrightarrow> om_get (fs_links s) k = None \<Longrightarrow>
     apply_op_to_schema (AddLink l) s = Inr (set_links (om_insert k l (fs_links s)) s)"
  "gp_id gr = k \<Longrightarrow> om_get (fs_groups s) k = None \<Longrightarrow>
     apply_op_to_schema (AddGroup gr) s = Inr (set_groups (om_insert k gr (fs_groups s)) s)"
  "sg_id sg = k \<Longrightarrow> om_get (fs_subgraphs s) k = None \<Longrightarrow>
     apply_op_to_schema (AddSubgraph sg) s = Inr (set_subgraphs (om_insert k sg (fs_subgraphs s)) s)"
  by (auto simp: om_contains_def)

lemma remove_ops:
  "om_get (fs_links s) k \<noteq> None \<Longrightarrow>
     apply_op_to_schema (RemoveLink k) s = Inr (set_links (om_remove k (fs_links s)) s)"
  "om_get (fs_groups s) k \<noteq> None \<Longrightarrow>
     apply_op_to_schema (RemoveGroup k) s = Inr (set_groups (om_remove k (fs_groups s)) s)"
  "om_get (fs_subgraphs s) k \<noteq> None \<Longrightarrow>
     apply_op_to_schema (RemoveSubgraph k) s = Inr (set_subgraphs (om_remove k (fs_subgraphs s)) s)"
  by (simp_all add: om_contains_def)

text \<open>Two schemas between which a diff is exact.\<close>

definition diff_exact :: "'j flow_graph_schema \<Rightarrow> 'j flow_graph_schema \<Rightarrow> bool" where
  "diff_exact a b =
     (schema_ok a \<and> schema_ok b \<and> link_closed b \<and>
      named gn_id (fs_nodes b) \<and> named ln_id (fs_links b) \<and> named gp_id (fs_groups b) \<and>
      named sg_id (fs_subgraphs b) \<and>
      agree (fs_nodes a) (fs_nodes b) \<and> agree (fs_links a) (fs_links b) \<and>
      agree (fs_groups a) (fs_groups b) \<and> agree (fs_subgraphs a) (fs_subgraphs b) \<and>
      list_all (\<lambda>n. om_contains (fs_nodes b) n \<or>
          list_all (\<lambda>(k, l). om_contains (fs_links b) k \<or> \<not> attached n l) (fs_links a) \<and>
          list_all (\<lambda>gr. n \<notin> gp_node_ids gr) (om_values (fs_groups b)))
        (om_keys (fs_nodes a)))"

lemma named_filter: "named name m \<Longrightarrow> list_all (\<lambda>(k, v). name v = k) (filter P m)"
  by (auto simp: named_def list_all_iff)

lemma not_contained: "k \<in> fst ` set (filter (\<lambda>(k, v). \<not> om_contains a k) b) \<Longrightarrow> om_get a k = None"
  by (auto simp: om_contains_def)

lemma key_contained: "k \<in> set (om_keys a) \<Longrightarrow> om_get a k \<noteq> None"
  by (simp add: map_of_eq_None_iff)

lemma om_get_removed_key:
  assumes "om_ok a" "k \<in> set (filter (\<lambda>k. \<not> om_contains b k) (om_keys a))"
  shows "om_get (fold (\<lambda>(k, v). om_insert k v) kvs a) k \<noteq> None"
  using om.fold_put [OF assms(1), of kvs] key_contained [of k a] assms(2)
  by (auto simp: map_add_def split: option.split)

text \<open>One kind of entry: its additions and then its removals.\<close>

lemma entries_phase:
  assumes a: "om_ok (get s)" and b: "om_ok b" and named: "named name b" and agree: "agree (get s) b"
    and add: "\<And>k v s. name v = k \<Longrightarrow> om_get (get s) k = None \<Longrightarrow>
      apply_op_to_schema (add v) s = Inr (put (om_insert k v (get s)) s)"
    and remove: "\<And>k s. om_get (get s) k \<noteq> None \<Longrightarrow>
      apply_op_to_schema (remove k) s = Inr (put (om_remove k (get s)) s)"
    and field: "\<And>x s. get (put x s) = x" "\<And>x y s. put x (put y s) = put x s" "\<And>s. put (get s) s = s"
  shows "apply_ops (diff_added add (get s) b @ diff_removed remove (get s) b) s = Inr (put b s)"
proof -
  let ?add = "filter (\<lambda>(k, v). \<not> om_contains (get s) k) b"
  let ?mid = "fold (\<lambda>(k, v). om_insert k v) ?add (get s)"
  have "apply_ops (map (\<lambda>(k, v). add v) ?add) s = Inr (put ?mid s)"
    by (rule add_phase [of name get add put, OF add field a added_entries(1) [OF b] named_filter [OF named]
          not_contained])
  moreover have "apply_ops (map remove (filter (\<lambda>k. \<not> om_contains b k) (om_keys (get s)))) (put ?mid s) =
      Inr (put (fold om_remove (filter (\<lambda>k. \<not> om_contains b k) (om_keys (get s))) (get (put ?mid s))) (put ?mid s))"
    by (rule remove_phase [of get remove put, OF remove field])
      (use om_ok_distinct [OF a] om_get_removed_key [OF a] in \<open>simp_all add: field\<close>)
  moreover have "changed_map (get s) b = b" by (rule changed_map_is_target [OF a b agree])
  ultimately show ?thesis
    unfolding apply_ops_append diff_added_def diff_removed_def by (simp add: field changed_map_def)
qed

lemma apply_ops_seq: "apply_ops xs s = Inr s' \<Longrightarrow> apply_ops (xs @ ys) s = apply_ops ys s'"
  by (simp add: apply_ops_append)

text \<open>C12: Where no removed link hangs on a removed node, \<open>compute_diff\<close> and \<open>apply_patch\<close> are
  inverse: applying the computed patch to the source succeeds and gives exactly the nodes, links,
  groups and subgraphs of the target (entries present on both sides being equal).\<close>

theorem diff_patch_roundtrip:
  assumes "diff_exact a b"
  shows "apply_ops (pt_ops (compute_diff fresh now a b author)) a =
     Inr (set_subgraphs (fs_subgraphs b) (set_groups (fs_groups b)
            (set_links (fs_links b) (set_nodes (fs_nodes b) a))))"
proof -
  have a: "schema_ok a" and b: "schema_ok b" and closed: "link_closed b"
    and names: "named gn_id (fs_nodes b)" "named ln_id (fs_links b)" "named gp_id (fs_groups b)"
      "named sg_id (fs_subgraphs b)"
    and agree: "agree (fs_nodes a) (fs_nodes b)" "agree (fs_links a) (fs_links b)"
      "agree (fs_groups a) (fs_groups b)" "agree (fs_subgraphs a) (fs_subgraphs b)"
    and hang: "list_all (\<lambda>n. om_contains (fs_nodes b) n \<or>
          list_all (\<lambda>(k, l). om_contains (fs_links b) k \<or> \<not> attached n l) (fs_links a) \<and>
          list_all (\<lambda>gr. n \<notin> gp_node_ids gr) (om_values (fs_groups b)))
        (om_keys (fs_nodes a))"
    using assms by (simp_all add: diff_exact_def)
  let ?gone = "filter (\<lambda>k. \<not> om_contains (fs_nodes b) k) (om_keys (fs_nodes a))"
  let ?add = "filter (\<lambda>(k, v). \<not> om_contains (fs_nodes a) k) (fs_nodes b)"
  let ?mid = "fold (\<lambda>(k, v). om_insert k v) ?add (fs_nodes a)"
  define s1 where "s1 = set_nodes ?mid a"
  define grs where "grs = fold drop_from_groups ?gone (fs_groups a)"
  define s2 where "s2 = set_groups grs (set_nodes (fs_nodes b) a)"
  have "apply_ops (diff_added AddNode (fs_nodes a) (fs_nodes b)) a = Inr s1"
    unfolding s1_def diff_added_def
    by (rule add_phase [of gn_id fs_nodes AddNode set_nodes, OF add_ops(1) set_field_views(1)
          set_field_twice(1) set_field_id(1) schema_okD(1) [OF a] added_entries(1) [OF schema_okD(1) [OF b]]
          named_filter [OF names(1)] not_contained])
  moreover have kept: "fold drop_links_of ?gone (fs_links a) = fs_links a"
  proof (rule fold_drop_links_none)
    have "\<not> attached n l" if n: "n \<in> set ?gone" and kl: "(k, l) \<in> set (fs_links a)" for n k l
    proof (cases "om_contains (fs_links b) k")
      case True
      with agree(2) kl have "om_get (fs_links b) k = Some l"
        by (auto simp: agree_def list_all_iff om_contains_def)
      then have "l \<in> set (om_values (fs_links b))" by (force dest: om_get_in_set)
      with closed have "ln_source_node l \<in> node_set b" "ln_target_node l \<in> node_set b"
        unfolding link_closed_iff by blast+
      moreover have "n \<notin> node_set b" using n by (simp add: node_set_def om_contains_iff)
      ultimately show ?thesis by (auto simp: attached_def)
    next
      case False
      have "list_all (\<lambda>(k, l). om_contains (fs_links b) k \<or> \<not> attached n l) (fs_links a)"
        using hang n unfolding list_all_iff by auto
      with False kl show ?thesis by (auto simp: list_all_iff)
    qed
    note apart = this
    show "list_all (\<lambda>n. list_all (\<lambda>l. \<not> attached n l) (om_values (fs_links a))) ?gone"
      unfolding list_all_iff
    proof (intro ballI)
      fix n l
      assume n: "n \<in> set ?gone" and "l \<in> set (om_values (fs_links a))"
      then obtain k where "(k, l) \<in> set (fs_links a)" by auto
      with n show "\<not> attached n l" by (rule apart)
    qed
  qed
  have nodes1: "fold om_remove ?gone ?mid = fs_nodes b"
    using changed_map_is_target [OF schema_okD(1) [OF a] schema_okD(1) [OF b] agree(1)]
    by (simp only: changed_map_def)
  have "apply_ops (map RemoveNode ?gone) s1 =
       Inr (set_groups (fold drop_from_groups ?gone (fs_groups s1))
             (set_links (fold drop_links_of ?gone (fs_links s1))
               (set_nodes (fold om_remove ?gone (fs_nodes s1)) s1)))"
  proof (rule remove_nodes_phase)
    show "distinct ?gone" using om_ok_distinct [OF schema_okD(1) [OF a]] by (rule distinct_filter)
    show "om_get (fs_nodes s1) n \<noteq> None" if "n \<in> set ?gone" for n
      unfolding s1_def set_field_views by (rule om_get_removed_key [OF schema_okD(1) [OF a] that])
  qed
  moreover have "fs_groups s1 = fs_groups a" "fs_links s1 = fs_links a" "fs_nodes s1 = ?mid"
    by (simp_all only: s1_def set_field_views)
  moreover have "set_groups grs (set_links (fs_links a) (set_nodes (fs_nodes b) s1)) = s2"
    by (simp add: s1_def s2_def) (simp add: set_nodes_def set_links_def set_groups_def)
  ultimately have "apply_ops (diff_added AddNode (fs_nodes a) (fs_nodes b)) a = Inr s1"
    "apply_ops (diff_removed RemoveNode (fs_nodes a) (fs_nodes b)) s1 = Inr s2"
    by (simp_all only: diff_removed_def kept nodes1 grs_def [symmetric])
  moreover have s2: "fs_links s2 = fs_links a" "fs_groups s2 = grs" "fs_subgraphs s2 = fs_subgraphs a"
    by (simp_all add: s2_def)
  have grs: "om_ok grs" "om_get grs k =
      map_option (\<lambda>gr. gr\<lparr>gp_node_ids := gp_node_ids gr - set ?gone\<rparr>) (om_get (fs_groups a) k)" for k
    unfolding grs_def using fold_drop_groups [OF schema_okD(3) [OF a]] by blast+
  have keys: "om_keys grs = om_keys (fs_groups a)"
  proof -
    have "om_keys (fold drop_from_groups ns m) = om_keys m" for ns m
      by (induction ns arbitrary: m) (simp_all add: drop_from_groups_def om_keys_map_values)
    then show ?thesis by (simp add: grs_def)
  qed
  have agree_grs: "agree grs (fs_groups b)"
    unfolding agree_def list_all_iff
  proof (intro ballI)
    fix e assume e: "e \<in> set grs"
    obtain k gr where kgr: "e = (k, gr)" by (cases e)
    with e grs(1) have "om_get grs k = Some gr" by (simp add: om_get_iff)
    then obtain gr0 where gr0: "om_get (fs_groups a) k = Some gr0"
        "gr = gr0\<lparr>gp_node_ids := gp_node_ids gr0 - set ?gone\<rparr>"
      using grs(2) [of k] by auto
    have "om_get (fs_groups b) k = None \<or> om_get (fs_groups b) k = Some gr0"
      using agree(3) om_get_in_set [OF gr0(1)] by (auto simp: agree_def list_all_iff)
    moreover have "gr = gr0" if "om_get (fs_groups b) k = Some gr0"
    proof -
      have "gr0 \<in> set (om_values (fs_groups b))" using om_get_in_set [OF that] by force
      then have "gp_node_ids gr0 \<inter> set ?gone = {}" using hang unfolding list_all_iff by auto
      then have "gp_node_ids gr0 - set ?gone = gp_node_ids gr0" by blast
      with gr0(2) show ?thesis by simp
    qed
    ultimately show "case e of (k, v) \<Rightarrow> om_get (fs_groups b) k = None \<or> om_get (fs_groups b) k = Some v"
      using kgr by auto
  qed
  have diffs: "diff_added AddGroup (fs_groups a) (fs_groups b) = diff_added AddGroup grs (fs_groups b)"
    "diff_removed RemoveGroup (fs_groups a) (fs_groups b) = diff_removed RemoveGroup grs (fs_groups b)"
    using keys by (simp_all add: diff_added_def diff_removed_def om_contains_iff cong: filter_cong)
  have "apply_ops (diff_added AddLink (fs_links a) (fs_links b)
      @ diff_removed RemoveLink (fs_links a) (fs_links b)) s2 = Inr (set_links (fs_links b) s2)"
    unfolding s2(1) [symmetric]
    by (rule entries_phase [of fs_links s2 "fs_links b" ln_id AddLink set_links RemoveLink,
          OF _ schema_okD(2) [OF b] names(2) _ add_ops(2) remove_ops(1) set_field_views(7)
            set_field_twice(2) set_field_id(2)])
      (simp_all only: s2 schema_okD [OF a] agree not_False_eq_True)
  moreover define s3 where "s3 = set_links (fs_links b) s2"
  have s3: "fs_groups s3 = grs" "fs_subgraphs s3 = fs_subgraphs a" by (simp_all add: s3_def s2)
  have "apply_ops (diff_added AddGroup grs (fs_groups b)
      @ diff_removed RemoveGroup grs (fs_groups b)) s3 = Inr (set_groups (fs_groups b) s3)"
    unfolding s3(1) [symmetric]
    by (rule entries_phase [of fs_groups s3 "fs_groups b" gp_id AddGroup set_groups RemoveGroup,
          OF _ schema_okD(3) [OF b] names(3) _ add_ops(3) remove_ops(2) set_field_views(13)
            set_field_twice(3) set_field_id(3)])
      (simp_all only: s3 agree_grs grs(1) not_False_eq_True)
  moreover define s4 where "s4 = set_groups (fs_groups b) s3"
  have s4: "fs_subgraphs s4 = fs_subgraphs a" by (simp add: s4_def s3)
  have "apply_ops (diff_added AddSubgraph (fs_subgraphs a) (fs_subgraphs b)
      @ diff_removed RemoveSubgraph (fs_subgraphs a) (fs_subgraphs b)) s4 = Inr (set_subgraphs (fs_subgraphs b) s4)"
    unfolding s4(1) [symmetric]
    by (rule entries_phase [of fs_subgraphs s4 "fs_subgraphs b" sg_id AddSubgraph set_subgraphs
          RemoveSubgraph, OF _ schema_okD(4) [OF b] names(4) _ add_ops(4) remove_ops(3)
            set_field_views(19) set_field_twice(4) set_field_id(4)])
      (simp_all only: s4 schema_okD [OF a] agree not_False_eq_True)
  moreover have "diff_ops a b = diff_added AddNode (fs_nodes a) (fs_nodes b)
      @ diff_removed RemoveNode (fs_nodes a) (fs_nodes b)
      @ (diff_added AddLink (fs_links a) (fs_links b) @ diff_removed RemoveLink (fs_links a) (fs_links b))
      @ (diff_added AddGroup grs (fs_groups b) @ diff_removed RemoveGroup grs (fs_groups b))
      @ (diff_added AddSubgraph (fs_subgraphs a) (fs_subgraphs b)
          @ diff_removed RemoveSubgraph (fs_subgraphs a) (fs_subgraphs b))"
    by (simp add: diff_ops_def diffs)
  ultimately have "apply_ops (diff_ops a b) a = Inr (set_subgraphs (fs_subgraphs b) s4)"
    by (simp only: apply_ops_seq s3_def [symmetric] s4_def [symmetric])
  then show ?thesis
    by (simp add: compute_diff_def new_patch_def s4_def s3_def s2_def)
      (simp add: set_nodes_def set_links_def set_groups_def set_subgraphs_def)
qed

definition sample_source :: "nat flow_graph_schema" where
  "sample_source = FlowGraphSchema 1 50 7 [(1, sample_node 1), (2, sample_node 2)]
     [(7, new_link 7 1 2 1 1)] [(4, new_group 4 ''g'')] [] []"

definition sample_target :: "nat flow_graph_schema" where
  "sample_target = FlowGraphSchema 1 50 7 [(1, sample_node 1), (3, sample_node 3)]
     [(8, new_link 8 3 2 1 1)] [(4, new_group 4 ''g'')] [] []"

theorem diff_patch_roundtrip_witness:
  "apply_ops (pt_ops (compute_diff 60 5 sample_source sample_target ''a'')) sample_source =
     Inr sample_target"
proof -
  have "diff_exact sample_source sample_target"
    by (simp add: diff_exact_def sample_source_def sample_target_def schema_ok_def om_ok_def
        link_closed_def edges_def node_set_def named_def agree_def sample_node_def new_node_def
        new_link_def new_group_def om_contains_def attached_def)
  from diff_patch_roundtrip [OF this, of 60 5 "''a''"] show ?thesis
    by (simp add: sample_source_def sample_target_def set_nodes_def set_links_def set_groups_def
        set_subgraphs_def)
qed

section \<open>Where a diff cannot be applied\<close>

lemma filter_eq_single: "distinct xs \<Longrightarrow> x \<in> set xs \<Longrightarrow> filter (\<lambda>y. y = x) xs = [x]"
  by (induction xs) (auto simp: filter_empty_conv)

lemma diff_added_subset: "dom (om_get b) \<subseteq> dom (om_get a) \<Longrightarrow> diff_added add a b = []"
proof -
  assume sub: "dom (om_get b) \<subseteq> dom (om_get a)"
  have "filter (\<lambda>(k, v). \<not> om_contains a k) b = []"
    using sub unfolding filter_empty_conv dom_om_get by (force simp: om_contains_iff)
  then show ?thesis by (simp add: diff_added_def)
qed

text \<open>Removing a node that carries a link yields a graph whose diff against the original cannot be
  applied: \<open>RemoveNode\<close> already drops the link, and the \<open>RemoveLink\<close> that \<open>compute_diff\<close> emits after
  it fails with \<open>LinkNotFound\<close>.\<close>

theorem diff_of_node_removal_fails:
  "let g = graph_run fresh d t l ks in
   case remove_node e n g of
     (Inl _, _) \<Rightarrow> True
   | (Inr _, g') \<Rightarrow>
       if list_ex (attached n) (om_values (fs_links (fg_schema g)))
       then \<exists>k. apply_ops (diff_ops (fg_schema g) (fg_schema g')) (fg_schema g) = Inl (LinkNotFound k)
       else True"
proof -
  let ?g = "graph_run fresh d t l ks"
  let ?s = "fg_schema ?g"
  have ok: "schema_ok ?s" by (rule graph_run_ok)
  show ?thesis
  proof (cases "om_get (fs_nodes ?s) n")
    case None
    then show ?thesis by (simp add: remove_node_def Let_def)
  next
    case (Some node)
    let ?b = "fg_schema (snd (remove_node e n ?g))"
    have b: "fs_nodes ?b = om_remove n (fs_nodes ?s)" "fs_links ?b = drop_links_of n (fs_links ?s)"
      using Some by (simp_all add: remove_node_def Let_def)
    have get_links: "om_get (fs_links ?b) k = (case om_get (fs_links ?s) k of None \<Rightarrow> None
        | Some l \<Rightarrow> if attached n l then None else Some l)" for k
      unfolding b(2) drop_links_of_def om_get_retain [OF schema_okD(2) [OF ok]]
      by (auto simp: attached_def split: option.split)
    have "\<exists>k. apply_ops (diff_ops ?s ?b) ?s = Inl (LinkNotFound k)"
      if some: "list_ex (attached n) (om_values (fs_links ?s))"
    proof -
      let ?lost = "filter (\<lambda>k. \<not> om_contains (fs_links ?b) k) (om_keys (fs_links ?s))"
      have nodes: "diff_added AddNode (fs_nodes ?s) (fs_nodes ?b) = []"
        by (rule diff_added_subset) (auto simp: b om_get_remove)
      have links: "diff_added AddLink (fs_links ?s) (fs_links ?b) = []"
        by (rule diff_added_subset) (auto simp: get_links dom_def split: option.splits)
      have "n \<in> set (om_keys (fs_nodes ?s))" using Some by (force dest: om_get_in_set)
      moreover have "filter (\<lambda>k. \<not> om_contains (fs_nodes ?b) k) (om_keys (fs_nodes ?s)) =
          filter (\<lambda>k. k = n) (om_keys (fs_nodes ?s))"
        by (rule filter_cong) (auto simp: b om_contains_def om_get_remove map_of_eq_None_iff)
      ultimately have removed: "diff_removed RemoveNode (fs_nodes ?s) (fs_nodes ?b) = [RemoveNode n]"
        using filter_eq_single [OF om_ok_distinct [OF schema_okD(1) [OF ok]]] by (simp add: diff_removed_def)
      from some obtain l where l: "l \<in> set (om_values (fs_links ?s))" "attached n l"
        by (auto simp: list_ex_iff)
      then obtain k0 where k0: "om_get (fs_links ?s) k0 = Some l"
        using om_values_mem [OF schema_okD(2) [OF ok]] by blast
      with l(2) get_links [of k0] have "k0 \<in> set ?lost"
        by (force simp: om_contains_def dest: om_get_in_set)
      then obtain k rest where lost: "?lost = k # rest" by (cases ?lost) auto
      then have "k \<in> set ?lost" by simp
      then have k: "\<not> om_contains (fs_links ?b) k" by simp
      let ?s1 = "set_groups (drop_from_groups n (fs_groups ?s))
        (set_links (drop_links_of n (fs_links ?s)) (set_nodes (om_remove n (fs_nodes ?s)) ?s))"
      have "apply_op_to_schema (RemoveNode n) ?s = Inr ?s1"
        using Some by (simp add: om_contains_def)
      moreover have "apply_op_to_schema (RemoveLink k) ?s1 = Inl (LinkNotFound k)"
        using k by (simp add: b(2))
      ultimately have "apply_ops (diff_ops ?s ?b) ?s = Inl (LinkNotFound k)"
        unfolding diff_ops_def nodes links removed diff_removed_def [of RemoveLink] lost by simp
      then show ?thesis by blast
    qed
    then show ?thesis using Some by (simp add: Let_def remove_node_def)
  qed
qed

section \<open>Unchecked links\<close>

definition patched_schema :: "nat flow_graph_schema" where
  "patched_schema = FlowGraphSchema 1 50 7 [(1, sample_node 1), (2, sample_node 2)]
     [(5, new_link 5 2 2 2 1), (6, new_link 6 1 2 9 1)] [] [] []"

lemma patched_adjacency: "adjacency_list patched_schema = [(1, [9]), (2, [2])]"
  by (simp add: adjacency_list_def patched_schema_def new_link_def)

lemma patched_degrees: "in_degrees patched_schema = [(1, 0), (2, 1), (9, 1)]"
  unfolding in_degrees_def patched_adjacency by (simp add: patched_schema_def degree_of_def)

lemma patched_order: "topological_order patched_schema = Some (Inr [1, 9])"
  unfolding topological_order_def patched_adjacency patched_degrees
  by (simp add: patched_schema_def degree_of_def kahn.simps)

lemma patched_cycle: "detect_cycle (Suc (Suc fuel)) patched_schema = Some (Inl (CycleDetected [2, 2]))"
  unfolding detect_cycle_def patched_adjacency
  by (simp add: patched_schema_def colour_of_def cycle_at_def position_def)

text \<open>A patch can add links that \<open>add_link\<close> would refuse, and then \<open>topological_order\<close> can
  succeed on a cyclic graph: here it returns a node that does not exist and leaves out one that
  does, while \<open>detect_cycle\<close> reports the cycle.\<close>
theorem patched_links_break_order:
  "let g = graph_run 50 7 8 new_log [(graph_env, CAddNode (sample_node 1)), (graph_env, CAddNode (sample_node 2))];
       (r, g') = apply_patch graph_env
         (new_patch 60 5 ''a'' [AddLink (new_link 5 2 2 2 1), AddLink (new_link 6 1 2 9 1)]) g
   in r = Inr () \<and> om_keys (fs_nodes (fg_schema g')) = [1, 2]
      \<and> topological_order (fg_schema g') = Some (Inr [1, 9])
      \<and> detect_cycle (cycle_fuel (fg_schema g')) (fg_schema g') = Some (Inl (CycleDetected [2, 2]))"
proof -
  let ?g = "graph_run 50 7 8 new_log [(graph_env, CAddNode (sample_node 1)), (graph_env, CAddNode (sample_node 2))]"
  have "fg_schema ?g = FlowGraphSchema 1 50 7 [(1, sample_node 1), (2, sample_node 2)] [] [] [] []"
    by (simp add: graph_run_def graph_step_def add_node_def Let_def new_flow_graph_def new_schema_def
        GRAPH_SCHEMA_VERSION_def set_nodes_def) (simp add: sample_node_def new_node_def)
  then have "apply_ops [AddLink (new_link 5 2 2 2 1), AddLink (new_link 6 1 2 9 1)] (fg_schema ?g) =
      Inr patched_schema"
    by (simp add: om_contains_def set_links_def patched_schema_def) (simp add: new_link_def)
  moreover have "cycle_fuel patched_schema = Suc (Suc 2)"
    by (simp add: cycle_fuel_def patched_schema_def)
  then have "detect_cycle (cycle_fuel patched_schema) patched_schema = Some (Inl (CycleDetected [2, 2]))"
    by (simp only: patched_cycle)
  moreover have "om_keys (fs_nodes patched_schema) = [1, 2]"
    by (simp add: patched_schema_def)
  ultimately show ?thesis
    by (simp add: apply_patch_def new_patch_def Let_def patched_order del: apply_ops.simps)
qed

section \<open>Execution contracts\<close>

text \<open>Over any run of calls an execution contract only moves forward (\<open>Idle\<close>, \<open>Running\<close>,
  \<open>Progress\<close>, ended), its log only grows, and once it has ended nothing changes it or the log.\<close>

theorem contract_moves_forward:
  fixes s :: "'j contract_sys"
  shows "contract_rank (nc_state (fst s)) \<le> contract_rank (nc_state (fst (fold (contract_step to_str) ks s)))
   \<and> prefix (al_entries (snd s)) (al_entries (snd (fold (contract_step to_str) ks s)))
   \<and> (if node_is_terminal (nc_state (fst s)) then fold (contract_step to_str) ks s = s else True)"
  using contract_life.run_rank [of s to_str ks] contract_life.run_terminal [of s to_str ks]
    contract_audit.run_extends [of s to_str ks]
  by simp

text \<open>The execution state a graph reports for a node is never anything but \<open>Idle\<close>, whatever is
  called on the graph: contracts keep their own state and nothing writes it back.\<close>

theorem reported_state_stays_idle:
  "case execution_state (graph_run fresh d t l ks) n of None \<Rightarrow> True | Some st \<Rightarrow> st = Idle"
  using graph_run_ok(2) [of fresh d t l ks]
  by (auto simp: execution_state_def ran_def split: option.split)

end
