(* ===== verification/Mesh_Schema.thy ===== *)
theory Mesh_Schema
  imports Action_Log Ordered_Map "HOL-Library.Char_ord" "HOL-Library.List_Lexorder"
begin

text \<open>
  The schema registry of the mesh (\<open>mesh.rs\<close>): errors, semantic versions with their text form,
  and the registered versions of each content type. A Rust string is the list of its UTF-8 bytes;
  \<open>str::parse::<u32>\<close>, \<open>split\<close>, \<open>trim().is_empty()\<close> and decimal formatting are written out.
\<close>

section \<open>Errors\<close>

datatype mesh_error =
    MeshNotFound artifact_id
  | AlreadyConsumed artifact_id
  | InvalidSchemaVersion string
  | SchemaNotRegistered string string
  | SchemaVersionMismatch string string string
  | ConcurrentEdit uuid u64 u64
  | BatchMismatch string
  | EmptyBatch
  | AlreadyExists artifact_id

section \<open>Text of the standard library\<close>

text \<open>\<open>split(c)\<close>: the pieces between the separators, one more than there are separators.\<close>

fun split_on :: "char \<Rightarrow> string \<Rightarrow> string list" where
  "split_on c [] = [[]]"
| "split_on c (x # xs) =
     (if x = c then [] # split_on c xs
      else case split_on c xs of [] \<Rightarrow> [[x]] | piece # pieces \<Rightarrow> (x # piece) # pieces)"

definition is_digit :: "char \<Rightarrow> bool" where
  "is_digit c = (48 \<le> (of_char c :: nat) \<and> (of_char c :: nat) \<le> 57)"

text \<open>The digits of a \<open>u32\<close>, with the overflow check of every step.\<close>

fun digits_value :: "nat \<Rightarrow> string \<Rightarrow> nat option" where
  "digits_value acc [] = Some acc"
| "digits_value acc (c # cs) =
     (if is_digit c \<and> 10 * acc + (of_char c - 48) < 2 ^ 32
      then digits_value (10 * acc + (of_char c - 48)) cs
      else None)"

definition parse_u32 :: "string \<Rightarrow> u32 option" where
  "parse_u32 s =
     (case s of
        [] \<Rightarrow> None
      | c # cs \<Rightarrow>
          map_option of_nat
            (if c = CHR ''+'' then (if cs = [] then None else digits_value 0 cs)
             else digits_value 0 s))"

fun show_nat :: "nat \<Rightarrow> string" where
  "show_nat n =
     (if n < 10 then [char_of (48 + n)] else show_nat (n div 10) @ [char_of (48 + n mod 10)])"

declare show_nat.simps [simp del]

text \<open>The characters with the Unicode property \<open>White_Space\<close>, as UTF-8 bytes.\<close>

definition wide_space :: "nat \<Rightarrow> nat \<Rightarrow> nat \<Rightarrow> bool" where
  "wide_space a b c =
     (a = 0xE1 \<and> b = 0x9A \<and> c = 0x80
      \<or> a = 0xE2 \<and> b = 0x80 \<and> (0x80 \<le> c \<and> c \<le> 0x8A \<or> c = 0xA8 \<or> c = 0xA9 \<or> c = 0xAF)
      \<or> a = 0xE2 \<and> b = 0x81 \<and> c = 0x9F
      \<or> a = 0xE3 \<and> b = 0x80 \<and> c = 0x80)"

fun blank_bytes :: "nat list \<Rightarrow> bool" where
  "blank_bytes [] = True"
| "blank_bytes (a # bs) =
     (if 9 \<le> a \<and> a \<le> 13 \<or> a = 32 then blank_bytes bs
      else (case bs of
              [] \<Rightarrow> False
            | b # cs \<Rightarrow>
                if a = 0xC2 \<and> (b = 0x85 \<or> b = 0xA0) then blank_bytes cs
                else (case cs of [] \<Rightarrow> False | c # ds \<Rightarrow> wide_space a b c \<and> blank_bytes ds)))"

definition trimmed_empty :: "string \<Rightarrow> bool" where
  "trimmed_empty s = blank_bytes (map of_char s)"

section \<open>Schema versions\<close>

datatype schema_version = SchemaVersion (sv_major: u32) (sv_minor: u32) (sv_patch: u32)

text \<open>The derived order compares the fields in the order of their declaration.\<close>

instantiation schema_version :: linorder
begin

definition less_eq_schema_version :: "schema_version \<Rightarrow> schema_version \<Rightarrow> bool" where
  "less_eq_schema_version v w =
     (sv_major v < sv_major w \<or> sv_major v = sv_major w \<and>
       (sv_minor v < sv_minor w \<or> sv_minor v = sv_minor w \<and> sv_patch v \<le> sv_patch w))"

definition less_schema_version :: "schema_version \<Rightarrow> schema_version \<Rightarrow> bool" where
  "less_schema_version v w =
     (sv_major v < sv_major w \<or> sv_major v = sv_major w \<and>
       (sv_minor v < sv_minor w \<or> sv_minor v = sv_minor w \<and> sv_patch v < sv_patch w))"

instance
  by intro_classes
    (auto simp: less_eq_schema_version_def less_schema_version_def intro: schema_version.expand)

end

definition version_parse :: "string \<Rightarrow> mesh_error + schema_version" where
  "version_parse value =
     (case split_on (CHR ''.'') value of
        [a, b, c] \<Rightarrow>
          (case parse_u32 a of
             None \<Rightarrow> Inl (InvalidSchemaVersion value)
           | Some major \<Rightarrow>
               (case parse_u32 b of
                  None \<Rightarrow> Inl (InvalidSchemaVersion value)
                | Some minor \<Rightarrow>
                    (case parse_u32 c of
                       None \<Rightarrow> Inl (InvalidSchemaVersion value)
                     | Some patch \<Rightarrow> Inr (SchemaVersion major minor patch))))
      | _ \<Rightarrow> Inl (InvalidSchemaVersion value))"

definition version_text :: "schema_version \<Rightarrow> string" where
  "version_text v =
     show_nat (unat (sv_major v)) @ ''.'' @ show_nat (unat (sv_minor v)) @ ''.''
       @ show_nat (unat (sv_patch v))"

section \<open>Registry\<close>

record schema_definition =
  sd_content_type :: string
  sd_version :: schema_version
  sd_description :: string
  sd_registered_at_ms :: u64

type_synonym schema_registry = "string \<rightharpoonup> (schema_version, schema_definition) om"

definition empty_registry :: schema_registry where
  "empty_registry = Map.empty"

definition register_schema ::
  "u64 \<Rightarrow> string \<Rightarrow> string \<Rightarrow> string \<Rightarrow> schema_registry
     \<Rightarrow> (mesh_error, schema_definition, schema_registry) outcome" where
  "register_schema now content_type version description reg =
     (case version_parse version of
        Inl err \<Rightarrow> (Inl err, reg)
      | Inr v \<Rightarrow>
          (let new_def = \<lparr>sd_content_type = content_type, sd_version = v,
                 sd_description = description, sd_registered_at_ms = now\<rparr>;
               versions = (case reg content_type of None \<Rightarrow> om_empty | Some vs \<Rightarrow> vs)
           in (Inr new_def, reg(content_type \<mapsto> om_insert v new_def versions))))"

definition lookup_schema :: "schema_registry \<Rightarrow> string \<Rightarrow> schema_version \<Rightarrow> schema_definition option" where
  "lookup_schema reg content_type v =
     (case reg content_type of None \<Rightarrow> None | Some versions \<Rightarrow> om_get versions v)"

definition validate_version :: "schema_registry \<Rightarrow> string \<Rightarrow> schema_version \<Rightarrow> mesh_error + unit" where
  "validate_version reg content_type v =
     (case reg content_type of
        None \<Rightarrow> Inl (SchemaNotRegistered content_type (version_text v))
      | Some versions \<Rightarrow>
          if om_contains versions v then Inr ()
          else (case find (\<lambda>(w, _). sv_major w = sv_major v) (rev versions) of
                  Some (expected, _) \<Rightarrow>
                    Inl (SchemaVersionMismatch content_type (version_text expected) (version_text v))
                | None \<Rightarrow> Inl (SchemaNotRegistered content_type (version_text v))))"

section \<open>Printing and parsing\<close>

lemma split_on_append: "c \<notin> set xs \<Longrightarrow> split_on c (xs @ c # ys) = xs # split_on c ys"
  by (induction xs) auto

lemma split_on_none: "c \<notin> set xs \<Longrightarrow> split_on c xs = [xs]"
  by (induction xs) auto

lemma of_char_digit: "k < 10 \<Longrightarrow> of_char (char_of (48 + k) :: char) = (48 + k :: nat)"
  by simp

lemma is_digit_digit: "k < 10 \<Longrightarrow> is_digit (char_of (48 + k :: nat))"
  by (simp add: is_digit_def)

lemma show_nat_digits: "list_all is_digit (show_nat n)"
  by (induction n rule: show_nat.induct) (subst show_nat.simps, simp add: is_digit_digit)

lemma show_nat_nonempty: "show_nat n \<noteq> []"
  by (subst show_nat.simps) simp

lemma digits_value_append:
  "digits_value acc (xs @ ys) =
     (case digits_value acc xs of None \<Rightarrow> None | Some acc' \<Rightarrow> digits_value acc' ys)"
  by (induction xs arbitrary: acc) auto

lemma digits_value_show: "n < 2 ^ 32 \<Longrightarrow> digits_value 0 (show_nat n) = Some n"
proof (induction n rule: show_nat.induct)
  case (1 n)
  show ?case
  proof (cases "n < 10")
    case True
    then show ?thesis by (subst show_nat.simps) (simp add: is_digit_digit)
  next
    case False
    with 1 have "digits_value 0 (show_nat (n div 10)) = Some (n div 10)" by simp
    moreover have "n mod 10 < 10" by simp
    ultimately show ?thesis using 1(2) False
      by (subst show_nat.simps) (simp add: digits_value_append is_digit_digit)
  qed
qed

lemma parse_u32_show: "n < 2 ^ 32 \<Longrightarrow> parse_u32 (show_nat n) = Some (of_nat n)"
proof -
  assume n: "n < 2 ^ 32"
  obtain c cs where cs: "show_nat n = c # cs" using show_nat_nonempty by (cases "show_nat n") auto
  then have "is_digit c" using show_nat_digits [of n] by simp
  then have "c \<noteq> CHR ''+''" by (auto simp: is_digit_def)
  then show ?thesis using digits_value_show [OF n] by (simp add: parse_u32_def cs del: digits_value.simps)
qed

lemma no_dot_in_number: "CHR ''.'' \<notin> set (show_nat n)"
  using show_nat_digits [of n] by (auto simp: list_all_iff is_digit_def)

lemma version_parse_text: "version_parse (version_text v) = Inr v"
proof -
  have "split_on (CHR ''.'') (version_text v) =
      [show_nat (unat (sv_major v)), show_nat (unat (sv_minor v)), show_nat (unat (sv_patch v))]"
    by (simp add: version_text_def split_on_append split_on_none no_dot_in_number)
  moreover have "parse_u32 (show_nat (unat w)) = Some w" for w :: u32
    using parse_u32_show [of "unat w"] unsigned_less [of w] by simp
  ultimately show ?thesis by (simp add: version_parse_def)
qed

section \<open>Registries the code builds\<close>

definition registry_ok :: "schema_registry \<Rightarrow> bool" where
  "registry_ok reg = (\<forall>ct versions. reg ct = Some versions \<longrightarrow> om_ok versions)"

definition registered :: "schema_registry \<Rightarrow> string \<Rightarrow> schema_version set" where
  "registered reg ct = dom (lookup_schema reg ct)"

lemma registry_ok_empty: "registry_ok empty_registry"
  by (simp add: registry_ok_def empty_registry_def)

lemma registry_ok_register: "registry_ok reg \<Longrightarrow> registry_ok (after (register_schema now ct v d reg))"
  by (auto simp: registry_ok_def register_schema_def Let_def om_simps split: sum.split option.split)

lemma lookup_register:
  assumes "registry_ok reg" "version_parse v = Inr w"
  shows "lookup_schema (after (register_schema now ct v d reg)) =
    (lookup_schema reg)(ct := (lookup_schema reg ct)(w \<mapsto>
       \<lparr>sd_content_type = ct, sd_version = w, sd_description = d, sd_registered_at_ms = now\<rparr>))"
  using assms
  by (auto simp: fun_eq_iff lookup_schema_def register_schema_def Let_def om_get_insert registry_ok_def
      split: option.split)

text \<open>The last hit of a search in key order is the greatest.\<close>

lemma find_rev_greatest:
  assumes "om_ok m" and "find (\<lambda>(k, _). p k) (rev m) = Some (k, v)"
  shows "om_get m k = Some v" "p k" "{k' \<in> set (om_keys m). p k'} \<subseteq> {..k}"
proof -
  from assms(2) have "\<exists>i < List.length (rev m). p (fst (rev m ! i)) \<and> (k, v) = rev m ! i
      \<and> (\<forall>j < i. \<not> p (fst (rev m ! j)))"
    by (simp add: find_Some_iff case_prod_beta)
  then obtain i where "i < List.length (rev m)" "p (fst (rev m ! i))" "rev m ! i = (k, v)"
      "\<forall>j < i. \<not> p (fst (rev m ! j))"
    by metis
  then have i: "i < List.length (rev m)" "p k" "rev m ! i = (k, v)"
      "\<And>j. j < i \<Longrightarrow> \<not> p (fst (rev m ! j))"
    by simp_all
  then show "p k" by simp
  from i have "(k, v) \<in> set m" by (metis nth_mem set_rev)
  with assms(1) show "om_get m k = Some v" by (simp add: om_get_iff)
  have sorted: "sorted (om_keys m)" using assms(1) by (rule om_ok_sorted)
  have rev_keys: "rev m ! j \<in> set m" if "j < List.length m" for j
    using that by (metis length_rev nth_mem set_rev)
  show "{k' \<in> set (om_keys m). p k'} \<subseteq> {..k}"
  proof
    fix k' assume "k' \<in> {k' \<in> set (om_keys m). p k'}"
    then obtain e where "e \<in> set (rev m)" "fst e = k'" "p k'" by auto
    then obtain j where j: "j < List.length (rev m)" "fst (rev m ! j) = k'" "p k'"
      by (metis in_set_conv_nth)
    with i(4) have "i \<le> j" by (metis not_less)
    with j(1) have "List.length m - Suc j \<le> List.length m - Suc i" by simp
    then have "om_keys m ! (List.length m - Suc j) \<le> om_keys m ! (List.length m - Suc i)"
      using sorted i(1) by (intro sorted_nth_mono) auto
    then show "k' \<in> {..k}" using i(1,3) j by (simp add: rev_nth)
  qed
qed

lemma validate_version_cases:
  assumes "registry_ok reg"
  shows "case validate_version reg ct v of
      Inr _ \<Rightarrow> v \<in> registered reg ct
    | Inl (SchemaVersionMismatch ct' expected actual) \<Rightarrow>
        v \<notin> registered reg ct \<and> ct' = ct \<and> actual = version_text v
        \<and> (\<exists>w \<in> registered reg ct. sv_major w = sv_major v \<and> expected = version_text w
             \<and> {w' \<in> registered reg ct. sv_major w' = sv_major v} \<subseteq> {..w})
    | Inl err \<Rightarrow> err = SchemaNotRegistered ct (version_text v)
        \<and> {w \<in> registered reg ct. sv_major w = sv_major v} = {}"
proof (cases "reg ct")
  case None
  then show ?thesis by (simp add: validate_version_def registered_def lookup_schema_def [abs_def] dom_def)
next
  case (Some versions)
  then have ok: "om_ok versions" using assms by (simp add: registry_ok_def)
  have reg: "registered reg ct = set (om_keys versions)"
    using Some by (simp add: registered_def lookup_schema_def [abs_def] dom_map_of_conv_image_fst)
  show ?thesis
  proof (cases "om_contains versions v")
    case True
    then show ?thesis using Some reg by (simp add: validate_version_def om_contains_iff)
  next
    case False
    show ?thesis
    proof (cases "find (\<lambda>(w, _). sv_major w = sv_major v) (rev versions)")
      case None
      then have "{w \<in> set (om_keys versions). sv_major w = sv_major v} = {}"
        by (auto simp: find_None_iff case_prod_beta)
      then show ?thesis using Some False None reg by (simp add: validate_version_def)
    next
      case (Some hit)
      obtain w d where hit: "hit = (w, d)" by (cases hit)
      note greatest = find_rev_greatest [of versions "\<lambda>w. sv_major w = sv_major v", OF ok Some [unfolded hit]]
      have "w \<in> set (om_keys versions)" using om_get_in_set [OF greatest(1)] by force
      then show ?thesis
        using Some False greatest(2,3) reg \<open>reg ct = Some versions\<close> hit
        by (auto simp: validate_version_def om_contains_iff)
    qed
  qed
qed

end
