(* ===== verification/Mesh.thy ===== *)
theory Mesh
  imports Mesh_Schema
begin

text \<open>
  The mesh artifact store (\<open>mesh.rs\<close>): artifacts with their index, node snapshots, patches with
  revisions, notifications and filters, garbage collection, and replication between two stores.

  The hash maps the code iterates over are kept as maps in key order; the iteration order reaches
  no result but that of \<open>node_states\<close>, whose order the code leaves open (\<open>fold_remove_permuted\<close>
  shows it for garbage collection). An operation reads the clock once here. A new artifact
  identifier is the argument \<open>fresh\<close>; the two broadcast channels are the sequences of values sent.
\<close>

section \<open>Data\<close>

record artifact_provenance =
  ap_producing_task_id :: task_id
  ap_producing_agent_id :: "string option"
  ap_producing_node_id :: "uuid option"
  ap_controller_id :: "uuid option"
  ap_schema_version :: string

record 'j mesh_artifact =
  ma_id :: artifact_id
  ma_dimension_id :: dimension_id
  ma_task_id :: task_id
  ma_node_id :: "uuid option"
  ma_content_type :: string
  ma_tags :: "string list"
  ma_payload :: 'j
  ma_provenance :: artifact_provenance
  ma_created_at_ms :: u64
  ma_immutability_tier :: u8
  ma_consumed :: bool

record 'j node_snapshot =
  ns_artifact_id :: artifact_id
  ns_dimension_id :: dimension_id
  ns_task_id :: task_id
  ns_node_id :: uuid
  ns_state :: 'j
  ns_provenance :: artifact_provenance
  ns_captured_at_ms :: u64
  ns_revision :: u64

datatype 'j patch_op = PatchAdd string 'j | PatchRemove string | PatchReplace string 'j 'j

record 'j diff_patch =
  dp_artifact_id :: artifact_id
  dp_dimension_id :: dimension_id
  dp_task_id :: task_id
  dp_node_id :: uuid
  dp_provenance :: artifact_provenance
  dp_created_at_ms :: u64
  dp_base_revision :: u64
  dp_new_revision :: u64
  dp_conflict :: bool
  dp_before :: 'j
  dp_after :: 'j
  dp_ops :: "'j patch_op list"

section \<open>Notifications\<close>

datatype mesh_notification_kind =
    MeshProduced | MeshConsumed | MeshSnapshot | MeshPatch | MeshBatchProduced | MeshReplicated

record mesh_notification =
  mn_ids :: "artifact_id list"
  mn_kind :: mesh_notification_kind
  mn_dimension_id :: dimension_id
  mn_task_id :: task_id
  mn_node_id :: "uuid option"
  mn_tags :: "string list"
  mn_content_type :: string

definition single_note ::
  "artifact_id \<Rightarrow> mesh_notification_kind \<Rightarrow> dimension_id \<Rightarrow> task_id \<Rightarrow> uuid option \<Rightarrow> string list
     \<Rightarrow> string \<Rightarrow> mesh_notification" where
  "single_note k kind d t n tags ct =
     \<lparr>mn_ids = [k], mn_kind = kind, mn_dimension_id = d, mn_task_id = t, mn_node_id = n,
      mn_tags = tags, mn_content_type = ct\<rparr>"

definition batch_note ::
  "artifact_id list \<Rightarrow> dimension_id \<Rightarrow> task_id \<Rightarrow> uuid option \<Rightarrow> string list \<Rightarrow> string
     \<Rightarrow> mesh_notification" where
  "batch_note ks d t n tags ct =
     \<lparr>mn_ids = ks, mn_kind = MeshBatchProduced, mn_dimension_id = d, mn_task_id = t,
      mn_node_id = n, mn_tags = tags, mn_content_type = ct\<rparr>"

record subscription_filter =
  sf_dimension_id :: "dimension_id option"
  sf_task_id :: "task_id option"
  sf_node_id :: "uuid option"
  sf_tag :: "string option"
  sf_content_type :: "string option"
  sf_kinds :: "mesh_notification_kind list option"

definition filter_matches :: "subscription_filter \<Rightarrow> mesh_notification \<Rightarrow> bool" where
  "filter_matches f note =
     ((case sf_dimension_id f of None \<Rightarrow> True | Some d \<Rightarrow> mn_dimension_id note = d)
      \<and> (case sf_task_id f of None \<Rightarrow> True | Some t \<Rightarrow> mn_task_id note = t)
      \<and> (case sf_node_id f of None \<Rightarrow> True | Some n \<Rightarrow> mn_node_id note = Some n)
      \<and> (case sf_tag f of None \<Rightarrow> True | Some tag \<Rightarrow> list_ex (\<lambda>x. x = tag) (mn_tags note))
      \<and> (case sf_content_type f of None \<Rightarrow> True | Some ct \<Rightarrow> mn_content_type note = ct)
      \<and> (case sf_kinds f of None \<Rightarrow> True | Some ks \<Rightarrow> mn_kind note \<in> set ks))"

text \<open>
  \<open>MeshSubscription::recv\<close> over what the channel still delivers: the answer with the rest of the
  deliveries, or nothing while it waits.
\<close>

fun subscription_recv ::
  "subscription_filter \<Rightarrow> ('e + mesh_notification) list
     \<Rightarrow> (('e + mesh_notification) \<times> ('e + mesh_notification) list) option" where
  "subscription_recv f [] = None"
| "subscription_recv f (Inl err # rest) = Some (Inl err, rest)"
| "subscription_recv f (Inr note # rest) =
     (if filter_matches f note then Some (Inr note, rest) else subscription_recv f rest)"

section \<open>Conflicts and node states\<close>

datatype conflict_strategy = Reject | LastWriteWins

record patch_apply_result =
  pr_artifact_id :: artifact_id
  pr_new_revision :: u64
  pr_conflict :: bool

record 'j patch_request =
  rq_node_id :: uuid
  rq_before :: 'j
  rq_after :: 'j
  rq_ops :: "'j patch_op list"
  rq_task_id :: task_id
  rq_dimension_id :: dimension_id
  rq_expected_revision :: u64
  rq_strategy :: conflict_strategy

record mesh_node_state =
  st_node_id :: uuid
  st_revision :: u64
  st_last_artifact_id :: "artifact_id option"
  st_last_snapshot_id :: "artifact_id option"
  st_last_patch_id :: "artifact_id option"
  st_updated_at_ms :: u64

definition new_node_state :: "u64 \<Rightarrow> uuid \<Rightarrow> mesh_node_state" where
  "new_node_state now n =
     \<lparr>st_node_id = n, st_revision = 0, st_last_artifact_id = None, st_last_snapshot_id = None,
      st_last_patch_id = None, st_updated_at_ms = now\<rparr>"

section \<open>Index\<close>

record artifact_index =
  ai_by_dimension :: "dimension_id \<rightharpoonup> artifact_id list"
  ai_by_task :: "task_id \<rightharpoonup> artifact_id list"
  ai_by_node :: "uuid \<rightharpoonup> artifact_id list"
  ai_by_agent :: "string \<rightharpoonup> artifact_id list"
  ai_by_tag :: "string \<rightharpoonup> artifact_id list"

definition new_artifact_index :: artifact_index where
  "new_artifact_index =
     \<lparr>ai_by_dimension = Map.empty, ai_by_task = Map.empty, ai_by_node = Map.empty,
      ai_by_agent = Map.empty, ai_by_tag = Map.empty\<rparr>"

text \<open>\<open>entry(k).or_default().push(id)\<close>, \<open>get_mut(k)\<close> with \<open>retain\<close>, \<open>get(k).unwrap_or_default()\<close>.\<close>

definition push_at :: "artifact_id \<Rightarrow> 'k \<Rightarrow> ('k \<rightharpoonup> artifact_id list) \<Rightarrow> ('k \<rightharpoonup> artifact_id list)" where
  "push_at i k m = m(k \<mapsto> (case m k of None \<Rightarrow> [] | Some ids \<Rightarrow> ids) @ [i])"

definition drop_at :: "artifact_id \<Rightarrow> 'k \<Rightarrow> ('k \<rightharpoonup> artifact_id list) \<Rightarrow> ('k \<rightharpoonup> artifact_id list)" where
  "drop_at i k m = (case m k of None \<Rightarrow> m | Some ids \<Rightarrow> m(k \<mapsto> filter (\<lambda>x. x \<noteq> i) ids))"

definition ids_at :: "('k \<rightharpoonup> artifact_id list) \<Rightarrow> 'k \<Rightarrow> artifact_id list" where
  "ids_at m k = (case m k of None \<Rightarrow> [] | Some ids \<Rightarrow> ids)"

definition artifact_index_insert :: "'j mesh_artifact \<Rightarrow> artifact_index \<Rightarrow> artifact_index" where
  "artifact_index_insert a ix =
     ix\<lparr>ai_by_dimension := push_at (ma_id a) (ma_dimension_id a) (ai_by_dimension ix),
        ai_by_task := push_at (ma_id a) (ma_task_id a) (ai_by_task ix),
        ai_by_node := (case ma_node_id a of None \<Rightarrow> ai_by_node ix
                       | Some n \<Rightarrow> push_at (ma_id a) n (ai_by_node ix)),
        ai_by_agent := (case ap_producing_agent_id (ma_provenance a) of None \<Rightarrow> ai_by_agent ix
                        | Some ag \<Rightarrow> push_at (ma_id a) ag (ai_by_agent ix)),
        ai_by_tag := fold (push_at (ma_id a)) (ma_tags a) (ai_by_tag ix)\<rparr>"

definition artifact_index_remove :: "'j mesh_artifact \<Rightarrow> artifact_index \<Rightarrow> artifact_index" where
  "artifact_index_remove a ix =
     ix\<lparr>ai_by_dimension := drop_at (ma_id a) (ma_dimension_id a) (ai_by_dimension ix),
        ai_by_task := drop_at (ma_id a) (ma_task_id a) (ai_by_task ix),
        ai_by_node := (case ma_node_id a of None \<Rightarrow> ai_by_node ix
                       | Some n \<Rightarrow> drop_at (ma_id a) n (ai_by_node ix)),
        ai_by_agent := (case ap_producing_agent_id (ma_provenance a) of None \<Rightarrow> ai_by_agent ix
                        | Some ag \<Rightarrow> drop_at (ma_id a) ag (ai_by_agent ix)),
        ai_by_tag := fold (drop_at (ma_id a)) (ma_tags a) (ai_by_tag ix)\<rparr>"

section \<open>Store\<close>

record 'j mesh_store =
  ms_artifacts :: "(artifact_id, 'j mesh_artifact) om"
  ms_snapshots :: "(artifact_id, 'j node_snapshot) om"
  ms_patches :: "(artifact_id, 'j diff_patch) om"
  ms_index :: artifact_index
  ms_schemas :: schema_registry
  ms_node_states :: "(uuid, mesh_node_state) om"
  ms_log :: "'j action_log"
  ms_sent_ids :: "artifact_id list"
  ms_sent :: "mesh_notification list"

definition new_mesh_store :: "u64 \<Rightarrow> 'j action_log \<Rightarrow> 'j mesh_store" where
  "new_mesh_store now l =
     \<lparr>ms_artifacts = om_empty, ms_snapshots = om_empty, ms_patches = om_empty,
      ms_index = new_artifact_index,
      ms_schemas = after (register_schema now ''application/json'' ''1.0.0'' ''Default JSON schema''
                            empty_registry),
      ms_node_states = om_empty, ms_log = l, ms_sent_ids = [], ms_sent = []\<rparr>"

definition mesh_register_schema ::
  "u64 \<Rightarrow> string \<Rightarrow> string \<Rightarrow> string \<Rightarrow> 'j mesh_store
     \<Rightarrow> (mesh_error, schema_definition, 'j mesh_store) outcome" where
  "mesh_register_schema now ct version description s =
     (let r = register_schema now ct version description (ms_schemas s)
      in (result r, s\<lparr>ms_schemas := after r\<rparr>))"

definition mesh_validate_schema :: "string \<Rightarrow> string \<Rightarrow> 'j mesh_store \<Rightarrow> mesh_error + unit" where
  "mesh_validate_schema ct version s =
     (case version_parse version of
        Inl err \<Rightarrow> Inl err
      | Inr v \<Rightarrow> validate_version (ms_schemas s) ct v)"

definition schema_definition_of :: "string \<Rightarrow> string \<Rightarrow> 'j mesh_store \<Rightarrow> schema_definition option" where
  "schema_definition_of ct version s =
     (case version_parse version of
        Inl err \<Rightarrow> None
      | Inr v \<Rightarrow> lookup_schema (ms_schemas s) ct v)"

definition mesh_node_state_of :: "'j mesh_store \<Rightarrow> uuid \<Rightarrow> mesh_node_state option" where
  "mesh_node_state_of s n = om_get (ms_node_states s) n"

definition mesh_node_states :: "'j mesh_store \<Rightarrow> mesh_node_state list" where
  "mesh_node_states s = om_values (ms_node_states s)"

subsection \<open>Helpers\<close>

definition mesh_log ::
  "env \<Rightarrow> event_type \<Rightarrow> dimension_id \<Rightarrow> task_id \<Rightarrow> 'j payload \<Rightarrow> 'j mesh_store \<Rightarrow> 'j mesh_store" where
  "mesh_log e ev d t p s = s\<lparr>ms_log := log_system e ev d t p (ms_log s)\<rparr>"

definition notify :: "mesh_notification \<Rightarrow> 'j mesh_store \<Rightarrow> 'j mesh_store" where
  "notify note s =
     s\<lparr>ms_sent_ids := ms_sent_ids s @ mn_ids note, ms_sent := ms_sent s @ [note]\<rparr>"

definition prepare_artifact :: "u64 \<Rightarrow> 'j mesh_artifact \<Rightarrow> 'j mesh_artifact" where
  "prepare_artifact now a =
     (let p = ma_provenance a;
          p' = p\<lparr>ap_schema_version := (if trimmed_empty (ap_schema_version p) then ''1.0.0''
                                      else ap_schema_version p),
                 ap_producing_task_id := ma_task_id a,
                 ap_producing_node_id := (case ap_producing_node_id p of
                    None \<Rightarrow> ma_node_id a | Some n \<Rightarrow> Some n)\<rparr>
      in a\<lparr>ma_content_type := (if trimmed_empty (ma_content_type a) then ''application/json''
                               else ma_content_type a),
           ma_provenance := p',
           ma_created_at_ms := (if ma_created_at_ms a = 0 then now else ma_created_at_ms a),
           ma_tags := remdups_adj (sort (ma_tags a))\<rparr>)"

definition current_revision :: "'j mesh_store \<Rightarrow> uuid \<Rightarrow> u64" where
  "current_revision s n =
     (case om_get (ms_node_states s) n of None \<Rightarrow> 0 | Some st \<Rightarrow> st_revision st)"

text \<open>\<open>entry(node_id).or_insert_with(|| MeshNodeState::new(node_id))\<close>.\<close>

definition state_or_new :: "u64 \<Rightarrow> uuid \<Rightarrow> 'j mesh_store \<Rightarrow> mesh_node_state" where
  "state_or_new now n s =
     (case om_get (ms_node_states s) n of None \<Rightarrow> new_node_state now n | Some st \<Rightarrow> st)"

definition touch_node_state ::
  "u64 \<Rightarrow> uuid \<Rightarrow> (mesh_node_state \<Rightarrow> mesh_node_state) \<Rightarrow> 'j mesh_store \<Rightarrow> 'j mesh_store" where
  "touch_node_state now n update s =
     s\<lparr>ms_node_states := om_insert n ((update (state_or_new now n s))\<lparr>st_updated_at_ms := now\<rparr>)
         (ms_node_states s)\<rparr>"

definition advance_revision ::
  "u64 \<Rightarrow> uuid \<Rightarrow> u64 \<Rightarrow> conflict_strategy \<Rightarrow> artifact_id option \<Rightarrow> 'j mesh_store
     \<Rightarrow> (mesh_error, u64 \<times> u64 \<times> bool, 'j mesh_store) outcome" where
  "advance_revision now n expected_revision strategy patch_id s =
     (let st = state_or_new now n s;
          base_revision = st_revision st;
          conflict = (base_revision \<noteq> expected_revision)
      in if conflict \<and> strategy = Reject
         then (Inl (ConcurrentEdit n expected_revision base_revision),
               s\<lparr>ms_node_states := om_insert n st (ms_node_states s)\<rparr>)
         else
           let new_revision = saturating_add base_revision 1;
               st' = st\<lparr>st_revision := new_revision,
                        st_last_patch_id := (case patch_id of None \<Rightarrow> st_last_patch_id st
                                             | Some p \<Rightarrow> Some p),
                        st_updated_at_ms := now\<rparr>
           in (Inr (base_revision, new_revision, conflict),
               s\<lparr>ms_node_states := om_insert n st' (ms_node_states s)\<rparr>))"

text \<open>One artifact enters the map and the index, replacing what has its identifier.\<close>

definition put_artifact :: "'j mesh_artifact \<Rightarrow> 'j mesh_store \<Rightarrow> 'j mesh_store" where
  "put_artifact a s =
     (let ix = (case om_get (ms_artifacts s) (ma_id a) of
                  None \<Rightarrow> ms_index s
                | Some old \<Rightarrow> artifact_index_remove old (ms_index s))
      in s\<lparr>ms_index := artifact_index_insert a ix,
           ms_artifacts := om_insert (ma_id a) a (ms_artifacts s)\<rparr>)"

definition touch_optional ::
  "u64 \<Rightarrow> uuid option \<Rightarrow> (mesh_node_state \<Rightarrow> mesh_node_state) \<Rightarrow> 'j mesh_store \<Rightarrow> 'j mesh_store" where
  "touch_optional now node update s =
     (case node of None \<Rightarrow> s | Some n \<Rightarrow> touch_node_state now n update s)"

definition node_text :: "uuid option \<Rightarrow> 'j payload_value" where
  "node_text n = (case n of None \<Rightarrow> PNull | Some k \<Rightarrow> PId k)"

end
