(* ===== verification/Mesh_Ops.thy ===== *)
theory Mesh_Ops
  imports Mesh
begin

text \<open>
  The operations of the mesh store (\<open>mesh.rs\<close>): produce, consume, snapshot, patch, queries,
  garbage collection, replication, and the artifact builder.
\<close>

section \<open>Produce and consume\<close>

definition produce :: "env \<Rightarrow> 'j mesh_artifact \<Rightarrow> 'j mesh_store \<Rightarrow> artifact_id \<times> 'j mesh_store" where
  "produce e artifact s =
     (let a = (prepare_artifact (env_now e) artifact)\<lparr>ma_consumed := False\<rparr>;
          i = ma_id a;
          s1 = put_artifact a s;
          s2 = touch_optional (env_now e) (ma_node_id a) (\<lambda>st. st\<lparr>st_last_artifact_id := Some i\<rparr>) s1;
          s3 = mesh_log e ArtifactProduced (ma_dimension_id a) (ma_task_id a)
                 [(''artifact_id'', PId i), (''dimension_id'', PId (ma_dimension_id a)),
                  (''node_id'', node_text (ma_node_id a)), (''tags'', PTexts (ma_tags a))] s2
      in (i, notify (single_note i MeshProduced (ma_dimension_id a) (ma_task_id a) (ma_node_id a)
                       (ma_tags a) (ma_content_type a)) s3))"

definition produce_validated ::
  "env \<Rightarrow> 'j mesh_artifact \<Rightarrow> 'j mesh_store \<Rightarrow> (mesh_error, artifact_id, 'j mesh_store) outcome" where
  "produce_validated e artifact s =
     (let a = prepare_artifact (env_now e) artifact in
      case mesh_validate_schema (ma_content_type a) (ap_schema_version (ma_provenance a)) s of
        Inl err \<Rightarrow> (Inl err, s)
      | Inr _ \<Rightarrow> (let (i, s') = produce e a s in (Inr i, s')))"

text \<open>The first field in which an artifact of a batch differs from the first one.\<close>

fun batch_mismatch :: "'j mesh_artifact \<Rightarrow> 'j mesh_artifact list \<Rightarrow> string option" where
  "batch_mismatch base [] = None"
| "batch_mismatch base (a # as) =
     (if ma_dimension_id a \<noteq> ma_dimension_id base then Some ''dimension_id''
      else if ma_task_id a \<noteq> ma_task_id base then Some ''task_id''
      else if ma_node_id a \<noteq> ma_node_id base then Some ''node_id''
      else if ma_content_type a \<noteq> ma_content_type base then Some ''content_type''
      else if ma_tags a \<noteq> ma_tags base then Some ''tags''
      else batch_mismatch base as)"

definition produce_batch ::
  "env \<Rightarrow> 'j mesh_artifact list \<Rightarrow> 'j mesh_store
     \<Rightarrow> (mesh_error, artifact_id list, 'j mesh_store) outcome" where
  "produce_batch e artifacts s =
     (case map (prepare_artifact (env_now e)) artifacts of
        [] \<Rightarrow> (Inl EmptyBatch, s)
      | base # others \<Rightarrow>
          (case batch_mismatch base (base # others) of
             Some field \<Rightarrow> (Inl (BatchMismatch field), s)
           | None \<Rightarrow>
               (let as = map (\<lambda>a. a\<lparr>ma_consumed := False\<rparr>) (base # others);
                    ids = map ma_id as;
                    s1 = fold put_artifact as s;
                    s2 = touch_optional (env_now e) (ma_node_id base)
                           (\<lambda>st. st\<lparr>st_last_artifact_id := Some (last ids)\<rparr>) s1;
                    s3 = mesh_log e ArtifactProduced (ma_dimension_id base) (ma_task_id base)
                           [(''artifact_ids'', PIds ids), (''dimension_id'', PId (ma_dimension_id base)),
                            (''node_id'', node_text (ma_node_id base)),
                            (''count'', PNum (of_nat (List.length ids)))] s2
                in (Inr ids, notify (batch_note ids (ma_dimension_id base) (ma_task_id base)
                                       (ma_node_id base) (ma_tags base) (ma_content_type base)) s3))))"

definition consume ::
  "env \<Rightarrow> artifact_id \<Rightarrow> 'j mesh_store \<Rightarrow> (mesh_error, 'j mesh_artifact, 'j mesh_store) outcome" where
  "consume e i s =
     (case om_get (ms_artifacts s) i of
        None \<Rightarrow> (Inl (MeshNotFound i), s)
      | Some a \<Rightarrow>
          if ma_consumed a then (Inl (AlreadyConsumed i), s)
          else
            let a' = a\<lparr>ma_consumed := True\<rparr>;
                s1 = s\<lparr>ms_artifacts := om_insert i a' (ms_artifacts s)\<rparr>;
                s2 = mesh_log e ArtifactConsumed (ma_dimension_id a') (ma_task_id a')
                       [(''artifact_id'', PId i), (''consumer_task_id'', PId (ma_task_id a'))] s1
            in (Inr a', notify (single_note i MeshConsumed (ma_dimension_id a') (ma_task_id a')
                                  (ma_node_id a') (ma_tags a') (ma_content_type a')) s2))"

section \<open>Snapshots and patches\<close>

definition node_provenance_of :: "uuid \<Rightarrow> task_id \<Rightarrow> artifact_provenance" where
  "node_provenance_of n t =
     \<lparr>ap_producing_task_id = t, ap_producing_agent_id = None, ap_producing_node_id = Some n,
      ap_controller_id = None, ap_schema_version = ''1.0.0''\<rparr>"

definition snapshot_node ::
  "env \<Rightarrow> artifact_id \<Rightarrow> uuid \<Rightarrow> 'j \<Rightarrow> task_id \<Rightarrow> dimension_id \<Rightarrow> 'j mesh_store
     \<Rightarrow> artifact_id \<times> 'j mesh_store" where
  "snapshot_node e fresh n state t d s =
     (let revision = current_revision s n;
          snap = \<lparr>ns_artifact_id = fresh, ns_dimension_id = d, ns_task_id = t, ns_node_id = n,
                  ns_state = state, ns_provenance = node_provenance_of n t,
                  ns_captured_at_ms = env_now e, ns_revision = revision\<rparr>;
          s1 = s\<lparr>ms_snapshots := om_insert fresh snap (ms_snapshots s)\<rparr>;
          s2 = touch_node_state (env_now e) n (\<lambda>st. st\<lparr>st_last_snapshot_id := Some fresh\<rparr>) s1;
          s3 = mesh_log e ArtifactSnapshot d t
                 [(''artifact_id'', PId fresh), (''node_id'', PId n), (''revision'', PNum revision)] s2
      in (fresh, notify (single_note fresh MeshSnapshot d t (Some n) [] ''application/json'') s3))"

definition get_snapshot :: "'j mesh_store \<Rightarrow> artifact_id \<Rightarrow> mesh_error + 'j node_snapshot" where
  "get_snapshot s i = (case om_get (ms_snapshots s) i of None \<Rightarrow> Inl (MeshNotFound i) | Some x \<Rightarrow> Inr x)"

definition store_patch :: "env \<Rightarrow> 'j diff_patch \<Rightarrow> 'j mesh_store \<Rightarrow> 'j mesh_store" where
  "store_patch e p s =
     (let s1 = s\<lparr>ms_patches := om_insert (dp_artifact_id p) p (ms_patches s)\<rparr>;
          s2 = mesh_log e ArtifactPatched (dp_dimension_id p) (dp_task_id p)
                 [(''artifact_id'', PId (dp_artifact_id p)), (''node_id'', PId (dp_node_id p)),
                  (''base_revision'', PNum (dp_base_revision p)),
                  (''new_revision'', PNum (dp_new_revision p)),
                  (''conflict'', PBool (dp_conflict p))] s1
      in notify (single_note (dp_artifact_id p) MeshPatch (dp_dimension_id p) (dp_task_id p)
                   (Some (dp_node_id p)) [] ''application/json'') s2)"

definition record_patch ::
  "env \<Rightarrow> artifact_id \<Rightarrow> uuid \<Rightarrow> 'j \<Rightarrow> 'j \<Rightarrow> 'j patch_op list \<Rightarrow> task_id \<Rightarrow> dimension_id
     \<Rightarrow> u64 \<times> u64 \<times> bool \<Rightarrow> 'j mesh_store \<Rightarrow> 'j mesh_store" where
  "record_patch e fresh n pre post ops t d = (\<lambda>(base, new, conflict).
     store_patch e
       \<lparr>dp_artifact_id = fresh, dp_dimension_id = d, dp_task_id = t, dp_node_id = n,
        dp_provenance = node_provenance_of n t, dp_created_at_ms = env_now e,
        dp_base_revision = base, dp_new_revision = new, dp_conflict = conflict,
        dp_before = pre, dp_after = post, dp_ops = ops\<rparr>)"

definition mesh_patch ::
  "env \<Rightarrow> artifact_id \<Rightarrow> uuid \<Rightarrow> 'j \<Rightarrow> 'j \<Rightarrow> 'j patch_op list \<Rightarrow> task_id \<Rightarrow> dimension_id
     \<Rightarrow> 'j mesh_store \<Rightarrow> artifact_id \<times> 'j mesh_store" where
  "mesh_patch e fresh n pre post ops t d s =
     (let (r, s1) = advance_revision (env_now e) n (current_revision s n) LastWriteWins (Some fresh) s;
          revisions = (case r of
             Inr rs \<Rightarrow> rs
           | Inl _ \<Rightarrow> (current_revision s1 n, saturating_add (current_revision s1 n) 1, True))
      in (fresh, record_patch e fresh n pre post ops t d revisions s1))"

text \<open>The private \<open>force_patch\<close> repeats the body of \<open>patch\<close>, with a \<open>match\<close> for the closure.\<close>

definition force_patch ::
  "env \<Rightarrow> artifact_id \<Rightarrow> uuid \<Rightarrow> 'j \<Rightarrow> 'j \<Rightarrow> 'j patch_op list \<Rightarrow> task_id \<Rightarrow> dimension_id
     \<Rightarrow> 'j mesh_store \<Rightarrow> artifact_id \<times> 'j mesh_store" where
  "force_patch e fresh n pre post ops t d s =
     (case advance_revision (env_now e) n (current_revision s n) LastWriteWins (Some fresh) s of
        (Inr revisions, s1) \<Rightarrow> (fresh, record_patch e fresh n pre post ops t d revisions s1)
      | (Inl _, s1) \<Rightarrow>
          (let current = current_revision s1 n
           in (fresh, record_patch e fresh n pre post ops t d (current, saturating_add current 1, True) s1)))"

lemma force_patch_is_patch: "force_patch e fresh n pre post ops t d s = mesh_patch e fresh n pre post ops t d s"
  by (simp add: force_patch_def mesh_patch_def Let_def split: prod.split sum.split)

definition patch_with_revision ::
  "env \<Rightarrow> artifact_id \<Rightarrow> 'j patch_request \<Rightarrow> 'j mesh_store
     \<Rightarrow> (mesh_error, patch_apply_result, 'j mesh_store) outcome" where
  "patch_with_revision e fresh rq s =
     (case advance_revision (env_now e) (rq_node_id rq) (rq_expected_revision rq) (rq_strategy rq)
             (Some fresh) s of
        (Inl err, s1) \<Rightarrow> (Inl err, s1)
      | (Inr (base, new, conflict), s1) \<Rightarrow>
          (Inr \<lparr>pr_artifact_id = fresh, pr_new_revision = new, pr_conflict = conflict\<rparr>,
           record_patch e fresh (rq_node_id rq) (rq_before rq) (rq_after rq) (rq_ops rq)
             (rq_task_id rq) (rq_dimension_id rq) (base, new, conflict) s1))"

definition get_patch :: "'j mesh_store \<Rightarrow> artifact_id \<Rightarrow> mesh_error + 'j diff_patch" where
  "get_patch s i = (case om_get (ms_patches s) i of None \<Rightarrow> Inl (MeshNotFound i) | Some x \<Rightarrow> Inr x)"

section \<open>Queries\<close>

definition artifacts_for_dimension :: "'j mesh_store \<Rightarrow> dimension_id \<Rightarrow> artifact_id list" where
  "artifacts_for_dimension s = ids_at (ai_by_dimension (ms_index s))"

definition artifacts_for_task :: "'j mesh_store \<Rightarrow> task_id \<Rightarrow> artifact_id list" where
  "artifacts_for_task s = ids_at (ai_by_task (ms_index s))"

definition artifacts_for_node :: "'j mesh_store \<Rightarrow> uuid \<Rightarrow> artifact_id list" where
  "artifacts_for_node s = ids_at (ai_by_node (ms_index s))"

definition artifacts_for_agent :: "'j mesh_store \<Rightarrow> string \<Rightarrow> artifact_id list" where
  "artifacts_for_agent s = ids_at (ai_by_agent (ms_index s))"

definition artifacts_with_tag :: "'j mesh_store \<Rightarrow> string \<Rightarrow> artifact_id list" where
  "artifacts_with_tag s = ids_at (ai_by_tag (ms_index s))"

definition get_artifact :: "'j mesh_store \<Rightarrow> artifact_id \<Rightarrow> mesh_error + 'j mesh_artifact" where
  "get_artifact s i = (case om_get (ms_artifacts s) i of None \<Rightarrow> Inl (MeshNotFound i) | Some x \<Rightarrow> Inr x)"

definition artifact_count :: "'j mesh_store \<Rightarrow> nat" where
  "artifact_count s = List.length (ms_artifacts s)"

section \<open>Garbage collection\<close>

record gc_policy =
  gc_active_dimensions :: "dimension_id set"
  gc_remove_consumed_ephemeral :: bool
  gc_remove_orphaned_nodes :: bool
  gc_expire_before_ms :: "u64 option"

definition default_gc_policy :: gc_policy where
  "default_gc_policy =
     \<lparr>gc_active_dimensions = {}, gc_remove_consumed_ephemeral = True, gc_remove_orphaned_nodes = True,
      gc_expire_before_ms = None\<rparr>"

record gc_report =
  gr_artifacts_removed :: nat
  gr_snapshots_removed :: nat
  gr_patches_removed :: nat

definition gc_expired :: "gc_policy \<Rightarrow> u64 \<Rightarrow> bool" where
  "gc_expired p t = (case gc_expire_before_ms p of None \<Rightarrow> False | Some cutoff \<Rightarrow> t < cutoff)"

definition gc_inactive :: "gc_policy \<Rightarrow> dimension_id \<Rightarrow> bool" where
  "gc_inactive p d = (gc_active_dimensions p \<noteq> {} \<and> d \<notin> gc_active_dimensions p)"

definition gc_drops_artifact :: "gc_policy \<Rightarrow> 'j mesh_artifact \<Rightarrow> bool" where
  "gc_drops_artifact p a =
     (gc_expired p (ma_created_at_ms a)
      \<or> gc_inactive p (ma_dimension_id a) \<and> ma_immutability_tier a \<le> 1
      \<or> gc_remove_consumed_ephemeral p \<and> ma_immutability_tier a = 0 \<and> ma_consumed a)"

definition gc_drops_snapshot :: "gc_policy \<Rightarrow> (uuid, mesh_node_state) om \<Rightarrow> 'j node_snapshot \<Rightarrow> bool" where
  "gc_drops_snapshot p known x =
     (gc_expired p (ns_captured_at_ms x) \<or> gc_inactive p (ns_dimension_id x)
      \<or> gc_remove_orphaned_nodes p \<and> \<not> om_contains known (ns_node_id x))"

definition gc_drops_patch :: "gc_policy \<Rightarrow> 'j diff_patch \<Rightarrow> bool" where
  "gc_drops_patch p x = (gc_expired p (dp_created_at_ms x) \<or> gc_inactive p (dp_dimension_id x))"

definition forget_last_artifact ::
  "'j mesh_artifact \<Rightarrow> (uuid, mesh_node_state) om \<Rightarrow> (uuid, mesh_node_state) om" where
  "forget_last_artifact a states =
     (case ma_node_id a of
        None \<Rightarrow> states
      | Some n \<Rightarrow>
          (case om_get states n of
             None \<Rightarrow> states
           | Some st \<Rightarrow>
               if st_last_artifact_id st = Some (ma_id a)
               then om_insert n (st\<lparr>st_last_artifact_id := None\<rparr>) states else states))"

definition collect_garbage :: "gc_policy \<Rightarrow> 'j mesh_store \<Rightarrow> gc_report \<times> 'j mesh_store" where
  "collect_garbage p s =
     (let removed = filter (gc_drops_artifact p) (om_values (ms_artifacts s));
          arts = om_retain (\<lambda>_ a. \<not> gc_drops_artifact p a) (ms_artifacts s);
          index = fold artifact_index_remove removed (ms_index s);
          states = fold forget_last_artifact removed (ms_node_states s);
          snaps = om_retain (\<lambda>_ x. \<not> gc_drops_snapshot p states x) (ms_snapshots s);
          patches = om_retain (\<lambda>_ x. \<not> gc_drops_patch p x) (ms_patches s)
      in (\<lparr>gr_artifacts_removed = List.length removed,
           gr_snapshots_removed =
             List.length (filter (gc_drops_snapshot p states) (om_values (ms_snapshots s))),
           gr_patches_removed = List.length (filter (gc_drops_patch p) (om_values (ms_patches s)))\<rparr>,
          s\<lparr>ms_artifacts := arts, ms_index := index, ms_node_states := states,
            ms_snapshots := snaps, ms_patches := patches\<rparr>))"

section \<open>Replication\<close>

definition insert_replicated_artifact ::
  "env \<Rightarrow> 'j mesh_artifact \<Rightarrow> 'j mesh_store \<Rightarrow> (mesh_error, unit, 'j mesh_store) outcome" where
  "insert_replicated_artifact e a s =
     (if om_contains (ms_artifacts s) (ma_id a) then (Inl (AlreadyExists (ma_id a)), s)
      else
        let s1 = s\<lparr>ms_index := artifact_index_insert a (ms_index s),
                   ms_artifacts := om_insert (ma_id a) a (ms_artifacts s)\<rparr>;
            s2 = touch_optional (env_now e) (ma_node_id a)
                   (\<lambda>st. st\<lparr>st_last_artifact_id := Some (ma_id a)\<rparr>) s1;
            s3 = mesh_log e ArtifactProduced (ma_dimension_id a) (ma_task_id a)
                   [(''artifact_id'', PId (ma_id a)), (''replicated'', PBool True)] s2
        in (Inr (), notify (single_note (ma_id a) MeshReplicated (ma_dimension_id a) (ma_task_id a)
                              (ma_node_id a) (ma_tags a) (ma_content_type a)) s3))"

definition insert_replicated_snapshot ::
  "env \<Rightarrow> 'j node_snapshot \<Rightarrow> 'j mesh_store \<Rightarrow> (mesh_error, unit, 'j mesh_store) outcome" where
  "insert_replicated_snapshot e x s =
     (if om_contains (ms_snapshots s) (ns_artifact_id x) then (Inl (AlreadyExists (ns_artifact_id x)), s)
      else
        let i = ns_artifact_id x;
            s1 = s\<lparr>ms_snapshots := om_insert i x (ms_snapshots s)\<rparr>;
            s2 = touch_node_state (env_now e) (ns_node_id x)
                   (\<lambda>st. if st_revision st \<le> ns_revision x
                         then st\<lparr>st_last_snapshot_id := Some i, st_revision := ns_revision x\<rparr>
                         else st) s1
        in (Inr (), notify (single_note i MeshReplicated (ns_dimension_id x) (ns_task_id x)
                              (Some (ns_node_id x)) [] ''application/json'') s2))"

definition insert_replicated_patch ::
  "env \<Rightarrow> 'j diff_patch \<Rightarrow> 'j mesh_store \<Rightarrow> (mesh_error, unit, 'j mesh_store) outcome" where
  "insert_replicated_patch e x s =
     (if om_contains (ms_patches s) (dp_artifact_id x) then (Inl (AlreadyExists (dp_artifact_id x)), s)
      else
        let i = dp_artifact_id x;
            s1 = s\<lparr>ms_patches := om_insert i x (ms_patches s)\<rparr>;
            s2 = touch_node_state (env_now e) (dp_node_id x)
                   (\<lambda>st. if st_revision st \<le> dp_new_revision x
                         then st\<lparr>st_last_patch_id := Some i, st_revision := dp_new_revision x\<rparr>
                         else st) s1
        in (Inr (), notify (single_note i MeshReplicated (dp_dimension_id x) (dp_task_id x)
                              (Some (dp_node_id x)) [] ''application/json'') s2))"

text \<open>The replicator reads the source store and writes the target store.\<close>

definition replicate_with ::
  "('j mesh_store \<Rightarrow> artifact_id \<Rightarrow> mesh_error + 'x)
     \<Rightarrow> (env \<Rightarrow> 'x \<Rightarrow> 'j mesh_store \<Rightarrow> (mesh_error, unit, 'j mesh_store) outcome)
     \<Rightarrow> env \<Rightarrow> artifact_id \<Rightarrow> 'j mesh_store \<Rightarrow> 'j mesh_store
     \<Rightarrow> (mesh_error, artifact_id, 'j mesh_store) outcome" where
  "replicate_with get_it put_it e i source target =
     (case get_it source i of
        Inl err \<Rightarrow> (Inl err, target)
      | Inr x \<Rightarrow>
          (case put_it e x target of (Inl err, t) \<Rightarrow> (Inl err, t) | (Inr _, t) \<Rightarrow> (Inr i, t)))"

definition replicate_artifact ::
  "env \<Rightarrow> artifact_id \<Rightarrow> 'j mesh_store \<Rightarrow> 'j mesh_store
     \<Rightarrow> (mesh_error, artifact_id, 'j mesh_store) outcome" where
  "replicate_artifact = replicate_with get_artifact insert_replicated_artifact"

definition replicate_snapshot ::
  "env \<Rightarrow> artifact_id \<Rightarrow> 'j mesh_store \<Rightarrow> 'j mesh_store
     \<Rightarrow> (mesh_error, artifact_id, 'j mesh_store) outcome" where
  "replicate_snapshot = replicate_with get_snapshot insert_replicated_snapshot"

definition replicate_patch ::
  "env \<Rightarrow> artifact_id \<Rightarrow> 'j mesh_store \<Rightarrow> 'j mesh_store
     \<Rightarrow> (mesh_error, artifact_id, 'j mesh_store) outcome" where
  "replicate_patch = replicate_with get_patch insert_replicated_patch"

definition replicate_one ::
  "mesh_notification_kind \<Rightarrow> env \<Rightarrow> artifact_id \<Rightarrow> 'j mesh_store \<Rightarrow> 'j mesh_store
     \<Rightarrow> (mesh_error, artifact_id, 'j mesh_store) outcome" where
  "replicate_one kind e i source target =
     (case kind of
        MeshSnapshot \<Rightarrow> replicate_snapshot e i source target
      | MeshPatch \<Rightarrow> replicate_patch e i source target
      | MeshReplicated \<Rightarrow>
          if is_ok (get_snapshot source i) then replicate_snapshot e i source target
          else if is_ok (get_patch source i) then replicate_patch e i source target
          else replicate_artifact e i source target
      | _ \<Rightarrow> replicate_artifact e i source target)"

text \<open>The loop of \<open>replicate_notification\<close>: it stops at the first error and keeps what it copied.
  \<open>es i\<close> is what the environment gives to the copy after \<open>i\<close> successes.\<close>

fun replicate_ids ::
  "mesh_notification_kind \<Rightarrow> (nat \<Rightarrow> env) \<Rightarrow> artifact_id list \<Rightarrow> nat \<Rightarrow> 'j mesh_store \<Rightarrow> 'j mesh_store
     \<Rightarrow> (mesh_error, nat, 'j mesh_store) outcome" where
  "replicate_ids kind es [] replicated source target = (Inr replicated, target)"
| "replicate_ids kind es (i # is) replicated source target =
     (case replicate_one kind (es replicated) i source target of
        (Inl err, t) \<Rightarrow> (Inl err, t)
      | (Inr _, t) \<Rightarrow> replicate_ids kind es is (replicated + 1) source t)"

definition replicate_notification ::
  "(nat \<Rightarrow> env) \<Rightarrow> mesh_notification \<Rightarrow> 'j mesh_store \<Rightarrow> 'j mesh_store
     \<Rightarrow> (mesh_error, nat, 'j mesh_store) outcome" where
  "replicate_notification es note source target =
     replicate_ids (mn_kind note) es (mn_ids note) 0 source target"

section \<open>Builder\<close>

definition new_artifact :: "artifact_id \<Rightarrow> 'j \<Rightarrow> dimension_id \<Rightarrow> task_id \<Rightarrow> 'j mesh_artifact" where
  "new_artifact fresh null d t =
     \<lparr>ma_id = fresh, ma_dimension_id = d, ma_task_id = t, ma_node_id = None,
      ma_content_type = ''application/json'', ma_tags = [], ma_payload = null,
      ma_provenance = \<lparr>ap_producing_task_id = t, ap_producing_agent_id = None,
        ap_producing_node_id = None, ap_controller_id = None, ap_schema_version = ''1.0.0''\<rparr>,
      ma_created_at_ms = 0, ma_immutability_tier = 1, ma_consumed = False\<rparr>"

definition with_node :: "uuid \<Rightarrow> 'j mesh_artifact \<Rightarrow> 'j mesh_artifact" where
  "with_node n a =
     a\<lparr>ma_node_id := Some n, ma_provenance := (ma_provenance a)\<lparr>ap_producing_node_id := Some n\<rparr>\<rparr>"

definition with_tag :: "string \<Rightarrow> 'j mesh_artifact \<Rightarrow> 'j mesh_artifact" where
  "with_tag tag a = a\<lparr>ma_tags := ma_tags a @ [tag]\<rparr>"

definition with_tags :: "string list \<Rightarrow> 'j mesh_artifact \<Rightarrow> 'j mesh_artifact" where
  "with_tags tags a = a\<lparr>ma_tags := tags\<rparr>"

definition with_content_type :: "string \<Rightarrow> 'j mesh_artifact \<Rightarrow> 'j mesh_artifact" where
  "with_content_type ct a = a\<lparr>ma_content_type := ct\<rparr>"

definition with_payload :: "'j \<Rightarrow> 'j mesh_artifact \<Rightarrow> 'j mesh_artifact" where
  "with_payload payload a = a\<lparr>ma_payload := payload\<rparr>"

definition with_tier :: "u8 \<Rightarrow> 'j mesh_artifact \<Rightarrow> 'j mesh_artifact" where
  "with_tier tier a = a\<lparr>ma_immutability_tier := tier\<rparr>"

definition with_agent :: "string \<Rightarrow> 'j mesh_artifact \<Rightarrow> 'j mesh_artifact" where
  "with_agent agent a =
     a\<lparr>ma_provenance := (ma_provenance a)\<lparr>ap_producing_agent_id := Some agent\<rparr>\<rparr>"

definition with_controller :: "uuid \<Rightarrow> 'j mesh_artifact \<Rightarrow> 'j mesh_artifact" where
  "with_controller c a = a\<lparr>ma_provenance := (ma_provenance a)\<lparr>ap_controller_id := Some c\<rparr>\<rparr>"

definition with_schema_version :: "string \<Rightarrow> 'j mesh_artifact \<Rightarrow> 'j mesh_artifact" where
  "with_schema_version v a = a\<lparr>ma_provenance := (ma_provenance a)\<lparr>ap_schema_version := v\<rparr>\<rparr>"

end
