(* ===== verification/Mesh_Index.thy ===== *)
theory Mesh_Index
  imports Mesh_Ops "HOL-Library.Multiset"
begin

text \<open>
  The five indexes of the mesh keep one contract: \<open>secondary_index\<close> states what adding and
  deleting an artifact does to an index, and its lemmas show that the index stays exact under the
  store's updates. Each index of \<open>ArtifactIndex\<close> interprets it.
\<close>

section \<open>Contract\<close>

definition exact_index ::
  "('a \<Rightarrow> 'k list) \<Rightarrow> ('ix \<Rightarrow> 'k \<Rightarrow> artifact_id list) \<Rightarrow> (artifact_id, 'a) om \<Rightarrow> 'ix \<Rightarrow> bool" where
  "exact_index keys query arts ix =
     (\<forall>k. distinct (query ix k)
        \<and> set (query ix k) = {i. \<exists>a. om_get arts i = Some a \<and> k \<in> set (keys a)})"

locale secondary_index =
  fixes keys :: "'a \<Rightarrow> 'k list"
    and id_of :: "'a \<Rightarrow> artifact_id"
    and query :: "'ix \<Rightarrow> 'k \<Rightarrow> artifact_id list"
    and add :: "'a \<Rightarrow> 'ix \<Rightarrow> 'ix"
    and del :: "'a \<Rightarrow> 'ix \<Rightarrow> 'ix"
  assumes query_add: "distinct (keys a) \<Longrightarrow>
      query (add a ix) k = query ix k @ (if k \<in> set (keys a) then [id_of a] else [])"
    and query_del: "query (del a ix) k =
      (if k \<in> set (keys a) then filter (\<lambda>i. i \<noteq> id_of a) (query ix k) else query ix k)"
begin

lemma exact_add:
  assumes "om_ok arts" "exact_index keys query arts ix" "om_get arts (id_of a) = None" "distinct (keys a)"
  shows "exact_index keys query (om_insert (id_of a) a arts) (add a ix)"
  unfolding exact_index_def
proof (intro allI conjI)
  fix k
  have old: "distinct (query ix k)" "set (query ix k) = {i. \<exists>a. om_get arts i = Some a \<and> k \<in> set (keys a)}"
    using assms(2) by (simp_all add: exact_index_def)
  then have "id_of a \<notin> set (query ix k)" using assms(3) by simp
  with old(1) show "distinct (query (add a ix) k)" by (simp add: query_add assms(4))
  show "set (query (add a ix) k) =
      {i. \<exists>a'. om_get (om_insert (id_of a) a arts) i = Some a' \<and> k \<in> set (keys a')}"
    using assms(3) by (auto simp: query_add assms(4) old(2) om_get_insert [OF assms(1)])
qed

lemma exact_del:
  assumes "exact_index keys query arts ix" "om_get arts (id_of a) = Some a"
  shows "exact_index keys query (om_remove (id_of a) arts) (del a ix)"
  unfolding exact_index_def
proof (intro allI conjI)
  fix k
  have old: "distinct (query ix k)" "set (query ix k) = {i. \<exists>a. om_get arts i = Some a \<and> k \<in> set (keys a)}"
    using assms(1) by (simp_all add: exact_index_def)
  show "distinct (query (del a ix) k)" by (simp add: query_del old(1))
  show "set (query (del a ix) k) =
      {i. \<exists>a'. om_get (om_remove (id_of a) arts) i = Some a' \<and> k \<in> set (keys a')}"
    using assms(2) by (auto simp: query_del old(2) om_get_remove)
qed

text \<open>Replacing an artifact: the old one leaves the index before the new one enters it.\<close>

lemma exact_put:
  assumes ok: "om_ok arts" and exact: "exact_index keys query arts ix" and ids: "identified id_of arts"
    and keys: "distinct (keys a)"
  shows "exact_index keys query (om_insert (id_of a) a arts)
    (add a (case om_get arts (id_of a) of None \<Rightarrow> ix | Some old \<Rightarrow> del old ix))"
proof (cases "om_get arts (id_of a)")
  case None
  then show ?thesis using exact_add [OF ok exact _ keys] by simp
next
  case (Some old)
  with ids have id: "id_of old = id_of a" by (simp add: identified_def)
  have "om_insert (id_of a) a (om_remove (id_of a) arts) = om_insert (id_of a) a arts"
    by (rule om_ext) (simp_all add: ok om_simps)
  moreover have "exact_index keys query (om_remove (id_of a) arts) (del old ix)"
    using exact_del [OF exact, of old] Some id by simp
  ultimately show ?thesis
    using exact_add [OF om_remove_ok [OF ok] _ _ keys, of "id_of a"] Some
    by (metis (no_types, lifting) exact_add fun_upd_same keys ok om_get_remove om_remove_ok option.simps(5))
qed

text \<open>A change that keeps identifier and keys of the artifact.\<close>

lemma exact_update:
  assumes "om_ok arts" "exact_index keys query arts ix" "om_get arts i = Some a" "keys a' = keys a"
  shows "exact_index keys query (om_insert i a' arts) ix"
proof -
  have "{j. \<exists>x. om_get (om_insert i a' arts) j = Some x \<and> k \<in> set (keys x)} =
      {j. \<exists>x. om_get arts j = Some x \<and> k \<in> set (keys x)}" for k
    using assms(3,4) by (auto simp: om_get_insert [OF assms(1)])
  with assms(2) show ?thesis by (simp add: exact_index_def)
qed

lemma exact_fold_del:
  assumes "om_ok arts" "exact_index keys query arts ix" "identified id_of arts"
    "distinct (map id_of as)" "\<And>a. a \<in> set as \<Longrightarrow> om_get arts (id_of a) = Some a"
  shows "exact_index keys query (fold om_remove (map id_of as) arts) (fold del as ix)"
  using assms
proof (induction as arbitrary: arts ix)
  case Nil
  then show ?case by simp
next
  case (Cons a as)
  have "om_get (om_remove (id_of a) arts) (id_of b) = Some b" if "b \<in> set as" for b
  proof -
    have "id_of b \<noteq> id_of a" using Cons.prems(4) that by (auto simp: image_iff)
    then show ?thesis using Cons.prems(5) [of b] that by (simp add: om_get_remove)
  qed
  with Cons show ?case
    by (auto intro!: Cons.IH om_remove_ok exact_del identified_remove)
qed

end

section \<open>Deletion order\<close>

lemma drop_at_commute: "drop_at i k (drop_at j l m) = drop_at j l (drop_at i k m)"
  by (auto simp: drop_at_def fun_eq_iff conj_commute split: option.split)

lemma fold_drop_at_commute:
  "fold (drop_at i) ks (drop_at j l m) = drop_at j l (fold (drop_at i) ks m)"
  by (induction ks arbitrary: m) (simp_all add: drop_at_commute [of _ _ j])

lemma fold_drop_at_commutes:
  "fold (drop_at i) ks (fold (drop_at j) ls m) = fold (drop_at j) ls (fold (drop_at i) ks m)"
  by (induction ls arbitrary: m) (simp_all add: fold_drop_at_commute [symmetric])

lemma index_remove_views:
  "ai_by_dimension (artifact_index_remove a ix) = drop_at (ma_id a) (ma_dimension_id a) (ai_by_dimension ix)"
  "ai_by_task (artifact_index_remove a ix) = drop_at (ma_id a) (ma_task_id a) (ai_by_task ix)"
  "ai_by_node (artifact_index_remove a ix) = (case ma_node_id a of None \<Rightarrow> ai_by_node ix
      | Some n \<Rightarrow> drop_at (ma_id a) n (ai_by_node ix))"
  "ai_by_agent (artifact_index_remove a ix) =
     (case ap_producing_agent_id (ma_provenance a) of None \<Rightarrow> ai_by_agent ix
      | Some ag \<Rightarrow> drop_at (ma_id a) ag (ai_by_agent ix))"
  "ai_by_tag (artifact_index_remove a ix) = fold (drop_at (ma_id a)) (ma_tags a) (ai_by_tag ix)"
  by (simp_all add: artifact_index_remove_def)

lemma optional_drop_commute:
  "(case k of None \<Rightarrow> case l of None \<Rightarrow> m | Some y \<Rightarrow> drop_at j y m
     | Some x \<Rightarrow> drop_at i x (case l of None \<Rightarrow> m | Some y \<Rightarrow> drop_at j y m)) =
   (case l of None \<Rightarrow> case k of None \<Rightarrow> m | Some x \<Rightarrow> drop_at i x m
     | Some y \<Rightarrow> drop_at j y (case k of None \<Rightarrow> m | Some x \<Rightarrow> drop_at i x m))"
  by (cases k; cases l) (simp_all only: option.case drop_at_commute [of i _ j])

lemma artifact_index_remove_commute:
  "artifact_index_remove a (artifact_index_remove b ix) =
     artifact_index_remove b (artifact_index_remove a ix)"
  for ix :: artifact_index
proof (rule artifact_index.equality)
qed (unfold index_remove_views, rule drop_at_commute, rule drop_at_commute, rule optional_drop_commute,
    rule optional_drop_commute, rule fold_drop_at_commutes, simp)

text \<open>The order in which garbage collection meets the artifacts does not matter to the index.\<close>

lemma fold_remove_permuted:
  "mset xs = mset ys \<Longrightarrow> fold artifact_index_remove xs = fold artifact_index_remove ys"
  by (rule fold_multiset_equiv) (rule ext, unfold comp_apply, rule artifact_index_remove_commute)

section \<open>The five indexes\<close>

lemma ids_at_push: "ids_at (push_at i k m) k' = ids_at m k' @ (if k' = k then [i] else [])"
  by (simp add: ids_at_def push_at_def)

lemma ids_at_drop: "ids_at (drop_at i k m) k' =
    (if k' = k then filter (\<lambda>x. x \<noteq> i) (ids_at m k') else ids_at m k')"
  by (simp add: ids_at_def drop_at_def split: option.split)

lemma ids_at_fold_push:
  "distinct ks \<Longrightarrow> ids_at (fold (push_at i) ks m) k = ids_at m k @ (if k \<in> set ks then [i] else [])"
  by (induction ks arbitrary: m) (auto simp: ids_at_push)

lemma ids_at_fold_drop:
  "ids_at (fold (drop_at i) ks m) k =
     (if k \<in> set ks then filter (\<lambda>x. x \<noteq> i) (ids_at m k) else ids_at m k)"
  by (induction ks arbitrary: m) (auto simp: ids_at_drop)

definition node_keys :: "'j mesh_artifact \<Rightarrow> uuid list" where
  "node_keys a = (case ma_node_id a of None \<Rightarrow> [] | Some n \<Rightarrow> [n])"

definition agent_keys :: "'j mesh_artifact \<Rightarrow> string list" where
  "agent_keys a = (case ap_producing_agent_id (ma_provenance a) of None \<Rightarrow> [] | Some ag \<Rightarrow> [ag])"

interpretation ix_dimension: secondary_index "\<lambda>a :: 'j mesh_artifact. [ma_dimension_id a]" ma_id
    "\<lambda>ix. ids_at (ai_by_dimension ix)" artifact_index_insert artifact_index_remove
  by unfold_locales (simp_all add: artifact_index_insert_def artifact_index_remove_def ids_at_push ids_at_drop)

interpretation ix_task: secondary_index "\<lambda>a :: 'j mesh_artifact. [ma_task_id a]" ma_id
    "\<lambda>ix. ids_at (ai_by_task ix)" artifact_index_insert artifact_index_remove
  by unfold_locales (simp_all add: artifact_index_insert_def artifact_index_remove_def ids_at_push ids_at_drop)

interpretation ix_node: secondary_index "node_keys :: 'j mesh_artifact \<Rightarrow> uuid list" ma_id
    "\<lambda>ix. ids_at (ai_by_node ix)" artifact_index_insert artifact_index_remove
  by unfold_locales
    (simp_all add: artifact_index_insert_def artifact_index_remove_def node_keys_def ids_at_push ids_at_drop
      split: option.split)

interpretation ix_agent: secondary_index "agent_keys :: 'j mesh_artifact \<Rightarrow> string list" ma_id
    "\<lambda>ix. ids_at (ai_by_agent ix)" artifact_index_insert artifact_index_remove
  by unfold_locales
    (simp_all add: artifact_index_insert_def artifact_index_remove_def agent_keys_def ids_at_push ids_at_drop
      split: option.split)

interpretation ix_tag: secondary_index "ma_tags :: 'j mesh_artifact \<Rightarrow> string list" ma_id
    "\<lambda>ix. ids_at (ai_by_tag ix)" artifact_index_insert artifact_index_remove
  by unfold_locales
    (simp_all add: artifact_index_insert_def artifact_index_remove_def ids_at_fold_push ids_at_fold_drop)

end
