(* ===== verification/Mesh_Inv.thy ===== *)
theory Mesh_Inv
  imports Mesh_Index
begin

text \<open>
  What every operation of a mesh store keeps: exact indexes, records filed under their own
  identifiers, a node state for every snapshot and patch with a revision at least theirs, and
  sorted schema registries. The calls as one type, the two stores of a replicator as one system.
\<close>

section \<open>Calls\<close>

datatype 'j mesh_op =
    MRegisterSchema string string string
  | MProduce "'j mesh_artifact"
  | MProduceValidated "'j mesh_artifact"
  | MProduceBatch "'j mesh_artifact list"
  | MConsume artifact_id
  | MSnapshot artifact_id uuid 'j task_id dimension_id
  | MPatch artifact_id uuid 'j 'j "'j patch_op list" task_id dimension_id
  | MPatchWithRevision artifact_id "'j patch_request"
  | MCollect gc_policy

primrec mesh_call ::
  "env \<Rightarrow> 'j mesh_op \<Rightarrow> 'j mesh_store \<Rightarrow> mesh_error option \<times> 'j mesh_store" where
  "mesh_call e (MRegisterSchema ct v d) s =
     (let r = mesh_register_schema (env_now e) ct v d s in (err_of (result r), after r))"
| "mesh_call e (MProduce a) s = (None, snd (produce e a s))"
| "mesh_call e (MProduceValidated a) s =
     (let r = produce_validated e a s in (err_of (result r), after r))"
| "mesh_call e (MProduceBatch as) s = (let r = produce_batch e as s in (err_of (result r), after r))"
| "mesh_call e (MConsume i) s = (let r = consume e i s in (err_of (result r), after r))"
| "mesh_call e (MSnapshot fresh n state t d) s = (None, snd (snapshot_node e fresh n state t d s))"
| "mesh_call e (MPatch fresh n pre post ops t d) s =
     (None, snd (mesh_patch e fresh n pre post ops t d s))"
| "mesh_call e (MPatchWithRevision fresh rq) s =
     (let r = patch_with_revision e fresh rq s in (err_of (result r), after r))"
| "mesh_call e (MCollect p) s = (None, snd (collect_garbage p s))"

definition mesh_step :: "env \<times> 'j mesh_op \<Rightarrow> 'j mesh_store \<Rightarrow> 'j mesh_store" where
  "mesh_step k s = snd (mesh_call (fst k) (snd k) s)"

text \<open>Two stores joined by a replicator: calls on either, and the replicator's own operations.\<close>

datatype 'j mesh_link_op =
    AtSource "env \<times> 'j mesh_op"
  | AtTarget "env \<times> 'j mesh_op"
  | ReplicateArtifact env artifact_id
  | ReplicateSnapshot env artifact_id
  | ReplicatePatch env artifact_id
  | ReplicateNotification "nat \<Rightarrow> env" mesh_notification

primrec mesh_link_step ::
  "'j mesh_link_op \<Rightarrow> 'j mesh_store \<times> 'j mesh_store \<Rightarrow> 'j mesh_store \<times> 'j mesh_store" where
  "mesh_link_step (AtSource k) st = (mesh_step k (fst st), snd st)"
| "mesh_link_step (AtTarget k) st = (fst st, mesh_step k (snd st))"
| "mesh_link_step (ReplicateArtifact e i) st = (fst st, after (replicate_artifact e i (fst st) (snd st)))"
| "mesh_link_step (ReplicateSnapshot e i) st = (fst st, after (replicate_snapshot e i (fst st) (snd st)))"
| "mesh_link_step (ReplicatePatch e i) st = (fst st, after (replicate_patch e i (fst st) (snd st)))"
| "mesh_link_step (ReplicateNotification es note) st =
     (fst st, after (replicate_notification es note (fst st) (snd st)))"

section \<open>Invariants\<close>

definition index_ok :: "(artifact_id, 'j mesh_artifact) om \<Rightarrow> artifact_index \<Rightarrow> bool" where
  "index_ok arts ix =
     (om_ok arts \<and> identified ma_id arts
      \<and> list_all (\<lambda>a. distinct (ma_tags a)) (om_values arts)
      \<and> exact_index (\<lambda>a. [ma_dimension_id a]) (\<lambda>ix. ids_at (ai_by_dimension ix)) arts ix
      \<and> exact_index (\<lambda>a. [ma_task_id a]) (\<lambda>ix. ids_at (ai_by_task ix)) arts ix
      \<and> exact_index node_keys (\<lambda>ix. ids_at (ai_by_node ix)) arts ix
      \<and> exact_index agent_keys (\<lambda>ix. ids_at (ai_by_agent ix)) arts ix
      \<and> exact_index ma_tags (\<lambda>ix. ids_at (ai_by_tag ix)) arts ix)"

definition snapshot_known :: "(uuid, mesh_node_state) om \<Rightarrow> 'j node_snapshot \<Rightarrow> bool" where
  "snapshot_known states x =
     (case om_get states (ns_node_id x) of None \<Rightarrow> False | Some st \<Rightarrow> ns_revision x \<le> st_revision st)"

definition patch_known :: "(uuid, mesh_node_state) om \<Rightarrow> 'j diff_patch \<Rightarrow> bool" where
  "patch_known states x =
     (case om_get states (dp_node_id x) of None \<Rightarrow> False | Some st \<Rightarrow> dp_new_revision x \<le> st_revision st)"

definition revisions_ok ::
  "(uuid, mesh_node_state) om \<Rightarrow> (artifact_id, 'j node_snapshot) om \<Rightarrow> (artifact_id, 'j diff_patch) om
     \<Rightarrow> bool" where
  "revisions_ok states snaps patches =
     (om_ok states \<and> om_ok snaps \<and> om_ok patches
      \<and> identified ns_artifact_id snaps \<and> identified dp_artifact_id patches
      \<and> list_all (snapshot_known states) (om_values snaps)
      \<and> list_all (patch_known states) (om_values patches))"

definition mesh_ok :: "'j mesh_store \<Rightarrow> bool" where
  "mesh_ok s =
     (index_ok (ms_artifacts s) (ms_index s)
      \<and> revisions_ok (ms_node_states s) (ms_snapshots s) (ms_patches s)
      \<and> registry_ok (ms_schemas s))"

lemma mesh_ok_cong:
  assumes "ms_artifacts s' = ms_artifacts s" "ms_index s' = ms_index s"
    "ms_node_states s' = ms_node_states s" "ms_snapshots s' = ms_snapshots s"
    "ms_patches s' = ms_patches s" "ms_schemas s' = ms_schemas s"
  shows "mesh_ok s' = mesh_ok s"
  using assms by (simp add: mesh_ok_def)

section \<open>Index and artifacts\<close>

lemmas index_ok_rules =
  ix_dimension.exact_put ix_task.exact_put ix_node.exact_put ix_agent.exact_put ix_tag.exact_put

lemma list_all_values_insert:
  "om_ok m \<Longrightarrow> list_all P (om_values m) \<Longrightarrow> P v \<Longrightarrow> list_all P (om_values (om_insert k v m))"
proof (induction m)
  case Nil
  then show ?case by simp
next
  case (Cons e m)
  then show ?case by (cases e) (auto simp: om_ok_Cons)
qed

lemma list_all_values_retain:
  "list_all P (om_values m) \<Longrightarrow> list_all P (om_values (om_retain p m))"
  by (auto simp: list_all_iff om_retain_def)

lemma list_all_values_get: "list_all P (om_values m) \<Longrightarrow> om_get m k = Some v \<Longrightarrow> P v"
  by (force simp: list_all_iff dest: om_get_in_set)

lemma index_ok_put:
  assumes ok: "index_ok arts ix" and tags: "distinct (ma_tags a)"
  shows "index_ok (om_insert (ma_id a) a arts) (artifact_index_insert a
    (case om_get arts (ma_id a) of None \<Rightarrow> ix | Some old \<Rightarrow> artifact_index_remove old ix))"
proof -
  note parts = ok [unfolded index_ok_def]
  have nodes: "distinct (node_keys a)" "distinct (agent_keys a)"
    by (simp_all add: node_keys_def agent_keys_def split: option.split)
  show ?thesis
    unfolding index_ok_def
    using parts tags nodes
    by (intro conjI om_insert_ok identified_insert list_all_values_insert index_ok_rules) simp_all
qed

lemma index_ok_put_artifact:
  "index_ok (ms_artifacts s) (ms_index s) \<Longrightarrow> distinct (ma_tags a) \<Longrightarrow>
     index_ok (ms_artifacts (put_artifact a s)) (ms_index (put_artifact a s))"
  using index_ok_put [of "ms_artifacts s" "ms_index s" a] by (simp add: put_artifact_def Let_def)

lemma index_ok_fold_put:
  "index_ok (ms_artifacts s) (ms_index s) \<Longrightarrow> list_all (\<lambda>a. distinct (ma_tags a)) as \<Longrightarrow>
     index_ok (ms_artifacts (fold put_artifact as s)) (ms_index (fold put_artifact as s))"
  by (induction as arbitrary: s) (simp_all add: index_ok_put_artifact)

lemma index_ok_consume:
  assumes ok: "index_ok arts ix" and get: "om_get arts i = Some a"
  shows "index_ok (om_insert i (a\<lparr>ma_consumed := True\<rparr>) arts) ix"
proof -
  note parts = ok [unfolded index_ok_def]
  have "ma_id a = i" "distinct (ma_tags a)"
    using parts get list_all_values_get [of "\<lambda>a. distinct (ma_tags a)" arts i a]
    by (auto simp: identified_def)
  then show ?thesis
    unfolding index_ok_def using parts get
    by (intro conjI om_insert_ok identified_insert list_all_values_insert ix_dimension.exact_update
        ix_task.exact_update ix_node.exact_update ix_agent.exact_update ix_tag.exact_update)
      (simp_all add: node_keys_def agent_keys_def)
qed

lemma identified_ids:
  "om_ok m \<Longrightarrow> identified id_of m \<Longrightarrow> map id_of (om_values m) = om_keys m"
  by (auto simp: identified_def om_get_iff)

lemma retain_is_removal:
  assumes ok: "om_ok m" and ids: "identified id_of m"
  shows "om_retain (\<lambda>_ a. \<not> p a) m = fold om_remove (map id_of (filter p (om_values m))) m"
proof (rule om_ext)
  show "om_ok (om_retain (\<lambda>_ a. \<not> p a) m)" using ok by (rule om_retain_ok)
  show "om_ok (fold om_remove (map id_of (filter p (om_values m))) m)" using om.fold_del [OF ok] by blast
  show "om_get (om_retain (\<lambda>_ a. \<not> p a) m) =
      om_get (fold om_remove (map id_of (filter p (om_values m))) m)"
  proof
    fix k
    have "k \<in> set (map id_of (filter p (om_values m))) \<longleftrightarrow> (\<exists>a. om_get m k = Some a \<and> p a)"
      using ids by (force simp: identified_def om_get_iff [OF ok])
    then show "om_get (om_retain (\<lambda>_ a. \<not> p a) m) k =
        om_get (fold om_remove (map id_of (filter p (om_values m))) m) k"
      using om.fold_del [OF ok] by (auto simp: om_get_retain [OF ok] split: option.split)
  qed
qed

lemma index_ok_collect:
  assumes ok: "index_ok arts ix"
  shows "index_ok (om_retain (\<lambda>_ a. \<not> p a) arts)
    (fold artifact_index_remove (filter p (om_values arts)) ix)"
proof -
  note parts = ok [unfolded index_ok_def]
  let ?gone = "filter p (om_values arts)"
  have om: "om_ok arts" "identified ma_id arts" using parts by blast+
  have ids: "distinct (map ma_id ?gone)"
    using om_ok_distinct [OF om(1)] identified_ids [OF om] by (metis distinct_map_filter)
  have get: "om_get arts (ma_id a) = Some a" if "a \<in> set ?gone" for a
    using that om(2) by (force simp: identified_def om_get_iff [OF om(1)])
  note rules = ix_dimension.exact_fold_del ix_task.exact_fold_del ix_node.exact_fold_del
    ix_agent.exact_fold_del ix_tag.exact_fold_del
  have "exact_index (\<lambda>a. [ma_dimension_id a]) (\<lambda>ix. ids_at (ai_by_dimension ix))
      (fold om_remove (map ma_id ?gone) arts) (fold artifact_index_remove ?gone ix)"
    "exact_index (\<lambda>a. [ma_task_id a]) (\<lambda>ix. ids_at (ai_by_task ix))
      (fold om_remove (map ma_id ?gone) arts) (fold artifact_index_remove ?gone ix)"
    "exact_index node_keys (\<lambda>ix. ids_at (ai_by_node ix))
      (fold om_remove (map ma_id ?gone) arts) (fold artifact_index_remove ?gone ix)"
    "exact_index agent_keys (\<lambda>ix. ids_at (ai_by_agent ix))
      (fold om_remove (map ma_id ?gone) arts) (fold artifact_index_remove ?gone ix)"
    "exact_index ma_tags (\<lambda>ix. ids_at (ai_by_tag ix))
      (fold om_remove (map ma_id ?gone) arts) (fold artifact_index_remove ?gone ix)"
    by (rule rules; use om parts ids get in blast)+
  then show ?thesis
    unfolding index_ok_def retain_is_removal [OF om, symmetric]
    using parts by (simp add: om_retain_ok identified_retain list_all_values_retain)
qed

section \<open>Node states and revisions\<close>

definition states_grow :: "(uuid, mesh_node_state) om \<Rightarrow> (uuid, mesh_node_state) om \<Rightarrow> bool" where
  "states_grow m m' =
     (\<forall>n st. om_get m n = Some st \<longrightarrow> (\<exists>st'. om_get m' n = Some st' \<and> st_revision st \<le> st_revision st'))"

lemma states_grow_refl [simp]: "states_grow m m"
  by (simp add: states_grow_def)

lemma states_grow_trans: "states_grow a b \<Longrightarrow> states_grow b c \<Longrightarrow> states_grow a c"
  unfolding states_grow_def by (meson order_trans)

lemma states_grow_insert:
  assumes "om_ok m" "\<And>st0. om_get m n = Some st0 \<Longrightarrow> st_revision st0 \<le> st_revision st"
  shows "states_grow m (om_insert n st m)"
  using assms by (auto simp: states_grow_def om_get_insert)

lemma known_grow:
  assumes "states_grow m m'"
  shows "snapshot_known m x \<Longrightarrow> snapshot_known m' x" "patch_known m y \<Longrightarrow> patch_known m' y"
  using assms unfolding states_grow_def snapshot_known_def patch_known_def
  by (force split: option.splits)+

lemma revisions_ok_grow:
  assumes "revisions_ok m snaps patches" "states_grow m m'" "om_ok m'"
  shows "revisions_ok m' snaps patches"
  using assms known_grow [OF assms(2)] unfolding revisions_ok_def list_all_iff by blast

lemma revisions_ok_snapshot:
  assumes "revisions_ok m snaps patches" "snapshot_known m x" "ns_artifact_id x = i"
  shows "revisions_ok m (om_insert i x snaps) patches"
  using assms by (simp add: revisions_ok_def om_insert_ok identified_insert list_all_values_insert)

lemma revisions_ok_patch:
  assumes "revisions_ok m snaps patches" "patch_known m x" "dp_artifact_id x = i"
  shows "revisions_ok m snaps (om_insert i x patches)"
  using assms by (simp add: revisions_ok_def om_insert_ok identified_insert list_all_values_insert)

lemma states_grow_touch:
  assumes "om_ok (ms_node_states s)" "\<And>st. st_revision st \<le> st_revision (update st)"
  shows "states_grow (ms_node_states s) (ms_node_states (touch_node_state now n update s))"
    "om_ok (ms_node_states (touch_node_state now n update s))"
  using assms by (auto simp: touch_node_state_def state_or_new_def om_insert_ok intro!: states_grow_insert)

lemma states_grow_forget:
  assumes "om_ok m"
  shows "om_ok (forget_last_artifact a m) \<and> states_grow m (forget_last_artifact a m)"
  using assms
  by (auto simp: forget_last_artifact_def om_insert_ok intro!: states_grow_insert split: option.split)

lemma states_grow_fold_forget:
  "om_ok m \<Longrightarrow> om_ok (fold forget_last_artifact as m) \<and> states_grow m (fold forget_last_artifact as m)"
proof (induction as arbitrary: m)
  case Nil
  then show ?case by simp
next
  case (Cons a as)
  then show ?case using states_grow_forget [of m a] states_grow_trans by fastforce
qed

lemma saturating_Suc_ge: "a \<le> saturating_add a 1" for a :: "'l::len word"
proof -
  have "unat a < 2 ^ LENGTH('l)" by (rule unsigned_less)
  then have "unat a \<le> 2 ^ LENGTH('l) - 1" by linarith
  then show ?thesis unfolding word_le_nat_alt unat_saturating_add by simp
qed

section \<open>Every operation keeps the invariant\<close>

lemma sorted_remdups_adj_distinct: "sorted xs \<Longrightarrow> distinct (remdups_adj xs)"
  for xs :: "'a::linorder list"
  by (induction xs rule: remdups_adj.induct) force+

lemma prepared_tags_distinct: "distinct (ma_tags (prepare_artifact now a))"
  by (simp add: prepare_artifact_def Let_def sorted_remdups_adj_distinct)

lemma mesh_ok_log [simp]: "mesh_ok (mesh_log e ev d t p s) = mesh_ok s"
  by (rule mesh_ok_cong) (simp_all add: mesh_log_def)

lemma mesh_ok_notify [simp]: "mesh_ok (notify note s) = mesh_ok s"
  by (rule mesh_ok_cong) (simp_all add: notify_def)

lemma mesh_ok_put: "mesh_ok s \<Longrightarrow> distinct (ma_tags a) \<Longrightarrow> mesh_ok (put_artifact a s)"
  using index_ok_put_artifact [of s a] by (simp add: mesh_ok_def) (simp add: put_artifact_def Let_def)

lemma mesh_ok_fold_put:
  "mesh_ok s \<Longrightarrow> list_all (\<lambda>a. distinct (ma_tags a)) as \<Longrightarrow> mesh_ok (fold put_artifact as s)"
  by (induction as arbitrary: s) (simp_all add: mesh_ok_put)

lemma mesh_ok_touch:
  assumes ok: "mesh_ok s" and up: "\<And>st. st_revision st \<le> st_revision (update st)"
  shows "mesh_ok (touch_node_state now n update s)"
proof -
  note parts = ok [unfolded mesh_ok_def]
  then have "om_ok (ms_node_states s)" by (simp add: revisions_ok_def)
  note grow = states_grow_touch [OF this up]
  have "revisions_ok (ms_node_states (touch_node_state now n update s)) (ms_snapshots s) (ms_patches s)"
    using parts by (intro revisions_ok_grow [OF _ grow]) blast
  with parts show ?thesis by (simp add: mesh_ok_def) (simp add: touch_node_state_def)
qed

lemma mesh_ok_touch_optional:
  "mesh_ok s \<Longrightarrow> (\<And>st. st_revision st \<le> st_revision (update st)) \<Longrightarrow>
     mesh_ok (touch_optional now node update s)"
  by (simp add: touch_optional_def mesh_ok_touch split: option.split)

lemma mesh_ok_produce: "mesh_ok s \<Longrightarrow> mesh_ok (snd (produce e a s))"
  unfolding produce_def Let_def snd_conv mesh_ok_notify mesh_ok_log
  by (intro mesh_ok_touch_optional mesh_ok_put) (simp_all add: prepared_tags_distinct)

lemma mesh_ok_produce_validated: "mesh_ok s \<Longrightarrow> mesh_ok (after (produce_validated e a s))"
  using mesh_ok_produce by (auto simp: produce_validated_def Let_def case_prod_beta split: sum.split)

lemma mesh_ok_produce_batch:
  assumes ok: "mesh_ok s"
  shows "mesh_ok (after (produce_batch e as s))"
proof -
  let ?as = "map (prepare_artifact (env_now e)) as"
  have "list_all (\<lambda>a. distinct (ma_tags a)) (map (\<lambda>a. a\<lparr>ma_consumed := False\<rparr>) ?as)"
    by (simp add: list_all_iff prepared_tags_distinct)
  then have "mesh_ok (fold put_artifact (map (\<lambda>a. a\<lparr>ma_consumed := False\<rparr>) ?as) s)"
    by (rule mesh_ok_fold_put [OF ok])
  then show ?thesis
    using ok by (cases ?as)
      (auto simp: produce_batch_def Let_def mesh_ok_touch_optional simp del: batch_mismatch.simps
        split: option.split)
qed

lemma mesh_ok_consume: "mesh_ok s \<Longrightarrow> mesh_ok (after (consume e i s))"
  by (auto simp: consume_def Let_def mesh_ok_def mesh_log_def notify_def index_ok_consume
      split: option.split)

lemma mesh_ok_snapshot:
  assumes ok: "mesh_ok s"
  shows "mesh_ok (snd (snapshot_node e fresh n state t d s))"
proof -
  note parts = ok [unfolded mesh_ok_def]
  then have om: "om_ok (ms_node_states s)" by (simp add: revisions_ok_def)
  let ?touch = "touch_node_state (env_now e) n (\<lambda>st. st\<lparr>st_last_snapshot_id := Some fresh\<rparr>)"
  let ?snap = "\<lparr>ns_artifact_id = fresh, ns_dimension_id = d, ns_task_id = t, ns_node_id = n,
      ns_state = state, ns_provenance = node_provenance_of n t, ns_captured_at_ms = env_now e,
      ns_revision = current_revision s n\<rparr>"
  have touched: "mesh_ok (?touch s)" by (rule mesh_ok_touch [OF ok]) simp
  have "snapshot_known (ms_node_states (?touch s)) ?snap"
    by (simp add: snapshot_known_def touch_node_state_def om_get_insert [OF om] state_or_new_def
        current_revision_def new_node_state_def split: option.split)
  with touched have "revisions_ok (ms_node_states (?touch s)) (om_insert fresh ?snap (ms_snapshots s)) (ms_patches s)"
    by (intro revisions_ok_snapshot) (simp_all add: mesh_ok_def touch_node_state_def)
  moreover have "ms_node_states (?touch (s\<lparr>ms_snapshots := m\<rparr>)) = ms_node_states (?touch s)" for m
    by (simp add: touch_node_state_def state_or_new_def)
  ultimately show ?thesis
    using parts unfolding snapshot_node_def Let_def snd_conv mesh_ok_notify mesh_ok_log
    by (simp add: mesh_ok_def) (simp add: touch_node_state_def)
qed

lemma advance_cases:
  obtains (refused) "strategy = Reject" "current_revision s n \<noteq> expected"
      "advance_revision now n expected strategy pid s =
        (Inl (ConcurrentEdit n expected (current_revision s n)),
         s\<lparr>ms_node_states := om_insert n (state_or_new now n s) (ms_node_states s)\<rparr>)"
    | (advanced) st where "strategy = LastWriteWins \<or> current_revision s n = expected"
      "st_revision st = saturating_add (current_revision s n) 1"
      "advance_revision now n expected strategy pid s =
        (Inr (current_revision s n, saturating_add (current_revision s n) 1, current_revision s n \<noteq> expected),
         s\<lparr>ms_node_states := om_insert n st (ms_node_states s)\<rparr>)"
proof -
  have cur: "st_revision (state_or_new now n s) = current_revision s n"
    by (simp add: state_or_new_def current_revision_def new_node_state_def split: option.split)
  show ?thesis
  proof (cases "current_revision s n \<noteq> expected \<and> strategy = Reject")
    case True
    then show ?thesis using refused by (simp add: advance_revision_def Let_def cur)
  next
    case False
    moreover from this have "strategy = LastWriteWins \<or> current_revision s n = expected"
      by (cases strategy) auto
    ultimately show ?thesis
      using advanced [of "(state_or_new now n s)\<lparr>st_revision := saturating_add (current_revision s n) 1,
          st_last_patch_id := (case pid of None \<Rightarrow> st_last_patch_id (state_or_new now n s) | Some p \<Rightarrow> Some p),
          st_updated_at_ms := now\<rparr>"]
      by (simp add: advance_revision_def Let_def cur)
  qed
qed

lemma mesh_ok_put_state:
  assumes ok: "mesh_ok s" and "current_revision s n \<le> st_revision st"
  shows "mesh_ok (s\<lparr>ms_node_states := om_insert n st (ms_node_states s)\<rparr>)"
proof -
  note parts = ok [unfolded mesh_ok_def]
  then have om: "om_ok (ms_node_states s)" by (simp add: revisions_ok_def)
  have "states_grow (ms_node_states s) (om_insert n st (ms_node_states s))"
    using assms(2) by (intro states_grow_insert [OF om]) (simp add: current_revision_def)
  with parts om show ?thesis
    using revisions_ok_grow [of "ms_node_states s" "ms_snapshots s" "ms_patches s"]
    by (simp add: mesh_ok_def om_insert_ok)
qed

lemma state_or_new_revision: "st_revision (state_or_new now n s) = current_revision s n"
  by (simp add: state_or_new_def current_revision_def new_node_state_def split: option.split)

lemma mesh_ok_record_patch:
  assumes "mesh_ok s" and "om_get (ms_node_states s) n = Some st" "new \<le> st_revision st"
  shows "mesh_ok (record_patch e fresh n pre post ops t d (base, new, conflict) s)"
  using assms
  by (auto simp: record_patch_def store_patch_def Let_def mesh_ok_def mesh_log_def notify_def
      patch_known_def intro!: revisions_ok_patch)

lemma mesh_ok_advanced_patch:
  assumes ok: "mesh_ok s" and st: "st_revision st = saturating_add (current_revision s n) 1"
  shows "mesh_ok (record_patch e fresh n pre post ops t d
    (base, saturating_add (current_revision s n) 1, conflict)
    (s\<lparr>ms_node_states := om_insert n st (ms_node_states s)\<rparr>))"
proof (rule mesh_ok_record_patch)
  have om: "om_ok (ms_node_states s)" using ok by (simp add: mesh_ok_def revisions_ok_def)
  show "mesh_ok (s\<lparr>ms_node_states := om_insert n st (ms_node_states s)\<rparr>)"
    by (rule mesh_ok_put_state [OF ok]) (simp add: st saturating_Suc_ge)
  show "om_get (ms_node_states (s\<lparr>ms_node_states := om_insert n st (ms_node_states s)\<rparr>)) n = Some st"
    by (simp add: om_get_insert [OF om])
qed (simp add: st)

lemma mesh_ok_patch:
  assumes ok: "mesh_ok s"
  shows "mesh_ok (snd (mesh_patch e fresh n pre post ops t d s))"
proof (rule advance_cases [of LastWriteWins s n "current_revision s n" "env_now e" "Some fresh"])
  fix st
  assume st: "st_revision st = saturating_add (current_revision s n) 1"
    "advance_revision (env_now e) n (current_revision s n) LastWriteWins (Some fresh) s =
        (Inr (current_revision s n, saturating_add (current_revision s n) 1,
            current_revision s n \<noteq> current_revision s n),
         s\<lparr>ms_node_states := om_insert n st (ms_node_states s)\<rparr>)"
  show ?thesis
    using mesh_ok_advanced_patch [OF ok st(1)] by (simp add: mesh_patch_def st(2))
qed simp

lemma mesh_ok_patch_with_revision:
  assumes ok: "mesh_ok s"
  shows "mesh_ok (after (patch_with_revision e fresh rq s))"
proof (rule advance_cases [of "rq_strategy rq" s "rq_node_id rq" "rq_expected_revision rq" "env_now e" "Some fresh"])
  assume "advance_revision (env_now e) (rq_node_id rq) (rq_expected_revision rq) (rq_strategy rq)
      (Some fresh) s = (Inl (ConcurrentEdit (rq_node_id rq) (rq_expected_revision rq)
          (current_revision s (rq_node_id rq))),
       s\<lparr>ms_node_states := om_insert (rq_node_id rq) (state_or_new (env_now e) (rq_node_id rq) s)
           (ms_node_states s)\<rparr>)"
  then show ?thesis
    using mesh_ok_put_state [OF ok] by (simp add: patch_with_revision_def state_or_new_revision)
next
  fix st
  assume st: "st_revision st = saturating_add (current_revision s (rq_node_id rq)) 1"
    "advance_revision (env_now e) (rq_node_id rq) (rq_expected_revision rq) (rq_strategy rq)
      (Some fresh) s = (Inr (current_revision s (rq_node_id rq),
          saturating_add (current_revision s (rq_node_id rq)) 1,
          current_revision s (rq_node_id rq) \<noteq> rq_expected_revision rq),
       s\<lparr>ms_node_states := om_insert (rq_node_id rq) st (ms_node_states s)\<rparr>)"
  show ?thesis
    using mesh_ok_advanced_patch [OF ok st(1)] by (simp add: patch_with_revision_def st(2))
qed

lemma mesh_ok_collect:
  assumes ok: "mesh_ok s"
  shows "mesh_ok (snd (collect_garbage p s))"
proof -
  note parts = ok [unfolded mesh_ok_def]
  let ?states = "fold forget_last_artifact (filter (gc_drops_artifact p) (om_values (ms_artifacts s)))
      (ms_node_states s)"
  have om: "om_ok (ms_node_states s)" using parts by (simp add: revisions_ok_def)
  then have states: "revisions_ok ?states (ms_snapshots s) (ms_patches s)"
    using revisions_ok_grow [of "ms_node_states s" "ms_snapshots s" "ms_patches s" ?states]
      states_grow_fold_forget parts by blast
  then have "revisions_ok ?states (om_retain (\<lambda>_ x. \<not> gc_drops_snapshot p ?states x) (ms_snapshots s))
      (om_retain (\<lambda>_ x. \<not> gc_drops_patch p x) (ms_patches s))"
    by (simp add: revisions_ok_def om_retain_ok identified_retain list_all_values_retain)
  moreover have "index_ok (om_retain (\<lambda>_ a. \<not> gc_drops_artifact p a) (ms_artifacts s))
      (fold artifact_index_remove (filter (gc_drops_artifact p) (om_values (ms_artifacts s))) (ms_index s))"
    using parts by (intro index_ok_collect) blast
  ultimately show ?thesis using parts by (simp add: collect_garbage_def Let_def mesh_ok_def)
qed

lemma mesh_ok_register: "mesh_ok s \<Longrightarrow> mesh_ok (after (mesh_register_schema now ct v d s))"
  by (simp add: mesh_register_schema_def mesh_ok_def Let_def registry_ok_register)

lemma mesh_ok_step: "mesh_ok s \<Longrightarrow> mesh_ok (mesh_step k s)"
  by (cases "snd k")
    (simp_all add: mesh_step_def Let_def mesh_ok_register mesh_ok_produce mesh_ok_produce_validated
      mesh_ok_produce_batch mesh_ok_consume mesh_ok_snapshot mesh_ok_patch mesh_ok_patch_with_revision
      mesh_ok_collect)

section \<open>Replication\<close>

lemma mesh_ok_insert_artifact:
  assumes ok: "mesh_ok s" and tags: "distinct (ma_tags a)"
  shows "mesh_ok (after (insert_replicated_artifact e a s))"
proof (cases "om_contains (ms_artifacts s) (ma_id a)")
  case True
  then show ?thesis using ok by (simp add: insert_replicated_artifact_def)
next
  case False
  then have "put_artifact a s = s\<lparr>ms_index := artifact_index_insert a (ms_index s),
      ms_artifacts := om_insert (ma_id a) a (ms_artifacts s)\<rparr>"
    by (simp add: put_artifact_def om_contains_def)
  moreover have "mesh_ok (touch_optional (env_now e) (ma_node_id a)
      (\<lambda>st. st\<lparr>st_last_artifact_id := Some (ma_id a)\<rparr>) (put_artifact a s))"
    by (intro mesh_ok_touch_optional mesh_ok_put ok tags) simp
  ultimately show ?thesis using False by (simp add: insert_replicated_artifact_def Let_def)
qed

lemma mesh_ok_insert_snapshot:
  assumes ok: "mesh_ok s"
  shows "mesh_ok (after (insert_replicated_snapshot e x s))"
proof -
  note parts = ok [unfolded mesh_ok_def]
  then have om: "om_ok (ms_node_states s)" by (simp add: revisions_ok_def)
  let ?up = "\<lambda>st. if st_revision st \<le> ns_revision x
      then st\<lparr>st_last_snapshot_id := Some (ns_artifact_id x), st_revision := ns_revision x\<rparr> else st"
  let ?touch = "touch_node_state (env_now e) (ns_node_id x) ?up"
  have touched: "mesh_ok (?touch s)" by (rule mesh_ok_touch [OF ok]) simp
  have "snapshot_known (ms_node_states (?touch s)) x"
    by (auto simp: snapshot_known_def touch_node_state_def om_get_insert [OF om])
  with touched have "revisions_ok (ms_node_states (?touch s))
      (om_insert (ns_artifact_id x) x (ms_snapshots s)) (ms_patches s)"
    by (intro revisions_ok_snapshot) (simp_all add: mesh_ok_def touch_node_state_def)
  moreover have "ms_node_states (?touch (s\<lparr>ms_snapshots := m\<rparr>)) = ms_node_states (?touch s)" for m
    by (simp add: touch_node_state_def state_or_new_def)
  ultimately show ?thesis
    using parts unfolding insert_replicated_snapshot_def Let_def
    by (simp add: mesh_ok_def) (simp add: touch_node_state_def notify_def)
qed

lemma mesh_ok_insert_patch:
  assumes ok: "mesh_ok s"
  shows "mesh_ok (after (insert_replicated_patch e x s))"
proof -
  note parts = ok [unfolded mesh_ok_def]
  then have om: "om_ok (ms_node_states s)" by (simp add: revisions_ok_def)
  let ?up = "\<lambda>st. if st_revision st \<le> dp_new_revision x
      then st\<lparr>st_last_patch_id := Some (dp_artifact_id x), st_revision := dp_new_revision x\<rparr> else st"
  let ?touch = "touch_node_state (env_now e) (dp_node_id x) ?up"
  have touched: "mesh_ok (?touch s)" by (rule mesh_ok_touch [OF ok]) simp
  have "patch_known (ms_node_states (?touch s)) x"
    by (auto simp: patch_known_def touch_node_state_def om_get_insert [OF om])
  with touched have "revisions_ok (ms_node_states (?touch s)) (ms_snapshots s)
      (om_insert (dp_artifact_id x) x (ms_patches s))"
    by (intro revisions_ok_patch) (simp_all add: mesh_ok_def touch_node_state_def)
  moreover have "ms_node_states (?touch (s\<lparr>ms_patches := m\<rparr>)) = ms_node_states (?touch s)" for m
    by (simp add: touch_node_state_def state_or_new_def)
  ultimately show ?thesis
    using parts unfolding insert_replicated_patch_def Let_def
    by (simp add: mesh_ok_def) (simp add: touch_node_state_def notify_def)
qed

lemma mesh_ok_replicate:
  assumes "mesh_ok source" "mesh_ok target"
  shows "mesh_ok (after (replicate_artifact e i source target))"
    "mesh_ok (after (replicate_snapshot e i source target))"
    "mesh_ok (after (replicate_patch e i source target))"
proof -
  have "distinct (ma_tags a)" if "om_get (ms_artifacts source) i = Some a" for a
    using assms(1) list_all_values_get [of "\<lambda>a. distinct (ma_tags a)", OF _ that]
    by (simp add: mesh_ok_def index_ok_def)
  then show "mesh_ok (after (replicate_artifact e i source target))"
    using mesh_ok_insert_artifact [OF assms(2)] assms(2)
    by (auto simp: replicate_artifact_def replicate_with_def get_artifact_def case_prod_beta
        split: option.split sum.split)
  show "mesh_ok (after (replicate_snapshot e i source target))"
    using mesh_ok_insert_snapshot [OF assms(2)] assms(2)
    by (auto simp: replicate_snapshot_def replicate_with_def case_prod_beta split: sum.split)
  show "mesh_ok (after (replicate_patch e i source target))"
    using mesh_ok_insert_patch [OF assms(2)] assms(2)
    by (auto simp: replicate_patch_def replicate_with_def case_prod_beta split: sum.split)
qed

lemma mesh_ok_replicate_one:
  "mesh_ok source \<Longrightarrow> mesh_ok target \<Longrightarrow> mesh_ok (after (replicate_one kind e i source target))"
  by (cases kind) (simp_all add: replicate_one_def mesh_ok_replicate)

lemma mesh_ok_replicate_ids:
  "mesh_ok source \<Longrightarrow> mesh_ok target \<Longrightarrow> mesh_ok (after (replicate_ids kind es is k source target))"
proof (induction "is" arbitrary: k target)
  case Nil
  then show ?case by simp
next
  case (Cons i "is")
  then show ?case
    using mesh_ok_replicate_one [OF Cons.prems, of kind "es k" i]
    by (auto simp: case_prod_beta split: sum.split)
qed

interpretation mesh_wf: invariant_system "\<lambda>_ _. True" mesh_step mesh_ok
  by unfold_locales (rule mesh_ok_step)

interpretation mesh_pair: invariant_system "\<lambda>_ _. True" mesh_link_step
    "\<lambda>st :: 'j mesh_store \<times> 'j mesh_store. mesh_ok (fst st) \<and> mesh_ok (snd st)"
proof unfold_locales
  fix op and st :: "'j mesh_store \<times> 'j mesh_store"
  assume "mesh_ok (fst st) \<and> mesh_ok (snd st)"
  then show "mesh_ok (fst (mesh_link_step op st)) \<and> mesh_ok (snd (mesh_link_step op st))"
    by (cases op) (simp_all add: mesh_ok_step mesh_ok_replicate mesh_ok_replicate_ids replicate_notification_def)
qed

lemma mesh_ok_new: "mesh_ok (new_mesh_store now l)"
  by (simp add: mesh_ok_def new_mesh_store_def index_ok_def revisions_ok_def identified_def
      exact_index_def new_artifact_index_def ids_at_def registry_ok_register registry_ok_empty)

definition mesh_run :: "u64 \<Rightarrow> 'j action_log \<Rightarrow> (env \<times> 'j mesh_op) list \<Rightarrow> 'j mesh_store" where
  "mesh_run now l ks = fold mesh_step ks (new_mesh_store now l)"

definition mesh_link_run ::
  "u64 \<Rightarrow> 'j action_log \<Rightarrow> u64 \<Rightarrow> 'j action_log \<Rightarrow> 'j mesh_link_op list \<Rightarrow> 'j mesh_store \<times> 'j mesh_store"
where
  "mesh_link_run now l now' l' ops = fold mesh_link_step ops (new_mesh_store now l, new_mesh_store now' l')"

lemma mesh_run_ok: "mesh_ok (mesh_run now l ks)"
  unfolding mesh_run_def by (rule mesh_wf.run_inv) (simp_all add: mesh_ok_new)

lemma mesh_link_run_ok:
  "mesh_ok (fst (mesh_link_run now l now' l' ops))" "mesh_ok (snd (mesh_link_run now l now' l' ops))"
proof -
  have "mesh_ok (fst (mesh_link_run now l now' l' ops)) \<and> mesh_ok (snd (mesh_link_run now l now' l' ops))"
    unfolding mesh_link_run_def by (rule mesh_pair.run_inv) (simp_all add: mesh_ok_new)
  then show "mesh_ok (fst (mesh_link_run now l now' l' ops))" "mesh_ok (snd (mesh_link_run now l now' l' ops))"
    by simp_all
qed

end
