(* ===== verification/Mesh_Claims.thy ===== *)
theory Mesh_Claims
  imports Mesh_Inv
begin

text \<open>
  The properties of the mesh store: its indexes against a scan of the store, garbage collection,
  consumption, optimistic concurrency of patches, and the schema registry.
\<close>

section \<open>Indexes\<close>

text \<open>What a query would answer without an index: a scan of all artifacts.\<close>

definition scan :: "('j mesh_artifact \<Rightarrow> bool) \<Rightarrow> 'j mesh_store \<Rightarrow> artifact_id list" where
  "scan p s = map ma_id (filter p (om_values (ms_artifacts s)))"

definition queries_scan :: "'j mesh_store \<Rightarrow> bool" where
  "queries_scan s =
     ((\<forall>d. mset (artifacts_for_dimension s d) = mset (scan (\<lambda>a. ma_dimension_id a = d) s))
      \<and> (\<forall>t. mset (artifacts_for_task s t) = mset (scan (\<lambda>a. ma_task_id a = t) s))
      \<and> (\<forall>n. mset (artifacts_for_node s n) = mset (scan (\<lambda>a. ma_node_id a = Some n) s))
      \<and> (\<forall>ag. mset (artifacts_for_agent s ag) =
            mset (scan (\<lambda>a. ap_producing_agent_id (ma_provenance a) = Some ag) s))
      \<and> (\<forall>tag. mset (artifacts_with_tag s tag) = mset (scan (\<lambda>a. tag \<in> set (ma_tags a)) s)))"

lemma exact_scan:
  assumes om: "om_ok (ms_artifacts s)" "identified ma_id (ms_artifacts s)"
    and exact: "exact_index keys query (ms_artifacts s) ix"
    and p: "\<And>a. p a \<longleftrightarrow> k \<in> set (keys a)"
  shows "mset (query ix k) = mset (scan p s)"
proof (rule iffD1 [OF set_eq_iff_mset_eq_distinct])
  show "distinct (query ix k)" using exact by (simp add: exact_index_def)
  show "distinct (scan p s)"
    unfolding scan_def using om_ok_distinct [OF om(1)] identified_ids [OF om] by (metis distinct_map_filter)
  show "set (query ix k) = set (scan p s)"
    using exact om(2) by (force simp: exact_index_def scan_def p om_get_iff [OF om(1)] identified_def)
qed

lemma mesh_ok_queries: "mesh_ok s \<Longrightarrow> queries_scan s"
  unfolding queries_scan_def artifacts_for_dimension_def artifacts_for_task_def artifacts_for_node_def
    artifacts_for_agent_def artifacts_with_tag_def mesh_ok_def index_ok_def
  by (intro conjI allI; elim conjE; erule (2) exact_scan)
    (auto simp: node_keys_def agent_keys_def split: option.split)

text \<open>C5: Whatever is done to two stores joined by a replicator (producing, overwriting, consuming,
  collecting garbage, replicating), each of the five index queries of either store lists every
  matching artifact exactly once and nothing else: it agrees with a scan of the stored artifacts.\<close>

theorem mesh_index_exact:
  "queries_scan (fst (mesh_link_run now l now' l' ops))
   \<and> queries_scan (snd (mesh_link_run now l now' l' ops))"
  using mesh_link_run_ok [of now l now' l' ops] by (simp add: mesh_ok_queries)

section \<open>Garbage collection\<close>

lemma length_retain:
  "List.length (om_retain (\<lambda>_ a. \<not> p a) m) + List.length (filter p (om_values m)) = List.length m"
  by (induction m) (auto simp: om_retain_def)

lemma forget_revision:
  assumes "om_ok m"
  shows "map_option st_revision (om_get (forget_last_artifact a m) n) = map_option st_revision (om_get m n)"
  using assms by (auto simp: forget_last_artifact_def om_get_insert split: option.split)

lemma fold_forget_revision:
  "om_ok m \<Longrightarrow> map_option st_revision (om_get (fold forget_last_artifact as m) n) =
     map_option st_revision (om_get m n)"
  by (induction as arbitrary: m) (simp_all add: forget_revision conjunct1 [OF states_grow_forget])

lemma fold_forget_contains:
  assumes "om_ok m"
  shows "om_contains (fold forget_last_artifact as m) n = om_contains m n"
  using fold_forget_revision [OF assms, of as n]
  by (cases "om_get m n"; cases "om_get (fold forget_last_artifact as m) n") (simp_all add: om_contains_def)

text \<open>C14: Garbage collection in either of two joined stores removes exactly the artifacts, snapshots
  and patches its policy names and leaves the others as they are, counts what it removed, keeps every
  revision and the audit log; the orphan rule never removes anything.\<close>

theorem collect_garbage_spec:
  "let s = (if at_source then fst else snd) (mesh_link_run now l now' l' ops);
       (rep, s') = collect_garbage p s
   in om_get (ms_artifacts s') = (\<lambda>i. case om_get (ms_artifacts s) i of None \<Rightarrow> None
        | Some a \<Rightarrow> if gc_expired p (ma_created_at_ms a)
             \<or> gc_inactive p (ma_dimension_id a) \<and> ma_immutability_tier a \<le> 1
             \<or> gc_remove_consumed_ephemeral p \<and> ma_immutability_tier a = 0 \<and> ma_consumed a
            then None else Some a)
      \<and> om_get (ms_snapshots s') = (\<lambda>i. case om_get (ms_snapshots s) i of None \<Rightarrow> None
        | Some x \<Rightarrow> if gc_expired p (ns_captured_at_ms x) \<or> gc_inactive p (ns_dimension_id x)
            then None else Some x)
      \<and> om_get (ms_patches s') = (\<lambda>i. case om_get (ms_patches s) i of None \<Rightarrow> None
        | Some x \<Rightarrow> if gc_expired p (dp_created_at_ms x) \<or> gc_inactive p (dp_dimension_id x)
            then None else Some x)
      \<and> gr_artifacts_removed rep + artifact_count s' = artifact_count s
      \<and> gr_snapshots_removed rep + List.length (ms_snapshots s') = List.length (ms_snapshots s)
      \<and> gr_patches_removed rep + List.length (ms_patches s') = List.length (ms_patches s)
      \<and> current_revision s' = current_revision s \<and> ms_log s' = ms_log s"
proof -
  define s where "s = (if at_source then fst else snd) (mesh_link_run now l now' l' ops)"
  have ok: "mesh_ok s" unfolding s_def using mesh_link_run_ok by (cases at_source) simp_all
  then have om: "om_ok (ms_artifacts s)" "om_ok (ms_snapshots s)" "om_ok (ms_patches s)"
      "om_ok (ms_node_states s)" and known: "list_all (snapshot_known (ms_node_states s)) (om_values (ms_snapshots s))"
    by (simp_all add: mesh_ok_def index_ok_def revisions_ok_def)
  let ?states = "fold forget_last_artifact (filter (gc_drops_artifact p) (om_values (ms_artifacts s)))
      (ms_node_states s)"
  have drops: "gc_drops_snapshot p ?states x \<longleftrightarrow> gc_expired p (ns_captured_at_ms x) \<or> gc_inactive p (ns_dimension_id x)"
    if "om_get (ms_snapshots s) i = Some x" for i x
  proof -
    have "snapshot_known (ms_node_states s) x" using list_all_values_get [OF known that] .
    then have "om_contains (ms_node_states s) (ns_node_id x)"
      by (auto simp: snapshot_known_def om_contains_def split: option.splits)
    then show ?thesis by (simp add: gc_drops_snapshot_def fold_forget_contains [OF om(4)])
  qed
  have rev: "map_option st_revision (om_get ?states n) = map_option st_revision (om_get (ms_node_states s) n)" for n
    by (rule fold_forget_revision [OF om(4)])
  have "current_revision (s\<lparr>ms_node_states := ?states\<rparr>) n = current_revision s n" for n
    using rev [of n] by (auto simp: current_revision_def split: option.split)
  then have "(case om_get ?states n of None \<Rightarrow> 0 | Some st \<Rightarrow> st_revision st) = current_revision s n" for n
    by (simp add: current_revision_def)
  then show ?thesis
    unfolding s_def [symmetric] Let_def collect_garbage_def case_prod_conv
    using drops om length_retain [of "gc_drops_snapshot p ?states" "ms_snapshots s"]
      length_retain [of "gc_drops_artifact p" "ms_artifacts s"] length_retain [of "gc_drops_patch p" "ms_patches s"]
    by (auto simp: om_get_retain artifact_count_def current_revision_def fun_eq_iff gc_drops_artifact_def
        gc_drops_patch_def split: option.split)
qed

section \<open>Consumption\<close>

text \<open>How often subscribers were told of an artifact in notifications of the given kinds.\<close>

definition told :: "mesh_notification_kind set \<Rightarrow> artifact_id \<Rightarrow> 'j mesh_store \<Rightarrow> nat" where
  "told kinds i s =
     count (mset (concat (map mn_ids (filter (\<lambda>note. mn_kind note \<in> kinds) (ms_sent s))))) i"

abbreviation entering :: "mesh_notification_kind set" where
  "entering \<equiv> {MeshProduced, MeshBatchProduced, MeshReplicated}"

definition unread :: "artifact_id \<Rightarrow> 'j mesh_store \<Rightarrow> nat" where
  "unread i s = (case om_get (ms_artifacts s) i of None \<Rightarrow> 0 | Some a \<Rightarrow> if ma_consumed a then 0 else 1)"

definition consumed_once :: "'j mesh_store \<Rightarrow> bool" where
  "consumed_once s = (om_ok (ms_artifacts s)
     \<and> (\<forall>i. told {MeshConsumed} i s + unread i s \<le> told entering i s))"

lemma told_notify:
  "told kinds i (notify note s) =
     told kinds i s + (if mn_kind note \<in> kinds then count (mset (mn_ids note)) i else 0)"
  by (simp add: told_def notify_def)

lemma told_same: "ms_sent s' = ms_sent s \<Longrightarrow> told kinds i s' = told kinds i s"
  by (simp add: told_def)

lemma unread_same: "ms_artifacts s' = ms_artifacts s \<Longrightarrow> unread i s' = unread i s"
  by (simp add: unread_def)

lemma unread_le_1: "unread i s \<le> 1"
  by (simp add: unread_def split: option.split)

text \<open>An operation that neither consumes nor adds unread artifacts, whatever it announces.\<close>

lemma consumed_once_weaken:
  assumes "consumed_once s" "om_ok (ms_artifacts s')"
    "\<And>i. told {MeshConsumed} i s' = told {MeshConsumed} i s"
    "\<And>i. unread i s' + told entering i s \<le> unread i s + told entering i s'"
  shows "consumed_once s'"
  unfolding consumed_once_def
proof (intro conjI allI assms(2))
  fix i
  have "told {MeshConsumed} i s + unread i s \<le> told entering i s" using assms(1) by (simp add: consumed_once_def)
  with assms(3,4) [of i] show "told {MeshConsumed} i s' + unread i s' \<le> told entering i s'" by linarith
qed

lemma put_artifact_artifacts: "ms_artifacts (put_artifact a s) = om_insert (ma_id a) a (ms_artifacts s)"
  "ms_sent (put_artifact a s) = ms_sent s"
  by (simp_all add: put_artifact_def Let_def)

lemma fold_put_artifacts:
  "om_ok (ms_artifacts s) \<Longrightarrow>
     om_ok (ms_artifacts (fold put_artifact as s)) \<and> ms_sent (fold put_artifact as s) = ms_sent s
     \<and> (i \<notin> set (map ma_id as) \<longrightarrow>
          om_get (ms_artifacts (fold put_artifact as s)) i = om_get (ms_artifacts s) i)"
  by (induction as arbitrary: s) (auto simp: put_artifact_artifacts om_insert_ok om_get_insert)

lemma touch_views:
  "ms_artifacts (touch_node_state now n u s) = ms_artifacts s"
  "ms_sent (touch_node_state now n u s) = ms_sent s"
  "ms_artifacts (touch_optional now node u s) = ms_artifacts s"
  "ms_sent (touch_optional now node u s) = ms_sent s"
  by (simp_all add: touch_node_state_def touch_optional_def split: option.split)

lemma log_views: "ms_artifacts (mesh_log e ev d t p s) = ms_artifacts s"
  "ms_sent (mesh_log e ev d t p s) = ms_sent s"
  by (simp_all add: mesh_log_def)

lemma notify_artifacts: "ms_artifacts (notify note s) = ms_artifacts s"
  by (simp add: notify_def)

text \<open>Artifacts enter together with a notification that names them.\<close>

lemma consumed_once_enter:
  assumes ok: "consumed_once s" and om: "om_ok (ms_artifacts s')"
    and sent: "ms_sent s' = ms_sent s @ [msg]" and kind: "mn_kind msg \<in> entering"
    and same: "\<And>i. i \<notin> set (mn_ids msg) \<Longrightarrow> om_get (ms_artifacts s') i = om_get (ms_artifacts s) i"
  shows "consumed_once s'"
proof (rule consumed_once_weaken [OF ok om])
  fix i
  show "told {MeshConsumed} i s' = told {MeshConsumed} i s" using kind by (auto simp: told_def sent)
  have told: "told entering i s' = told entering i s + count (mset (mn_ids msg)) i"
    using kind by (simp add: told_def sent)
  show "unread i s' + told entering i s \<le> unread i s + told entering i s'"
  proof (cases "i \<in> set (mn_ids msg)")
    case True
    then have "1 \<le> count (mset (mn_ids msg)) i" by (simp add: Suc_le_eq count_greater_zero_iff)
    with told unread_le_1 [of i s'] show ?thesis by linarith
  next
    case False
    with same have "unread i s' = unread i s" by (simp add: unread_def)
    with told show ?thesis by simp
  qed
qed

lemma consumed_once_same:
  assumes "consumed_once s" "ms_artifacts s' = ms_artifacts s"
    "ms_sent s' = ms_sent s \<or> (\<exists>note. ms_sent s' = ms_sent s @ [note] \<and> mn_kind note \<noteq> MeshConsumed)"
  shows "consumed_once s'"
  using assms by (intro consumed_once_weaken [OF assms(1)]) (auto simp: consumed_once_def told_def unread_def)

lemma consumed_once_produce: "consumed_once s \<Longrightarrow> consumed_once (snd (produce e a s))"
  by (rule consumed_once_enter [where msg = "single_note (ma_id (prepare_artifact (env_now e) a)) MeshProduced
        (ma_dimension_id (prepare_artifact (env_now e) a)) (ma_task_id (prepare_artifact (env_now e) a))
        (ma_node_id (prepare_artifact (env_now e) a)) (ma_tags (prepare_artifact (env_now e) a))
        (ma_content_type (prepare_artifact (env_now e) a))"])
    (simp_all add: produce_def Let_def notify_def log_views touch_views put_artifact_artifacts
      consumed_once_def om_insert_ok om_get_insert single_note_def)

lemma consumed_once_batch:
  assumes ok: "consumed_once s"
  shows "consumed_once (after (produce_batch e as s))"
proof (cases "map (prepare_artifact (env_now e)) as")
  case Nil
  then show ?thesis using ok by (simp add: produce_batch_def)
next
  case (Cons base others)
  show ?thesis
  proof (cases "batch_mismatch base (base # others)")
    case (Some field)
    then show ?thesis using ok by (simp add: produce_batch_def Cons del: batch_mismatch.simps)
  next
    case None
    let ?as = "map (\<lambda>a. a\<lparr>ma_consumed := False\<rparr>) (base # others)"
    have om: "om_ok (ms_artifacts s)" using ok by (simp add: consumed_once_def)
    note put = fold_put_artifacts [OF om, of ?as]
    show ?thesis
    proof (rule consumed_once_enter [OF ok])
      show "om_ok (ms_artifacts (after (produce_batch e as s)))"
        using put None by (simp add: produce_batch_def Cons Let_def notify_artifacts log_views touch_views
            del: batch_mismatch.simps fold_simps)
      show "ms_sent (after (produce_batch e as s)) = ms_sent s @
          [batch_note (map ma_id ?as) (ma_dimension_id base) (ma_task_id base) (ma_node_id base)
             (ma_tags base) (ma_content_type base)]"
        using put None by (simp add: produce_batch_def Cons Let_def notify_def log_views touch_views
            del: batch_mismatch.simps fold_simps)
      fix i assume "i \<notin> set (mn_ids (batch_note (map ma_id ?as) (ma_dimension_id base)
          (ma_task_id base) (ma_node_id base) (ma_tags base) (ma_content_type base)))"
      then have "i \<notin> set (map ma_id ?as)" by (simp add: batch_note_def)
      then show "om_get (ms_artifacts (after (produce_batch e as s))) i = om_get (ms_artifacts s) i"
        using put [of i] None by (simp add: produce_batch_def Cons Let_def notify_artifacts log_views touch_views
            del: batch_mismatch.simps fold_simps)
    qed (simp add: batch_note_def)
  qed
qed

lemma consumed_once_consume:
  assumes ok: "consumed_once s"
  shows "consumed_once (after (consume e i s))"
proof (cases "\<exists>a. om_get (ms_artifacts s) i = Some a \<and> \<not> ma_consumed a")
  case False
  then show ?thesis using ok by (auto simp: consume_def split: option.split)
next
  case True
  then obtain a where a: "om_get (ms_artifacts s) i = Some a" "\<not> ma_consumed a" by blast
  have om: "om_ok (ms_artifacts s)" using ok by (simp add: consumed_once_def)
  let ?s' = "after (consume e i s)"
  have arts: "ms_artifacts ?s' = om_insert i (a\<lparr>ma_consumed := True\<rparr>) (ms_artifacts s)"
    and sent: "\<exists>msg. ms_sent ?s' = ms_sent s @ [msg] \<and> mn_kind msg = MeshConsumed \<and> mn_ids msg = [i]"
    using a by (simp_all add: consume_def Let_def mesh_log_def notify_def single_note_def)
  have bound: "told {MeshConsumed} j s + unread j s \<le> told entering j s" for j
    using ok by (simp add: consumed_once_def)
  have "told {MeshConsumed} j ?s' = told {MeshConsumed} j s + (if j = i then 1 else 0)"
    "told entering j ?s' = told entering j s" for j
    using sent by (auto simp: told_def)
  moreover have "unread j ?s' = (if j = i then 0 else unread j s)" for j
    by (simp add: unread_def arts om_get_insert [OF om])
  moreover have "unread i s = 1" using a by (simp add: unread_def)
  ultimately have "told {MeshConsumed} j ?s' + unread j ?s' \<le> told entering j ?s'" for j
    using bound [of j] by (cases "j = i") simp_all
  then show ?thesis by (simp add: consumed_once_def arts om_insert_ok [OF om])
qed

lemma patch_views:
  "ms_artifacts (after (advance_revision now n x strategy pid s)) = ms_artifacts s"
  "ms_sent (after (advance_revision now n x strategy pid s)) = ms_sent s"
  "ms_artifacts (record_patch e fresh n pre post ops t d rs s) = ms_artifacts s"
  "\<exists>msg. ms_sent (record_patch e fresh n pre post ops t d rs s) = ms_sent s @ [msg] \<and> mn_kind msg = MeshPatch"
  by (simp_all add: advance_revision_def Let_def record_patch_def store_patch_def mesh_log_def notify_def
      single_note_def case_prod_beta)

lemma consumed_once_record:
  assumes ok: "consumed_once s" and s1: "ms_artifacts s1 = ms_artifacts s" "ms_sent s1 = ms_sent s"
  shows "consumed_once (record_patch e fresh n pre post ops t d rs s1)"
  using s1 patch_views(4) [of e fresh n pre post ops t d rs s1]
  by (intro consumed_once_same [OF ok]) (auto simp: patch_views)

lemma consumed_once_patch:
  "consumed_once s \<Longrightarrow> consumed_once (snd (mesh_patch e fresh n pre post ops t d s))"
  unfolding mesh_patch_def case_prod_beta Let_def snd_conv
  by (rule consumed_once_record) (simp_all add: patch_views)

lemma consumed_once_patch_with_revision:
  assumes ok: "consumed_once s"
  shows "consumed_once (after (patch_with_revision e fresh rq s))"
proof (cases "advance_revision (env_now e) (rq_node_id rq) (rq_expected_revision rq) (rq_strategy rq) (Some fresh) s")
  case (Pair r s1)
  then have s1: "ms_artifacts s1 = ms_artifacts s" "ms_sent s1 = ms_sent s"
    using patch_views(1,2) [of "env_now e" "rq_node_id rq" "rq_expected_revision rq" "rq_strategy rq" "Some fresh" s]
    by simp_all
  show ?thesis
  proof (cases r)
    case (Inl err)
    then show ?thesis using Pair s1 by (intro consumed_once_same [OF ok]) (simp_all add: patch_with_revision_def)
  next
    case (Inr rs)
    then have after: "after (patch_with_revision e fresh rq s) = record_patch e fresh (rq_node_id rq) (rq_before rq)
        (rq_after rq) (rq_ops rq) (rq_task_id rq) (rq_dimension_id rq) rs s1"
      using Pair by (simp add: patch_with_revision_def case_prod_beta)
    show ?thesis unfolding after by (rule consumed_once_record [OF ok s1])
  qed
qed

lemma consumed_once_collect:
  assumes ok: "consumed_once s"
  shows "consumed_once (snd (collect_garbage p s))"
proof (rule consumed_once_weaken [OF ok])
  have om: "om_ok (ms_artifacts s)" using ok by (simp add: consumed_once_def)
  show "om_ok (ms_artifacts (snd (collect_garbage p s)))"
    by (simp add: collect_garbage_def Let_def om_retain_ok [OF om])
  have sent: "ms_sent (snd (collect_garbage p s)) = ms_sent s" by (simp add: collect_garbage_def Let_def)
  fix i
  show "told {MeshConsumed} i (snd (collect_garbage p s)) = told {MeshConsumed} i s" by (rule told_same [OF sent])
  have "unread i (snd (collect_garbage p s)) \<le> unread i s"
    by (simp add: unread_def collect_garbage_def Let_def om_get_retain [OF om] split: option.split)
  then show "unread i (snd (collect_garbage p s)) + told entering i s \<le>
      unread i s + told entering i (snd (collect_garbage p s))"
    using told_same [OF sent, of entering i] by simp
qed

lemma consumed_once_step:
  assumes ok: "consumed_once s"
  shows "consumed_once (mesh_step k s)"
proof (cases "snd k")
  case (MProduceValidated a)
  then show ?thesis
    using ok consumed_once_produce [OF ok, of "fst k" "prepare_artifact (env_now (fst k)) a"]
    by (simp add: mesh_step_def produce_validated_def Let_def case_prod_beta split: sum.split)
next
  case (MRegisterSchema ct v d)
  then show ?thesis
    by (intro consumed_once_same [OF ok]) (simp_all add: mesh_step_def mesh_register_schema_def Let_def)
next
  case (MSnapshot fresh n state t d)
  then show ?thesis
    by (intro consumed_once_same [OF ok])
      (simp_all add: mesh_step_def snapshot_node_def Let_def notify_def log_views touch_views single_note_def)
qed (simp_all add: mesh_step_def Let_def ok consumed_once_produce consumed_once_batch consumed_once_consume
    consumed_once_patch consumed_once_patch_with_revision consumed_once_collect)

lemma consumed_once_replicated:
  assumes ok: "consumed_once s"
  shows "consumed_once (after (insert_replicated_artifact e a s))"
    "consumed_once (after (insert_replicated_snapshot e x s))"
    "consumed_once (after (insert_replicated_patch e y s))"
proof -
  have om: "om_ok (ms_artifacts s)" using ok by (simp add: consumed_once_def)
  show "consumed_once (after (insert_replicated_artifact e a s))"
  proof (cases "om_contains (ms_artifacts s) (ma_id a)")
    case True
    then show ?thesis using ok by (simp add: insert_replicated_artifact_def)
  next
    case False
    show ?thesis
      by (rule consumed_once_enter [OF ok, where msg = "single_note (ma_id a) MeshReplicated (ma_dimension_id a)
            (ma_task_id a) (ma_node_id a) (ma_tags a) (ma_content_type a)"])
        (use False om in \<open>simp_all add: insert_replicated_artifact_def Let_def notify_def log_views touch_views
          single_note_def om_insert_ok om_get_insert\<close>)
  qed
  show "consumed_once (after (insert_replicated_snapshot e x s))"
    by (intro consumed_once_same [OF ok])
      (simp_all add: insert_replicated_snapshot_def Let_def notify_def touch_views single_note_def)
  show "consumed_once (after (insert_replicated_patch e y s))"
    by (intro consumed_once_same [OF ok])
      (simp_all add: insert_replicated_patch_def Let_def notify_def touch_views single_note_def)
qed

lemma consumed_once_replicate:
  assumes "consumed_once target"
  shows "consumed_once (after (replicate_one kind e i source target))"
  using consumed_once_replicated [OF assms] assms
  by (cases kind)
    (auto simp: replicate_one_def replicate_artifact_def replicate_snapshot_def replicate_patch_def
      replicate_with_def case_prod_beta split: sum.split)

lemma consumed_once_replicate_ids:
  "consumed_once target \<Longrightarrow> consumed_once (after (replicate_ids kind es is k source target))"
proof (induction "is" arbitrary: k target)
  case (Cons i "is")
  then show ?case
    using consumed_once_replicate [OF Cons.prems, of kind "es k" i source]
    by (auto simp: case_prod_beta split: sum.split)
qed simp

interpretation consumption: invariant_system "\<lambda>_ _. True" mesh_link_step
    "\<lambda>st :: 'j mesh_store \<times> 'j mesh_store. consumed_once (fst st) \<and> consumed_once (snd st)"
proof unfold_locales
  fix op and st :: "'j mesh_store \<times> 'j mesh_store"
  assume "consumed_once (fst st) \<and> consumed_once (snd st)"
  then show "consumed_once (fst (mesh_link_step op st)) \<and> consumed_once (snd (mesh_link_step op st))"
    using consumed_once_replicate [of "snd st" MeshProduced _ _ "fst st"]
      consumed_once_replicate [of "snd st" MeshSnapshot _ _ "fst st"]
      consumed_once_replicate [of "snd st" MeshPatch _ _ "fst st"]
    by (cases op) (simp_all add: consumed_once_step replicate_one_def replicate_notification_def
        consumed_once_replicate_ids)
qed

lemma consumed_once_new: "consumed_once (new_mesh_store now l)"
  by (simp add: consumed_once_def new_mesh_store_def told_def unread_def)

text \<open>C16: In either of two joined stores, whatever the calls, an artifact is announced as consumed at
  most as often as it was announced as produced, batch-produced or replicated, and strictly less
  often while it can still be consumed: each entry of an artifact is consumed at most once.\<close>

theorem consumed_at_most_once:
  "let s = (if at_source then fst else snd) (mesh_link_run now l now' l' ops)
   in told {MeshConsumed} i s
        + (case consume e i s of (Inr a, _) \<Rightarrow> 1 | (Inl err, _) \<Rightarrow> 0)
      \<le> told {MeshProduced, MeshBatchProduced, MeshReplicated} i s"
proof -
  have "consumed_once (fst (mesh_link_run now l now' l' ops)) \<and> consumed_once (snd (mesh_link_run now l now' l' ops))"
    unfolding mesh_link_run_def by (rule consumption.run_inv) (simp_all add: consumed_once_new)
  moreover have "(case consume e i s of (Inr a, _) \<Rightarrow> 1 | (Inl err, _) \<Rightarrow> 0) = unread i s" for s :: "'a mesh_store"
    by (simp add: consume_def Let_def unread_def split: option.split)
  ultimately show ?thesis by (cases at_source) (simp_all add: consumed_once_def Let_def)
qed

section \<open>Optimistic concurrency\<close>

definition patch_contract :: "env \<Rightarrow> artifact_id \<Rightarrow> 'j patch_request \<Rightarrow> 'j mesh_store \<Rightarrow> bool" where
  "patch_contract e fresh rq s =
     (let n = rq_node_id rq; cur = current_revision s n;
       (r, s') = patch_with_revision e fresh rq s
   in case r of
        Inl err \<Rightarrow> rq_strategy rq = Reject \<and> cur \<noteq> rq_expected_revision rq
          \<and> err = ConcurrentEdit n (rq_expected_revision rq) cur
          \<and> current_revision s' = current_revision s
          \<and> s'\<lparr>ms_node_states := ms_node_states s\<rparr> = s
          \<and> mesh_node_state_of s' n = Some (state_or_new (env_now e) n s)
      | Inr ok \<Rightarrow> (rq_strategy rq = LastWriteWins \<or> cur = rq_expected_revision rq)
          \<and> ok = \<lparr>pr_artifact_id = fresh, pr_new_revision = saturating_add cur 1,
                   pr_conflict = (cur \<noteq> rq_expected_revision rq)\<rparr>
          \<and> current_revision s' = (current_revision s)(n := saturating_add cur 1)
          \<and> ms_artifacts s' = ms_artifacts s \<and> ms_snapshots s' = ms_snapshots s
          \<and> (\<exists>p. ms_patches s' = om_insert fresh p (ms_patches s)
               \<and> dp_node_id p = n \<and> dp_base_revision p = cur \<and> dp_new_revision p = saturating_add cur 1
               \<and> dp_conflict p = (cur \<noteq> rq_expected_revision rq)
               \<and> dp_before p = rq_before rq \<and> dp_after p = rq_after rq \<and> dp_ops p = rq_ops rq))"

lemma patch_contract_holds:
  assumes ok: "mesh_ok s"
  shows "patch_contract e fresh (rq :: 'j patch_request) s"
proof -
  have om: "om_ok (ms_node_states s)" using ok by (simp add: mesh_ok_def revisions_ok_def)
  let ?n = "rq_node_id rq"
  have current: "current_revision (s\<lparr>ms_node_states := om_insert ?n st (ms_node_states s)\<rparr>) =
      (current_revision s)(?n := st_revision st)" for st
    by (simp add: current_revision_def fun_eq_iff om_get_insert [OF om])
  have recorded: "current_revision (record_patch e fresh n pre post ops t d rs s') = current_revision s'"
    for n and pre post :: 'j and ops t d rs s'
    by (simp add: current_revision_def record_patch_def store_patch_def mesh_log_def notify_def
        case_prod_beta fun_eq_iff)
  show ?thesis
    unfolding patch_contract_def Let_def
  proof (rule advance_cases [of "rq_strategy rq" s ?n "rq_expected_revision rq" "env_now e" "Some fresh"],
      goal_cases)
    case 1
    then show ?case
      by (simp add: patch_with_revision_def current state_or_new_revision mesh_node_state_of_def
          om_get_insert [OF om])
  next
    case (2 st)
    then show ?case
      by (simp add: patch_with_revision_def recorded current)
        (simp add: record_patch_def store_patch_def mesh_log_def notify_def,
          intro exI conjI, rule refl, simp_all)
  qed
qed

text \<open>C6: A patch with an expected revision is refused exactly when the revision differs and the
  strategy is \<open>Reject\<close>; a refusal changes no revision, patch, artifact or log (but files a fresh state
  for an unknown node); an accepted patch is stored with the revision it found as base, moves the node
  to the next revision (saturating), and is marked as a conflict exactly when the expectation was wrong.\<close>

theorem patch_with_revision_spec:
  fixes rq :: "'j patch_request"
  shows "let s = (if at_source then fst else snd) (mesh_link_run now l now' l' ops);
       n = rq_node_id rq; cur = current_revision s n;
       (r, s') = patch_with_revision e fresh rq s
   in case r of
        Inl err \<Rightarrow> rq_strategy rq = Reject \<and> cur \<noteq> rq_expected_revision rq
          \<and> err = ConcurrentEdit n (rq_expected_revision rq) cur
          \<and> current_revision s' = current_revision s
          \<and> s'\<lparr>ms_node_states := ms_node_states s\<rparr> = s
          \<and> mesh_node_state_of s' n = Some (state_or_new (env_now e) n s)
      | Inr ok \<Rightarrow> (rq_strategy rq = LastWriteWins \<or> cur = rq_expected_revision rq)
          \<and> ok = \<lparr>pr_artifact_id = fresh, pr_new_revision = saturating_add cur 1,
                   pr_conflict = (cur \<noteq> rq_expected_revision rq)\<rparr>
          \<and> current_revision s' = (current_revision s)(n := saturating_add cur 1)
          \<and> ms_artifacts s' = ms_artifacts s \<and> ms_snapshots s' = ms_snapshots s
          \<and> (\<exists>p. ms_patches s' = om_insert fresh p (ms_patches s)
               \<and> dp_node_id p = n \<and> dp_base_revision p = cur \<and> dp_new_revision p = saturating_add cur 1
               \<and> dp_conflict p = (cur \<noteq> rq_expected_revision rq)
               \<and> dp_before p = rq_before rq \<and> dp_after p = rq_after rq \<and> dp_ops p = rq_ops rq)"
  using patch_contract_holds [of "fst (mesh_link_run now l now' l' ops)" e fresh rq]
    patch_contract_holds [of "snd (mesh_link_run now l now' l' ops)" e fresh rq]
  by (cases at_source) (simp_all add: mesh_link_run_ok patch_contract_def Let_def)

section \<open>Patch history\<close>

definition linear_history :: "'j mesh_store \<Rightarrow> bool" where
  "linear_history s =
     ((\<forall>i p. om_get (ms_patches s) i = Some p \<longrightarrow>
         unat (dp_new_revision p) = unat (dp_base_revision p) + 1
         \<and> dp_new_revision p \<le> current_revision s (dp_node_id p))
      \<and> (\<forall>i j p q. om_get (ms_patches s) i = Some p \<longrightarrow> om_get (ms_patches s) j = Some q \<longrightarrow>
           dp_node_id p = dp_node_id q \<longrightarrow> dp_new_revision p = dp_new_revision q \<longrightarrow> i = j))"

lemma linear_history_fewer:
  assumes "linear_history s" "current_revision s' = current_revision s"
    "\<And>i p. om_get (ms_patches s') i = Some p \<Longrightarrow> om_get (ms_patches s) i = Some p"
  shows "linear_history s'"
  using assms unfolding linear_history_def by metis

lemma linear_history_add:
  assumes lin: "linear_history s" and om: "om_ok (ms_patches s)"
    and patches: "ms_patches s' = om_insert fresh p (ms_patches s)"
    and new: "unat (dp_new_revision p) = unat (current_revision s (dp_node_id p)) + 1"
    and base: "dp_base_revision p = current_revision s (dp_node_id p)"
    and cur: "current_revision s' = (current_revision s)(dp_node_id p := dp_new_revision p)"
  shows "linear_history s'"
proof -
  note get = om_get_insert [OF om, of fresh p]
  have less: "current_revision s (dp_node_id p) < dp_new_revision p" using new by (simp add: word_less_nat_alt)
  have old: "unat (dp_new_revision q) = unat (dp_base_revision q) + 1"
    "dp_new_revision q \<le> current_revision s (dp_node_id q)" if "om_get (ms_patches s) i = Some q" for i q
    using lin that by (auto simp: linear_history_def)
  have apart: "dp_new_revision q \<noteq> dp_new_revision p"
    if "om_get (ms_patches s) i = Some q" "dp_node_id q = dp_node_id p" for i q
    using old(2) [OF that(1)] that(2) less by auto
  show ?thesis
    unfolding linear_history_def patches get cur
  proof (intro conjI allI impI)
    fix i q assume "((om_get (ms_patches s))(fresh \<mapsto> p)) i = Some q"
    then have "q = p \<or> om_get (ms_patches s) i = Some q" by (auto split: if_splits)
    then show "unat (dp_new_revision q) = unat (dp_base_revision q) + 1"
      "dp_new_revision q \<le> ((current_revision s)(dp_node_id p := dp_new_revision p)) (dp_node_id q)"
      using old [of i q] new base less by auto
  next
    fix i j q r
    assume "((om_get (ms_patches s))(fresh \<mapsto> p)) i = Some q" "((om_get (ms_patches s))(fresh \<mapsto> p)) j = Some r"
      "dp_node_id q = dp_node_id r" "dp_new_revision q = dp_new_revision r"
    then show "i = j" using apart lin unfolding linear_history_def by (auto split: if_splits)
  qed
qed

lemma mesh_patch_as_request:
  "snd (mesh_patch e fresh n pre post ops t d s) = after (patch_with_revision e fresh
     \<lparr>rq_node_id = n, rq_before = pre, rq_after = post, rq_ops = ops, rq_task_id = t, rq_dimension_id = d,
      rq_expected_revision = current_revision s n, rq_strategy = LastWriteWins\<rparr> s)"
  by (rule advance_cases [of LastWriteWins s n "current_revision s n" "env_now e" "Some fresh"])
    (simp_all add: mesh_patch_def patch_with_revision_def)

text \<open>One step: revisions stay or one of them goes up by one, and the history stays linear.\<close>

definition revisions_below :: "nat \<Rightarrow> 'j mesh_store \<Rightarrow> bool" where
  "revisions_below k s = (\<forall>n. unat (current_revision s n) \<le> k)"

lemma history_patch:
  assumes ok: "mesh_ok s" and lin: "linear_history s" and below: "revisions_below k s" and k: "k + 1 < 2 ^ 64"
  shows "linear_history (after (patch_with_revision e fresh rq s))
    \<and> revisions_below (k + 1) (after (patch_with_revision e fresh rq s))"
proof -
  obtain r s' where rs: "patch_with_revision e fresh rq s = (r, s')" by (cases "patch_with_revision e fresh rq s")
  note contract = patch_contract_holds [OF ok, of e fresh rq, unfolded patch_contract_def Let_def rs case_prod_conv]
  have om: "om_ok (ms_patches s)" using ok by (simp add: mesh_ok_def revisions_ok_def)
  let ?n = "rq_node_id rq"
  have cur: "unat (current_revision s n) \<le> k" for n using below by (simp add: revisions_below_def)
  show ?thesis
  proof (cases r)
    case (Inl err)
    with contract have cur': "current_revision s' = current_revision s"
      and "s'\<lparr>ms_node_states := ms_node_states s\<rparr> = s" by simp_all
    then have "ms_patches s' = ms_patches s" by (metis mesh_store.select_convs(3) mesh_store.update_convs(6) mesh_store.surjective)
    then show ?thesis using linear_history_fewer [OF lin cur'] cur cur'
      by (simp add: rs revisions_below_def le_Suc_eq)
  next
    case (Inr res)
    with contract obtain p where p: "ms_patches s' = om_insert fresh p (ms_patches s)" "dp_node_id p = ?n"
        "dp_base_revision p = current_revision s ?n" "dp_new_revision p = saturating_add (current_revision s ?n) 1"
      and cur': "current_revision s' = (current_revision s)(?n := saturating_add (current_revision s ?n) 1)"
      by auto
    have new: "unat (saturating_add (current_revision s ?n) 1) = unat (current_revision s ?n) + 1"
      using cur [of ?n] k by (simp add: unat_saturating_add)
    have "linear_history s'"
      by (rule linear_history_add [OF lin om p(1)]) (simp_all add: p new cur')
    moreover have "revisions_below (k + 1) s'"
      using cur new by (auto simp: revisions_below_def cur' intro: le_SucI)
    ultimately show ?thesis by (simp add: rs)
  qed
qed

lemma current_revision_same:
  "ms_node_states s' = ms_node_states s \<Longrightarrow> current_revision s' = current_revision s"
  by (simp add: current_revision_def [abs_def])

lemma current_revision_touch:
  assumes "om_ok (ms_node_states s)" "\<And>st. st_revision (update st) = st_revision st"
  shows "current_revision (touch_node_state now n update s) = current_revision s"
    "current_revision (touch_optional now node update s) = current_revision s"
proof -
  show touch: "current_revision (touch_node_state now n update s) = current_revision s" for n
    using assms(2) by (auto simp: touch_node_state_def current_revision_def fun_eq_iff om_get_insert [OF assms(1)]
        state_or_new_def new_node_state_def split: option.split)
  then show "current_revision (touch_optional now node update s) = current_revision s"
    by (simp add: touch_optional_def split: option.split)
qed

lemma put_states: "ms_node_states (put_artifact a s) = ms_node_states s" "ms_patches (put_artifact a s) = ms_patches s"
  by (simp_all add: put_artifact_def Let_def)

lemma put_log: "ms_log (put_artifact a s) = ms_log s"
  by (simp add: put_artifact_def Let_def)

lemma fold_put_states: "ms_node_states (fold put_artifact as s) = ms_node_states s"
  "ms_patches (fold put_artifact as s) = ms_patches s" "ms_log (fold put_artifact as s) = ms_log s"
  by (induction as arbitrary: s) (simp_all add: put_states put_log)

lemma put_revisions: "current_revision (put_artifact a s) = current_revision s"
  "current_revision (fold put_artifact as s) = current_revision s"
  by (rule current_revision_same, simp add: put_states fold_put_states)+

lemma revision_views:
  "current_revision (mesh_log e ev d t p s) = current_revision s" "ms_patches (mesh_log e ev d t p s) = ms_patches s"
  "current_revision (notify msg s) = current_revision s" "ms_patches (notify msg s) = ms_patches s"
  "ms_patches (touch_node_state now n u s) = ms_patches s"
  "ms_patches (touch_optional now node u s) = ms_patches s"
  by (simp_all add: mesh_log_def notify_def touch_node_state_def touch_optional_def current_revision_def [abs_def]
      split: option.split)

lemma produce_revisions:
  assumes "om_ok (ms_node_states s)"
  shows "current_revision (snd (produce e a s)) = current_revision s" "ms_patches (snd (produce e a s)) = ms_patches s"
  using assms by (simp_all add: produce_def Let_def revision_views current_revision_touch put_states
      put_revisions)

lemma batch_revisions:
  assumes "om_ok (ms_node_states s)"
  shows "current_revision (after (produce_batch e as s)) = current_revision s"
    "ms_patches (after (produce_batch e as s)) = ms_patches s"
  using assms
  by (simp_all add: produce_batch_def Let_def revision_views current_revision_touch put_states fold_put_states
      put_revisions del: batch_mismatch.simps fold_simps
      split: list.split option.split)

lemma collect_revisions:
  assumes ok: "mesh_ok s"
  shows "current_revision (snd (collect_garbage p s)) = current_revision s"
proof
  fix n
  have "om_ok (ms_node_states s)" using ok by (simp add: mesh_ok_def revisions_ok_def)
  then have "map_option st_revision (om_get (ms_node_states (snd (collect_garbage p s))) n) =
      map_option st_revision (om_get (ms_node_states s) n)"
    by (simp add: collect_garbage_def Let_def fold_forget_revision)
  then show "current_revision (snd (collect_garbage p s)) n = current_revision s n"
    by (auto simp: current_revision_def split: option.splits)
qed

lemma history_step:
  assumes ok: "mesh_ok s" and lin: "linear_history s" and below: "revisions_below m s" and m: "m + 1 < 2 ^ 64"
  shows "linear_history (mesh_step k s) \<and> revisions_below (m + 1) (mesh_step k s)"
proof -
  have om: "om_ok (ms_node_states s)" "om_ok (ms_patches s)" using ok by (simp_all add: mesh_ok_def revisions_ok_def)
  have same: ?thesis if "current_revision (mesh_step k s) = current_revision s"
    "\<And>i p. om_get (ms_patches (mesh_step k s)) i = Some p \<Longrightarrow> om_get (ms_patches s) i = Some p"
    using linear_history_fewer [OF lin that] below that(1) by (simp add: revisions_below_def le_SucI)
  show ?thesis
  proof (cases "snd k")
    case (MPatch fresh n pre post ops t d)
    then show ?thesis
      using history_patch [OF ok lin below m] by (simp add: mesh_step_def mesh_patch_as_request)
  next
    case (MPatchWithRevision fresh rq)
    then show ?thesis using history_patch [OF ok lin below m] by (simp add: mesh_step_def Let_def)
  next
    case (MCollect p)
    have "om_get (ms_patches (mesh_step k s)) i = Some q \<Longrightarrow> om_get (ms_patches s) i = Some q" for i q
      using MCollect by (auto simp: mesh_step_def collect_garbage_def Let_def om_get_retain [OF om(2)]
          split: option.splits if_splits)
    then show ?thesis
      using collect_revisions [OF ok] MCollect by (intro same) (simp_all add: mesh_step_def)
  next
    case (MSnapshot fresh n state t d)
    then show ?thesis
      using om by (intro same) (simp_all add: mesh_step_def snapshot_node_def Let_def revision_views current_revision_touch
          current_revision_same [of "s\<lparr>ms_snapshots := _\<rparr>" s])
  next
    case (MConsume i)
    then show ?thesis
      by (intro same) (auto simp: mesh_step_def consume_def Let_def revision_views
          current_revision_same [of "s\<lparr>ms_artifacts := _\<rparr>" s] split: option.splits if_splits)
  next
    case (MRegisterSchema ct v d)
    then show ?thesis
      by (intro same) (simp_all add: mesh_step_def mesh_register_schema_def Let_def
          current_revision_same [of "s\<lparr>ms_schemas := _\<rparr>" s])
  next
    case (MProduceValidated a)
    then show ?thesis
      using produce_revisions [OF om(1)] by (intro same)
        (auto simp: mesh_step_def produce_validated_def Let_def case_prod_beta split: sum.splits)
  qed (intro same; simp add: mesh_step_def Let_def produce_revisions [OF om(1)] batch_revisions [OF om(1)])+
qed

lemma history_run:
  assumes "mesh_ok s" "linear_history s" "revisions_below m s" "m + List.length ks < 2 ^ 64"
  shows "linear_history (fold mesh_step ks s)"
  using assms
proof (induction ks arbitrary: s m)
  case Nil
  then show ?case by simp
next
  case (Cons k ks)
  then have "m + 1 < 2 ^ 64" by simp
  note step = history_step [OF Cons.prems(1-3) this, of k]
  show ?case
    using Cons.IH [of "mesh_step k s" "m + 1"] step mesh_ok_step [OF Cons.prems(1)] Cons.prems(4) by simp
qed

text \<open>C13: In a store that receives no replicas and has taken fewer than \<open>2^64\<close> calls the stored
  patches of a node are steps of one line of revisions: every patch goes from its base to the next
  revision, none is beyond the current revision, and no two end in the same revision.\<close>

theorem patch_history_linear:
  "if List.length ks < 2 ^ 64 then linear_history (mesh_run now l ks) else True"
proof -
  have "linear_history (new_mesh_store now l)" "revisions_below 0 (new_mesh_store now l)"
    by (simp_all add: linear_history_def revisions_below_def new_mesh_store_def current_revision_def)
  then show ?thesis unfolding mesh_run_def using history_run [OF mesh_ok_new, of now l 0 ks] by simp
qed

section \<open>Schemas\<close>

text \<open>Printing and parsing a schema version are inverse, and after any calls on two joined stores
  the check of a version accepts exactly the registered ones; otherwise it names the greatest
  registered version of the same major number, or says that there is none.\<close>

theorem schema_check_exact:
  "let s = (if at_source then fst else snd) (mesh_link_run now l now' l' ops)
   in version_parse (version_text v) = Inr v
      \<and> (case mesh_validate_schema ct (version_text v) s of
           Inr _ \<Rightarrow> v \<in> registered (ms_schemas s) ct
         | Inl (SchemaVersionMismatch ct' expected actual) \<Rightarrow>
             v \<notin> registered (ms_schemas s) ct \<and> ct' = ct \<and> actual = version_text v
             \<and> (\<exists>w. w \<in> registered (ms_schemas s) ct \<and> sv_major w = sv_major v \<and> expected = version_text w
                  \<and> {w' \<in> registered (ms_schemas s) ct. sv_major w' = sv_major v} \<subseteq> {..w})
         | Inl err \<Rightarrow> err = SchemaNotRegistered ct (version_text v)
             \<and> {w \<in> registered (ms_schemas s) ct. sv_major w = sv_major v} = {})"
proof -
  define s where "s = (if at_source then fst else snd) (mesh_link_run now l now' l' ops)"
  have "mesh_ok s" unfolding s_def using mesh_link_run_ok by (cases at_source) simp_all
  then have "registry_ok (ms_schemas s)" by (simp add: mesh_ok_def)
  note cases = validate_version_cases [OF this, of ct v]
  then show ?thesis
    unfolding s_def [symmetric] Let_def mesh_validate_schema_def
    by (cases "validate_version (ms_schemas s) ct v") (auto simp: version_parse_text split: mesh_error.splits)
qed

section \<open>Audit\<close>

lemma mesh_log_grows:
  "prefix (al_entries (ms_log s)) (al_entries (ms_log (mesh_step k s)))"
  by (cases "snd k")
    (auto simp: mesh_step_def Let_def mesh_register_schema_def produce_def produce_validated_def produce_batch_def
      consume_def snapshot_node_def mesh_patch_def patch_with_revision_def record_patch_def store_patch_def
      advance_revision_def collect_garbage_def touch_optional_def touch_node_state_def mesh_log_def notify_def
      log_simps case_prod_beta put_log fold_put_states simp del: batch_mismatch.simps fold_simps split: option.split sum.split list.split)

interpretation mesh_audit: audited mesh_step "\<lambda>s :: 'j mesh_store. al_entries (ms_log s)"
  by unfold_locales (rule mesh_log_grows)

end
