(* ===== verification/Node_Graph.thy ===== *)
theory Node_Graph
  imports Action_Log Ordered_Map "HOL-Library.Char_ord" "HOL-Library.List_Lexorder"
begin

text \<open>
  The canvas node graph with undo and redo, and the node customizer (\<open>node.rs\<close>). Hash maps are
  kept in key order; their order reaches only the list of changed fields in a log entry, which the
  code leaves open. A stack is the list from its top. The \<open>undoable\<close> contract says what a command
  and its inverse owe each other; the refinement to a timeline of states rests on it.
\<close>

section \<open>Data\<close>

datatype node_error =
    NodeGraphNotFound uuid
  | NodeTemplateNotFound uuid
  | PresetNotFound uuid string
  | MissingRequiredParameter uuid string
  | NothingToUndo
  | NothingToRedo

type_synonym 'j params = "(string, 'j) om"

record 'j node_parameter =
  np_name :: string
  np_type_hint :: string
  np_default :: "'j option"
  np_required :: bool
  np_description :: string

record 'j node_preset =
  ps_name :: string
  ps_values :: "'j params"

record 'j node_template =
  nt_id :: uuid
  nt_name :: string
  nt_description :: string
  nt_parameters :: "'j node_parameter list"
  nt_tools :: "string list"
  nt_memory_config :: 'j
  nt_task_flow :: 'j
  nt_presets :: "'j node_preset list"

definition new_node_template :: "uuid \<Rightarrow> 'j \<Rightarrow> string \<Rightarrow> string \<Rightarrow> 'j node_template" where
  "new_node_template fresh null name description =
     \<lparr>nt_id = fresh, nt_name = name, nt_description = description, nt_parameters = [], nt_tools = [],
      nt_memory_config = null, nt_task_flow = null, nt_presets = []\<rparr>"

definition template_preset :: "'j node_template \<Rightarrow> string \<Rightarrow> 'j node_preset option" where
  "template_preset t name = find (\<lambda>p. ps_name p = name) (nt_presets t)"

record 'j canvas_node =
  cn_id :: uuid
  cn_dimension_id :: dimension_id
  cn_template_id :: uuid
  cn_name :: string
  cn_parameters :: "'j params"
  cn_position :: "f64 \<times> f64"

type_synonym 'j canvas = "(uuid, 'j canvas_node) om"

section \<open>Commands\<close>

datatype 'j node_command =
    CmdAdd "'j canvas_node"
  | CmdRemove "'j canvas_node"
  | CmdUpdate uuid "'j params" "'j params"
  | CmdMove uuid "f64 \<times> f64" "f64 \<times> f64"

primrec command_inverse :: "'j node_command \<Rightarrow> 'j node_command" where
  "command_inverse (CmdAdd node) = CmdRemove node"
| "command_inverse (CmdRemove node) = CmdAdd node"
| "command_inverse (CmdUpdate n old new) = CmdUpdate n new old"
| "command_inverse (CmdMove n old new) = CmdMove n new old"

primrec execute_command :: "'j node_command \<Rightarrow> 'j canvas \<Rightarrow> 'j canvas" where
  "execute_command (CmdAdd node) m = om_insert (cn_id node) node m"
| "execute_command (CmdRemove node) m = om_remove (cn_id node) m"
| "execute_command (CmdUpdate n old new) m =
     (case om_get m n of None \<Rightarrow> m | Some node \<Rightarrow> om_insert n (node\<lparr>cn_parameters := new\<rparr>) m)"
| "execute_command (CmdMove n old new) m =
     (case om_get m n of None \<Rightarrow> m | Some node \<Rightarrow> om_insert n (node\<lparr>cn_position := new\<rparr>) m)"

section \<open>Graph\<close>

record 'j node_graph =
  ng_nodes :: "'j canvas"
  ng_undo :: "'j node_command list"
  ng_redo :: "'j node_command list"
  ng_log :: "'j action_log"
  ng_dimension_id :: dimension_id
  ng_task_id :: task_id

definition new_node_graph :: "dimension_id \<Rightarrow> task_id \<Rightarrow> 'j action_log \<Rightarrow> 'j node_graph" where
  "new_node_graph d t l =
     \<lparr>ng_nodes = om_empty, ng_undo = [], ng_redo = [], ng_log = l, ng_dimension_id = d, ng_task_id = t\<rparr>"

definition log_node :: "env \<Rightarrow> event_type \<Rightarrow> 'j payload \<Rightarrow> 'j node_graph \<Rightarrow> 'j node_graph" where
  "log_node e ev p g = g\<lparr>ng_log := log_system e ev (ng_dimension_id g) (ng_task_id g) p (ng_log g)\<rparr>"

definition apply_command :: "'j node_command \<Rightarrow> 'j node_graph \<Rightarrow> 'j node_graph" where
  "apply_command c g =
     g\<lparr>ng_nodes := execute_command c (ng_nodes g), ng_undo := command_inverse c # ng_undo g, ng_redo := []\<rparr>"

text \<open>\<open>HashMap::extend\<close>.\<close>

definition extend_params :: "'j params \<Rightarrow> 'j params \<Rightarrow> 'j params" where
  "extend_params m updates = fold (\<lambda>(k, v). om_insert k v) updates m"

definition template_defaults :: "'j node_template \<Rightarrow> 'j params" where
  "template_defaults t =
     fold (\<lambda>p m. case np_default p of None \<Rightarrow> m | Some v \<Rightarrow> om_insert (np_name p) v m) (nt_parameters t) om_empty"

definition missing_parameter :: "'j node_template \<Rightarrow> 'j params \<Rightarrow> string option" where
  "missing_parameter t m =
     map_option np_name (find (\<lambda>p. np_required p \<and> \<not> om_contains m (np_name p)) (nt_parameters t))"

definition canvas_add ::
  "env \<Rightarrow> uuid \<Rightarrow> 'j node_template \<Rightarrow> string \<Rightarrow> f64 \<times> f64 \<Rightarrow> 'j params \<Rightarrow> 'j node_graph
     \<Rightarrow> (node_error, uuid, 'j node_graph) outcome" where
  "canvas_add e fresh t name pos params g =
     (let final_params = extend_params (template_defaults t) params in
      case missing_parameter t final_params of
        Some param \<Rightarrow> (Inl (MissingRequiredParameter 0 param), g)
      | None \<Rightarrow>
          let node = \<lparr>cn_id = fresh, cn_dimension_id = ng_dimension_id g, cn_template_id = nt_id t,
                      cn_name = name, cn_parameters = final_params, cn_position = pos\<rparr>
          in (Inr fresh, log_node e NodeCreated
                [(''node_id'', PId fresh), (''node_kind'', PText (nt_name t)), (''template_id'', PId (nt_id t))]
                (apply_command (CmdAdd node) g)))"

definition canvas_remove ::
  "env \<Rightarrow> uuid \<Rightarrow> 'j node_graph \<Rightarrow> (node_error, unit, 'j node_graph) outcome" where
  "canvas_remove e n g =
     (case om_get (ng_nodes g) n of
        None \<Rightarrow> (Inl (NodeGraphNotFound n), g)
      | Some node \<Rightarrow>
          (Inr (), log_node e NodeDeleted [(''node_id'', PId n)] (apply_command (CmdRemove node) g)))"

definition canvas_update ::
  "env \<Rightarrow> uuid \<Rightarrow> 'j params \<Rightarrow> 'j node_graph \<Rightarrow> (node_error, unit, 'j node_graph) outcome" where
  "canvas_update e n updates g =
     (case om_get (ng_nodes g) n of
        None \<Rightarrow> (Inl (NodeGraphNotFound n), g)
      | Some node \<Rightarrow>
          let old = cn_parameters node; new = extend_params old updates
          in (Inr (), log_node e NodeUpdated
                [(''node_id'', PId n), (''changed_fields'', PTexts (om_keys updates))]
                (apply_command (CmdUpdate n old new) g)))"

definition canvas_move ::
  "uuid \<Rightarrow> f64 \<times> f64 \<Rightarrow> 'j node_graph \<Rightarrow> (node_error, unit, 'j node_graph) outcome" where
  "canvas_move n pos g =
     (case om_get (ng_nodes g) n of
        None \<Rightarrow> (Inl (NodeGraphNotFound n), g)
      | Some node \<Rightarrow> (Inr (), apply_command (CmdMove n (cn_position node) pos) g))"

definition canvas_undo :: "env \<Rightarrow> 'j node_graph \<Rightarrow> (node_error, unit, 'j node_graph) outcome" where
  "canvas_undo e g =
     (case ng_undo g of
        [] \<Rightarrow> (Inl NothingToUndo, g)
      | c # cs \<Rightarrow>
          (Inr (), log_node e NodeUndo [(''undo_stack_remaining'', PNum (of_nat (List.length cs)))]
             (g\<lparr>ng_nodes := execute_command c (ng_nodes g), ng_undo := cs,
                ng_redo := command_inverse c # ng_redo g\<rparr>)))"

definition canvas_redo :: "env \<Rightarrow> 'j node_graph \<Rightarrow> (node_error, unit, 'j node_graph) outcome" where
  "canvas_redo e g =
     (case ng_redo g of
        [] \<Rightarrow> (Inl NothingToRedo, g)
      | c # cs \<Rightarrow>
          (Inr (), log_node e NodeRedo [(''redo_stack_remaining'', PNum (of_nat (List.length cs)))]
             (g\<lparr>ng_nodes := execute_command c (ng_nodes g), ng_redo := cs,
                ng_undo := command_inverse c # ng_undo g\<rparr>)))"

definition canvas_get :: "'j node_graph \<Rightarrow> uuid \<Rightarrow> 'j canvas_node option" where
  "canvas_get g n = om_get (ng_nodes g) n"

definition canvas_nodes :: "'j node_graph \<Rightarrow> 'j canvas_node list" where
  "canvas_nodes g = om_values (ng_nodes g)"

definition canvas_len :: "'j node_graph \<Rightarrow> nat" where
  "canvas_len g = List.length (ng_nodes g)"

definition canvas_is_empty :: "'j node_graph \<Rightarrow> bool" where
  "canvas_is_empty g = (ng_nodes g = [])"

definition undo_depth :: "'j node_graph \<Rightarrow> nat" where
  "undo_depth g = List.length (ng_undo g)"

definition redo_depth :: "'j node_graph \<Rightarrow> nat" where
  "redo_depth g = List.length (ng_redo g)"

definition canvas_validate :: "'j node_graph \<Rightarrow> node_error + unit" where
  "canvas_validate g =
     (case find (\<lambda>node. cn_template_id node = 0) (canvas_nodes g) of
        None \<Rightarrow> Inr () | Some node \<Rightarrow> Inl (NodeTemplateNotFound (cn_template_id node)))"

section \<open>Customizer\<close>

record 'j customizer =
  cz_templates :: "uuid \<rightharpoonup> 'j node_template"
  cz_log :: "'j action_log"

definition new_customizer :: "'j action_log \<Rightarrow> 'j customizer" where
  "new_customizer l = \<lparr>cz_templates = Map.empty, cz_log = l\<rparr>"

definition register_node_template :: "'j node_template \<Rightarrow> 'j customizer \<Rightarrow> 'j customizer" where
  "register_node_template t c = c\<lparr>cz_templates := (cz_templates c)(nt_id t \<mapsto> t)\<rparr>"

definition get_node_template :: "'j customizer \<Rightarrow> uuid \<Rightarrow> 'j node_template option" where
  "get_node_template c k = cz_templates c k"

definition validate_params :: "'j customizer \<Rightarrow> 'j canvas_node \<Rightarrow> node_error + unit" where
  "validate_params c node =
     (case cz_templates c (cn_template_id node) of
        None \<Rightarrow> Inr ()
      | Some t \<Rightarrow>
          (case missing_parameter t (cn_parameters node) of
             None \<Rightarrow> Inr () | Some param \<Rightarrow> Inl (MissingRequiredParameter (cn_id node) param)))"

text \<open>These change the node they are given and append to the log: the state is both.\<close>

definition apply_preset ::
  "env \<Rightarrow> uuid \<Rightarrow> string \<Rightarrow> 'j canvas_node \<times> 'j customizer
     \<Rightarrow> (node_error, unit, 'j canvas_node \<times> 'j customizer) outcome" where
  "apply_preset e k preset_name = (\<lambda>(node, c).
     case cz_templates c k of
       None \<Rightarrow> (Inl (NodeTemplateNotFound k), (node, c))
     | Some t \<Rightarrow>
         (case template_preset t preset_name of
            None \<Rightarrow> (Inl (PresetNotFound k preset_name), (node, c))
          | Some preset \<Rightarrow>
              let node' = node\<lparr>cn_parameters :=
                    fold (\<lambda>(key, v). om_insert key v) (ps_values preset) (cn_parameters node)\<rparr>
              in (Inr (), (node', c\<lparr>cz_log := append_log
                   (new_entry e NodeUpdated System (Some (cn_dimension_id node')) None
                      [(''node_id'', PId (cn_id node')), (''preset_applied'', PText preset_name),
                       (''template_id'', PId k)]) (cz_log c)\<rparr>))))"

definition customize ::
  "env \<Rightarrow> task_id \<Rightarrow> 'j params \<Rightarrow> 'j canvas_node \<times> 'j customizer
     \<Rightarrow> (node_error, unit, 'j canvas_node \<times> 'j customizer) outcome" where
  "customize e t updates = (\<lambda>(node, c).
     let node' = node\<lparr>cn_parameters := extend_params (cn_parameters node) updates\<rparr>;
         c' = c\<lparr>cz_log := append_log
                  (new_entry e NodeUpdated System (Some (cn_dimension_id node')) (Some t)
                     [(''node_id'', PId (cn_id node')), (''changed_fields'', PTexts (om_keys updates))])
                  (cz_log c)\<rparr>
     in (case cz_templates c' (cn_template_id node') of
           None \<Rightarrow> (Inr (), (node', c'))
         | Some tpl \<Rightarrow>
             (case missing_parameter tpl (cn_parameters node') of
                None \<Rightarrow> (Inr (), (node', c'))
              | Some param \<Rightarrow> (Inl (MissingRequiredParameter (cn_id node') param), (node', c')))))"

end
