(* ===== verification/Node_History.thy ===== *)
theory Node_History
  imports Node_Graph
begin

text \<open>
  Undo and redo of the node graph against a timeline of canvas states, and what the operations
  promise of parameters. \<open>undoable\<close> is the contract between a command and its inverse.
\<close>

section \<open>Contract\<close>

fun replay :: "('c \<Rightarrow> 's \<Rightarrow> 's) \<Rightarrow> 'c list \<Rightarrow> 's \<Rightarrow> 's list" where
  "replay exec [] s = []"
| "replay exec (c # cs) s = exec c s # replay exec cs (exec c s)"

fun valid_stack :: "('c \<Rightarrow> 's \<Rightarrow> bool) \<Rightarrow> ('c \<Rightarrow> 's \<Rightarrow> 's) \<Rightarrow> 'c list \<Rightarrow> 's \<Rightarrow> bool" where
  "valid_stack valid exec [] s = True"
| "valid_stack valid exec (c # cs) s = (valid c s \<and> valid_stack valid exec cs (exec c s))"

locale undoable =
  fixes exec :: "'c \<Rightarrow> 's \<Rightarrow> 's"
    and inverse :: "'c \<Rightarrow> 'c"
    and valid :: "'c \<Rightarrow> 's \<Rightarrow> bool"
  assumes exec_inverse: "valid c s \<Longrightarrow> exec (inverse c) (exec c s) = s"
    and valid_inverse: "valid c s \<Longrightarrow> valid (inverse c) (exec c s)"
    and inverse_inverse: "inverse (inverse c) = c"
begin

lemma replay_inverse: "valid c s \<Longrightarrow> replay exec (inverse c # cs) (exec c s) = s # replay exec cs s"
  by (simp add: exec_inverse)

lemma valid_stack_inverse:
  "valid c s \<Longrightarrow> valid_stack valid exec cs s \<Longrightarrow> valid_stack valid exec (inverse c # cs) (exec c s)"
  by (simp add: exec_inverse valid_inverse)

lemma round_trip:
  "valid c s \<Longrightarrow> exec (inverse (inverse c)) (exec (inverse c) (exec c s)) = exec c s"
  by (simp add: exec_inverse inverse_inverse)

end

section \<open>Commands of the node graph\<close>

primrec command_valid :: "'j node_command \<Rightarrow> 'j canvas \<Rightarrow> bool" where
  "command_valid (CmdAdd node) m = (om_ok m \<and> om_get m (cn_id node) = None)"
| "command_valid (CmdRemove node) m = (om_ok m \<and> om_get m (cn_id node) = Some node)"
| "command_valid (CmdUpdate n old new) m =
     (om_ok m \<and> (case om_get m n of None \<Rightarrow> False | Some node \<Rightarrow> cn_parameters node = old))"
| "command_valid (CmdMove n old new) m =
     (om_ok m \<and> (case om_get m n of None \<Rightarrow> False | Some node \<Rightarrow> cn_position node = old))"

lemma command_inverse_inverse: "command_inverse (command_inverse c) = c"
  by (cases c) simp_all

lemma execute_inverse: "command_valid c m \<Longrightarrow> execute_command (command_inverse c) (execute_command c m) = m"
proof (cases c)
  case (CmdAdd node)
  then show "command_valid c m \<Longrightarrow> ?thesis" by (simp add: om.del_put_fresh)
next
  case (CmdRemove node)
  then show "command_valid c m \<Longrightarrow> ?thesis" by (simp add: om.put_del_same)
next
  case (CmdUpdate n old new)
  then show "command_valid c m \<Longrightarrow> ?thesis"
    by (auto simp: om_get_insert om.put_put intro: om.put_same split: option.splits)
next
  case (CmdMove n old new)
  then show "command_valid c m \<Longrightarrow> ?thesis"
    by (auto simp: om_get_insert om.put_put intro: om.put_same split: option.splits)
qed

lemma execute_valid_inverse: "command_valid c m \<Longrightarrow> command_valid (command_inverse c) (execute_command c m)"
  by (cases c) (auto simp: om_get_insert om_get_remove om_insert_ok om_remove_ok split: option.splits)

interpretation canvas_undo: undoable execute_command command_inverse command_valid
  by unfold_locales (simp_all add: execute_inverse execute_valid_inverse command_inverse_inverse)

section \<open>Calls and the timeline\<close>

datatype 'j canvas_op =
    CvAdd uuid "'j node_template" string "f64 \<times> f64" "'j params"
  | CvRemove uuid
  | CvUpdate uuid "'j params"
  | CvMove uuid "f64 \<times> f64"
  | CvUndo
  | CvRedo

primrec canvas_call ::
  "env \<Rightarrow> 'j canvas_op \<Rightarrow> 'j node_graph \<Rightarrow> node_error option \<times> 'j node_graph" where
  "canvas_call e (CvAdd fresh t name pos params) g =
     (let r = canvas_add e fresh t name pos params g in (err_of (result r), after r))"
| "canvas_call e (CvRemove n) g = (let r = canvas_remove e n g in (err_of (result r), after r))"
| "canvas_call e (CvUpdate n updates) g = (let r = canvas_update e n updates g in (err_of (result r), after r))"
| "canvas_call e (CvMove n pos) g = (let r = canvas_move n pos g in (err_of (result r), after r))"
| "canvas_call e CvUndo g = (let r = canvas_undo e g in (err_of (result r), after r))"
| "canvas_call e CvRedo g = (let r = canvas_redo e g in (err_of (result r), after r))"

definition canvas_step :: "env \<times> 'j canvas_op \<Rightarrow> 'j node_graph \<Rightarrow> 'j node_graph" where
  "canvas_step k g = snd (canvas_call (fst k) (snd k) g)"

text \<open>The states before, the present one, the states an undo has left ahead.\<close>

type_synonym 's timeline = "'s list \<times> 's \<times> 's list"

text \<open>What an edit makes of the canvas, or nothing when it is refused.\<close>

fun canvas_edit :: "dimension_id \<Rightarrow> 'j canvas_op \<Rightarrow> 'j canvas \<Rightarrow> 'j canvas option" where
  "canvas_edit d (CvAdd fresh t name pos params) m =
     (if missing_parameter t (extend_params (template_defaults t) params) = None
      then Some (om_insert fresh \<lparr>cn_id = fresh, cn_dimension_id = d, cn_template_id = nt_id t, cn_name = name,
             cn_parameters = extend_params (template_defaults t) params, cn_position = pos\<rparr> m)
      else None)"
| "canvas_edit d (CvRemove n) m = (if om_contains m n then Some (om_remove n m) else None)"
| "canvas_edit d (CvUpdate n updates) m =
     map_option (\<lambda>node. om_insert n (node\<lparr>cn_parameters := extend_params (cn_parameters node) updates\<rparr>) m) (om_get m n)"
| "canvas_edit d (CvMove n pos) m =
     map_option (\<lambda>node. om_insert n (node\<lparr>cn_position := pos\<rparr>) m) (om_get m n)"
| "canvas_edit d CvUndo m = None"
| "canvas_edit d CvRedo m = None"

fun timeline_step :: "dimension_id \<Rightarrow> 'j canvas_op \<Rightarrow> 'j canvas timeline \<Rightarrow> 'j canvas timeline" where
  "timeline_step d CvUndo (p # past, m, future) = (past, p, m # future)"
| "timeline_step d CvUndo ([], m, future) = ([], m, future)"
| "timeline_step d CvRedo (past, m, f # future) = (m # past, f, future)"
| "timeline_step d CvRedo (past, m, []) = (past, m, [])"
| "timeline_step d op (past, m, future) =
     (case canvas_edit d op m of None \<Rightarrow> (past, m, future) | Some m' \<Rightarrow> (m # past, m', []))"

definition timeline :: "'j node_graph \<Rightarrow> 'j canvas timeline" where
  "timeline g = (replay execute_command (ng_undo g) (ng_nodes g), ng_nodes g,
     replay execute_command (ng_redo g) (ng_nodes g))"

definition canvas_ok :: "'j node_graph \<Rightarrow> bool" where
  "canvas_ok g = (om_ok (ng_nodes g) \<and> identified cn_id (ng_nodes g)
     \<and> valid_stack command_valid execute_command (ng_undo g) (ng_nodes g)
     \<and> valid_stack command_valid execute_command (ng_redo g) (ng_nodes g))"

text \<open>Identifiers are fresh: a new node does not take the place of one on the canvas.\<close>

definition fresh_add :: "env \<times> 'j canvas_op \<Rightarrow> 'j node_graph \<Rightarrow> bool" where
  "fresh_add k g = (case snd k of CvAdd fresh t name pos params \<Rightarrow> om_get (ng_nodes g) fresh = None | _ \<Rightarrow> True)"

lemma execute_identified:
  "command_valid c m \<Longrightarrow> identified cn_id m \<Longrightarrow> identified cn_id (execute_command c m)"
  by (cases c) (auto simp: identified_def om_get_insert om_get_remove split: option.splits)

lemma execute_ok: "command_valid c m \<Longrightarrow> om_ok (execute_command c m)"
  by (cases c) (auto simp: om_insert_ok om_remove_ok split: option.splits)

lemma log_node_views [simp]:
  "ng_nodes (log_node e ev p g) = ng_nodes g" "ng_undo (log_node e ev p g) = ng_undo g"
  "ng_redo (log_node e ev p g) = ng_redo g" "ng_dimension_id (log_node e ev p g) = ng_dimension_id g"
  by (simp_all add: log_node_def)

lemma apply_command_views [simp]:
  "ng_nodes (apply_command c g) = execute_command c (ng_nodes g)"
  "ng_undo (apply_command c g) = command_inverse c # ng_undo g" "ng_redo (apply_command c g) = []"
  "ng_dimension_id (apply_command c g) = ng_dimension_id g"
  by (simp_all add: apply_command_def)

lemma canvas_ok_cong:
  "ng_nodes g' = ng_nodes g \<Longrightarrow> ng_undo g' = ng_undo g \<Longrightarrow> ng_redo g' = ng_redo g \<Longrightarrow>
     canvas_ok g' = canvas_ok g \<and> timeline g' = timeline g"
  by (simp add: canvas_ok_def timeline_def)

text \<open>A valid command applied: the present becomes the past, the future is dropped.\<close>

lemma apply_valid_command:
  assumes ok: "canvas_ok g" and valid: "command_valid c (ng_nodes g)"
    and g': "ng_nodes g' = execute_command c (ng_nodes g)" "ng_undo g' = command_inverse c # ng_undo g" "ng_redo g' = []"
  shows "canvas_ok g' \<and> timeline g' = (ng_nodes g # fst (timeline g), execute_command c (ng_nodes g), [])"
  using assms canvas_undo.valid_stack_inverse [OF valid, of "ng_undo g"]
  by (simp add: canvas_ok_def timeline_def execute_inverse execute_ok execute_identified del: valid_stack.simps)
    simp

lemma undo_valid_command:
  assumes ok: "canvas_ok g" and undo: "ng_undo g = c # cs"
    and g': "ng_nodes g' = execute_command c (ng_nodes g)" "ng_undo g' = cs"
      "ng_redo g' = command_inverse c # ng_redo g"
  shows "canvas_ok g' \<and> timeline g' = (tl (fst (timeline g)), hd (fst (timeline g)), ng_nodes g # snd (snd (timeline g)))"
proof -
  have valid: "command_valid c (ng_nodes g)" using ok by (simp add: canvas_ok_def undo)
  show ?thesis
    using assms canvas_undo.valid_stack_inverse [OF valid, of "ng_redo g"]
    by (simp add: canvas_ok_def timeline_def execute_inverse execute_ok execute_identified valid)
qed

lemma redo_valid_command:
  assumes ok: "canvas_ok g" and redo: "ng_redo g = c # cs"
    and g': "ng_nodes g' = execute_command c (ng_nodes g)" "ng_redo g' = cs"
      "ng_undo g' = command_inverse c # ng_undo g"
  shows "canvas_ok g' \<and> timeline g' = (ng_nodes g # fst (timeline g), hd (snd (snd (timeline g))), tl (snd (snd (timeline g))))"
proof -
  have valid: "command_valid c (ng_nodes g)" using ok by (simp add: canvas_ok_def redo)
  show ?thesis
    using assms canvas_undo.valid_stack_inverse [OF valid, of "ng_undo g"]
    by (simp add: canvas_ok_def timeline_def execute_inverse execute_ok execute_identified valid)
qed

lemma canvas_step_refines:
  assumes ok: "canvas_ok g" and fresh: "fresh_add k g"
  shows "canvas_ok (canvas_step k g)
    \<and> timeline (canvas_step k g) = timeline_step (ng_dimension_id g) (snd k) (timeline g)
    \<and> ng_dimension_id (canvas_step k g) = ng_dimension_id g"
proof -
  obtain e op where k: "k = (e, op)" by (cases k)
  have om: "om_ok (ng_nodes g)" and ids: "\<And>n node. om_get (ng_nodes g) n = Some node \<Longrightarrow> cn_id node = n"
    using ok by (simp_all add: canvas_ok_def identified_def)
  have tl: "timeline g = (fst (timeline g), ng_nodes g, snd (snd (timeline g)))" by (simp add: timeline_def)
  note step = k canvas_step_def Let_def
  show ?thesis
  proof (cases op)
    case (CvAdd fresh t name pos params)
    show ?thesis
    proof (cases "missing_parameter t (extend_params (template_defaults t) params)")
      case None
      let ?node = "\<lparr>cn_id = fresh, cn_dimension_id = ng_dimension_id g, cn_template_id = nt_id t, cn_name = name,
        cn_parameters = extend_params (template_defaults t) params, cn_position = pos\<rparr>"
      have "command_valid (CmdAdd ?node) (ng_nodes g)" using om fresh CvAdd by (simp add: k fresh_add_def)
      from apply_valid_command [OF ok this, of "canvas_step k g"] None show ?thesis
        by (subst tl) (simp add: step CvAdd canvas_add_def)
    next
      case (Some param)
      then show ?thesis using ok by (subst tl) (simp add: step CvAdd canvas_add_def timeline_def)
    qed
  next
    case (CvRemove n)
    show ?thesis
    proof (cases "om_get (ng_nodes g) n")
      case None
      then show ?thesis using ok by (subst tl) (simp add: step CvRemove canvas_remove_def timeline_def om_contains_def)
    next
      case (Some node)
      then have "command_valid (CmdRemove node) (ng_nodes g)" using om ids by simp
      from apply_valid_command [OF ok this, of "canvas_step k g"] Some ids [OF Some] show ?thesis
        by (subst tl) (simp add: step CvRemove canvas_remove_def om_contains_def)
    qed
  next
    case (CvUpdate n updates)
    show ?thesis
    proof (cases "om_get (ng_nodes g) n")
      case None
      then show ?thesis using ok by (subst tl) (simp add: step CvUpdate canvas_update_def timeline_def)
    next
      case (Some node)
      then have "command_valid (CmdUpdate n (cn_parameters node) (extend_params (cn_parameters node) updates)) (ng_nodes g)"
        using om by simp
      from apply_valid_command [OF ok this, of "canvas_step k g"] Some show ?thesis
        by (subst tl) (simp add: step CvUpdate canvas_update_def)
    qed
  next
    case (CvMove n pos)
    show ?thesis
    proof (cases "om_get (ng_nodes g) n")
      case None
      then show ?thesis using ok by (subst tl) (simp add: step CvMove canvas_move_def timeline_def)
    next
      case (Some node)
      then have "command_valid (CmdMove n (cn_position node) pos) (ng_nodes g)" using om by simp
      from apply_valid_command [OF ok this, of "canvas_step k g"] Some show ?thesis
        by (subst tl) (simp add: step CvMove canvas_move_def)
    qed
  next
    case CvUndo
    show ?thesis
    proof (cases "ng_undo g")
      case Nil
      then show ?thesis using ok by (simp add: step CvUndo canvas_undo_def timeline_def)
    next
      case (Cons c cs)
      from undo_valid_command [OF ok Cons, of "canvas_step k g"] show ?thesis
        by (simp add: step CvUndo canvas_undo_def Cons timeline_def)
    qed
  next
    case CvRedo
    show ?thesis
    proof (cases "ng_redo g")
      case Nil
      then show ?thesis using ok by (simp add: step CvRedo canvas_redo_def timeline_def)
    next
      case (Cons c cs)
      from redo_valid_command [OF ok Cons, of "canvas_step k g"] show ?thesis
        by (simp add: step CvRedo canvas_redo_def Cons timeline_def)
    qed
  qed
qed

section \<open>Runs\<close>

interpretation canvas_run: invariant_system fresh_add canvas_step canvas_ok
  by unfold_locales (simp add: canvas_step_refines)

lemma canvas_ok_new: "canvas_ok (new_node_graph d t l)"
  by (simp add: canvas_ok_def new_node_graph_def identified_def)

lemma canvas_run_refines:
  "canvas_ok g \<Longrightarrow> admissible fresh_add canvas_step ks g \<Longrightarrow>
     timeline (fold canvas_step ks g) = fold (\<lambda>k. timeline_step (ng_dimension_id g) (snd k)) ks (timeline g)
     \<and> ng_dimension_id (fold canvas_step ks g) = ng_dimension_id g"
proof (induction ks arbitrary: g)
  case Nil
  then show ?case by simp
next
  case (Cons k ks)
  then have step: "canvas_ok (canvas_step k g)"
    "timeline (canvas_step k g) = timeline_step (ng_dimension_id g) (snd k) (timeline g)"
    "ng_dimension_id (canvas_step k g) = ng_dimension_id g"
    using canvas_step_refines [of g k] by simp_all
  with Cons.IH [of "canvas_step k g"] Cons.prems(2) show ?case by simp
qed

text \<open>The oldest state of a timeline never changes.\<close>

lemma timeline_oldest:
  "last (fst (snd (timeline_step d op (past, m, future))) # fst (timeline_step d op (past, m, future))) = last (m # past)"
  by (cases "(d, op, (past, m, future))" rule: timeline_step.cases) (simp_all split: option.split)

lemma timeline_run_oldest:
  "last (fst (snd (fold (\<lambda>k. timeline_step d (snd k)) ks line)) # fst (fold (\<lambda>k. timeline_step d (snd k)) ks line)) =
     last (fst (snd line) # fst line)"
proof (induction ks arbitrary: line)
  case (Cons k ks)
  then show ?case using timeline_oldest [of d "snd k" "fst line" "fst (snd line)" "snd (snd line)"] by simp
qed simp

lemma timeline_undo_all:
  "(timeline_step d CvUndo ^^ List.length past) (past, m, future) =
     ([], last (m # past), rev (butlast (m # past)) @ future)"
proof (induction past arbitrary: m future)
  case (Cons p past)
  have "(timeline_step d CvUndo ^^ List.length (p # past)) (p # past, m, future) =
      (timeline_step d CvUndo ^^ List.length past) (past, p, m # future)"
    by (simp add: funpow_swap1)
  with Cons.IH [of p "m # future"] show ?case by simp
qed simp

lemma timeline_redo_undo:
  "n \<le> List.length (fst line) \<Longrightarrow> (timeline_step d CvRedo ^^ n) ((timeline_step d CvUndo ^^ n) line) = line"
proof (induction n arbitrary: line)
  case (Suc n)
  obtain p past m future where line: "line = (p # past, m, future)"
    using Suc.prems by (cases line; cases "fst line") auto
  have "(timeline_step d CvRedo ^^ Suc n) ((timeline_step d CvUndo ^^ Suc n) line) =
      timeline_step d CvRedo ((timeline_step d CvRedo ^^ n) ((timeline_step d CvUndo ^^ n) (timeline_step d CvUndo line)))"
    by (simp add: funpow_swap1)
  also have "\<dots> = timeline_step d CvRedo (timeline_step d CvUndo line)"
    using Suc.prems by (subst Suc.IH) (simp_all add: line)
  finally show ?case by (simp add: line)
qed simp

lemma undo_steps_refine:
  assumes "canvas_ok g" "op = CvUndo \<or> op = CvRedo"
  shows "canvas_ok ((canvas_step (e, op) ^^ n) g)
    \<and> timeline ((canvas_step (e, op) ^^ n) g) = (timeline_step (ng_dimension_id g) op ^^ n) (timeline g)
    \<and> ng_dimension_id ((canvas_step (e, op) ^^ n) g) = ng_dimension_id g"
proof (induction n)
  case (Suc n)
  have "fresh_add (e, op) ((canvas_step (e, op) ^^ n) g)" using assms(2) by (auto simp: fresh_add_def)
  with Suc canvas_step_refines [of "(canvas_step (e, op) ^^ n) g" "(e, op)"] show ?case by simp
qed (simp add: assms)

lemma length_replay: "List.length (replay exec cs m) = List.length cs"
  by (induction cs arbitrary: m) simp_all

lemma undo_depth_timeline: "undo_depth g = List.length (fst (timeline g))"
  by (simp add: undo_depth_def timeline_def length_replay)

text \<open>C7: With fresh node identifiers the graph with its command stacks behaves as a timeline of
  canvas states: every accepted edit starts a new future, \<open>undo\<close> and \<open>redo\<close> step back and forth along
  it, refused calls do nothing; undoing everything gives the empty canvas and redoing as much gives
  back the canvas as it was.\<close>

theorem undo_redo_timeline:
  assumes "admissible fresh_add canvas_step ks (new_node_graph d t l)"
  shows "let g = fold canvas_step ks (new_node_graph d t l);
      undone = (canvas_step (e, CvUndo) ^^ undo_depth g) g
    in timeline g = fold (\<lambda>k. timeline_step d (snd k)) ks ([], om_empty, [])
       \<and> ng_nodes undone = om_empty
       \<and> timeline ((canvas_step (e, CvRedo) ^^ undo_depth g) undone) = timeline g"
proof -
  define g where "g = fold canvas_step ks (new_node_graph d t l)"
  have new: "timeline (new_node_graph d t l) = ([], om_empty, [])" "ng_dimension_id (new_node_graph d t l) = d"
    by (simp_all add: timeline_def new_node_graph_def)
  note run = canvas_run_refines [OF canvas_ok_new assms, folded g_def, unfolded new]
  have ok: "canvas_ok g" unfolding g_def by (rule canvas_run.run_inv [OF canvas_ok_new assms])
  define undone where "undone = (canvas_step (e, CvUndo) ^^ undo_depth g) g"
  note steps = undo_steps_refine [OF ok, of CvUndo "undo_depth g" e, folded undone_def]
  have "timeline undone = (timeline_step d CvUndo ^^ undo_depth g) (timeline g)" using steps run by simp
  moreover have "last (fst (snd (timeline g)) # fst (timeline g)) = om_empty"
    using timeline_run_oldest [where d = d and ks = ks and line = "([], om_empty, [])"] run by simp
  ultimately have "fst (snd (timeline undone)) = om_empty"
    using timeline_undo_all [where d = d and past = "fst (timeline g)" and m = "fst (snd (timeline g))"
        and future = "snd (snd (timeline g))"]
    by (simp add: undo_depth_timeline)
  then have "ng_nodes undone = om_empty" by (simp add: timeline_def)
  moreover have "timeline ((canvas_step (e, CvRedo) ^^ undo_depth g) undone) = timeline g"
    using undo_steps_refine [of undone CvRedo "undo_depth g" e] steps run
      timeline_redo_undo [where d = d and n = "undo_depth g" and line = "timeline g"] by (simp add: undo_depth_timeline)
  ultimately show ?thesis using run unfolding g_def undone_def by (simp add: Let_def)
qed

definition canvas_env :: env where
  "canvas_env = \<lparr>env_now = 3, env_event_id = 8\<rparr>"

definition plain_template :: "nat node_template" where
  "plain_template = new_node_template 4 0 ''plain'' ''no parameters''"

theorem undo_redo_timeline_witness:
  "ng_nodes ((canvas_step (canvas_env, CvUndo) ^^ 2) (fold canvas_step
     [(canvas_env, CvAdd 1 plain_template ''a'' (0, 0) []), (canvas_env, CvMove 1 (1, 1))]
     (new_node_graph 5 6 new_log))) = om_empty"
proof -
  let ?ks = "[(canvas_env, CvAdd 1 plain_template ''a'' (0, 0) []), (canvas_env, CvMove 1 (1, 1))]"
  have "admissible fresh_add canvas_step ?ks (new_node_graph 5 6 new_log)"
    by (simp add: fresh_add_def new_node_graph_def)
  from undo_redo_timeline [OF this, of canvas_env]
  have "ng_nodes ((canvas_step (canvas_env, CvUndo) ^^ undo_depth (fold canvas_step ?ks (new_node_graph 5 6 new_log)))
      (fold canvas_step ?ks (new_node_graph 5 6 new_log))) = om_empty"
    by (simp add: Let_def)
  moreover have "undo_depth (fold canvas_step ?ks (new_node_graph 5 6 new_log)) = 2"
    by (simp add: undo_depth_def canvas_step_def Let_def canvas_add_def canvas_move_def new_node_graph_def
        missing_parameter_def plain_template_def new_node_template_def log_node_def apply_command_def)
  ultimately show ?thesis by simp
qed

section \<open>Parameters\<close>

text \<open>The default a template declares for a name: that of the last declaration which has one.\<close>

definition declared_default :: "'j node_template \<Rightarrow> string \<Rightarrow> 'j option" where
  "declared_default t x =
     (case find (\<lambda>p. np_name p = x \<and> np_default p \<noteq> None) (rev (nt_parameters t)) of
        None \<Rightarrow> None | Some p \<Rightarrow> np_default p)"

lemma defaults_of_list:
  "om_ok (fold (\<lambda>p m. case np_default p of None \<Rightarrow> m | Some v \<Rightarrow> om_insert (np_name p) v m) ps om_empty)
   \<and> om_get (fold (\<lambda>p m. case np_default p of None \<Rightarrow> m | Some v \<Rightarrow> om_insert (np_name p) v m) ps om_empty) x =
     (case find (\<lambda>p. np_name p = x \<and> np_default p \<noteq> None) (rev ps) of None \<Rightarrow> None | Some p \<Rightarrow> np_default p)"
  by (induction ps rule: rev_induct) (auto simp: om_insert_ok om_get_insert split: option.split)

lemma template_defaults_get:
  "om_ok (template_defaults t)" "om_get (template_defaults t) x = declared_default t x"
  using defaults_of_list [of "nt_parameters t" x] by (simp_all add: template_defaults_def declared_default_def)

lemma extend_params_get:
  assumes "om_ok m" "om_ok updates"
  shows "om_ok (extend_params m updates)" "om_get (extend_params m updates) = om_get m ++ om_get updates"
proof -
  have "distinct (map fst updates)" using assms(2) by (rule om_ok_distinct)
  then have "map_of (rev updates) = map_of updates"
    by (intro ext) (metis distinct_rev map_of_eq_Some_iff not_None_eq rev_map set_rev)
  then show "om_ok (extend_params m updates)" "om_get (extend_params m updates) = om_get m ++ om_get updates"
    using om.fold_put [OF assms(1), of updates] by (simp_all add: extend_params_def)
qed

lemma missing_parameter_cases:
  "case missing_parameter t m of
     None \<Rightarrow> list_all (\<lambda>p. om_get m (np_name p) \<noteq> None) (filter np_required (nt_parameters t))
   | Some x \<Rightarrow> om_get m x = None \<and> x \<in> np_name ` set (filter np_required (nt_parameters t))"
proof (cases "find (\<lambda>p. np_required p \<and> \<not> om_contains m (np_name p)) (nt_parameters t)")
  case None
  then have "missing_parameter t m = None" by (simp add: missing_parameter_def)
  with None show ?thesis by (auto simp: find_None_iff list_all_iff om_contains_def)
next
  case (Some p)
  then have "p \<in> set (nt_parameters t)" "np_required p" "\<not> om_contains m (np_name p)"
    by (auto simp: find_Some_iff)
  moreover have "missing_parameter t m = Some (np_name p)" using Some by (simp add: missing_parameter_def)
  ultimately show ?thesis by (auto simp: om_contains_def)
qed

lemma canvas_run_om_ok: "om_ok (ng_nodes g) \<Longrightarrow> om_ok (ng_nodes (fold canvas_step ks g))"
proof (induction ks arbitrary: g)
  case Nil
  then show ?case by simp
next
  case (Cons k ks)
  have exec: "om_ok (execute_command c m)" if "om_ok m" for c and m :: "'a canvas"
    using that by (cases c) (auto simp: om_insert_ok om_remove_ok split: option.split)
  have "om_ok (ng_nodes (canvas_step k g))"
    using Cons.prems by (cases "snd k")
      (auto simp: canvas_step_def Let_def canvas_add_def canvas_remove_def canvas_update_def canvas_move_def
        canvas_undo_def canvas_redo_def exec simp del: execute_command.simps split: option.split list.split)
  then show ?case using Cons.IH by simp
qed

text \<open>Adding a node either changes nothing and names a required parameter that neither the caller
  nor the template supplies, or puts the node on the canvas with the template's defaults overridden by
  the caller's values, and then a customizer that knows the template finds its parameters valid.\<close>

theorem added_node_configured:
  "let g = fold canvas_step ks (new_node_graph d tk l) in
   if om_ok params
   then (case canvas_add e fresh t name pos params g of
       (Inl err, g') \<Rightarrow> g' = g \<and> (\<exists>x. err = MissingRequiredParameter 0 x
          \<and> x \<in> np_name ` set (filter np_required (nt_parameters t))
          \<and> om_get params x = None \<and> declared_default t x = None)
     | (Inr k, g') \<Rightarrow> k = fresh \<and> (\<exists>node. canvas_get g' fresh = Some node
          \<and> om_get (cn_parameters node) = (\<lambda>x. case om_get params x of
               None \<Rightarrow> declared_default t x | Some v \<Rightarrow> Some v)
          \<and> cn_template_id node = nt_id t \<and> cn_position node = pos \<and> cn_name node = name
          \<and> validate_params (register_node_template t c) node = Inr ()))
   else True"
proof -
  define g where "g = fold canvas_step ks (new_node_graph d tk l)"
  have om: "om_ok (ng_nodes g)" unfolding g_def by (rule canvas_run_om_ok) (simp add: new_node_graph_def)
  define final where "final = extend_params (template_defaults t) params"
  have get: "om_get final = (\<lambda>x. case om_get params x of None \<Rightarrow> declared_default t x | Some v \<Rightarrow> Some v)"
    if "om_ok params"
    unfolding final_def extend_params_get(2) [OF template_defaults_get(1) that]
    by (auto simp: fun_eq_iff map_add_def template_defaults_get(2) split: option.split)
  show ?thesis
  proof (cases "missing_parameter t final")
    case None
    then show ?thesis
      unfolding g_def [symmetric] Let_def
      by (simp add: canvas_add_def final_def [symmetric] canvas_get_def om_get_insert [OF om] get
          validate_params_def register_node_template_def)
  next
    case (Some x)
    have "om_get final x = None" "x \<in> np_name ` set (filter np_required (nt_parameters t))"
      using missing_parameter_cases [where t = t and m = final] Some by simp_all
    then show ?thesis
      unfolding g_def [symmetric] Let_def
      using Some by (auto simp: canvas_add_def final_def [symmetric] get split: option.splits)
  qed
qed

text \<open>\<open>customize\<close> writes the new values and its log entry before it validates: when it answers with
  a missing required parameter, the node has been changed and the change has been logged all the same.\<close>

theorem customize_changes_before_check:
  "let (r, (node', c')) = customize e t updates (node, c) in
     cn_parameters node' = extend_params (cn_parameters node) updates
     \<and> al_entries (cz_log c') = al_entries (cz_log c) @ [new_entry e NodeUpdated System
          (Some (cn_dimension_id node)) (Some t)
          [(''node_id'', PId (cn_id node)), (''changed_fields'', PTexts (om_keys updates))]]
     \<and> r = validate_params c node'
     \<and> (case r of
          Inr _ \<Rightarrow> (case cz_templates c (cn_template_id node) of None \<Rightarrow> True
            | Some tpl \<Rightarrow> list_all (\<lambda>p. om_get (cn_parameters node') (np_name p) \<noteq> None)
                (filter np_required (nt_parameters tpl)))
        | Inl err \<Rightarrow> (\<exists>tpl x. cz_templates c (cn_template_id node) = Some tpl
            \<and> err = MissingRequiredParameter (cn_id node) x \<and> om_get (cn_parameters node') x = None
            \<and> x \<in> np_name ` set (filter np_required (nt_parameters tpl))))"
proof (cases "cz_templates c (cn_template_id node)")
  case None
  then show ?thesis by (simp add: customize_def validate_params_def Let_def log_simps)
next
  case (Some tpl)
  let ?m = "extend_params (cn_parameters node) updates"
  show ?thesis
    using Some missing_parameter_cases [where t = tpl and m = ?m]
    by (cases "missing_parameter tpl ?m") (simp_all add: customize_def validate_params_def Let_def log_simps)
qed

end
