(* ===== verification/Float_Order.thy ===== *)
theory Float_Order
  imports Prelude
begin

text \<open>
  The comparisons of \<open>f64\<close> on bit patterns: sign, exponent and significand order the numbers as
  sign and magnitude, both zeros are equal, and a NaN compares with nothing.
\<close>

unbundle bit_operations_syntax

definition f64_magnitude :: "f64 \<Rightarrow> f64" where
  "f64_magnitude x = x AND 0x7FFFFFFFFFFFFFFF"

definition f64_is_nan :: "f64 \<Rightarrow> bool" where
  "f64_is_nan x = (0x7FF0000000000000 < f64_magnitude x)"

definition f64_rank :: "f64 \<Rightarrow> int" where
  "f64_rank x = (if bit x 63 then - int (unat (f64_magnitude x)) else int (unat (f64_magnitude x)))"

definition f64_le :: "f64 \<Rightarrow> f64 \<Rightarrow> bool" where
  "f64_le x y = (\<not> f64_is_nan x \<and> \<not> f64_is_nan y \<and> f64_rank x \<le> f64_rank y)"

definition f64_lt :: "f64 \<Rightarrow> f64 \<Rightarrow> bool" where
  "f64_lt x y = (\<not> f64_is_nan x \<and> \<not> f64_is_nan y \<and> f64_rank x < f64_rank y)"

text \<open>\<open>f64::max\<close> ignores a NaN; \<open>f64::abs\<close> clears the sign.\<close>

definition f64_max :: "f64 \<Rightarrow> f64 \<Rightarrow> f64" where
  "f64_max x y = (if f64_is_nan x then y else if f64_is_nan y then x else if f64_lt x y then y else x)"

abbreviation f64_abs :: "f64 \<Rightarrow> f64" where
  "f64_abs \<equiv> f64_magnitude"

lemma f64_le_trans: "f64_le x y \<Longrightarrow> f64_le y z \<Longrightarrow> f64_le x z"
  by (simp add: f64_le_def)

lemma f64_le_or_lt: "\<not> f64_is_nan x \<Longrightarrow> \<not> f64_is_nan y \<Longrightarrow> f64_le x y \<longleftrightarrow> \<not> f64_lt y x"
  by (auto simp: f64_le_def f64_lt_def)

lemma f64_nan_unordered: "f64_is_nan x \<or> f64_is_nan y \<Longrightarrow> \<not> f64_le x y \<and> \<not> f64_lt x y"
  by (auto simp: f64_le_def f64_lt_def)

text \<open>Zeros of both signs, one, and infinity.\<close>

lemma f64_samples:
  "f64_le 0x8000000000000000 0" "f64_le 0 0x8000000000000000" "f64_lt 0 0x3FF0000000000000"
  "f64_lt 0x3FF0000000000000 0x7FF0000000000000" "f64_is_nan 0x7FF8000000000000"
  by (simp_all add: f64_le_def f64_lt_def f64_is_nan_def f64_rank_def f64_magnitude_def)

end
