(* ===== verification/Flow_Control.thy ===== *)
theory Flow_Control
  imports Action_Log Ordered_Map Float_Order "HOL-Library.Char_ord" "HOL-Library.List_Lexorder"
begin

text \<open>
  Flow control (\<open>flow_control.rs\<close>): flow graphs of steps with conditional transitions, fallbacks
  and visit limits; the engine that advances a flow; quality gates; chat payloads.

  The model evaluator and the chat adapter are traits: their methods are arguments. Hash maps that
  the code iterates over are kept in key order, which stands for the order the code leaves open.
  The float arithmetic of the equality gate (subtraction and product) is an argument too. A visit
  counter wraps as a release build does; a debug build stops there.
\<close>

section \<open>Errors and context\<close>

datatype flow_control_error =
    StepNotFound uuid
  | TransitionTargetNotFound uuid uuid
  | MissingMetric string
  | ModelEvaluationFailed string string
  | MaxVisitsExceeded uuid u32
  | ChatAdapterFailed string
  | InstructionSourceMissing uuid uuid
  | NoMatchingTransition uuid

record 'j flow_context =
  fc_dimension_id :: dimension_id
  fc_task_id :: task_id
  fc_metrics :: "string \<rightharpoonup> f64"
  fc_features :: 'j

definition new_flow_context :: "'j \<Rightarrow> dimension_id \<Rightarrow> task_id \<Rightarrow> 'j flow_context" where
  "new_flow_context null d t =
     \<lparr>fc_dimension_id = d, fc_task_id = t, fc_metrics = Map.empty, fc_features = null\<rparr>"

section \<open>Canvas attachments\<close>

record 'j sandbox_profile =
  sb_name :: string
  sb_limits :: 'j
  sb_allowed_tools :: "string list"

record terminal_session =
  tm_session_id :: uuid
  tm_kind :: string

record 'j snippet_attachment =
  sn_snippet_id :: uuid
  sn_entrypoint :: string
  sn_sandbox :: "'j sandbox_profile"
  sn_terminal :: terminal_session

record 'j flow_visualization =
  fv_kind :: string
  fv_description :: string
  fv_spec :: 'j

datatype comparison_operator = AtLeast | AtMost | Equal

record quality_gate =
  qg_name :: string
  qg_metric :: string
  qg_threshold :: f64
  qg_operator :: comparison_operator

definition new_sandbox_profile :: "string \<Rightarrow> 'j \<Rightarrow> string list \<Rightarrow> 'j sandbox_profile" where
  "new_sandbox_profile name limits allowed_tools =
     \<lparr>sb_name = name, sb_limits = limits, sb_allowed_tools = allowed_tools\<rparr>"

definition new_terminal_session :: "uuid \<Rightarrow> string \<Rightarrow> terminal_session" where
  "new_terminal_session fresh kind = \<lparr>tm_session_id = fresh, tm_kind = kind\<rparr>"

definition new_snippet_attachment ::
  "uuid \<Rightarrow> string \<Rightarrow> 'j sandbox_profile \<Rightarrow> terminal_session \<Rightarrow> 'j snippet_attachment" where
  "new_snippet_attachment snippet_id entrypoint sandbox terminal =
     \<lparr>sn_snippet_id = snippet_id, sn_entrypoint = entrypoint, sn_sandbox = sandbox, sn_terminal = terminal\<rparr>"

definition new_flow_visualization :: "string \<Rightarrow> string \<Rightarrow> 'j \<Rightarrow> 'j flow_visualization" where
  "new_flow_visualization kind description spec =
     \<lparr>fv_kind = kind, fv_description = description, fv_spec = spec\<rparr>"

definition new_quality_gate :: "string \<Rightarrow> string \<Rightarrow> f64 \<Rightarrow> comparison_operator \<Rightarrow> quality_gate" where
  "new_quality_gate name metric threshold operator =
     \<lparr>qg_name = name, qg_metric = metric, qg_threshold = threshold, qg_operator = operator\<rparr>"

text \<open>\<open>1.0\<close> and \<open>1e-9\<close> as \<open>f64\<close>.\<close>

definition f64_one :: f64 where
  "f64_one = 0x3FF0000000000000"

definition EQUALITY_TOLERANCE :: f64 where
  "EQUALITY_TOLERANCE = 0x3E112E0BE826D695"

definition gate_evaluate ::
  "(f64 \<Rightarrow> f64 \<Rightarrow> f64) \<Rightarrow> (f64 \<Rightarrow> f64 \<Rightarrow> f64) \<Rightarrow> quality_gate \<Rightarrow> f64 \<Rightarrow> bool" where
  "gate_evaluate sub mul g v =
     (case qg_operator g of
        AtLeast \<Rightarrow> f64_le (qg_threshold g) v
      | AtMost \<Rightarrow> f64_le v (qg_threshold g)
      | Equal \<Rightarrow>
          let diff = f64_abs (sub v (qg_threshold g));
              scale = f64_max (f64_max (f64_abs v) (f64_abs (qg_threshold g))) f64_one
          in f64_le diff (mul scale EQUALITY_TOLERANCE))"

definition gate_with_context ::
  "(f64 \<Rightarrow> f64 \<Rightarrow> f64) \<Rightarrow> (f64 \<Rightarrow> f64 \<Rightarrow> f64) \<Rightarrow> quality_gate \<Rightarrow> 'j flow_context
     \<Rightarrow> flow_control_error + bool" where
  "gate_with_context sub mul g c =
     (case fc_metrics c (qg_metric g) of
        None \<Rightarrow> Inl (MissingMetric (qg_metric g))
      | Some v \<Rightarrow> Inr (gate_evaluate sub mul g v))"

record 'j canvas_attachment =
  ca_snippet :: "'j snippet_attachment option"
  ca_visualizations :: "'j flow_visualization list"
  ca_quality_gates :: "quality_gate list"

definition attach_snippet :: "'j snippet_attachment \<Rightarrow> 'j canvas_attachment" where
  "attach_snippet s = \<lparr>ca_snippet = Some s, ca_visualizations = [], ca_quality_gates = []\<rparr>"

definition add_visualization :: "'j flow_visualization \<Rightarrow> 'j canvas_attachment \<Rightarrow> 'j canvas_attachment" where
  "add_visualization v a = a\<lparr>ca_visualizations := ca_visualizations a @ [v]\<rparr>"

definition add_quality_gate :: "quality_gate \<Rightarrow> 'j canvas_attachment \<Rightarrow> 'j canvas_attachment" where
  "add_quality_gate g a = a\<lparr>ca_quality_gates := ca_quality_gates a @ [g]\<rparr>"

section \<open>Flow graphs\<close>

datatype flow_terminal_status = FlowCompleted | FlowFailed | FlowCancelled

primrec status_text :: "flow_terminal_status \<Rightarrow> string" where
  "status_text FlowCompleted = ''Completed''"
| "status_text FlowFailed = ''Failed''"
| "status_text FlowCancelled = ''Cancelled''"

datatype flow_step_kind = StepTask uuid | StepDecision string | StepTerminal flow_terminal_status

datatype flow_condition =
    Always
  | MetricAtLeast string f64
  | MetricBelow string f64
  | ModelScoreAtLeast string f64

record flow_transition =
  ft_label :: string
  ft_condition :: flow_condition
  ft_target :: uuid

definition new_flow_transition :: "string \<Rightarrow> flow_condition \<Rightarrow> uuid \<Rightarrow> flow_transition" where
  "new_flow_transition label condition target =
     \<lparr>ft_label = label, ft_condition = condition, ft_target = target\<rparr>"

record 'j flow_step =
  fp_id :: uuid
  fp_name :: string
  fp_kind :: flow_step_kind
  fp_transitions :: "flow_transition list"
  fp_fallback :: "uuid option"
  fp_max_visits :: "u32 option"
  fp_canvas_attachment :: "'j canvas_attachment option"

definition new_flow_step :: "uuid \<Rightarrow> string \<Rightarrow> flow_step_kind \<Rightarrow> 'j flow_step" where
  "new_flow_step fresh name kind =
     \<lparr>fp_id = fresh, fp_name = name, fp_kind = kind, fp_transitions = [], fp_fallback = None,
      fp_max_visits = None, fp_canvas_attachment = None\<rparr>"

definition task_step :: "uuid \<Rightarrow> string \<Rightarrow> uuid \<Rightarrow> 'j flow_step" where
  "task_step fresh name node = new_flow_step fresh name (StepTask node)"

definition decision_step :: "uuid \<Rightarrow> string \<Rightarrow> string \<Rightarrow> 'j flow_step" where
  "decision_step fresh name description = new_flow_step fresh name (StepDecision description)"

definition terminal_step :: "uuid \<Rightarrow> string \<Rightarrow> flow_terminal_status \<Rightarrow> 'j flow_step" where
  "terminal_step fresh name status = new_flow_step fresh name (StepTerminal status)"

definition add_transition :: "flow_transition \<Rightarrow> 'j flow_step \<Rightarrow> 'j flow_step" where
  "add_transition t s = s\<lparr>fp_transitions := fp_transitions s @ [t]\<rparr>"

definition with_fallback :: "uuid \<Rightarrow> 'j flow_step \<Rightarrow> 'j flow_step" where
  "with_fallback k s = s\<lparr>fp_fallback := Some k\<rparr>"

definition with_max_visits :: "u32 \<Rightarrow> 'j flow_step \<Rightarrow> 'j flow_step" where
  "with_max_visits n s = s\<lparr>fp_max_visits := Some n\<rparr>"

definition with_canvas_attachment :: "'j canvas_attachment \<Rightarrow> 'j flow_step \<Rightarrow> 'j flow_step" where
  "with_canvas_attachment a s = s\<lparr>fp_canvas_attachment := Some a\<rparr>"

record 'j flow_program =
  fw_id :: uuid
  fw_name :: string
  fw_entrypoint :: uuid
  fw_steps :: "(uuid, 'j flow_step) om"

definition new_flow_program :: "uuid \<Rightarrow> string \<Rightarrow> 'j flow_step \<Rightarrow> 'j flow_program" where
  "new_flow_program fresh name entry =
     \<lparr>fw_id = fresh, fw_name = name, fw_entrypoint = fp_id entry,
      fw_steps = om_insert (fp_id entry) entry om_empty\<rparr>"

definition insert_step :: "'j flow_step \<Rightarrow> 'j flow_program \<Rightarrow> 'j flow_program" where
  "insert_step s f = f\<lparr>fw_steps := om_insert (fp_id s) s (fw_steps f)\<rparr>"

definition step_of :: "'j flow_program \<Rightarrow> uuid \<Rightarrow> 'j flow_step option" where
  "step_of f k = om_get (fw_steps f) k"

text \<open>The targets in the order \<open>validate\<close> checks them: the transitions, then the fallback.\<close>

definition step_targets :: "'j flow_step \<Rightarrow> uuid list" where
  "step_targets s =
     map ft_target (fp_transitions s) @ (case fp_fallback s of None \<Rightarrow> [] | Some k \<Rightarrow> [k])"

definition missing_target :: "'j flow_program \<Rightarrow> 'j flow_step \<Rightarrow> uuid option" where
  "missing_target f s = find (\<lambda>k. \<not> om_contains (fw_steps f) k) (step_targets s)"

fun first_missing_target :: "'j flow_program \<Rightarrow> (uuid, 'j flow_step) om \<Rightarrow> flow_control_error + unit" where
  "first_missing_target f [] = Inr ()"
| "first_missing_target f ((k, s) # rest) =
     (case missing_target f s of
        Some target \<Rightarrow> Inl (TransitionTargetNotFound k target)
      | None \<Rightarrow> first_missing_target f rest)"

definition validate_flow :: "'j flow_program \<Rightarrow> flow_control_error + unit" where
  "validate_flow f = first_missing_target f (fw_steps f)"

section \<open>Engine\<close>

type_synonym flow_state = "uuid \<rightharpoonup> u32"

definition new_flow_state :: flow_state where
  "new_flow_state = Map.empty"

definition visits :: "flow_state \<Rightarrow> uuid \<Rightarrow> u32" where
  "visits st k = (case st k of None \<Rightarrow> 0 | Some n \<Rightarrow> n)"

definition record_visit :: "uuid \<Rightarrow> flow_state \<Rightarrow> u32 \<times> flow_state" where
  "record_visit k st = (let n = visits st k + 1 in (n, st(k \<mapsto> n)))"

datatype flow_advance = Next uuid | Ended flow_terminal_status

type_synonym 'j scorer = "string \<Rightarrow> 'j \<Rightarrow> flow_control_error + f64"

definition evaluate_condition ::
  "'j scorer \<Rightarrow> 'j flow_context \<Rightarrow> flow_condition \<Rightarrow> flow_control_error + (bool \<times> 'j payload)" where
  "evaluate_condition score c condition =
     (case condition of
        Always \<Rightarrow> Inr (True, [(''kind'', PText ''always'')])
      | MetricAtLeast metric threshold \<Rightarrow>
          (case fc_metrics c metric of
             None \<Rightarrow> Inl (MissingMetric metric)
           | Some v \<Rightarrow> Inr (f64_le threshold v,
               [(''kind'', PText ''metric_at_least''), (''metric'', PText metric), (''value'', PFloat v),
                (''threshold'', PFloat threshold)]))
      | MetricBelow metric threshold \<Rightarrow>
          (case fc_metrics c metric of
             None \<Rightarrow> Inl (MissingMetric metric)
           | Some v \<Rightarrow> Inr (f64_lt v threshold,
               [(''kind'', PText ''metric_below''), (''metric'', PText metric), (''value'', PFloat v),
                (''threshold'', PFloat threshold)]))
      | ModelScoreAtLeast model threshold \<Rightarrow>
          (case score model (fc_features c) of
             Inl err \<Rightarrow> Inl err
           | Inr v \<Rightarrow> Inr (f64_le threshold v,
               [(''kind'', PText ''model_score_at_least''), (''model'', PText model), (''score'', PFloat v),
                (''threshold'', PFloat threshold)])))"

text \<open>The loop over the transitions: the first that matches, or the first error.\<close>

fun match_transition ::
  "'j scorer \<Rightarrow> 'j flow_context \<Rightarrow> flow_transition list
     \<Rightarrow> flow_control_error + (uuid \<times> string \<times> 'j payload) option" where
  "match_transition score c [] = Inr None"
| "match_transition score c (t # ts) =
     (case evaluate_condition score c (ft_condition t) of
        Inl err \<Rightarrow> Inl err
      | Inr (True, signal) \<Rightarrow> Inr (Some (ft_target t, ft_label t, signal))
      | Inr (False, signal) \<Rightarrow> match_transition score c ts)"

definition log_evaluated ::
  "env \<Rightarrow> 'j flow_context \<Rightarrow> uuid \<Rightarrow> string \<Rightarrow> bool \<Rightarrow> 'j payload \<Rightarrow> uuid option
     \<Rightarrow> 'j action_log \<Rightarrow> 'j action_log" where
  "log_evaluated e c k decision matched signal target =
     log_system e FlowEvaluated (fc_dimension_id c) (fc_task_id c)
       [(''step_id'', PId k), (''decision'', PText decision), (''matched'', PBool matched),
        (''signal'', PObject signal),
        (''target_step'', (case target of None \<Rightarrow> PNull | Some t \<Rightarrow> PId t))]"

definition log_advanced ::
  "env \<Rightarrow> 'j flow_context \<Rightarrow> uuid \<Rightarrow> uuid \<Rightarrow> 'j action_log \<Rightarrow> 'j action_log" where
  "log_advanced e c src to =
     log_system e FlowAdvanced (fc_dimension_id c) (fc_task_id c) [(''from'', PId src), (''to'', PId to)]"

definition ensure_step :: "'j flow_program \<Rightarrow> uuid \<Rightarrow> uuid \<Rightarrow> flow_control_error + unit" where
  "ensure_step f src target =
     (if step_of f target = None then Inl (TransitionTargetNotFound src target) else Inr ())"

text \<open>The end of both ways to go on: the check of the target, the two log entries, the answer.\<close>

definition move_to ::
  "env \<times> env \<Rightarrow> 'j flow_program \<Rightarrow> 'j flow_context \<Rightarrow> uuid \<Rightarrow> uuid \<Rightarrow> string \<Rightarrow> bool \<Rightarrow> 'j payload
     \<Rightarrow> flow_state \<times> 'j action_log \<Rightarrow> (flow_control_error, flow_advance, flow_state \<times> 'j action_log) outcome"
where
  "move_to es f c k target decision matched signal = (\<lambda>(st, l).
     case ensure_step f k target of
       Inl err \<Rightarrow> (Inl err, (st, l))
     | Inr _ \<Rightarrow>
         (Inr (Next target),
          (st, log_advanced (snd es) c k target
                 (log_evaluated (fst es) c k decision matched signal (Some target) l))))"

definition exceeded_limit :: "'j flow_step \<Rightarrow> u32 \<Rightarrow> u32 option" where
  "exceeded_limit s count =
     (case fp_max_visits s of None \<Rightarrow> None | Some limit \<Rightarrow> if limit < count then Some limit else None)"

definition advance ::
  "'j scorer \<Rightarrow> env \<times> env \<Rightarrow> 'j flow_program \<Rightarrow> uuid \<Rightarrow> 'j flow_context \<Rightarrow> flow_state \<times> 'j action_log
     \<Rightarrow> (flow_control_error, flow_advance, flow_state \<times> 'j action_log) outcome" where
  "advance score es f k c = (\<lambda>(st, l).
     case step_of f k of
       None \<Rightarrow> (Inl (StepNotFound k), (st, l))
     | Some s \<Rightarrow>
         let (count, st1) = record_visit k st in
         (case exceeded_limit s count of
            Some limit \<Rightarrow>
              (case fp_fallback s of
                 None \<Rightarrow> (Inl (MaxVisitsExceeded k limit), (st1, l))
               | Some fallback \<Rightarrow>
                   move_to es f c k fallback ''max_visits_exceeded'' False
                     [(''limit'', PNum (ucast limit)), (''visits'', PNum (ucast count))] (st1, l))
          | None \<Rightarrow>
              (case fp_kind s of
                 StepTerminal status \<Rightarrow>
                   (Inr (Ended status),
                    (st1, log_evaluated (fst es) c k ''terminal'' True
                            [(''status'', PText (status_text status))] None l))
               | _ \<Rightarrow>
                   (case match_transition score c (fp_transitions s) of
                      Inl err \<Rightarrow> (Inl err, (st1, l))
                    | Inr (Some (target, label, signal)) \<Rightarrow>
                        move_to es f c k target label True signal (st1, l)
                    | Inr None \<Rightarrow>
                        (case fp_fallback s of
                           None \<Rightarrow> (Inl (NoMatchingTransition k), (st1, l))
                         | Some fallback \<Rightarrow>
                             move_to es f c k fallback ''fallback'' False
                               [(''reason'', PText ''no_transition_matched'')] (st1, l))))))"

section \<open>Chat payloads\<close>

record instruction_source =
  is_id :: uuid
  is_kind :: string
  is_uri :: "string option"
  is_summary :: string

record instruction_entry =
  ie_id :: uuid
  ie_content :: string
  ie_tags :: "string list"
  ie_source_id :: uuid

record instruction_dataset =
  id_id :: uuid
  id_name :: string
  id_version :: string
  id_instructions :: "instruction_entry list"
  id_sources :: "instruction_source list"

definition new_instruction_source :: "uuid \<Rightarrow> string \<Rightarrow> string option \<Rightarrow> string \<Rightarrow> instruction_source" where
  "new_instruction_source fresh kind uri summary =
     \<lparr>is_id = fresh, is_kind = kind, is_uri = uri, is_summary = summary\<rparr>"

definition new_instruction_entry :: "uuid \<Rightarrow> string \<Rightarrow> string list \<Rightarrow> uuid \<Rightarrow> instruction_entry" where
  "new_instruction_entry fresh content tags source_id =
     \<lparr>ie_id = fresh, ie_content = content, ie_tags = tags, ie_source_id = source_id\<rparr>"

definition new_instruction_dataset ::
  "uuid \<Rightarrow> string \<Rightarrow> string \<Rightarrow> instruction_source list \<Rightarrow> instruction_entry list \<Rightarrow> instruction_dataset" where
  "new_instruction_dataset fresh name version sources instructions =
     \<lparr>id_id = fresh, id_name = name, id_version = version, id_instructions = instructions,
      id_sources = sources\<rparr>"

definition dataset_source :: "instruction_dataset \<Rightarrow> uuid \<Rightarrow> instruction_source option" where
  "dataset_source ds k = find (\<lambda>s. is_id s = k) (id_sources ds)"

record chat_tool =
  ct_name :: string
  ct_capability :: string
  ct_description :: string

record chat_skill_module =
  cs_name :: string
  cs_version :: string
  cs_description :: string

record chat_request =
  cr_request_id :: uuid
  cr_message :: string
  cr_toolset :: "chat_tool list"
  cr_skill_modules :: "chat_skill_module list"
  cr_instruction_dataset :: instruction_dataset

definition new_chat_request ::
  "uuid \<Rightarrow> string \<Rightarrow> chat_tool list \<Rightarrow> chat_skill_module list \<Rightarrow> instruction_dataset \<Rightarrow> chat_request" where
  "new_chat_request fresh message toolset skill_modules instruction_dataset =
     \<lparr>cr_request_id = fresh, cr_message = message, cr_toolset = toolset,
      cr_skill_modules = skill_modules, cr_instruction_dataset = instruction_dataset\<rparr>"

record chat_instruction_selection =
  ci_tags :: "string list"
  ci_instruction_ids :: "uuid list"

definition selection_is_empty :: "chat_instruction_selection \<Rightarrow> bool" where
  "selection_is_empty s = (ci_tags s = [] \<and> ci_instruction_ids s = [])"

record 'j chat_adaptation =
  cd_intent :: string
  cd_parameters :: 'j

record 'j chat_payload =
  cp_request_id :: uuid
  cp_message :: string
  cp_intent :: string
  cp_parameters :: 'j
  cp_toolset :: "chat_tool list"
  cp_skill_modules :: "chat_skill_module list"
  cp_instructions :: "instruction_entry list"
  cp_sources :: "instruction_source list"
  cp_dataset_id :: uuid
  cp_dataset_version :: string

definition filter_instructions ::
  "chat_request \<Rightarrow> chat_instruction_selection \<Rightarrow> instruction_entry list" where
  "filter_instructions rq sel =
     (if selection_is_empty sel then id_instructions (cr_instruction_dataset rq)
      else filter (\<lambda>i. ie_id i \<in> set (ci_instruction_ids sel) \<or> list_ex (\<lambda>tag. tag \<in> set (ci_tags sel)) (ie_tags i))
             (id_instructions (cr_instruction_dataset rq)))"

fun collect_sources ::
  "instruction_dataset \<Rightarrow> instruction_entry list \<Rightarrow> (uuid, instruction_source) om
     \<Rightarrow> flow_control_error + (uuid, instruction_source) om" where
  "collect_sources ds [] m = Inr m"
| "collect_sources ds (i # is) m =
     (case dataset_source ds (ie_source_id i) of
        None \<Rightarrow> Inl (InstructionSourceMissing (ie_id i) (ie_source_id i))
      | Some s \<Rightarrow> collect_sources ds is (if om_contains m (is_id s) then m else om_insert (is_id s) s m))"

definition resolve_sources ::
  "instruction_dataset \<Rightarrow> instruction_entry list \<Rightarrow> flow_control_error + instruction_source list" where
  "resolve_sources ds is =
     (case collect_sources ds is om_empty of Inl err \<Rightarrow> Inl err | Inr m \<Rightarrow> Inr (om_values m))"

definition log_chat :: "env \<Rightarrow> event_type \<Rightarrow> 'j payload \<Rightarrow> 'j action_log \<Rightarrow> 'j action_log" where
  "log_chat e ev p = append_log (new_entry e ev System None None p)"

definition build_payload ::
  "(chat_request \<Rightarrow> instruction_entry list \<Rightarrow> flow_control_error + 'j chat_adaptation)
     \<Rightarrow> env \<times> env \<Rightarrow> chat_request \<Rightarrow> chat_instruction_selection \<Rightarrow> 'j action_log
     \<Rightarrow> (flow_control_error, 'j chat_payload, 'j action_log) outcome" where
  "build_payload adapt es rq sel l =
     (let ds = cr_instruction_dataset rq;
          l1 = log_chat (fst es) ChatRequestReceived
                 [(''request_id'', PId (cr_request_id rq)), (''message'', PText (cr_message rq)),
                  (''tool_count'', PNum (of_nat (List.length (cr_toolset rq)))),
                  (''skill_count'', PNum (of_nat (List.length (cr_skill_modules rq)))),
                  (''dataset_id'', PId (id_id ds))] l;
          instructions = filter_instructions rq sel
      in (case resolve_sources ds instructions of
            Inl err \<Rightarrow> (Inl err, l1)
          | Inr sources \<Rightarrow>
              (case adapt rq instructions of
                 Inl err \<Rightarrow> (Inl err, l1)
               | Inr ad \<Rightarrow>
                   (Inr \<lparr>cp_request_id = cr_request_id rq, cp_message = cr_message rq, cp_intent = cd_intent ad,
                      cp_parameters = cd_parameters ad, cp_toolset = cr_toolset rq,
                      cp_skill_modules = cr_skill_modules rq, cp_instructions = instructions,
                      cp_sources = sources, cp_dataset_id = id_id ds, cp_dataset_version = id_version ds\<rparr>,
                    log_chat (snd es) ChatPayloadGenerated
                      [(''request_id'', PId (cr_request_id rq)), (''intent'', PText (cd_intent ad)),
                       (''instruction_count'', PNum (of_nat (List.length instructions))),
                       (''source_count'', PNum (of_nat (List.length sources))),
                       (''tool_count'', PNum (of_nat (List.length (cr_toolset rq)))),
                       (''skill_count'', PNum (of_nat (List.length (cr_skill_modules rq))))] l1))))"

end
