(* ===== verification/Flow_Control_Claims.thy ===== *)
theory Flow_Control_Claims
  imports Flow_Control
begin

text \<open>
  What \<open>flow_control.rs\<close> guarantees: a validated flow never dangles; visit limits bound a flow when
  its fallbacks descend, and only then; a chat payload carries exactly the selected instructions and
  their sources.
\<close>

named_theorems flow_defs

declare advance_def [flow_defs] move_to_def [flow_defs] record_visit_def [flow_defs]
  exceeded_limit_def [flow_defs] ensure_step_def [flow_defs]

section \<open>Validated flows\<close>

lemma om_contains_step: "om_contains (fw_steps f) k \<longleftrightarrow> step_of f k \<noteq> None"
  by (simp add: om_contains_def step_of_def)

lemma missing_target_None:
  "missing_target f s = None \<longleftrightarrow> (\<forall>t \<in> set (step_targets s). step_of f t \<noteq> None)"
  by (auto simp: missing_target_def find_None_iff om_contains_step)

lemma missing_target_Some:
  "missing_target f s = Some t \<Longrightarrow> t \<in> set (step_targets s) \<and> step_of f t = None"
  by (auto simp: missing_target_def find_Some_iff om_contains_step)

lemma first_missing_target_Inr:
  "first_missing_target f m = Inr u \<longleftrightarrow> (\<forall>(k, s) \<in> set m. missing_target f s = None)"
  by (induction f m rule: first_missing_target.induct) (auto split: option.split)

lemma first_missing_target_Inl:
  "first_missing_target f m = Inl err \<Longrightarrow>
     \<exists>k s t. (k, s) \<in> set m \<and> missing_target f s = Some t \<and> err = TransitionTargetNotFound k t"
  by (induction f m rule: first_missing_target.induct) (auto split: option.splits)

lemma step_of_mem: "step_of f k = Some s \<Longrightarrow> (k, s) \<in> set (fw_steps f)"
  by (simp add: step_of_def om_get_in_set)

lemma validated_target:
  assumes "validate_flow f = Inr u" and "step_of f k = Some s" and "t \<in> set (step_targets s)"
  shows "step_of f t \<noteq> None"
  using assms step_of_mem [OF assms(2)]
  by (auto simp: validate_flow_def first_missing_target_Inr missing_target_None)

lemma fallback_target: "fp_fallback s = Some k \<Longrightarrow> k \<in> set (step_targets s)"
  by (simp add: step_targets_def)

lemma match_transition_target:
  "match_transition score c ts = Inr (Some (t, label, signal)) \<Longrightarrow> t \<in> ft_target ` set ts"
  by (induction ts) (auto split: sum.splits bool.splits)

lemma matched_target:
  "match_transition score c (fp_transitions s) = Inr (Some (t, label, signal)) \<Longrightarrow> t \<in> set (step_targets s)"
  by (drule match_transition_target) (auto simp: step_targets_def)

text \<open>Where an error of a condition comes from.\<close>

definition condition_error :: "'j scorer \<Rightarrow> 'j flow_context \<Rightarrow> flow_control_error \<Rightarrow> bool" where
  "condition_error score c err \<longleftrightarrow>
     (\<exists>metric. err = MissingMetric metric \<and> fc_metrics c metric = None) \<or>
     (\<exists>model. score model (fc_features c) = Inl err)"

lemma evaluate_condition_error: "evaluate_condition score c d = Inl err \<Longrightarrow> condition_error score c err"
  by (auto simp: evaluate_condition_def condition_error_def split: flow_condition.splits option.splits sum.splits)

lemma match_transition_error: "match_transition score c ts = Inl err \<Longrightarrow> condition_error score c err"
  by (induction ts) (auto split: sum.splits bool.splits dest: evaluate_condition_error)

lemma move_to_known:
  "step_of f t \<noteq> None \<Longrightarrow> fst (move_to es f c k t decision matched signal st) = Inr (Next t)"
  by (cases st) (simp add: move_to_def ensure_step_def)

lemma advance_unknown: "step_of f k = None \<Longrightarrow> advance score es f k c st = (Inl (StepNotFound k), st)"
  by (cases st) (simp add: advance_def)

text \<open>The cases of \<open>advance\<close>, for a step that exists.\<close>

lemma advance_result:
  assumes "step_of f k = Some s"
  shows "fst (advance score es f k c (st, l)) =
    (case exceeded_limit s (visits st k + 1) of
       Some limit \<Rightarrow>
         (case fp_fallback s of
            None \<Rightarrow> Inl (MaxVisitsExceeded k limit)
          | Some t \<Rightarrow> if step_of f t = None then Inl (TransitionTargetNotFound k t) else Inr (Next t))
     | None \<Rightarrow>
         (case fp_kind s of
            StepTerminal status \<Rightarrow> Inr (Ended status)
          | _ \<Rightarrow>
            (case match_transition score c (fp_transitions s) of
               Inl err \<Rightarrow> Inl err
             | Inr (Some (t, label, signal)) \<Rightarrow>
                 if step_of f t = None then Inl (TransitionTargetNotFound k t) else Inr (Next t)
             | Inr None \<Rightarrow>
                 (case fp_fallback s of
                    None \<Rightarrow> Inl (NoMatchingTransition k)
                  | Some t \<Rightarrow>
                      if step_of f t = None then Inl (TransitionTargetNotFound k t) else Inr (Next t)))))"
  using assms by (auto simp: flow_defs Let_def split: option.split flow_step_kind.split sum.split)

lemma advance_state:
  assumes "step_of f k = Some s"
  shows "fst (snd (advance score es f k c (st, l))) = st(k \<mapsto> visits st k + 1)"
  using assms by (auto simp: flow_defs Let_def split: option.split flow_step_kind.split sum.split)

text \<open>
  C15: A validated flow never dangles. Validation refuses a flow with the first target that is no
  step; in a flow it accepts, advancing a step answers a step of the flow, or the status of a
  terminal step, or an error of the step itself: its limit, no match, or a failed condition. An
  unknown step is the only StepNotFound, and TransitionTargetNotFound never comes from the engine.
\<close>
theorem validated_flow_advances:
  "case validate_flow f of
     Inl err \<Rightarrow>
       \<exists>k s t. (k, s) \<in> set (fw_steps f) \<and> t \<in> set (step_targets s) \<and> step_of f t = None \<and>
         err = TransitionTargetNotFound k t
   | Inr u \<Rightarrow>
       (case fst (advance score es f k c (st, l)) of
          Inl err \<Rightarrow>
            (if step_of f k = None then err = StepNotFound k
             else (\<exists>limit. err = MaxVisitsExceeded k limit) \<or> err = NoMatchingTransition k \<or>
                  condition_error score c err)
        | Inr (Next t) \<Rightarrow> step_of f t \<noteq> None
        | Inr (Ended status) \<Rightarrow> map_option fp_kind (step_of f k) = Some (StepTerminal status))"
proof (cases "validate_flow f")
  case (Inl err)
  then show ?thesis
    by (auto simp: validate_flow_def dest!: first_missing_target_Inl missing_target_Some)
next
  case (Inr u)
  show ?thesis
  proof (cases "step_of f k")
    case None
    then show ?thesis by (simp add: Inr advance_unknown)
  next
    case (Some s)
    note known = validated_target [OF Inr Some]
    show ?thesis
      using Some Inr
      by (auto simp: advance_result known [OF fallback_target] known [OF matched_target]
          split: option.split flow_step_kind.split sum.split dest: match_transition_error)
  qed
qed

section \<open>Visit limits\<close>

text \<open>
  The caller's loop: \<open>advance\<close> from the given step as long as it answers \<open>Next\<close>, each call with its
  own identifiers and context. The result is the steps advanced from, in order.
\<close>

fun flow_run ::
  "'j scorer \<Rightarrow> 'j flow_program \<Rightarrow> ((env \<times> env) \<times> 'j flow_context) list \<Rightarrow> uuid
     \<Rightarrow> flow_state \<times> 'j action_log \<Rightarrow> uuid list" where
  "flow_run score f [] k s = []"
| "flow_run score f ((es, c) # calls) k s =
     k # (case advance score es f k c s of
            (Inr (Next t), s') \<Rightarrow> flow_run score f calls t s'
          | _ \<Rightarrow> [])"

text \<open>The visits that the limits still allow, and the flows whose fallbacks descend.\<close>

definition visits_left :: "'j flow_program \<Rightarrow> flow_state \<Rightarrow> nat" where
  "visits_left f st =
     (\<Sum>(k, s) \<leftarrow> fw_steps f. case fp_max_visits s of None \<Rightarrow> 0 | Some n \<Rightarrow> unat n - unat (visits st k))"

definition fallbacks_descend :: "(uuid \<Rightarrow> nat) \<Rightarrow> nat \<Rightarrow> 'j flow_program \<Rightarrow> bool" where
  "fallbacks_descend rank R f =
     list_all (\<lambda>(k, s). fp_max_visits s \<noteq> None \<and> rank k \<le> R \<and>
       (case fp_fallback s of None \<Rightarrow> True | Some b \<Rightarrow> rank b < rank k)) (fw_steps f)"

lemma fallbacks_descendD:
  assumes "fallbacks_descend rank R f" and "step_of f k = Some s"
  shows "\<exists>n. fp_max_visits s = Some n" and "rank k \<le> R" and "fp_fallback s = Some b \<Longrightarrow> rank b < rank k"
  using assms(1) step_of_mem [OF assms(2)] by (auto simp: fallbacks_descend_def list_all_iff)

lemma visits_upd: "visits (st(k \<mapsto> n)) j = (if j = k then n else visits st j)"
  by (simp add: visits_def)

lemma visits_left_mono:
  assumes "unat (visits st k) < unat n"
  shows "visits_left f (st(k \<mapsto> n)) \<le> visits_left f st"
  unfolding visits_left_def
  by (rule sum_list_mono) (use assms in \<open>auto simp: visits_upd split: option.split\<close>)

lemma visits_left_less:
  assumes "step_of f k = Some s" and "fp_max_visits s = Some m"
    and "unat (visits st k) < unat n" and "unat n \<le> unat m"
  shows "visits_left f (st(k \<mapsto> n)) < visits_left f st"
proof -
  obtain xs ys where f: "fw_steps f = xs @ (k, s) # ys"
    using split_list [OF step_of_mem [OF assms(1)]] by blast
  note mono = sum_list_mono [where f = "\<lambda>(j, q). case fp_max_visits q of None \<Rightarrow> 0 |
      Some n' \<Rightarrow> unat n' - unat (visits (st(k \<mapsto> n)) j)" and g = "\<lambda>(j, q). case fp_max_visits q of None \<Rightarrow> 0 |
      Some n' \<Rightarrow> unat n' - unat (visits st j)"]
  show ?thesis
    unfolding visits_left_def f using assms mono [of xs] mono [of ys]
    by (fastforce simp: visits_upd split: option.split)
qed

text \<open>One call: a visit is used up, or the rank goes down.\<close>

lemma advance_descends:
  assumes descend: "fallbacks_descend rank R f"
    and fits: "unat (visits st k) + 1 < 2 ^ 32"
    and adv: "advance score es f k c (st, l) = (Inr (Next t), (st', l'))"
  shows "st' = st(k \<mapsto> visits st k + 1)" and "rank t \<le> R"
    and "visits_left f st' * (R + 1) + rank t < visits_left f st * (R + 1) + rank k"
proof -
  obtain s where s: "step_of f k = Some s"
    using adv by (cases "step_of f k") (auto simp: advance_unknown)
  show st': "st' = st(k \<mapsto> visits st k + 1)" using advance_state [OF s, of score es c st l] adv by simp
  note res = advance_result [OF s, of score es c st l, unfolded adv fst_conv]
  from res have t: "step_of f t \<noteq> None"
    by (auto split: option.splits flow_step_kind.splits sum.splits if_splits)
  then show R: "rank t \<le> R" using fallbacks_descendD(2) [OF descend] by blast
  obtain m where m: "fp_max_visits s = Some m" using fallbacks_descendD(1) [OF descend s] by blast
  have n: "unat (visits st k + 1) = unat (visits st k) + 1" using fits by (simp add: unat_word_ariths)
  show "visits_left f st' * (R + 1) + rank t < visits_left f st * (R + 1) + rank k"
  proof (cases "m < visits st k + 1")
    case True
    then have "rank t < rank k"
      using res m fallbacks_descendD(3) [OF descend s]
      by (auto simp: exceeded_limit_def split: option.splits if_splits)
    moreover have "visits_left f st' \<le> visits_left f st"
      unfolding st' by (rule visits_left_mono) (simp add: n)
    ultimately show ?thesis by (intro add_le_less_mono mult_le_mono1)
  next
    case False
    then have "visits_left f st' < visits_left f st"
      unfolding st' by (intro visits_left_less [OF s m]) (simp_all add: n word_le_nat_alt not_less)
    then have "(visits_left f st' + 1) * (R + 1) \<le> visits_left f st * (R + 1)"
      by (intro mult_le_mono1) simp
    then show ?thesis using R by (simp add: algebra_simps)
  qed
qed

lemma flow_run_bounded:
  assumes "fallbacks_descend rank R f"
    and "\<forall>j. unat (visits (fst s) j) + visits_left f (fst s) * (R + 1) + rank k + 1 < 2 ^ 32"
  shows "List.length (flow_run score f calls k s) \<le> visits_left f (fst s) * (R + 1) + rank k + 1"
  using assms(2)
proof (induction calls arbitrary: k s)
  case Nil
  then show ?case by simp
next
  case (Cons call calls)
  obtain es c where call: "call = (es, c)" by (cases call)
  obtain st l where s: "s = (st, l)" by (cases s)
  obtain r st' l' where adv: "advance score es f k c s = (r, st', l')"
    by (cases "advance score es f k c s") auto
  show ?case
  proof (cases "\<exists>t. r = Inr (Next t)")
    case False
    then show ?thesis using adv by (auto simp: call split: sum.split flow_advance.split)
  next
    case True
    then obtain t where r: "r = Inr (Next t)" by blast
    have fits: "unat (visits st k) + 1 < 2 ^ 32" using Cons.prems by (auto simp: s dest: spec [of _ k])
    note d = advance_descends [OF assms(1) fits adv [unfolded s r]]
    have "unat (visits st' j) + visits_left f st' * (R + 1) + rank t + 1 < 2 ^ 32" for j
    proof -
      have "unat (visits st' j) \<le> unat (visits st j) + 1"
        using fits by (simp add: d(1) visits_upd unat_word_ariths)
      then show ?thesis using d(3) spec [OF Cons.prems, of j] by (simp add: s)
    qed
    then have "List.length (flow_run score f calls t (st', l')) \<le> visits_left f st' * (R + 1) + rank t + 1"
      using Cons.IH [of "(st', l')" t] by simp
    moreover have "flow_run score f (call # calls) k s = k # flow_run score f calls t (st', l')"
      by (simp add: call adv r)
    ultimately show ?thesis using d(3) by (simp add: s)
  qed
qed

text \<open>
  C17: A flow ends. If every step has a visit limit and the fallbacks descend in some rank bounded
  by R, then a caller that keeps advancing makes at most L * (R + 1) + R + 1 calls, where L is the
  sum of the limits, whatever the contexts and scores are (and L * (R + 1) + R + 1 fits the counter).
\<close>
theorem flow_ends:
  assumes "fallbacks_descend rank R f"
    and "visits_left f new_flow_state * (R + 1) + R + 1 < 2 ^ 32"
  shows "List.length (flow_run score f calls k (new_flow_state, l))
    \<le> visits_left f new_flow_state * (R + 1) + R + 1"
proof (cases "step_of f k")
  case None
  then show ?thesis by (cases calls) (auto simp: advance_unknown)
next
  case (Some s)
  then have "rank k \<le> R" using fallbacks_descendD(2) [OF assms(1)] by blast
  moreover have "visits new_flow_state j = 0" for j by (simp add: visits_def new_flow_state_def)
  ultimately show ?thesis
    using flow_run_bounded [OF assms(1), of "(new_flow_state, l)" k score calls] assms(2) by fastforce
qed

text \<open>A gate that retries twice and then falls back to the end.\<close>

definition retry_flow :: "unit flow_program" where
  "retry_flow =
     insert_step (with_max_visits 1 (terminal_step 2 ''end'' FlowFailed))
       (new_flow_program 9 ''retry''
         (with_max_visits 2 (with_fallback 2
           (add_transition \<lparr>ft_label = ''again'', ft_condition = Always, ft_target = 1\<rparr>
             (decision_step 1 ''gate'' ''retry'')))))"

theorem flow_ends_witness:
  "\<forall>score calls. List.length (flow_run score retry_flow calls 1 (new_flow_state, new_log)) \<le> 8"
proof -
  have d: "fallbacks_descend (\<lambda>k. if k = 1 then 1 else 0) 1 retry_flow"
    by (simp add: fallbacks_descend_def retry_flow_def insert_step_def new_flow_program_def
        with_max_visits_def with_fallback_def add_transition_def terminal_step_def decision_step_def
        new_flow_step_def)
  have v: "visits_left retry_flow new_flow_state = 3"
    by (simp add: visits_left_def retry_flow_def insert_step_def new_flow_program_def
        with_max_visits_def with_fallback_def add_transition_def terminal_step_def decision_step_def
        new_flow_step_def  visits_def new_flow_state_def)
  show ?thesis using flow_ends [OF d] by (simp add: v)
qed

text \<open>
  The limit does not bound a fallback cycle. A step that falls back to itself answers \<open>Next\<close>
  on every call whatever its visit limit: the caller's loop runs as long as it calls.
\<close>
theorem fallback_cycle_runs_on:
  "List.length (flow_run score
      (new_flow_program w nm (with_max_visits m (with_fallback k (decision_step k name d)))) calls k s)
    = List.length calls"
proof (induction calls arbitrary: s)
  case Nil
  then show ?case by simp
next
  case (Cons call calls)
  obtain es c where call: "call = (es, c)" by (cases call)
  obtain st l where s: "s = (st, l)" by (cases s)
  define q :: "'a flow_step" where "q = with_max_visits m (with_fallback k (decision_step k name d))"
  have q: "fp_id q = k" "fp_fallback q = Some k" "fp_kind q = StepDecision d" "fp_transitions q = []"
    by (simp_all add: q_def with_max_visits_def with_fallback_def decision_step_def new_flow_step_def)
  have k: "step_of (new_flow_program w nm q) k = Some q"
    by (simp add: step_of_def new_flow_program_def q)
  have "fst (advance score es (new_flow_program w nm q) k c (st, l)) = Inr (Next k)"
    by (simp add: advance_result [OF k] q k split: option.split)
  then show ?case
    using Cons by (cases "advance score es (new_flow_program w nm q) k c (st, l)") (simp add: call s q_def)
qed

section \<open>Chat payloads\<close>

lemma dataset_source_id: "dataset_source ds k = Some s \<Longrightarrow> is_id s = k \<and> s \<in> set (id_sources ds)"
  by (auto simp: dataset_source_def find_Some_iff)

definition sources_of :: "instruction_dataset \<Rightarrow> (uuid, instruction_source) om \<Rightarrow> bool" where
  "sources_of ds m \<longleftrightarrow> om_ok m \<and> list_all (\<lambda>(k, s). dataset_source ds k = Some s) m"

lemma sources_of_insert:
  assumes "sources_of ds m" and "dataset_source ds k = Some s"
  shows "sources_of ds (om_insert k s m)"
proof -
  have "om_ok (om_insert k s m)" using assms om_insert_ok by (auto simp: sources_of_def)
  moreover have "dataset_source ds j = Some v" if "(j, v) \<in> set (om_insert k s m)" for j v
    using that assms om_insert_ok [of m k s]
    by (auto simp: sources_of_def list_all_iff om_get_iff [symmetric] om_get_insert split: if_splits
        dest: om_get_in_set)
  ultimately show ?thesis by (auto simp: sources_of_def list_all_iff)
qed

lemma collect_sources_ok:
  assumes "collect_sources ds is m = Inr m'" and "sources_of ds m"
  shows "sources_of ds m' \<and> fst ` set m' = fst ` set m \<union> set (map ie_source_id is)"
  using assms
proof (induction "is" arbitrary: m)
  case Nil
  then show ?case by simp
next
  case (Cons i rest)
  obtain s where s: "dataset_source ds (ie_source_id i) = Some s"
    using Cons.prems(1) by (auto split: option.splits)
  then have id: "is_id s = ie_source_id i" by (simp add: dataset_source_id)
  show ?case
  proof (cases "om_contains m (is_id s)")
    case True
    then show ?thesis using Cons s id by (force simp: om_contains_iff)
  next
    case False
    then show ?thesis
      using Cons.prems Cons.IH [of "om_insert (ie_source_id i) s m"] s id
      by (auto simp: sources_of_insert om_insert_keys)
  qed
qed

lemma collect_sources_error:
  "collect_sources ds is m = Inl err \<Longrightarrow>
     \<exists>i \<in> set is. dataset_source ds (ie_source_id i) = None \<and>
       err = InstructionSourceMissing (ie_id i) (ie_source_id i)"
  by (induction ds "is" m rule: collect_sources.induct) (auto split: option.splits if_splits)

lemma resolve_sources_ok:
  assumes "resolve_sources ds is = Inr ss"
  shows "distinct (map is_id ss)" and "set (map is_id ss) = set (map ie_source_id is)"
    and "\<forall>s \<in> set ss. dataset_source ds (is_id s) = Some s"
proof -
  obtain m where m: "collect_sources ds is om_empty = Inr m" and ss: "ss = om_values m"
    using assms by (auto simp: resolve_sources_def split: sum.splits)
  have ok: "sources_of ds m" and keys: "fst ` set m = set (map ie_source_id is)"
    using collect_sources_ok [OF m] by (auto simp: sources_of_def)
  have each: "dataset_source ds k = Some s \<and> is_id s = k" if "(k, s) \<in> set m" for k s
    using ok that by (auto simp: sources_of_def list_all_iff dest: dataset_source_id)
  then have ids: "map is_id ss = om_keys m" by (auto simp: ss)
  show "distinct (map is_id ss)" using ok by (simp add: ids om_ok_distinct sources_of_def)
  show "set (map is_id ss) = set (map ie_source_id is)" by (simp add: ids keys)
  show "\<forall>s \<in> set ss. dataset_source ds (is_id s) = Some s"
    using each by (fastforce simp: ss)
qed

lemma filter_instructions_alt:
  "filter_instructions rq sel =
     filter (\<lambda>i. selection_is_empty sel \<or> ie_id i \<in> set (ci_instruction_ids sel) \<or>
                  list_ex (\<lambda>tag. tag \<in> set (ci_tags sel)) (ie_tags i)) (id_instructions (cr_instruction_dataset rq))"
  by (auto simp: filter_instructions_def list_ex_iff intro!: filter_cong)

lemma log_chat_types:
  "map le_event_type (al_entries (log_chat e ev p l)) = map le_event_type (al_entries l) @ [ev]"
  by (simp add: log_chat_def log_simps)

lemma resolve_sources_error:
  "resolve_sources ds is = Inl err \<Longrightarrow>
     \<exists>i \<in> set is. dataset_source ds (ie_source_id i) = None \<and>
       err = InstructionSourceMissing (ie_id i) (ie_source_id i)"
  by (auto simp: resolve_sources_def dest: collect_sources_error split: sum.splits)

text \<open>
  The request is logged first, and the generation only when it succeeds. A payload carries the
  selected instructions in the order of the dataset (all of them without a selection) and each of
  their sources exactly once; a selected instruction whose source the dataset lacks refuses the
  request, naming the instruction.
\<close>
theorem build_payload_spec:
  "(let ds = cr_instruction_dataset rq;
        chosen = filter (\<lambda>i. selection_is_empty sel \<or> ie_id i \<in> set (ci_instruction_ids sel) \<or>
                              list_ex (\<lambda>tag. tag \<in> set (ci_tags sel)) (ie_tags i)) (id_instructions ds)
    in case build_payload adapt es rq sel l of
         (Inl err, l') \<Rightarrow>
           map le_event_type (al_entries l') = map le_event_type (al_entries l) @ [ChatRequestReceived] \<and>
           ((\<exists>i \<in> set chosen. dataset_source ds (ie_source_id i) = None \<and>
               err = InstructionSourceMissing (ie_id i) (ie_source_id i)) \<or>
            adapt rq chosen = Inl err)
       | (Inr p, l') \<Rightarrow>
           map le_event_type (al_entries l') =
             map le_event_type (al_entries l) @ [ChatRequestReceived, ChatPayloadGenerated] \<and>
           cp_instructions p = chosen \<and>
           distinct (map is_id (cp_sources p)) \<and>
           set (map is_id (cp_sources p)) = set (map ie_source_id chosen) \<and>
           set (cp_sources p) \<subseteq> set (id_sources ds) \<and>
           adapt rq chosen = Inr \<lparr>cd_intent = cp_intent p, cd_parameters = cp_parameters p\<rparr>)"
proof -
  let ?ds = "cr_instruction_dataset rq" and ?chosen = "filter_instructions rq sel"
  show ?thesis
  proof (cases "resolve_sources ?ds ?chosen")
    case (Inl err)
    then show ?thesis
      using resolve_sources_error [OF Inl] by (auto simp add: build_payload_def Let_def log_chat_types filter_instructions_alt)
  next
    case (Inr ss)
    note ok = resolve_sources_ok [OF Inr]
    have "set ss \<subseteq> set (id_sources ?ds)" using ok(3) by (auto dest: dataset_source_id)
    then show ?thesis
      using Inr ok(1,2)
      by (cases "adapt rq ?chosen") (simp_all add: build_payload_def Let_def log_chat_types filter_instructions_alt)
  qed
qed

end
