(* ===== verification/Pipeline_Schema.thy ===== *)
theory Pipeline_Schema
  imports Action_Log Ordered_Map "HOL-Library.Char_ord" "HOL-Library.List_Lexorder"
begin

text \<open>
  Schemas of records (\<open>pipeline.rs\<close>): inference from a sample, validation, the registry.

  A JSON value has the variants the code matches on; an object is the list of its entries in key
  order. Numbers are the \<open>serde_json\<close> crate's: their type is a parameter, and \<open>is_int\<close> stands for
  \<open>is_i64() || is_u64()\<close>. The messages of a failed validation are written out.
\<close>

datatype 'n json =
    JNull
  | JBool bool
  | JNumber 'n
  | JString string
  | JArray "'n json list"
  | JObject "(string, 'n json) om"

datatype pipeline_error =
    PipelineNotFound uuid
  | VersionNotFound uuid u32
  | SchemaNotFound uuid
  | CheckpointNotFound uuid
  | ConnectorNotFound uuid
  | SchemaValidationFailed string
  | StepFailed string string
  | LockPoisoned string

datatype field_type = FString | FInteger | FFloat | FBoolean | FArray | FObject | FNull | FUnknown

primrec field_type_text :: "field_type \<Rightarrow> string" where
  "field_type_text FString = ''String''"
| "field_type_text FInteger = ''Integer''"
| "field_type_text FFloat = ''Float''"
| "field_type_text FBoolean = ''Boolean''"
| "field_type_text FArray = ''Array''"
| "field_type_text FObject = ''Object''"
| "field_type_text FNull = ''Null''"
| "field_type_text FUnknown = ''Unknown''"

primrec from_json :: "('n \<Rightarrow> bool) \<Rightarrow> 'n json \<Rightarrow> field_type" where
  "from_json is_int (JString s) = FString"
| "from_json is_int (JNumber n) = (if is_int n then FInteger else FFloat)"
| "from_json is_int (JBool b) = FBoolean"
| "from_json is_int (JArray xs) = FArray"
| "from_json is_int (JObject m) = FObject"
| "from_json is_int JNull = FNull"

record field_schema =
  fd_name :: string
  fd_field_type :: field_type
  fd_nullable :: bool
  fd_description :: "string option"

record data_schema =
  ds_id :: uuid
  ds_name :: string
  ds_version :: u32
  ds_fields :: "field_schema list"
  ds_created_at_ms :: u64

definition new_data_schema :: "uuid \<Rightarrow> u64 \<Rightarrow> string \<Rightarrow> data_schema" where
  "new_data_schema fresh now name =
     \<lparr>ds_id = fresh, ds_name = name, ds_version = 1, ds_fields = [], ds_created_at_ms = now\<rparr>"

definition add_field :: "field_schema \<Rightarrow> data_schema \<Rightarrow> data_schema" where
  "add_field d s = s\<lparr>ds_fields := ds_fields s @ [d], ds_version := ds_version s + 1\<rparr>"

definition infer_field :: "('n \<Rightarrow> bool) \<Rightarrow> string \<Rightarrow> 'n json \<Rightarrow> field_schema" where
  "infer_field is_int key v =
     \<lparr>fd_name = key, fd_field_type = from_json is_int v, fd_nullable = (v = JNull), fd_description = None\<rparr>"

definition infer_schema ::
  "('n \<Rightarrow> bool) \<Rightarrow> uuid \<Rightarrow> u64 \<Rightarrow> string \<Rightarrow> 'n json \<Rightarrow> data_schema" where
  "infer_schema is_int fresh now name sample =
     \<lparr>ds_id = fresh, ds_name = name, ds_version = 1,
      ds_fields = (case sample of
                     JObject m \<Rightarrow> map (\<lambda>(key, v). infer_field is_int key v) m
                   | other \<Rightarrow> [infer_field is_int ''value'' other]),
      ds_created_at_ms = now\<rparr>"

fun check_fields ::
  "('n \<Rightarrow> bool) \<Rightarrow> (string, 'n json) om \<Rightarrow> field_schema list \<Rightarrow> pipeline_error + unit" where
  "check_fields is_int obj [] = Inr ()"
| "check_fields is_int obj (d # ds) =
     (case om_get obj (fd_name d) of
        None \<Rightarrow> Inl (SchemaValidationFailed (''required field '' @ quoted (fd_name d) @ '' is missing''))
      | Some v \<Rightarrow>
          if v = JNull \<and> \<not> fd_nullable d
          then Inl (SchemaValidationFailed
                 (''field '' @ quoted (fd_name d) @ '' is null but the schema marks it as non-nullable''))
          else
            let actual = from_json is_int v
            in if actual \<noteq> FNull \<and> actual \<noteq> fd_field_type d
               then Inl (SchemaValidationFailed
                      (''field '' @ quoted (fd_name d) @ '' has type '' @ field_type_text actual
                         @ '' but schema expects '' @ field_type_text (fd_field_type d)))
               else check_fields is_int obj ds)"

definition validate_record :: "('n \<Rightarrow> bool) \<Rightarrow> 'n json \<Rightarrow> data_schema \<Rightarrow> pipeline_error + unit" where
  "validate_record is_int record s =
     (case record of
        JObject obj \<Rightarrow> check_fields is_int obj (ds_fields s)
      | _ \<Rightarrow> Inl (SchemaValidationFailed ''record is not a JSON object''))"

section \<open>Registry\<close>

type_synonym data_schemas = "(uuid, data_schema) om"

definition register_data_schema :: "data_schema \<Rightarrow> data_schemas \<Rightarrow> uuid \<times> data_schemas" where
  "register_data_schema s m = (ds_id s, om_insert (ds_id s) s m)"

definition get_data_schema :: "data_schemas \<Rightarrow> uuid \<Rightarrow> data_schema option" where
  "get_data_schema m k = om_get m k"

definition all_data_schemas :: "data_schemas \<Rightarrow> data_schema list" where
  "all_data_schemas m = om_values m"

section \<open>What validation accepts\<close>

lemma from_json_null: "from_json is_int v = FNull \<longleftrightarrow> v = JNull"
  by (cases v) auto

lemma check_fields_iff:
  "check_fields is_int obj ds = Inr () \<longleftrightarrow>
     (\<forall>d \<in> set ds. \<exists>v. om_get obj (fd_name d) = Some v \<and>
        (if v = JNull then fd_nullable d else from_json is_int v = fd_field_type d))"
  by (induction ds) (auto simp: Let_def from_json_null split: option.splits)

lemma check_inferred:
  assumes "distinct (om_keys m)"
  shows "check_fields is_int obj (map (\<lambda>(key, v). infer_field is_int key v) m) = Inr () \<longleftrightarrow>
    (\<forall>k v. om_get m k = Some v \<longrightarrow>
       map_option (from_json is_int) (om_get obj k) = Some (from_json is_int v))"
proof -
  have one: "(\<exists>w. om_get obj k = Some w \<and> (if w = JNull then v = JNull else from_json is_int w = from_json is_int v)) \<longleftrightarrow>
      map_option (from_json is_int) (om_get obj k) = Some (from_json is_int v)" for k v
    by (cases "om_get obj k") (auto simp: from_json_null dest: sym)
  have "check_fields is_int obj (map (\<lambda>(key, v). infer_field is_int key v) m) = Inr () \<longleftrightarrow>
      (\<forall>(k, v) \<in> set m. map_option (from_json is_int) (om_get obj k) = Some (from_json is_int v))"
    unfolding check_fields_iff one [symmetric] by (force simp: infer_field_def)
  also have "\<dots> \<longleftrightarrow> (\<forall>k v. om_get m k = Some v \<longrightarrow>
       map_option (from_json is_int) (om_get obj k) = Some (from_json is_int v))"
    using assms by (fastforce dest: map_of_is_SomeI map_of_SomeD)
  finally show ?thesis .
qed

text \<open>
  C31: What an inferred schema means. Validating against the schema inferred from an object accepts
  exactly the objects that hold, under every key of the sample, a value of the same inferred type
  (in particular the sample itself); a record that is no object is always refused, also by the
  schema inferred from it.
\<close>
theorem inferred_schema_accepts:
  "let s = infer_schema is_int fresh now name sample
   in case record of
        JObject obj \<Rightarrow>
          (case sample of
             JObject m \<Rightarrow>
               if distinct (om_keys m)
               then validate_record is_int record s = Inr () \<longleftrightarrow>
                      {(k, t). map_option (from_json is_int) (om_get m k) = Some t}
                        \<subseteq> {(k, t). map_option (from_json is_int) (om_get obj k) = Some t}
               else True
           | _ \<Rightarrow> validate_record is_int record s = Inr () \<longleftrightarrow>
                    map_option (from_json is_int) (om_get obj ''value'') = Some (from_json is_int sample))
      | _ \<Rightarrow> validate_record is_int record s = Inl (SchemaValidationFailed ''record is not a JSON object'')"
proof -
  have atom: "check_fields is_int obj [infer_field is_int ''value'' v] = Inr () \<longleftrightarrow>
      map_option (from_json is_int) (om_get obj ''value'') = Some (from_json is_int v)" for obj v
    using check_inferred [of "[(''value'', v)]" is_int obj] by auto
  show ?thesis
    by (auto simp: Let_def validate_record_def infer_schema_def check_inferred atom simp del: check_fields.simps split: json.split)
qed

end
