(* ===== verification/Pipeline.thy ===== *)
theory Pipeline
  imports Pipeline_Schema Float_Order "HOL-Library.Signed_Division"
begin

text \<open>
  Transformation pipelines (\<open>pipeline.rs\<close>): definitions and their versions, dead letters, streams
  with watermarks, checkpoints, lineage, the batch optimizer, builder nodes, storage connectors, and
  the registry that holds them. Every method holds the mutex of each part it touches; no code panics
  inside one, so \<open>LockPoisoned\<close> does not arise. Maps that the code lists are kept in key order. The
  arguments \<open>now\<close> and \<open>fresh\<close> are the clock reading and the new identifier of a constructor.
\<close>

section \<open>Pipelines and versions\<close>

datatype step_kind = MapStep | FilterStep | ReduceStep | AggregateStep | WindowStep

primrec step_kind_str :: "step_kind \<Rightarrow> string" where
  "step_kind_str MapStep = ''map''"
| "step_kind_str FilterStep = ''filter''"
| "step_kind_str ReduceStep = ''reduce''"
| "step_kind_str AggregateStep = ''aggregate''"
| "step_kind_str WindowStep = ''window''"

record 'n pipeline_step =
  ps_id :: uuid
  ps_name :: string
  ps_kind :: step_kind
  ps_params :: "'n json"
  ps_output_schema_id :: "uuid option"

definition new_pipeline_step :: "uuid \<Rightarrow> string \<Rightarrow> step_kind \<Rightarrow> 'n pipeline_step" where
  "new_pipeline_step fresh name kind =
     \<lparr>ps_id = fresh, ps_name = name, ps_kind = kind, ps_params = JObject om_empty,
      ps_output_schema_id = None\<rparr>"

definition with_params :: "'n json \<Rightarrow> 'n pipeline_step \<Rightarrow> 'n pipeline_step" where
  "with_params params s = s\<lparr>ps_params := params\<rparr>"

definition with_output_schema :: "uuid \<Rightarrow> 'n pipeline_step \<Rightarrow> 'n pipeline_step" where
  "with_output_schema k s = s\<lparr>ps_output_schema_id := Some k\<rparr>"

record 'n pipeline_def =
  pl_id :: uuid
  pl_name :: string
  pl_dimension_id :: dimension_id
  pl_steps :: "'n pipeline_step list"
  pl_version :: u32
  pl_created_at_ms :: u64
  pl_updated_at_ms :: u64

definition new_pipeline :: "uuid \<Rightarrow> u64 \<Rightarrow> string \<Rightarrow> dimension_id \<Rightarrow> 'n pipeline_def" where
  "new_pipeline fresh now name d =
     \<lparr>pl_id = fresh, pl_name = name, pl_dimension_id = d, pl_steps = [], pl_version = 1,
      pl_created_at_ms = now, pl_updated_at_ms = now\<rparr>"

definition add_step :: "u64 \<Rightarrow> 'n pipeline_step \<Rightarrow> 'n pipeline_def \<Rightarrow> 'n pipeline_def" where
  "add_step now s p =
     p\<lparr>pl_steps := pl_steps p @ [s], pl_version := pl_version p + 1, pl_updated_at_ms := now\<rparr>"

definition remove_step :: "u64 \<Rightarrow> uuid \<Rightarrow> 'n pipeline_def \<Rightarrow> bool \<times> 'n pipeline_def" where
  "remove_step now k p =
     (let kept = filter (\<lambda>s. ps_id s \<noteq> k) (pl_steps p)
      in if List.length kept < List.length (pl_steps p)
         then (True, p\<lparr>pl_steps := kept, pl_version := pl_version p + 1, pl_updated_at_ms := now\<rparr>)
         else (False, p\<lparr>pl_steps := kept\<rparr>))"

record 'n transform_version =
  tv_id :: uuid
  tv_pipeline_id :: uuid
  tv_version :: u32
  tv_steps_snapshot :: "'n pipeline_step list"
  tv_saved_at_ms :: u64
  tv_author :: string
  tv_description :: string

definition capture_version ::
  "uuid \<Rightarrow> u64 \<Rightarrow> 'n pipeline_def \<Rightarrow> string \<Rightarrow> string \<Rightarrow> 'n transform_version" where
  "capture_version fresh now p author description =
     \<lparr>tv_id = fresh, tv_pipeline_id = pl_id p, tv_version = pl_version p,
      tv_steps_snapshot = pl_steps p, tv_saved_at_ms = now, tv_author = author,
      tv_description = description\<rparr>"

record 'n replay_request =
  rr_pipeline_id :: uuid
  rr_version :: u32
  rr_input_records :: "'n json list"
  rr_task_id :: task_id

section \<open>Dead letters\<close>

datatype dead_letter_reason = StepError | SchemaInvalid | MaxRetriesExceeded | FilterRejected

record 'n dead_letter =
  dl_id :: uuid
  dl_pipeline_id :: uuid
  dl_step_id :: uuid
  dl_input_record :: "'n json"
  dl_error_message :: string
  dl_reason :: dead_letter_reason
  dl_failed_at_ms :: u64
  dl_retry_count :: u32

definition new_dead_letter ::
  "uuid \<Rightarrow> u64 \<Rightarrow> uuid \<Rightarrow> uuid \<Rightarrow> 'n json \<Rightarrow> string \<Rightarrow> dead_letter_reason \<Rightarrow> 'n dead_letter" where
  "new_dead_letter fresh now p s input message reason =
     \<lparr>dl_id = fresh, dl_pipeline_id = p, dl_step_id = s, dl_input_record = input,
      dl_error_message = message, dl_reason = reason, dl_failed_at_ms = now, dl_retry_count = 0\<rparr>"

type_synonym 'n dead_letters = "'n dead_letter list"

definition enqueue_dead :: "'n dead_letter \<Rightarrow> 'n dead_letters \<Rightarrow> 'n dead_letters" where
  "enqueue_dead x q = q @ [x]"

definition dead_for_pipeline :: "'n dead_letters \<Rightarrow> uuid \<Rightarrow> 'n dead_letter list" where
  "dead_for_pipeline q p = filter (\<lambda>x. dl_pipeline_id x = p) q"

definition drain_dead :: "'n dead_letters \<Rightarrow> 'n dead_letter list \<times> 'n dead_letters" where
  "drain_dead q = (q, [])"

section \<open>Streams\<close>

record event_watermark =
  wm_event_time_ms :: u64
  wm_processing_time_ms :: u64

definition new_watermark :: "u64 \<Rightarrow> u64 \<Rightarrow> event_watermark" where
  "new_watermark now event = \<lparr>wm_event_time_ms = event, wm_processing_time_ms = now\<rparr>"

text \<open>Both times are cast to \<open>i64\<close> and subtracted, which wraps in a release build.\<close>

definition lag_ms :: "event_watermark \<Rightarrow> int" where
  "lag_ms w = sint (wm_processing_time_ms w - wm_event_time_ms w)"

record 'n stream_record =
  sr_id :: uuid
  sr_payload :: "'n json"
  sr_watermark :: event_watermark

definition new_stream_record :: "uuid \<Rightarrow> u64 \<Rightarrow> 'n json \<Rightarrow> u64 \<Rightarrow> 'n stream_record" where
  "new_stream_record fresh now payload event =
     \<lparr>sr_id = fresh, sr_payload = payload, sr_watermark = new_watermark now event\<rparr>"

record 'n stream_pipeline =
  sp_pipeline :: "'n pipeline_def"
  sp_low_watermark_ms :: u64
  sp_records_processed :: u64
  sp_records_failed :: u64

definition new_stream :: "'n pipeline_def \<Rightarrow> 'n stream_pipeline" where
  "new_stream p =
     \<lparr>sp_pipeline = p, sp_low_watermark_ms = 0, sp_records_processed = 0, sp_records_failed = 0\<rparr>"

definition advance_stream :: "'n stream_record \<Rightarrow> 'n stream_pipeline \<Rightarrow> 'n stream_pipeline" where
  "advance_stream x s =
     (let t = wm_event_time_ms (sr_watermark x);
          s1 = if sp_low_watermark_ms s < t then s\<lparr>sp_low_watermark_ms := t\<rparr> else s
      in s1\<lparr>sp_records_processed := sp_records_processed s1 + 1\<rparr>)"

definition mark_failed :: "'n stream_pipeline \<Rightarrow> 'n stream_pipeline" where
  "mark_failed s = s\<lparr>sp_records_failed := sp_records_failed s + 1\<rparr>"

section \<open>Checkpoints\<close>

record 'n pipeline_checkpoint =
  pc_id :: uuid
  pc_pipeline_id :: uuid
  pc_completed_step_index :: usize
  pc_processed_count :: u64
  pc_state_snapshot :: "'n json"
  pc_saved_at_ms :: u64

definition new_checkpoint ::
  "uuid \<Rightarrow> u64 \<Rightarrow> uuid \<Rightarrow> usize \<Rightarrow> u64 \<Rightarrow> 'n json \<Rightarrow> 'n pipeline_checkpoint" where
  "new_checkpoint fresh now p completed processed snapshot =
     \<lparr>pc_id = fresh, pc_pipeline_id = p, pc_completed_step_index = completed,
      pc_processed_count = processed, pc_state_snapshot = snapshot, pc_saved_at_ms = now\<rparr>"

type_synonym 'n checkpoint_store = "uuid \<rightharpoonup> 'n pipeline_checkpoint"

definition store_checkpoint :: "'n pipeline_checkpoint \<Rightarrow> 'n checkpoint_store \<Rightarrow> 'n checkpoint_store" where
  "store_checkpoint c m = m(pc_pipeline_id c \<mapsto> c)"

definition get_checkpoint :: "'n checkpoint_store \<Rightarrow> uuid \<Rightarrow> 'n pipeline_checkpoint option" where
  "get_checkpoint m p = m p"

definition clear_checkpoint :: "uuid \<Rightarrow> 'n checkpoint_store \<Rightarrow> bool \<times> 'n checkpoint_store" where
  "clear_checkpoint p m = (m p \<noteq> None, m(p := None))"

section \<open>Lineage\<close>

record lineage_record =
  ln_id :: uuid
  ln_pipeline_id :: uuid
  ln_step_id :: uuid
  ln_step_name :: string
  ln_input_artifact_ids :: "artifact_id list"
  ln_output_artifact_id :: artifact_id
  ln_transform_version :: u32
  ln_task_id :: task_id
  ln_dimension_id :: dimension_id
  ln_recorded_at_ms :: u64

definition new_lineage_record ::
  "env \<Rightarrow> uuid \<Rightarrow> uuid \<Rightarrow> uuid \<Rightarrow> string \<Rightarrow> artifact_id list \<Rightarrow> artifact_id \<Rightarrow> u32 \<Rightarrow> task_id \<Rightarrow> dimension_id
     \<Rightarrow> lineage_record" where
  "new_lineage_record e fresh pipeline_id step_id step_name input_ids output_id version task_id dimension_id =
     \<lparr>ln_id = fresh, ln_pipeline_id = pipeline_id, ln_step_id = step_id, ln_step_name = step_name,
      ln_input_artifact_ids = input_ids, ln_output_artifact_id = output_id,
      ln_transform_version = version, ln_task_id = task_id, ln_dimension_id = dimension_id,
      ln_recorded_at_ms = env_now e\<rparr>"

definition record_lineage ::
  "(uuid \<Rightarrow> string) \<Rightarrow> env \<Rightarrow> lineage_record \<Rightarrow> lineage_record list \<times> 'j action_log
     \<Rightarrow> lineage_record list \<times> 'j action_log" where
  "record_lineage to_str e x = (\<lambda>(xs, l).
     (xs @ [x],
      log_system e PipelineLineageRecorded (ln_dimension_id x) (ln_task_id x)
        [(''pipeline_id'', PId (ln_pipeline_id x)), (''step_id'', PId (ln_step_id x)),
         (''step_name'', PText (ln_step_name x)),
         (''output_artifact_id'', PText (to_str (ln_output_artifact_id x))),
         (''transform_version'', PNum (ucast (ln_transform_version x)))] l))"

definition lineage_for_pipeline :: "lineage_record list \<Rightarrow> uuid \<Rightarrow> lineage_record list" where
  "lineage_for_pipeline xs p = filter (\<lambda>x. ln_pipeline_id x = p) xs"

definition lineage_for_artifact :: "lineage_record list \<Rightarrow> artifact_id \<Rightarrow> lineage_record list" where
  "lineage_for_artifact xs a = filter (\<lambda>x. ln_output_artifact_id x = a) xs"

section \<open>Optimizer\<close>

record batch_config =
  bc_max_batch_size :: usize
  bc_flush_interval_ms :: u64
  bc_parallelism :: usize

definition default_batch_config :: batch_config where
  "default_batch_config = \<lparr>bc_max_batch_size = 1000, bc_flush_interval_ms = 500, bc_parallelism = 4\<rparr>"

record pipeline_metrics =
  pm_pipeline_id :: uuid
  pm_records_processed :: u64
  pm_records_failed :: u64
  pm_throughput_rps :: f64
  pm_avg_latency_ms :: f64
  pm_p99_latency_ms :: f64
  pm_sampled_at_ms :: u64

record optimization_advice =
  oa_batch_size_delta :: int
  oa_parallelism_delta :: int
  oa_rationale :: string

definition record_metrics :: "pipeline_metrics \<Rightarrow> pipeline_metrics list \<Rightarrow> pipeline_metrics list" where
  "record_metrics sample history = history @ [sample]"

definition sample_count :: "pipeline_metrics list \<Rightarrow> nat" where
  "sample_count history = List.length history"

text \<open>
  \<open>500.0\<close> and \<open>100.0\<close>; \<open>fmt\<close> is the text of a float with one decimal. The cast to \<open>i64\<close> is the
  signed reading of the word, and halving it towards zero cannot overflow.
\<close>

definition advise ::
  "(f64 \<Rightarrow> string) \<Rightarrow> pipeline_metrics list \<Rightarrow> batch_config \<Rightarrow> optimization_advice" where
  "advise fmt history current =
     (let steady = \<lparr>oa_batch_size_delta = 0, oa_parallelism_delta = 0,
                    oa_rationale = ''no adjustment required''\<rparr>
      in case rev history of
           [] \<Rightarrow> steady
         | m # _ \<Rightarrow>
             if f64_lt (pm_throughput_rps m) 0x407F400000000000 \<and> bc_parallelism current < 16
             then \<lparr>oa_batch_size_delta = 0, oa_parallelism_delta = 2,
                   oa_rationale = ''throughput '' @ fmt (pm_throughput_rps m)
                     @ '' rps is below threshold; increase parallelism''\<rparr>
             else if f64_lt 0x4059000000000000 (pm_avg_latency_ms m) \<and> 100 < bc_max_batch_size current
             then \<lparr>oa_batch_size_delta = - (sint (bc_max_batch_size current) sdiv 2), oa_parallelism_delta = 0,
                   oa_rationale = ''avg latency '' @ fmt (pm_avg_latency_ms m)
                     @ '' ms is above threshold; reduce batch size''\<rparr>
             else steady)"

end
