(* ===== verification/Pipeline_Registry.thy ===== *)
theory Pipeline_Registry
  imports Pipeline
begin

text \<open>
  The pipeline registry (\<open>pipeline.rs\<close>) and the catalogues it holds: builder node templates and
  storage connectors. \<open>num\<close> turns a literal into a JSON number. The connectors' optional log is the
  registry's own: \<open>connector_store\<close> says whether it is attached.
\<close>

section \<open>Builder nodes\<close>

datatype pipeline_node_kind =
  SourceNode | MapNode | FilterNode | ReduceNode | AggregateNode | WindowNode | ValidateNode
  | DeadLetterRouter | SinkNode

primrec node_kind_str :: "pipeline_node_kind \<Rightarrow> string" where
  "node_kind_str SourceNode = ''pipeline.source''"
| "node_kind_str MapNode = ''pipeline.map''"
| "node_kind_str FilterNode = ''pipeline.filter''"
| "node_kind_str ReduceNode = ''pipeline.reduce''"
| "node_kind_str AggregateNode = ''pipeline.aggregate''"
| "node_kind_str WindowNode = ''pipeline.window''"
| "node_kind_str ValidateNode = ''pipeline.validate''"
| "node_kind_str DeadLetterRouter = ''pipeline.dead_letter_router''"
| "node_kind_str SinkNode = ''pipeline.sink''"

primrec node_display_name :: "pipeline_node_kind \<Rightarrow> string" where
  "node_display_name SourceNode = ''Data Source''"
| "node_display_name MapNode = ''Map''"
| "node_display_name FilterNode = ''Filter''"
| "node_display_name ReduceNode = ''Reduce''"
| "node_display_name AggregateNode = ''Aggregate''"
| "node_display_name WindowNode = ''Window''"
| "node_display_name ValidateNode = ''Schema Validate''"
| "node_display_name DeadLetterRouter = ''Dead-Letter Router''"
| "node_display_name SinkNode = ''Data Sink''"

primrec node_description :: "pipeline_node_kind \<Rightarrow> string" where
  "node_description SourceNode = ''Ingests records from a storage connector or stream.''"
| "node_description MapNode = ''Applies a function to every record.''"
| "node_description FilterNode = ''Retains records that satisfy a predicate.''"
| "node_description ReduceNode = ''Folds all records into a single accumulator.''"
| "node_description AggregateNode = ''Groups records by key and computes per-group statistics.''"
| "node_description WindowNode = ''Collects records in a time or count window before emitting.''"
| "node_description ValidateNode = ''Validates records against a registered schema.''"
| "node_description DeadLetterRouter = ''Routes failed records to the dead-letter queue.''"
| "node_description SinkNode = ''Writes records to a storage connector.''"

record 'n builder_node =
  bn_id :: uuid
  bn_kind :: pipeline_node_kind
  bn_node_kind_str :: string
  bn_display_name :: string
  bn_description :: string
  bn_default_params :: "'n json"
  bn_input_ports :: "string list"
  bn_output_ports :: "string list"

primrec builder_ports ::
  "(nat \<Rightarrow> 'n) \<Rightarrow> pipeline_node_kind \<Rightarrow> string list \<times> string list \<times> 'n json" where
  "builder_ports num SourceNode =
     ([], [''records''],
      JObject [(''connector_id'', JNull), (''query'', JString ''SELECT * FROM your_table LIMIT 1000'')])"
| "builder_ports num MapNode = ([''in''], [''out''], JObject [(''expression'', JString ''record'')])"
| "builder_ports num FilterNode =
     ([''in''], [''passed'', ''rejected''], JObject [(''predicate'', JString ''true'')])"
| "builder_ports num ReduceNode =
     ([''in''], [''result''], JObject [(''accumulator'', JString ''acc''), (''initial_value'', JNull)])"
| "builder_ports num AggregateNode =
     ([''in''], [''groups''],
      JObject [(''group_by'', JArray []),
               (''metrics'', JArray [JString ''count'', JString ''sum'', JString ''avg''])])"
| "builder_ports num WindowNode =
     ([''in''], [''window''],
      JObject [(''size_ms'', JNumber (num 60000)), (''window_type'', JString ''tumbling'')])"
| "builder_ports num ValidateNode = ([''in''], [''valid'', ''invalid''], JObject [(''schema_id'', JNull)])"
| "builder_ports num DeadLetterRouter =
     ([''failed''], [''dlq''], JObject [(''max_retries'', JNumber (num 3))])"
| "builder_ports num SinkNode =
     ([''in''], [], JObject [(''connector_id'', JNull), (''table'', JString ''output'')])"

definition builder_for_kind :: "(nat \<Rightarrow> 'n) \<Rightarrow> uuid \<Rightarrow> pipeline_node_kind \<Rightarrow> 'n builder_node" where
  "builder_for_kind num fresh kind =
     (let (inputs, outputs, params) = builder_ports num kind
      in \<lparr>bn_id = fresh, bn_kind = kind, bn_node_kind_str = node_kind_str kind,
          bn_display_name = node_display_name kind, bn_description = node_description kind,
          bn_default_params = params, bn_input_ports = inputs, bn_output_ports = outputs\<rparr>)"

type_synonym 'n builder_nodes = "(uuid, 'n builder_node) om"

definition register_builder :: "'n builder_node \<Rightarrow> 'n builder_nodes \<Rightarrow> 'n builder_nodes" where
  "register_builder n m = om_insert (bn_id n) n m"

definition default_builders :: "(nat \<Rightarrow> 'n) \<Rightarrow> (pipeline_node_kind \<Rightarrow> uuid) \<Rightarrow> 'n builder_nodes" where
  "default_builders num fresh =
     fold (\<lambda>kind. register_builder (builder_for_kind num (fresh kind) kind))
       [SourceNode, MapNode, FilterNode, ReduceNode, AggregateNode, WindowNode, ValidateNode,
        DeadLetterRouter, SinkNode] om_empty"

definition get_builder :: "'n builder_nodes \<Rightarrow> uuid \<Rightarrow> 'n builder_node option" where
  "get_builder m k = om_get m k"

definition all_builders :: "'n builder_nodes \<Rightarrow> 'n builder_node list" where
  "all_builders m = om_values m"

section \<open>Storage connectors\<close>

datatype connector_kind = Postgresql | Mysql | Mongodb | Redis | S3Compatible | LocalFilesystem | Ipfs

primrec connector_kind_str :: "connector_kind \<Rightarrow> string" where
  "connector_kind_str Postgresql = ''postgresql''"
| "connector_kind_str Mysql = ''mysql''"
| "connector_kind_str Mongodb = ''mongodb''"
| "connector_kind_str Redis = ''redis''"
| "connector_kind_str S3Compatible = ''s3_compatible''"
| "connector_kind_str LocalFilesystem = ''local_filesystem''"
| "connector_kind_str Ipfs = ''ipfs''"

primrec connector_display_name :: "connector_kind \<Rightarrow> string" where
  "connector_display_name Postgresql = ''PostgreSQL''"
| "connector_display_name Mysql = ''MySQL / MariaDB''"
| "connector_display_name Mongodb = ''MongoDB''"
| "connector_display_name Redis = ''Redis''"
| "connector_display_name S3Compatible = ''S3-Compatible Object Storage''"
| "connector_display_name LocalFilesystem = ''Local Filesystem''"
| "connector_display_name Ipfs = ''IPFS''"

record 'n storage_connector =
  sg_id :: uuid
  sg_name :: string
  sg_kind :: connector_kind
  sg_params :: "'n json"
  sg_registered_at_ms :: u64

definition new_storage_connector ::
  "uuid \<Rightarrow> u64 \<Rightarrow> string \<Rightarrow> connector_kind \<Rightarrow> 'n json \<Rightarrow> 'n storage_connector" where
  "new_storage_connector fresh now name kind params =
     \<lparr>sg_id = fresh, sg_name = name, sg_kind = kind, sg_params = params, sg_registered_at_ms = now\<rparr>"

record 'n connector_store =
  co_connectors :: "(uuid, 'n storage_connector) om"
  co_has_log :: bool

definition register_connector ::
  "env \<Rightarrow> 'n storage_connector \<Rightarrow> 'n connector_store \<times> 'j action_log
     \<Rightarrow> uuid \<times> 'n connector_store \<times> 'j action_log" where
  "register_connector e c = (\<lambda>(m, l).
     (sg_id c, m\<lparr>co_connectors := om_insert (sg_id c) c (co_connectors m)\<rparr>,
      if co_has_log m
      then append_log (new_entry e StorageConnectorRegistered System None None
             [(''connector_id'', PId (sg_id c)), (''name'', PText (sg_name c)),
              (''kind'', PText (connector_kind_str (sg_kind c)))]) l
      else l))"

definition get_connector :: "'n connector_store \<Rightarrow> uuid \<Rightarrow> 'n storage_connector option" where
  "get_connector m k = om_get (co_connectors m) k"

definition all_connectors :: "'n connector_store \<Rightarrow> 'n storage_connector list" where
  "all_connectors m = om_values (co_connectors m)"

definition remove_connector :: "uuid \<Rightarrow> 'n connector_store \<Rightarrow> bool \<times> 'n connector_store" where
  "remove_connector k m =
     (om_contains (co_connectors m) k, m\<lparr>co_connectors := om_remove k (co_connectors m)\<rparr>)"

section \<open>Registry\<close>

record 'n pipeline_registry =
  pr_pipelines :: "uuid \<rightharpoonup> 'n pipeline_def"
  pr_versions :: "uuid \<rightharpoonup> 'n transform_version list"
  pr_log :: "'n json action_log"
  pr_schemas :: data_schemas
  pr_checkpoints :: "'n checkpoint_store"
  pr_lineage :: "lineage_record list"
  pr_dlq :: "'n dead_letters"
  pr_connectors :: "'n connector_store"
  pr_builder :: "'n builder_nodes"
  pr_optimizer :: "pipeline_metrics list"

definition new_pipeline_registry ::
  "(nat \<Rightarrow> 'n) \<Rightarrow> (pipeline_node_kind \<Rightarrow> uuid) \<Rightarrow> 'n json action_log \<Rightarrow> 'n pipeline_registry" where
  "new_pipeline_registry num fresh l =
     \<lparr>pr_pipelines = Map.empty, pr_versions = Map.empty, pr_log = l, pr_schemas = om_empty,
      pr_checkpoints = Map.empty, pr_lineage = [], pr_dlq = [],
      pr_connectors = \<lparr>co_connectors = om_empty, co_has_log = True\<rparr>,
      pr_builder = default_builders num fresh, pr_optimizer = []\<rparr>"

definition log_pipeline ::
  "env \<Rightarrow> event_type \<Rightarrow> dimension_id option \<Rightarrow> task_id option \<Rightarrow> 'n json payload
     \<Rightarrow> 'n pipeline_registry \<Rightarrow> 'n pipeline_registry" where
  "log_pipeline e ev d t p r = r\<lparr>pr_log := append_log (new_entry e ev System d t p) (pr_log r)\<rparr>"

definition register_pipeline ::
  "env \<Rightarrow> 'n pipeline_def \<Rightarrow> 'n pipeline_registry \<Rightarrow> uuid \<times> 'n pipeline_registry" where
  "register_pipeline e p r =
     (let r1 = log_pipeline e PipelineCreated (Some (pl_dimension_id p)) None
                 [(''pipeline_id'', PId (pl_id p)), (''name'', PText (pl_name p)),
                  (''version'', PNum (ucast (pl_version p)))] r
      in (pl_id p, r1\<lparr>pr_pipelines := (pr_pipelines r1)(pl_id p \<mapsto> p)\<rparr>))"

definition get_pipeline ::
  "'n pipeline_registry \<Rightarrow> uuid \<Rightarrow> pipeline_error + 'n pipeline_def" where
  "get_pipeline r k =
     (case pr_pipelines r k of None \<Rightarrow> Inl (PipelineNotFound k) | Some p \<Rightarrow> Inr p)"

definition versions_for_pipeline :: "'n pipeline_registry \<Rightarrow> uuid \<Rightarrow> 'n transform_version list" where
  "versions_for_pipeline r k = (case pr_versions r k of None \<Rightarrow> [] | Some vs \<Rightarrow> vs)"

definition update_pipeline ::
  "env \<Rightarrow> uuid \<Rightarrow> u64 \<Rightarrow> 'n pipeline_def \<Rightarrow> string \<Rightarrow> string \<Rightarrow> 'n pipeline_registry
     \<Rightarrow> (pipeline_error, 'n transform_version, 'n pipeline_registry) outcome" where
  "update_pipeline e fresh now p author description r =
     (let version = capture_version fresh now p author description;
          r1 = log_pipeline e TransformVersionSaved (Some (pl_dimension_id p)) None
                 [(''pipeline_id'', PId (pl_id p)), (''version'', PNum (ucast (pl_version p))),
                  (''version_record_id'', PId (tv_id version))] r;
          r2 = r1\<lparr>pr_versions := (pr_versions r1)(pl_id p \<mapsto> versions_for_pipeline r1 (pl_id p) @ [version])\<rparr>
      in (Inr version, r2\<lparr>pr_pipelines := (pr_pipelines r2)(pl_id p \<mapsto> p)\<rparr>))"

definition replay_version ::
  "env \<Rightarrow> 'n replay_request \<Rightarrow> 'n pipeline_registry
     \<Rightarrow> (pipeline_error, 'n transform_version \<times> 'n json list, 'n pipeline_registry) outcome" where
  "replay_version e rq r =
     (case get_pipeline r (rr_pipeline_id rq) of
        Inl err \<Rightarrow> (Inl err, r)
      | Inr _ \<Rightarrow>
          (case Option.bind (pr_versions r (rr_pipeline_id rq)) (find (\<lambda>v. tv_version v = rr_version rq)) of
             None \<Rightarrow> (Inl (VersionNotFound (rr_pipeline_id rq) (rr_version rq)), r)
           | Some version \<Rightarrow>
               (Inr (version, rr_input_records rq),
                log_pipeline e TransformReplayRequested None (Some (rr_task_id rq))
                  [(''pipeline_id'', PId (rr_pipeline_id rq)), (''version'', PNum (ucast (rr_version rq))),
                   (''record_count'', PNum (of_nat (List.length (rr_input_records rq))))] r)))"

definition save_checkpoint ::
  "env \<Rightarrow> uuid \<Rightarrow> u64 \<Rightarrow> uuid \<Rightarrow> usize \<Rightarrow> u64 \<Rightarrow> 'n json \<Rightarrow> 'n pipeline_registry
     \<Rightarrow> (pipeline_error, 'n pipeline_checkpoint, 'n pipeline_registry) outcome" where
  "save_checkpoint e fresh now p completed processed snapshot r =
     (case get_pipeline r p of
        Inl err \<Rightarrow> (Inl err, r)
      | Inr _ \<Rightarrow>
          let c = new_checkpoint fresh now p completed processed snapshot;
              r1 = log_pipeline e PipelineCheckpointed None None
                     [(''pipeline_id'', PId p), (''completed_step_index'', PNum completed),
                      (''processed_count'', PNum processed)] r
          in (Inr c, r1\<lparr>pr_checkpoints := store_checkpoint c (pr_checkpoints r1)\<rparr>))"

definition resume_from_checkpoint ::
  "env \<Rightarrow> uuid \<Rightarrow> 'n pipeline_registry
     \<Rightarrow> (pipeline_error, 'n pipeline_checkpoint, 'n pipeline_registry) outcome" where
  "resume_from_checkpoint e p r =
     (case get_checkpoint (pr_checkpoints r) p of
        None \<Rightarrow> (Inl (CheckpointNotFound p), r)
      | Some c \<Rightarrow>
          (case get_pipeline r p of
             Inl err \<Rightarrow> (Inl err, r)
           | Inr pl \<Rightarrow>
               (Inr c, log_pipeline e PipelineResumed (Some (pl_dimension_id pl)) None
                         [(''pipeline_id'', PId p),
                          (''resumed_from_step_index'', PNum (pc_completed_step_index c)),
                          (''processed_count'', PNum (pc_processed_count c))] r)))"

end
