(* ===== verification/Pipeline_Claims.thy ===== *)
theory Pipeline_Claims
  imports Pipeline_Registry
begin

text \<open>
  The calls of a pipeline registry as one type, what every call keeps, and the properties: recorded
  versions, lineage and log entries are never lost or rewritten, a version replays as captured, a
  checkpoint resumes as saved; watermarks and batch advice.
\<close>

datatype 'n pipeline_call =
    RegisterPipeline env "'n pipeline_def"
  | UpdatePipeline env uuid u64 "'n pipeline_def" string string
  | ReplayVersion env "'n replay_request"
  | SaveCheckpoint env uuid u64 uuid usize u64 "'n json"
  | ResumeFromCheckpoint env uuid
  | PutCheckpoint "'n pipeline_checkpoint"
  | ClearCheckpoint uuid
  | RegisterDataSchema data_schema
  | RecordLineage env lineage_record
  | EnqueueDead "'n dead_letter"
  | DrainDead
  | RegisterConnector env "'n storage_connector"
  | RemoveConnector uuid
  | RegisterBuilder "'n builder_node"
  | RecordSample pipeline_metrics

definition pipeline_act ::
  "(uuid \<Rightarrow> string) \<Rightarrow> 'n pipeline_call \<Rightarrow> 'n pipeline_registry \<Rightarrow> 'n pipeline_registry" where
  "pipeline_act to_str call r =
     (case call of
        RegisterPipeline e p \<Rightarrow> snd (register_pipeline e p r)
      | UpdatePipeline e k now p a d \<Rightarrow> after (update_pipeline e k now p a d r)
      | ReplayVersion e rq \<Rightarrow> after (replay_version e rq r)
      | SaveCheckpoint e k now p i n snapshot \<Rightarrow> after (save_checkpoint e k now p i n snapshot r)
      | ResumeFromCheckpoint e p \<Rightarrow> after (resume_from_checkpoint e p r)
      | PutCheckpoint c \<Rightarrow> r\<lparr>pr_checkpoints := store_checkpoint c (pr_checkpoints r)\<rparr>
      | ClearCheckpoint p \<Rightarrow> r\<lparr>pr_checkpoints := snd (clear_checkpoint p (pr_checkpoints r))\<rparr>
      | RegisterDataSchema s \<Rightarrow> r\<lparr>pr_schemas := snd (register_data_schema s (pr_schemas r))\<rparr>
      | RecordLineage e x \<Rightarrow>
          (let (xs, l) = record_lineage to_str e x (pr_lineage r, pr_log r)
           in r\<lparr>pr_lineage := xs, pr_log := l\<rparr>)
      | EnqueueDead x \<Rightarrow> r\<lparr>pr_dlq := enqueue_dead x (pr_dlq r)\<rparr>
      | DrainDead \<Rightarrow> r\<lparr>pr_dlq := snd (drain_dead (pr_dlq r))\<rparr>
      | RegisterConnector e c \<Rightarrow>
          (let (_, m, l) = register_connector e c (pr_connectors r, pr_log r)
           in r\<lparr>pr_connectors := m, pr_log := l\<rparr>)
      | RemoveConnector k \<Rightarrow> r\<lparr>pr_connectors := snd (remove_connector k (pr_connectors r))\<rparr>
      | RegisterBuilder n \<Rightarrow> r\<lparr>pr_builder := register_builder n (pr_builder r)\<rparr>
      | RecordSample m \<Rightarrow> r\<lparr>pr_optimizer := record_metrics m (pr_optimizer r)\<rparr>)"

lemmas pipeline_op_defs =
  register_pipeline_def update_pipeline_def replay_version_def save_checkpoint_def
  resume_from_checkpoint_def log_pipeline_def record_lineage_def register_connector_def
  remove_connector_def store_checkpoint_def clear_checkpoint_def register_data_schema_def
  enqueue_dead_def drain_dead_def register_builder_def record_metrics_def

lemma pipeline_act_log:
  "prefix (al_entries (pr_log r)) (al_entries (pr_log (pipeline_act to_str call r)))"
  by (cases call)
    (auto simp: pipeline_act_def pipeline_op_defs Let_def log_simps split: sum.split option.split)

lemma pipeline_act_versions:
  "prefix (versions_for_pipeline r p) (versions_for_pipeline (pipeline_act to_str call r) p)"
  by (cases call)
    (auto simp: pipeline_act_def pipeline_op_defs Let_def versions_for_pipeline_def split: sum.split option.split)

lemma pipeline_act_lineage: "prefix (pr_lineage r) (pr_lineage (pipeline_act to_str call r))"
  by (cases call)
    (auto simp: pipeline_act_def pipeline_op_defs Let_def split: sum.split option.split)

lemma pipeline_act_pipelines: "pr_pipelines r p \<noteq> None \<Longrightarrow> pr_pipelines (pipeline_act to_str call r) p \<noteq> None"
  by (cases call)
    (auto simp: pipeline_act_def pipeline_op_defs Let_def split: sum.split option.split)

interpretation pipeline_audit:
  audited "pipeline_act to_str" "\<lambda>r :: 'n pipeline_registry. al_entries (pr_log r)" for to_str
  by unfold_locales (rule pipeline_act_log)

interpretation version_history:
  audited "pipeline_act to_str" "\<lambda>r :: 'n pipeline_registry. versions_for_pipeline r p" for to_str p
  by unfold_locales (rule pipeline_act_versions)

interpretation lineage_history:
  audited "pipeline_act to_str" "pr_lineage :: 'n pipeline_registry \<Rightarrow> lineage_record list" for to_str
  by unfold_locales (rule pipeline_act_lineage)

text \<open>Versions belong to a known pipeline, and everything is filed under its own identifier.\<close>

definition pipeline_ok :: "'n pipeline_registry \<Rightarrow> bool" where
  "pipeline_ok r \<longleftrightarrow>
     (\<forall>p pl. pr_pipelines r p = Some pl \<longrightarrow> pl_id pl = p) \<and>
     (\<forall>p c. pr_checkpoints r p = Some c \<longrightarrow> pc_pipeline_id c = p) \<and>
     (\<forall>p. \<forall>v \<in> set (versions_for_pipeline r p). tv_pipeline_id v = p \<and> pr_pipelines r p \<noteq> None) \<and>
     om_ok (pr_schemas r) \<and> om_ok (co_connectors (pr_connectors r)) \<and> om_ok (pr_builder r)"

lemma pipeline_act_ok: "pipeline_ok r \<Longrightarrow> pipeline_ok (pipeline_act to_str call r)"
  unfolding pipeline_ok_def
  by (cases call; auto simp: pipeline_act_def pipeline_op_defs Let_def versions_for_pipeline_def om_simps
      capture_version_def new_checkpoint_def split: sum.split option.split if_splits; blast)

interpretation pipeline_wf: invariant_system "\<lambda>_ _. True" "pipeline_act to_str" pipeline_ok for to_str
  by unfold_locales (rule pipeline_act_ok)

lemma new_registry_ok: "pipeline_ok (new_pipeline_registry num fresh l)"
proof -
  have keeps: "om_ok (fold (\<lambda>k. register_builder (builder_for_kind num (fresh k) k)) ks m)" if "om_ok m" for ks m
    using that by (induction ks arbitrary: m) (simp_all add: register_builder_def om_insert_ok)
  have "om_ok (default_builders num fresh)" unfolding default_builders_def by (rule keeps) simp
  then show ?thesis by (simp add: pipeline_ok_def new_pipeline_registry_def versions_for_pipeline_def)
qed

definition pipeline_run ::
  "(uuid \<Rightarrow> string) \<Rightarrow> 'n pipeline_call list \<Rightarrow> 'n pipeline_registry \<Rightarrow> 'n pipeline_registry" where
  "pipeline_run to_str = fold (pipeline_act to_str)"

lemma pipeline_run_pipelines: "pr_pipelines r p \<noteq> None \<Longrightarrow> pr_pipelines (pipeline_run to_str ops r) p \<noteq> None"
  unfolding pipeline_run_def by (induction ops arbitrary: r) (simp_all add: pipeline_act_pipelines del: not_None_eq)

text \<open>
  Whatever is called on a registry, its log, the versions of every pipeline and the lineage only
  grow at their ends, so nothing recorded is lost or rewritten; and every recorded version belongs to
  a pipeline the registry knows, under that pipeline's identifier.
\<close>
theorem pipeline_history_kept:
  "let r = pipeline_run to_str ops (new_pipeline_registry num fresh l);
       r' = pipeline_run to_str ops' r
   in prefix (al_entries (pr_log r)) (al_entries (pr_log r')) \<and>
      prefix (versions_for_pipeline r p) (versions_for_pipeline r' p) \<and>
      prefix (pr_lineage r) (pr_lineage r') \<and>
      list_all (\<lambda>v. tv_pipeline_id v = p \<and> pr_pipelines r p \<noteq> None) (versions_for_pipeline r p)"
  using pipeline_wf.run_inv [OF new_registry_ok, of to_str ops num fresh l]
  by (simp add: pipeline_run_def pipeline_audit.run_extends version_history.run_extends
      lineage_history.run_extends pipeline_ok_def list_all_iff)

section \<open>Replay\<close>

text \<open>The lookup of a version finds the first of its number, and later versions do not hide it.\<close>

lemma find_append: "find P (xs @ ys) = (case find P xs of None \<Rightarrow> find P ys | Some x \<Rightarrow> Some x)"
  by (induction xs) auto

lemma find_prefix: "prefix xs ys \<Longrightarrow> find P xs = Some x \<Longrightarrow> find P ys = Some x"
  by (auto simp: prefix_def find_append)

lemma replay_result:
  assumes "pr_pipelines r (rr_pipeline_id rq) \<noteq> None"
  shows "result (replay_version e rq r) =
    (case find (\<lambda>v. tv_version v = rr_version rq) (versions_for_pipeline r (rr_pipeline_id rq)) of
       None \<Rightarrow> Inl (VersionNotFound (rr_pipeline_id rq) (rr_version rq))
     | Some v \<Rightarrow> Inr (v, rr_input_records rq))"
  using assms
  by (auto simp: replay_version_def get_pipeline_def versions_for_pipeline_def split: option.split)

lemma update_pipeline_views:
  "pr_pipelines (after (update_pipeline e k now p a d r)) = (pr_pipelines r)(pl_id p \<mapsto> p)"
  "versions_for_pipeline (after (update_pipeline e k now p a d r)) q =
     versions_for_pipeline r q @ (if q = pl_id p then [capture_version k now p a d] else [])"
  by (simp_all add: update_pipeline_def log_pipeline_def versions_for_pipeline_def Let_def)

text \<open>
  A version replays as it was captured. After an update saved a pipeline under a version number,
  whatever is called later, a replay of that number returns the capture made by the first update
  that used the number (its own, unless the caller reused a number) with the records unchanged.
\<close>
theorem replay_returns_first_capture:
  "let r1 = after (update_pipeline e k now p author description r);
       r2 = pipeline_run to_str ops r1;
       rq = \<lparr>rr_pipeline_id = pl_id p, rr_version = pl_version p, rr_input_records = records, rr_task_id = t\<rparr>
   in result (replay_version e' rq r2) =
        Inr (case find (\<lambda>v. tv_version v = pl_version p) (versions_for_pipeline r (pl_id p)) of
               None \<Rightarrow> capture_version k now p author description
             | Some earlier \<Rightarrow> earlier, records)"
proof -
  define r1 where "r1 = after (update_pipeline e k now p author description r)"
  define v where "v = (case find (\<lambda>v. tv_version v = pl_version p) (versions_for_pipeline r (pl_id p)) of
               None \<Rightarrow> capture_version k now p author description | Some earlier \<Rightarrow> earlier)"
  have "find (\<lambda>v. tv_version v = pl_version p) (versions_for_pipeline r1 (pl_id p)) = Some v"
    by (simp add: r1_def v_def update_pipeline_views find_append capture_version_def split: option.split)
  then have "find (\<lambda>v. tv_version v = pl_version p) (versions_for_pipeline (pipeline_run to_str ops r1) (pl_id p)) = Some v"
    unfolding pipeline_run_def by (rule find_prefix [OF version_history.run_extends])
  moreover have "pr_pipelines (pipeline_run to_str ops r1) (pl_id p) \<noteq> None"
    by (rule pipeline_run_pipelines) (simp add: r1_def update_pipeline_views)
  ultimately show ?thesis
    by (simp add: Let_def replay_result r1_def [symmetric] v_def [symmetric])
qed

section \<open>Checkpoints\<close>

definition touches_checkpoint :: "uuid \<Rightarrow> 'n pipeline_call \<Rightarrow> bool" where
  "touches_checkpoint p call =
     (case call of
        SaveCheckpoint _ _ _ q _ _ _ \<Rightarrow> q = p
      | PutCheckpoint c \<Rightarrow> pc_pipeline_id c = p
      | ClearCheckpoint q \<Rightarrow> q = p
      | _ \<Rightarrow> False)"

lemma untouched_checkpoint:
  "\<not> touches_checkpoint p call \<Longrightarrow> pr_checkpoints (pipeline_act to_str call r) p = pr_checkpoints r p"
  by (cases call)
    (auto simp: pipeline_act_def pipeline_op_defs Let_def touches_checkpoint_def new_checkpoint_def
      split: sum.split option.split)

lemma untouched_run:
  "\<not> list_ex (touches_checkpoint p) ops \<Longrightarrow> pr_checkpoints (pipeline_run to_str ops r) p = pr_checkpoints r p"
  unfolding pipeline_run_def by (induction ops arbitrary: r) (auto simp: untouched_checkpoint)

text \<open>
  A pipeline resumes where it was saved: a checkpoint of a known pipeline is what resuming
  returns, after any calls that do not save, overwrite or clear a checkpoint of that pipeline; a
  checkpoint of an unknown pipeline is refused and stores nothing.
\<close>
theorem checkpoint_resumes:
  "case save_checkpoint e k now p done_steps count snapshot r of
     (Inl err, r1) \<Rightarrow> err = PipelineNotFound p \<and> pr_pipelines r p = None \<and> r1 = r
   | (Inr c, r1) \<Rightarrow>
       (if list_ex (touches_checkpoint p) ops then True
        else result (resume_from_checkpoint e' p (pipeline_run to_str ops r1)) =
               Inr \<lparr>pc_id = k, pc_pipeline_id = p, pc_completed_step_index = done_steps,
                    pc_processed_count = count, pc_state_snapshot = snapshot, pc_saved_at_ms = now\<rparr>)"
proof (cases "pr_pipelines r p")
  case None
  then show ?thesis by (simp add: save_checkpoint_def get_pipeline_def)
next
  case (Some pl)
  define r1 where "r1 = after (save_checkpoint e k now p done_steps count snapshot r)"
  have saved: "save_checkpoint e k now p done_steps count snapshot r =
      (Inr (new_checkpoint k now p done_steps count snapshot), r1)"
    using Some by (simp add: r1_def save_checkpoint_def get_pipeline_def Let_def)
  have r1: "pr_checkpoints r1 p = Some (new_checkpoint k now p done_steps count snapshot)" "pr_pipelines r1 p \<noteq> None"
    using Some by (simp_all add: r1_def pipeline_op_defs get_pipeline_def Let_def new_checkpoint_def)
  obtain pl' where "pr_pipelines (pipeline_run to_str ops r1) p = Some pl'"
    using pipeline_run_pipelines [OF r1(2)] by blast
  then show ?thesis
    using r1(1) untouched_run [of p ops to_str r1]
    by (simp add: saved resume_from_checkpoint_def get_checkpoint_def get_pipeline_def new_checkpoint_def)
qed

section \<open>Streams and batches\<close>

text \<open>
  The low-watermark of a stream is the largest event time of the records it has seen (the
  documentation says the smallest), it never falls, and the processed counter counts the records
  modulo its width.
\<close>
theorem low_watermark_is_maximum:
  "let s = fold advance_stream xs (new_stream p)
   in sp_low_watermark_ms s = Max (insert 0 ((\<lambda>x. wm_event_time_ms (sr_watermark x)) ` set xs)) \<and>
      sp_low_watermark_ms s \<le> sp_low_watermark_ms (fold advance_stream ys s) \<and>
      unat (sp_records_processed s) = List.length xs mod 2 ^ 64 \<and> sp_records_failed s = 0"
proof -
  have mark: "sp_low_watermark_ms (fold advance_stream xs s) =
      Max (insert (sp_low_watermark_ms s) ((\<lambda>x. wm_event_time_ms (sr_watermark x)) ` set xs))"
    for s :: "'a stream_pipeline" and xs
  proof (induction xs arbitrary: s)
    case Nil
    then show ?case by simp
  next
    case (Cons x xs)
    have "sp_low_watermark_ms (advance_stream x s) =
        max (sp_low_watermark_ms s) (wm_event_time_ms (sr_watermark x))"
      by (auto simp: advance_stream_def Let_def max_def)
    then show ?case
      by (cases "set xs = {}") (simp_all add: Cons.IH Max_insert2 insert_commute max.assoc)
  qed
  have count: "sp_records_processed (fold advance_stream xs s) = sp_records_processed s + of_nat (List.length xs) \<and>
      sp_records_failed (fold advance_stream xs s) = sp_records_failed s"
    for s :: "'a stream_pipeline" and xs
    by (induction xs arbitrary: s) (simp_all add: advance_stream_def Let_def)
  show ?thesis
    using count [of xs "new_stream p"]
    by (simp add: Let_def mark new_stream_def unat_of_nat)
qed

text \<open>The advice halves the batch and stops raising the parallelism at sixteen.\<close>

lemma advise_effect:
  assumes "uint (bc_max_batch_size current) < 2 ^ 63"
  shows "let a = advise fmt history current; size = uint (bc_max_batch_size current)
    in (oa_batch_size_delta a = 0 \<or> oa_batch_size_delta a = - (size div 2) \<and> 100 < size) \<and>
       (oa_parallelism_delta a = 0 \<or> oa_parallelism_delta a = 2 \<and> uint (bc_parallelism current) < 16)"
proof -
  have "sint (bc_max_batch_size current) = uint (bc_max_batch_size current)"
    using assms uint_ge_0 [of "bc_max_batch_size current"]
    by (simp add: sint_uint, intro signed_take_bit_int_eq_self) linarith+
  then show ?thesis
    by (auto simp: advise_def Let_def word_less_def signed_divide_int_def split: list.split)
qed

lemma lag_exact:
  assumes "uint (wm_event_time_ms w) < 2 ^ 62" and "uint (wm_processing_time_ms w) < 2 ^ 62"
  shows "lag_ms w = uint (wm_processing_time_ms w) - uint (wm_event_time_ms w)"
proof -
  let ?d = "uint (wm_processing_time_ms w) - uint (wm_event_time_ms w)"
  have half: "(2::int) ^ 62 + 2 ^ 62 = 2 ^ 63" "(0::int) < 2 ^ 62" by simp_all
  have "wm_processing_time_ms w - wm_event_time_ms w = (word_of_int ?d :: u64)" by simp
  then have "lag_ms w = sint (word_of_int ?d :: u64)" by (simp only: lag_ms_def)
  also have "\<dots> = signed_take_bit 63 ?d" by (subst signed_of_int) simp
  also have "\<dots> = ?d" using assms half uint_ge_0 [of "wm_event_time_ms w"] uint_ge_0 [of "wm_processing_time_ms w"]
    by (intro signed_take_bit_int_eq_self) linarith+
  finally show ?thesis .
qed

end
