(* ===== verification/Node_Instance.thy ===== *)
theory Node_Instance
  imports Flow_Graph "HOL-Library.Char_ord" "HOL-Library.List_Lexorder"
begin

text \<open>
  Instance templates and their expansion (\<open>node_instance.rs\<close>): parameter inheritance, locking,
  cloning, forking, export and import, publishing, and the registry with its log entries.

  \<open>encode\<close> and \<open>decode\<close> are \<open>serde_json\<close>'s text form of a template, \<open>to_str\<close> the text form of an
  identifier; the identifiers drawn while a template is expanded are a function of the position of
  the node. The clock is read once per operation.
\<close>

section \<open>Templates\<close>

datatype instance_error =
    TemplateNotFound uuid
  | InstanceNotFound uuid
  | TemplateReadOnly uuid
  | FrozenParam uuid string
  | Serialisation string
  | MigrationFailed u32 u32 string

datatype param_inheritance = Frozen | Overridable | InstanceOnly

record 'j param_schema =
  px_name :: string
  px_description :: string
  px_inheritance :: param_inheritance
  px_default_value :: "'j option"
  px_required :: bool

definition overridable_param :: "string \<Rightarrow> 'j \<Rightarrow> 'j param_schema" where
  "overridable_param name v =
     \<lparr>px_name = name, px_description = '''', px_inheritance = Overridable,
      px_default_value = Some v, px_required = False\<rparr>"

definition frozen_param :: "string \<Rightarrow> 'j \<Rightarrow> 'j param_schema" where
  "frozen_param name v =
     \<lparr>px_name = name, px_description = '''', px_inheritance = Frozen, px_default_value = Some v,
      px_required = False\<rparr>"

definition instance_only_param :: "string \<Rightarrow> 'j param_schema" where
  "instance_only_param name =
     \<lparr>px_name = name, px_description = '''', px_inheritance = InstanceOnly, px_default_value = None,
      px_required = True\<rparr>"

datatype lock_policy = Editable | ReadOnly

record template_provenance =
  tp_created_by :: string
  tp_created_at_ms :: u64
  tp_forked_from :: "uuid option"
  tp_forked_from_version :: "u32 option"
  tp_reason :: "string option"
  tp_task_id :: "string option"

definition template_for_actor :: "u64 \<Rightarrow> string \<Rightarrow> template_provenance" where
  "template_for_actor now actor =
     \<lparr>tp_created_by = actor, tp_created_at_ms = now, tp_forked_from = None,
      tp_forked_from_version = None, tp_reason = None, tp_task_id = None\<rparr>"

record 'j instance_template =
  it_id :: uuid
  it_version :: u32
  it_name :: string
  it_description :: string
  it_source_group_ids :: "uuid list"
  it_graph_snapshot :: "'j flow_graph_schema"
  it_param_schema :: "(string, 'j param_schema) om"
  it_lock_policy :: lock_policy
  it_provenance :: template_provenance
  it_tags :: "string list"

definition new_instance_template ::
  "uuid \<Rightarrow> u64 \<Rightarrow> string \<Rightarrow> uuid list \<Rightarrow> 'j flow_graph_schema \<Rightarrow> string \<Rightarrow> 'j instance_template" where
  "new_instance_template fresh now name ids snapshot actor =
     \<lparr>it_id = fresh, it_version = 1, it_name = name, it_description = '''',
      it_source_group_ids = ids, it_graph_snapshot = snapshot, it_param_schema = om_empty,
      it_lock_policy = Editable, it_provenance = template_for_actor now actor, it_tags = []\<rparr>"

definition with_param :: "'j param_schema \<Rightarrow> 'j instance_template \<Rightarrow> 'j instance_template" where
  "with_param s t = t\<lparr>it_param_schema := om_insert (px_name s) s (it_param_schema t)\<rparr>"

definition bump_version :: "'j instance_template \<Rightarrow> 'j instance_template" where
  "bump_version t = t\<lparr>it_version := it_version t + 1\<rparr>"

definition is_frozen :: "'j instance_template \<Rightarrow> string \<Rightarrow> bool" where
  "is_frozen t k =
     (case om_get (it_param_schema t) k of None \<Rightarrow> False | Some s \<Rightarrow> px_inheritance s = Frozen)"

definition template_defaults_of :: "'j instance_template \<Rightarrow> (string, 'j) om" where
  "template_defaults_of t =
     fold (\<lambda>s m. case px_default_value s of None \<Rightarrow> m | Some v \<Rightarrow> om_insert (px_name s) v m)
       (om_values (it_param_schema t)) om_empty"

definition resolve_params ::
  "'j instance_template \<Rightarrow> (string, 'j) om \<Rightarrow> instance_error + (string, 'j) om" where
  "resolve_params t overrides =
     (if it_lock_policy t = ReadOnly \<and> overrides \<noteq> om_empty then Inl (TemplateReadOnly (it_id t))
      else case find (is_frozen t) (om_keys overrides) of
             Some k \<Rightarrow> Inl (FrozenParam (it_id t) k)
           | None \<Rightarrow> Inr (fold (\<lambda>(k, v). om_insert k v) overrides (template_defaults_of t)))"

definition migrate_params ::
  "'j instance_template \<Rightarrow> (string, 'j) om \<Rightarrow> u32 \<Rightarrow> instance_error + (string, 'j) om" where
  "migrate_params t params from_version =
     (if it_version t < from_version
      then Inl (MigrationFailed from_version (it_version t) ''cannot downgrade parameter schema'')
      else Inr params)"

section \<open>Instances\<close>

record 'j instance_config =
  ic_params :: "(string, 'j) om"
  ic_position :: "f64 \<times> f64"
  ic_label :: "string option"

definition empty_config :: "'j instance_config" where
  "empty_config = \<lparr>ic_params = om_empty, ic_position = (0, 0), ic_label = None\<rparr>"

record 'j node_instance =
  ni_id :: uuid
  ni_template_id :: uuid
  ni_template_version :: u32
  ni_dimension_id :: dimension_id
  ni_resolved_params :: "(string, 'j) om"
  ni_config :: "'j instance_config"
  ni_nodes :: "'j graph_node list"
  ni_provenance :: node_provenance

text \<open>The copy of one node: a fresh identifier, missing parameters filled in, the actor's provenance.\<close>

definition expand_node ::
  "u64 \<Rightarrow> string \<Rightarrow> (string, 'j) om \<Rightarrow> uuid \<Rightarrow> 'j graph_node \<Rightarrow> 'j graph_node" where
  "expand_node now actor params fresh n =
     n\<lparr>gn_id := fresh, gn_parameters := om_get params ++ gn_parameters n,
       gn_provenance := for_actor now actor\<rparr>"

definition expand_nodes ::
  "u64 \<Rightarrow> string \<Rightarrow> (string, 'j) om \<Rightarrow> (nat \<Rightarrow> uuid) \<Rightarrow> 'j graph_node list \<Rightarrow> 'j graph_node list" where
  "expand_nodes now actor params node_ids ns =
     map (\<lambda>(i, n). expand_node now actor params (node_ids i) n) (zip [0..<List.length ns] ns)"

definition label_node :: "string \<Rightarrow> 'j graph_node \<Rightarrow> 'j graph_node" where
  "label_node label n = n\<lparr>gn_label := label @ ''/'' @ gn_label n\<rparr>"

text \<open>\<open>num\<close> is the decimal text of the version.\<close>

definition expand ::
  "(u32 \<Rightarrow> string) \<Rightarrow> u64 \<Rightarrow> uuid \<Rightarrow> (nat \<Rightarrow> uuid) \<Rightarrow> 'j instance_template \<Rightarrow> dimension_id
     \<Rightarrow> 'j instance_config \<Rightarrow> string \<Rightarrow> instance_error + 'j node_instance" where
  "expand num now fresh node_ids t d cfg actor =
     (case resolve_params t (ic_params cfg) of
        Inl err \<Rightarrow> Inl err
      | Inr params \<Rightarrow>
          let nodes = expand_nodes now actor params node_ids (om_values (fs_nodes (it_graph_snapshot t)));
              labelled = (case ic_label cfg of None \<Rightarrow> nodes | Some label \<Rightarrow> map (label_node label) nodes)
          in Inr \<lparr>ni_id = fresh, ni_template_id = it_id t, ni_template_version = it_version t,
                  ni_dimension_id = d, ni_resolved_params = params, ni_config = cfg,
                  ni_nodes = labelled,
                  ni_provenance = (for_actor now actor)\<lparr>np_reason :=
                    Some (''expanded from template '' @ quoted (it_name t) @ '' v'' @ num (it_version t))\<rparr>\<rparr>)"

record publish_request =
  pq_template_id :: uuid
  pq_semver :: string
  pq_changelog :: string
  pq_tags :: "string list"
  pq_publisher :: string

record publish_receipt =
  pt_publication_id :: uuid
  pt_template_id :: uuid
  pt_semver :: string
  pt_published_at_ms :: u64
  pt_url :: string

definition local_receipt ::
  "(uuid \<Rightarrow> string) \<Rightarrow> uuid \<Rightarrow> u64 \<Rightarrow> uuid \<Rightarrow> string \<Rightarrow> publish_receipt" where
  "local_receipt to_str fresh now k semver =
     \<lparr>pt_publication_id = fresh, pt_template_id = k, pt_semver = semver, pt_published_at_ms = now,
      pt_url = ''local://marketplace/templates/'' @ to_str k\<rparr>"

section \<open>Registry\<close>

record 'j instance_registry =
  ir_templates :: "(uuid, 'j instance_template) om"
  ir_instances :: "(uuid, 'j node_instance) om"
  ir_action_log :: "'j action_log"
  ir_dimension_id :: dimension_id
  ir_task_id :: task_id

definition new_instance_registry :: "dimension_id \<Rightarrow> task_id \<Rightarrow> 'j action_log \<Rightarrow> 'j instance_registry" where
  "new_instance_registry d t l =
     \<lparr>ir_templates = om_empty, ir_instances = om_empty, ir_action_log = l, ir_dimension_id = d,
      ir_task_id = t\<rparr>"

definition log_instance ::
  "env \<Rightarrow> event_type \<Rightarrow> 'j payload \<Rightarrow> 'j instance_registry \<Rightarrow> 'j instance_registry" where
  "log_instance e ev p r =
     r\<lparr>ir_action_log := log_system e ev (ir_dimension_id r) (ir_task_id r) p (ir_action_log r)\<rparr>"

definition put_template :: "'j instance_template \<Rightarrow> 'j instance_registry \<Rightarrow> 'j instance_registry" where
  "put_template t r = r\<lparr>ir_templates := om_insert (it_id t) t (ir_templates r)\<rparr>"

definition register_instance_template ::
  "env \<Rightarrow> 'j instance_template \<Rightarrow> 'j instance_registry \<Rightarrow> uuid \<times> 'j instance_registry" where
  "register_instance_template e t r =
     (it_id t, log_instance e TemplateCreated [(''template_id'', PId (it_id t))] (put_template t r))"

definition get_instance_template :: "'j instance_registry \<Rightarrow> uuid \<Rightarrow> 'j instance_template option" where
  "get_instance_template r k = om_get (ir_templates r) k"

text \<open>What a caller does through \<open>get_template_mut\<close> is the function \<open>edit\<close>.\<close>

definition edit_instance_template ::
  "('j instance_template \<Rightarrow> 'j instance_template) \<Rightarrow> uuid \<Rightarrow> 'j instance_registry \<Rightarrow> 'j instance_registry" where
  "edit_instance_template edit k r =
     (case om_get (ir_templates r) k of
        None \<Rightarrow> r
      | Some t \<Rightarrow> r\<lparr>ir_templates := om_insert k (edit t) (ir_templates r)\<rparr>)"

definition remove_instance_template ::
  "uuid \<Rightarrow> 'j instance_registry \<Rightarrow> (instance_error, 'j instance_template, 'j instance_registry) outcome" where
  "remove_instance_template k r =
     (case om_get (ir_templates r) k of
        None \<Rightarrow> (Inl (TemplateNotFound k), r)
      | Some t \<Rightarrow> (Inr t, r\<lparr>ir_templates := om_remove k (ir_templates r)\<rparr>))"

definition instantiate_template ::
  "(u32 \<Rightarrow> string) \<Rightarrow> env \<Rightarrow> u64 \<Rightarrow> uuid \<Rightarrow> (nat \<Rightarrow> uuid) \<Rightarrow> uuid \<Rightarrow> 'j instance_config \<Rightarrow> string
     \<Rightarrow> 'j instance_registry \<Rightarrow> (instance_error, uuid, 'j instance_registry) outcome" where
  "instantiate_template num e now fresh node_ids k cfg actor r =
     (case om_get (ir_templates r) k of
        None \<Rightarrow> (Inl (TemplateNotFound k), r)
      | Some t \<Rightarrow>
          (case expand num now fresh node_ids t (ir_dimension_id r) cfg actor of
             Inl err \<Rightarrow> (Inl err, r)
           | Inr i \<Rightarrow>
               (Inr (ni_id i),
                log_instance e InstanceCreated [(''instance_id'', PId (ni_id i)), (''template_id'', PId k)]
                  (r\<lparr>ir_instances := om_insert (ni_id i) i (ir_instances r)\<rparr>))))"

definition get_instance :: "'j instance_registry \<Rightarrow> uuid \<Rightarrow> 'j node_instance option" where
  "get_instance r k = om_get (ir_instances r) k"

definition remove_instance ::
  "uuid \<Rightarrow> 'j instance_registry \<Rightarrow> (instance_error, 'j node_instance, 'j instance_registry) outcome" where
  "remove_instance k r =
     (case om_get (ir_instances r) k of
        None \<Rightarrow> (Inl (InstanceNotFound k), r)
      | Some i \<Rightarrow> (Inr i, r\<lparr>ir_instances := om_remove k (ir_instances r)\<rparr>))"

definition derived_provenance ::
  "u64 \<Rightarrow> string \<Rightarrow> uuid \<Rightarrow> 'j instance_template \<Rightarrow> string \<Rightarrow> template_provenance" where
  "derived_provenance now actor k source reason =
     \<lparr>tp_created_by = actor, tp_created_at_ms = now, tp_forked_from = Some k,
      tp_forked_from_version = Some (it_version source), tp_reason = Some reason, tp_task_id = None\<rparr>"

definition clone_template ::
  "env \<Rightarrow> u64 \<Rightarrow> uuid \<Rightarrow> uuid \<Rightarrow> string \<Rightarrow> string \<Rightarrow> 'j instance_registry
     \<Rightarrow> (instance_error, uuid, 'j instance_registry) outcome" where
  "clone_template e now fresh k name actor r =
     (case om_get (ir_templates r) k of
        None \<Rightarrow> (Inl (TemplateNotFound k), r)
      | Some source \<Rightarrow>
          (Inr fresh,
           log_instance e TemplateCloned [(''source_id'', PId k), (''clone_id'', PId fresh)]
             (put_template
                (source\<lparr>it_id := fresh, it_name := name, it_version := 1, it_lock_policy := Editable,
                        it_provenance := derived_provenance now actor k source ''cloned''\<rparr>) r)))"

definition fork_template ::
  "env \<Rightarrow> u64 \<Rightarrow> uuid \<Rightarrow> uuid \<Rightarrow> string \<Rightarrow> string \<Rightarrow> 'j instance_registry
     \<Rightarrow> (instance_error, uuid, 'j instance_registry) outcome" where
  "fork_template e now fresh k name actor r =
     (case om_get (ir_templates r) k of
        None \<Rightarrow> (Inl (TemplateNotFound k), r)
      | Some source \<Rightarrow>
          (Inr fresh,
           log_instance e TemplateForked [(''source_id'', PId k), (''fork_id'', PId fresh)]
             (put_template
                (source\<lparr>it_id := fresh, it_name := name, it_lock_policy := Editable,
                        it_provenance := derived_provenance now actor k source ''forked''\<rparr>) r)))"

definition export_template ::
  "('j instance_template \<Rightarrow> string + string) \<Rightarrow> uuid \<Rightarrow> 'j instance_registry \<Rightarrow> instance_error + string" where
  "export_template encode k r =
     (case om_get (ir_templates r) k of
        None \<Rightarrow> Inl (TemplateNotFound k)
      | Some t \<Rightarrow> (case encode t of Inl err \<Rightarrow> Inl (Serialisation err) | Inr text \<Rightarrow> Inr text))"

definition import_template ::
  "(string \<Rightarrow> string + 'j instance_template) \<Rightarrow> env \<Rightarrow> string \<Rightarrow> 'j instance_registry
     \<Rightarrow> (instance_error, uuid, 'j instance_registry) outcome" where
  "import_template decode e text r =
     (case decode text of
        Inl err \<Rightarrow> (Inl (Serialisation err), r)
      | Inr t \<Rightarrow>
          (Inr (it_id t),
           log_instance e TemplateCreated [(''template_id'', PId (it_id t)), (''source'', PText ''import'')]
             (put_template t r)))"

definition prepare_publish ::
  "uuid \<Rightarrow> string \<Rightarrow> string \<Rightarrow> string \<Rightarrow> 'j instance_registry \<Rightarrow> instance_error + publish_request" where
  "prepare_publish k semver changelog publisher r =
     (case om_get (ir_templates r) k of
        None \<Rightarrow> Inl (TemplateNotFound k)
      | Some t \<Rightarrow>
          Inr \<lparr>pq_template_id = k, pq_semver = semver, pq_changelog = changelog, pq_tags = it_tags t,
               pq_publisher = publisher\<rparr>)"

definition publish_local ::
  "(uuid \<Rightarrow> string) \<Rightarrow> uuid \<Rightarrow> u64 \<Rightarrow> uuid \<Rightarrow> string \<Rightarrow> 'j instance_registry
     \<Rightarrow> instance_error + publish_receipt" where
  "publish_local to_str fresh now k semver r =
     (if \<not> om_contains (ir_templates r) k then Inl (TemplateNotFound k)
      else Inr (local_receipt to_str fresh now k semver))"

definition instances_of :: "'j instance_registry \<Rightarrow> uuid \<Rightarrow> 'j node_instance list" where
  "instances_of r k = filter (\<lambda>i. ni_template_id i = k) (om_values (ir_instances r))"

definition templates_with_tag :: "'j instance_registry \<Rightarrow> string \<Rightarrow> 'j instance_template list" where
  "templates_with_tag r tag = filter (\<lambda>t. list_ex (\<lambda>s. s = tag) (it_tags t)) (om_values (ir_templates r))"

end
