(* ===== verification/Node_Instance_Claims.thy ===== *)
theory Node_Instance_Claims
  imports Node_Instance
begin

text \<open>
  What instances inherit from their template, what a read-only or frozen template refuses and what it
  does not, and what cloning and forking do. Templates are well formed as the builders make them:
  each parameter is filed under its own name.
\<close>

definition template_ok :: "'j instance_template \<Rightarrow> bool" where
  "template_ok t \<longleftrightarrow> om_ok (it_param_schema t) \<and>
     list_all (\<lambda>(k, s). px_name s = k) (it_param_schema t)"

lemma with_param_ok: "template_ok t \<Longrightarrow> template_ok (with_param s t)"
proof -
  assume t: "template_ok t"
  then have "(k, v) \<in> set (om_insert (px_name s) s (it_param_schema t)) \<Longrightarrow> px_name v = k" for k v
    by (auto simp: template_ok_def list_all_iff om_insert_ok om_get_iff [symmetric] om_get_update
        split: if_splits dest: om_get_in_set)
  with t show "template_ok (with_param s t)"
    by (auto simp: template_ok_def with_param_def om_insert_ok list_all_iff)
qed

lemma new_template_ok: "template_ok (new_instance_template fresh now name ids snapshot actor)"
  by (simp add: template_ok_def new_instance_template_def)

section \<open>Parameters\<close>

lemma fold_put_distinct:
  assumes "om_ok m" and "distinct (om_keys kvs)"
  shows "om_ok (fold (\<lambda>(k, v). om_insert k v) kvs m)"
    and "om_get (fold (\<lambda>(k, v). om_insert k v) kvs m) = om_get m ++ om_get kvs"
proof -
  have "om_get (rev kvs) = om_get kvs"
    using assms(2) by (subst map_of_inject_set) (simp_all add: rev_map [symmetric])
  then show "om_ok (fold (\<lambda>(k, v). om_insert k v) kvs m)"
    and "om_get (fold (\<lambda>(k, v). om_insert k v) kvs m) = om_get m ++ om_get kvs"
    using om.fold_put [OF assms(1), of kvs] by simp_all
qed

text \<open>The parameters with a default, as the entries the code collects.\<close>

definition default_entries :: "'j param_schema list \<Rightarrow> (string \<times> 'j) list" where
  "default_entries ss = List.map_filter (\<lambda>s. map_option (Pair (px_name s)) (px_default_value s)) ss"

lemma default_entries_simps [simp]:
  "default_entries [] = []"
  "default_entries (s # ss) =
     (case px_default_value s of None \<Rightarrow> default_entries ss | Some v \<Rightarrow> (px_name s, v) # default_entries ss)"
  by (simp_all add: default_entries_def List.map_filter_simps split: option.split)

lemma instance_defaults_entries:
  "template_defaults_of t =
     fold (\<lambda>(k, v). om_insert k v) (default_entries (om_values (it_param_schema t))) om_empty"
proof -
  have "fold (\<lambda>s m. case px_default_value s of None \<Rightarrow> m | Some v \<Rightarrow> om_insert (px_name s) v m) ss m =
      fold (\<lambda>(k, v). om_insert k v) (default_entries ss) m" for ss :: "'a param_schema list" and m
    by (induction ss arbitrary: m) (auto split: option.split)
  then show ?thesis by (simp add: template_defaults_of_def)
qed

lemma default_entries_keys: "om_keys (default_entries ss) = map px_name (filter (\<lambda>s. px_default_value s \<noteq> None) ss)"
  by (induction ss) (auto split: option.split)

lemma default_entries_get:
  assumes "list_all (\<lambda>(k, s). px_name s = k) m" and "distinct (om_keys m)"
  shows "om_get (default_entries (om_values m)) k = Option.bind (om_get m k) px_default_value"
  using assms
proof (induction m)
  case Nil
  then show ?case by simp
next
  case (Cons x m)
  obtain j s where x: "x = (j, s)" by (cases x)
  have "om_get m j = None" using Cons.prems(2) by (auto simp: x map_of_eq_None_iff)
  then show ?case using Cons by (auto simp: x split: option.split)
qed

lemma instance_defaults_get:
  assumes "template_ok t"
  shows "om_ok (template_defaults_of t)"
    and "om_get (template_defaults_of t) k = Option.bind (om_get (it_param_schema t) k) px_default_value"
proof -
  let ?m = "it_param_schema t"
  have ok: "list_all (\<lambda>(k, s). px_name s = k) ?m" "distinct (om_keys ?m)"
    using assms om_ok_distinct by (auto simp: template_ok_def)
  have "map px_name (om_values ?m) = om_keys ?m" using ok(1) by (auto simp: list_all_iff)
  then have keys: "distinct (om_keys (default_entries (om_values ?m)))"
    using ok(2) by (metis default_entries_keys distinct_map_filter)
  show "om_ok (template_defaults_of t)"
    unfolding instance_defaults_entries by (rule fold_put_distinct [OF om_ok_Nil keys])
  show "om_get (template_defaults_of t) k = Option.bind (om_get ?m k) px_default_value"
    unfolding instance_defaults_entries fold_put_distinct(2) [OF om_ok_Nil keys]
    by (simp add: default_entries_get [OF ok])
qed

lemma resolve_params_result:
  assumes "template_ok t" and "om_ok ov"
  shows "case resolve_params t ov of
      Inl err \<Rightarrow> (it_lock_policy t = ReadOnly \<and> ov \<noteq> om_empty \<and> err = TemplateReadOnly (it_id t)) \<or>
                 (\<exists>k \<in> set (om_keys ov). is_frozen t k \<and> err = FrozenParam (it_id t) k)
    | Inr m \<Rightarrow> (it_lock_policy t = ReadOnly \<longrightarrow> ov = om_empty) \<and>
               list_all (\<lambda>k. \<not> is_frozen t k) (om_keys ov) \<and>
               om_get m = (\<lambda>k. Option.bind (om_get (it_param_schema t) k) px_default_value) ++ om_get ov"
proof -
  have "om_get (template_defaults_of t) = (\<lambda>k. Option.bind (om_get (it_param_schema t) k) px_default_value)"
    using instance_defaults_get(2) [OF assms(1)] by blast
  then show ?thesis
    using fold_put_distinct(2) [OF instance_defaults_get(1) [OF assms(1)] om_ok_distinct [OF assms(2)]]
    by (auto simp: resolve_params_def find_None_iff find_Some_iff list_all_iff split: option.split)
qed

section \<open>Instances\<close>

lemma map_labelled:
  assumes "\<And>x n. g (label_node x n) = g n"
  shows "map g (case l of None \<Rightarrow> ns | Some x \<Rightarrow> map (label_node x) ns) = map g ns"
  using assms by (simp split: option.split)

lemma expanded_nodes:
  "map gn_id (expand_nodes now actor m node_ids ns) = map node_ids [0..<List.length ns]"
  "map (\<lambda>n. (gn_kind n, gn_ports n)) (expand_nodes now actor m node_ids ns) = map (\<lambda>n. (gn_kind n, gn_ports n)) ns"
  "map gn_parameters (expand_nodes now actor m node_ids ns) = map (\<lambda>n. om_get m ++ gn_parameters n) ns"
  by (rule nth_equalityI; simp add: expand_nodes_def expand_node_def)+

text \<open>
  C34: What an instance inherits. Expansion refuses overrides of a read-only template and of frozen
  parameters, and nothing else. Otherwise the instance's parameters are the defaults with the
  overrides on top (so a frozen parameter has the template's value), and its nodes are the template's
  in order, each under a new identifier with its ports and kind kept; a node keeps the parameters it
  sets itself, so neither defaults nor overrides reach those.
\<close>
theorem instance_inherits:
  "let sources = om_values (fs_nodes (it_graph_snapshot t));
       defaults = (\<lambda>k. Option.bind (om_get (it_param_schema t) k) px_default_value);
       ov = ic_params cfg
   in if template_ok t \<and> om_ok ov then
        case expand num now fresh node_ids t d cfg actor of
          Inl err \<Rightarrow>
            (it_lock_policy t = ReadOnly \<and> ov \<noteq> om_empty \<and> err = TemplateReadOnly (it_id t)) \<or>
            (\<exists>k \<in> set (om_keys ov). is_frozen t k \<and> err = FrozenParam (it_id t) k)
        | Inr i \<Rightarrow>
            (it_lock_policy t = Editable \<or> it_lock_policy t = ReadOnly \<and> ov = om_empty) \<and>
            list_all (\<lambda>k. \<not> is_frozen t k) (om_keys ov) \<and>
            om_get (ni_resolved_params i) = defaults ++ om_get ov \<and>
            map gn_id (ni_nodes i) = map node_ids [0..<List.length sources] \<and>
            map (\<lambda>n. (gn_kind n, gn_ports n)) (ni_nodes i) = map (\<lambda>n. (gn_kind n, gn_ports n)) sources \<and>
            map gn_parameters (ni_nodes i) = map (\<lambda>n. (defaults ++ om_get ov) ++ gn_parameters n) sources \<and>
            ni_template_id i = it_id t \<and> ni_template_version i = it_version t
      else True"
proof (cases "template_ok t \<and> om_ok (ic_params cfg)")
  case True
  let ?sources = "om_values (fs_nodes (it_graph_snapshot t))"
  show ?thesis
  proof (cases "resolve_params t (ic_params cfg)")
    case (Inl err)
    then show ?thesis
      using True resolve_params_result [of t "ic_params cfg"] by (simp add: expand_def)
  next
    case (Inr m)
    obtain i where i: "expand num now fresh node_ids t d cfg actor = Inr i"
      and nodes: "ni_nodes i = (case ic_label cfg of None \<Rightarrow> expand_nodes now actor m node_ids ?sources
        | Some x \<Rightarrow> map (label_node x) (expand_nodes now actor m node_ids ?sources))"
      and rest: "ni_resolved_params i = m" "ni_template_id i = it_id t" "ni_template_version i = it_version t"
      by (simp add: expand_def Inr Let_def)
    show ?thesis
      using True resolve_params_result [of t "ic_params cfg"]
      by (cases "it_lock_policy t") (simp_all add: i Inr rest Let_def nodes map_labelled label_node_def expanded_nodes)
  qed
next
  case False
  then show ?thesis unfolding Let_def by (subst if_not_P) simp_all
qed

text \<open>
  Required parameters are not enforced. Instantiating a template without any override succeeds
  whenever the template exists, whatever parameters it declares as required, and leaves a required
  parameter without default unset.
\<close>
theorem required_params_unchecked:
  "case instantiate_template num e now fresh node_ids k (empty_config\<lparr>ic_label := label\<rparr>) actor r of
     (Inl err, r') \<Rightarrow> get_instance_template r k = None \<and> err = TemplateNotFound k \<and> r' = r
   | (Inr i, r') \<Rightarrow>
       (\<exists>t inst. get_instance_template r k = Some t \<and> i = fresh \<and>
          ir_instances r' = om_insert fresh inst (ir_instances r) \<and>
          (if template_ok t then
             {p. \<exists>s. om_get (it_param_schema t) p = Some s \<and> px_required s \<and> px_default_value s = None}
               \<subseteq> {p. om_get (ni_resolved_params inst) p = None}
           else True))"
proof (cases "om_get (ir_templates r) k")
  case None
  then show ?thesis by (simp add: instantiate_template_def get_instance_template_def)
next
  case (Some t)
  define cfg :: "'a instance_config" where "cfg = empty_config\<lparr>ic_label := label\<rparr>"
  have "resolve_params t (ic_params cfg) = Inr (template_defaults_of t)"
    by (simp add: resolve_params_def cfg_def empty_config_def)
  then obtain inst where inst: "expand num now fresh node_ids t (ir_dimension_id r) cfg actor = Inr inst"
    and id: "ni_id inst = fresh" and params: "ni_resolved_params inst = template_defaults_of t"
    by (simp add: expand_def Let_def)
  have "{p. \<exists>s. om_get (it_param_schema t) p = Some s \<and> px_required s \<and> px_default_value s = None}
      \<subseteq> {p. om_get (ni_resolved_params inst) p = None}" if "template_ok t"
    by (auto simp: params instance_defaults_get(2) [OF that])
  then show ?thesis
    unfolding cfg_def [symmetric]
    by (simp add: instantiate_template_def Some inst id get_instance_template_def log_instance_def)
      (rule exI [of _ inst], simp)
qed

section \<open>Runs\<close>

datatype 'j instance_call =
    RegisterTemplate env "'j instance_template"
  | EditTemplate "'j instance_template \<Rightarrow> 'j instance_template" uuid
  | RemoveTemplate uuid
  | Instantiate env u64 uuid "nat \<Rightarrow> uuid" uuid "'j instance_config" string
  | RemoveInstance uuid
  | CloneTemplate env u64 uuid uuid string string
  | ForkTemplate env u64 uuid uuid string string
  | ImportTemplate env string

definition instance_step ::
  "(u32 \<Rightarrow> string) \<Rightarrow> (string \<Rightarrow> string + 'j instance_template) \<Rightarrow> 'j instance_call
     \<Rightarrow> 'j instance_registry \<Rightarrow> 'j instance_registry" where
  "instance_step num decode call r =
     (case call of
        RegisterTemplate e t \<Rightarrow> snd (register_instance_template e t r)
      | EditTemplate edit k \<Rightarrow> edit_instance_template edit k r
      | RemoveTemplate k \<Rightarrow> after (remove_instance_template k r)
      | Instantiate e now fresh ids k cfg actor \<Rightarrow> after (instantiate_template num e now fresh ids k cfg actor r)
      | RemoveInstance k \<Rightarrow> after (remove_instance k r)
      | CloneTemplate e now fresh k name actor \<Rightarrow> after (clone_template e now fresh k name actor r)
      | ForkTemplate e now fresh k name actor \<Rightarrow> after (fork_template e now fresh k name actor r)
      | ImportTemplate e text \<Rightarrow> after (import_template decode e text r))"

lemmas instance_op_defs =
  register_instance_template_def edit_instance_template_def remove_instance_template_def
  instantiate_template_def remove_instance_def clone_template_def fork_template_def import_template_def
  log_instance_def put_template_def

definition instances_ok :: "'j instance_registry \<Rightarrow> bool" where
  "instances_ok r \<longleftrightarrow> om_ok (ir_templates r) \<and> om_ok (ir_instances r) \<and> identified ni_id (ir_instances r)"

lemma instance_step_ok: "instances_ok r \<Longrightarrow> instances_ok (instance_step num decode call r)"
  unfolding instances_ok_def
  by (cases call)
    (auto simp: instance_step_def instance_op_defs om_simps identified_insert identified_remove
      split: option.split sum.split)

lemma instance_step_log:
  "prefix (al_entries (ir_action_log r)) (al_entries (ir_action_log (instance_step num decode call r)))"
  by (cases call)
    (auto simp: instance_step_def instance_op_defs log_simps split: option.split sum.split)

interpretation instance_wf:
  invariant_system "\<lambda>_ _. True" "instance_step num decode" instances_ok for num decode
  by unfold_locales (rule instance_step_ok)

interpretation instance_audit:
  audited "instance_step num decode" "\<lambda>r :: 'j instance_registry. al_entries (ir_action_log r)" for num decode
  by unfold_locales (rule instance_step_log)

definition instance_run ::
  "(u32 \<Rightarrow> string) \<Rightarrow> (string \<Rightarrow> string + 'j instance_template) \<Rightarrow> 'j instance_call list
     \<Rightarrow> 'j instance_registry \<Rightarrow> 'j instance_registry" where
  "instance_run num decode = fold (instance_step num decode)"

text \<open>After any run the registry is well formed, and its log has only grown.\<close>

lemma instance_run_ok:
  "instances_ok (instance_run num decode calls (new_instance_registry d t l))"
  "prefix (al_entries l) (al_entries (ir_action_log (instance_run num decode calls (new_instance_registry d t l))))"
  using instance_wf.run_inv [of "new_instance_registry d t l" num decode calls]
    instance_audit.run_extends [of "new_instance_registry d t l" num decode calls]
  by (simp_all add: instance_run_def new_instance_registry_def instances_ok_def identified_def)

section \<open>Cloning, forking, sharing\<close>

lemma derived_get:
  "om_ok (ir_templates r) \<Longrightarrow>
     om_get (ir_templates (log_instance e ev p (put_template t r))) = (om_get (ir_templates r))(it_id t \<mapsto> t)"
  by (simp add: log_instance_def put_template_def om_get_insert)

text \<open>
  A clone or a fork is an editable copy under a new identifier that records its source and the
  source's version; its parameters, frozen ones included, and its graph are the source's, a clone
  starts at version 1 and a fork at the source's version, and every other template stays as it was,
  after any run of the registry.
\<close>
theorem derived_template_spec:
  "let r = instance_run num decode calls (new_instance_registry d tid l);
       derived = (\<lambda>source reason version.
         source\<lparr>it_id := fresh, it_name := name, it_version := version, it_lock_policy := Editable,
           it_provenance := \<lparr>tp_created_by = actor, tp_created_at_ms = now, tp_forked_from = Some k,
             tp_forked_from_version = Some (it_version source), tp_reason = Some reason, tp_task_id = None\<rparr>\<rparr>);
       outcome = (\<lambda>res reason version.
         case get_instance_template r k of
           None \<Rightarrow> res = (Inl (TemplateNotFound k), r)
         | Some source \<Rightarrow>
             result res = Inr fresh \<and>
             get_instance_template (after res) =
               (get_instance_template r)(fresh \<mapsto> derived source reason (version source)) \<and>
             List.length (al_entries (ir_action_log (after res))) = List.length (al_entries (ir_action_log r)) + 1 \<and>
             resolve_params (derived source reason (version source)) ov =
               (case find (is_frozen source) (om_keys ov) of
                  Some p \<Rightarrow> Inl (FrozenParam fresh p)
                | None \<Rightarrow> resolve_params (source\<lparr>it_lock_policy := Editable\<rparr>) ov))
   in outcome (clone_template e now fresh k name actor r) ''cloned'' (\<lambda>_. 1) \<and>
      outcome (fork_template e now fresh k name actor r) ''forked'' it_version"
proof -
  define r where "r = instance_run num decode calls (new_instance_registry d tid l)"
  have r: "om_ok (ir_templates r)"
    using instance_run_ok(1) [of num decode calls d tid l] by (simp add: r_def instances_ok_def)
  have frozen: "is_frozen (t\<lparr>it_id := a, it_name := b, it_version := c, it_lock_policy := d, it_provenance := f\<rparr>) = is_frozen t"
    "is_frozen (t\<lparr>it_id := a, it_name := b, it_lock_policy := d, it_provenance := f\<rparr>) = is_frozen t"
    "is_frozen (t\<lparr>it_lock_policy := d\<rparr>) = is_frozen t" for t :: "'a instance_template" and a b c d f
    by (auto simp: is_frozen_def fun_eq_iff)
  have defaults: "template_defaults_of (t\<lparr>it_id := a, it_name := b, it_version := c, it_lock_policy := d, it_provenance := f\<rparr>)
      = template_defaults_of t"
    "template_defaults_of (t\<lparr>it_id := a, it_name := b, it_lock_policy := d, it_provenance := f\<rparr>) = template_defaults_of t"
    "template_defaults_of (t\<lparr>it_lock_policy := d\<rparr>) = template_defaults_of t"
    for t :: "'a instance_template" and a b c d f
    by (simp_all add: template_defaults_of_def)
  have log: "List.length (al_entries (ir_action_log (log_instance e ev p (put_template t r)))) =
      List.length (al_entries (ir_action_log r)) + 1" for ev p t and r :: "'a instance_registry"
    by (simp add: log_instance_def put_template_def log_simps)
  have get: "get_instance_template q = om_get (ir_templates q)" for q :: "'a instance_registry"
    by (simp add: get_instance_template_def fun_eq_iff)
  show ?thesis
    unfolding r_def [symmetric] Let_def
    by (simp add: r get clone_template_def fork_template_def derived_provenance_def log derived_get
        resolve_params_def frozen defaults split: option.split)
qed

text \<open>Export followed by import, for a text form that can be read back.\<close>

lemma export_import:
  assumes "\<And>t text. encode t = Inr text \<Longrightarrow> decode text = Inr t"
    and "export_template encode k r = Inr text" and "om_ok (ir_templates q)"
  shows "\<exists>t. get_instance_template r k = Some t \<and>
    result (import_template decode e text q) = Inr (it_id t) \<and>
    get_instance_template (after (import_template decode e text q)) (it_id t) = Some t"
  using assms
  by (auto simp: export_template_def import_template_def get_instance_template_def derived_get
      split: option.splits sum.splits)

end
