(* ===== verification/Graph_Query.thy ===== *)
theory Graph_Query
  imports Flow_Graph Float_Order "HOL-Library.Char_ord" "HOL-Library.List_Lexorder"
begin

text \<open>
  Node selection, sampling and messages between nodes (\<open>graph_query.rs\<close>).

  A slice with its start behind its end panics, which is \<open>None\<close>. The conversions and the arithmetic
  of floats that \<open>scale\<close> uses are arguments. A map of inboxes is a partial map; the total over all
  inboxes is taken over the nodes given.
\<close>

section \<open>Conditions\<close>

datatype 'j node_condition =
    KindEq string
  | LabelContains string
  | LabelEq string
  | ParamEq string 'j
  | ParamExists string
  | InGroup uuid
  | HasInputPort
  | HasOutputPort
  | HasPortOfType port_data_type
  | HasPortMatching port_direction port_data_type
  | IsSubgraphRef
  | CondNot "'j node_condition"
  | CondAnd "'j node_condition list"
  | CondOr "'j node_condition list"

text \<open>\<open>str::contains\<close>.\<close>

definition contains_text :: "string \<Rightarrow> string \<Rightarrow> bool" where
  "contains_text label part = list_ex (\<lambda>i. take (List.length part) (drop i label) = part) [0..<Suc (List.length label)]"

fun matches_condition :: "'j flow_graph_schema \<Rightarrow> 'j graph_node \<Rightarrow> 'j node_condition \<Rightarrow> bool" where
  "matches_condition s n (KindEq k) = (gn_kind n = k)"
| "matches_condition s n (LabelContains part) = contains_text (gn_label n) part"
| "matches_condition s n (LabelEq l) = (gn_label n = l)"
| "matches_condition s n (ParamEq key v) = (gn_parameters n key = Some v)"
| "matches_condition s n (ParamExists key) = (gn_parameters n key \<noteq> None)"
| "matches_condition s n (InGroup g) =
     (case om_get (fs_groups s) g of None \<Rightarrow> False | Some grp \<Rightarrow> gn_id n \<in> gp_node_ids grp)"
| "matches_condition s n HasInputPort = list_ex (\<lambda>p. pd_direction p = In) (om_values (gn_ports n))"
| "matches_condition s n HasOutputPort = list_ex (\<lambda>p. pd_direction p = Out) (om_values (gn_ports n))"
| "matches_condition s n (HasPortOfType t) = list_ex (\<lambda>p. pd_data_type p = t) (om_values (gn_ports n))"
| "matches_condition s n (HasPortMatching d t) =
     list_ex (\<lambda>p. pd_direction p = d \<and> pd_data_type p = t) (om_values (gn_ports n))"
| "matches_condition s n IsSubgraphRef = is_subgraph_ref n"
| "matches_condition s n (CondNot c) = (\<not> matches_condition s n c)"
| "matches_condition s n (CondAnd cs) = list_all (\<lambda>c. matches_condition s n c) cs"
| "matches_condition s n (CondOr cs) = list_ex (\<lambda>c. matches_condition s n c) cs"

type_synonym 'j node_selector = "'j node_condition list"

definition new_selector :: "'j node_selector" where
  "new_selector = []"

definition with_condition :: "'j node_condition \<Rightarrow> 'j node_selector \<Rightarrow> 'j node_selector" where
  "with_condition c sel = sel @ [c]"

definition with_kind :: "string \<Rightarrow> 'j node_selector \<Rightarrow> 'j node_selector" where
  "with_kind k sel = with_condition (KindEq k) sel"

definition with_label_containing :: "string \<Rightarrow> 'j node_selector \<Rightarrow> 'j node_selector" where
  "with_label_containing part sel = with_condition (LabelContains part) sel"

definition with_label :: "string \<Rightarrow> 'j node_selector \<Rightarrow> 'j node_selector" where
  "with_label l sel = with_condition (LabelEq l) sel"

definition with_param_eq :: "string \<Rightarrow> 'j \<Rightarrow> 'j node_selector \<Rightarrow> 'j node_selector" where
  "with_param_eq key v sel = with_condition (ParamEq key v) sel"

definition with_param_exists :: "string \<Rightarrow> 'j node_selector \<Rightarrow> 'j node_selector" where
  "with_param_exists key sel = with_condition (ParamExists key) sel"

definition in_group :: "uuid \<Rightarrow> 'j node_selector \<Rightarrow> 'j node_selector" where
  "in_group g sel = with_condition (InGroup g) sel"

definition having_input_port :: "'j node_selector \<Rightarrow> 'j node_selector" where
  "having_input_port sel = with_condition HasInputPort sel"

definition having_output_port :: "'j node_selector \<Rightarrow> 'j node_selector" where
  "having_output_port sel = with_condition HasOutputPort sel"

definition having_port_of_type :: "port_data_type \<Rightarrow> 'j node_selector \<Rightarrow> 'j node_selector" where
  "having_port_of_type t sel = with_condition (HasPortOfType t) sel"

definition having_port_matching :: "port_direction \<Rightarrow> port_data_type \<Rightarrow> 'j node_selector \<Rightarrow> 'j node_selector" where
  "having_port_matching d t sel = with_condition (HasPortMatching d t) sel"

definition subgraph_refs_only :: "'j node_selector \<Rightarrow> 'j node_selector" where
  "subgraph_refs_only sel = with_condition IsSubgraphRef sel"

definition apply_selector :: "'j node_selector \<Rightarrow> 'j flow_graph_schema \<Rightarrow> 'j graph_node list" where
  "apply_selector sel s = filter (\<lambda>n. list_all (matches_condition s n) sel) (om_values (fs_nodes s))"

section \<open>Samples\<close>

definition sample_range :: "nat \<Rightarrow> nat \<Rightarrow> 'j graph_node list \<Rightarrow> 'j graph_node list option" where
  "sample_range first end ns =
     (let lo = min first (List.length ns); hi = min end (List.length ns)
      in if lo \<le> hi then Some (take (hi - lo) (drop lo ns)) else None)"

definition f64_clamp :: "f64 \<Rightarrow> f64 \<Rightarrow> f64 \<Rightarrow> f64" where
  "f64_clamp lo hi x = (if f64_lt x lo then lo else if f64_lt hi x then hi else x)"

definition sample_scale ::
  "(nat \<Rightarrow> f64) \<Rightarrow> (f64 \<Rightarrow> f64 \<Rightarrow> f64) \<Rightarrow> (f64 \<Rightarrow> f64 \<Rightarrow> f64) \<Rightarrow> (f64 \<Rightarrow> nat) \<Rightarrow> f64
     \<Rightarrow> 'j graph_node list \<Rightarrow> 'j graph_node list" where
  "sample_scale of_size mul div_f floor_size factor ns =
     (if ns = [] then []
      else
        let clamped = f64_clamp 0 0x3FF0000000000000 factor;
            scaled = floor_size (mul (of_size (List.length ns)) clamped);
            target = (if scaled = 0 \<and> f64_lt 0 clamped then 1 else scaled)
        in if List.length ns \<le> target then ns
           else
             let stride = div_f (of_size (List.length ns)) (of_size target)
             in map (\<lambda>i. ns ! min (floor_size (mul (of_size i) stride)) (List.length ns - 1)) [0..<target])"

definition group_by_kind :: "'j graph_node list \<Rightarrow> (string, 'j graph_node list) om" where
  "group_by_kind ns =
     fold (\<lambda>n m. om_insert (gn_kind n) ((case om_get m (gn_kind n) of None \<Rightarrow> [] | Some xs \<Rightarrow> xs) @ [n]) m)
       ns om_empty"

definition sort_by_label :: "'j graph_node list \<Rightarrow> 'j graph_node list" where
  "sort_by_label ns = sort_key gn_label ns"

definition sort_by_id :: "'j graph_node list \<Rightarrow> 'j graph_node list" where
  "sort_by_id ns = sort_key gn_id ns"

section \<open>Messages\<close>

record 'j node_message =
  nm_id :: uuid
  nm_from_node :: uuid
  nm_to_node :: "uuid option"
  nm_channel :: string
  nm_payload :: 'j
  nm_sent_at_ms :: u64

definition message_to :: "uuid \<Rightarrow> u64 \<Rightarrow> uuid \<Rightarrow> uuid \<Rightarrow> string \<Rightarrow> 'j \<Rightarrow> 'j node_message" where
  "message_to fresh now src to channel payload =
     \<lparr>nm_id = fresh, nm_from_node = src, nm_to_node = Some to, nm_channel = channel,
      nm_payload = payload, nm_sent_at_ms = now\<rparr>"

definition message_broadcast :: "uuid \<Rightarrow> u64 \<Rightarrow> uuid \<Rightarrow> string \<Rightarrow> 'j \<Rightarrow> 'j node_message" where
  "message_broadcast fresh now src channel payload =
     \<lparr>nm_id = fresh, nm_from_node = src, nm_to_node = None, nm_channel = channel,
      nm_payload = payload, nm_sent_at_ms = now\<rparr>"

record 'j node_communicator =
  nc_inbox :: "uuid \<rightharpoonup> 'j node_message list"
  nc_action_log :: "'j action_log"
  nc_dimension_id :: dimension_id
  nc_task_id :: task_id

definition new_communicator :: "dimension_id \<Rightarrow> task_id \<Rightarrow> 'j action_log \<Rightarrow> 'j node_communicator" where
  "new_communicator d t l =
     \<lparr>nc_inbox = Map.empty, nc_action_log = l, nc_dimension_id = d, nc_task_id = t\<rparr>"

definition inbox_for :: "'j node_communicator \<Rightarrow> uuid \<Rightarrow> 'j node_message list" where
  "inbox_for c n = (case nc_inbox c n of None \<Rightarrow> [] | Some ms \<Rightarrow> ms)"

definition log_message ::
  "env \<Rightarrow> event_type \<Rightarrow> 'j payload \<Rightarrow> 'j node_communicator \<Rightarrow> 'j node_communicator" where
  "log_message e ev p c =
     c\<lparr>nc_action_log := log_system e ev (nc_dimension_id c) (nc_task_id c) p (nc_action_log c)\<rparr>"

definition deliver :: "uuid \<Rightarrow> 'j node_message \<Rightarrow> 'j node_communicator \<Rightarrow> 'j node_communicator" where
  "deliver to m c = c\<lparr>nc_inbox := (nc_inbox c)(to \<mapsto> inbox_for c to @ [m])\<rparr>"

definition send_message :: "env \<Rightarrow> 'j node_message \<Rightarrow> 'j node_communicator \<Rightarrow> 'j node_communicator" where
  "send_message e m c =
     (case nm_to_node m of
        None \<Rightarrow> c
      | Some to \<Rightarrow>
          deliver to m
            (log_message e NodeMessageSent
               [(''msg_id'', PId (nm_id m)), (''from'', PId (nm_from_node m)), (''to'', PId to),
                (''channel'', PText (nm_channel m))] c))"

text \<open>The recipients come with the identifier drawn for the copy of each.\<close>

definition broadcast_message ::
  "env \<Rightarrow> u64 \<Rightarrow> uuid \<Rightarrow> string \<Rightarrow> 'j \<Rightarrow> (uuid \<times> uuid) list \<Rightarrow> 'j node_communicator
     \<Rightarrow> nat \<times> 'j node_communicator" where
  "broadcast_message e now src channel payload recipients c =
     (List.length recipients,
      fold (\<lambda>(to, fresh). deliver to (message_to fresh now src to channel payload)) recipients
        (log_message e NodeMessageBroadcast
           [(''from'', PId src), (''channel'', PText channel),
            (''recipient_count'', PNum (of_nat (List.length recipients)))] c))"

definition inbox_for_channel :: "'j node_communicator \<Rightarrow> uuid \<Rightarrow> string \<Rightarrow> 'j node_message list" where
  "inbox_for_channel c n channel = filter (\<lambda>m. nm_channel m = channel) (inbox_for c n)"

definition drain_inbox :: "uuid \<Rightarrow> 'j node_communicator \<Rightarrow> 'j node_message list \<times> 'j node_communicator" where
  "drain_inbox n c = (inbox_for c n, c\<lparr>nc_inbox := (nc_inbox c)(n := None)\<rparr>)"

definition drain_channel ::
  "uuid \<Rightarrow> string \<Rightarrow> 'j node_communicator \<Rightarrow> 'j node_message list \<times> 'j node_communicator" where
  "drain_channel n channel c =
     (case partition (\<lambda>m. nm_channel m = channel) (inbox_for c n) of
        (drained, remaining) \<Rightarrow> (drained, c\<lparr>nc_inbox := (nc_inbox c)(n \<mapsto> remaining)\<rparr>))"

definition pending_count :: "'j node_communicator \<Rightarrow> uuid \<Rightarrow> nat" where
  "pending_count c n = List.length (inbox_for c n)"

end
