(* ===== verification/Graph_Query_Claims.thy ===== *)
theory Graph_Query_Claims
  imports Graph_Query "HOL-Library.Multiset"
begin

text \<open>
  What queries over a graph and messages between its nodes give: selection is boolean logic over the
  nodes, sampling stays inside the sample, every channel of every inbox is a queue.
\<close>

section \<open>Selection and sampling\<close>

lemma sorted_filtered_ids:
  assumes "om_ok m" and "identified gn_id m"
  shows "sorted_wrt (<) (map gn_id (filter P (om_values m)))"
proof -
  have ids: "gn_id v = k" if "(k, v) \<in> set m" for k v
    using that assms by (auto simp: identified_def om_get_iff)
  have "map gn_id (om_values m) = om_keys m" using ids by auto
  then have "sorted_wrt (<) (map gn_id (om_values m))" using assms(1) by (simp only: om_ok_def)
  then show ?thesis by (simp add: sorted_wrt_map sorted_wrt_filter)
qed

text \<open>
  A selector is the conjunction of its conditions as boolean logic: every condition filters the
  result further, their order does not matter, and negation, conjunction and disjunction obey
  De Morgan. On a graph whose nodes are filed under their own identifiers the result is in identifier
  order without repetition.
\<close>
theorem selection_is_boolean:
  "apply_selector (with_condition c sel) s = filter (\<lambda>n. matches_condition s n c) (apply_selector sel s) \<and>
   apply_selector (rev sel) s = apply_selector sel s \<and>
   apply_selector [CondAnd sel] s = apply_selector sel s \<and>
   apply_selector [CondNot (CondOr sel)] s = apply_selector (map CondNot sel) s \<and>
   apply_selector [CondNot (CondAnd sel)] s = apply_selector [CondOr (map CondNot sel)] s \<and>
   apply_selector [CondNot (CondNot c)] s = apply_selector [c] s \<and>
   apply_selector new_selector s = om_values (fs_nodes s) \<and>
   (if om_ok (fs_nodes s) \<and> identified gn_id (fs_nodes s)
    then sorted_wrt (<) (map gn_id (apply_selector sel s)) else True)"
  using sorted_filtered_ids [of "fs_nodes s"]
  by (auto simp: apply_selector_def with_condition_def new_selector_def list_all_iff list_ex_iff
      intro!: filter_cong)

lemma sample_range_slice:
  "sample_range lo hi ns =
     (if hi < lo \<and> hi < List.length ns then None else Some (take (hi - lo) (drop lo ns)))"
  by (cases "lo \<le> List.length ns"; cases "hi \<le> List.length ns") (auto simp: sample_range_def Let_def)

lemma sample_scale_members:
  "set (sample_scale of_size mul div_f floor_size factor ns) \<subseteq> set ns"
proof -
  have "ns ! min j (List.length ns - 1) \<in> set ns" if "ns \<noteq> []" for j
    using that by (intro nth_mem) (simp add: min_less_iff_disj)
  then have "set (map (\<lambda>i. ns ! min (g i) (List.length ns - 1)) [0..<n]) \<subseteq> set ns" if "ns \<noteq> []" for g n
    using that by auto
  then show ?thesis by (simp add: sample_scale_def Let_def del: set_map)
qed

lemma sample_scale_length:
  "List.length (sample_scale of_size mul div_f floor_size factor ns) \<le> List.length ns"
  by (simp add: sample_scale_def Let_def)

text \<open>
  Sampling stays inside the sample. A range is the slice between its bounds, but panics when it
  ends before both its start and the end of the sample; scaling gives members of the sample only,
  whatever the float arithmetic gives, at most as many as it has; sorting permutes.
\<close>
theorem sampling_in_bounds:
  "sample_range lo hi ns =
     (if hi < lo \<and> hi < List.length ns then None else Some (take (hi - lo) (drop lo ns))) \<and>
   set (sample_scale of_size mul div_f floor_size factor ns) \<subseteq> set ns \<and>
   List.length (sample_scale of_size mul div_f floor_size factor ns) \<le> List.length ns \<and>
   mset (sort_by_label ns) = mset ns \<and> sorted (map gn_label (sort_by_label ns))"
  by (intro conjI sample_range_slice sample_scale_members sample_scale_length)
    (simp_all add: sort_by_label_def)

section \<open>Messages\<close>

datatype 'j comm_call =
    Send env "'j node_message"
  | Broadcast env u64 uuid string 'j "(uuid \<times> uuid) list"
  | DrainInbox uuid
  | DrainChannel uuid string

definition comm_step :: "'j comm_call \<Rightarrow> 'j node_communicator \<Rightarrow> 'j node_communicator" where
  "comm_step call c =
     (case call of
        Send e m \<Rightarrow> send_message e m c
      | Broadcast e now src channel payload recipients \<Rightarrow>
          snd (broadcast_message e now src channel payload recipients c)
      | DrainInbox n \<Rightarrow> snd (drain_inbox n c)
      | DrainChannel n channel \<Rightarrow> snd (drain_channel n channel c))"

text \<open>The queue that a channel of a node is meant to be.\<close>

definition queue_step :: "uuid \<Rightarrow> string \<Rightarrow> 'j comm_call \<Rightarrow> 'j node_message list \<Rightarrow> 'j node_message list" where
  "queue_step n channel call q =
     (case call of
        Send _ m \<Rightarrow> if nm_to_node m = Some n \<and> nm_channel m = channel then q @ [m] else q
      | Broadcast _ now src ch payload recipients \<Rightarrow>
          if ch = channel
          then q @ map (\<lambda>(to, fresh). message_to fresh now src to ch payload)
                     (filter (\<lambda>(to, _). to = n) recipients)
          else q
      | DrainInbox k \<Rightarrow> if k = n then [] else q
      | DrainChannel k ch \<Rightarrow> if k = n \<and> ch = channel then [] else q)"

lemma inbox_deliver: "inbox_for (deliver to m c) n = (if n = to then inbox_for c n @ [m] else inbox_for c n)"
  by (simp add: deliver_def inbox_for_def)

lemma inbox_log: "inbox_for (log_message e ev p c) n = inbox_for c n"
  by (simp add: log_message_def inbox_for_def)

lemma inbox_broadcast:
  "inbox_for (fold (\<lambda>(to, fresh). deliver to (g to fresh)) recipients c) n =
     inbox_for c n @ map (\<lambda>(to, fresh). g to fresh) (filter (\<lambda>(to, _). to = n) recipients)"
  by (induction recipients arbitrary: c) (auto simp: inbox_deliver)

lemma inbox_drain:
  "inbox_for (snd (drain_inbox k c)) n = (if n = k then [] else inbox_for c n)"
  "inbox_for (snd (drain_channel k ch c)) n =
     (if n = k then filter (\<lambda>m. nm_channel m \<noteq> ch) (inbox_for c n) else inbox_for c n)"
  by (simp_all add: drain_inbox_def drain_channel_def inbox_for_def o_def)

lemma comm_step_refines:
  "inbox_for_channel (comm_step call c) n channel = queue_step n channel call (inbox_for_channel c n channel)"
proof (cases call)
  case (Broadcast e now src ch payload recipients)
  have "filter (\<lambda>m. nm_channel m = channel) (map (\<lambda>(to, fresh). message_to fresh now src to ch payload) xs) =
      (if ch = channel then map (\<lambda>(to, fresh). message_to fresh now src to ch payload) xs else [])" for xs
    by (induction xs) (auto simp: message_to_def)
  then show ?thesis
    by (simp add: Broadcast comm_step_def queue_step_def inbox_for_channel_def broadcast_message_def
        inbox_broadcast inbox_log)
qed (auto simp: comm_step_def queue_step_def inbox_for_channel_def send_message_def inbox_drain
    inbox_deliver inbox_log filter_empty_conv intro: filter_cong split: option.split)

lemma deliver_log: "nc_action_log (deliver to m c) = nc_action_log c"
  by (simp add: deliver_def)

lemma fold_deliver_log: "nc_action_log (fold (\<lambda>(to, fresh). deliver to (g to fresh)) rs c) = nc_action_log c"
  by (induction rs arbitrary: c) (auto simp: deliver_log)

interpretation comm_audit: audited comm_step "\<lambda>c :: 'j node_communicator. al_entries (nc_action_log c)"
proof unfold_locales
  fix c :: "'j node_communicator" and call
  show "prefix (al_entries (nc_action_log c)) (al_entries (nc_action_log (comm_step call c)))"
    by (cases call)
      (auto simp: comm_step_def send_message_def broadcast_message_def drain_inbox_def drain_channel_def
        deliver_log fold_deliver_log log_message_def log_simps split: option.split)
qed

text \<open>
  C32: Every channel of every inbox is a queue of its own: whatever is sent, broadcast and drained, a
  channel holds exactly the messages sent to its node on it since it was last drained, in the order
  sent and once per delivery; a drain returns that queue, and draining one channel leaves the other
  channels and nodes alone. The log keeps what it recorded.
\<close>
theorem channels_are_queues:
  "let c = fold comm_step calls (new_communicator d t l)
   in inbox_for_channel c n channel = fold (queue_step n channel) calls [] \<and>
      fst (drain_channel n channel c) = fold (queue_step n channel) calls [] \<and>
      filter (\<lambda>m. nm_channel m = channel) (fst (drain_inbox n c)) = fold (queue_step n channel) calls [] \<and>
      prefix (al_entries l) (al_entries (nc_action_log c))"
proof -
  have "inbox_for_channel (fold comm_step calls c) n channel = fold (queue_step n channel) calls (inbox_for_channel c n channel)"
    for c :: "'a node_communicator"
    by (induction calls arbitrary: c) (simp_all add: comm_step_refines)
  moreover have "inbox_for_channel (new_communicator d t l) n channel = []"
    by (simp add: inbox_for_channel_def inbox_for_def new_communicator_def)
  moreover have "prefix (al_entries l) (al_entries (nc_action_log (fold comm_step calls (new_communicator d t l))))"
    using comm_audit.run_extends [of "new_communicator d t l" calls] by (simp add: new_communicator_def)
  ultimately show ?thesis
    by (simp add: Let_def drain_channel_def drain_inbox_def inbox_for_channel_def)
qed

end
