(* ===== verification/Model_Runtime.thy ===== *)
theory Model_Runtime
  imports Flow_Control
begin

text \<open>
  Performance-driven tuning and reloads of models (\<open>model_runtime.rs\<close>). The float subtraction and
  product of the equality test are arguments, as in \<open>Flow_Control\<close>. Hash maps of parameters are kept
  in key order. A call writes several log entries: \<open>es i\<close> is the environment of the i-th. The sample
  and reload counters wrap as a release build does.
\<close>

datatype model_kind = Ml | Ai

primrec kind_text :: "model_kind \<Rightarrow> string" where
  "kind_text Ml = ''Ml''"
| "kind_text Ai = ''Ai''"

primrec operator_text :: "comparison_operator \<Rightarrow> string" where
  "operator_text AtLeast = ''AtLeast''"
| "operator_text AtMost = ''AtMost''"
| "operator_text Equal = ''Equal''"

type_synonym 'j hyperparameters = "(string, 'j) om"

record performance_sample =
  sm_captured_at_ms :: u64
  sm_metrics :: "string \<rightharpoonup> f64"

record 'j hyper_adjustment =
  ha_model_id :: string
  ha_metric :: string
  ha_observed :: f64
  ha_threshold :: f64
  ha_operator :: comparison_operator
  ha_reason :: string
  ha_changes :: "'j hyperparameters"

record 'j hyper_rule =
  hr_metric :: string
  hr_operator :: comparison_operator
  hr_threshold :: f64
  hr_changes :: "'j hyperparameters"
  hr_reason :: string

record reload_policy =
  rp_metric :: string
  rp_operator :: comparison_operator
  rp_threshold :: f64
  rp_min_samples :: u64
  rp_cooldown_ms :: u64

definition immediate_reload :: "string \<Rightarrow> comparison_operator \<Rightarrow> f64 \<Rightarrow> reload_policy" where
  "immediate_reload metric operator threshold =
     \<lparr>rp_metric = metric, rp_operator = operator, rp_threshold = threshold, rp_min_samples = 1,
      rp_cooldown_ms = 0\<rparr>"

record reload_request =
  rq_model_id :: string
  rq_reload_generation :: u64
  rq_observed :: f64
  rq_threshold :: f64
  rq_metric :: string
  rq_reason :: string
  rq_requested_at_ms :: u64

record 'j optimization_decision =
  od_adjustments :: "'j hyper_adjustment list"
  od_reload :: "reload_request option"

record 'j model_profile =
  mp_model_id :: string
  mp_dimension_id :: dimension_id
  mp_task_id :: task_id
  mp_kind :: model_kind
  mp_version :: string
  mp_hyperparameters :: "'j hyperparameters"
  mp_rules :: "'j hyper_rule list"
  mp_reload_policy :: reload_policy

record 'j model_state =
  md_profile :: "'j model_profile"
  md_sample_count :: u64
  md_reload_generation :: u64
  md_last_reload_at_ms :: "u64 option"

datatype model_runtime_error =
    ModelNotFound string
  | ModelAlreadyRegistered string
  | ModelMetricMissing string

definition compare_metric ::
  "(f64 \<Rightarrow> f64 \<Rightarrow> f64) \<Rightarrow> (f64 \<Rightarrow> f64 \<Rightarrow> f64) \<Rightarrow> f64 \<Rightarrow> comparison_operator \<Rightarrow> f64 \<Rightarrow> bool" where
  "compare_metric sub mul v operator threshold =
     (case operator of
        AtLeast \<Rightarrow> f64_le threshold v
      | AtMost \<Rightarrow> f64_le v threshold
      | Equal \<Rightarrow>
          let diff = f64_abs (sub v threshold);
              scale = f64_max (f64_max (f64_abs v) (f64_abs threshold)) f64_one
          in f64_le diff (mul scale EQUALITY_TOLERANCE))"

definition evaluate_sample ::
  "(f64 \<Rightarrow> f64 \<Rightarrow> f64) \<Rightarrow> (f64 \<Rightarrow> f64 \<Rightarrow> f64) \<Rightarrow> string \<Rightarrow> performance_sample \<Rightarrow> 'j hyper_rule
     \<Rightarrow> model_runtime_error + 'j hyper_adjustment option" where
  "evaluate_sample sub mul model_id sample rule =
     (case sm_metrics sample (hr_metric rule) of
        None \<Rightarrow> Inl (ModelMetricMissing (hr_metric rule))
      | Some v \<Rightarrow>
          if compare_metric sub mul v (hr_operator rule) (hr_threshold rule)
          then Inr (Some \<lparr>ha_model_id = model_id, ha_metric = hr_metric rule, ha_observed = v,
                          ha_threshold = hr_threshold rule, ha_operator = hr_operator rule,
                          ha_reason = hr_reason rule, ha_changes = hr_changes rule\<rparr>)
          else Inr None)"

text \<open>\<open>collect::<Result<Vec<_>, _>>\<close> followed by \<open>flatten\<close>: the first error, or the matches.\<close>

fun evaluate_rules ::
  "(f64 \<Rightarrow> f64 \<Rightarrow> f64) \<Rightarrow> (f64 \<Rightarrow> f64 \<Rightarrow> f64) \<Rightarrow> string \<Rightarrow> performance_sample \<Rightarrow> 'j hyper_rule list
     \<Rightarrow> model_runtime_error + 'j hyper_adjustment list" where
  "evaluate_rules sub mul model_id sample [] = Inr []"
| "evaluate_rules sub mul model_id sample (rule # rules) =
     (case evaluate_sample sub mul model_id sample rule of
        Inl err \<Rightarrow> Inl err
      | Inr a \<Rightarrow>
          (case evaluate_rules sub mul model_id sample rules of
             Inl err \<Rightarrow> Inl err
           | Inr as \<Rightarrow> Inr (case a of None \<Rightarrow> as | Some x \<Rightarrow> x # as)))"

definition apply_adjustment :: "'j hyper_adjustment \<Rightarrow> 'j model_state \<Rightarrow> 'j model_state" where
  "apply_adjustment a st =
     st\<lparr>md_profile := (md_profile st)\<lparr>mp_hyperparameters :=
          fold (\<lambda>(k, v). om_insert k v) (ha_changes a) (mp_hyperparameters (md_profile st))\<rparr>\<rparr>"

definition check_reload_policy ::
  "(f64 \<Rightarrow> f64 \<Rightarrow> f64) \<Rightarrow> (f64 \<Rightarrow> f64 \<Rightarrow> f64) \<Rightarrow> performance_sample \<Rightarrow> 'j model_state
     \<Rightarrow> (model_runtime_error, reload_request option, 'j model_state) outcome" where
  "check_reload_policy sub mul sample st =
     (let policy = mp_reload_policy (md_profile st)
      in if md_sample_count st < rp_min_samples policy then (Inr None, st)
         else
           (case sm_metrics sample (rp_metric policy) of
              None \<Rightarrow> (Inl (ModelMetricMissing (rp_metric policy)), st)
            | Some v \<Rightarrow>
                if \<not> compare_metric sub mul v (rp_operator policy) (rp_threshold policy) then (Inr None, st)
                else if (case md_last_reload_at_ms st of
                           None \<Rightarrow> False
                         | Some since \<Rightarrow> saturating_sub (sm_captured_at_ms sample) since < rp_cooldown_ms policy)
                then (Inr None, st)
                else
                  let st1 = st\<lparr>md_reload_generation := md_reload_generation st + 1,
                               md_last_reload_at_ms := Some (sm_captured_at_ms sample)\<rparr>
                  in (Inr (Some \<lparr>rq_model_id = mp_model_id (md_profile st),
                                 rq_reload_generation = md_reload_generation st1, rq_observed = v,
                                 rq_threshold = rp_threshold policy, rq_metric = rp_metric policy,
                                 rq_reason = ''performance threshold breached'',
                                 rq_requested_at_ms = sm_captured_at_ms sample\<rparr>), st1)))"

definition log_adjustment ::
  "env \<Rightarrow> 'j model_state \<Rightarrow> 'j hyper_adjustment \<Rightarrow> 'j action_log \<Rightarrow> 'j action_log" where
  "log_adjustment e st a =
     log_system e ModelHyperparametersAdjusted (mp_dimension_id (md_profile st)) (mp_task_id (md_profile st))
       [(''model_id'', PText (ha_model_id a)), (''version'', PText (mp_version (md_profile st))),
        (''metric'', PText (ha_metric a)), (''observed'', PFloat (ha_observed a)),
        (''threshold'', PFloat (ha_threshold a)), (''operator'', PText (operator_text (ha_operator a))),
        (''reason'', PText (ha_reason a)),
        (''changes'', PObject (map (\<lambda>(k, v). (k, PJson v)) (ha_changes a)))]"

definition log_reload ::
  "env \<Rightarrow> 'j model_state \<Rightarrow> reload_request \<Rightarrow> 'j action_log \<Rightarrow> 'j action_log" where
  "log_reload e st r =
     log_system e ModelReloadRequested (mp_dimension_id (md_profile st)) (mp_task_id (md_profile st))
       [(''model_id'', PText (rq_model_id r)), (''version'', PText (mp_version (md_profile st))),
        (''metric'', PText (rq_metric r)), (''observed'', PFloat (rq_observed r)),
        (''threshold'', PFloat (rq_threshold r)), (''reason'', PText (rq_reason r)),
        (''reload_generation'', PNum (rq_reload_generation r)),
        (''requested_at_ms'', PNum (rq_requested_at_ms r))]"

section \<open>The manager\<close>

record 'j model_manager =
  mm_models :: "string \<rightharpoonup> 'j model_state"
  mm_action_log :: "'j action_log"

definition new_model_manager :: "'j action_log \<Rightarrow> 'j model_manager" where
  "new_model_manager l = \<lparr>mm_models = Map.empty, mm_action_log = l\<rparr>"

definition register_model ::
  "'j model_profile \<Rightarrow> 'j model_manager \<Rightarrow> (model_runtime_error, unit, 'j model_manager) outcome" where
  "register_model p m =
     (if mm_models m (mp_model_id p) \<noteq> None then (Inl (ModelAlreadyRegistered (mp_model_id p)), m)
      else (Inr (),
            m\<lparr>mm_models := (mm_models m)(mp_model_id p \<mapsto>
               \<lparr>md_profile = p, md_sample_count = 0, md_reload_generation = 0,
                md_last_reload_at_ms = None\<rparr>)\<rparr>))"

text \<open>The loop over the matches: each is applied to the state and logged.\<close>

fun apply_adjustments ::
  "(nat \<Rightarrow> env) \<Rightarrow> 'j hyper_adjustment list \<Rightarrow> 'j model_state \<times> 'j action_log
     \<Rightarrow> 'j model_state \<times> 'j action_log" where
  "apply_adjustments es [] sl = sl"
| "apply_adjustments es (a # as) (st, l) =
     (let st1 = apply_adjustment a st
      in apply_adjustments (\<lambda>i. es (Suc i)) as (st1, log_adjustment (es 0) st1 a l))"

definition record_performance ::
  "(f64 \<Rightarrow> f64 \<Rightarrow> f64) \<Rightarrow> (f64 \<Rightarrow> f64 \<Rightarrow> f64) \<Rightarrow> (nat \<Rightarrow> env) \<Rightarrow> string \<Rightarrow> performance_sample
     \<Rightarrow> 'j model_manager \<Rightarrow> (model_runtime_error, 'j optimization_decision, 'j model_manager) outcome" where
  "record_performance sub mul es model_id sample m =
     (case mm_models m model_id of
        None \<Rightarrow> (Inl (ModelNotFound model_id), m)
      | Some st0 \<Rightarrow>
          let st = st0\<lparr>md_sample_count := md_sample_count st0 + 1\<rparr>
          in (case evaluate_rules sub mul model_id sample (mp_rules (md_profile st)) of
                Inl err \<Rightarrow> (Inl err, m\<lparr>mm_models := (mm_models m)(model_id \<mapsto> st)\<rparr>)
              | Inr as \<Rightarrow>
                  let (st1, l1) = apply_adjustments es as (st, mm_action_log m);
                      (res, st2) = check_reload_policy sub mul sample st1
                  in (case res of
                        Inl err \<Rightarrow> (Inl err, \<lparr>mm_models = (mm_models m)(model_id \<mapsto> st2), mm_action_log = l1\<rparr>)
                      | Inr reload \<Rightarrow>
                          (Inr \<lparr>od_adjustments = as, od_reload = reload\<rparr>,
                           \<lparr>mm_models = (mm_models m)(model_id \<mapsto> st2),
                            mm_action_log = (case reload of
                               None \<Rightarrow> l1
                             | Some r \<Rightarrow> log_reload (es (List.length as)) st2 r l1)\<rparr>))))"

definition model_snapshot :: "'j model_manager \<Rightarrow> string \<Rightarrow> model_runtime_error + 'j model_profile" where
  "model_snapshot m model_id =
     (case mm_models m model_id of None \<Rightarrow> Inl (ModelNotFound model_id) | Some st \<Rightarrow> Inr (md_profile st))"

section \<open>Reloads\<close>

text \<open>The comparison of a quality gate and that of a rule are the same.\<close>

lemma compare_metric_gate:
  "compare_metric sub mul v (qg_operator g) (qg_threshold g) = gate_evaluate sub mul g v"
  by (simp add: compare_metric_def gate_evaluate_def)

text \<open>The first rule without its metric decides the error; otherwise the matches are in rule order.\<close>

definition rule_match ::
  "(f64 \<Rightarrow> f64 \<Rightarrow> f64) \<Rightarrow> (f64 \<Rightarrow> f64 \<Rightarrow> f64) \<Rightarrow> string \<Rightarrow> performance_sample \<Rightarrow> 'j hyper_rule
     \<Rightarrow> 'j hyper_adjustment option" where
  "rule_match sub mul model_id sample r =
     (case evaluate_sample sub mul model_id sample r of Inl _ \<Rightarrow> None | Inr a \<Rightarrow> a)"

lemma evaluate_rules_spec:
  "evaluate_rules sub mul k sample rules =
     (case find (\<lambda>r. sm_metrics sample (hr_metric r) = None) rules of
        Some r \<Rightarrow> Inl (ModelMetricMissing (hr_metric r))
      | None \<Rightarrow> Inr (List.map_filter (rule_match sub mul k sample) rules))"
  by (induction rules)
    (auto simp: rule_match_def evaluate_sample_def List.map_filter_simps split: option.splits)

lemma apply_adjustments_views:
  "md_sample_count (fst (apply_adjustments es as (st, l))) = md_sample_count st"
  "md_reload_generation (fst (apply_adjustments es as (st, l))) = md_reload_generation st"
  "md_last_reload_at_ms (fst (apply_adjustments es as (st, l))) = md_last_reload_at_ms st"
  "mp_reload_policy (md_profile (fst (apply_adjustments es as (st, l)))) = mp_reload_policy (md_profile st)"
  "mp_rules (md_profile (fst (apply_adjustments es as (st, l)))) = mp_rules (md_profile st)"
  "mp_model_id (md_profile (fst (apply_adjustments es as (st, l)))) = mp_model_id (md_profile st)"
  "mp_hyperparameters (md_profile (fst (apply_adjustments es as (st, l)))) =
     fold (\<lambda>(k, v). om_insert k v) (concat (map ha_changes as)) (mp_hyperparameters (md_profile st))"
  "map le_event_type (al_entries (snd (apply_adjustments es as (st, l)))) =
     map le_event_type (al_entries l) @ replicate (List.length as) ModelHyperparametersAdjusted"
  by (induction as arbitrary: es st l)
    (simp_all add: apply_adjustment_def log_adjustment_def log_simps Let_def)

text \<open>When a sample triggers a reload.\<close>

definition reload_due ::
  "(f64 \<Rightarrow> f64 \<Rightarrow> f64) \<Rightarrow> (f64 \<Rightarrow> f64 \<Rightarrow> f64) \<Rightarrow> performance_sample \<Rightarrow> 'j model_state \<Rightarrow> bool" where
  "reload_due sub mul sample st =
     (case sm_metrics sample (rp_metric (mp_reload_policy (md_profile st))) of
        None \<Rightarrow> False
      | Some v \<Rightarrow>
          rp_min_samples (mp_reload_policy (md_profile st)) \<le> md_sample_count st \<and>
          compare_metric sub mul v (rp_operator (mp_reload_policy (md_profile st)))
            (rp_threshold (mp_reload_policy (md_profile st))) \<and>
          (case md_last_reload_at_ms st of
             None \<Rightarrow> True
           | Some since \<Rightarrow> unat (rp_cooldown_ms (mp_reload_policy (md_profile st)))
                             \<le> unat (sm_captured_at_ms sample) - unat since))"

lemma check_reload_cases:
  "check_reload_policy sub mul sample st =
     (let policy = mp_reload_policy (md_profile st)
      in if rp_min_samples policy \<le> md_sample_count st \<and> sm_metrics sample (rp_metric policy) = None
         then (Inl (ModelMetricMissing (rp_metric policy)), st)
         else if reload_due sub mul sample st
         then (Inr (Some \<lparr>rq_model_id = mp_model_id (md_profile st),
                          rq_reload_generation = md_reload_generation st + 1,
                          rq_observed = the (sm_metrics sample (rp_metric policy)),
                          rq_threshold = rp_threshold policy, rq_metric = rp_metric policy,
                          rq_reason = ''performance threshold breached'',
                          rq_requested_at_ms = sm_captured_at_ms sample\<rparr>),
               st\<lparr>md_reload_generation := md_reload_generation st + 1,
                  md_last_reload_at_ms := Some (sm_captured_at_ms sample)\<rparr>)
         else (Inr None, st))"
  by (auto simp: check_reload_policy_def reload_due_def Let_def not_less word_less_nat_alt word_le_nat_alt
      unat_saturating_sub split: option.splits)

text \<open>
  What a sample does to a model. The call is refused for an unknown model (changing nothing), and
  for the first rule whose metric the sample lacks (counting the sample only). Otherwise every
  matching rule's changes are in the hyperparameters, later rules winning, each logged once, and a
  reload is requested exactly when enough samples have come, the metric breaches the threshold and
  the cooldown since the last reload has passed. A reload metric the sample lacks is an error after
  the adjustments: the caller gets no decision, but the changes stay.
\<close>
theorem performance_sample_effect:
  "case mm_models m k of
     None \<Rightarrow> record_performance sub mul es k sample m = (Inl (ModelNotFound k), m)
   | Some st0 \<Rightarrow>
       let (res, m') = record_performance sub mul es k sample m;
           rules = mp_rules (md_profile st0);
           policy = mp_reload_policy (md_profile st0);
           counted = st0\<lparr>md_sample_count := md_sample_count st0 + 1\<rparr>;
           matches = List.map_filter (rule_match sub mul k sample) rules;
           missing = (rp_min_samples policy \<le> md_sample_count counted \<and> sm_metrics sample (rp_metric policy) = None);
           due = reload_due sub mul sample counted
       in (case find (\<lambda>r. sm_metrics sample (hr_metric r) = None) rules of
             Some r \<Rightarrow> res = Inl (ModelMetricMissing (hr_metric r)) \<and>
                        m' = m\<lparr>mm_models := (mm_models m)(k \<mapsto> counted)\<rparr>
           | None \<Rightarrow>
               (\<exists>st. mm_models m' = (mm_models m)(k \<mapsto> st) \<and>
                  mp_hyperparameters (md_profile st) =
                    fold (\<lambda>(k, v). om_insert k v) (concat (map ha_changes matches))
                      (mp_hyperparameters (md_profile st0)) \<and>
                  md_sample_count st = md_sample_count st0 + 1 \<and>
                  md_reload_generation st = md_reload_generation st0 + (if due then 1 else 0) \<and>
                  md_last_reload_at_ms st =
                    (if due then Some (sm_captured_at_ms sample) else md_last_reload_at_ms st0)) \<and>
               map le_event_type (al_entries (mm_action_log m')) =
                 map le_event_type (al_entries (mm_action_log m)) @
                 replicate (List.length matches) ModelHyperparametersAdjusted @
                 (if due then [ModelReloadRequested] else []) \<and>
               (if missing then res = Inl (ModelMetricMissing (rp_metric policy))
                else \<exists>reload. res = Inr \<lparr>od_adjustments = matches, od_reload = reload\<rparr> \<and> (reload \<noteq> None) = due))"
proof (cases "mm_models m k")
  case None
  then show ?thesis by (simp add: record_performance_def)
next
  case (Some st0)
  define st where "st = st0\<lparr>md_sample_count := md_sample_count st0 + 1\<rparr>"
  have profile: "md_profile st = md_profile st0" by (simp add: st_def)
  show ?thesis
  proof (cases "find (\<lambda>r. sm_metrics sample (hr_metric r) = None) (mp_rules (md_profile st0))")
    case (Some r)
    then show ?thesis
      using \<open>mm_models m k = Some st0\<close>
      by (simp add: record_performance_def evaluate_rules_spec Let_def)
  next
    case None
    define as where "as = List.map_filter (rule_match sub mul k sample) (mp_rules (md_profile st0))"
    obtain st1 l1 where run: "apply_adjustments es as (st, mm_action_log m) = (st1, l1)"
      by (cases "apply_adjustments es as (st, mm_action_log m)")
    note views = apply_adjustments_views [of es as st "mm_action_log m", unfolded run fst_conv snd_conv]
    have due: "reload_due sub mul sample st1 = reload_due sub mul sample st"
      unfolding reload_due_def views ..
    have missing: "\<not> reload_due sub mul sample st"
      if "sm_metrics sample (rp_metric (mp_reload_policy (md_profile st0))) = None"
      using that by (simp add: reload_due_def profile)
    have "record_performance sub mul es k sample m =
        (let (res, st2) = check_reload_policy sub mul sample st1
         in case res of
              Inl err \<Rightarrow> (Inl err, \<lparr>mm_models = (mm_models m)(k \<mapsto> st2), mm_action_log = l1\<rparr>)
            | Inr reload \<Rightarrow>
                (Inr \<lparr>od_adjustments = as, od_reload = reload\<rparr>,
                 \<lparr>mm_models = (mm_models m)(k \<mapsto> st2),
                  mm_action_log = (case reload of None \<Rightarrow> l1
                    | Some r \<Rightarrow> log_reload (es (List.length as)) st2 r l1)\<rparr>))"
      using Some None by (simp add: record_performance_def evaluate_rules_spec st_def [symmetric] profile as_def [symmetric] run)
    then show ?thesis
      using Some None views missing
      by (simp add: check_reload_cases Let_def due as_def [symmetric] st_def [symmetric] profile
          log_reload_def log_simps)
        (auto simp: st_def)
  qed
qed

end
