(* ===== verification/Replica_Pool.thy ===== *)
theory Replica_Pool
  imports Model_Runtime
begin

text \<open>
  Replica planning and the replica pool (\<open>model_runtime.rs\<close>). The pool uses its kernel through the
  \<open>ReplicaKernel\<close> trait: \<open>create\<close> and \<open>destroy\<close> are arguments of the pool's operations, and the
  locale \<open>replica_kernel\<close> states what the pool relies on. The in-memory kernel of the source provides
  it. The float operations of planning are arguments; modules are ranked in key order before the
  stable sort, which stands for the order of the hash map, and scores are compared as the code does
  when none of them is a NaN.
\<close>

section \<open>Kernel\<close>

type_synonym replica_id = u32

record replica_policy =
  rk_max_tasks :: u32
  rk_arena_cap_bytes :: u64
  rk_auto_destroy :: bool
  rk_cpu_pin :: "u8 option"

definition default_replica_policy :: replica_policy where
  "default_replica_policy =
     \<lparr>rk_max_tasks = 32, rk_arena_cap_bytes = push_bit 20 1, rk_auto_destroy = True, rk_cpu_pin = None\<rparr>"

record replica_request =
  rr_dimension :: dimension_id
  rr_task :: task_id
  rr_model_id :: string
  rr_module_id :: string
  rr_policy :: replica_policy

record replica_handle =
  rh_id :: replica_id
  rh_request :: replica_request
  rh_created_at_ms :: u64

datatype replica_kernel_error = LimitReached u32 | ReplicaNotFound u32

record memory_kernel =
  mk_max_replicas :: u32
  mk_next_id :: u32
  mk_replicas :: "(replica_id, replica_handle) om"

definition new_memory_kernel :: "u32 \<Rightarrow> memory_kernel" where
  "new_memory_kernel n = \<lparr>mk_max_replicas = n, mk_next_id = 1, mk_replicas = om_empty\<rparr>"

text \<open>\<open>len() as u32\<close> truncates; the identifier counter wraps.\<close>

definition create_replica ::
  "u64 \<Rightarrow> replica_request \<Rightarrow> memory_kernel \<Rightarrow> (replica_kernel_error, replica_handle, memory_kernel) outcome" where
  "create_replica now rq k =
     (if mk_max_replicas k \<le> of_nat (List.length (mk_replicas k)) then (Inl (LimitReached (mk_max_replicas k)), k)
      else
        let h = \<lparr>rh_id = mk_next_id k, rh_request = rq, rh_created_at_ms = now\<rparr>
        in (Inr h, k\<lparr>mk_next_id := mk_next_id k + 1,
                     mk_replicas := om_insert (rh_id h) h (mk_replicas k)\<rparr>))"

definition destroy_replica ::
  "replica_id \<Rightarrow> memory_kernel \<Rightarrow> (replica_kernel_error, unit, memory_kernel) outcome" where
  "destroy_replica n k =
     (if om_contains (mk_replicas k) n then (Inr (), k\<lparr>mk_replicas := om_remove n (mk_replicas k)\<rparr>)
      else (Inl (ReplicaNotFound n), k))"

section \<open>Planning\<close>

record model_module =
  mo_module_id :: string
  mo_kind :: model_kind
  mo_efficiency_score :: f64
  mo_complexity_weight :: f64
  mo_max_replicas :: u32

record replica_demand =
  rd_dimension_id :: dimension_id
  rd_task_id :: task_id
  rd_model_id :: string
  rd_complexity :: f64
  rd_efficiency_target :: f64
  rd_max_replicas :: u32
  rd_policy :: replica_policy

record module_selection =
  se_module_id :: string
  se_kind :: model_kind
  se_alignment_score :: f64
  se_replicas :: u32

record ensemble_plan =
  en_model_id :: string
  en_modules :: "module_selection list"
  en_total_replicas :: u32
  en_rationale :: string

datatype model_replica_error = NoModulesAvailable | KernelError replica_kernel_error

text \<open>The float operations of planning: addition, subtraction, product, \<open>u32\<close> to float, and
  \<open>ceil\<close> followed by the cast to \<open>u32\<close>.\<close>

record float_ops =
  fl_add :: "f64 \<Rightarrow> f64 \<Rightarrow> f64"
  fl_sub :: "f64 \<Rightarrow> f64 \<Rightarrow> f64"
  fl_mul :: "f64 \<Rightarrow> f64 \<Rightarrow> f64"
  fl_of_u32 :: "u32 \<Rightarrow> f64"
  fl_ceil_u32 :: "f64 \<Rightarrow> u32"

definition clamp_unit :: "f64 \<Rightarrow> f64" where
  "clamp_unit x = (if f64_lt x 0 then 0 else if f64_lt f64_one x then f64_one else x)"

definition module_score :: "float_ops \<Rightarrow> f64 \<Rightarrow> model_module \<Rightarrow> f64" where
  "module_score ops weight mo =
     fl_add ops (fl_mul ops (mo_efficiency_score mo) weight)
       (fl_mul ops (mo_complexity_weight mo) (fl_sub ops f64_one weight))"

text \<open>The stable sort by falling score.\<close>

fun insert_ranked :: "model_module \<times> f64 \<Rightarrow> (model_module \<times> f64) list \<Rightarrow> (model_module \<times> f64) list" where
  "insert_ranked x [] = [x]"
| "insert_ranked x (y # ys) = (if f64_lt (snd x) (snd y) then y # insert_ranked x ys else x # y # ys)"

definition rank_modules :: "(model_module \<times> f64) list \<Rightarrow> (model_module \<times> f64) list" where
  "rank_modules xs = foldr insert_ranked xs []"

text \<open>\<open>0.7\<close>.\<close>

definition ENSEMBLE_COMPLEXITY_THRESHOLD :: f64 where
  "ENSEMBLE_COMPLEXITY_THRESHOLD = 0x3FE6666666666666"

definition select_modules ::
  "bool \<Rightarrow> (model_module \<times> f64) list \<Rightarrow> (model_module \<times> f64) list" where
  "select_modules needs_ensemble scored =
     (if needs_ensemble
      then (case (find (\<lambda>x. mo_kind (fst x) = Ml) scored, find (\<lambda>x. mo_kind (fst x) = Ai) scored) of
              (Some ml, Some ai) \<Rightarrow> [ml, ai]
            | _ \<Rightarrow> take 1 scored)
      else take 1 scored)"

definition desired_replica_count :: "float_ops \<Rightarrow> u32 \<Rightarrow> f64 \<Rightarrow> u32 \<Rightarrow> u32" where
  "desired_replica_count ops max_replicas complexity base_count =
     max (max (fl_ceil_u32 ops (fl_mul ops (fl_of_u32 ops max_replicas) complexity)) base_count) 1"

text \<open>The loop over the selections; the first takes what goes beyond one replica per module.\<close>

fun plan_selections ::
  "u32 \<Rightarrow> bool \<Rightarrow> u32 \<Rightarrow> (model_module \<times> f64) list \<Rightarrow> module_selection list" where
  "plan_selections base_count first remaining [] = []"
| "plan_selections base_count first remaining ((mo, score) # rest) =
     (let wanted = (if first \<and> base_count < remaining then 1 + (remaining - base_count) else 1);
          replicas = min (max wanted 1) (mo_max_replicas mo)
      in \<lparr>se_module_id = mo_module_id mo, se_kind = mo_kind mo, se_alignment_score = score,
          se_replicas = replicas\<rparr>
         # plan_selections base_count False (saturating_sub remaining replicas) rest)"

definition build_ensemble_plan ::
  "float_ops \<Rightarrow> (string, model_module) om \<Rightarrow> replica_demand \<Rightarrow> model_replica_error + ensemble_plan" where
  "build_ensemble_plan ops modules demand =
     (if modules = om_empty then Inl NoModulesAvailable
      else
        let complexity = clamp_unit (rd_complexity demand);
            weight = clamp_unit (rd_efficiency_target demand);
            scored = rank_modules (map (\<lambda>mo. (mo, module_score ops weight mo)) (om_values modules));
            needs_ensemble = f64_le ENSEMBLE_COMPLEXITY_THRESHOLD complexity;
            selections = select_modules needs_ensemble scored;
            base_count = of_nat (max (List.length selections) 1);
            planned = plan_selections base_count True
              (desired_replica_count ops (rd_max_replicas demand) complexity base_count) selections
        in Inr \<lparr>en_model_id = rd_model_id demand, en_modules = planned,
                en_total_replicas = sum_list (map se_replicas planned),
                en_rationale = (if needs_ensemble then ''high complexity signal requested an ML+AI ensemble''
                  else ''efficiency-weighted primary module selected'')\<rparr>)"

section \<open>Pool\<close>

record ('k, 'j) replica_pool =
  po_kernel :: 'k
  po_action_log :: "'j action_log"
  po_modules :: "(string, model_module) om"
  po_replicas :: "replica_id \<rightharpoonup> replica_handle"

definition new_replica_pool :: "'k \<Rightarrow> 'j action_log \<Rightarrow> ('k, 'j) replica_pool" where
  "new_replica_pool k l =
     \<lparr>po_kernel = k, po_action_log = l, po_modules = om_empty, po_replicas = Map.empty\<rparr>"

definition register_module :: "model_module \<Rightarrow> ('k, 'j) replica_pool \<Rightarrow> ('k, 'j) replica_pool" where
  "register_module mo p =
     p\<lparr>po_modules := om_insert (mo_module_id mo) (mo\<lparr>mo_max_replicas := max (mo_max_replicas mo) 1\<rparr>) (po_modules p)\<rparr>"

definition log_provisioned ::
  "env \<Rightarrow> replica_demand \<Rightarrow> replica_handle \<Rightarrow> module_selection \<Rightarrow> ('k, 'j) replica_pool \<Rightarrow> ('k, 'j) replica_pool" where
  "log_provisioned e demand h sel p =
     p\<lparr>po_action_log := append_log (new_entry e ReplicaProvisioned Kernel (Some (rd_dimension_id demand))
         (Some (rd_task_id demand))
         [(''replica_id'', PNum (ucast (rh_id h))), (''model_id'', PText (rd_model_id demand)),
          (''module_id'', PText (se_module_id sel)), (''kind'', PText (kind_text (se_kind sel))),
          (''complexity'', PFloat (rd_complexity demand)),
          (''efficiency_target'', PFloat (rd_efficiency_target demand))]) (po_action_log p)\<rparr>"

definition log_released :: "env \<Rightarrow> replica_handle \<Rightarrow> ('k, 'j) replica_pool \<Rightarrow> ('k, 'j) replica_pool" where
  "log_released e h p =
     p\<lparr>po_action_log := append_log (new_entry e ReplicaReleased Kernel (Some (rr_dimension (rh_request h)))
         (Some (rr_task (rh_request h)))
         [(''replica_id'', PNum (ucast (rh_id h))), (''model_id'', PText (rr_model_id (rh_request h))),
          (''module_id'', PText (rr_module_id (rh_request h)))]) (po_action_log p)\<rparr>"

text \<open>
  One replica: the request, the handle in the pool, the log entry. The loops run over the selections,
  each repeated as often as it has replicas; \<open>es\<close> gives the environment of each replica.
\<close>

definition provision_one ::
  "(u64 \<Rightarrow> replica_request \<Rightarrow> 'k \<Rightarrow> (replica_kernel_error, replica_handle, 'k) outcome) \<Rightarrow> env
     \<Rightarrow> replica_demand \<Rightarrow> module_selection \<Rightarrow> ('k, 'j) replica_pool
     \<Rightarrow> (model_replica_error, replica_handle, ('k, 'j) replica_pool) outcome" where
  "provision_one create e demand sel p =
     (case create (env_now e)
             \<lparr>rr_dimension = rd_dimension_id demand, rr_task = rd_task_id demand,
              rr_model_id = rd_model_id demand, rr_module_id = se_module_id sel, rr_policy = rd_policy demand\<rparr>
             (po_kernel p) of
        (Inl err, k) \<Rightarrow> (Inl (KernelError err), p\<lparr>po_kernel := k\<rparr>)
      | (Inr h, k) \<Rightarrow>
          (Inr h, log_provisioned e demand h sel
                    (p\<lparr>po_kernel := k, po_replicas := (po_replicas p)(rh_id h \<mapsto> h)\<rparr>)))"

fun provision_all ::
  "(u64 \<Rightarrow> replica_request \<Rightarrow> 'k \<Rightarrow> (replica_kernel_error, replica_handle, 'k) outcome) \<Rightarrow> (nat \<Rightarrow> env)
     \<Rightarrow> replica_demand \<Rightarrow> module_selection list \<Rightarrow> ('k, 'j) replica_pool
     \<Rightarrow> (model_replica_error, replica_handle list, ('k, 'j) replica_pool) outcome" where
  "provision_all create es demand [] p = (Inr [], p)"
| "provision_all create es demand (sel # sels) p =
     (case provision_one create (es 0) demand sel p of
        (Inl err, p1) \<Rightarrow> (Inl err, p1)
      | (Inr h, p1) \<Rightarrow>
          (case provision_all create (\<lambda>i. es (Suc i)) demand sels p1 of
             (Inl err, p2) \<Rightarrow> (Inl err, p2)
           | (Inr hs, p2) \<Rightarrow> (Inr (h # hs), p2)))"

definition provision ::
  "float_ops \<Rightarrow> (u64 \<Rightarrow> replica_request \<Rightarrow> 'k \<Rightarrow> (replica_kernel_error, replica_handle, 'k) outcome)
     \<Rightarrow> (nat \<Rightarrow> env) \<Rightarrow> replica_demand \<Rightarrow> ('k, 'j) replica_pool
     \<Rightarrow> (model_replica_error, ensemble_plan \<times> replica_handle list, ('k, 'j) replica_pool) outcome" where
  "provision ops create es demand p =
     (case build_ensemble_plan ops (po_modules p) demand of
        Inl err \<Rightarrow> (Inl err, p)
      | Inr plan \<Rightarrow>
          (case provision_all create es demand
                  (concat (map (\<lambda>sel. replicate (unat (se_replicas sel)) sel) (en_modules plan))) p of
             (Inl err, p1) \<Rightarrow> (Inl err, p1)
           | (Inr hs, p1) \<Rightarrow> (Inr (plan, hs), p1)))"

definition release_replica ::
  "(replica_id \<Rightarrow> 'k \<Rightarrow> (replica_kernel_error, unit, 'k) outcome) \<Rightarrow> env \<Rightarrow> replica_id
     \<Rightarrow> ('k, 'j) replica_pool \<Rightarrow> (model_replica_error, unit, ('k, 'j) replica_pool) outcome" where
  "release_replica destroy e n p =
     (case po_replicas p n of
        None \<Rightarrow> (Inr (), p)
      | Some h \<Rightarrow>
          (case destroy n (po_kernel p) of
             (Inl err, k) \<Rightarrow> (Inl (KernelError err), p\<lparr>po_kernel := k, po_replicas := (po_replicas p)(n := None)\<rparr>)
           | (Inr _, k) \<Rightarrow>
               (Inr (), log_released e h (p\<lparr>po_kernel := k, po_replicas := (po_replicas p)(n := None)\<rparr>))))"

end
