(* ===== verification/Replica_Claims.thy ===== *)
theory Replica_Claims
  imports Replica_Pool
begin

text \<open>
  The contract of a replica kernel as a locale, the pool's properties proved from it, the in-memory
  kernel as its interpretation, and what a plan allocates.
\<close>

section \<open>The kernel's contract\<close>

datatype pool_call =
    RegisterModule model_module
  | Provision "nat \<Rightarrow> env" replica_demand
  | ReleaseReplica env replica_id

definition pool_step ::
  "float_ops \<Rightarrow> (u64 \<Rightarrow> replica_request \<Rightarrow> 'k \<Rightarrow> (replica_kernel_error, replica_handle, 'k) outcome)
     \<Rightarrow> (replica_id \<Rightarrow> 'k \<Rightarrow> (replica_kernel_error, unit, 'k) outcome)
     \<Rightarrow> pool_call \<Rightarrow> ('k, 'j) replica_pool \<Rightarrow> ('k, 'j) replica_pool" where
  "pool_step ops create destroy call p =
     (case call of
        RegisterModule mo \<Rightarrow> register_module mo p
      | Provision es demand \<Rightarrow> after (provision ops create es demand p)
      | ReleaseReplica e n \<Rightarrow> after (release_replica destroy e n p))"

text \<open>
  \<open>tracked\<close> is the handle a kernel holds under an identifier, \<open>ok\<close> its own invariant. The pool relies
  on this: a handle handed out is tracked, a failed call changes nothing, and destroying fails only
  for what is not tracked.
\<close>

locale replica_kernel =
  fixes create :: "u64 \<Rightarrow> replica_request \<Rightarrow> 'k \<Rightarrow> (replica_kernel_error, replica_handle, 'k) outcome"
    and destroy :: "replica_id \<Rightarrow> 'k \<Rightarrow> (replica_kernel_error, unit, 'k) outcome"
    and tracked :: "'k \<Rightarrow> replica_id \<rightharpoonup> replica_handle"
    and ok :: "'k \<Rightarrow> bool"
  assumes created: "ok k \<Longrightarrow> create now rq k = (Inr h, k') \<Longrightarrow>
      ok k' \<and> tracked k' = (tracked k)(rh_id h \<mapsto> h) \<and> rh_request h = rq"
    and not_created: "ok k \<Longrightarrow> create now rq k = (Inl err, k') \<Longrightarrow> ok k' \<and> tracked k' = tracked k"
    and destroyed: "ok k \<Longrightarrow> destroy n k = (Inr u, k') \<Longrightarrow> ok k' \<and> tracked k' = (tracked k)(n := None)"
    and not_destroyed: "ok k \<Longrightarrow> destroy n k = (Inl err, k') \<Longrightarrow>
      ok k' \<and> tracked k' = tracked k \<and> tracked k n = None"
begin

definition mirrors :: "('k, 'j) replica_pool \<Rightarrow> bool" where
  "mirrors p \<longleftrightarrow> ok (po_kernel p) \<and> po_replicas p = tracked (po_kernel p)"

lemma provision_one_mirrors:
  assumes "mirrors p"
  shows "mirrors (after (provision_one create e demand sel p))"
proof (cases "create (env_now e)
    \<lparr>rr_dimension = rd_dimension_id demand, rr_task = rd_task_id demand, rr_model_id = rd_model_id demand,
     rr_module_id = se_module_id sel, rr_policy = rd_policy demand\<rparr> (po_kernel p)")
  case (Pair res k)
  then show ?thesis
    using assms
    by (cases res)
      (auto simp: provision_one_def mirrors_def log_provisioned_def dest: created not_created)
qed

lemma provision_all_mirrors: "mirrors p \<Longrightarrow> mirrors (after (provision_all create es demand sels p))"
proof (induction sels arbitrary: es p)
  case Nil
  then show ?case by simp
next
  case (Cons sel sels)
  obtain res p1 where one: "provision_one create (es 0) demand sel p = (res, p1)"
    by (cases "provision_one create (es 0) demand sel p")
  have "mirrors p1" using provision_one_mirrors [OF Cons.prems, of "es 0" demand sel] by (simp add: one)
  then have "mirrors (after (provision_all create (\<lambda>i. es (Suc i)) demand sels p1))" by (rule Cons.IH)
  then show ?case
    using \<open>mirrors p1\<close> by (auto simp: one split: sum.split prod.split)
qed

lemma provision_mirrors: "mirrors p \<Longrightarrow> mirrors (after (provision ops create es demand p))"
  using provision_all_mirrors [of p es demand]
  by (auto simp: provision_def split: sum.split prod.split) (metis snd_conv)+

lemma release_mirrors:
  assumes "mirrors p"
  shows "mirrors (after (release_replica destroy e n p))" and "is_ok (result (release_replica destroy e n p))"
    and "po_replicas (after (release_replica destroy e n p)) = (po_replicas p)(n := None)"
proof -
  have *: "mirrors (after (release_replica destroy e n p)) \<and> is_ok (result (release_replica destroy e n p)) \<and>
      po_replicas (after (release_replica destroy e n p)) = (po_replicas p)(n := None)"
  proof (cases "po_replicas p n")
    case None
    then show ?thesis using assms by (auto simp: release_replica_def fun_upd_idem)
  next
    case (Some h)
    obtain res k where d: "destroy n (po_kernel p) = (res, k)" by (cases "destroy n (po_kernel p)")
    show ?thesis
      using assms Some d
      by (cases res)
        (auto simp: release_replica_def mirrors_def log_released_def dest: destroyed not_destroyed)
  qed
  then show "mirrors (after (release_replica destroy e n p))" "is_ok (result (release_replica destroy e n p))"
    "po_replicas (after (release_replica destroy e n p)) = (po_replicas p)(n := None)" by auto
qed

lemma pool_step_mirrors: "mirrors p \<Longrightarrow> mirrors (pool_step ops create destroy call p)"
  by (cases call)
    (auto simp: pool_step_def provision_mirrors release_mirrors, auto simp: register_module_def mirrors_def)

end

text \<open>The in-memory kernel: it holds its limit, and its map is what it tracks.\<close>

definition memory_ok :: "u32 \<Rightarrow> memory_kernel \<Rightarrow> bool" where
  "memory_ok n k \<longleftrightarrow> om_ok (mk_replicas k) \<and> mk_max_replicas k = n \<and> List.length (mk_replicas k) \<le> unat n"

lemma length_insert_le: "List.length (om_insert k v m) \<le> Suc (List.length m)"
  by (induction k v m rule: om_insert.induct) auto

lemma length_remove_le: "List.length (om_remove k m) \<le> List.length m"
  by (simp add: om_remove_def)

lemma memory_created:
  assumes "memory_ok n k" and "create_replica now rq k = (Inr h, k')"
  shows "memory_ok n k'" and "om_get (mk_replicas k') = (om_get (mk_replicas k))(rh_id h \<mapsto> h)"
    and "rh_request h = rq"
proof -
  have len: "List.length (mk_replicas k) \<le> unat n" and n: "mk_max_replicas k = n"
    using assms(1) by (auto simp: memory_ok_def)
  have "unat n < 2 ^ LENGTH(32)" by (rule unsigned_less)
  with len have "unat (of_nat (List.length (mk_replicas k)) :: u32) = List.length (mk_replicas k)"
    by (simp add: unat_of_nat)
  moreover have "\<not> n \<le> of_nat (List.length (mk_replicas k))"
    using assms(2) n by (auto simp: create_replica_def Let_def split: if_splits)
  ultimately have "List.length (mk_replicas k) < unat n" by (simp add: word_le_nat_alt)
  then show "memory_ok n k'" "om_get (mk_replicas k') = (om_get (mk_replicas k))(rh_id h \<mapsto> h)" "rh_request h = rq"
    using assms length_insert_le [of "rh_id h" h "mk_replicas k"]
    by (auto simp: create_replica_def Let_def memory_ok_def om_insert_ok om_get_insert split: if_splits)
qed

interpretation memory_pool:
  replica_kernel create_replica destroy_replica "\<lambda>k. om_get (mk_replicas k)" "memory_ok n" for n
proof unfold_locales
  fix k now rq h k'
  assume "memory_ok n k" "create_replica now rq k = (Inr h, k')"
  then show "memory_ok n k' \<and> om_get (mk_replicas k') = (om_get (mk_replicas k))(rh_id h \<mapsto> h) \<and> rh_request h = rq"
    by (simp add: memory_created)
next
  fix k now rq err k'
  assume "memory_ok n k" "create_replica now rq k = (Inl err, k')"
  then show "memory_ok n k' \<and> om_get (mk_replicas k') = om_get (mk_replicas k)"
    by (auto simp: create_replica_def Let_def split: if_splits)
next
  fix k m u k'
  assume "memory_ok n k" "destroy_replica m k = (Inr u, k')"
  then show "memory_ok n k' \<and> om_get (mk_replicas k') = (om_get (mk_replicas k))(m := None)"
    using length_remove_le [of m "mk_replicas k"]
    by (auto simp: destroy_replica_def memory_ok_def om_remove_ok om_get_remove split: if_splits)
next
  fix k m err k'
  assume "memory_ok n k" "destroy_replica m k = (Inl err, k')"
  then show "memory_ok n k' \<and> om_get (mk_replicas k') = om_get (mk_replicas k) \<and> om_get (mk_replicas k) m = None"
    by (auto simp: destroy_replica_def om_contains_def split: if_splits)
qed

interpretation pool_system:
  invariant_system "\<lambda>_ _. True" "pool_step ops create_replica destroy_replica"
    "memory_pool.mirrors n :: (memory_kernel, 'j) replica_pool \<Rightarrow> bool" for ops n
  by unfold_locales (rule memory_pool.pool_step_mirrors)

text \<open>
  C33: The pool and its kernel agree. On the in-memory kernel, after any registrations, provisions
  (failed ones included) and releases, the pool lists exactly the replicas that are live in the
  kernel, never more than its limit; a release never fails, and leaves the replica in neither.
\<close>
theorem pool_mirrors_kernel:
  "let p = fold (pool_step ops create_replica destroy_replica) calls (new_replica_pool (new_memory_kernel n) l);
       released = release_replica destroy_replica e i p
   in po_replicas p = om_get (mk_replicas (po_kernel p)) \<and>
      List.length (mk_replicas (po_kernel p)) \<le> unat n \<and>
      is_ok (result released) \<and>
      po_replicas (after released) = (po_replicas p)(i := None) \<and>
      om_get (mk_replicas (po_kernel (after released))) = (po_replicas p)(i := None)"
proof -
  define p where "p = fold (pool_step ops create_replica destroy_replica) calls (new_replica_pool (new_memory_kernel n) l)"
  have "memory_pool.mirrors n (new_replica_pool (new_memory_kernel n) l)"
    by (simp add: memory_pool.mirrors_def memory_ok_def new_replica_pool_def new_memory_kernel_def)
  then have p: "memory_pool.mirrors n p"
    unfolding p_def by (rule pool_system.run_inv) simp
  show ?thesis
    using p memory_pool.release_mirrors [OF p, of e i]
    unfolding p_def [symmetric] Let_def
    by (auto simp: memory_pool.mirrors_def memory_ok_def)
qed

section \<open>Plans\<close>

text \<open>Registered modules allow at least one replica.\<close>

definition modules_ok :: "(string, model_module) om \<Rightarrow> bool" where
  "modules_ok ms \<longleftrightarrow> om_ok ms \<and> (\<forall>k mo. om_get ms k = Some mo \<longrightarrow> 1 \<le> mo_max_replicas mo)"

lemma modules_ok_register: "modules_ok (po_modules p) \<Longrightarrow> modules_ok (po_modules (register_module mo p))"
  by (auto simp: modules_ok_def register_module_def om_insert_ok om_get_update split: if_splits)

lemma provision_one_modules: "po_modules (after (provision_one create e demand sel p)) = po_modules p"
  by (auto simp: provision_one_def log_provisioned_def split: prod.split sum.split)

lemma provision_all_modules: "po_modules (after (provision_all create es demand sels p)) = po_modules p"
proof (induction sels arbitrary: es p)
  case Nil
  then show ?case by simp
next
  case (Cons sel sels)
  obtain r1 p1 where one: "provision_one create (es 0) demand sel p = (r1, p1)"
    by (cases "provision_one create (es 0) demand sel p")
  obtain r2 p2 where rest: "provision_all create (\<lambda>i. es (Suc i)) demand sels p1 = (r2, p2)"
    by (cases "provision_all create (\<lambda>i. es (Suc i)) demand sels p1")
  have "po_modules p1 = po_modules p" "po_modules p2 = po_modules p1"
    using provision_one_modules [of create "es 0" demand sel p] Cons.IH [of "\<lambda>i. es (Suc i)" p1]
    by (simp_all add: one rest)
  then show ?case by (simp add: one rest split: sum.split)
qed

lemma modules_ok_step: "modules_ok (po_modules p) \<Longrightarrow> modules_ok (po_modules (pool_step ops create destroy call p))"
proof (cases call)
  case (Provision es demand)
  assume "modules_ok (po_modules p)"
  moreover have "po_modules (after (provision ops create es demand p)) = po_modules p"
    using provision_all_modules [of create es demand _ p]
    by (auto simp: provision_def split: sum.split prod.split) (metis snd_conv)+
  ultimately show ?thesis by (simp add: Provision pool_step_def)
next
  case (ReleaseReplica e n)
  assume "modules_ok (po_modules p)"
  then show ?thesis
    by (auto simp: ReleaseReplica pool_step_def release_replica_def log_released_def split: option.split sum.split prod.split)
qed (simp add: pool_step_def modules_ok_register)

lemma insert_ranked_set: "set (insert_ranked x xs) = insert x (set xs)"
  by (induction xs) auto

lemma rank_modules_set: "set (rank_modules xs) = set xs"
  unfolding rank_modules_def by (induction xs) (auto simp: insert_ranked_set)

lemma rank_modules_empty: "rank_modules xs = [] \<longleftrightarrow> xs = []"
  using rank_modules_set [of xs] by (metis set_empty)

lemma find_SomeD: "find P xs = Some x \<Longrightarrow> x \<in> set xs \<and> P x"
  by (auto simp: find_Some_iff)

lemma select_modules_cases:
  assumes "scored \<noteq> []"
  shows "(\<exists>x. select_modules needs scored = [x] \<and> x \<in> set scored) \<or>
    (needs \<and> (\<exists>x y. select_modules needs scored = [x, y] \<and> x \<in> set scored \<and> y \<in> set scored \<and>
       mo_kind (fst x) = Ml \<and> mo_kind (fst y) = Ai))"
proof -
  have first: "\<exists>x. take 1 scored = [x] \<and> x \<in> set scored" using assms by (cases scored) auto
  show ?thesis
  proof (cases "\<exists>x y. needs \<and> find (\<lambda>x. mo_kind (fst x) = Ml) scored = Some x \<and>
      find (\<lambda>x. mo_kind (fst x) = Ai) scored = Some y")
    case True
    then obtain x y where n: "needs" and x: "find (\<lambda>x. mo_kind (fst x) = Ml) scored = Some x"
      and y: "find (\<lambda>x. mo_kind (fst x) = Ai) scored = Some y" by blast
    have "select_modules needs scored = [x, y]" by (simp add: select_modules_def n x y)
    then show ?thesis using n find_SomeD [OF x] find_SomeD [OF y] by blast
  next
    case False
    then have "select_modules needs scored = take 1 scored"
      by (auto simp: select_modules_def split: option.split)
    then show ?thesis using first by simp
  qed
qed

definition allots :: "model_module \<times> f64 \<Rightarrow> u32 \<Rightarrow> module_selection" where
  "allots x r = \<lparr>se_module_id = mo_module_id (fst x), se_kind = mo_kind (fst x),
     se_alignment_score = snd x, se_replicas = r\<rparr>"

lemma allots_simps [simp]:
  "se_module_id (allots x r) = mo_module_id (fst x)" "se_kind (allots x r) = mo_kind (fst x)"
  "se_replicas (allots x r) = r"
  by (simp_all add: allots_def)

lemma plan_one: "\<exists>w. plan_selections b True r [x] = [allots x (min (max w 1) (mo_max_replicas (fst x)))]"
  by (rule exI [of _ "if b < r then 1 + (r - b) else 1"]) (cases x, simp add: Let_def allots_def)

lemma plan_two:
  "\<exists>w. plan_selections b True r [x, y] =
     [allots x (min (max w 1) (mo_max_replicas (fst x))), allots y (min (max 1 1) (mo_max_replicas (fst y)))]"
  using plan_one [of b r x] by (cases x; cases y) (auto simp: Let_def allots_def)

lemma plan_shape:
  assumes "scored \<noteq> []" and bound: "\<forall>x\<in>set scored. 1 \<le> mo_max_replicas (fst x)"
  shows "(\<exists>x r. x \<in> set scored \<and> 1 \<le> r \<and> r \<le> mo_max_replicas (fst x) \<and>
      plan_selections b True d (select_modules needs scored) = [allots x r]) \<or>
    (needs \<and> (\<exists>x y r. x \<in> set scored \<and> y \<in> set scored \<and> 1 \<le> r \<and> r \<le> mo_max_replicas (fst x) \<and>
      mo_kind (fst x) = Ml \<and> mo_kind (fst y) = Ai \<and>
      plan_selections b True d (select_modules needs scored) = [allots x r, allots y 1]))"
proof -
  have fits: "1 \<le> min (max w 1) (mo_max_replicas (fst x)) \<and> min (max w 1) (mo_max_replicas (fst x)) \<le> mo_max_replicas (fst x)"
    if "x \<in> set scored" for x and w :: u32
    using bound that by (auto simp: min_def)
  from select_modules_cases [OF assms(1), of needs] show ?thesis
  proof (elim disjE exE conjE)
    fix x assume x: "select_modules needs scored = [x]" "x \<in> set scored"
    then show ?thesis using plan_one [of b d x] fits [OF x(2)] by metis
  next
    fix x y assume "needs" and xy: "select_modules needs scored = [x, y]" "x \<in> set scored" "y \<in> set scored"
      "mo_kind (fst x) = Ml" "mo_kind (fst y) = Ai"
    moreover have "min (max 1 1) (mo_max_replicas (fst y)) = 1" using bound xy(3) by (simp add: min_absorb1)
    ultimately show ?thesis using plan_two [of b d x y] fits [OF xy(2)] by metis
  qed
qed

lemma build_plan_shape:
  assumes "modules_ok ms" and "ms \<noteq> om_empty"
  obtains plan x r where "build_ensemble_plan ops ms demand = Inr plan"
      "en_total_replicas plan = sum_list (map se_replicas (en_modules plan))"
      "x \<in> set (om_values ms)" "1 \<le> r" "r \<le> mo_max_replicas x"
      "(\<exists>v. en_modules plan = [allots (x, v) r]) \<or>
        f64_le ENSEMBLE_COMPLEXITY_THRESHOLD (clamp_unit (rd_complexity demand)) \<and> mo_kind x = Ml \<and>
        (\<exists>y v u. y \<in> set (om_values ms) \<and> 1 \<le> mo_max_replicas y \<and> mo_kind y = Ai \<and>
          en_modules plan = [allots (x, v) r, allots (y, u) 1])"
proof -
  define scored where "scored = rank_modules (map (\<lambda>mo. (mo, module_score ops (clamp_unit (rd_efficiency_target demand)) mo)) (om_values ms))"
  have mem: "fst x \<in> set (om_values ms)" if "x \<in> set scored" for x
    using that by (force simp: scored_def rank_modules_set)
  have bound: "1 \<le> mo_max_replicas m" if "m \<in> set (om_values ms)" for m
    using that assms(1) om_values_mem [of ms m] unfolding modules_ok_def by blast
  have "om_values ms \<noteq> []" using assms(2) by simp
  then have ne: "scored \<noteq> []" by (simp add: scored_def rank_modules_empty)
  let ?needs = "f64_le ENSEMBLE_COMPLEXITY_THRESHOLD (clamp_unit (rd_complexity demand))"
  obtain plan where plan: "build_ensemble_plan ops ms demand = Inr plan"
    using assms(2) by (simp add: build_ensemble_plan_def Let_def)
  have "en_total_replicas plan = sum_list (map se_replicas (en_modules plan)) \<and>
      (\<exists>b d. en_modules plan = plan_selections b True d (select_modules ?needs scored))"
    using plan assms(2) unfolding build_ensemble_plan_def Let_def scored_def by fastforce
  then obtain b d where total: "en_total_replicas plan = sum_list (map se_replicas (en_modules plan))"
    and mods: "en_modules plan = plan_selections b True d (select_modules ?needs scored)" by blast
  have fits: "\<forall>x\<in>set scored. 1 \<le> mo_max_replicas (fst x)" by (intro ballI bound mem)
  from plan_shape [OF ne fits, where b = b and d = d and needs = ?needs] show thesis
  proof (elim disjE exE conjE)
    fix x r assume "x \<in> set scored" "1 \<le> r" "r \<le> mo_max_replicas (fst x)"
      "plan_selections b True d (select_modules ?needs scored) = [allots x r]"
    then show thesis using plan total mods mem by (intro that [of plan "fst x" r]) (cases x, force)+
  next
    fix x y r assume x: "x \<in> set scored" and y: "y \<in> set scored" and r: "1 \<le> r" "r \<le> mo_max_replicas (fst x)"
      and needs: ?needs and kinds: "mo_kind (fst x) = Ml" "mo_kind (fst y) = Ai"
      and two: "plan_selections b True d (select_modules ?needs scored) = [allots x r, allots y 1]"
    have "en_modules plan = [allots (fst x, snd x) r, allots (fst y, snd y) 1]"
      unfolding mods two prod.collapse ..
    then have "\<exists>y' v u. y' \<in> set (om_values ms) \<and> 1 \<le> mo_max_replicas y' \<and> mo_kind y' = Ai \<and>
        en_modules plan = [allots (fst x, v) r, allots (y', u) 1]"
      using mem [OF y] fits y kinds(2) by blast
    then show thesis using needs kinds(1) by (intro that [OF plan total mem [OF x] r]) blast
  qed
qed

text \<open>
  C35: What a plan allocates. Planning fails only without modules. Otherwise it selects one registered
  module, or for a complex demand one of each kind; each gets at least one replica and at most the
  module's own limit, and everything beyond one per module goes to the first. So a plan never asks
  for nothing, even for a demand that allows no replica.
\<close>
theorem plan_within_limits:
  "let p = fold (pool_step ops create_replica destroy_replica) calls (new_replica_pool (new_memory_kernel n) l)
   in case build_ensemble_plan ops (po_modules p) demand of
        Inl err \<Rightarrow> po_modules p = om_empty \<and> err = NoModulesAvailable
      | Inr plan \<Rightarrow>
          po_modules p \<noteq> om_empty \<and>
          list_all (\<lambda>sel. list_ex (\<lambda>mo. mo_module_id mo = se_module_id sel \<and> mo_kind mo = se_kind sel \<and>
              1 \<le> se_replicas sel \<and> se_replicas sel \<le> mo_max_replicas mo) (om_values (po_modules p)))
            (en_modules plan) \<and>
          list_all (\<lambda>sel. se_replicas sel = 1) (tl (en_modules plan)) \<and>
          (List.length (en_modules plan) = 1 \<or>
           map se_kind (en_modules plan) = [Ml, Ai] \<and>
           f64_le ENSEMBLE_COMPLEXITY_THRESHOLD (clamp_unit (rd_complexity demand))) \<and>
          en_total_replicas plan = sum_list (map se_replicas (en_modules plan))"
proof -
  define p :: "(memory_kernel, 'a) replica_pool" where
    "p = fold (pool_step ops create_replica destroy_replica) calls (new_replica_pool (new_memory_kernel n) l)"
  have keeps: "modules_ok (po_modules (fold (pool_step ops create_replica destroy_replica) calls q))"
    if "modules_ok (po_modules q)" for q :: "(memory_kernel, 'a) replica_pool"
    using that by (induction calls arbitrary: q) (auto simp: modules_ok_step)
  have ok: "modules_ok (po_modules p)"
    unfolding p_def by (rule keeps) (simp add: new_replica_pool_def modules_ok_def)
  show ?thesis
  proof (cases "po_modules p = om_empty")
    case True
    then show ?thesis unfolding p_def [symmetric] by (simp add: build_ensemble_plan_def)
  next
    case False
    show ?thesis unfolding p_def [symmetric] Let_def
      by (rule build_plan_shape [OF ok False, of ops demand]) (use False in \<open>fastforce simp: list_ex_iff\<close>)
  qed
qed

end
