(* ===== verification/Signing.thy ===== *)
theory Signing
  imports Pipeline_Schema
begin

text \<open>
  Artifact signatures (\<open>ify-security/src/artifact_signing.rs\<close>): the signer and the verifier over the
  64-bit mixing of key and payload, the hexadecimal form of a signature and the canonical form of a
  payload. A key and a payload are byte lists. \<open>serde_json::to_vec\<close> is the crate's and is the
  argument \<open>to_vec\<close>.
\<close>

unbundle bit_operations_syntax

section \<open>The mixing function\<close>

definition fnv_offset :: u64 where
  "fnv_offset = 0xcbf29ce484222325"

definition fnv_prime :: u64 where
  "fnv_prime = 0x00000100000001b3"

text \<open>One turn of the loop: \<open>state ^= b; state = state.wrapping_mul(prime)\<close>.\<close>

definition fnv_step :: "u64 \<Rightarrow> u8 \<Rightarrow> u64" where
  "fnv_step state b = (state XOR ucast b) * fnv_prime"

fun fnv_mix :: "u64 \<Rightarrow> u8 list \<Rightarrow> u64" where
  "fnv_mix state [] = state"
| "fnv_mix state (b # bs) = fnv_mix (fnv_step state b) bs"

text \<open>The \<open>k\<close> low bytes of a number, least significant first; \<open>to_le_bytes\<close> takes eight.\<close>

fun le_digits :: "nat \<Rightarrow> nat \<Rightarrow> u8 list" where
  "le_digits 0 n = []"
| "le_digits (Suc k) n = of_nat (n mod 256) # le_digits k (n div 256)"

definition to_le_bytes :: "u64 \<Rightarrow> u8 list" where
  "to_le_bytes w = le_digits 8 (unat w)"

definition sign_bytes :: "u8 list \<Rightarrow> u8 list \<Rightarrow> u8 list" where
  "sign_bytes key payload = to_le_bytes (fnv_mix fnv_offset (key @ payload))"

text \<open>\<open>format!("{b:02x}")\<close> of every byte.\<close>

definition hex_digit :: "nat \<Rightarrow> char" where
  "hex_digit n = char_of (if n < 10 then 48 + n else 87 + n)"

definition hex_byte :: "u8 \<Rightarrow> string" where
  "hex_byte b = [hex_digit (unat b div 16), hex_digit (unat b mod 16)]"

definition hex_encode :: "u8 list \<Rightarrow> string" where
  "hex_encode bs = concat (map hex_byte bs)"

section \<open>Canonical payloads\<close>

text \<open>\<open>collect\<close> into an object: every entry is inserted.\<close>

definition om_collect :: "('k::linorder \<times> 'v) list \<Rightarrow> ('k, 'v) om" where
  "om_collect xs = fold (\<lambda>(k, v) m. om_insert k v m) xs om_empty"

lemma json_entry_smaller: "(k, v) \<in> set m \<Longrightarrow> size v < size (JObject m)"
  by (induction m) auto

lemma json_item_smaller: "v \<in> set xs \<Longrightarrow> size v < size (JArray xs)"
  by (induction xs) auto

text \<open>\<open>sort_by_key(|(k, _)| *k)\<close>, then the values canonically, then a new object.\<close>

function canonical_json_value :: "'n json \<Rightarrow> 'n json" where
  "canonical_json_value (JObject m) =
     JObject (om_collect (map (\<lambda>(k, v). (k, canonical_json_value v)) (sort_key fst m)))"
| "canonical_json_value (JArray xs) = JArray (map canonical_json_value xs)"
| "canonical_json_value JNull = JNull"
| "canonical_json_value (JBool b) = JBool b"
| "canonical_json_value (JNumber n) = JNumber n"
| "canonical_json_value (JString s) = JString s"
  by pat_completeness auto
termination
  by (relation "measure size") (use json_entry_smaller json_item_smaller in \<open>force+\<close>)

definition canonical_json_bytes :: "('n json \<Rightarrow> string + u8 list) \<Rightarrow> 'n json \<Rightarrow> string + u8 list" where
  "canonical_json_bytes to_vec v = to_vec (canonical_json_value v)"

section \<open>Signer and verifier\<close>

datatype signing_error = VerificationFailed uuid | Serialization string

record artifact_signature =
  as_value :: string
  as_key_id :: string
  as_algorithm :: string

record 'n signed_artifact =
  sa_artifact_id :: uuid
  sa_payload :: "'n json"
  sa_signature :: artifact_signature

record artifact_signer =
  sg_key_id :: string
  sg_key_bytes :: "u8 list"

record artifact_verifier =
  vf_key_bytes :: "u8 list"

definition sign_artifact ::
  "('n json \<Rightarrow> string + u8 list) \<Rightarrow> artifact_signer \<Rightarrow> uuid \<Rightarrow> 'n json
     \<Rightarrow> signing_error + 'n signed_artifact" where
  "sign_artifact to_vec s artifact_id payload =
     (case canonical_json_bytes to_vec payload of
        Inl e \<Rightarrow> Inl (Serialization e)
      | Inr canonical \<Rightarrow>
          Inr \<lparr>sa_artifact_id = artifact_id, sa_payload = payload,
               sa_signature = \<lparr>as_value = hex_encode (sign_bytes (sg_key_bytes s) canonical),
                               as_key_id = sg_key_id s, as_algorithm = ''hmac-fnv64''\<rparr>\<rparr>)"

definition verify_artifact ::
  "('n json \<Rightarrow> string + u8 list) \<Rightarrow> artifact_verifier \<Rightarrow> 'n signed_artifact \<Rightarrow> signing_error + unit" where
  "verify_artifact to_vec v a =
     (case canonical_json_bytes to_vec (sa_payload a) of
        Inl e \<Rightarrow> Inl (Serialization e)
      | Inr canonical \<Rightarrow>
          if hex_encode (sign_bytes (vf_key_bytes v) canonical) \<noteq> as_value (sa_signature a)
          then Inl (VerificationFailed (sa_artifact_id a))
          else Inr ())"

end
