(* ===== verification/Supply_Chain.thy ===== *)
theory Supply_Chain
  imports Signing
begin

text \<open>
  The software bill of materials and the verification of its components
  (\<open>ify-security/src/supply_chain.rs\<close>). The component map is a \<open>HashMap\<close>; its entries are kept in
  one order, here that of the keys, and nothing stated of them depends on it.
\<close>

datatype supply_chain_error =
    SignatureInvalid string string
  | DuplicateComponent string string
  | MissingSignature string string

datatype component_kind = Library | ContainerImage | KernelModule | OsPackage | ModelArtifact | AgentTemplate

record component_record =
  co_id :: uuid
  co_name :: string
  co_version :: string
  co_ecosystem :: string
  co_kind :: component_kind
  co_source_url :: "string option"
  co_content_hash :: "string option"
  co_signature :: "string option"
  co_signature_key_id :: "string option"
  co_known_vulnerabilities :: "string list"

definition new_component :: "uuid \<Rightarrow> string \<Rightarrow> string \<Rightarrow> string \<Rightarrow> component_kind \<Rightarrow> component_record" where
  "new_component fresh name version ecosystem kind =
     \<lparr>co_id = fresh, co_name = name, co_version = version, co_ecosystem = ecosystem, co_kind = kind,
      co_source_url = None, co_content_hash = None, co_signature = None, co_signature_key_id = None,
      co_known_vulnerabilities = []\<rparr>"

definition with_source :: "string \<Rightarrow> component_record \<Rightarrow> component_record" where
  "with_source url c = c\<lparr>co_source_url := Some url\<rparr>"

definition with_signature :: "string \<Rightarrow> string \<Rightarrow> string \<Rightarrow> component_record \<Rightarrow> component_record" where
  "with_signature content_hash signature key_id c =
     c\<lparr>co_content_hash := Some content_hash, co_signature := Some signature,
       co_signature_key_id := Some key_id\<rparr>"

definition with_vulnerabilities :: "string list \<Rightarrow> component_record \<Rightarrow> component_record" where
  "with_vulnerabilities cves c = c\<lparr>co_known_vulnerabilities := cves\<rparr>"

section \<open>The bill of materials\<close>

record sbom =
  sb_sbom_id :: uuid
  sb_release_label :: string
  sb_generated_at :: string
  sb_components :: "(uuid, component_record) om"

definition new_sbom :: "uuid \<Rightarrow> string \<Rightarrow> string \<Rightarrow> sbom" where
  "new_sbom fresh release_label generated_at =
     \<lparr>sb_sbom_id = fresh, sb_release_label = release_label, sb_generated_at = generated_at,
      sb_components = om_empty\<rparr>"

definition add_component :: "component_record \<Rightarrow> sbom \<Rightarrow> (supply_chain_error, uuid, sbom) outcome" where
  "add_component c s =
     (if \<exists>d \<in> set (om_values (sb_components s)). co_name d = co_name c \<and> co_version d = co_version c
      then (Inl (DuplicateComponent (co_name c) (co_version c)), s)
      else (Inr (co_id c), s\<lparr>sb_components := om_insert (co_id c) c (sb_components s)\<rparr>))"

definition get_component :: "sbom \<Rightarrow> uuid \<Rightarrow> component_record option" where
  "get_component s k = om_get (sb_components s) k"

definition component_count :: "sbom \<Rightarrow> nat" where
  "component_count s = List.length (sb_components s)"

definition vulnerable_components :: "sbom \<Rightarrow> component_record list" where
  "vulnerable_components s = filter (\<lambda>c. co_known_vulnerabilities c \<noteq> []) (om_values (sb_components s))"

section \<open>The verifier\<close>

record supply_chain_verifier =
  sv_trusted_keys :: "string \<rightharpoonup> u8 list"

definition new_chain_verifier :: supply_chain_verifier where
  "new_chain_verifier = \<lparr>sv_trusted_keys = Map.empty\<rparr>"

definition add_trusted_key :: "string \<Rightarrow> u8 list \<Rightarrow> supply_chain_verifier \<Rightarrow> supply_chain_verifier" where
  "add_trusted_key key_id key_bytes v = v\<lparr>sv_trusted_keys := (sv_trusted_keys v)(key_id \<mapsto> key_bytes)\<rparr>"

text \<open>\<open>str::as_bytes\<close>: a string of the model is its bytes.\<close>

definition as_bytes :: "string \<Rightarrow> u8 list" where
  "as_bytes s = map of_char s"

definition sign_hash :: "u8 list \<Rightarrow> u8 list \<Rightarrow> u8 list" where
  "sign_hash key hash = to_le_bytes (fnv_mix fnv_offset (key @ hash))"

text \<open>A key identifier without an entry stands for the empty key.\<close>

definition verify_component :: "supply_chain_verifier \<Rightarrow> component_record \<Rightarrow> supply_chain_error + unit" where
  "verify_component v c =
     (case co_content_hash c of
        None \<Rightarrow> Inl (MissingSignature (co_name c) (co_version c))
      | Some content_hash \<Rightarrow>
          (case co_signature c of
             None \<Rightarrow> Inl (MissingSignature (co_name c) (co_version c))
           | Some signature \<Rightarrow>
               let key_id = (case co_signature_key_id c of None \<Rightarrow> [] | Some k \<Rightarrow> k);
                   key_bytes = (case sv_trusted_keys v key_id of None \<Rightarrow> [] | Some k \<Rightarrow> k)
               in if hex_encode (sign_hash key_bytes (as_bytes content_hash)) \<noteq> signature
                  then Inl (SignatureInvalid (co_name c) (co_version c))
                  else Inr ()))"

definition verify_sbom :: "supply_chain_verifier \<Rightarrow> sbom \<Rightarrow> supply_chain_error list" where
  "verify_sbom v s =
     List.map_filter (\<lambda>c. err_of (verify_component v c))
       (filter (\<lambda>c. co_signature c \<noteq> None) (om_values (sb_components s)))"

end
