(* ===== verification/Signing_Claims.thy ===== *)
theory Signing_Claims
  imports Supply_Chain
begin

text \<open>
  What signatures are worth: the mixing function can be run backwards, so the hexadecimal form,
  the byte order and the state are all invertible. Verification accepts what the signer signed, and
  whoever has seen one signature can sign anything. The canonical form of a payload, and what the
  verification of a bill of materials accepts.
\<close>

unbundle bit_operations_syntax

section \<open>Running the mixing backwards\<close>

definition fnv_inverse :: u64 where
  "fnv_inverse = 0xce965057aff6957b"

lemma fnv_prime_inverse: "fnv_prime * fnv_inverse = 1"
  by (simp add: fnv_prime_def fnv_inverse_def)

definition fnv_unstep :: "u64 \<Rightarrow> u8 \<Rightarrow> u64" where
  "fnv_unstep state b = (state * fnv_inverse) XOR ucast b"

lemma fnv_unstep_step: "fnv_unstep (fnv_step s b) b = s"
  by (simp add: fnv_unstep_def fnv_step_def mult.assoc fnv_prime_inverse xor.assoc)

fun fnv_unmix :: "u64 \<Rightarrow> u8 list \<Rightarrow> u64" where
  "fnv_unmix state [] = state"
| "fnv_unmix state (b # bs) = fnv_unstep (fnv_unmix state bs) b"

lemma fnv_unmix_mix: "fnv_unmix (fnv_mix s bs) bs = s"
  by (induction bs arbitrary: s) (simp_all add: fnv_unstep_step)

lemma fnv_mix_append: "fnv_mix s (bs @ cs) = fnv_mix (fnv_mix s bs) cs"
  by (induction bs arbitrary: s) simp_all

section \<open>Bytes and digits\<close>

fun from_le_digits :: "u8 list \<Rightarrow> nat" where
  "from_le_digits [] = 0"
| "from_le_digits (b # bs) = unat b + 256 * from_le_digits bs"

lemma from_le_digits_inverse: "from_le_digits (le_digits k n) = n mod 256 ^ k"
proof (induction k arbitrary: n)
  case (Suc k)
  have "unat (of_nat (n mod 256) :: u8) = n mod 256" by (simp add: unat_of_nat)
  then show ?case by (simp add: Suc mod_mult2_eq)
qed simp

lemma from_to_le_bytes: "of_nat (from_le_digits (to_le_bytes w)) = w"
proof -
  have "unat w < 256 ^ 8" using unsigned_less [of w] by simp
  then show ?thesis by (simp add: to_le_bytes_def from_le_digits_inverse)
qed

lemma length_le_digits: "List.length (le_digits k n) = k"
  by (induction k arbitrary: n) simp_all

lemma length_hex_encode: "List.length (hex_encode bs) = 2 * List.length bs"
  by (induction bs) (simp_all add: hex_encode_def hex_byte_def)

definition hex_value :: "char \<Rightarrow> nat" where
  "hex_value c = (let n = of_char c in if n < 58 then n - 48 else n - 87)"

lemma hex_value_digit: "n < 16 \<Longrightarrow> hex_value (hex_digit n) = n"
  by (simp add: hex_value_def hex_digit_def Let_def)

fun hex_decode :: "string \<Rightarrow> u8 list" where
  "hex_decode (c # d # s) = of_nat (16 * hex_value c + hex_value d) # hex_decode s"
| "hex_decode _ = []"

lemma hex_decode_encode: "hex_decode (hex_encode bs) = bs"
proof (induction bs)
  case (Cons b bs)
  have "unat b < 256" using unsigned_less [of b] by simp
  then have "hex_value (hex_digit (unat b div 16)) = unat b div 16"
    "hex_value (hex_digit (unat b mod 16)) = unat b mod 16" by (simp_all add: hex_value_digit)
  moreover have "(of_nat (16 * (unat b div 16) + unat b mod 16) :: u8) = b" by (simp del: of_nat_add)
  ultimately show ?case using Cons by (simp add: hex_encode_def hex_byte_def del: of_nat_add)
qed (simp add: hex_encode_def)

lemma hex_encode_inject: "hex_encode bs = hex_encode cs \<longleftrightarrow> bs = cs"
  by (metis hex_decode_encode)

lemma to_le_bytes_inject: "to_le_bytes v = to_le_bytes w \<longleftrightarrow> v = w"
  by (metis from_to_le_bytes)

text \<open>The state a signature shows, and a signature of any bytes from the one of others.\<close>

definition signature_state :: "string \<Rightarrow> u64" where
  "signature_state value = of_nat (from_le_digits (hex_decode value))"

lemma signature_state_sign: "signature_state (hex_encode (sign_bytes key bs)) = fnv_mix fnv_offset (key @ bs)"
  by (simp add: signature_state_def sign_bytes_def hex_decode_encode from_to_le_bytes)

definition forge_value :: "string \<Rightarrow> u8 list \<Rightarrow> u8 list \<Rightarrow> string" where
  "forge_value value seen wanted =
     hex_encode (to_le_bytes (fnv_mix (fnv_unmix (signature_state value) seen) wanted))"

lemma forge_value_signs:
  "forge_value (hex_encode (sign_bytes key seen)) seen wanted = hex_encode (sign_bytes key wanted)"
  unfolding forge_value_def signature_state_sign
  by (simp add: fnv_mix_append fnv_unmix_mix sign_bytes_def)

text \<open>The verification compares the whole state, and nothing but the state.\<close>

lemma verify_artifact_iff:
  "verify_artifact to_vec v a = Inr () \<longleftrightarrow>
     (\<exists>bs. canonical_json_bytes to_vec (sa_payload a) = Inr bs \<and>
       as_value (sa_signature a) = hex_encode (sign_bytes (vf_key_bytes v) bs))"
  by (auto simp: verify_artifact_def split: sum.split)

section \<open>Canonical payloads\<close>

text \<open>Well-formed values: the entries of every object are in key order, as the crate keeps them.\<close>

fun json_ok :: "'n json \<Rightarrow> bool" where
  "json_ok (JObject m) = (om_ok m \<and> (\<forall>e \<in> set m. json_ok (snd e)))"
| "json_ok (JArray xs) = (\<forall>x \<in> set xs. json_ok x)"
| "json_ok _ = True"

lemma om_insert_last: "\<forall>e \<in> set m. fst e < k \<Longrightarrow> om_insert k v m = m @ [(k, v)]"
  by (induction m) auto

lemma om_collect_sorted:
  assumes "om_ok m"
  shows "om_collect m = m"
proof -
  have "fold (\<lambda>(k, v) m. om_insert k v m) m acc = acc @ m"
    if "om_ok (acc @ m)" for acc :: "('a \<times> 'b) list" and m
    using that
  proof (induction m arbitrary: acc)
    case (Cons e m)
    obtain k v where e: "e = (k, v)" by (cases e)
    have "\<forall>x \<in> set acc. fst x < k"
      using Cons.prems by (auto simp: e om_ok_def sorted_wrt_append)
    then have "om_insert k v acc = acc @ [(k, v)]" by (rule om_insert_last)
    with Cons e show ?case by simp
  qed simp
  from this [of om_empty m] show ?thesis using assms by (simp add: om_collect_def)
qed

lemma sort_key_om_ok: "om_ok m \<Longrightarrow> sort_key fst m = m"
  by (simp add: om_ok_sorted sort_key_id_if_sorted)

lemma canonical_id: "json_ok v \<Longrightarrow> canonical_json_value v = v"
proof (induction v rule: canonical_json_value.induct)
  case (1 m)
  then have ok: "om_ok m" by simp
  have same: "map (\<lambda>(k, v). (k, canonical_json_value v)) m = m"
    using 1 by (intro map_idI) (auto simp: sort_key_om_ok)
  show ?case by (simp add: sort_key_om_ok ok same om_collect_sorted)
qed (auto intro: map_idI)

section \<open>What a signature proves\<close>

text \<open>
  Signing fails only when the payload cannot be serialised. What was signed verifies under the
  key of the signer, whatever key identifier, algorithm and artifact identifier it carries; the same
  signature on another payload or under another key verifies exactly when the two mixed states
  agree.
\<close>
theorem signatures_checked:
  "case sign_artifact to_vec s i p of
     Inl e \<Rightarrow> (\<exists>m. canonical_json_bytes to_vec p = Inl m \<and> e = Serialization m)
   | Inr a \<Rightarrow>
       sa_artifact_id a = i \<and> sa_payload a = p \<and>
       verify_artifact to_vec \<lparr>vf_key_bytes = sg_key_bytes s\<rparr>
         (a\<lparr>sa_artifact_id := j, sa_signature := (sa_signature a)\<lparr>as_key_id := k, as_algorithm := alg\<rparr>\<rparr>) = Inr () \<and>
       (verify_artifact to_vec v (a\<lparr>sa_payload := q\<rparr>) = Inr () \<longleftrightarrow>
         (\<exists>bs cs. canonical_json_bytes to_vec p = Inr bs \<and> canonical_json_bytes to_vec q = Inr cs \<and>
           fnv_mix fnv_offset (vf_key_bytes v @ cs) = fnv_mix fnv_offset (sg_key_bytes s @ bs)))"
proof (cases "canonical_json_bytes to_vec p")
  case (Inr bs)
  then show ?thesis
    by (auto simp: sign_artifact_def verify_artifact_iff hex_encode_inject sign_bytes_def to_le_bytes_inject)
qed (simp add: sign_artifact_def)

text \<open>The artifact someone without the key makes of a signed one.\<close>

definition forge_artifact ::
  "('n json \<Rightarrow> string + u8 list) \<Rightarrow> 'n signed_artifact \<Rightarrow> 'n json \<Rightarrow> 'n signed_artifact" where
  "forge_artifact to_vec a q =
     (case (canonical_json_bytes to_vec (sa_payload a), canonical_json_bytes to_vec q) of
        (Inr seen, Inr wanted) \<Rightarrow>
          a\<lparr>sa_payload := q,
            sa_signature := (sa_signature a)\<lparr>as_value := forge_value (as_value (sa_signature a)) seen wanted\<rparr>\<rparr>
      | _ \<Rightarrow> a)"

text \<open>
  C23: One signature is enough to sign anything. From any artifact a verifier accepts, and without
  its key, an artifact with any other payload can be computed that the verifier accepts as well: the
  mixing multiplies by an odd number and can be undone byte by byte.
\<close>
theorem signature_forgeable:
  "if verify_artifact to_vec v a = Inr () \<and> is_ok (canonical_json_bytes to_vec q)
   then sa_payload (forge_artifact to_vec a q) = q \<and>
        verify_artifact to_vec v (forge_artifact to_vec a q) = Inr ()
   else True"
proof (cases "canonical_json_bytes to_vec q")
  case (Inr wanted)
  show ?thesis
    by (auto simp: verify_artifact_iff forge_artifact_def Inr forge_value_signs)
qed simp

section \<open>Bills of materials\<close>

definition component_keys :: "sbom \<Rightarrow> (string \<times> string) list" where
  "component_keys s = map (\<lambda>c. (co_name c, co_version c)) (om_values (sb_components s))"

definition sbom_ok :: "sbom \<Rightarrow> bool" where
  "sbom_ok s \<longleftrightarrow> om_ok (sb_components s) \<and> distinct (component_keys s)"

lemma component_taken:
  "(\<exists>d \<in> set (om_values (sb_components s)). co_name d = co_name c \<and> co_version d = co_version c) \<longleftrightarrow>
     (co_name c, co_version c) \<in> set (component_keys s)"
  by (force simp: component_keys_def)

lemma add_component_cases:
  "add_component c s =
     (if (co_name c, co_version c) \<in> set (component_keys s)
      then (Inl (DuplicateComponent (co_name c) (co_version c)), s)
      else (Inr (co_id c), s\<lparr>sb_components := om_insert (co_id c) c (sb_components s)\<rparr>))"
  unfolding add_component_def component_taken ..

lemma sbom_ok_add:
  assumes "sbom_ok s"
  shows "sbom_ok (after (add_component c s))"
proof (cases "(co_name c, co_version c) \<in> set (component_keys s)")
  case False
  then have "distinct (map (\<lambda>c. (co_name c, co_version c)) (om_values (om_insert (co_id c) c (sb_components s))))"
    using assms unfolding sbom_ok_def component_keys_def set_map
    by (intro om_insert_values_distinct) (simp_all only: set_map not_False_eq_True)
  then show ?thesis
    using assms False by (simp add: add_component_cases sbom_ok_def om_insert_ok) (simp add: component_keys_def)
qed (use assms in \<open>simp add: add_component_cases\<close>)

interpretation sbom_system: invariant_system "\<lambda>_ _. True" "\<lambda>c s. after (add_component c s)" sbom_ok
  by unfold_locales (rule sbom_ok_add)

lemma verify_sbom_Nil:
  "verify_sbom v s = [] \<longleftrightarrow>
     list_all (\<lambda>c. case co_signature c of None \<Rightarrow> True | Some _ \<Rightarrow> verify_component v c = Inr ())
       (om_values (sb_components s))"
proof -
  have "err_of r = None \<longleftrightarrow> r = Inr ()" for r :: "supply_chain_error + unit" by (cases r) auto
  then show ?thesis
    by (auto simp: verify_sbom_def map_filter_Nil list_all_iff split: option.splits)
qed

text \<open>
  What a bill of materials guarantees. Whatever is added, no two components share name and
  version, and a component is refused exactly when its name and version are taken. Verifying the
  bill reports nothing exactly when every component that carries a signature verifies: components
  without one are not reported.
\<close>
theorem sbom_verified:
  "let s = fold (\<lambda>c s. after (add_component c s)) cs (new_sbom i label time)
   in distinct (component_keys s) \<and>
      (is_ok (result (add_component c s)) \<longleftrightarrow> (co_name c, co_version c) \<notin> set (component_keys s)) \<and>
      (verify_sbom v s = [] \<longleftrightarrow>
        list_all (\<lambda>d. case co_signature d of None \<Rightarrow> True | Some _ \<Rightarrow> verify_component v d = Inr ())
          (om_values (sb_components s)))"
proof -
  define s where "s = fold (\<lambda>c s. after (add_component c s)) cs (new_sbom i label time)"
  have "sbom_ok s"
    unfolding s_def by (rule sbom_system.run_inv) (simp_all add: sbom_ok_def new_sbom_def component_keys_def)
  moreover have "is_ok (result (add_component c s)) \<longleftrightarrow> (co_name c, co_version c) \<notin> set (component_keys s)"
    by (simp add: add_component_cases)
  ultimately show ?thesis
    unfolding s_def [symmetric] Let_def by (simp add: sbom_ok_def verify_sbom_Nil)
qed

text \<open>
  Which components verify. A component without hash or signature does not. Otherwise its
  signature must be the mix of its hash under the trusted key it names, or under the empty key when
  it names one that is not trusted: so anyone can sign a component that verifies, by naming an
  unknown key.
\<close>
theorem unknown_key_verifies:
  "(case (co_content_hash c, co_signature c) of
      (Some h, Some sig) \<Rightarrow>
        verify_component v c = Inr () \<longleftrightarrow>
          sig = hex_encode (sign_hash (case sv_trusted_keys v (case co_signature_key_id c of None \<Rightarrow> [] | Some k \<Rightarrow> k) of
                                         None \<Rightarrow> [] | Some key \<Rightarrow> key) (as_bytes h))
    | _ \<Rightarrow> verify_component v c = Inl (MissingSignature (co_name c) (co_version c))) \<and>
   (if sv_trusted_keys v k = None
    then verify_component v (with_signature h (hex_encode (sign_hash [] (as_bytes h))) k c) = Inr ()
    else True)"
  by (auto simp: verify_component_def with_signature_def Let_def split: option.split)

end
