(* ===== verification/Sandbox.thy ===== *)
theory Sandbox
  imports Action_Log
begin

text \<open>
  Sandboxed tools (\<open>ify-security/src/sandbox.rs\<close>): profiles, the check of a resource against the
  profile of a tool, and the violations it logs. \<open>Path::components\<close> and \<open>Path::starts_with\<close> of the
  standard library are modelled for Unix paths: empty segments and inner dots vanish, two dots stay.
\<close>

section \<open>Paths\<close>

datatype path_component = RootDir | CurDir | ParentDir | Normal string

fun split_path :: "string \<Rightarrow> string list" where
  "split_path [] = [[]]"
| "split_path (x # xs) =
     (if x = CHR ''/'' then [] # split_path xs
      else case split_path xs of [] \<Rightarrow> [[x]] | s # ss \<Rightarrow> (x # s) # ss)"

definition segment :: "string \<Rightarrow> path_component option" where
  "segment s =
     (if s = [] \<or> s = ''.'' then None else if s = ''..'' then Some ParentDir else Some (Normal s))"

definition leading :: "string \<Rightarrow> path_component list" where
  "leading p =
     (if prefix ''/'' p then [RootDir] else if p = ''.'' \<or> prefix ''./'' p then [CurDir] else [])"

definition path_components :: "string \<Rightarrow> path_component list" where
  "path_components p = leading p @ List.map_filter segment (split_path p)"

definition path_starts_with :: "string \<Rightarrow> string \<Rightarrow> bool" where
  "path_starts_with p base = prefix (path_components base) (path_components p)"

section \<open>Profiles and resources\<close>

datatype sandbox_error =
    PathNotAllowed string string
  | WriteNotAllowed string string
  | HostNotAllowed string string
  | ModelNotAllowed string string
  | NoProfile string

primrec sandbox_error_text :: "sandbox_error \<Rightarrow> string" where
  "sandbox_error_text (PathNotAllowed tool path) =
     ''sandbox: path '' @ quoted path @ '' not in allowed prefix list for tool '' @ quoted tool"
| "sandbox_error_text (WriteNotAllowed tool path) =
     ''sandbox: filesystem write access denied for tool '' @ quoted tool @ '' on path '' @ quoted path"
| "sandbox_error_text (HostNotAllowed tool host) =
     ''sandbox: network host '' @ quoted host @ '' not allowed for tool '' @ quoted tool"
| "sandbox_error_text (ModelNotAllowed tool model_id) =
     ''sandbox: model '' @ quoted model_id @ '' not allowed for tool '' @ quoted tool"
| "sandbox_error_text (NoProfile tool) = ''sandbox: no profile registered for tool '' @ quoted tool"

datatype path_access = Read | Write

record tool_profile =
  sp_tool_name :: string
  sp_allowed_paths :: "string list"
  sp_allowed_hosts :: "string list"
  sp_allowed_models :: "string list"
  sp_allow_fs_write :: bool
  sp_allow_network :: bool

definition deny_all :: "string \<Rightarrow> tool_profile" where
  "deny_all tool_name =
     \<lparr>sp_tool_name = tool_name, sp_allowed_paths = [], sp_allowed_hosts = [], sp_allowed_models = [],
      sp_allow_fs_write = False, sp_allow_network = False\<rparr>"

definition with_path :: "string \<Rightarrow> tool_profile \<Rightarrow> tool_profile" where
  "with_path p pr = pr\<lparr>sp_allowed_paths := sp_allowed_paths pr @ [p]\<rparr>"

definition with_host :: "string \<Rightarrow> tool_profile \<Rightarrow> tool_profile" where
  "with_host host pr = pr\<lparr>sp_allow_network := True, sp_allowed_hosts := sp_allowed_hosts pr @ [host]\<rparr>"

definition with_model :: "string \<Rightarrow> tool_profile \<Rightarrow> tool_profile" where
  "with_model model_id pr = pr\<lparr>sp_allowed_models := sp_allowed_models pr @ [model_id]\<rparr>"

definition with_fs_write :: "tool_profile \<Rightarrow> tool_profile" where
  "with_fs_write pr = pr\<lparr>sp_allow_fs_write := True\<rparr>"

datatype sandbox_resource = Path string path_access | Host string | Model string

definition read_path :: "string \<Rightarrow> sandbox_resource" where
  "read_path p = Path p Read"

definition write_path :: "string \<Rightarrow> sandbox_resource" where
  "write_path p = Path p Write"

type_synonym sandbox_policy = "string \<rightharpoonup> tool_profile"

definition register_profile :: "tool_profile \<Rightarrow> sandbox_policy \<Rightarrow> sandbox_policy" where
  "register_profile pr policy = policy(sp_tool_name pr \<mapsto> pr)"

section \<open>The enforcer\<close>

record 'j sandbox_enforcer =
  se_policy :: sandbox_policy
  se_action_log :: "'j action_log option"

definition new_enforcer :: "sandbox_policy \<Rightarrow> 'j sandbox_enforcer" where
  "new_enforcer policy = \<lparr>se_policy = policy, se_action_log = None\<rparr>"

definition enforcer_with_log :: "'j action_log \<Rightarrow> 'j sandbox_enforcer \<Rightarrow> 'j sandbox_enforcer" where
  "enforcer_with_log l s = s\<lparr>se_action_log := Some l\<rparr>"

definition check_inner :: "string \<Rightarrow> tool_profile \<Rightarrow> sandbox_resource \<Rightarrow> sandbox_error + unit" where
  "check_inner tool_name pr resource =
     (case resource of
        Path path access \<Rightarrow>
          if \<not> list_ex (path_starts_with path) (sp_allowed_paths pr)
          then Inl (PathNotAllowed tool_name path)
          else if access = Write \<and> \<not> sp_allow_fs_write pr
          then Inl (WriteNotAllowed tool_name path)
          else Inr ()
      | Host host \<Rightarrow>
          if \<not> sp_allow_network pr then Inl (HostNotAllowed tool_name host)
          else if \<not> list_ex (\<lambda>h. h = host) (sp_allowed_hosts pr)
          then Inl (HostNotAllowed tool_name host)
          else Inr ()
      | Model model_id \<Rightarrow>
          if \<not> list_ex (\<lambda>m. m = model_id) (sp_allowed_models pr)
          then Inl (ModelNotAllowed tool_name model_id)
          else Inr ())"

definition emit_violation :: "env \<Rightarrow> string \<Rightarrow> string \<Rightarrow> 'j sandbox_enforcer \<Rightarrow> 'j sandbox_enforcer" where
  "emit_violation e tool_name reason s =
     (case se_action_log s of
        None \<Rightarrow> s
      | Some l \<Rightarrow>
          s\<lparr>se_action_log := Some (append_log
              (new_entry e SecuritySandboxViolation System None None
                 [(''tool'', PText tool_name), (''reason'', PText reason)]) l)\<rparr>)"

text \<open>The missing profile returns before anything is logged.\<close>

definition check_resource ::
  "env \<Rightarrow> string \<Rightarrow> sandbox_resource \<Rightarrow> 'j sandbox_enforcer
     \<Rightarrow> (sandbox_error, unit, 'j sandbox_enforcer) outcome" where
  "check_resource e tool_name resource s =
     (case se_policy s tool_name of
        None \<Rightarrow> (Inl (NoProfile tool_name), s)
      | Some pr \<Rightarrow>
          (case check_inner tool_name pr resource of
             Inl err \<Rightarrow> (Inl err, emit_violation e tool_name (sandbox_error_text err) s)
           | Inr _ \<Rightarrow> (Inr (), s)))"

end
