(* ===== verification/Sandbox_Claims.thy ===== *)
theory Sandbox_Claims
  imports Sandbox
begin

text \<open>
  What the sandbox admits and what it logs: prefixes end at component boundaries, every request is
  decided by the profile of its tool, and two dots lead out of every allowed path.
\<close>

section \<open>Components\<close>

lemma split_path_not_Nil [simp]: "split_path s \<noteq> []"
  by (cases s) (auto split: list.split)

lemma split_path_append: "split_path (xs @ CHR ''/'' # ys) = split_path xs @ split_path ys"
proof (induction xs)
  case (Cons x xs)
  then show ?case by (cases "split_path xs") auto
qed simp

lemma leading_append: "p \<noteq> [] \<Longrightarrow> leading (p @ CHR ''/'' # q) = leading p"
  by (cases p; cases "tl p") (auto simp: leading_def)

lemma path_components_append:
  "p \<noteq> [] \<Longrightarrow> path_components (p @ CHR ''/'' # q) =
     path_components p @ List.map_filter segment (split_path q)"
  by (simp add: path_components_def leading_append split_path_append map_filter_append)

lemma path_components_absolute:
  "path_components (CHR ''/'' # q) = RootDir # List.map_filter segment (split_path q)"
  by (simp add: path_components_def leading_def segment_def List.map_filter_simps)

lemma starts_with_self_append: "path_starts_with (p @ CHR ''/'' # q) p"
proof (cases "p = []")
  case True
  then show ?thesis by (simp add: path_starts_with_def path_components_def leading_def segment_def List.map_filter_simps)
next
  case False
  then show ?thesis by (simp add: path_starts_with_def path_components_append)
qed

section \<open>Where a path leads\<close>

text \<open>
  The names a path resolves to without symbolic links, from a working directory: the stack of
  directory names, innermost first.
\<close>

fun resolve :: "string list \<Rightarrow> path_component list \<Rightarrow> string list" where
  "resolve dirs [] = dirs"
| "resolve dirs (RootDir # cs) = resolve [] cs"
| "resolve dirs (CurDir # cs) = resolve dirs cs"
| "resolve dirs (ParentDir # cs) = resolve (tl dirs) cs"
| "resolve dirs (Normal s # cs) = resolve (s # dirs) cs"

lemma resolve_append: "resolve dirs (cs @ ds) = resolve (resolve dirs cs) ds"
  by (induction dirs cs rule: resolve.induct) simp_all

lemma resolve_length: "List.length (resolve dirs cs) \<le> List.length dirs + List.length cs"
proof (induction dirs cs rule: resolve.induct)
  case (4 dirs cs)
  then show ?case by (cases dirs) simp_all
qed simp_all

lemma resolve_parents: "List.length dirs \<le> n \<Longrightarrow> resolve dirs (replicate n ParentDir) = []"
proof (induction n arbitrary: dirs)
  case (Suc n)
  then show ?case by (cases dirs) simp_all
qed simp

text \<open>A chain of \<open>n\<close> steps up followed by a path from the root.\<close>

fun climb :: "nat \<Rightarrow> string \<Rightarrow> string" where
  "climb 0 target = target"
| "climb (Suc n) target = ''/..'' @ climb n target"

lemma segments_climb:
  "List.map_filter segment (split_path (climb n (CHR ''/'' # t))) =
     replicate n ParentDir @ List.map_filter segment (split_path t)"
proof (induction n)
  case 0
  show ?case by (simp add: segment_def List.map_filter_simps)
next
  case (Suc n)
  obtain q where q: "climb n (CHR ''/'' # t) = CHR ''/'' # q" by (cases n) auto
  have "split_path (climb (Suc n) (CHR ''/'' # t)) = [[], ''..''] @ split_path q"
    using split_path_append [of "''/..''" q] by (simp add: q)
  moreover have "split_path (CHR ''/'' # q) = [] # split_path q" by simp
  ultimately show ?case using Suc by (simp add: q segment_def List.map_filter_simps)
qed

lemma resolve_climb:
  assumes "List.length cwd + List.length (path_components p) \<le> n"
  shows "resolve cwd (path_components (p @ climb n (CHR ''/'' # t))) =
    resolve cwd (path_components (CHR ''/'' # t))"
proof -
  let ?segs = "\<lambda>q. List.map_filter segment (split_path q)"
  obtain q where q: "climb n (CHR ''/'' # t) = CHR ''/'' # q" by (cases n) auto
  have segs: "?segs q = replicate n ParentDir @ ?segs t"
    using segments_climb [of n t] by (simp add: q segment_def List.map_filter_simps)
  have "resolve cwd (path_components (p @ CHR ''/'' # q)) = resolve [] (?segs t)"
  proof (cases "p = []")
    case True
    then show ?thesis by (simp add: path_components_absolute segs resolve_append resolve_parents)
  next
    case False
    have "List.length (resolve cwd (path_components p)) \<le> n"
      using resolve_length [of cwd "path_components p"] assms by simp
    then show ?thesis by (simp add: path_components_append False segs resolve_append resolve_parents)
  qed
  then show ?thesis by (simp add: q path_components_absolute)
qed

section \<open>What the sandbox decides\<close>

text \<open>
  Every request is decided by the profile of its tool alone. A path is admitted exactly when the
  components of some allowed path begin its own, so never by a longer name, and a write only with
  the write permission; a host only with network access and by its exact name; a model by its exact
  name; nothing without a profile.
\<close>
theorem sandbox_decides:
  "is_ok (result (check_resource e tool r s)) \<longleftrightarrow>
     (case se_policy s tool of
        None \<Rightarrow> False
      | Some pr \<Rightarrow>
          (case r of
             Path p access \<Rightarrow>
               list_ex (\<lambda>a. \<exists>rest. path_components p = path_components a @ rest) (sp_allowed_paths pr) \<and>
               (case access of Read \<Rightarrow> True | Write \<Rightarrow> sp_allow_fs_write pr)
           | Host h \<Rightarrow> sp_allow_network pr \<and> h \<in> set (sp_allowed_hosts pr)
           | Model m \<Rightarrow> m \<in> set (sp_allowed_models pr)))"
  by (auto simp: check_resource_def check_inner_def list_ex_iff path_starts_with_def prefix_def
      split: option.splits sandbox_resource.splits path_access.splits)

text \<open>
  With a log attached, a refused request of a tool with a profile appends exactly one violation,
  with the error as its reason; an admitted request appends nothing, and neither does the refusal
  of a tool without a profile. The policy never changes.
\<close>
theorem sandbox_violations_logged:
  "let (res, s') = check_resource e tool r (enforcer_with_log l s)
   in se_policy s' = se_policy s \<and>
      se_action_log s' = Some
        (case (res, se_policy s tool) of
           (Inl err, Some _) \<Rightarrow>
             append_log (new_entry e SecuritySandboxViolation System None None
               [(''tool'', PText tool), (''reason'', PText (sandbox_error_text err))]) l
         | _ \<Rightarrow> l)"
  by (auto simp: check_resource_def emit_violation_def enforcer_with_log_def Let_def
      split: option.splits sum.splits)

text \<open>
  Two dots lead out of the sandbox. Whatever path a profile allows and whatever absolute path
  is wanted, enough steps up from the allowed path and then the wanted one are admitted, for reading
  and, with the permission, for writing; the path leads where the wanted one leads.
\<close>
theorem sandbox_escape:
  "let p = allowed @ climb (List.length cwd + List.length (path_components allowed)) (CHR ''/'' # t)
   in resolve cwd (path_components p) = resolve cwd (path_components (CHR ''/'' # t)) \<and>
      result (check_resource e (sp_tool_name pr) (read_path p)
        (new_enforcer (register_profile (with_path allowed pr) policy))) = Inr () \<and>
      result (check_resource e (sp_tool_name pr) (write_path p)
        (new_enforcer (register_profile (with_fs_write (with_path allowed pr)) policy))) = Inr ()"
proof -
  let ?n = "List.length cwd + List.length (path_components allowed)"
  obtain q where "climb ?n (CHR ''/'' # t) = CHR ''/'' # q" by (cases ?n) auto
  then have "path_starts_with (allowed @ climb ?n (CHR ''/'' # t)) allowed"
    by (simp add: starts_with_self_append)
  moreover have "resolve cwd (path_components (allowed @ climb ?n (CHR ''/'' # t))) =
      resolve cwd (path_components (CHR ''/'' # t))" by (rule resolve_climb) simp
  ultimately show ?thesis
    unfolding Let_def
    by (simp add: check_resource_def check_inner_def read_path_def write_path_def new_enforcer_def
        register_profile_def with_path_def with_fs_write_def)
qed

end
