(* ===== verification/Policy_Engine.thy ===== *)
theory Policy_Engine
  imports Action_Log Ordered_Map "HOL-Library.Multiset"
begin

text \<open>
  Who may do what: the rules of the policy engine (\<open>ify-security/src/policy.rs\<close>) and the principals
  with their capabilities (\<open>ify-security/src/identity.rs\<close>). The \<open>Debug\<close> form of a string escapes by
  the Unicode tables of the standard library and is the argument \<open>quote\<close>.
\<close>

unbundle bit_operations_syntax

section \<open>Requests and rules\<close>

datatype policy_error = DuplicateRule string | RuleNotFound string

datatype decision = Allow | Deny

datatype action_type = ReadAction | WriteAction | DeleteAction | ExecuteAction | DeployAction | PublishAction
  | AdminAction | CustomAction string

primrec action_text :: "(string \<Rightarrow> string) \<Rightarrow> action_type \<Rightarrow> string" where
  "action_text quote ReadAction = ''Read''"
| "action_text quote WriteAction = ''Write''"
| "action_text quote DeleteAction = ''Delete''"
| "action_text quote ExecuteAction = ''Execute''"
| "action_text quote DeployAction = ''Deploy''"
| "action_text quote PublishAction = ''Publish''"
| "action_text quote AdminAction = ''Admin''"
| "action_text quote (CustomAction s) = ''Custom('' @ quote s @ '')''"

record policy_request =
  pq_principal_id :: string
  pq_principal_kind :: string
  pq_action :: action_type
  pq_resource :: string
  pq_dimension_id :: "dimension_id option"
  pq_context :: "string \<rightharpoonup> string"

definition new_policy_request :: "string \<Rightarrow> string \<Rightarrow> action_type \<Rightarrow> string \<Rightarrow> policy_request" where
  "new_policy_request principal_id principal_kind action resource =
     \<lparr>pq_principal_id = principal_id, pq_principal_kind = principal_kind, pq_action = action,
      pq_resource = resource, pq_dimension_id = None, pq_context = Map.empty\<rparr>"

definition request_with_dimension :: "dimension_id \<Rightarrow> policy_request \<Rightarrow> policy_request" where
  "request_with_dimension dim q = q\<lparr>pq_dimension_id := Some dim\<rparr>"

definition request_with_context :: "string \<Rightarrow> string \<Rightarrow> policy_request \<Rightarrow> policy_request" where
  "request_with_context key v q = q\<lparr>pq_context := (pq_context q)(key \<mapsto> v)\<rparr>"

datatype policy_condition =
    PrincipalIs string
  | PrincipalKindIs string
  | ActionIs action_type
  | ResourceStartsWith string
  | ResourceIs string
  | ContextEquals string string

primrec condition_matches :: "policy_request \<Rightarrow> policy_condition \<Rightarrow> bool" where
  "condition_matches q (PrincipalIs i) = (pq_principal_id q = i)"
| "condition_matches q (PrincipalKindIs kind) = (pq_principal_kind q = kind)"
| "condition_matches q (ActionIs action) = (pq_action q = action)"
| "condition_matches q (ResourceStartsWith p) = prefix p (pq_resource q)"
| "condition_matches q (ResourceIs r) = (pq_resource q = r)"
| "condition_matches q (ContextEquals key v) =
     (case pq_context q key of None \<Rightarrow> False | Some w \<Rightarrow> w = v)"

record policy_rule =
  pu_id :: string
  pu_description :: string
  pu_conditions :: "policy_condition list"
  pu_decision :: decision
  pu_priority :: u32

definition new_policy_rule :: "string \<Rightarrow> string \<Rightarrow> decision \<Rightarrow> u32 \<Rightarrow> policy_rule" where
  "new_policy_rule i description decision priority =
     \<lparr>pu_id = i, pu_description = description, pu_conditions = [], pu_decision = decision,
      pu_priority = priority\<rparr>"

definition rule_with_condition :: "policy_condition \<Rightarrow> policy_rule \<Rightarrow> policy_rule" where
  "rule_with_condition c r = r\<lparr>pu_conditions := pu_conditions r @ [c]\<rparr>"

definition rule_matches :: "policy_request \<Rightarrow> policy_rule \<Rightarrow> bool" where
  "rule_matches q r = list_all (condition_matches q) (pu_conditions r)"

section \<open>The engine\<close>

record 'j policy_engine =
  pe_rules :: "policy_rule list"
  pe_action_log :: "'j action_log option"

definition new_policy_engine :: "'j policy_engine" where
  "new_policy_engine = \<lparr>pe_rules = [], pe_action_log = None\<rparr>"

definition engine_with_log :: "'j action_log \<Rightarrow> 'j policy_engine \<Rightarrow> 'j policy_engine" where
  "engine_with_log l s = s\<lparr>pe_action_log := Some l\<rparr>"

definition add_rule :: "policy_rule \<Rightarrow> 'j policy_engine \<Rightarrow> (policy_error, unit, 'j policy_engine) outcome" where
  "add_rule r s =
     (if list_ex (\<lambda>x. pu_id x = pu_id r) (pe_rules s) then (Inl (DuplicateRule (pu_id r)), s)
      else (Inr (), s\<lparr>pe_rules := sort_key pu_priority (pe_rules s @ [r])\<rparr>))"

definition remove_rule :: "string \<Rightarrow> 'j policy_engine \<Rightarrow> (policy_error, unit, 'j policy_engine) outcome" where
  "remove_rule i s =
     (case position (\<lambda>r. pu_id r = i) (pe_rules s) of
        None \<Rightarrow> (Inl (RuleNotFound i), s)
      | Some n \<Rightarrow> (Inr (), s\<lparr>pe_rules := take n (pe_rules s) @ drop (Suc n) (pe_rules s)\<rparr>))"

definition emit_access_denied ::
  "(string \<Rightarrow> string) \<Rightarrow> env \<Rightarrow> policy_request \<Rightarrow> string option \<Rightarrow> 'j policy_engine \<Rightarrow> 'j policy_engine" where
  "emit_access_denied quote e q rule_id s =
     (case pe_action_log s of
        None \<Rightarrow> s
      | Some l \<Rightarrow>
          s\<lparr>pe_action_log := Some (append_log
              (new_entry e SecurityAccessDenied System (pq_dimension_id q) None
                 [(''principal_id'', PText (pq_principal_id q)),
                  (''principal_kind'', PText (pq_principal_kind q)),
                  (''action'', PText (action_text quote (pq_action q))),
                  (''resource'', PText (pq_resource q)),
                  (''rule_id'', case rule_id of None \<Rightarrow> PNull | Some i \<Rightarrow> PText i)]) l)\<rparr>)"

text \<open>The loop returns at the first rule that matches.\<close>

definition evaluate_policy ::
  "(string \<Rightarrow> string) \<Rightarrow> env \<Rightarrow> policy_request \<Rightarrow> 'j policy_engine \<Rightarrow> decision \<times> 'j policy_engine" where
  "evaluate_policy quote e q s =
     (case find (rule_matches q) (pe_rules s) of
        Some r \<Rightarrow>
          (pu_decision r,
           if pu_decision r = Deny then emit_access_denied quote e q (Some (pu_id r)) s else s)
      | None \<Rightarrow> (Deny, emit_access_denied quote e q None s))"

section \<open>Principals\<close>

datatype identity_error =
    PrincipalNotFound string
  | DuplicatePrincipal string
  | AccessDenied string u64

datatype principal_kind = UserPrincipal | AgentPrincipal | ToolPrincipal

record principal =
  pn_id :: uuid
  pn_name :: string
  pn_kind :: principal_kind
  pn_capabilities :: u64
  pn_dimension_id :: "dimension_id option"

definition new_principal ::
  "uuid \<Rightarrow> string \<Rightarrow> principal_kind \<Rightarrow> u64 \<Rightarrow> dimension_id option \<Rightarrow> principal" where
  "new_principal fresh name kind capabilities dimension_id =
     \<lparr>pn_id = fresh, pn_name = name, pn_kind = kind, pn_capabilities = capabilities,
      pn_dimension_id = dimension_id\<rparr>"

text \<open>\<open>contains\<close> of the bit mask: every required bit is set.\<close>

definition caps_contain :: "u64 \<Rightarrow> u64 \<Rightarrow> bool" where
  "caps_contain caps required = (caps AND required = required)"

definition has_capabilities :: "principal \<Rightarrow> u64 \<Rightarrow> bool" where
  "has_capabilities p required = caps_contain (pn_capabilities p) required"

datatype resource_kind = SecretResource | ArtifactResource | NodeResource | DeploymentResource
  | ModelResource | BlockchainResource | AdminConfigResource

primrec resource_capability :: "resource_kind \<Rightarrow> capability" where
  "resource_capability SecretResource = READ_SECRETS"
| "resource_capability ArtifactResource = READ_ARTIFACTS"
| "resource_capability NodeResource = READ_ARTIFACTS"
| "resource_capability DeploymentResource = DEPLOY"
| "resource_capability ModelResource = INVOKE_MODEL"
| "resource_capability BlockchainResource = INVOKE_TOOLS"
| "resource_capability AdminConfigResource = ADMIN"

definition check_access :: "principal \<Rightarrow> resource_kind \<Rightarrow> identity_error + unit" where
  "check_access p r =
     (let required = capability_bits (resource_capability r)
      in if has_capabilities p required then Inr () else Inl (AccessDenied (pn_name p) required))"

text \<open>The principals are a \<open>HashMap\<close>; its entries are kept in the order of the keys.\<close>

type_synonym identity_registry = "(uuid, principal) om"

definition register_principal ::
  "principal \<Rightarrow> identity_registry \<Rightarrow> (identity_error, uuid, identity_registry) outcome" where
  "register_principal p m =
     (case find (\<lambda>x. pn_name x = pn_name p) (om_values m) of
        Some _ \<Rightarrow> (Inl (DuplicatePrincipal (pn_name p)), m)
      | None \<Rightarrow> (Inr (pn_id p), om_insert (pn_id p) p m))"

definition get_principal :: "identity_registry \<Rightarrow> uuid \<Rightarrow> principal option" where
  "get_principal m k = om_get m k"

definition principal_by_name :: "identity_registry \<Rightarrow> string \<Rightarrow> principal option" where
  "principal_by_name m name = find (\<lambda>p. pn_name p = name) (om_values m)"

definition deregister_principal :: "uuid \<Rightarrow> identity_registry \<Rightarrow> principal option \<times> identity_registry" where
  "deregister_principal k m = (om_get m k, om_remove k m)"

end
