(* ===== verification/Policy_Claims.thy ===== *)
theory Policy_Claims
  imports Policy_Engine
begin

text \<open>
  The policy engine decides by the earliest of the most urgent matching rules and denies otherwise;
  its sorted list refines the list of rules in the order they were added. Principals keep unique
  names, and a capability is held exactly when it was granted.
\<close>

unbundle bit_operations_syntax

section \<open>Sorted rule lists\<close>

lemma find_filter: "find p xs = (case filter p xs of [] \<Rightarrow> None | x # _ \<Rightarrow> Some x)"
  by (induction xs) auto

lemma find_holds: "find p xs = Some x \<Longrightarrow> x \<in> set xs \<and> p x"
  by (auto simp: find_Some_iff)

lemma sort_key_snoc_sorted: "sort_key f (sort_key f xs @ [x]) = sort_key f (xs @ [x])"
proof (rule properties_for_sort_key)
  fix k
  assume "k \<in> set (sort_key f (xs @ [x]))"
  show "filter (\<lambda>y. f k = f y) (sort_key f (xs @ [x])) = filter (\<lambda>y. f k = f y) (sort_key f xs @ [x])"
    using sort_key_stable [of f "f k" "xs @ [x]"] sort_key_stable [of f "f k" xs]
    by (simp add: eq_commute [of "f k"])
qed simp_all

text \<open>The head of a list sorted by \<open>f\<close> is the first of the least.\<close>

lemma hd_sort_key:
  assumes "xs \<noteq> []"
  shows "Some (hd (sort_key f xs)) = find (\<lambda>x. f x = Min (f ` set xs)) xs"
proof -
  have "sort_key f xs \<noteq> []" using assms by (metis length_0_conv length_sort)
  then obtain y ys where zs: "sort_key f xs = y # ys" by (cases "sort_key f xs") auto
  have set: "set (y # ys) = set xs" using set_sort [of f xs] zs by simp
  have "sorted (map f (y # ys))" using sorted_sort_key [of f xs] zs by simp
  then have "\<forall>z \<in> set (y # ys). f y \<le> f z" by simp
  then have min: "f y = Min (f ` set xs)"
    unfolding set [symmetric] by (intro Min_eqI [symmetric]) auto
  have "filter (\<lambda>x. f x = Min (f ` set xs)) xs = filter (\<lambda>x. f x = Min (f ` set xs)) (y # ys)"
    using sort_key_stable [of f "Min (f ` set xs)" xs] zs by simp
  then show ?thesis using min by (simp add: find_filter zs)
qed

lemma find_sort_key:
  "find p (sort_key f xs) = (let ys = filter p xs in find (\<lambda>x. f x = Min (f ` set ys)) ys)"
proof (cases "filter p xs = []")
  case True
  then have "find p (sort_key f xs) = None" by (auto simp: find_None_iff filter_empty_conv)
  then show ?thesis unfolding Let_def True by simp
next
  case False
  have "find p (sort_key f xs) = Some (hd (sort_key f (filter p xs)))"
    using False by (metis find_filter filter_sort hd_Cons_tl length_0_conv length_sort list.simps(5))
  then show ?thesis unfolding Let_def hd_sort_key [OF False] .
qed

section \<open>Runs of the engine\<close>

datatype policy_call = AddRule policy_rule | RemoveRule string

primrec policy_step :: "policy_call \<Rightarrow> 'j policy_engine \<Rightarrow> 'j policy_engine" where
  "policy_step (AddRule r) s = after (add_rule r s)"
| "policy_step (RemoveRule i) s = after (remove_rule i s)"

text \<open>What a run means: the rules in the order they were added.\<close>

primrec rules_step :: "policy_call \<Rightarrow> policy_rule list \<Rightarrow> policy_rule list" where
  "rules_step (AddRule r) rs = (if pu_id r \<in> pu_id ` set rs then rs else rs @ [r])"
| "rules_step (RemoveRule i) rs = filter (\<lambda>r. pu_id r \<noteq> i) rs"

lemma remove_at:
  assumes "distinct (map f xs)" and "position (\<lambda>x. f x = k) xs = Some n"
  shows "take n xs @ drop (Suc n) xs = filter (\<lambda>x. f x \<noteq> k) xs"
proof -
  obtain ys x zs where xs: "xs = ys @ x # zs" "List.length ys = n" "f x = k" "\<forall>y \<in> set ys. f y \<noteq> k"
    using position_Some [OF assms(2)] by auto
  have "f x \<notin> f ` set zs" using assms(1) unfolding xs(1) by simp
  then have "\<forall>z \<in> set zs. f z \<noteq> k" using xs(3) by (metis imageI)
  with xs show ?thesis by (simp add: filter_id_conv)
qed

definition rules_refine :: "'j policy_engine \<Rightarrow> policy_rule list \<Rightarrow> bool" where
  "rules_refine s rs \<longleftrightarrow> pe_rules s = sort_key pu_priority rs \<and> distinct (map pu_id rs)"

lemma rules_refine_step:
  assumes "rules_refine s rs"
  shows "rules_refine (policy_step c s) (rules_step c rs)"
proof (cases c)
  case (AddRule r)
  have "list_ex (\<lambda>x. pu_id x = pu_id r) (pe_rules s) \<longleftrightarrow> pu_id r \<in> pu_id ` set rs"
    using assms by (simp add: rules_refine_def list_ex_iff image_iff) metis
  with assms show ?thesis
    by (simp add: AddRule add_rule_def rules_refine_def sort_key_snoc_sorted)
next
  case (RemoveRule i)
  have dist: "distinct (map pu_id (sort_key pu_priority rs))"
  proof -
    have "mset (map pu_id (sort_key pu_priority rs)) = mset (map pu_id rs)" by simp
    then show ?thesis using assms by (metis mset_eq_imp_distinct_iff rules_refine_def)
  qed
  show ?thesis
  proof (cases "position (\<lambda>r. pu_id r = i) (pe_rules s)")
    case None
    then have "filter (\<lambda>r. pu_id r \<noteq> i) rs = rs"
      using assms by (auto simp: position_None rules_refine_def filter_id_conv)
    with assms None show ?thesis by (simp add: RemoveRule remove_rule_def)
  next
    case (Some n)
    then have "pe_rules (policy_step c s) = filter (\<lambda>r. pu_id r \<noteq> i) (sort_key pu_priority rs)"
      using assms remove_at [OF dist] by (simp add: RemoveRule remove_rule_def rules_refine_def)
    then show ?thesis
      using assms by (simp add: RemoveRule rules_refine_def filter_sort distinct_map_filter)
  qed
qed

lemma rules_refine_run:
  "rules_refine s rs \<Longrightarrow> rules_refine (fold policy_step calls s) (fold rules_step calls rs)"
  by (induction calls arbitrary: s rs) (auto simp: rules_refine_step)

text \<open>
  C22: How a request is decided. After any run of additions and removals, some refused, the engine
  denies a request that no rule matches; otherwise it decides by the first added of the matching rules
  with the least priority number. With a log attached it appends one denial when it denies, naming
  that rule, and nothing when it allows; it never changes its rules.
\<close>
theorem policy_decides:
  "let s = fold policy_step calls new_policy_engine;
       rules = filter (rule_matches q) (fold rules_step calls []);
       winner = find (\<lambda>r. pu_priority r = Min (pu_priority ` set rules)) rules;
       (decided, s') = evaluate_policy quote e q (engine_with_log l s)
   in decided = (case winner of None \<Rightarrow> Deny | Some r \<Rightarrow> pu_decision r) \<and>
      (winner = None \<longleftrightarrow> rules = []) \<and>
      pe_rules s' = pe_rules s \<and>
      map_option al_entries (pe_action_log s') = Some (al_entries l @
        (case decided of Allow \<Rightarrow> []
         | Deny \<Rightarrow> [new_entry e SecurityAccessDenied System (pq_dimension_id q) None
             [(''principal_id'', PText (pq_principal_id q)), (''principal_kind'', PText (pq_principal_kind q)),
              (''action'', PText (action_text quote (pq_action q))), (''resource'', PText (pq_resource q)),
              (''rule_id'', case winner of None \<Rightarrow> PNull | Some r \<Rightarrow> PText (pu_id r))]]))"
proof -
  define s :: "'a policy_engine" where "s = fold policy_step calls new_policy_engine"
  define rules where "rules = filter (rule_matches q) (fold rules_step calls [])"
  define winner where "winner = find (\<lambda>r. pu_priority r = Min (pu_priority ` set rules)) rules"
  have "rules_refine s (fold rules_step calls [])"
    unfolding s_def by (rule rules_refine_run) (simp add: rules_refine_def new_policy_engine_def)
  then have found: "find (rule_matches q) (pe_rules s) = winner"
    unfolding rules_refine_def rules_def winner_def by (simp only: find_sort_key Let_def)
  have none: "winner = None \<longleftrightarrow> rules = []"
  proof (cases "rules = []")
    case False
    then have "Min (pu_priority ` set rules) \<in> pu_priority ` set rules" by simp
    then obtain r where "r \<in> set rules" "pu_priority r = Min (pu_priority ` set rules)" by (metis imageE)
    then have "winner \<noteq> None" unfolding winner_def find_None_iff by blast
    then show ?thesis using False by simp
  qed (simp add: winner_def)
  show ?thesis
    unfolding s_def [symmetric] rules_def [symmetric] winner_def [symmetric] Let_def
    using found none
    by (auto simp: evaluate_policy_def engine_with_log_def emit_access_denied_def append_log_def
        split: option.split decision.split)
qed

section \<open>Principals\<close>

definition principal_names :: "identity_registry \<Rightarrow> string list" where
  "principal_names m = map pn_name (om_values m)"

definition identity_ok :: "identity_registry \<Rightarrow> bool" where
  "identity_ok m \<longleftrightarrow> om_ok m \<and> distinct (principal_names m)"

datatype identity_call = RegisterPrincipal principal | DeregisterPrincipal uuid

primrec identity_step :: "identity_call \<Rightarrow> identity_registry \<Rightarrow> identity_registry" where
  "identity_step (RegisterPrincipal p) m = after (register_principal p m)"
| "identity_step (DeregisterPrincipal k) m = snd (deregister_principal k m)"

lemma register_principal_cases:
  "register_principal p m =
     (if pn_name p \<in> set (principal_names m) then (Inl (DuplicatePrincipal (pn_name p)), m)
      else (Inr (pn_id p), om_insert (pn_id p) p m))"
proof (cases "find (\<lambda>x. pn_name x = pn_name p) (om_values m)")
  case None
  then have "pn_name p \<notin> pn_name ` set (om_values m)" by (auto simp: find_None_iff simp del: set_map)
  then show ?thesis unfolding register_principal_def principal_names_def set_map [symmetric] by (simp add: None)
next
  case (Some x)
  then have "x \<in> set (om_values m) \<and> pn_name x = pn_name p" by (rule find_holds)
  then have "pn_name p \<in> set (principal_names m)" unfolding principal_names_def set_map by (metis imageI)
  then show ?thesis by (simp add: register_principal_def Some)
qed

lemma identity_ok_step:
  assumes "identity_ok m"
  shows "identity_ok (identity_step c m)"
proof (cases c)
  case (RegisterPrincipal p)
  show ?thesis
  proof (cases "pn_name p \<in> set (principal_names m)")
    case False
    then have "distinct (map pn_name (om_values (om_insert (pn_id p) p m)))"
      using assms unfolding identity_ok_def principal_names_def set_map
      by (intro om_insert_values_distinct) (simp_all only: set_map not_False_eq_True)
    then show ?thesis
      using assms False
      by (simp only: RegisterPrincipal register_principal_cases identity_step.simps identity_ok_def
          principal_names_def om_insert_ok if_False snd_conv simp_thms)
  qed (use assms in \<open>simp add: RegisterPrincipal register_principal_cases\<close>)
next
  case (DeregisterPrincipal k)
  then show ?thesis
    using assms
    by (simp add: identity_ok_def principal_names_def deregister_principal_def om_remove_ok)
      (simp add: om_remove_def distinct_map_filter)
qed

interpretation identities: invariant_system "\<lambda>_ _. True" identity_step identity_ok
  by unfold_locales (rule identity_ok_step)

text \<open>
  Names identify principals. After any run of registrations and removals no two principals share
  a name; a registration is refused exactly when the name is taken; and a lookup by name finds
  exactly the principal with that name, whatever order the map is iterated in.
\<close>
theorem principals_by_name:
  "let m = fold identity_step calls om_empty
   in distinct (principal_names m) \<and>
      (is_ok (result (register_principal p m)) \<longleftrightarrow> pn_name p \<notin> set (principal_names m)) \<and>
      (principal_by_name m n = Some x \<longleftrightarrow> x \<in> set (om_values m) \<and> pn_name x = n)"
proof -
  define m where "m = fold identity_step calls om_empty"
  have "identity_ok m"
    unfolding m_def by (rule identities.run_inv) (simp_all add: identity_ok_def principal_names_def)
  then have dist: "distinct (map pn_name (om_values m))" by (simp add: identity_ok_def principal_names_def)
  have "principal_by_name m n = Some x \<longleftrightarrow> x \<in> set (om_values m) \<and> pn_name x = n"
  proof
    assume "principal_by_name m n = Some x"
    then show "x \<in> set (om_values m) \<and> pn_name x = n"
      unfolding principal_by_name_def by (rule find_holds)
  next
    assume x: "x \<in> set (om_values m) \<and> pn_name x = n"
    then have "principal_by_name m n \<noteq> None" unfolding principal_by_name_def find_None_iff by blast
    then obtain y where y: "principal_by_name m n = Some y" by blast
    then have "y \<in> set (om_values m) \<and> pn_name y = n"
      unfolding principal_by_name_def by (rule find_holds)
    then have "y = x" using x dist unfolding distinct_map inj_on_def by metis
    with y show "principal_by_name m n = Some x" by simp
  qed
  then show ?thesis
    using dist unfolding m_def [symmetric] Let_def
    by (simp add: principal_names_def register_principal_cases)
qed

section \<open>Capabilities\<close>

definition grant :: "capability list \<Rightarrow> u64" where
  "grant cs = foldr (\<lambda>c m. capability_bits c OR m) cs 0"

lemma caps_contain_grant: "caps_contain (grant cs) (capability_bits c) \<longleftrightarrow> c \<in> set cs"
proof (induction cs)
  case Nil
  show ?case by (simp add: caps_contain_def grant_def capability_bits_nonzero)
next
  case (Cons d cs)
  let ?m = "grant cs"
  have step: "grant (d # cs) AND capability_bits c = (capability_bits d AND capability_bits c) OR (?m AND capability_bits c)"
    by (simp add: grant_def bit.conj_disj_distrib2)
  show ?case
  proof (cases "d = c")
    case True
    have "capability_bits c OR (?m AND capability_bits c) = capability_bits c"
      by (simp add: bit_eq_iff bit_or_iff bit_and_iff)
    then show ?thesis using step by (simp add: caps_contain_def True)
  next
    case False
    then show ?thesis using step Cons by (simp add: caps_contain_def capability_bits_disjoint)
  qed
qed

text \<open>
  Access follows the grants. A principal that was granted a list of capabilities may access a kind
  of resource exactly when the capability of that kind is in the list; no other grant, not even the
  administrator's, stands in for it. A refusal names the principal and what is missing.
\<close>
theorem access_follows_grants:
  "check_access (p\<lparr>pn_capabilities := grant cs\<rparr>) r =
     (if resource_capability r \<in> set cs then Inr ()
      else Inl (AccessDenied (pn_name p) (capability_bits (resource_capability r))))"
  by (simp add: check_access_def has_capabilities_def caps_contain_grant)

end
