(* ===== verification/Audit_Trail.thy ===== *)
theory Audit_Trail
  imports Policy_Engine Signing Mesh_Schema
begin

text \<open>
  The hash-chained trail of privileged actions (\<open>ify-security/src/audit.rs\<close>). The texts of a UUID
  and of a JSON value are their crates' and the hash of a string is the \<open>DefaultHasher\<close>, whose
  algorithm the standard library leaves open: they are the record \<open>hash_ops\<close> of arguments.
\<close>

record 'j hash_ops =
  ho_uuid_text :: "uuid \<Rightarrow> string"
  ho_json_text :: "'j \<Rightarrow> string"
  ho_hash :: "string \<Rightarrow> u64"

datatype audit_error = MissingCapabilityContext | AuditStorage string

datatype privileged_action = ReadSecret | Deploy | CapabilityChange | AdminChange | MarketplacePublish

primrec required_capability :: "privileged_action \<Rightarrow> capability" where
  "required_capability ReadSecret = READ_SECRETS"
| "required_capability Deploy = DEPLOY"
| "required_capability CapabilityChange = ADMIN"
| "required_capability AdminChange = ADMIN"
| "required_capability MarketplacePublish = PUBLISH_MARKETPLACE"

primrec privileged_event :: "privileged_action \<Rightarrow> event_type" where
  "privileged_event ReadSecret = PrivilegedReadSecret"
| "privileged_event Deploy = PrivilegedDeploy"
| "privileged_event CapabilityChange = PrivilegedCapabilityChange"
| "privileged_event AdminChange = PrivilegedAdminChange"
| "privileged_event MarketplacePublish = PrivilegedMarketplacePublish"

primrec privileged_text :: "privileged_action \<Rightarrow> string" where
  "privileged_text ReadSecret = ''ReadSecret''"
| "privileged_text Deploy = ''Deploy''"
| "privileged_text CapabilityChange = ''CapabilityChange''"
| "privileged_text AdminChange = ''AdminChange''"
| "privileged_text MarketplacePublish = ''MarketplacePublish''"

record 'j audit_record =
  ar_record_id :: uuid
  ar_kind :: privileged_action
  ar_actor :: string
  ar_dimension_id :: dimension_id
  ar_task_id :: task_id
  ar_capabilities :: u64
  ar_payload :: 'j
  ar_occurred_at_ms :: u64
  ar_prev_hash :: string
  ar_hash :: string

text \<open>\<open>{:016x}\<close>: the bytes from the most significant on.\<close>

definition hex16 :: "u64 \<Rightarrow> string" where
  "hex16 w = hex_encode (rev (to_le_bytes w))"

definition compute_hash ::
  "'j hash_ops \<Rightarrow> uuid \<Rightarrow> privileged_action \<Rightarrow> string \<Rightarrow> dimension_id \<Rightarrow> task_id \<Rightarrow> u64 \<Rightarrow> string \<Rightarrow> 'j
     \<Rightarrow> string" where
  "compute_hash ops record_id kind actor dimension_id task_id occurred_at_ms prev_hash payload =
     hex16 (ho_hash ops
       (ho_uuid_text ops record_id @ ''|'' @ privileged_text kind @ ''|'' @ actor @ ''|''
        @ ho_uuid_text ops dimension_id @ ''|'' @ ho_uuid_text ops task_id @ ''|''
        @ show_nat (unat occurred_at_ms) @ ''|'' @ prev_hash @ ''|'' @ ho_json_text ops payload))"

primrec actor_to_string :: "actor \<Rightarrow> string" where
  "actor_to_string (User name) = ''user:'' @ name"
| "actor_to_string (Agent name) = ''agent:'' @ name"
| "actor_to_string System = ''system''"
| "actor_to_string Kernel = ''kernel''"

section \<open>The log\<close>

text \<open>The payload goes to the action log as it is, under no key of its own.\<close>

record 'j audit_log =
  au_action_log :: "'j action_log"
  au_records :: "'j audit_record list"

definition new_audit_log :: "'j action_log \<Rightarrow> 'j audit_log" where
  "new_audit_log l = \<lparr>au_action_log = l, au_records = []\<rparr>"

definition last_hash :: "'j audit_record list \<Rightarrow> string" where
  "last_hash rs = (if rs = [] then [] else ar_hash (List.last rs))"

text \<open>
  \<open>record_id\<close> and \<open>now\<close> are the UUID and the time drawn for the record, \<open>e\<close> those of the entry.
\<close>

definition record_action ::
  "'j hash_ops \<Rightarrow> uuid \<Rightarrow> u64 \<Rightarrow> env \<Rightarrow> privileged_action \<Rightarrow> actor \<Rightarrow> dimension_id \<Rightarrow> task_id \<Rightarrow> u64 \<Rightarrow> 'j
     \<Rightarrow> 'j audit_log \<Rightarrow> (audit_error, unit, 'j audit_log) outcome" where
  "record_action ops record_id now e kind actor dim task caps payload s =
     (if \<not> caps_contain caps (capability_bits (required_capability kind))
      then (Inl MissingCapabilityContext, s)
      else
        let actor_str = actor_to_string actor;
            prev_hash = last_hash (au_records s);
            hash = compute_hash ops record_id kind actor_str dim task now prev_hash payload
        in (Inr (),
            \<lparr>au_action_log = append_log
               (new_entry e (privileged_event kind) actor (Some dim) (Some task) [([], PJson payload)])
               (au_action_log s),
             au_records = au_records s @
               [\<lparr>ar_record_id = record_id, ar_kind = kind, ar_actor = actor_str, ar_dimension_id = dim,
                 ar_task_id = task, ar_capabilities = caps, ar_payload = payload,
                 ar_occurred_at_ms = now, ar_prev_hash = prev_hash, ar_hash = hash\<rparr>]\<rparr>))"

definition record_hash :: "'j hash_ops \<Rightarrow> 'j audit_record \<Rightarrow> string" where
  "record_hash ops r =
     compute_hash ops (ar_record_id r) (ar_kind r) (ar_actor r) (ar_dimension_id r) (ar_task_id r)
       (ar_occurred_at_ms r) (ar_prev_hash r) (ar_payload r)"

text \<open>The loop of \<open>verify_chain\<close> at index \<open>i\<close> after the hash \<open>prev\<close>.\<close>

fun verify_from ::
  "'j hash_ops \<Rightarrow> nat \<Rightarrow> string \<Rightarrow> 'j audit_record list \<Rightarrow> audit_error + unit" where
  "verify_from ops i prev [] = Inr ()"
| "verify_from ops i prev (r # rs) =
     (if record_hash ops r \<noteq> ar_hash r
      then Inl (AuditStorage (''record '' @ show_nat i @ '' hash mismatch: stored '' @ quoted (ar_hash r)
             @ '', recomputed '' @ quoted (record_hash ops r)))
      else if ar_prev_hash r \<noteq> prev
      then Inl (AuditStorage (''hash chain broken at record index '' @ show_nat i @ '': expected prev_hash ''
             @ quoted prev @ '', got '' @ quoted (ar_prev_hash r)))
      else verify_from ops (Suc i) (ar_hash r) rs)"

definition verify_chain :: "'j hash_ops \<Rightarrow> 'j audit_log \<Rightarrow> audit_error + unit" where
  "verify_chain ops s = verify_from ops 0 [] (au_records s)"

definition audit_len :: "'j audit_log \<Rightarrow> nat" where
  "audit_len s = List.length (au_records s)"

end
