(* ===== verification/Audit_Claims.thy ===== *)
theory Audit_Claims
  imports Audit_Trail Signing_Claims
begin

text \<open>
  What the trail proves: every run of recordings verifies and mirrors the action log; a verified
  chain fixes what was hashed, up to its end and to what is left out of the hash.
\<close>

section \<open>Chains\<close>

lemma last_hash_append [simp]: "last_hash (rs @ [r]) = ar_hash r"
  by (simp add: last_hash_def)

text \<open>A verified chain: each record carries its own hash and the hash of the one before.\<close>

fun linked :: "'j hash_ops \<Rightarrow> string \<Rightarrow> 'j audit_record list \<Rightarrow> bool" where
  "linked ops prev [] = True"
| "linked ops prev (r # rs) =
     (ar_hash r = record_hash ops r \<and> ar_prev_hash r = prev \<and> linked ops (ar_hash r) rs)"

lemma verify_from_linked: "verify_from ops i prev rs = Inr () \<longleftrightarrow> linked ops prev rs"
  by (induction rs arbitrary: i prev) auto

lemma linked_append:
  "linked ops prev (rs @ ss) \<longleftrightarrow>
     linked ops prev rs \<and> linked ops (if rs = [] then prev else ar_hash (List.last rs)) ss"
  by (induction rs arbitrary: prev) auto

lemma verify_chain_linked: "verify_chain ops s = Inr () \<longleftrightarrow> linked ops [] (au_records s)"
  by (simp add: verify_chain_def verify_from_linked)

section \<open>Runs\<close>

datatype 'j audit_call =
  RecordAction uuid u64 env privileged_action actor dimension_id task_id u64 'j

primrec audit_step :: "'j hash_ops \<Rightarrow> 'j audit_call \<Rightarrow> 'j audit_log \<Rightarrow> 'j audit_log" where
  "audit_step ops (RecordAction i now e kind actor dim task caps payload) s =
     after (record_action ops i now e kind actor dim task caps payload s)"

definition audit_ok :: "'j hash_ops \<Rightarrow> 'j audit_log \<Rightarrow> bool" where
  "audit_ok ops s \<longleftrightarrow>
     linked ops [] (au_records s) \<and>
     list_all (\<lambda>r. caps_contain (ar_capabilities r) (capability_bits (required_capability (ar_kind r)))) (au_records s)"

lemma audit_ok_step: "audit_ok ops s \<Longrightarrow> audit_ok ops (audit_step ops c s)"
  by (cases c)
    (auto simp: record_action_def audit_ok_def Let_def linked_append last_hash_def record_hash_def)

interpretation audit_runs: invariant_system "\<lambda>_ _. True" "audit_step ops" "audit_ok ops" for ops
  by unfold_locales (rule audit_ok_step)

interpretation audit_log_grows: audited "audit_step ops" "\<lambda>s. al_entries (au_action_log s)" for ops
proof unfold_locales
  fix s op
  show "prefix (al_entries (au_action_log s)) (al_entries (au_action_log (audit_step ops op s)))"
    by (cases op) (simp add: record_action_def Let_def append_log_def)
qed

text \<open>What the records say of the action log: kind, scope and payload, in order.\<close>

definition audit_view :: "'j audit_log \<Rightarrow> (event_type \<times> dimension_id option \<times> task_id option \<times> 'j payload) list" where
  "audit_view s = map (\<lambda>r. (privileged_event (ar_kind r), Some (ar_dimension_id r), Some (ar_task_id r),
     [([], PJson (ar_payload r))])) (au_records s)"

definition entry_view :: "'j action_log_entry \<Rightarrow> event_type \<times> dimension_id option \<times> task_id option \<times> 'j payload" where
  "entry_view x = (le_event_type x, le_dimension_id x, le_task_id x, le_payload x)"

lemma audit_mirrors_step:
  assumes "map entry_view (al_entries (au_action_log s)) = before @ audit_view s"
  shows "map entry_view (al_entries (au_action_log (audit_step ops c s))) = before @ audit_view (audit_step ops c s)"
  using assms
  by (cases c) (simp add: record_action_def Let_def append_log_def audit_view_def entry_view_def new_entry_def)

interpretation audit_mirror: invariant_system "\<lambda>_ _. True" "audit_step ops"
    "\<lambda>s. map entry_view (al_entries (au_action_log s)) = before @ audit_view s" for ops before
  by unfold_locales (rule audit_mirrors_step)

text \<open>
  C24: The trail of a run. After any recordings, some refused, the chain verifies; every record was
  made under the capability its kind requires; the action log holds, after what it held before,
  one entry per record, in the same order; and a recording is refused exactly when the capability
  is missing, which changes nothing.
\<close>
theorem audit_trail_verifies:
  "let s = fold (audit_step ops) calls (new_audit_log l);
       recorded = record_action ops i now e kind actor dim task caps payload s
   in verify_chain ops s = Inr () \<and>
      list_all (\<lambda>r. caps_contain (ar_capabilities r) (capability_bits (required_capability (ar_kind r)))) (au_records s) \<and>
      map entry_view (al_entries (au_action_log s)) = map entry_view (al_entries l) @ audit_view s \<and>
      (if caps_contain caps (capability_bits (required_capability kind))
       then is_ok (result recorded) \<and> audit_len (after recorded) = audit_len s + 1
       else recorded = (Inl MissingCapabilityContext, s))"
proof -
  define s where "s = fold (audit_step ops) calls (new_audit_log l)"
  have "audit_ok ops s"
    unfolding s_def by (rule audit_runs.run_inv) (simp_all add: audit_ok_def new_audit_log_def)
  moreover have "map entry_view (al_entries (au_action_log s)) = map entry_view (al_entries l) @ audit_view s"
    unfolding s_def by (rule audit_mirror.run_inv) (simp_all add: new_audit_log_def audit_view_def)
  ultimately show ?thesis
    unfolding s_def [symmetric] Let_def
    by (simp add: verify_chain_linked audit_ok_def record_action_def audit_len_def Let_def)
qed

section \<open>Tampering\<close>

text \<open>The fields that enter the hash.\<close>

definition hashed_fields ::
  "'j audit_record \<Rightarrow> uuid \<times> privileged_action \<times> string \<times> dimension_id \<times> task_id \<times> u64 \<times> string \<times> 'j" where
  "hashed_fields r = (ar_record_id r, ar_kind r, ar_actor r, ar_dimension_id r, ar_task_id r,
     ar_occurred_at_ms r, ar_prev_hash r, ar_payload r)"

lemma record_hash_fields: "hashed_fields r = hashed_fields r' \<Longrightarrow> record_hash ops r = record_hash ops r'"
  by (simp add: hashed_fields_def record_hash_def)

lemma linked_determined:
  assumes "linked ops [] rs" and "linked ops [] rs'" and "List.length rs = List.length rs'"
    and "last_hash rs = last_hash rs'"
    and "\<forall>r \<in> set rs. \<forall>r' \<in> set rs'. record_hash ops r = record_hash ops r' \<longrightarrow> hashed_fields r = hashed_fields r'"
  shows "map hashed_fields rs = map hashed_fields rs'"
  using assms
proof (induction rs arbitrary: rs' rule: rev_induct)
  case Nil
  then show ?case by simp
next
  case (snoc r rs)
  then obtain r' qs where rs': "rs' = qs @ [r']" by (metis length_0_conv rev_exhaust snoc_eq_iff_butlast)
  have hash: "record_hash ops r = record_hash ops r'"
    using snoc.prems(1,2,4) by (simp add: rs' linked_append)
  then have fields: "hashed_fields r = hashed_fields r'" using snoc.prems(5) rs' by simp
  then have "ar_prev_hash r = ar_prev_hash r'" by (simp add: hashed_fields_def)
  then have "last_hash rs = last_hash qs"
    using snoc.prems(1,2,3) by (auto simp: rs' linked_append last_hash_def split: if_splits)
  then have "map hashed_fields rs = map hashed_fields qs"
    using snoc.prems by (intro snoc.IH) (auto simp: rs' linked_append)
  then show ?case using fields by (simp add: rs')
qed

text \<open>
  C26: What a verified chain fixes. Two trails that verify, have the same length and end in the same
  hash agree in every hashed field of every record, unless two of their records collide under the
  hash.
\<close>
theorem chain_fixes_records:
  assumes "verify_chain ops s = Inr ()" and "verify_chain ops s' = Inr ()"
    and "audit_len s = audit_len s'" and "last_hash (au_records s) = last_hash (au_records s')"
    and "\<forall>r \<in> set (au_records s). \<forall>r' \<in> set (au_records s').
           record_hash ops r = record_hash ops r' \<longrightarrow> hashed_fields r = hashed_fields r'"
  shows "map hashed_fields (au_records s) = map hashed_fields (au_records s')"
  using assms by (intro linked_determined) (simp_all add: verify_chain_linked audit_len_def)

text \<open>Two trails of two records each that differ in the capabilities only.\<close>

definition demo_ops :: "nat hash_ops" where
  "demo_ops = \<lparr>ho_uuid_text = (\<lambda>_. []), ho_json_text = show_nat, ho_hash = (\<lambda>t. of_nat (List.length t))\<rparr>"

definition demo_trail :: "nat audit_record list" where
  "demo_trail =
     (let r = \<lparr>ar_record_id = 1, ar_kind = Deploy, ar_actor = ''system'', ar_dimension_id = 2, ar_task_id = 3,
            ar_capabilities = push_bit 22 1, ar_payload = 5, ar_occurred_at_ms = 9, ar_prev_hash = [], ar_hash = []\<rparr>;
          h = record_hash demo_ops r;
          q = r\<lparr>ar_record_id := 4, ar_prev_hash := h\<rparr>
      in [r\<lparr>ar_hash := h\<rparr>, q\<lparr>ar_hash := record_hash demo_ops q\<rparr>])"

definition demo_log :: "nat audit_log" where
  "demo_log = \<lparr>au_action_log = new_log, au_records = demo_trail\<rparr>"

definition demo_copy :: "nat audit_log" where
  "demo_copy = demo_log\<lparr>au_records := map (\<lambda>r. r\<lparr>ar_capabilities := - 1\<rparr>) demo_trail\<rparr>"

lemma demo_linked: "linked demo_ops [] demo_trail" "linked demo_ops [] (map (\<lambda>r. r\<lparr>ar_capabilities := - 1\<rparr>) demo_trail)"
  by (simp_all add: demo_trail_def Let_def record_hash_def)

lemma demo_injective:
  "\<forall>r \<in> set demo_trail. \<forall>r' \<in> set (map (\<lambda>r. r\<lparr>ar_capabilities := - 1\<rparr>) demo_trail).
     record_hash demo_ops r = record_hash demo_ops r' \<longrightarrow> hashed_fields r = hashed_fields r'"
proof -
  have len: "List.length (hex16 w) = 16" for w :: u64
    by (simp add: hex16_def length_hex_encode to_le_bytes_def length_le_digits)
  have inj: "hex16 v = hex16 w \<longleftrightarrow> v = w" for v w :: u64
    by (simp add: hex16_def hex_encode_inject to_le_bytes_inject)
  show ?thesis
    by (simp add: demo_trail_def Let_def record_hash_def compute_hash_def demo_ops_def inj len hashed_fields_def)
qed

theorem chain_fixes_records_witness:
  "map hashed_fields (au_records demo_log) = map hashed_fields (au_records demo_copy)"
proof (rule chain_fixes_records [where ops = demo_ops])
  show "verify_chain demo_ops demo_log = Inr ()" "verify_chain demo_ops demo_copy = Inr ()"
    by (simp_all add: verify_chain_linked demo_log_def demo_copy_def demo_linked)
  show "audit_len demo_log = audit_len demo_copy" by (simp add: audit_len_def demo_log_def demo_copy_def)
  show "last_hash (au_records demo_log) = last_hash (au_records demo_copy)"
    by (simp add: demo_log_def demo_copy_def demo_trail_def Let_def last_hash_def)
  show "\<forall>r \<in> set (au_records demo_log). \<forall>r' \<in> set (au_records demo_copy).
      record_hash demo_ops r = record_hash demo_ops r' \<longrightarrow> hashed_fields r = hashed_fields r'"
    using demo_injective by (simp add: demo_log_def demo_copy_def)
qed

text \<open>
  What the chain does not see. Whatever run made a trail, giving all its records other
  capabilities, or dropping any number of its last records, leaves a trail that verifies.
\<close>
theorem chain_blind_spots:
  "let s = fold (audit_step ops) calls (new_audit_log l)
   in verify_chain ops (s\<lparr>au_records := map (\<lambda>r. r\<lparr>ar_capabilities := caps (ar_record_id r)\<rparr>) (au_records s)\<rparr>) = Inr () \<and>
      verify_chain ops (s\<lparr>au_records := take n (au_records s)\<rparr>) = Inr ()"
proof -
  define s where "s = fold (audit_step ops) calls (new_audit_log l)"
  have "audit_ok ops s"
    unfolding s_def by (rule audit_runs.run_inv) (simp_all add: audit_ok_def new_audit_log_def)
  then have ok: "linked ops [] (au_records s)" by (simp add: audit_ok_def)
  have "linked ops prev (map (\<lambda>r. r\<lparr>ar_capabilities := caps (ar_record_id r)\<rparr>) rs) = linked ops prev rs" for prev rs
    by (induction rs arbitrary: prev) (simp_all add: record_hash_def)
  moreover have "linked ops [] (take n (au_records s))"
    using ok linked_append [of ops "[]" "take n (au_records s)" "drop n (au_records s)"] by simp
  ultimately show ?thesis
    unfolding s_def [symmetric] Let_def using ok by (simp add: verify_chain_linked)
qed

end
