(* ===== verification/Secrets.thy ===== *)
theory Secrets
  imports Signing
begin

text \<open>
  The secret store and the redactor (\<open>ify-security/src/secrets.rs\<close>). \<open>str::replace\<close> with a non-empty
  pattern and \<open>from_utf8\<close> are the standard library's and written out; a string of the model is its
  bytes.
\<close>

section \<open>The store\<close>

datatype secret_error = SecretNotFound string | DuplicateSecret string

record secret_entry =
  sx_name :: string
  sx_value :: "u8 list"

type_synonym secret_store = "string \<rightharpoonup> secret_entry"

definition register_secret ::
  "string \<Rightarrow> u8 list \<Rightarrow> secret_store \<Rightarrow> (secret_error, unit, secret_store) outcome" where
  "register_secret name v s =
     (if s name \<noteq> None then (Inl (DuplicateSecret name), s)
      else (Inr (), s(name \<mapsto> \<lparr>sx_name = name, sx_value = v\<rparr>)))"

definition read_secret :: "secret_store \<Rightarrow> string \<Rightarrow> secret_error + u8 list" where
  "read_secret s name = (case s name of None \<Rightarrow> Inl (SecretNotFound name) | Some x \<Rightarrow> Inr (sx_value x))"

definition continuation :: "u8 \<Rightarrow> bool" where
  "continuation b = (0x80 \<le> b \<and> b \<le> 0xBF)"

text \<open>The well-formed byte sequences of UTF-8, by their first bytes.\<close>

fun utf8_ok :: "u8 list \<Rightarrow> bool" where
  "utf8_ok [] = True"
| "utf8_ok (a # bs) =
     (if a < 0x80 then utf8_ok bs
      else case bs of
        [] \<Rightarrow> False
      | b # cs \<Rightarrow>
          if 0xC2 \<le> a \<and> a \<le> 0xDF then continuation b \<and> utf8_ok cs
          else case cs of
            [] \<Rightarrow> False
          | c # ds \<Rightarrow>
              if 0xE0 \<le> a \<and> a \<le> 0xEF
              then (if a = 0xE0 then 0xA0 \<le> b \<and> b \<le> 0xBF
                    else if a = 0xED then 0x80 \<le> b \<and> b \<le> 0x9F else continuation b)
                   \<and> continuation c \<and> utf8_ok ds
              else case ds of
                [] \<Rightarrow> False
              | d # es \<Rightarrow>
                  0xF0 \<le> a \<and> a \<le> 0xF4
                  \<and> (if a = 0xF0 then 0x90 \<le> b \<and> b \<le> 0xBF
                     else if a = 0xF4 then 0x80 \<le> b \<and> b \<le> 0x8F else continuation b)
                  \<and> continuation c \<and> continuation d \<and> utf8_ok es)"

definition read_secret_str :: "secret_store \<Rightarrow> string \<Rightarrow> secret_error + string option" where
  "read_secret_str s name =
     (case read_secret s name of
        Inl e \<Rightarrow> Inl e
      | Inr bs \<Rightarrow> Inr (if utf8_ok bs then Some (map (\<lambda>b. char_of (unat b)) bs) else None))"

definition remove_secret :: "string \<Rightarrow> secret_store \<Rightarrow> (secret_error, unit, secret_store) outcome" where
  "remove_secret name s =
     (if s name = None then (Inl (SecretNotFound name), s) else (Inr (), s(name := None)))"

definition contains_secret :: "secret_store \<Rightarrow> string \<Rightarrow> bool" where
  "contains_secret s name = (s name \<noteq> None)"

section \<open>The redactor\<close>

record redaction_pattern =
  rp_id :: string
  rp_literal :: string

type_synonym redactor = "redaction_pattern list"

definition REDACTED_MARKER :: string where
  "REDACTED_MARKER = ''[REDACTED]''"

definition add_pattern :: "redaction_pattern \<Rightarrow> redactor \<Rightarrow> redactor" where
  "add_pattern p r = r @ [p]"

definition add_literal :: "string \<Rightarrow> string \<Rightarrow> redactor \<Rightarrow> redactor" where
  "add_literal i literal r = add_pattern \<lparr>rp_id = i, rp_literal = literal\<rparr> r"

text \<open>\<open>str::replace\<close>: from the left, without overlaps.\<close>

function replace_all :: "string \<Rightarrow> string \<Rightarrow> string \<Rightarrow> string" where
  "replace_all p m [] = []"
| "replace_all p m (c # s) =
     (if p \<noteq> [] \<and> prefix p (c # s) then m @ replace_all p m (drop (List.length p) (c # s))
      else c # replace_all p m s)"
  by pat_completeness auto
termination
  by (relation "measure (\<lambda>(p, m, s). List.length s)") auto

fun redact :: "redactor \<Rightarrow> string \<Rightarrow> string" where
  "redact [] output = output"
| "redact (p # ps) output =
     redact ps (if rp_literal p \<noteq> [] then replace_all (rp_literal p) REDACTED_MARKER output else output)"

function redact_json :: "redactor \<Rightarrow> 'n json \<Rightarrow> 'n json" where
  "redact_json r (JString s) = JString (redact r s)"
| "redact_json r (JObject m) = JObject (om_collect (map (\<lambda>(k, v). (k, redact_json r v)) m))"
| "redact_json r (JArray xs) = JArray (map (redact_json r) xs)"
| "redact_json r JNull = JNull"
| "redact_json r (JBool b) = JBool b"
| "redact_json r (JNumber n) = JNumber n"
  by pat_completeness auto
termination
  by (relation "measure (\<lambda>(r, v). size v)") (use json_entry_smaller json_item_smaller in \<open>force+\<close>)

section \<open>Replacing leaves nothing behind\<close>

text \<open>What shares no character with the marker cannot begin or end in one.\<close>

lemma replaced_prefix:
  "m \<noteq> [] \<Longrightarrow> set q \<inter> set m = {} \<Longrightarrow> prefix q (replace_all p m s) \<Longrightarrow> prefix q s"
proof (induction p m s arbitrary: q rule: replace_all.induct)
  case (2 p m c s)
  show ?case
  proof (cases "q = [] \<or> (p \<noteq> [] \<and> prefix p (c # s))")
    case True
    have "q = []"
    proof (rule ccontr)
      assume "q \<noteq> []"
      with True 2 show False by (cases q; cases m) auto
    qed
    then show ?thesis by simp
  next
    case False
    with 2 show ?thesis by (cases q) (auto split: if_splits)
  qed
qed simp

lemma sublist_after_marker:
  assumes "q \<noteq> []" and "set q \<inter> set m = {}" and "sublist q (m @ s)"
  shows "sublist q s"
proof -
  have no: "\<not> sublist q m" using assms(1,2) set_mono_sublist [of q m] by (cases q) auto
  from assms(3) no consider "sublist q s" | xs ys where "q = xs @ ys" "suffix xs m" "prefix ys s"
    by (auto simp: sublist_append)
  then show ?thesis
  proof cases
    case 2
    then have "set xs \<subseteq> set m" by (auto simp: suffix_def)
    with 2 assms(2) have "xs = []" by (cases xs) auto
    with 2 show ?thesis by simp
  qed
qed

lemma replaced_sublist:
  assumes "m \<noteq> []" and "q \<noteq> []" and "set q \<inter> set m = {}" and "sublist q (replace_all p m s)"
  shows "sublist q s"
  using assms
proof (induction p m s rule: replace_all.induct)
  case (2 p m c s)
  show ?case
  proof (cases "p \<noteq> [] \<and> prefix p (c # s)")
    case True
    with 2 have "sublist q (replace_all p m (drop (List.length p) (c # s)))"
      by (auto dest: sublist_after_marker)
    with 2 True have "sublist q (drop (List.length p) (c # s))" by blast
    then show ?thesis by (meson sublist_drop sublist_order.order_trans)
  next
    case False
    with 2 have "prefix q (c # replace_all p m s) \<or> sublist q (replace_all p m s)"
      by (auto simp: sublist_Cons_right)
    then show ?thesis
      using 2 False by (cases q) (auto simp: sublist_Cons_right dest: replaced_prefix)
  qed
qed simp

lemma replaced_gone:
  assumes "m \<noteq> []" and "p \<noteq> []" and "set p \<inter> set m = {}"
  shows "\<not> sublist p (replace_all p m s)"
  using assms
proof (induction p m s rule: replace_all.induct)
  case (2 p m c s)
  show ?case
  proof (cases "prefix p (c # s)")
    case True
    with 2 show ?thesis by (auto dest: sublist_after_marker)
  next
    case False
    have "\<not> prefix p (c # replace_all p m s)"
      using 2 False replaced_prefix [of m "tl p" p s] by (cases p) auto
    with 2 False show ?thesis by (simp add: sublist_Cons_right)
  qed
qed simp

end
