(* ===== verification/Input_Validator.thy ===== *)
theory Input_Validator
  imports Pipeline_Schema Mesh_Schema
begin

text \<open>
  Validation at the boundaries (\<open>ify-security/src/validator.rs\<close>): the built-in rules, the validator
  with its rules per layer and the failures it logs. A rule behind the trait is its name and its
  check. Lengths are those of byte strings.
\<close>

datatype validation_error =
    RuleFailed string string
  | MissingField string
  | TooLong string usize usize
  | DisallowedChars string
  | OutOfRange string "64 word" "64 word" "64 word"

text \<open>An \<open>i64\<close> in decimal.\<close>

definition show_i64 :: "64 word \<Rightarrow> string" where
  "show_i64 w = (if sint w < 0 then CHR ''-'' # show_nat (nat (- sint w)) else show_nat (nat (sint w)))"

primrec validation_error_text :: "validation_error \<Rightarrow> string" where
  "validation_error_text (RuleFailed rule reason) =
     ''validation rule '' @ quoted rule @ '' failed: '' @ reason"
| "validation_error_text (MissingField field) = ''required field '' @ quoted field @ '' is missing''"
| "validation_error_text (TooLong field limit got) =
     ''field '' @ quoted field @ '' exceeds max length '' @ show_nat (unat limit) @ '' (got ''
       @ show_nat (unat got) @ '')''"
| "validation_error_text (DisallowedChars field) =
     ''field '' @ quoted field @ '' contains disallowed characters''"
| "validation_error_text (OutOfRange field v lo hi) =
     ''field '' @ quoted field @ '' value '' @ show_i64 v @ '' is out of range ['' @ show_i64 lo @ '', ''
       @ show_i64 hi @ '']''"

section \<open>Results\<close>

record validation_result =
  vr_ok :: bool
  vr_failures :: "string list"

definition pass_result :: validation_result where
  "pass_result = \<lparr>vr_ok = True, vr_failures = []\<rparr>"

definition fail_result :: "string \<Rightarrow> validation_result" where
  "fail_result message = \<lparr>vr_ok = False, vr_failures = [message]\<rparr>"

definition push_failure :: "string \<Rightarrow> validation_result \<Rightarrow> validation_result" where
  "push_failure message r = r\<lparr>vr_ok := False, vr_failures := vr_failures r @ [message]\<rparr>"

datatype boundary_layer = CanvasToRuntime | RuntimeToKernel | MeshWrite | ToolInvocation | AgentInput | ApiIngress

primrec layer_text :: "boundary_layer \<Rightarrow> string" where
  "layer_text CanvasToRuntime = ''CanvasToRuntime''"
| "layer_text RuntimeToKernel = ''RuntimeToKernel''"
| "layer_text MeshWrite = ''MeshWrite''"
| "layer_text ToolInvocation = ''ToolInvocation''"
| "layer_text AgentInput = ''AgentInput''"
| "layer_text ApiIngress = ''ApiIngress''"

section \<open>Rules\<close>

record 'n validation_rule =
  vl_name :: string
  vl_check :: "'n json \<Rightarrow> validation_error + unit"

text \<open>\<open>value.get(field)\<close> and \<open>as_str\<close>.\<close>

definition json_get :: "'n json \<Rightarrow> string \<Rightarrow> 'n json option" where
  "json_get v field = (case v of JObject m \<Rightarrow> om_get m field | _ \<Rightarrow> None)"

definition json_str :: "'n json \<Rightarrow> string option" where
  "json_str v = (case v of JString s \<Rightarrow> Some s | _ \<Rightarrow> None)"

definition required_fields_check :: "string \<Rightarrow> string list \<Rightarrow> 'n json \<Rightarrow> validation_error + unit" where
  "required_fields_check rule_name required v =
     (case v of
        JObject obj \<Rightarrow>
          (case find (\<lambda>f. \<not> om_contains obj f) required of
             None \<Rightarrow> Inr ()
           | Some f \<Rightarrow> Inl (MissingField f))
      | _ \<Rightarrow> Inl (RuleFailed rule_name ''value is not a JSON object''))"

definition max_length_check :: "string \<Rightarrow> usize \<Rightarrow> 'n json \<Rightarrow> validation_error + unit" where
  "max_length_check field max_bytes v =
     (case Option.bind (json_get v field) json_str of
        None \<Rightarrow> Inr ()
      | Some s \<Rightarrow>
          if unat max_bytes < List.length s
          then Inl (TooLong field max_bytes (of_nat (List.length s)))
          else Inr ())"

definition safe_char :: "char \<Rightarrow> bool" where
  "safe_char c =
     ((CHR ''A'' \<le> c \<and> c \<le> CHR ''Z'') \<or> (CHR ''a'' \<le> c \<and> c \<le> CHR ''z'') \<or> (CHR ''0'' \<le> c \<and> c \<le> CHR ''9'')
      \<or> c = CHR ''_'' \<or> c = CHR ''.'' \<or> c = CHR ''-'')"

definition safe_identifier_check :: "string \<Rightarrow> 'n json \<Rightarrow> validation_error + unit" where
  "safe_identifier_check field v =
     (case Option.bind (json_get v field) json_str of
        None \<Rightarrow> Inr ()
      | Some s \<Rightarrow> if \<not> list_all safe_char s then Inl (DisallowedChars field) else Inr ())"

definition required_fields_rule :: "string \<Rightarrow> string list \<Rightarrow> 'n validation_rule" where
  "required_fields_rule name required =
     \<lparr>vl_name = name, vl_check = required_fields_check name required\<rparr>"

definition max_length_rule :: "string \<Rightarrow> string \<Rightarrow> usize \<Rightarrow> 'n validation_rule" where
  "max_length_rule name field max_bytes = \<lparr>vl_name = name, vl_check = max_length_check field max_bytes\<rparr>"

definition safe_identifier_rule :: "string \<Rightarrow> string \<Rightarrow> 'n validation_rule" where
  "safe_identifier_rule name field = \<lparr>vl_name = name, vl_check = safe_identifier_check field\<rparr>"

section \<open>The validator\<close>

record ('n, 'j) input_validator =
  iv_rules :: "boundary_layer \<rightharpoonup> 'n validation_rule list"
  iv_action_log :: "'j action_log option"

definition new_input_validator :: "('n, 'j) input_validator" where
  "new_input_validator = \<lparr>iv_rules = Map.empty, iv_action_log = None\<rparr>"

definition validator_with_log :: "'j action_log \<Rightarrow> ('n, 'j) input_validator \<Rightarrow> ('n, 'j) input_validator" where
  "validator_with_log l s = s\<lparr>iv_action_log := Some l\<rparr>"

definition layer_rules :: "('n, 'j) input_validator \<Rightarrow> boundary_layer \<Rightarrow> 'n validation_rule list" where
  "layer_rules s layer = (case iv_rules s layer of None \<Rightarrow> [] | Some rs \<Rightarrow> rs)"

definition add_validation_rule ::
  "boundary_layer \<Rightarrow> 'n validation_rule \<Rightarrow> ('n, 'j) input_validator \<Rightarrow> ('n, 'j) input_validator" where
  "add_validation_rule layer rule s = s\<lparr>iv_rules := (iv_rules s)(layer \<mapsto> layer_rules s layer @ [rule])\<rparr>"

definition emit_validation_failed ::
  "env \<Rightarrow> boundary_layer \<Rightarrow> string \<Rightarrow> string \<Rightarrow> ('n, 'j) input_validator \<Rightarrow> ('n, 'j) input_validator" where
  "emit_validation_failed e layer rule reason s =
     (case iv_action_log s of
        None \<Rightarrow> s
      | Some l \<Rightarrow>
          s\<lparr>iv_action_log := Some (append_log
              (new_entry e SecurityValidationFailed System None None
                 [(''layer'', PText (layer_text layer)), (''rule'', PText rule), (''reason'', PText reason)]) l)\<rparr>)"

fun validate_rules ::
  "env \<Rightarrow> boundary_layer \<Rightarrow> 'n json \<Rightarrow> 'n validation_rule list \<Rightarrow> ('n, 'j) input_validator
     \<Rightarrow> (validation_error, unit, ('n, 'j) input_validator) outcome" where
  "validate_rules e layer v [] s = (Inr (), s)"
| "validate_rules e layer v (rule # rules) s =
     (case vl_check rule v of
        Inl err \<Rightarrow> (Inl err, emit_validation_failed e layer (vl_name rule) (validation_error_text err) s)
      | Inr _ \<Rightarrow> validate_rules e layer v rules s)"

definition validate_input ::
  "env \<Rightarrow> boundary_layer \<Rightarrow> 'n json \<Rightarrow> ('n, 'j) input_validator
     \<Rightarrow> (validation_error, unit, ('n, 'j) input_validator) outcome" where
  "validate_input e layer v s = validate_rules e layer v (layer_rules s layer) s"

text \<open>\<open>join("; ")\<close>.\<close>

fun join_text :: "string \<Rightarrow> string list \<Rightarrow> string" where
  "join_text sep [] = []"
| "join_text sep [x] = x"
| "join_text sep (x # y # xs) = x @ sep @ join_text sep (y # xs)"

fun collect_failures :: "'n json \<Rightarrow> 'n validation_rule list \<Rightarrow> validation_result \<Rightarrow> validation_result" where
  "collect_failures v [] r = r"
| "collect_failures v (rule # rules) r =
     (case vl_check rule v of
        Inl err \<Rightarrow> collect_failures v rules (push_failure (validation_error_text err) r)
      | Inr _ \<Rightarrow> collect_failures v rules r)"

definition validate_all ::
  "env \<Rightarrow> boundary_layer \<Rightarrow> 'n json \<Rightarrow> ('n, 'j) input_validator
     \<Rightarrow> validation_result \<times> ('n, 'j) input_validator" where
  "validate_all e layer v s =
     (let r = collect_failures v (layer_rules s layer) pass_result
      in (r, if \<not> vr_ok r
             then emit_validation_failed e layer ''validate_all'' (join_text ''; '' (vr_failures r)) s
             else s))"

end
