(* ===== verification/Boundary_Claims.thy ===== *)
theory Boundary_Claims
  imports Secrets Input_Validator
begin

text \<open>
  Both ends of the boundary: what validation lets in, in either of its forms, and what redaction
  lets out.
\<close>

section \<open>Validation\<close>

lemma validate_rules_first:
  "validate_rules e layer v rules s =
     (case List.map_filter (\<lambda>r. map_option (\<lambda>err. (r, err)) (err_of (vl_check r v))) rules of
        [] \<Rightarrow> (Inr (), s)
      | (r, err) # _ \<Rightarrow>
          (Inl err, emit_validation_failed e layer (vl_name r) (validation_error_text err) s))"
  by (induction rules) (auto simp: List.map_filter_simps split: sum.split)

lemma collect_failures_all:
  "vr_failures (collect_failures v rules r) =
     vr_failures r @ map validation_error_text (List.map_filter (\<lambda>r. err_of (vl_check r v)) rules) \<and>
   (vr_ok (collect_failures v rules r) \<longleftrightarrow>
     vr_ok r \<and> List.map_filter (\<lambda>r. err_of (vl_check r v)) rules = [])"
  by (induction rules arbitrary: r) (auto simp: List.map_filter_simps push_failure_def split: sum.split)

text \<open>The rules a list of registrations puts on a layer, in order.\<close>

definition registered :: "(boundary_layer \<times> 'n validation_rule) list \<Rightarrow> boundary_layer \<Rightarrow> 'n validation_rule list" where
  "registered rs layer = map snd (filter (\<lambda>x. fst x = layer) rs)"

lemma layer_rules_add:
  "layer_rules (add_validation_rule k r s) layer = layer_rules s layer @ (if k = layer then [r] else [])"
  by (simp add: layer_rules_def add_validation_rule_def)

lemma layer_rules_run:
  "layer_rules (fold (\<lambda>(k, r). add_validation_rule k r) rs s) layer = layer_rules s layer @ registered rs layer"
  by (induction rs arbitrary: s) (auto simp: registered_def layer_rules_add)

lemma failing_rules:
  "List.map_filter (\<lambda>r. err_of (vl_check r v)) rules =
     map snd (List.map_filter (\<lambda>r. map_option (\<lambda>err. (r, err)) (err_of (vl_check r v))) rules)"
  by (induction rules) (auto simp: List.map_filter_simps split: option.split)

text \<open>
  The two forms of validation agree. Over the rules registered for the layer, in that order,
  \<open>validate\<close> returns the first failure and \<open>validate_all\<close> the texts of all of them; both pass exactly
  when no rule fails. With a log attached each appends one entry when it fails, the first naming
  the failing rule, and none when it passes.
\<close>
theorem validation_forms_agree:
  "let s = validator_with_log l (fold (\<lambda>(k, r). add_validation_rule k r) rs new_input_validator);
       failing = List.map_filter (\<lambda>r. map_option (\<lambda>err. (r, err)) (err_of (vl_check r v))) (registered rs layer);
       texts = map (\<lambda>(r, err). validation_error_text err) failing;
       failed = (\<lambda>rule reason. [new_entry e SecurityValidationFailed System None None
         [(''layer'', PText (layer_text layer)), (''rule'', PText rule), (''reason'', PText reason)]]);
       (first, s1) = validate_input e layer v s;
       (all, s2) = validate_all e layer v s
   in err_of first = map_option snd (find (\<lambda>_. True) failing) \<and>
      vr_failures all = texts \<and> vr_ok all = is_ok first \<and>
      map_option al_entries (iv_action_log s1) = Some (al_entries l @
        (case failing of [] \<Rightarrow> [] | (r, err) # _ \<Rightarrow> failed (vl_name r) (validation_error_text err))) \<and>
      map_option al_entries (iv_action_log s2) = Some (al_entries l @
        (if failing = [] then [] else failed ''validate_all'' (join_text ''; '' texts)))"
proof -
  define s :: "('a, 'b) input_validator" where
    "s = validator_with_log l (fold (\<lambda>(k, r). add_validation_rule k r) rs new_input_validator)"
  have rules: "layer_rules s layer = registered rs layer"
    using layer_rules_run [of rs "new_input_validator :: ('a, 'b) input_validator" layer]
    by (simp add: s_def validator_with_log_def layer_rules_def new_input_validator_def)
  have log: "iv_action_log s = Some l" by (simp add: s_def validator_with_log_def)
  define failing where
    "failing = List.map_filter (\<lambda>r. map_option (\<lambda>err. (r, err)) (err_of (vl_check r v))) (registered rs layer)"
  define all where "all = collect_failures v (registered rs layer) pass_result"
  have all: "vr_failures all = map (\<lambda>(r, err). validation_error_text err) failing" "vr_ok all \<longleftrightarrow> failing = []"
    using collect_failures_all [of v "registered rs layer" pass_result]
    by (simp_all add: all_def failing_def failing_rules pass_result_def o_def case_prod_beta)
  have first: "validate_input e layer v s = (case failing of
        [] \<Rightarrow> (Inr (), s)
      | (r, err) # _ \<Rightarrow>
          (Inl err, emit_validation_failed e layer (vl_name r) (validation_error_text err) s))"
    by (simp add: validate_input_def validate_rules_first rules failing_def)
  have second: "validate_all e layer v s =
      (all, if failing = [] then s
            else emit_validation_failed e layer ''validate_all'' (join_text ''; '' (vr_failures all)) s)"
    by (simp add: validate_all_def rules all_def [symmetric] all(2) Let_def)
  show ?thesis
    unfolding s_def [symmetric] failing_def [symmetric] Let_def first second
    by (cases failing) (auto simp: all log emit_validation_failed_def append_log_def)
qed

text \<open>
  What the built-in rules accept. Required fields: objects with all of them, whatever their values.
  Maximal length and safe identifiers: every value that has no such field or no string in it, and
  otherwise strings of at most so many bytes, or of letters, digits, underscores, dots and dashes
  only, the empty string included.
\<close>
theorem builtin_rules_accept:
  "(vl_check (required_fields_rule name required) v = Inr () \<longleftrightarrow>
      (case v of JObject m \<Rightarrow> set required \<subseteq> set (om_keys m) | _ \<Rightarrow> False)) \<and>
   (vl_check (max_length_rule name field n) v = Inr () \<longleftrightarrow>
      (case v of JObject m \<Rightarrow> (case om_get m field of Some (JString s) \<Rightarrow> List.length s \<le> unat n | _ \<Rightarrow> True) | _ \<Rightarrow> True)) \<and>
   (vl_check (safe_identifier_rule name field) v = Inr () \<longleftrightarrow>
      (case v of JObject m \<Rightarrow> (case om_get m field of Some (JString s) \<Rightarrow> list_all safe_char s | _ \<Rightarrow> True) | _ \<Rightarrow> True))"
proof -
  have found: "set required \<subseteq> fst ` set m \<longleftrightarrow> find (\<lambda>f. \<not> om_contains m f) required = None" for m :: "(string, 'a json) om"
  proof -
    have "om_contains m f \<longleftrightarrow> f \<in> fst ` set m" for f
      by (auto simp: om_contains_def map_of_eq_None_iff)
    then show ?thesis by (auto simp: find_None_iff)
  qed
  have "vl_check (required_fields_rule name required) v = Inr () \<longleftrightarrow>
      (case v of JObject m \<Rightarrow> set required \<subseteq> set (om_keys m) | _ \<Rightarrow> False)"
    by (auto simp: required_fields_rule_def required_fields_check_def found split: json.split option.split)
  then show ?thesis
    by (auto simp: max_length_rule_def max_length_check_def safe_identifier_rule_def safe_identifier_check_def
        json_get_def json_str_def Option.bind_eq_Some_conv split: json.splits option.splits)
qed

section \<open>Redaction\<close>

text \<open>The strings of a value; the keys of objects are not among them.\<close>

fun json_strings :: "'n json \<Rightarrow> string set" where
  "json_strings (JString s) = {s}"
| "json_strings (JArray xs) = (\<Union>x \<in> set xs. json_strings x)"
| "json_strings (JObject m) = (\<Union>e \<in> set m. json_strings (snd e))"
| "json_strings _ = {}"

lemma redact_keeps_away:
  assumes "q \<noteq> []" and "set q \<inter> set REDACTED_MARKER = {}" and "sublist q (redact ps s)"
  shows "sublist q s"
  using assms
proof (induction ps s rule: redact.induct)
  case (2 p ps s)
  have "REDACTED_MARKER \<noteq> []" by (simp add: REDACTED_MARKER_def)
  with 2 show ?case by (auto split: if_splits dest: replaced_sublist)
qed simp

lemma redact_removes:
  assumes "p \<in> set ps" and "rp_literal p \<noteq> []" and "set (rp_literal p) \<inter> set REDACTED_MARKER = {}"
  shows "\<not> sublist (rp_literal p) (redact ps s)"
  using assms
proof (induction ps s rule: redact.induct)
  case (2 q ps s)
  have marker: "REDACTED_MARKER \<noteq> []" by (simp add: REDACTED_MARKER_def)
  show ?case
  proof (cases "p = q")
    case True
    with 2 marker have "\<not> sublist (rp_literal p) (replace_all (rp_literal p) REDACTED_MARKER s)"
      by (intro replaced_gone) auto
    with 2 True redact_keeps_away [of "rp_literal p" ps] show ?thesis by auto
  next
    case False
    with 2 show ?thesis by simp
  qed
qed simp

lemma om_collect_values:
  fixes m :: "('k::linorder \<times> 'v) list"
  shows "set (om_values (om_collect m)) \<subseteq> set (om_values m)"
proof -
  have "set (om_values (fold (\<lambda>(k, v) m. om_insert k v m) m acc)) \<subseteq> set (om_values m) \<union> set (om_values acc)"
    for acc m :: "('k \<times> 'v) list"
  proof (induction m arbitrary: acc)
    case (Cons e m)
    obtain k v where e: "e = (k, v)" by (cases e)
    show ?case using Cons [of "om_insert k v acc"] om_insert_values [of k v acc] by (auto simp: e)
  qed simp
  from this [where acc = om_empty] show ?thesis by (simp add: om_collect_def)
qed

lemma redact_json_strings: "s \<in> json_strings (redact_json r v) \<Longrightarrow> \<exists>t. s = redact r t"
proof (induction r v rule: redact_json.induct)
  case (2 r m)
  let ?m = "map (\<lambda>(k, v). (k, redact_json r v)) m"
  obtain w where w: "w \<in> set (om_values (om_collect ?m))" "s \<in> json_strings w" using 2(2) by auto
  then have "w \<in> set (om_values ?m)" using om_collect_values [of ?m] by blast
  then obtain k v where "(k, v) \<in> set m" "w = redact_json r v" by auto
  then show ?case using 2(1) w(2) by blast
qed auto

text \<open>
  C29: Redaction is complete for literals without a character of the marker. No string of a redacted
  value contains such a literal, whatever the other patterns are and in whatever order they were
  registered; the keys of objects are not looked at.
\<close>
theorem redaction_complete:
  assumes "p \<in> set r" and "rp_literal p \<noteq> []" and "set (rp_literal p) \<inter> set REDACTED_MARKER = {}"
    and "s \<in> json_strings (redact_json r v)"
  shows "\<not> sublist (rp_literal p) s"
proof -
  obtain t where "s = redact r t" using redact_json_strings [OF assms(4)] by blast
  then show ?thesis using redact_removes [OF assms(1-3)] by simp
qed

theorem redaction_complete_witness:
  "\<not> sublist ''key'' (redact (add_literal ''b'' ''key'' (add_literal ''a'' ''ED'' [])) ''my key'')"
proof -
  let ?r = "add_literal ''b'' ''key'' (add_literal ''a'' ''ED'' [])"
  have "redact ?r ''my key'' \<in> json_strings (redact_json ?r (JString ''my key'' :: nat json))" by simp
  then show ?thesis
    using redaction_complete [of "\<lparr>rp_id = ''b'', rp_literal = ''key''\<rparr>" ?r _ "JString ''my key'' :: nat json"]
    by (auto simp: add_literal_def add_pattern_def REDACTED_MARKER_def)
qed

text \<open>A literal with a character of the marker can survive, and can appear where it was not.\<close>

lemma redaction_marker_clash:
  "redact [\<lparr>rp_id = ''a'', rp_literal = ''ED''\<rparr>] ''ED'' = ''[REDACTED]''"
  "redact [\<lparr>rp_id = ''a'', rp_literal = ''x''\<rparr>, \<lparr>rp_id = ''b'', rp_literal = ''ED''\<rparr>] ''x''
     = ''[R[REDACTED]ACT[REDACTED]]''"
  by (simp_all add: REDACTED_MARKER_def)

end
