(* ===== verification/Threat_Model.thy ===== *)
theory Threat_Model
  imports Prelude
begin

text \<open>
  The threat model of the desktop-to-canvas path (\<open>ify-security/src/threat_model.rs\<close>): entries with
  their mitigations, the model and the entries the code declares.
\<close>

datatype threat_category = Spoofing | Tampering | Repudiation | InformationDisclosure | DenialOfService
  | ElevationOfPrivilege

datatype threat_layer = DesktopLayer | CanvasLayer | RuntimeLayer | KernelLayer | MeshLayer | AgentLayer

datatype risk_level = RiskLow | RiskMedium | RiskHigh | RiskCritical

text \<open>The derived order is that of the declaration.\<close>

primrec risk_rank :: "risk_level \<Rightarrow> nat" where
  "risk_rank RiskLow = 0"
| "risk_rank RiskMedium = 1"
| "risk_rank RiskHigh = 2"
| "risk_rank RiskCritical = 3"

instantiation risk_level :: linorder
begin

definition less_eq_risk_level :: "risk_level \<Rightarrow> risk_level \<Rightarrow> bool" where
  "less_eq_risk_level a b = (risk_rank a \<le> risk_rank b)"

definition less_risk_level :: "risk_level \<Rightarrow> risk_level \<Rightarrow> bool" where
  "less_risk_level a b = (risk_rank a < risk_rank b)"

instance
proof
  fix a b :: risk_level
  show "a \<le> b \<Longrightarrow> b \<le> a \<Longrightarrow> a = b"
    by (cases a; cases b) (simp_all add: less_eq_risk_level_def)
qed (auto simp: less_eq_risk_level_def less_risk_level_def)

end

record mitigation =
  mt_id :: string
  mt_description :: string
  mt_implemented :: bool

definition new_mitigation :: "string \<Rightarrow> string \<Rightarrow> bool \<Rightarrow> mitigation" where
  "new_mitigation i description implemented =
     \<lparr>mt_id = i, mt_description = description, mt_implemented = implemented\<rparr>"

record threat_entry =
  th_id :: string
  th_title :: string
  th_category :: threat_category
  th_layer :: threat_layer
  th_description :: string
  th_inherent_risk :: risk_level
  th_residual_risk :: risk_level
  th_mitigations :: "mitigation list"

definition new_threat ::
  "string \<Rightarrow> string \<Rightarrow> threat_category \<Rightarrow> threat_layer \<Rightarrow> string \<Rightarrow> risk_level \<Rightarrow> threat_entry" where
  "new_threat i title category layer description inherent =
     \<lparr>th_id = i, th_title = title, th_category = category, th_layer = layer,
      th_description = description, th_inherent_risk = inherent, th_residual_risk = inherent,
      th_mitigations = []\<rparr>"

text \<open>The residual risk is the one the caller gives.\<close>

definition add_mitigation :: "mitigation \<Rightarrow> risk_level \<Rightarrow> threat_entry \<Rightarrow> threat_entry" where
  "add_mitigation m residual t = t\<lparr>th_mitigations := th_mitigations t @ [m], th_residual_risk := residual\<rparr>"

type_synonym threat_model = "threat_entry list"

definition add_threat :: "threat_entry \<Rightarrow> threat_model \<Rightarrow> threat_model" where
  "add_threat t m = m @ [t]"

definition entries_at_least :: "threat_model \<Rightarrow> risk_level \<Rightarrow> threat_entry list" where
  "entries_at_least m min_risk = filter (\<lambda>t. min_risk \<le> th_residual_risk t) m"

section \<open>The canonical model\<close>

definition threat_01 :: threat_entry where
  "threat_01 =
     add_mitigation (new_mitigation ''identity-verification''
       (''Principal identity verified on every ActionLog emission; TaskID ownership ''
         @ ''checked against DimensionId at the orchestrator boundary.'') True) RiskLow
       (new_threat ''T-01''
         ''Agent impersonation via forged TaskID'' Spoofing AgentLayer
         (''A malicious agent claims a TaskID belonging to a different dimension, enabling ''
           @ ''it to read or write artifacts it does not own.'') RiskHigh)"

definition threat_02 :: threat_entry where
  "threat_02 =
     add_mitigation (new_mitigation ''artifact-signing''
       (''All runtime and deploy artifacts are signed; consumers verify the signature ''
         @ ''before processing (see artifact_signing module).'') True) RiskLow
       (new_threat ''T-02''
         ''Artifact tampering via unsigned mesh write'' Tampering MeshLayer
         (''An attacker intercepts a mesh artifact write and replaces payload bytes, ''
           @ ''causing downstream consumers to execute corrupted data.'') RiskHigh)"

definition threat_03 :: threat_entry where
  "threat_03 =
     add_mitigation (new_mitigation ''audit-trail''
       (''All privileged actions emit signed ActionLog entries persisted to the mesh with ''
         @ ''hash-chaining (see audit module).'') True) RiskLow
       (new_threat ''T-03''
         ''Privileged action repudiation'' Repudiation RuntimeLayer
         (''A user or agent denies having triggered a privileged action (deploy, secret ''
           @ ''read, admin) because no tamper-evident log exists.'') RiskMedium)"

definition threat_04 :: threat_entry where
  "threat_04 =
     add_mitigation (new_mitigation ''secret-redaction''
       (''The Redactor intercepts all string outputs at the canvas boundary and replaces ''
         @ ''registered secret patterns with ''
         @ [CHR 0x60]
         @ ''[REDACTED]''
         @ [CHR 0x60]
         @ ''.'') True) RiskLow
       (new_threat ''T-04''
         ''Secret leakage through canvas node output'' InformationDisclosure CanvasLayer
         (''A snippet or node logs or returns a secret value that is rendered in the canvas ''
           @ ''UI or stored unredacted in an artifact.'') RiskCritical)"

definition threat_05 :: threat_entry where
  "threat_05 =
     add_mitigation (new_mitigation ''sandbox-enforcement''
       (''SandboxPolicy enforces allowed path prefixes, network hosts, and model IDs ''
         @ ''before any tool invocation (see sandbox module).'') True) RiskLow
       (new_threat ''T-05''
         ''Sandbox escape via unrestricted filesystem access'' ElevationOfPrivilege RuntimeLayer
         (''A tool or snippet accesses files outside its declared sandbox path, potentially ''
           @ ''reading sensitive host files.'') RiskCritical)"

definition threat_06 :: threat_entry where
  "threat_06 =
     add_mitigation (new_mitigation ''boundary-input-validation''
       (''InputValidator runs schema and invariant checks at every layer boundary before ''
         @ ''data is passed deeper into the system.'') True) RiskLow
       (new_threat ''T-06''
         ''Capability escalation through unvalidated boundary input'' ElevationOfPrivilege KernelLayer
         (''Malformed input at a C''
           @ [CHR 0xE2, CHR 0x86, CHR 0x94]
           @ ''Rust FFI boundary triggers undefined behavior or allows an attacker to craft a ''
           @ ''payload that bypasses capability checks.'') RiskHigh)"

definition threat_07 :: threat_entry where
  "threat_07 =
     add_mitigation (new_mitigation ''sbom-and-signature-verification''
       (''SBOM is generated at build time; component signatures are verified before ''
         @ ''installation (see supply_chain module).'') True) RiskMedium
       (new_threat ''T-07''
         ''Supply chain compromise via unsigned dependency'' Tampering DesktopLayer
         (''A compromised transitive dependency introduces malicious code that executes ''
           @ ''during build or runtime.'') RiskHigh)"

definition threat_08 :: threat_entry where
  "threat_08 =
     add_mitigation (new_mitigation ''policy-engine-rate-limiting''
       (''PolicyEngine enforces per-dimension rate limits and quota rules before task ''
         @ ''submission is accepted.'') True) RiskLow
       (new_threat ''T-08''
         ''Denial of service via unbounded task queue'' DenialOfService RuntimeLayer
         (''A rogue agent submits an unbounded number of tasks, exhausting scheduler ''
           @ ''capacity and starving legitimate workloads.'') RiskMedium)"

definition desktop_to_canvas :: threat_model where
  "desktop_to_canvas = fold add_threat
     [threat_01, threat_02, threat_03, threat_04, threat_05, threat_06, threat_07, threat_08] []"

lemmas threat_defs = desktop_to_canvas_def add_threat_def add_mitigation_def new_threat_def new_mitigation_def
  threat_01_def threat_02_def threat_03_def threat_04_def threat_05_def threat_06_def threat_07_def threat_08_def

text \<open>
  The declared model. Every threat has an implemented mitigation and a residual risk below its
  inherent one; no residual risk is high, and only the supply chain keeps a medium one.
\<close>
theorem declared_threats_mitigated:
  "list_all (\<lambda>t. th_residual_risk t < th_inherent_risk t \<and> list_ex mt_implemented (th_mitigations t)) desktop_to_canvas \<and>
   distinct (map th_id desktop_to_canvas) \<and>
   entries_at_least desktop_to_canvas RiskHigh = [] \<and>
   map th_id (entries_at_least desktop_to_canvas RiskMedium) = [''T-07''] \<and>
   entries_at_least desktop_to_canvas RiskLow = desktop_to_canvas"
  by (simp add: threat_defs entries_at_least_def less_risk_level_def less_eq_risk_level_def)

end
