(* ===== verification/Reliability_Metrics.thy ===== *)
theory Reliability_Metrics
  imports Replica_Pool
begin

text \<open>
  Reliability metrics and service level objectives (\<open>ify-reliability/src/metrics.rs\<close>,
  \<open>ify-reliability/src/slo.rs\<close>). Arithmetic of floats is the record \<open>float_arith\<close> of arguments;
  their comparisons are those of \<open>Float_Order\<close>. Sums of integers wrap, as in a release build, where
  \<open>debug_assert!\<close> is not compiled either.
\<close>

record float_arith =
  fa_add :: "f64 \<Rightarrow> f64 \<Rightarrow> f64"
  fa_sub :: "f64 \<Rightarrow> f64 \<Rightarrow> f64"
  fa_mul :: "f64 \<Rightarrow> f64 \<Rightarrow> f64"
  fa_div :: "f64 \<Rightarrow> f64 \<Rightarrow> f64"
  fa_of_u64 :: "u64 \<Rightarrow> f64"
  fa_round_usize :: "f64 \<Rightarrow> usize"
  fa_sum :: "f64 list \<Rightarrow> f64"

text \<open>\<open>total_cmp\<close>: the bit patterns as sign and magnitude, NaNs outermost.\<close>

definition f64_total :: "f64 \<Rightarrow> int" where
  "f64_total x =
     (if bit x 63 then - int (unat (f64_magnitude x)) - 1 else int (unat (f64_magnitude x)))"

section \<open>Rolling windows\<close>

text \<open>\<open>if len() >= window_size { pop_front() }; push_back(x)\<close>.\<close>

definition window_push :: "usize \<Rightarrow> 'a \<Rightarrow> 'a list \<Rightarrow> 'a list" where
  "window_push n x xs = (if unat n \<le> List.length xs then tl xs else xs) @ [x]"

section \<open>Incidents and recovery times\<close>

datatype metrics_error = EmptyWindow string

datatype incident_severity = SevCritical | SevHigh | SevMedium | SevLow

record incident_record =
  ir_id :: string
  ir_opened_at :: u64
  ir_resolved_at :: "u64 option"
  ir_title :: string
  ir_severity :: incident_severity

definition open_record :: "u64 \<Rightarrow> string \<Rightarrow> string \<Rightarrow> incident_severity \<Rightarrow> incident_record" where
  "open_record now i title severity =
     \<lparr>ir_id = i, ir_opened_at = now, ir_resolved_at = None, ir_title = title, ir_severity = severity\<rparr>"

definition resolve_record :: "u64 \<Rightarrow> incident_record \<Rightarrow> incident_record" where
  "resolve_record now r = (if ir_resolved_at r = None then r\<lparr>ir_resolved_at := Some now\<rparr> else r)"

definition ttr_secs :: "incident_record \<Rightarrow> u64 option" where
  "ttr_secs r = map_option (\<lambda>t. saturating_sub t (ir_opened_at r)) (ir_resolved_at r)"

record mttr_tracker =
  mr_records :: "incident_record list"
  mr_window_size :: usize

definition new_mttr_tracker :: "usize \<Rightarrow> mttr_tracker" where
  "new_mttr_tracker n = \<lparr>mr_records = [], mr_window_size = max n 1\<rparr>"

definition push_record :: "incident_record \<Rightarrow> mttr_tracker \<Rightarrow> mttr_tracker" where
  "push_record r t = t\<lparr>mr_records := window_push (mr_window_size t) r (mr_records t)\<rparr>"

definition mttr_secs :: "float_arith \<Rightarrow> mttr_tracker \<Rightarrow> metrics_error + f64" where
  "mttr_secs ops t =
     (let resolved = List.map_filter ttr_secs (mr_records t)
      in if resolved = [] then Inl (EmptyWindow ''MTTR'')
         else Inr (fa_div ops (fa_of_u64 ops (sum_list resolved)) (fa_of_u64 ops (of_nat (List.length resolved)))))"

definition mttr_len :: "mttr_tracker \<Rightarrow> nat" where
  "mttr_len t = List.length (mr_records t)"

section \<open>Error budgets\<close>

record error_budget =
  eb_target :: f64
  eb_window_secs :: u64
  eb_consumed_secs :: f64

definition new_error_budget :: "f64 \<Rightarrow> u64 \<Rightarrow> error_budget" where
  "new_error_budget target window_secs =
     \<lparr>eb_target = clamp_unit target, eb_window_secs = window_secs, eb_consumed_secs = 0\<rparr>"

definition allowed_downtime_secs :: "float_arith \<Rightarrow> error_budget \<Rightarrow> f64" where
  "allowed_downtime_secs ops b =
     fa_mul ops (fa_sub ops f64_one (eb_target b)) (fa_of_u64 ops (eb_window_secs b))"

definition consume_budget :: "float_arith \<Rightarrow> f64 \<Rightarrow> error_budget \<Rightarrow> error_budget" where
  "consume_budget ops secs b = b\<lparr>eb_consumed_secs := fa_add ops (eb_consumed_secs b) (f64_max secs 0)\<rparr>"

definition remaining_ratio :: "float_arith \<Rightarrow> error_budget \<Rightarrow> f64" where
  "remaining_ratio ops b =
     (let allowed = allowed_downtime_secs ops b
      in if f64_le allowed 0 then 0
         else clamp_unit (fa_div ops (fa_sub ops allowed (eb_consumed_secs b)) allowed))"

definition is_exhausted :: "float_arith \<Rightarrow> error_budget \<Rightarrow> bool" where
  "is_exhausted ops b = f64_le (allowed_downtime_secs ops b) (eb_consumed_secs b)"

definition reset_budget :: "error_budget \<Rightarrow> error_budget" where
  "reset_budget b = b\<lparr>eb_consumed_secs := 0\<rparr>"

section \<open>Regression cycles\<close>

record cycle_entry =
  ce_cycle_id :: string
  ce_regression_count :: u32
  ce_resolved_count :: u32
  ce_recorded_at :: u64

record regression_tracker =
  rt_cycles :: "cycle_entry list"
  rt_window_size :: usize

definition new_regression_tracker :: "usize \<Rightarrow> regression_tracker" where
  "new_regression_tracker n = \<lparr>rt_cycles = [], rt_window_size = max n 1\<rparr>"

text \<open>\<open>iter_mut().find\<close>: the first entry of the cycle is updated in place.\<close>

fun update_cycle :: "cycle_entry \<Rightarrow> cycle_entry list \<Rightarrow> cycle_entry list option" where
  "update_cycle e [] = None"
| "update_cycle e (x # xs) =
     (if ce_cycle_id x = ce_cycle_id e then Some (e # xs) else map_option ((#) x) (update_cycle e xs))"

definition record_cycle :: "u64 \<Rightarrow> string \<Rightarrow> u32 \<Rightarrow> u32 \<Rightarrow> regression_tracker \<Rightarrow> regression_tracker" where
  "record_cycle now cycle_id regression_count resolved_count t =
     (let e = \<lparr>ce_cycle_id = cycle_id, ce_regression_count = regression_count,
               ce_resolved_count = resolved_count, ce_recorded_at = now\<rparr>
      in case update_cycle e (rt_cycles t) of
           Some cs \<Rightarrow> t\<lparr>rt_cycles := cs\<rparr>
         | None \<Rightarrow> t\<lparr>rt_cycles := window_push (rt_window_size t) e (rt_cycles t)\<rparr>)"

definition average_rate :: "float_arith \<Rightarrow> regression_tracker \<Rightarrow> metrics_error + f64" where
  "average_rate ops t =
     (if rt_cycles t = [] then Inl (EmptyWindow ''regression_rate'')
      else Inr (fa_div ops (fa_of_u64 ops (ucast (sum_list (map ce_regression_count (rt_cycles t)))))
             (fa_of_u64 ops (of_nat (List.length (rt_cycles t))))))"

section \<open>The metrics of a dimension\<close>

record reliability_metrics =
  rm_mttr :: mttr_tracker
  rm_task_error_budget :: error_budget
  rm_ui_error_budget :: error_budget
  rm_regressions :: regression_tracker

text \<open>The targets 0.999 and 0.995.\<close>

definition new_reliability_metrics :: reliability_metrics where
  "new_reliability_metrics =
     \<lparr>rm_mttr = new_mttr_tracker 100,
      rm_task_error_budget = new_error_budget 0x3FEFF7CED916872B (30 * 24 * 3600),
      rm_ui_error_budget = new_error_budget 0x3FEFD70A3D70A3D7 (30 * 24 * 3600),
      rm_regressions = new_regression_tracker 52\<rparr>"

definition payload_f64 :: "'e + f64 \<Rightarrow> 'j payload_value" where
  "payload_f64 r = (case r of Inl _ \<Rightarrow> PNull | Inr x \<Rightarrow> PFloat x)"

definition metrics_snapshot :: "float_arith \<Rightarrow> reliability_metrics \<Rightarrow> 'j payload" where
  "metrics_snapshot ops m =
     [(''mttr_secs'', payload_f64 (mttr_secs ops (rm_mttr m))),
      (''task_error_budget_remaining'', PFloat (remaining_ratio ops (rm_task_error_budget m))),
      (''ui_error_budget_remaining'', PFloat (remaining_ratio ops (rm_ui_error_budget m))),
      (''regression_avg_rate'', payload_f64 (average_rate ops (rm_regressions m)))]"

section \<open>Service level objectives\<close>

datatype slo_error = DuplicateSlo string | SloNotFound string | EmptySamples string

datatype slo_kind = TaskLatency | TaskQueueWait | TaskAvailability | UiFrameTime | UiInteractionLatency

record slo_threshold =
  st_name :: string
  st_kind :: slo_kind
  st_threshold :: f64
  st_percentile :: u8
  st_target_ratio :: f64

definition latency_slo :: "string \<Rightarrow> slo_kind \<Rightarrow> u8 \<Rightarrow> f64 \<Rightarrow> f64 \<Rightarrow> slo_threshold" where
  "latency_slo name kind percentile threshold_ms target_ratio =
     \<lparr>st_name = name, st_kind = kind, st_threshold = threshold_ms, st_percentile = percentile,
      st_target_ratio = clamp_unit target_ratio\<rparr>"

definition availability_slo :: "string \<Rightarrow> slo_kind \<Rightarrow> f64 \<Rightarrow> slo_threshold" where
  "availability_slo name kind target_ratio =
     \<lparr>st_name = name, st_kind = kind, st_threshold = clamp_unit target_ratio, st_percentile = 0,
      st_target_ratio = clamp_unit target_ratio\<rparr>"

record slo_sample =
  ss_slo_name :: string
  ss_value :: f64
  ss_timestamp_secs :: u64

record slo_status =
  su_name :: string
  su_passing :: bool
  su_measured_value :: f64
  su_threshold :: f64
  su_compliance_ratio :: f64
  su_sample_count :: usize

record slo_registry =
  sr_thresholds :: "(string, slo_threshold) om"
  sr_windows :: "string \<rightharpoonup> f64 list"
  sr_window_size :: usize

definition new_slo_registry :: "usize \<Rightarrow> slo_registry" where
  "new_slo_registry n = \<lparr>sr_thresholds = om_empty, sr_windows = Map.empty, sr_window_size = max n 1\<rparr>"

definition register_slo :: "slo_threshold \<Rightarrow> slo_registry \<Rightarrow> (slo_error, unit, slo_registry) outcome" where
  "register_slo slo s =
     (if om_contains (sr_thresholds s) (st_name slo) then (Inl (DuplicateSlo (st_name slo)), s)
      else (Inr (), s\<lparr>sr_windows := (sr_windows s)(st_name slo \<mapsto> []),
                      sr_thresholds := om_insert (st_name slo) slo (sr_thresholds s)\<rparr>))"

text \<open>The defaults: 200, 2000, 16 and 100 milliseconds, and the ratio 0.999.\<close>

definition default_slos :: "slo_threshold list" where
  "default_slos =
     [latency_slo ''task.p50_latency_ms'' TaskLatency 50 0x4069000000000000 0x3FEFF7CED916872B,
      latency_slo ''task.p99_latency_ms'' TaskLatency 99 0x409F400000000000 0x3FEFF7CED916872B,
      availability_slo ''task.availability'' TaskAvailability 0x3FEFF7CED916872B,
      latency_slo ''ui.frame_time_ms'' UiFrameTime 99 0x4030000000000000 0x3FEFF7CED916872B,
      latency_slo ''ui.interaction_latency_ms'' UiInteractionLatency 99 0x4059000000000000
        0x3FEFF7CED916872B]"

definition slo_with_defaults :: slo_registry where
  "slo_with_defaults = fold (\<lambda>slo s. after (register_slo slo s)) default_slos (new_slo_registry 1000)"

definition record_sample :: "slo_sample \<Rightarrow> slo_registry \<Rightarrow> (slo_error, unit, slo_registry) outcome" where
  "record_sample x s =
     (case sr_windows s (ss_slo_name x) of
        None \<Rightarrow> (Inl (SloNotFound (ss_slo_name x)), s)
      | Some w \<Rightarrow>
          (Inr (), s\<lparr>sr_windows := (sr_windows s)(ss_slo_name x \<mapsto>
             window_push (sr_window_size s) (ss_value x) w)\<rparr>))"

definition compliant :: "slo_threshold \<Rightarrow> f64 \<Rightarrow> bool" where
  "compliant t v =
     (if st_kind t = TaskAvailability then f64_le (st_threshold t) v else f64_le v (st_threshold t))"

text \<open>100.0 is \<open>0x4059000000000000\<close>; the index saturates when it is converted.\<close>

definition percentile_index :: "float_arith \<Rightarrow> u8 \<Rightarrow> nat \<Rightarrow> nat" where
  "percentile_index ops p n =
     min (unat (fa_round_usize ops
       (fa_mul ops (fa_div ops (fa_of_u64 ops (ucast p)) 0x4059000000000000)
         (fa_of_u64 ops (of_nat (n - 1)))))) (n - 1)"

definition evaluate_window :: "float_arith \<Rightarrow> slo_threshold \<Rightarrow> f64 list \<Rightarrow> slo_status" where
  "evaluate_window ops t w =
     (let xs = sort_key f64_total w;
          n = fa_of_u64 ops (of_nat (List.length xs));
          measured = (if st_kind t = TaskAvailability then fa_div ops (fa_sum ops xs) n
                      else xs ! percentile_index ops (st_percentile t) (List.length xs));
          ratio = fa_div ops (fa_of_u64 ops (of_nat (List.length (filter (compliant t) xs)))) n
      in \<lparr>su_name = st_name t, su_passing = f64_le (st_target_ratio t) ratio,
          su_measured_value = measured, su_threshold = st_threshold t, su_compliance_ratio = ratio,
          su_sample_count = of_nat (List.length w)\<rparr>)"

definition evaluate_slo :: "float_arith \<Rightarrow> slo_registry \<Rightarrow> string \<Rightarrow> slo_error + slo_status" where
  "evaluate_slo ops s name =
     (case om_get (sr_thresholds s) name of
        None \<Rightarrow> Inl (SloNotFound name)
      | Some t \<Rightarrow>
          (case sr_windows s name of
             None \<Rightarrow> Inl (SloNotFound name)
           | Some w \<Rightarrow>
               if w = [] then Inl (EmptySamples name)
               else Inr ((evaluate_window ops t w)\<lparr>su_name := name\<rparr>)))"

definition evaluate_all_slos :: "float_arith \<Rightarrow> slo_registry \<Rightarrow> (string \<times> (slo_error + slo_status)) list" where
  "evaluate_all_slos ops s = map (\<lambda>name. (name, evaluate_slo ops s name)) (om_keys (sr_thresholds s))"

definition slo_names :: "slo_registry \<Rightarrow> string list" where
  "slo_names s = sort (om_keys (sr_thresholds s))"

end
