(* ===== verification/Incident_Pipeline.thy ===== *)
theory Incident_Pipeline
  imports Reliability_Metrics Secrets
begin

text \<open>
  Incidents from telemetry (\<open>ify-reliability/src/incident.rs\<close>): signals, rules, the lifecycle of an
  incident and the pipeline. The text of a fresh UUID and the time are arguments. The incidents are a
  \<open>HashMap\<close>; its entries are kept in the order of the keys.
\<close>

datatype incident_error = DuplicateIncidentRule string | IncidentNotFound string

record 'j telemetry_signal =
  tg_signal_type :: string
  tg_dimension_id :: string
  tg_task_id :: "string option"
  tg_payload :: 'j
  tg_timestamp_secs :: u64

definition new_telemetry_signal :: "u64 \<Rightarrow> string \<Rightarrow> string \<Rightarrow> 'j \<Rightarrow> 'j telemetry_signal" where
  "new_telemetry_signal now signal_type dimension_id payload =
     \<lparr>tg_signal_type = signal_type, tg_dimension_id = dimension_id, tg_task_id = None,
      tg_payload = payload, tg_timestamp_secs = now\<rparr>"

record incident_rule =
  iu_id :: string
  iu_signal_type_prefix :: string
  iu_title_template :: string
  iu_severity :: incident_severity
  iu_threshold_count :: u32

definition immediate_rule :: "string \<Rightarrow> string \<Rightarrow> string \<Rightarrow> incident_severity \<Rightarrow> incident_rule" where
  "immediate_rule i signal_type_prefix title_template severity =
     \<lparr>iu_id = i, iu_signal_type_prefix = signal_type_prefix, iu_title_template = title_template,
      iu_severity = severity, iu_threshold_count = 1\<rparr>"

datatype incident_state = IncidentOpen | IncidentAcknowledged | IncidentResolved

record 'j incident =
  in_id :: string
  in_title :: string
  in_severity :: incident_severity
  in_state :: incident_state
  in_dimension_id :: string
  in_created_by_rule :: "string option"
  in_signals :: "'j telemetry_signal list"
  in_opened_at :: u64
  in_resolved_at :: "u64 option"
  in_labels :: "string \<rightharpoonup> string"

definition new_incident ::
  "string \<Rightarrow> u64 \<Rightarrow> string \<Rightarrow> incident_severity \<Rightarrow> string \<Rightarrow> string option \<Rightarrow> 'j incident" where
  "new_incident fresh now title severity dimension_id created_by_rule =
     \<lparr>in_id = fresh, in_title = title, in_severity = severity, in_state = IncidentOpen,
      in_dimension_id = dimension_id, in_created_by_rule = created_by_rule, in_signals = [],
      in_opened_at = now, in_resolved_at = None, in_labels = Map.empty\<rparr>"

definition acknowledge_incident :: "'j incident \<Rightarrow> 'j incident" where
  "acknowledge_incident x = x\<lparr>in_state := IncidentAcknowledged\<rparr>"

definition resolve_incident :: "u64 \<Rightarrow> 'j incident \<Rightarrow> 'j incident" where
  "resolve_incident now x = x\<lparr>in_state := IncidentResolved, in_resolved_at := Some now\<rparr>"

definition label_incident :: "string \<Rightarrow> string \<Rightarrow> 'j incident \<Rightarrow> 'j incident" where
  "label_incident key v x = x\<lparr>in_labels := (in_labels x)(key \<mapsto> v)\<rparr>"

section \<open>The pipeline\<close>

record 'j incident_pipeline =
  ip_rules :: "incident_rule list"
  ip_incidents :: "(string, 'j incident) om"
  ip_signal_counts :: "string \<times> string \<rightharpoonup> u32"

definition new_incident_pipeline :: "'j incident_pipeline" where
  "new_incident_pipeline = \<lparr>ip_rules = [], ip_incidents = om_empty, ip_signal_counts = Map.empty\<rparr>"

definition add_incident_rule ::
  "incident_rule \<Rightarrow> 'j incident_pipeline \<Rightarrow> (incident_error, unit, 'j incident_pipeline) outcome" where
  "add_incident_rule r p =
     (if list_ex (\<lambda>x. iu_id x = iu_id r) (ip_rules p) then (Inl (DuplicateIncidentRule (iu_id r)), p)
      else (Inr (), p\<lparr>ip_rules := ip_rules p @ [r]\<rparr>))"

definition open_for :: "string \<Rightarrow> string \<Rightarrow> 'j incident \<Rightarrow> bool" where
  "open_for rule_id dim x =
     (in_created_by_rule x = Some rule_id \<and> in_dimension_id x = dim \<and> in_state x = IncidentOpen)"

text \<open>
  The loop over the matching rules. \<open>fresh\<close> and \<open>now\<close> are what the next incident would draw.
\<close>

fun ingest_rules ::
  "(nat \<Rightarrow> string) \<Rightarrow> u64 \<Rightarrow> 'j telemetry_signal \<Rightarrow> incident_rule list \<Rightarrow> 'j incident_pipeline
     \<Rightarrow> string list \<times> 'j incident_pipeline" where
  "ingest_rules fresh now sig [] p = ([], p)"
| "ingest_rules fresh now sig (rule # rules) p =
     (let key = (iu_id rule, tg_dimension_id sig);
          count = (case ip_signal_counts p key of None \<Rightarrow> 0 | Some c \<Rightarrow> c) + 1;
          p1 = p\<lparr>ip_signal_counts := (ip_signal_counts p)(key \<mapsto> count)\<rparr>
      in if count < iu_threshold_count rule then ingest_rules fresh now sig rules p1
         else
           case find (\<lambda>(k, x). open_for (iu_id rule) (tg_dimension_id sig) x) (ip_incidents p1) of
             Some (k, x) \<Rightarrow>
               let p2 = p1\<lparr>ip_incidents :=
                          om_insert k (x\<lparr>in_signals := in_signals x @ [sig]\<rparr>) (ip_incidents p1)\<rparr>;
                   (ids, p3) = ingest_rules fresh now sig rules p2
               in (in_id x # ids, p3)
           | None \<Rightarrow>
               let title = replace_all ''{signal_type}'' (tg_signal_type sig) (iu_title_template rule);
                   x = new_incident (fresh 0) now title (iu_severity rule) (tg_dimension_id sig)
                         (Some (iu_id rule));
                   p2 = p1\<lparr>ip_incidents := om_insert (in_id x) (x\<lparr>in_signals := [sig]\<rparr>) (ip_incidents p1)\<rparr>;
                   (ids, p3) = ingest_rules (\<lambda>i. fresh (Suc i)) now sig rules p2
               in (in_id x # ids, p3))"

definition ingest_signal ::
  "(nat \<Rightarrow> string) \<Rightarrow> u64 \<Rightarrow> 'j telemetry_signal \<Rightarrow> 'j incident_pipeline
     \<Rightarrow> string list \<times> 'j incident_pipeline" where
  "ingest_signal fresh now sig p =
     ingest_rules fresh now sig
       (filter (\<lambda>r. prefix (iu_signal_type_prefix r) (tg_signal_type sig)) (ip_rules p)) p"

definition get_incident :: "'j incident_pipeline \<Rightarrow> string \<Rightarrow> 'j incident option" where
  "get_incident p i = om_get (ip_incidents p) i"

text \<open>A change through \<open>get_mut\<close>.\<close>

definition edit_incident :: "string \<Rightarrow> ('j incident \<Rightarrow> 'j incident) \<Rightarrow> 'j incident_pipeline \<Rightarrow> 'j incident_pipeline" where
  "edit_incident i f p =
     (case om_get (ip_incidents p) i of
        None \<Rightarrow> p
      | Some x \<Rightarrow> p\<lparr>ip_incidents := om_insert i (f x) (ip_incidents p)\<rparr>)"

definition open_incidents :: "'j incident_pipeline \<Rightarrow> 'j incident list" where
  "open_incidents p = filter (\<lambda>x. in_state x = IncidentOpen) (om_values (ip_incidents p))"

definition all_incidents :: "'j incident_pipeline \<Rightarrow> 'j incident list" where
  "all_incidents p = om_values (ip_incidents p)"

end
