(* ===== verification/Triage.thy ===== *)
theory Triage
  imports Reliability_Metrics
begin

text \<open>
  The triage of regressions (\<open>ify-reliability/src/regression.rs\<close>): reports, owner rules and the engine.
\<close>

datatype triage_error = DuplicateReport string | ReportNotFound string | DuplicateOwnerRule string

datatype sla_tier = P0 | P1 | P2 | P3

primrec deadline_secs :: "sla_tier \<Rightarrow> u64" where
  "deadline_secs P0 = 4 * 3600"
| "deadline_secs P1 = 24 * 3600"
| "deadline_secs P2 = 3 * 24 * 3600"
| "deadline_secs P3 = 14 * 24 * 3600"

text \<open>The dash of the texts is the en dash, three bytes.\<close>

definition en_dash :: string where
  "en_dash = [CHR 0xE2, CHR 0x80, CHR 0x93]"

primrec sla_description :: "sla_tier \<Rightarrow> string" where
  "sla_description P0 = ''P0 '' @ en_dash @ '' resolve within 4 h''"
| "sla_description P1 = ''P1 '' @ en_dash @ '' resolve within 24 h''"
| "sla_description P2 = ''P2 '' @ en_dash @ '' resolve within 3 days''"
| "sla_description P3 = ''P3 '' @ en_dash @ '' resolve within 2 weeks''"

record triage_label =
  tl_key :: string
  tl_value :: string

definition new_label :: "string \<Rightarrow> string \<Rightarrow> triage_label" where
  "new_label key v = \<lparr>tl_key = key, tl_value = v\<rparr>"

record triage_owner =
  tw_owner :: string
  tw_contact :: "string option"

definition new_owner :: "string \<Rightarrow> triage_owner" where
  "new_owner owner = \<lparr>tw_owner = owner, tw_contact = None\<rparr>"

definition owner_with_contact :: "string \<Rightarrow> string \<Rightarrow> triage_owner" where
  "owner_with_contact owner contact = \<lparr>tw_owner = owner, tw_contact = Some contact\<rparr>"

datatype triage_state = Untriaged | Triaged | InProgress | TriageResolved | WontFix

record regression_report =
  re_id :: string
  re_title :: string
  re_component :: string
  re_cycle_id :: string
  re_measured_value :: f64
  re_baseline_value :: f64
  re_state :: triage_state
  re_labels :: "triage_label list"
  re_owner :: "triage_owner option"
  re_sla :: "sla_tier option"
  re_detected_at :: u64
  re_resolved_at :: "u64 option"

definition new_regression :: "string \<Rightarrow> u64 \<Rightarrow> string \<Rightarrow> string \<Rightarrow> string \<Rightarrow> f64 \<Rightarrow> f64 \<Rightarrow> regression_report" where
  "new_regression fresh now title component cycle_id measured baseline =
     \<lparr>re_id = fresh, re_title = title, re_component = component, re_cycle_id = cycle_id,
      re_measured_value = measured, re_baseline_value = baseline, re_state = Untriaged,
      re_labels = [], re_owner = None, re_sla = None, re_detected_at = now, re_resolved_at = None\<rparr>"

definition f64_infinity :: f64 where
  "f64_infinity = 0x7FF0000000000000"

definition regression_ratio :: "float_arith \<Rightarrow> regression_report \<Rightarrow> f64" where
  "regression_ratio ops r =
     (if f64_le (re_baseline_value r) 0 \<and> f64_le 0 (re_baseline_value r) then f64_infinity
      else fa_div ops (fa_sub ops (re_measured_value r) (re_baseline_value r)) (re_baseline_value r))"

record owner_rule =
  ow_id :: string
  ow_component_prefix :: string
  ow_owner :: triage_owner
  ow_default_sla :: sla_tier

section \<open>The engine\<close>

record triage_engine =
  te_reports :: "(string, regression_report) om"
  te_owner_rules :: "owner_rule list"

definition new_triage_engine :: triage_engine where
  "new_triage_engine = \<lparr>te_reports = om_empty, te_owner_rules = []\<rparr>"

definition add_owner_rule :: "owner_rule \<Rightarrow> triage_engine \<Rightarrow> (triage_error, unit, triage_engine) outcome" where
  "add_owner_rule r s =
     (if list_ex (\<lambda>x. ow_id x = ow_id r) (te_owner_rules s) then (Inl (DuplicateOwnerRule (ow_id r)), s)
      else (Inr (), s\<lparr>te_owner_rules := te_owner_rules s @ [r]\<rparr>))"

text \<open>The bounds are 0.5, 0.2 and 0.1.\<close>

definition severity_of :: "f64 \<Rightarrow> string" where
  "severity_of ratio =
     (if f64_le 0x3FE0000000000000 ratio then ''critical''
      else if f64_le 0x3FC999999999999A ratio then ''high''
      else if f64_le 0x3FB999999999999A ratio then ''medium''
      else ''low'')"

definition assign_owner :: "owner_rule list \<Rightarrow> regression_report \<Rightarrow> regression_report" where
  "assign_owner rules r =
     (case find (\<lambda>x. prefix (ow_component_prefix x) (re_component r)) rules of
        None \<Rightarrow> r
      | Some rule \<Rightarrow>
          r\<lparr>re_owner := Some (ow_owner rule),
            re_sla := (case re_sla r of None \<Rightarrow> Some (ow_default_sla rule) | Some t \<Rightarrow> Some t)\<rparr>)"

definition submit_report ::
  "float_arith \<Rightarrow> regression_report \<Rightarrow> triage_engine \<Rightarrow> (triage_error, string, triage_engine) outcome" where
  "submit_report ops r s =
     (if om_contains (te_reports s) (re_id r) then (Inl (DuplicateReport (re_id r)), s)
      else
        let r1 = assign_owner (te_owner_rules s) r;
            r2 = r1\<lparr>re_labels := re_labels r1 @
                     [new_label ''severity'' (severity_of (regression_ratio ops r1)),
                      new_label ''component'' (re_component r1), new_label ''status'' ''triaged''],
                   re_state := Triaged\<rparr>
        in (Inr (re_id r2), s\<lparr>te_reports := om_insert (re_id r2) r2 (te_reports s)\<rparr>))"

text \<open>The status label is replaced.\<close>

definition set_status :: "string \<Rightarrow> regression_report \<Rightarrow> regression_report" where
  "set_status v r =
     r\<lparr>re_labels := filter (\<lambda>l. tl_key l \<noteq> ''status'') (re_labels r) @ [new_label ''status'' v]\<rparr>"

definition start_fix :: "string \<Rightarrow> triage_engine \<Rightarrow> (triage_error, unit, triage_engine) outcome" where
  "start_fix i s =
     (case om_get (te_reports s) i of
        None \<Rightarrow> (Inl (ReportNotFound i), s)
      | Some r \<Rightarrow>
          (Inr (), s\<lparr>te_reports :=
             om_insert i (set_status ''in_progress'' (r\<lparr>re_state := InProgress\<rparr>)) (te_reports s)\<rparr>))"

definition resolve_report :: "u64 \<Rightarrow> string \<Rightarrow> triage_engine \<Rightarrow> (triage_error, unit, triage_engine) outcome" where
  "resolve_report now i s =
     (case om_get (te_reports s) i of
        None \<Rightarrow> (Inl (ReportNotFound i), s)
      | Some r \<Rightarrow>
          (Inr (), s\<lparr>te_reports :=
             om_insert i (set_status ''resolved'' (r\<lparr>re_state := TriageResolved, re_resolved_at := Some now\<rparr>))
               (te_reports s)\<rparr>))"

definition get_report :: "triage_engine \<Rightarrow> string \<Rightarrow> regression_report option" where
  "get_report s i = om_get (te_reports s) i"

definition reports_by_cycle :: "triage_engine \<Rightarrow> string \<Rightarrow> regression_report list" where
  "reports_by_cycle s cycle_id = filter (\<lambda>r. re_cycle_id r = cycle_id) (om_values (te_reports s))"

definition is_open_report :: "regression_report \<Rightarrow> bool" where
  "is_open_report r = (re_state r \<noteq> TriageResolved \<and> re_state r \<noteq> WontFix)"

definition open_reports :: "triage_engine \<Rightarrow> regression_report list" where
  "open_reports s = filter is_open_report (om_values (te_reports s))"

end
