(* ===== verification/Dashboard.thy ===== *)
theory Dashboard
  imports Incident_Pipeline Triage
begin

text \<open>
  The reliability dashboard (\<open>ify-reliability/src/dashboard.rs\<close>): the panels, their health, the events
  and the snapshot. The texts of percentages are the argument \<open>fmt\<close>, of a precision and a float; the
  JSON form of a status and of a severity are written out as their fields.
\<close>

datatype panel_health = HealthUnknown | HealthHealthy | HealthAtRisk | HealthDegraded

text \<open>The derived order is that of the declaration.\<close>

primrec health_rank :: "panel_health \<Rightarrow> nat" where
  "health_rank HealthUnknown = 0"
| "health_rank HealthHealthy = 1"
| "health_rank HealthAtRisk = 2"
| "health_rank HealthDegraded = 3"

instantiation panel_health :: linorder
begin

definition less_eq_panel_health :: "panel_health \<Rightarrow> panel_health \<Rightarrow> bool" where
  "less_eq_panel_health a b = (health_rank a \<le> health_rank b)"

definition less_panel_health :: "panel_health \<Rightarrow> panel_health \<Rightarrow> bool" where
  "less_panel_health a b = (health_rank a < health_rank b)"

instance
proof
  fix a b :: panel_health
  show "a \<le> b \<Longrightarrow> b \<le> a \<Longrightarrow> a = b"
    by (cases a; cases b) (simp_all add: less_eq_panel_health_def)
qed (auto simp: less_eq_panel_health_def less_panel_health_def)

end

record 'j dashboard_panel =
  pp_id :: string
  pp_title :: string
  pp_health :: panel_health
  pp_data :: "'j payload"

record 'j dashboard_snapshot =
  dn_timestamp_secs :: u64
  dn_overall_health :: panel_health
  dn_panels :: "'j dashboard_panel list"

definition snapshot_panel :: "'j dashboard_snapshot \<Rightarrow> string \<Rightarrow> 'j dashboard_panel option" where
  "snapshot_panel s i = find (\<lambda>p. pp_id p = i) (dn_panels s)"

datatype dashboard_event_kind = SloBreach | ErrorBudgetAtRisk | ErrorBudgetExhausted | IncidentOpened | AllSlosRecovered

record dashboard_event =
  dv_kind :: dashboard_event_kind
  dv_panel_id :: string
  dv_message :: string
  dv_timestamp_secs :: u64

type_synonym dashboard = "dashboard_event list"

text \<open>Every event reads the clock; \<open>now\<close> is that reading.\<close>

definition emit_dashboard_event :: "u64 \<Rightarrow> dashboard_event_kind \<Rightarrow> string \<Rightarrow> string \<Rightarrow> dashboard \<Rightarrow> dashboard" where
  "emit_dashboard_event now kind panel_id message d =
     d @ [\<lparr>dv_kind = kind, dv_panel_id = panel_id, dv_message = message, dv_timestamp_secs = now\<rparr>]"

section \<open>Panels\<close>

definition status_payload :: "slo_status \<Rightarrow> 'j payload_value" where
  "status_payload u = PObject
     [(''name'', PText (su_name u)), (''passing'', PBool (su_passing u)),
      (''measured_value'', PFloat (su_measured_value u)), (''threshold'', PFloat (su_threshold u)),
      (''compliance_ratio'', PFloat (su_compliance_ratio u)), (''sample_count'', PNum (su_sample_count u))]"

text \<open>The loop over the results: entries of the panel, a breach, a missing result, the events.\<close>

fun slo_rows ::
  "float_arith \<Rightarrow> (nat \<Rightarrow> f64 \<Rightarrow> string) \<Rightarrow> u64 \<Rightarrow> (string \<times> (slo_error + slo_status)) list \<Rightarrow> dashboard
     \<Rightarrow> (string \<times> 'j payload_value) list \<times> bool \<times> bool \<times> dashboard" where
  "slo_rows ops fmt now [] d = ([], False, False, d)"
| "slo_rows ops fmt now ((name, r) # rs) d =
     (case r of
        Inr u \<Rightarrow>
          let d1 = (if \<not> su_passing u
                then emit_dashboard_event now SloBreach ''slo_status''
                       (''SLO '' @ quoted name @ '' is breaching (compliance ''
                        @ fmt 1 (fa_mul ops (su_compliance_ratio u) 0x4059000000000000) @ ''%)'') d
                else d);
              (rows, breach, unknown, d2) = slo_rows ops fmt now rs d1
          in ((name, status_payload u) # rows, \<not> su_passing u \<or> breach, unknown, d2)
      | Inl _ \<Rightarrow>
          let (rows, breach, unknown, d2) = slo_rows ops fmt now rs d
          in ((name, PObject [(''status'', PText ''no_data'')]) # rows, breach, True, d2))"

definition build_slo_panel ::
  "float_arith \<Rightarrow> (nat \<Rightarrow> f64 \<Rightarrow> string) \<Rightarrow> u64 \<Rightarrow> slo_registry \<Rightarrow> dashboard \<Rightarrow> 'j dashboard_panel \<times> dashboard" where
  "build_slo_panel ops fmt now reg d =
     (let (rows, breach, unknown, d1) = slo_rows ops fmt now (evaluate_all_slos ops reg) d;
          health = (if breach then HealthDegraded else if unknown then HealthUnknown else HealthHealthy)
      in (\<lparr>pp_id = ''slo_status'', pp_title = ''SLO Status'', pp_health = health,
           pp_data = [(''slos'', PObject rows)]\<rparr>, d1))"

definition f64_is_zero :: "f64 \<Rightarrow> bool" where
  "f64_is_zero x = (f64_le x 0 \<and> f64_le 0 x)"

text \<open>The dash of the message is the em dash, three bytes; 0.2 is \<open>0x3FC999999999999A\<close>.\<close>

definition build_error_budget_panel ::
  "float_arith \<Rightarrow> (nat \<Rightarrow> f64 \<Rightarrow> string) \<Rightarrow> u64 \<Rightarrow> reliability_metrics \<Rightarrow> dashboard
     \<Rightarrow> 'j dashboard_panel \<times> dashboard" where
  "build_error_budget_panel ops fmt now m d =
     (let task = remaining_ratio ops (rm_task_error_budget m);
          ui = remaining_ratio ops (rm_ui_error_budget m);
          (health, d1) =
            (if f64_is_zero task \<or> f64_is_zero ui
             then (HealthDegraded, emit_dashboard_event now ErrorBudgetExhausted ''error_budget'' ''Error budget exhausted'' d)
             else if f64_lt task 0x3FC999999999999A \<or> f64_lt ui 0x3FC999999999999A
             then (HealthAtRisk, emit_dashboard_event now ErrorBudgetAtRisk ''error_budget''
                     (''Error budget at risk '' @ [CHR 0xE2, CHR 0x80, CHR 0x94] @ '' task: ''
                      @ fmt 0 (fa_mul ops task 0x4059000000000000) @ ''%, ui: ''
                      @ fmt 0 (fa_mul ops ui 0x4059000000000000) @ ''%'') d)
             else (HealthHealthy, d))
      in (\<lparr>pp_id = ''error_budget'', pp_title = ''Error Budget'', pp_health = health,
           pp_data =
             [(''task_remaining_ratio'', PFloat task), (''ui_remaining_ratio'', PFloat ui),
              (''task_allowed_downtime_secs'', PFloat (allowed_downtime_secs ops (rm_task_error_budget m))),
              (''ui_allowed_downtime_secs'', PFloat (allowed_downtime_secs ops (rm_ui_error_budget m)))]\<rparr>, d1))"

text \<open>1800.0 and 7200.0.\<close>

definition build_mttr_panel :: "float_arith \<Rightarrow> reliability_metrics \<Rightarrow> 'j dashboard_panel" where
  "build_mttr_panel ops m =
     (let mttr = mttr_secs ops (rm_mttr m);
          health = (case mttr of
                      Inl _ \<Rightarrow> HealthUnknown
                    | Inr v \<Rightarrow> if f64_lt v 0x409C200000000000 then HealthHealthy
                              else if f64_lt v 0x40BC200000000000 then HealthAtRisk else HealthDegraded)
      in \<lparr>pp_id = ''mttr'', pp_title = ''MTTR'', pp_health = health,
          pp_data = [(''mttr_secs'', payload_f64 mttr),
                     (''incident_count'', PNum (of_nat (mttr_len (rm_mttr m))))]\<rparr>)"

primrec severity_text :: "incident_severity \<Rightarrow> string" where
  "severity_text SevCritical = ''critical''"
| "severity_text SevHigh = ''high''"
| "severity_text SevMedium = ''medium''"
| "severity_text SevLow = ''low''"

definition build_incidents_panel :: "'j incident list \<Rightarrow> 'j dashboard_panel" where
  "build_incidents_panel incidents =
     (let open_rows = map (\<lambda>x. PObject [(''id'', PText (in_id x)), (''title'', PText (in_title x)),
            (''severity'', PText (severity_text (in_severity x))), (''opened_at'', PNum (in_opened_at x))])
          (filter (\<lambda>x. in_state x = IncidentOpen) incidents);
          health = (if open_rows = [] then HealthHealthy else HealthDegraded)
      in \<lparr>pp_id = ''incidents'', pp_title = ''Open Incidents'', pp_health = health,
          pp_data = [(''open'', PList open_rows), (''count'', PNum (of_nat (List.length open_rows)))]\<rparr>)"

definition build_regression_panel :: "regression_report list \<Rightarrow> 'j dashboard_panel" where
  "build_regression_panel regressions =
     (let open_count = List.length (filter is_open_report regressions);
          health = (if open_count = 0 then HealthHealthy
                    else if open_count \<le> 3 then HealthAtRisk else HealthDegraded)
      in \<lparr>pp_id = ''regressions'', pp_title = ''Regressions'', pp_health = health,
          pp_data = [(''open_count'', PNum (of_nat open_count)),
                     (''total'', PNum (of_nat (List.length regressions)))]\<rparr>)"

section \<open>The snapshot\<close>

definition dashboard_snapshot_of ::
  "float_arith \<Rightarrow> (nat \<Rightarrow> f64 \<Rightarrow> string) \<Rightarrow> u64 \<Rightarrow> slo_registry \<Rightarrow> reliability_metrics \<Rightarrow> 'j incident list
     \<Rightarrow> regression_report list \<Rightarrow> dashboard \<Rightarrow> 'j dashboard_snapshot \<times> dashboard" where
  "dashboard_snapshot_of ops fmt now reg m incidents regressions d =
     (let (slo, d1) = build_slo_panel ops fmt now reg d;
          (budget, d2) = build_error_budget_panel ops fmt now m d1;
          panels = [slo, budget, build_mttr_panel ops m, build_incidents_panel incidents,
                    build_regression_panel regressions]
      in (\<lparr>dn_timestamp_secs = now, dn_overall_health = foldr (max \<circ> pp_health) panels HealthUnknown,
           dn_panels = panels\<rparr>, d2))"

end
