(* ===== verification/Chaos.thy ===== *)
theory Chaos
  imports Float_Order Ordered_Map "HOL-Library.Char_ord" "HOL-Library.List_Lexorder"
begin

text \<open>
  Chaos scenarios (\<open>ify-reliability/src/chaos.rs\<close>). The scenarios are a \<open>HashMap\<close>, and the evaluation
  takes the first match in its iteration order: that order is the argument \<open>order\<close> of each call. The
  conversion of the low half of a hash to a float below one is the argument \<open>unit_float\<close>.
\<close>

unbundle bit_operations_syntax

datatype chaos_error = DuplicateScenario string | ScenarioNotFound string

datatype fault_kind =
    TaskFailure string
  | LatencyMs u64
  | ReplicaCrash string
  | NetworkPartition u8
  | ResourceExhausted

datatype chaos_policy = Always | Once | Random f64 | AfterN u32

record chaos_scenario =
  cs_id :: string
  cs_target :: string
  cs_fault :: fault_kind
  cs_policy :: chaos_policy
  cs_active :: bool
  cs_trigger_count :: u32

definition new_scenario :: "string \<Rightarrow> string \<Rightarrow> fault_kind \<Rightarrow> chaos_policy \<Rightarrow> chaos_scenario" where
  "new_scenario i target fault policy =
     \<lparr>cs_id = i, cs_target = target, cs_fault = fault, cs_policy = policy, cs_active = True,
      cs_trigger_count = 0\<rparr>"

datatype chaos_decision = Proceed | Inject fault_kind

definition is_fault :: "chaos_decision \<Rightarrow> bool" where
  "is_fault d = (case d of Proceed \<Rightarrow> False | Inject _ \<Rightarrow> True)"

record chaos_engine =
  cg_scenarios :: "string \<rightharpoonup> chaos_scenario"
  cg_call_counter :: u64
  cg_seed :: u64

definition new_chaos_engine :: "u64 \<Rightarrow> chaos_engine" where
  "new_chaos_engine seed = \<lparr>cg_scenarios = Map.empty, cg_call_counter = 0, cg_seed = seed\<rparr>"

definition deterministic_engine :: chaos_engine where
  "deterministic_engine = new_chaos_engine 0"

definition register_scenario :: "chaos_scenario \<Rightarrow> chaos_engine \<Rightarrow> (chaos_error, unit, chaos_engine) outcome" where
  "register_scenario c s =
     (if cg_scenarios s (cs_id c) \<noteq> None then (Inl (DuplicateScenario (cs_id c)), s)
      else (Inr (), s\<lparr>cg_scenarios := (cg_scenarios s)(cs_id c \<mapsto> c)\<rparr>))"

definition deactivate_scenario :: "string \<Rightarrow> chaos_engine \<Rightarrow> (chaos_error, unit, chaos_engine) outcome" where
  "deactivate_scenario i s =
     (case cg_scenarios s i of
        None \<Rightarrow> (Inl (ScenarioNotFound i), s)
      | Some c \<Rightarrow> (Inr (), s\<lparr>cg_scenarios := (cg_scenarios s)(i \<mapsto> c\<lparr>cs_active := False\<rparr>)\<rparr>))"

definition scenario_matches :: "string \<Rightarrow> chaos_scenario \<Rightarrow> bool" where
  "scenario_matches operation c = (cs_active c \<and> prefix (cs_target c) operation)"

definition chaos_hash :: "u64 \<Rightarrow> u64 \<Rightarrow> u64" where
  "chaos_hash seed counter = ((seed + counter) * 0x9e3779b97f4a7c15) XOR drop_bit 17 counter"

text \<open>The decision of a policy, and the scenario after it.\<close>

definition apply_chaos_policy ::
  "(u64 \<Rightarrow> f64) \<Rightarrow> u64 \<Rightarrow> u64 \<Rightarrow> chaos_scenario \<Rightarrow> bool \<times> chaos_scenario" where
  "apply_chaos_policy unit_float seed counter c =
     (case cs_policy c of
        Always \<Rightarrow> (True, c)
      | Once \<Rightarrow> if cs_trigger_count c = 1 then (True, c\<lparr>cs_active := False\<rparr>) else (False, c)
      | Random probability \<Rightarrow>
          (f64_lt (unit_float (chaos_hash seed counter AND 0xFFFFFFFF)) probability, c)
      | AfterN after_calls \<Rightarrow> (after_calls < cs_trigger_count c, c))"

definition evaluate_chaos ::
  "(u64 \<Rightarrow> f64) \<Rightarrow> string list \<Rightarrow> string \<Rightarrow> chaos_engine \<Rightarrow> chaos_decision \<times> chaos_engine" where
  "evaluate_chaos unit_float order operation s =
     (let s1 = s\<lparr>cg_call_counter := cg_call_counter s + 1\<rparr>
      in case find (\<lambda>i. case cg_scenarios s1 i of None \<Rightarrow> False | Some c \<Rightarrow> scenario_matches operation c) order of
           None \<Rightarrow> (Proceed, s1)
         | Some i \<Rightarrow>
             (case cg_scenarios s1 i of
                None \<Rightarrow> (Proceed, s1)
              | Some c \<Rightarrow>
                  let c1 = c\<lparr>cs_trigger_count := cs_trigger_count c + 1\<rparr>;
                      (inject, c2) = apply_chaos_policy unit_float (cg_seed s1) (cg_call_counter s1) c1
                  in (if inject then Inject (cs_fault c2) else Proceed,
                      s1\<lparr>cg_scenarios := (cg_scenarios s1)(i \<mapsto> c2)\<rparr>)))"

text \<open>The snapshot of all scenarios, in the iteration order.\<close>

definition chaos_scenarios :: "string list \<Rightarrow> chaos_engine \<Rightarrow> chaos_scenario list" where
  "chaos_scenarios order s = List.map_filter (cg_scenarios s) order"

end
