(* ===== verification/Reliability_Claims.thy ===== *)
theory Reliability_Claims
  imports Dashboard Chaos Replica_Claims "HOL-Library.Multiset"
begin

text \<open>
  Reliability: windows keep the most recent entries, objectives are evaluated over them, a rule has
  at most one open incident per dimension, status labels follow the state of a report, a one-shot
  fault fires once, and what the overall health of the dashboard means.
\<close>

section \<open>Windows\<close>

definition recent :: "nat \<Rightarrow> 'a list \<Rightarrow> 'a list" where
  "recent n xs = drop (List.length xs - n) xs"

lemma recent_short: "List.length xs \<le> n \<Longrightarrow> recent n xs = xs"
  by (simp add: recent_def)

lemma recent_Nil [simp]: "recent n [] = []"
  by (simp add: recent_def)

lemma recent_Nil_iff: "0 < n \<Longrightarrow> recent n xs = [] \<longleftrightarrow> xs = []"
  by (cases xs) (auto simp: recent_def)

lemma window_push_recent:
  assumes "0 < unat n"
  shows "window_push n x (recent (unat n) xs) = recent (unat n) (xs @ [x])"
proof (cases "unat n \<le> List.length xs")
  case True
  then have "tl (drop (List.length xs - unat n) xs) = drop (Suc (List.length xs) - unat n) xs"
    by (simp add: drop_Suc [symmetric] tl_drop Suc_diff_le)
  moreover have "Suc 0 - unat n = 0" using assms by simp
  ultimately show ?thesis using True by (simp add: window_push_def recent_def)
next
  case False
  then show ?thesis by (simp add: window_push_def recent_def)
qed

lemma max_one_pos: "0 < unat (max n (1 :: usize))"
  by (metis max.cobounded2 unat_gt_0 word_le_0_iff zero_neq_one)

section \<open>Objectives\<close>

datatype slo_call = RegisterSlo slo_threshold | RecordSample slo_sample

primrec slo_step :: "slo_call \<Rightarrow> slo_registry \<Rightarrow> slo_registry" where
  "slo_step (RegisterSlo t) s = after (register_slo t s)"
| "slo_step (RecordSample x) s = after (record_sample x s)"

text \<open>What was registered and everything recorded for it since.\<close>

primrec slo_history :: "slo_call \<Rightarrow> (string \<rightharpoonup> slo_threshold \<times> f64 list) \<Rightarrow> (string \<rightharpoonup> slo_threshold \<times> f64 list)" where
  "slo_history (RegisterSlo t) h = (if h (st_name t) = None then h(st_name t \<mapsto> (t, [])) else h)"
| "slo_history (RecordSample x) h =
     (case h (ss_slo_name x) of
        None \<Rightarrow> h
      | Some (t, vs) \<Rightarrow> h(ss_slo_name x \<mapsto> (t, vs @ [ss_value x])))"

definition slo_refines :: "slo_registry \<Rightarrow> (string \<rightharpoonup> slo_threshold \<times> f64 list) \<Rightarrow> bool" where
  "slo_refines s h \<longleftrightarrow>
     om_ok (sr_thresholds s) \<and> 0 < unat (sr_window_size s) \<and>
     (\<forall>k. om_get (sr_thresholds s) k = map_option fst (h k)) \<and>
     (\<forall>k. sr_windows s k = map_option (\<lambda>(t, vs). recent (unat (sr_window_size s)) vs) (h k))"

lemma slo_refines_step:
  assumes "slo_refines s h"
  shows "slo_refines (slo_step c s) (slo_history c h)"
proof (cases c)
  case (RegisterSlo t)
  then show ?thesis
    using assms
    by (auto simp: register_slo_def slo_refines_def om_contains_def om_insert_ok om_get_insert recent_def)
next
  case (RecordSample x)
  show ?thesis
  proof (cases "h (ss_slo_name x)")
    case None
    then show ?thesis using assms by (simp add: RecordSample record_sample_def slo_refines_def)
  next
    case (Some tv)
    obtain t vs where tv: "tv = (t, vs)" by (cases tv)
    have "window_push (sr_window_size s) (ss_value x) (recent (unat (sr_window_size s)) vs) =
        recent (unat (sr_window_size s)) (vs @ [ss_value x])"
      using assms by (intro window_push_recent) (simp add: slo_refines_def)
    then show ?thesis
      using assms by (auto simp: RecordSample record_sample_def slo_refines_def Some tv)
  qed
qed

lemma slo_step_size: "sr_window_size (slo_step c s) = sr_window_size s"
  by (cases c) (simp_all add: register_slo_def record_sample_def split: option.split)

interpretation slo_sizes: invariant_system "\<lambda>_ _. True" slo_step "\<lambda>s. sr_window_size s = n" for n
  by unfold_locales (simp add: slo_step_size)

lemma slo_window_size: "sr_window_size (fold slo_step calls s) = sr_window_size s"
  by (rule slo_sizes.run_inv) simp_all

lemma slo_refines_run: "slo_refines s h \<Longrightarrow> slo_refines (fold slo_step calls s) (fold slo_history calls h)"
  by (induction calls arbitrary: s h) (auto simp: slo_refines_step)

text \<open>What the evaluation of the samples \<open>w\<close> has to say, without their order: the share of the
  compliant ones and whether it reaches the target, and the value measured, for availability the mean
  of the samples summed from the smallest up, otherwise the sample at the rank of the percentile.\<close>

definition at_rank :: "('a \<Rightarrow> int) \<Rightarrow> nat \<Rightarrow> 'a list \<Rightarrow> 'a \<Rightarrow> bool" where
  "at_rank f k w m \<longleftrightarrow>
     m \<in> set w \<and> List.length (filter (\<lambda>v. f v < f m) w) \<le> k \<and> k < List.length (filter (\<lambda>v. f v \<le> f m) w)"

definition judged :: "float_arith \<Rightarrow> slo_threshold \<Rightarrow> f64 list \<Rightarrow> slo_status \<Rightarrow> bool" where
  "judged ops t w st \<longleftrightarrow>
     (let n = fa_of_u64 ops (of_nat (List.length w));
          ratio = fa_div ops (fa_of_u64 ops (of_nat (List.length (filter (compliant t) w)))) n
      in su_name st = st_name t \<and> su_threshold st = st_threshold t \<and>
         su_sample_count st = of_nat (List.length w) \<and> su_compliance_ratio st = ratio \<and>
         su_passing st = f64_le (st_target_ratio t) ratio \<and>
         (if st_kind t = TaskAvailability
          then \<exists>xs. mset xs = mset w \<and> sorted (map f64_total xs) \<and>
                 su_measured_value st = fa_div ops (fa_sum ops xs) n
          else at_rank f64_total (percentile_index ops (st_percentile t) (List.length w)) w
                 (su_measured_value st)))"

lemma at_rank_sorted:
  assumes k: "k < List.length w"
  shows "at_rank f k w (sort_key f w ! k)"
proof -
  let ?xs = "sort_key f w" and ?m = "sort_key f w ! k"
  have len: "List.length (filter p w) = card {i. i < List.length ?xs \<and> p (?xs ! i)}" for p
    by (metis filter_sort length_sort length_filter_conv_card)
  have up: "f (?xs ! i) \<le> f (?xs ! j)" if "i \<le> j" "j < List.length ?xs" for i j
    using sorted_nth_mono [OF sorted_sort_key [of f w], of i j] that by simp
  have "{i. i < List.length ?xs \<and> f (?xs ! i) < f ?m} \<subseteq> {..<k}"
    using up [of k] k by (auto simp: not_less [symmetric])
  then have "List.length (filter (\<lambda>v. f v < f ?m) w) \<le> k"
    using card_mono [of "{..<k}"] by (simp add: len)
  moreover have "{..k} \<subseteq> {i. i < List.length ?xs \<and> f (?xs ! i) \<le> f ?m}"
    using up [of _ k] k by auto
  then have "k < List.length (filter (\<lambda>v. f v \<le> f ?m) w)"
    using card_mono [of "{i. i < List.length ?xs \<and> f (?xs ! i) \<le> f ?m}" "{..k}"] by (simp add: len)
  moreover have "?m \<in> set w" using nth_mem [of k ?xs] k by simp
  ultimately show ?thesis by (simp add: at_rank_def)
qed

lemma evaluate_window_judged:
  assumes "w \<noteq> []"
  shows "judged ops t w (evaluate_window ops t w)"
proof -
  have count: "List.length (filter p (sort_key f64_total w)) = List.length (filter p w)" for p
    by (metis filter_sort length_sort)
  have k: "percentile_index ops (st_percentile t) (List.length w) < List.length w"
    using assms by (cases w) (auto simp: percentile_index_def min_def)
  show ?thesis
    unfolding judged_def evaluate_window_def Let_def
    using at_rank_sorted [OF k, of f64_total] by (auto simp: count intro!: exI [of _ "sort_key f64_total w"])
qed

lemma f64_eqI:
  assumes sgn: "bit x 63 = bit y 63" and mag: "f64_magnitude x = f64_magnitude y"
  shows "x = y"
proof (rule bit_word_eqI)
  fix i assume i: "i < LENGTH(64)"
  have m: "(0x7FFFFFFFFFFFFFFF :: f64) = mask 63" by (simp add: mask_eq_exp_minus_1)
  have "bit (f64_magnitude z) i = bit z i" if "i < 63" for z
    using that by (simp add: f64_magnitude_def m bit_and_iff bit_mask_iff)
  then show "bit x i = bit y i"
    using sgn mag i by (cases "i = 63") (simp_all, metis less_antisym numeral_eq_Suc pred_numeral_simps)
qed

lemma f64_total_inj: "inj f64_total"
proof (rule injI)
  fix x y assume eq: "f64_total x = f64_total y"
  define a b where "a = int (unat (f64_magnitude x))" and "b = int (unat (f64_magnitude y))"
  have "0 \<le> a" "0 \<le> b" unfolding a_def b_def by (rule of_nat_0_le_iff)+
  moreover have "(if bit x 63 then - a - 1 else a) = (if bit y 63 then - b - 1 else b)"
    using eq unfolding f64_total_def a_def b_def .
  ultimately have sgn: "bit x 63 = bit y 63" and "a = b" by (auto split: if_splits)
  from this(2) have "f64_magnitude x = f64_magnitude y"
    unfolding a_def b_def word_unat_eq_iff by (rule of_nat_eq_iff [THEN iffD1])
  with sgn show "x = y" by (rule f64_eqI)
qed

lemma evaluate_window_order:
  assumes "mset w = mset w'"
  shows "evaluate_window ops t w = evaluate_window ops t w'"
proof -
  have "sort_key f64_total w = sort_key f64_total w'"
    by (rule sort_key_inj_key_eq) (simp_all add: assms inj_on_subset [OF f64_total_inj])
  moreover have "List.length w = List.length w'" using assms by (rule mset_eq_length)
  ultimately show ?thesis by (simp add: evaluate_window_def)
qed

lemma evaluate_slo_run:
  "evaluate_slo ops (fold slo_step calls (new_slo_registry n)) name =
    (case fold slo_history calls Map.empty name of
       None \<Rightarrow> Inl (SloNotFound name)
     | Some (t, vs) \<Rightarrow>
         if vs = [] then Inl (EmptySamples name)
         else Inr ((evaluate_window ops t (recent (unat (max n 1)) vs))\<lparr>su_name := name\<rparr>))"
proof -
  define s where "s = fold slo_step calls (new_slo_registry n)"
  define h where "h = fold slo_history calls Map.empty"
  have ref: "slo_refines s h"
    unfolding s_def h_def
    by (rule slo_refines_run) (simp add: slo_refines_def new_slo_registry_def max_one_pos)
  have size: "sr_window_size s = max n 1"
    unfolding s_def slo_window_size by (simp add: new_slo_registry_def)
  have ne: "recent (unat (max n 1)) vs = [] \<longleftrightarrow> vs = []" for vs :: "f64 list"
    by (rule recent_Nil_iff) (rule max_one_pos)
  show ?thesis
  proof (cases "h name")
    case None
    then show ?thesis
      using ref unfolding s_def [symmetric] h_def [symmetric] by (simp add: evaluate_slo_def slo_refines_def)
  next
    case (Some tv)
    obtain t vs where tv: "tv = (t, vs)" by (cases tv)
    have "om_get (sr_thresholds s) name = Some t" "sr_windows s name = Some (recent (unat (max n 1)) vs)"
      using ref Some by (simp_all add: slo_refines_def tv size)
    then show ?thesis
      unfolding s_def [symmetric] h_def [symmetric] Some tv by (simp add: evaluate_slo_def ne)
  qed
qed

lemma slo_history_name: "fold slo_history calls Map.empty name = Some (t, vs) \<Longrightarrow> st_name t = name"
proof -
  let ?named = "\<lambda>h. \<forall>k tv. h k = Some tv \<longrightarrow> st_name (fst tv) = k"
  have step: "?named (slo_history c h)" if named: "?named h" for c h
  proof (cases c)
    case (RegisterSlo t')
    then show ?thesis using named by simp
  next
    case (RecordSample x)
    show ?thesis
    proof (cases "h (ss_slo_name x)")
      case None
      then show ?thesis using named by (simp add: RecordSample)
    next
      case (Some tv)
      have name: "st_name (fst tv) = ss_slo_name x" by (rule named [rule_format, OF Some])
      show ?thesis
      proof (intro allI impI)
        fix k tv' assume "slo_history c h k = Some tv'"
        then have "k = ss_slo_name x \<and> fst tv' = fst tv \<or> h k = Some tv'"
          by (auto simp: RecordSample Some case_prod_beta split: if_splits)
        then show "st_name (fst tv') = k" using name named by metis
      qed
    qed
  qed
  have "?named (fold slo_history calls h)" if "?named h" for h
    using that
  proof (induction calls arbitrary: h)
    case (Cons c calls)
    show ?case unfolding fold.simps comp_def by (rule Cons.IH [OF step [OF Cons.prems]])
  qed simp
  from this [of Map.empty] show "fold slo_history calls Map.empty name = Some (t, vs) \<Longrightarrow> st_name t = name"
    by (metis fst_conv option.distinct(1))
qed

text \<open>
  C36: Objectives are judged by their most recent samples. After any registrations and recordings,
  refused ones included, an objective that was never registered is not found, one without samples
  is reported as empty, and otherwise the status says what \<open>judged\<close> demands of the last samples
  recorded since the registration, at most as many as the window holds. Their order does not matter:
  any other run that ends with the same objective and the same last samples, in any order, gives the
  same status.
\<close>
theorem objectives_judged_by_recent_samples:
  "let s = fold slo_step calls (new_slo_registry n);
       s' = fold slo_step calls' (new_slo_registry n);
       w = (\<lambda>vs. recent (unat (max n 1)) vs)
   in case fold slo_history calls Map.empty name of
        None \<Rightarrow> evaluate_slo ops s name = Inl (SloNotFound name)
      | Some (t, vs) \<Rightarrow>
          if vs = [] then evaluate_slo ops s name = Inl (EmptySamples name)
          else (\<exists>st. evaluate_slo ops s name = Inr st \<and> su_name st = name \<and> judged ops t (w vs) st) \<and>
               (case fold slo_history calls' Map.empty name of
                  None \<Rightarrow> True
                | Some (t', vs') \<Rightarrow>
                    if t' = t \<and> mset (w vs') = mset (w vs)
                    then evaluate_slo ops s' name = evaluate_slo ops s name else True)"
proof -
  define w where "w = (\<lambda>vs. recent (unat (max n 1)) vs :: f64 list)"
  have ne: "w vs = [] \<longleftrightarrow> vs = []" for vs unfolding w_def by (rule recent_Nil_iff) (rule max_one_pos)
  have same: "vs' \<noteq> [] \<and> evaluate_window ops t (w vs') = evaluate_window ops t (w vs)"
    if "mset (w vs') = mset (w vs)" "vs \<noteq> []" for t vs vs'
    using that evaluate_window_order [OF that(1)] ne [of vs] ne [of vs'] by auto
  have st: "judged ops t (w vs) ((evaluate_window ops t (w vs))\<lparr>su_name := name\<rparr>)"
    if "fold slo_history calls Map.empty name = Some (t, vs)" "vs \<noteq> []" for t vs
    using evaluate_window_judged [of "w vs" ops t] that ne slo_history_name [OF that(1)]
    by (simp add: judged_def Let_def)
  show ?thesis
  proof (cases "fold slo_history calls Map.empty name")
    case None
    then show ?thesis by (simp add: Let_def evaluate_slo_run)
  next
    case (Some tv)
    obtain t vs where tv: "tv = (t, vs)" by (cases tv)
    have here: "evaluate_slo ops (fold slo_step calls (new_slo_registry n)) name =
        (if vs = [] then Inl (EmptySamples name)
         else Inr ((evaluate_window ops t (w vs))\<lparr>su_name := name\<rparr>))"
      unfolding evaluate_slo_run Some tv w_def by simp
    have other: "case fold slo_history calls' Map.empty name of
        None \<Rightarrow> True
      | Some (t', vs') \<Rightarrow>
          if t' = t \<and> mset (w vs') = mset (w vs)
          then evaluate_slo ops (fold slo_step calls' (new_slo_registry n)) name =
            evaluate_slo ops (fold slo_step calls (new_slo_registry n)) name else True" if "vs \<noteq> []"
    proof (cases "fold slo_history calls' Map.empty name")
      case None
      then show ?thesis by simp
    next
      case (Some tv')
      obtain t' vs' where tv': "tv' = (t', vs')" by (cases tv')
      have "evaluate_slo ops (fold slo_step calls' (new_slo_registry n)) name =
          evaluate_slo ops (fold slo_step calls (new_slo_registry n)) name"
        if eq: "t' = t" "mset (w vs') = mset (w vs)"
      proof -
        have "vs' \<noteq> []" and w: "evaluate_window ops t (w vs') = evaluate_window ops t (w vs)" for t
          using same [OF eq(2) \<open>vs \<noteq> []\<close>] by blast+
        then show ?thesis
          using here \<open>vs \<noteq> []\<close> eq(1) w [of t]
          unfolding evaluate_slo_run [of ops calls'] Some tv' w_def by simp
      qed
      then show ?thesis by (simp add: Some tv')
    qed
    show ?thesis
    proof (cases "vs = []")
      case True
      then show ?thesis using here unfolding Let_def Some tv by simp
    next
      case False
      then show ?thesis
        using other [OF False] st [OF Some [unfolded tv] False] here [unfolded if_not_P [OF False]]
        unfolding Let_def Some tv w_def [symmetric] option.case prod.case if_not_P [OF False]
        by (intro conjI exI [of _ "(evaluate_window ops t (w vs))\<lparr>su_name := name\<rparr>"]) simp_all
    qed
  qed
qed

section \<open>Incidents\<close>

datatype 'j incident_call =
    AddIncidentRule incident_rule
  | IngestSignal "nat \<Rightarrow> string" u64 "'j telemetry_signal"
  | Acknowledge string
  | ResolveIncident u64 string
  | LabelIncident string string string

primrec incident_step :: "'j incident_call \<Rightarrow> 'j incident_pipeline \<Rightarrow> 'j incident_pipeline" where
  "incident_step (AddIncidentRule r) p = after (add_incident_rule r p)"
| "incident_step (IngestSignal fresh now sig) p = snd (ingest_signal fresh now sig p)"
| "incident_step (Acknowledge i) p = edit_incident i acknowledge_incident p"
| "incident_step (ResolveIncident now i) p = edit_incident i (resolve_incident now) p"
| "incident_step (LabelIncident key v i) p = edit_incident i (label_incident key v) p"

text \<open>At most one open incident of a rule in a dimension, found under its own identifier.\<close>

definition open_pair :: "'j incident \<Rightarrow> 'j incident \<Rightarrow> bool" where
  "open_pair x y \<longleftrightarrow>
     in_state x = IncidentOpen \<and> in_state y = IncidentOpen \<and>
     in_created_by_rule x = in_created_by_rule y \<and> in_dimension_id x = in_dimension_id y"

definition incidents_ok :: "(string, 'j incident) om \<Rightarrow> bool" where
  "incidents_ok m \<longleftrightarrow>
     om_ok m \<and> identified in_id m \<and>
     (\<forall>i x j y. om_get m i = Some x \<longrightarrow> om_get m j = Some y \<longrightarrow> open_pair x y \<longrightarrow> i = j)"

lemma open_pair_sym: "open_pair x y \<Longrightarrow> open_pair y x"
  by (auto simp: open_pair_def)

lemma open_pair_trans: "open_pair x y \<Longrightarrow> open_pair y z \<Longrightarrow> open_pair x z"
  by (auto simp: open_pair_def)

lemma incidents_ok_update:
  assumes "incidents_ok m" and "in_id x' = i"
    and "\<And>j y. om_get m j = Some y \<Longrightarrow> open_pair x' y \<Longrightarrow> j = i"
  shows "incidents_ok (om_insert i x' m)"
proof -
  have ok: "om_ok m" "identified in_id m" using assms(1) by (simp_all add: incidents_ok_def)
  have unique: "i' = j'" if "om_get m i' = Some u" "om_get m j' = Some w" "open_pair u w" for i' j' u w
    using assms(1) that unfolding incidents_ok_def by blast
  have "i' = j'"
    if "om_get (om_insert i x' m) i' = Some u" "om_get (om_insert i x' m) j' = Some w" "open_pair u w"
    for i' j' u w
    using that assms(3) [of i' u] assms(3) [of j' w] unique [of i' u j' w] open_pair_sym [of u w]
    unfolding om_get_insert [OF ok(1)] by (auto split: if_splits)
  then show ?thesis
    using ok assms(2) unfolding incidents_ok_def by (simp add: om_insert_ok identified_insert)
qed

text \<open>A change that keeps an incident's rule and dimension and opens nothing.\<close>

lemma incidents_ok_change:
  assumes "incidents_ok m" and "om_get m i = Some x" and "in_id x' = in_id x"
    and "\<And>y. open_pair x' y \<Longrightarrow> open_pair x y"
  shows "incidents_ok (om_insert i x' m)"
proof (rule incidents_ok_update [OF assms(1)])
  show "in_id x' = i" using assms(1-3) by (auto simp: incidents_ok_def identified_def)
  show "j = i" if "om_get m j = Some y" "open_pair x' y" for j y
    using assms(1,2) assms(4) [OF that(2)] that(1) unfolding incidents_ok_def by blast
qed

lemma find_entry:
  assumes "om_ok m"
  shows "case find (\<lambda>(k, x). P x) m of
      None \<Rightarrow> \<forall>k x. om_get m k = Some x \<longrightarrow> \<not> P x
    | Some (k, x) \<Rightarrow> om_get m k = Some x \<and> P x"
proof (cases "find (\<lambda>(k, x). P x) m")
  case None
  then have "\<not> P (snd e)" if "e \<in> set m" for e using that by (cases e) (auto simp: find_None_iff)
  then show ?thesis by (auto simp: None dest: om_get_in_set)
next
  case (Some e)
  then have "e \<in> set m \<and> P (snd e)" using find_SomeD [OF Some] by (simp add: case_prod_unfold)
  then show ?thesis using assms om_get_iff [of m "fst e" "snd e"] by (cases e) (simp add: Some)
qed

lemma distinct_open:
  assumes "incidents_ok (ip_incidents p)"
  shows "distinct (map (\<lambda>x. (in_created_by_rule x, in_dimension_id x)) (open_incidents p))"
proof -
  have inj: "i = j" if "(i, x) \<in> set (ip_incidents p)" "(j, y) \<in> set (ip_incidents p)" "open_pair x y" for i j x y
    using assms that unfolding incidents_ok_def by (meson om_get_iff)
  have "distinct (map (\<lambda>e. (in_created_by_rule (snd e), in_dimension_id (snd e)))
      (filter (\<lambda>e. in_state (snd e) = IncidentOpen) (ip_incidents p)))"
    unfolding distinct_map
  proof
    have "distinct (ip_incidents p)" using assms om_ok_distinct unfolding incidents_ok_def distinct_map by blast
    then show "distinct (filter (\<lambda>e. in_state (snd e) = IncidentOpen) (ip_incidents p))" by simp
    show "inj_on (\<lambda>e. (in_created_by_rule (snd e), in_dimension_id (snd e)))
        (set (filter (\<lambda>e. in_state (snd e) = IncidentOpen) (ip_incidents p)))"
    proof (rule inj_onI)
      fix e e'
      assume "e \<in> set (filter (\<lambda>e. in_state (snd e) = IncidentOpen) (ip_incidents p))"
        and "e' \<in> set (filter (\<lambda>e. in_state (snd e) = IncidentOpen) (ip_incidents p))"
        and "(in_created_by_rule (snd e), in_dimension_id (snd e)) = (in_created_by_rule (snd e'), in_dimension_id (snd e'))"
      then have in_m: "e \<in> set (ip_incidents p)" "e' \<in> set (ip_incidents p)" and "open_pair (snd e) (snd e')"
        by (simp_all add: open_pair_def)
      then have "fst e = fst e'" using inj [of "fst e" "snd e" "fst e'" "snd e'"] by simp
      then show "e = e'"
        using in_m eq_key_imp_eq_value [of "ip_incidents p" "fst e" "snd e" "snd e'"] assms
        by (cases e, cases e') (simp add: incidents_ok_def om_ok_distinct)
    qed
  qed
  then show ?thesis by (simp add: open_incidents_def filter_map comp_def)
qed

text \<open>One matching rule that reaches its threshold: the incident it reports and the pipeline after it.\<close>

definition report_signal ::
  "(nat \<Rightarrow> string) \<Rightarrow> u64 \<Rightarrow> 'j telemetry_signal \<Rightarrow> incident_rule \<Rightarrow> (string, 'j incident) om
     \<Rightarrow> 'j incident \<times> bool" where
  "report_signal fresh now sig rule m =
     (case find (\<lambda>(k, x). open_for (iu_id rule) (tg_dimension_id sig) x) m of
        Some (k, x) \<Rightarrow> (x\<lparr>in_signals := in_signals x @ [sig]\<rparr>, False)
      | None \<Rightarrow>
          ((new_incident (fresh 0) now (replace_all ''{signal_type}'' (tg_signal_type sig) (iu_title_template rule))
             (iu_severity rule) (tg_dimension_id sig) (Some (iu_id rule)))\<lparr>in_signals := [sig]\<rparr>, True))"

definition signal_count :: "'j telemetry_signal \<Rightarrow> incident_rule \<Rightarrow> 'j incident_pipeline \<Rightarrow> u32" where
  "signal_count sig rule p =
     (case ip_signal_counts p (iu_id rule, tg_dimension_id sig) of None \<Rightarrow> 0 | Some c \<Rightarrow> c) + 1"

definition count_signal :: "'j telemetry_signal \<Rightarrow> incident_rule \<Rightarrow> 'j incident_pipeline \<Rightarrow> 'j incident_pipeline" where
  "count_signal sig rule p =
     p\<lparr>ip_signal_counts := (ip_signal_counts p)((iu_id rule, tg_dimension_id sig) \<mapsto> signal_count sig rule p)\<rparr>"

lemma ingest_rules_step:
  assumes "incidents_ok (ip_incidents p)"
  shows "ingest_rules fresh now sig (rule # rules) p =
    (if signal_count sig rule p < iu_threshold_count rule then ingest_rules fresh now sig rules (count_signal sig rule p)
     else
       let (x, opened) = report_signal fresh now sig rule (ip_incidents p);
           p2 = (count_signal sig rule p)\<lparr>ip_incidents := om_insert (in_id x) x (ip_incidents p)\<rparr>;
           (ids, p3) = ingest_rules (if opened then \<lambda>i. fresh (Suc i) else fresh) now sig rules p2
       in (in_id x # ids, p3))"
proof -
  have ok: "om_ok (ip_incidents p)" "identified in_id (ip_incidents p)"
    using assms by (simp_all add: incidents_ok_def)
  show ?thesis
    using find_entry [OF ok(1), of "open_for (iu_id rule) (tg_dimension_id sig)"] ok(2)
    by (cases "find (\<lambda>(k, x). open_for (iu_id rule) (tg_dimension_id sig) x) (ip_incidents p)")
      (auto simp: signal_count_def count_signal_def report_signal_def identified_def new_incident_def Let_def)
qed

lemma report_signal_ok:
  assumes "incidents_ok m" and "report_signal fresh now sig rule m = (x, opened)"
  shows "incidents_ok (om_insert (in_id x) x m)"
    and "in_state x = IncidentOpen" and "in_signals x \<noteq> []" and "last (in_signals x) = sig"
    and "in_dimension_id x = tg_dimension_id sig" and "in_created_by_rule x = Some (iu_id rule)"
proof -
  have ok: "om_ok m" "identified in_id m" using assms(1) by (simp_all add: incidents_ok_def)
  let ?found = "find (\<lambda>(k, x). open_for (iu_id rule) (tg_dimension_id sig) x) m"
  note entry = find_entry [OF ok(1), of "open_for (iu_id rule) (tg_dimension_id sig)"]
  show "in_state x = IncidentOpen" "in_signals x \<noteq> []" "last (in_signals x) = sig"
    "in_dimension_id x = tg_dimension_id sig" "in_created_by_rule x = Some (iu_id rule)"
    using assms(2) entry
    by (auto simp: report_signal_def new_incident_def open_for_def split: option.splits)
  show "incidents_ok (om_insert (in_id x) x m)"
  proof (cases ?found)
    case None
    then have "\<not> open_pair x y" if "om_get m j = Some y" for j y
      using assms(2) entry that
      by (auto simp: report_signal_def new_incident_def open_for_def open_pair_def)
    then show ?thesis by (intro incidents_ok_update [OF assms(1) refl]) blast
  next
    case (Some e)
    obtain k x0 where e: "e = (k, x0)" by (cases e)
    then have x: "x = x0\<lparr>in_signals := in_signals x0 @ [sig]\<rparr>" "om_get m k = Some x0"
      using assms(2) entry Some by (auto simp: report_signal_def)
    then have "in_id x = k" using ok(2) by (auto simp: identified_def)
    then show ?thesis
      using incidents_ok_change [OF assms(1) x(2), of x] x(1) by (auto simp: open_pair_def identified_def)
  qed
qed


lemma count_signal_simps [simp]:
  "ip_incidents (count_signal sig rule p) = ip_incidents p" "ip_rules (count_signal sig rule p) = ip_rules p"
  by (simp_all add: count_signal_def)

lemma signal_count_other:
  "iu_id r \<noteq> iu_id rule \<Longrightarrow> signal_count sig r (count_signal sig rule p) = signal_count sig r p"
  by (simp add: signal_count_def count_signal_def)

lemma signal_count_incidents [simp]: "signal_count sig r (p\<lparr>ip_incidents := m\<rparr>) = signal_count sig r p"
  by (simp add: signal_count_def)

text \<open>An incident is open, belongs to the dimension of this signal and to one of these rules, and ends
  with the signal.\<close>

definition reported ::
  "'j telemetry_signal \<Rightarrow> incident_rule list \<Rightarrow> 'j incident_pipeline \<Rightarrow> string \<Rightarrow> bool" where
  "reported sig due p i =
     (case get_incident p i of
        None \<Rightarrow> False
      | Some x \<Rightarrow> in_state x = IncidentOpen \<and> in_signals x \<noteq> [] \<and> last (in_signals x) = sig \<and>
          in_dimension_id x = tg_dimension_id sig \<and> in_created_by_rule x \<in> set (map (Some \<circ> iu_id) due))"

lemma reported_insert:
  assumes "incidents_ok m" and "report_signal fresh now sig rule m = (x, opened)" and "ip_incidents q = m"
    and "rule \<in> set due"
  shows "reported sig due (q\<lparr>ip_incidents := om_insert (in_id x) x m\<rparr>) i = (i = in_id x \<or> reported sig due q i)"
  using report_signal_ok(2-6) [OF assms(1,2)] assms(1,3,4)
  by (auto simp: reported_def get_incident_def om_get_insert incidents_ok_def)

lemma ingest_rules_spec:
  assumes "incidents_ok (ip_incidents p)" and "distinct (map iu_id rules)"
    and "ingest_rules fresh now sig rules p = (ids, p')"
    and "set (filter (\<lambda>r. iu_threshold_count r \<le> signal_count sig r p) rules) \<subseteq> set due"
  shows "incidents_ok (ip_incidents p') \<and> ip_rules p' = ip_rules p \<and>
    (\<forall>i. reported sig due p i \<or> i \<in> set ids \<longrightarrow> reported sig due p' i) \<and>
    List.length ids = List.length (filter (\<lambda>r. iu_threshold_count r \<le> signal_count sig r p) rules)"
  using assms
proof (induction rules arbitrary: fresh p ids)
  case (Cons rule rules)
  have others: "filter (\<lambda>r. iu_threshold_count r \<le> signal_count sig r (count_signal sig rule p)) rules
      = filter (\<lambda>r. iu_threshold_count r \<le> signal_count sig r p) rules"
    using Cons.prems(2) by (intro filter_cong refl) (auto simp: signal_count_other image_iff)
  show ?case
  proof (cases "signal_count sig rule p < iu_threshold_count rule")
    case True
    have "reported sig due (count_signal sig rule p) = reported sig due p"
      by (simp add: fun_eq_iff reported_def get_incident_def)
    then show ?thesis
      using Cons.IH [of "count_signal sig rule p" fresh ids] Cons.prems True others
      by (simp add: ingest_rules_step not_le [symmetric] del: ingest_rules.simps)
  next
    case False
    obtain x opened where x: "report_signal fresh now sig rule (ip_incidents p) = (x, opened)"
      by (cases "report_signal fresh now sig rule (ip_incidents p)")
    define p2 where "p2 = (count_signal sig rule p)\<lparr>ip_incidents := om_insert (in_id x) x (ip_incidents p)\<rparr>"
    define fresh' where "fresh' = (if opened then \<lambda>i. fresh (Suc i) else fresh)"
    obtain ids2 p3 where rest: "ingest_rules fresh' now sig rules p2 = (ids2, p3)"
      by (cases "ingest_rules fresh' now sig rules p2")
    have "ids = in_id x # ids2" "p' = p3"
      using Cons.prems(1,3) False x rest
      by (simp_all add: ingest_rules_step p2_def [symmetric] fresh'_def [symmetric] del: ingest_rules.simps)
    moreover have "reported sig due p2 i = (i = in_id x \<or> reported sig due p i)" for i
      unfolding p2_def
      using reported_insert [OF Cons.prems(1) x, of "count_signal sig rule p" due] False Cons.prems(4)
      by (simp add: reported_def get_incident_def not_less)
    moreover have "incidents_ok (ip_incidents p2)" "ip_rules p2 = ip_rules p"
      using report_signal_ok(1) [OF Cons.prems(1) x] by (simp_all add: p2_def)
    moreover have "signal_count sig r p2 = signal_count sig r (count_signal sig rule p)" for r
      by (simp add: p2_def)
    ultimately show ?thesis
      using Cons.IH [of p2 fresh' ids2] rest Cons.prems(2,4) others False by (auto simp: not_less)
  qed
qed auto

definition incident_pipeline_ok :: "'j incident_pipeline \<Rightarrow> bool" where
  "incident_pipeline_ok p \<longleftrightarrow> incidents_ok (ip_incidents p) \<and> distinct (map iu_id (ip_rules p))"

lemma edit_incident_ok:
  assumes "incident_pipeline_ok p" and "\<And>x. in_id (f x) = in_id x" and "\<And>x y. open_pair (f x) y \<Longrightarrow> open_pair x y"
  shows "incident_pipeline_ok (edit_incident i f p)"
  using assms(1) incidents_ok_change [OF _ _ assms(2) assms(3), of "ip_incidents p" i]
  by (auto simp: edit_incident_def incident_pipeline_ok_def split: option.split)

lemma incident_step_ok:
  assumes "incident_pipeline_ok p"
  shows "incident_pipeline_ok (incident_step c p)"
proof (cases c)
  case (AddIncidentRule r)
  then show ?thesis
    using assms by (auto simp: add_incident_rule_def incident_pipeline_ok_def list_ex_iff)
next
  case (IngestSignal fresh now sig)
  obtain ids p' where run: "ingest_signal fresh now sig p = (ids, p')" by (cases "ingest_signal fresh now sig p")
  have "incidents_ok (ip_incidents p') \<and> ip_rules p' = ip_rules p"
    using ingest_rules_spec [OF _ _ run [unfolded ingest_signal_def] filter_is_subset] assms
    by (simp add: incident_pipeline_ok_def distinct_map_filter)
  then show ?thesis using assms by (simp add: IngestSignal run incident_pipeline_ok_def)
next
  case (Acknowledge i)
  show ?thesis unfolding Acknowledge incident_step.simps
    by (rule edit_incident_ok [OF assms]) (simp_all add: acknowledge_incident_def open_pair_def)
next
  case (ResolveIncident now i)
  show ?thesis unfolding ResolveIncident incident_step.simps
    by (rule edit_incident_ok [OF assms]) (simp_all add: resolve_incident_def open_pair_def)
next
  case (LabelIncident key v i)
  show ?thesis unfolding LabelIncident incident_step.simps
    by (rule edit_incident_ok [OF assms]) (simp_all add: label_incident_def open_pair_def)
qed

interpretation incident_runs: invariant_system "\<lambda>_ _. True" incident_step incident_pipeline_ok
  by unfold_locales (rule incident_step_ok)

lemma incidents_run_ok: "incident_pipeline_ok (fold incident_step calls new_incident_pipeline)"
  by (rule incident_runs.run_inv)
    (simp_all add: new_incident_pipeline_def incident_pipeline_ok_def incidents_ok_def om_ok_def identified_def)

text \<open>
  C27: After any rules, signals, acknowledgements, resolutions and labels, every incident is stored
  under its own identifier and no rule has two open incidents in one dimension. A further signal is
  reported once for each matching rule whose count, this signal included, has reached the rule's
  threshold, and every identifier it returns is that of an open incident of the signal's dimension,
  made by one of these rules, whose last signal it is.
\<close>
theorem one_open_incident:
  "let p = fold incident_step calls new_incident_pipeline;
       (ids, p') = ingest_signal fresh now sig p;
       due = filter (\<lambda>r. prefix (iu_signal_type_prefix r) (tg_signal_type sig) \<and>
          iu_threshold_count r \<le> signal_count sig r p) (ip_rules p)
   in distinct (map (\<lambda>x. (in_created_by_rule x, in_dimension_id x)) (open_incidents p)) \<and>
      list_all (\<lambda>x. get_incident p (in_id x) = Some x) (all_incidents p) \<and>
      list_all (reported sig due p') ids \<and> List.length ids = List.length due"
proof -
  define p where "p = fold incident_step calls new_incident_pipeline"
  obtain ids p' where run: "ingest_signal fresh now sig p = (ids, p')" by (cases "ingest_signal fresh now sig p")
  have ok: "incidents_ok (ip_incidents p)" "distinct (map iu_id (ip_rules p))"
    using incidents_run_ok [of calls] by (simp_all add: incident_pipeline_ok_def p_def)
  define due where "due = filter (\<lambda>r. prefix (iu_signal_type_prefix r) (tg_signal_type sig) \<and>
      iu_threshold_count r \<le> signal_count sig r p) (ip_rules p)"
  have due: "filter (\<lambda>r. iu_threshold_count r \<le> signal_count sig r p)
      (filter (\<lambda>r. prefix (iu_signal_type_prefix r) (tg_signal_type sig)) (ip_rules p)) = due"
    by (simp add: due_def conj_commute)
  have "(\<forall>i \<in> set ids. reported sig due p' i) \<and> List.length ids = List.length due"
    using ingest_rules_spec [OF ok(1) _ run [unfolded ingest_signal_def], of due] ok(2)
    unfolding due by (simp add: distinct_map_filter)
  moreover have "distinct (map (\<lambda>x. (in_created_by_rule x, in_dimension_id x)) (open_incidents p))"
    using ok(1) by (rule distinct_open)
  moreover have "list_all (\<lambda>x. get_incident p (in_id x) = Some x) (all_incidents p)"
    using ok(1) by (auto simp: list_all_iff get_incident_def all_incidents_def incidents_ok_def identified_def om_get_iff)
  ultimately show ?thesis
    unfolding p_def [symmetric] Let_def run by (simp add: list_all_iff due_def)
qed

section \<open>Triage\<close>

datatype triage_call =
    AddOwnerRule owner_rule
  | SubmitReport regression_report
  | StartFix string
  | ResolveReport u64 string

primrec triage_step :: "float_arith \<Rightarrow> triage_call \<Rightarrow> triage_engine \<Rightarrow> triage_engine" where
  "triage_step ops (AddOwnerRule r) s = after (add_owner_rule r s)"
| "triage_step ops (SubmitReport r) s = after (submit_report ops r s)"
| "triage_step ops (StartFix i) s = after (start_fix i s)"
| "triage_step ops (ResolveReport now i) s = after (resolve_report now i s)"

text \<open>The status a reader of the labels sees: that of the last status label.\<close>

definition status_label :: "regression_report \<Rightarrow> string option" where
  "status_label r =
     (case filter (\<lambda>l. tl_key l = ''status'') (re_labels r) of [] \<Rightarrow> None | ls \<Rightarrow> Some (tl_value (last ls)))"

primrec triage_text :: "triage_state \<Rightarrow> string" where
  "triage_text Untriaged = ''untriaged''"
| "triage_text Triaged = ''triaged''"
| "triage_text InProgress = ''in_progress''"
| "triage_text TriageResolved = ''resolved''"
| "triage_text WontFix = ''wont_fix''"

definition report_ok :: "regression_report \<Rightarrow> bool" where
  "report_ok r \<longleftrightarrow>
     re_state r \<in> {Triaged, InProgress, TriageResolved} \<and>
     status_label r = Some (triage_text (re_state r)) \<and>
     (if re_state r = TriageResolved then re_resolved_at r \<noteq> None else True)"

lemma status_label_append:
  "re_labels r' = ls @ [new_label ''status'' v] \<Longrightarrow> status_label r' = Some v"
  by (cases "filter (\<lambda>l. tl_key l = ''status'') ls") (simp_all add: status_label_def new_label_def)

lemma report_ok_submitted:
  "re_state r = Triaged \<Longrightarrow> re_labels r = ls @ [a, b, new_label ''status'' ''triaged''] \<Longrightarrow> report_ok r"
  using status_label_append [of r "ls @ [a, b]" "''triaged''"] by (simp add: report_ok_def)

lemma report_ok_set_status:
  "re_state r \<in> {InProgress, TriageResolved} \<Longrightarrow> (if re_state r = TriageResolved then re_resolved_at r \<noteq> None else True) \<Longrightarrow>
    report_ok (set_status (triage_text (re_state r)) r)"
  using status_label_append [of "set_status (triage_text (re_state r)) r"]
  by (simp add: report_ok_def set_status_def)

definition triage_ok :: "triage_engine \<Rightarrow> bool" where
  "triage_ok s \<longleftrightarrow> om_ok (te_reports s) \<and> identified re_id (te_reports s) \<and>
     (\<forall>i r. om_get (te_reports s) i = Some r \<longrightarrow> report_ok r)"

lemma triage_ok_insert:
  "triage_ok s \<Longrightarrow> re_id r = i \<Longrightarrow> report_ok r \<Longrightarrow> triage_ok (s\<lparr>te_reports := om_insert i r (te_reports s)\<rparr>)"
  by (auto simp: triage_ok_def om_insert_ok identified_insert om_get_insert)

lemma triage_ok_reports: "triage_ok s \<Longrightarrow> te_reports s' = te_reports s \<Longrightarrow> triage_ok s'"
  by (simp add: triage_ok_def)

lemma assign_owner_id [simp]: "re_id (assign_owner rules r) = re_id r"
  by (simp add: assign_owner_def split: option.split)

lemma report_id: "triage_ok s \<Longrightarrow> om_get (te_reports s) i = Some r \<Longrightarrow> re_id r = i"
  by (simp add: triage_ok_def identified_def)

lemma triage_step_ok:
  assumes "triage_ok s"
  shows "triage_ok (triage_step ops c s)"
proof (cases c)
  case (AddOwnerRule r)
  then show ?thesis using triage_ok_reports [OF assms] by (simp add: add_owner_rule_def)
next
  case (SubmitReport r)
  then show ?thesis
    using assms by (simp add: submit_report_def Let_def) (auto intro!: triage_ok_insert report_ok_submitted)
next
  case (StartFix i)
  show ?thesis
  proof (cases "om_get (te_reports s) i")
    case (Some r)
    have "triage_ok (s\<lparr>te_reports := om_insert i (set_status ''in_progress'' (r\<lparr>re_state := InProgress\<rparr>)) (te_reports s)\<rparr>)"
      using report_ok_set_status [of "r\<lparr>re_state := InProgress\<rparr>"] report_id [OF assms Some]
      by (intro triage_ok_insert [OF assms]) (simp_all add: set_status_def)
    then show ?thesis by (simp add: StartFix start_fix_def Some)
  qed (simp add: StartFix start_fix_def assms)
next
  case (ResolveReport now i)
  show ?thesis
  proof (cases "om_get (te_reports s) i")
    case (Some r)
    have "triage_ok (s\<lparr>te_reports := om_insert i
        (set_status ''resolved'' (r\<lparr>re_state := TriageResolved, re_resolved_at := Some now\<rparr>)) (te_reports s)\<rparr>)"
      using report_ok_set_status [of "r\<lparr>re_state := TriageResolved, re_resolved_at := Some now\<rparr>"] report_id [OF assms Some]
      by (intro triage_ok_insert [OF assms]) (simp_all add: set_status_def)
    then show ?thesis by (simp add: ResolveReport resolve_report_def Some)
  qed (simp add: ResolveReport resolve_report_def assms)
qed

interpretation triage_runs: invariant_system "\<lambda>_ _. True" "triage_step ops" triage_ok for ops
  by unfold_locales (rule triage_step_ok)

text \<open>
  In every reachable triage engine the last status label of each report names its state, which is
  triaged, in progress or resolved; a resolved report has its time; and the open reports are those
  not resolved, in the order of all of them.
\<close>
theorem triage_status_follows_state:
  "let s = fold (triage_step ops) calls new_triage_engine
   in list_all (\<lambda>r. om_get (te_reports s) (re_id r) = Some r \<and> report_ok r) (om_values (te_reports s)) \<and>
      open_reports s = filter (\<lambda>r. status_label r \<noteq> Some ''resolved'') (om_values (te_reports s))"
proof -
  define s where "s = fold (triage_step ops) calls new_triage_engine"
  have ok: "triage_ok s"
    unfolding s_def
    by (rule triage_runs.run_inv) (simp_all add: triage_ok_def new_triage_engine_def om_ok_def identified_def)
  then have all: "om_get (te_reports s) (re_id r) = Some r \<and> report_ok r" if "r \<in> set (om_values (te_reports s))" for r
    using that om_values_mem [of "te_reports s" r] unfolding triage_ok_def identified_def by blast
  have "is_open_report r = (status_label r \<noteq> Some ''resolved'')" if "report_ok r" for r
    using that by (auto simp: report_ok_def is_open_report_def)
  then have "open_reports s = filter (\<lambda>r. status_label r \<noteq> Some ''resolved'') (om_values (te_reports s))"
    unfolding open_reports_def using all by (intro filter_cong refl) blast
  then show ?thesis
    unfolding s_def [symmetric] Let_def list_all_iff using all by blast
qed

section \<open>Chaos\<close>

text \<open>What a policy prescribes at the \<open>m\<close>-th match, which is the \<open>k\<close>-th call of the engine.\<close>

primrec policy_fires :: "(u64 \<Rightarrow> f64) \<Rightarrow> u64 \<Rightarrow> chaos_policy \<Rightarrow> nat \<Rightarrow> nat \<Rightarrow> bool" where
  "policy_fires unit_float seed Always m k = True"
| "policy_fires unit_float seed Once m k = (m = 1)"
| "policy_fires unit_float seed (Random probability) m k =
     f64_lt (unit_float (chaos_hash seed (of_nat k) AND 0xFFFFFFFF)) probability"
| "policy_fires unit_float seed (AfterN n) m k = (n < of_nat m)"

fun chaos_run ::
  "(u64 \<Rightarrow> f64) \<Rightarrow> string list \<Rightarrow> string list \<Rightarrow> chaos_engine \<Rightarrow> chaos_decision list" where
  "chaos_run unit_float order [] s = []"
| "chaos_run unit_float order (operation # operations) s =
     (let (d, s1) = evaluate_chaos unit_float order operation s
      in d # chaos_run unit_float order operations s1)"

text \<open>The engine of one scenario after \<open>k\<close> calls, \<open>m\<close> of them on its target.\<close>

definition single_chaos :: "u64 \<Rightarrow> chaos_scenario \<Rightarrow> nat \<Rightarrow> nat \<Rightarrow> chaos_engine" where
  "single_chaos seed c m k =
     \<lparr>cg_scenarios = [cs_id c \<mapsto> c\<lparr>cs_active := \<not> (cs_policy c = Once \<and> 0 < m),
        cs_trigger_count := (if cs_policy c = Once then (if 0 < m then 1 else 0) else of_nat m)\<rparr>],
      cg_call_counter = of_nat k, cg_seed = seed\<rparr>"

lemma single_chaos_step:
  "evaluate_chaos unit_float [cs_id c] operation (single_chaos seed c m k) =
    (let hit = prefix (cs_target c) operation; m' = (if hit then Suc m else m)
     in (if hit \<and> policy_fires unit_float seed (cs_policy c) m' (Suc k) then Inject (cs_fault c) else Proceed,
         single_chaos seed c m' (Suc k)))"
proof (cases "cs_policy c")
  case Once
  then show ?thesis
    by (cases c) (auto simp: evaluate_chaos_def single_chaos_def scenario_matches_def apply_chaos_policy_def Let_def algebra_simps)
qed (cases c; auto simp: evaluate_chaos_def single_chaos_def scenario_matches_def apply_chaos_policy_def Let_def algebra_simps)+

text \<open>
  An engine with one registered scenario injects on a call exactly if the operation starts with
  the scenario's target and its policy asks for it: always; only at the first such call of the
  engine's life; at every such call after the first n, counted modulo 2^32; or when the hash of the
  seed and the number of the call falls below the probability. The decisions depend on nothing else.
\<close>
theorem chaos_schedule:
  "let c = new_scenario i target fault policy;
       s = after (register_scenario c (new_chaos_engine seed));
       matches = (\<lambda>k. List.length (filter (prefix target) (take k operations)))
   in chaos_run unit_float [i] operations s =
      map (\<lambda>k. if prefix target (operations ! k) \<and>
                   policy_fires unit_float seed policy (matches (Suc k)) (Suc k)
               then Inject fault else Proceed) [0..<List.length operations]"
proof -
  define c where "c = new_scenario i target fault policy"
  have c: "cs_id c = i" "cs_target c = target" "cs_fault c = fault" "cs_policy c = policy"
    by (simp_all add: c_def new_scenario_def)
  have run: "chaos_run unit_float [i] xs (single_chaos seed c m k0) =
      map (\<lambda>k. if prefix target (xs ! k) \<and>
          policy_fires unit_float seed policy (m + List.length (filter (prefix target) (take (Suc k) xs))) (Suc (k0 + k))
        then Inject fault else Proceed) [0..<List.length xs]" for xs m k0
  proof (induction xs arbitrary: m k0)
    case (Cons x xs)
    show ?case
      using single_chaos_step [of unit_float c x seed m k0]
      by (simp add: c Let_def Cons map_upt_Suc del: upt_Suc)
  qed simp
  have "after (register_scenario c (new_chaos_engine seed)) = single_chaos seed c 0 0"
    by (simp add: register_scenario_def new_chaos_engine_def single_chaos_def c_def new_scenario_def)
  then show ?thesis
    unfolding c_def [symmetric] Let_def using run [of operations 0 0] by simp
qed

section \<open>Dashboard\<close>

definition breaching :: "string \<times> (slo_error + slo_status) \<Rightarrow> bool" where
  "breaching r = (case snd r of Inl _ \<Rightarrow> False | Inr u \<Rightarrow> \<not> su_passing u)"

definition budget_empty :: "float_arith \<Rightarrow> reliability_metrics \<Rightarrow> bool" where
  "budget_empty ops m = (f64_is_zero (remaining_ratio ops (rm_task_error_budget m)) \<or>
     f64_is_zero (remaining_ratio ops (rm_ui_error_budget m)))"

text \<open>Two hours; a mean that is not a number is late.\<close>

definition recovery_late :: "float_arith \<Rightarrow> reliability_metrics \<Rightarrow> bool" where
  "recovery_late ops m = (case mttr_secs ops (rm_mttr m) of
     Inl _ \<Rightarrow> False | Inr v \<Rightarrow> \<not> f64_lt v 0x409C200000000000 \<and> \<not> f64_lt v 0x40BC200000000000)"

lemma slo_rows_spec:
  fixes rows :: "(string \<times> 'j payload_value) list"
  assumes "slo_rows ops fmt now rs d = (rows, breach, unknown, d')"
  shows "breach = list_ex breaching rs \<and> map fst rows = map fst rs \<and>
    (\<exists>es. d' = d @ es \<and> map dv_kind es = replicate (List.length (filter breaching rs)) SloBreach)"
  using assms
proof (induction rs arbitrary: d rows breach unknown d')
  case (Cons r rs)
  obtain name x where r: "r = (name, x)" by (cases r)
  show ?case
  proof (cases x)
    case (Inl e)
    obtain rows1 :: "(string \<times> 'j payload_value) list" and b1 u1
      where rest: "slo_rows ops fmt now rs d = (rows1, b1, u1, d')"
      using Cons.prems by (auto simp: r Inl split: prod.splits)
    show ?thesis using Cons.IH [OF rest] Cons.prems rest by (auto simp: r Inl breaching_def)
  next
    case (Inr u)
    define d1 where "d1 = (if su_passing u then d else emit_dashboard_event now SloBreach ''slo_status''
      (''SLO '' @ quoted name @ '' is breaching (compliance ''
       @ fmt 1 (fa_mul ops (su_compliance_ratio u) 0x4059000000000000) @ ''%)'') d)"
    obtain rows1 :: "(string \<times> 'j payload_value) list" and b1 u1 d2
      where rest: "slo_rows ops fmt now rs d1 = (rows1, b1, u1, d2)"
      using prod_cases4 by blast
    have "rows = (name, status_payload u) # rows1" "breach = (\<not> su_passing u \<or> b1)" "d' = d2"
      using Cons.prems rest by (auto simp: r Inr d1_def split: if_splits)
    moreover have "\<exists>es. d1 = d @ es \<and> map dv_kind es = (if su_passing u then [] else [SloBreach])"
      by (simp add: d1_def emit_dashboard_event_def)
    ultimately show ?thesis
      using Cons.IH [OF rest] by (auto simp: r Inr breaching_def)
  qed
qed (auto simp: )

lemma slo_panel_spec:
  fixes panel :: "'j dashboard_panel"
  assumes "build_slo_panel ops fmt now reg d = (panel, d1)"
  shows "(pp_health panel = HealthDegraded) = list_ex breaching (evaluate_all_slos ops reg) \<and>
    (\<exists>es. d1 = d @ es \<and>
       map dv_kind es = replicate (List.length (filter breaching (evaluate_all_slos ops reg))) SloBreach)"
proof -
  obtain rows :: "(string \<times> 'j payload_value) list" and breach unknown d2
    where rows: "slo_rows ops fmt now (evaluate_all_slos ops reg) d = (rows, breach, unknown, d2)"
    using prod_cases4 by blast
  then show ?thesis using slo_rows_spec [OF rows] assms by (auto simp: build_slo_panel_def split: if_splits)
qed

lemma budget_panel_spec:
  assumes "build_error_budget_panel ops fmt now m d = (panel, d1)"
  shows "(pp_health panel = HealthDegraded) = budget_empty ops m \<and>
    (\<exists>fs. d1 = d @ fs \<and> filter (\<lambda>k. k = SloBreach) (map dv_kind fs) = [] \<and> List.length fs \<le> 1)"
  using assms
  by (auto simp: build_error_budget_panel_def budget_empty_def emit_dashboard_event_def Let_def split: if_splits)

lemma worst_degraded: "(max a b = HealthDegraded) = (a = HealthDegraded \<or> b = HealthDegraded)"
  by (cases a; cases b) (simp_all add: max_def less_eq_panel_health_def)

lemma worst_unknown: "(max a b = HealthUnknown) = (a = HealthUnknown \<and> b = HealthUnknown)"
  by (cases a; cases b) (simp_all add: max_def less_eq_panel_health_def)

text \<open>
  The overall health of a snapshot is never unknown, and it is degraded exactly if an objective
  with samples is breached, an error budget has nothing left, the mean time to recovery is two hours
  or more, an incident is open or more than three regressions are. Objectives without samples do not
  show in it. Every snapshot logs one breach event per breached objective again, and at most one
  event on the budgets.
\<close>
theorem dashboard_overall_health:
  fixes incidents :: "'j incident list"
  shows "let (sn, d') = dashboard_snapshot_of ops fmt now reg m incidents regressions d;
       results = evaluate_all_slos ops reg;
       kinds = map dv_kind (drop (List.length d) d')
   in dn_overall_health sn \<noteq> HealthUnknown \<and>
      (dn_overall_health sn = HealthDegraded) =
        (list_ex breaching results \<or> budget_empty ops m \<or> recovery_late ops m \<or>
         list_ex (\<lambda>x. in_state x = IncidentOpen) incidents \<or>
         3 < List.length (filter is_open_report regressions)) \<and>
      take (List.length d) d' = d \<and>
      filter (\<lambda>k. k = SloBreach) kinds = replicate (List.length (filter breaching results)) SloBreach \<and>
      List.length (filter (\<lambda>k. k \<noteq> SloBreach) kinds) \<le> 1"
proof -
  obtain slo :: "'j dashboard_panel" and d1 where slo: "build_slo_panel ops fmt now reg d = (slo, d1)"
    by (cases "build_slo_panel ops fmt now reg d :: 'j dashboard_panel \<times> dashboard")
  obtain budget :: "'j dashboard_panel" and d2 where budget: "build_error_budget_panel ops fmt now m d1 = (budget, d2)"
    by (cases "build_error_budget_panel ops fmt now m d1 :: 'j dashboard_panel \<times> dashboard")
  obtain es where slo_d: "(pp_health slo = HealthDegraded) = list_ex breaching (evaluate_all_slos ops reg)"
    "d1 = d @ es" "map dv_kind es = replicate (List.length (filter breaching (evaluate_all_slos ops reg))) SloBreach"
    using slo_panel_spec [OF slo] by blast
  obtain fs where budget_d: "(pp_health budget = HealthDegraded) = budget_empty ops m"
    and fs: "d2 = d1 @ fs" "filter (\<lambda>k. k = SloBreach) (map dv_kind fs) = []" "List.length fs \<le> 1"
    using budget_panel_spec [OF budget] by blast
  let ?panels = "[slo, budget, build_mttr_panel ops m, build_incidents_panel incidents, build_regression_panel regressions]"
  have snapshot: "dashboard_snapshot_of ops fmt now reg m incidents regressions d =
      (\<lparr>dn_timestamp_secs = now, dn_overall_health = foldr (max \<circ> pp_health) ?panels HealthUnknown,
        dn_panels = ?panels\<rparr>, d2)"
    by (simp add: dashboard_snapshot_of_def slo budget Let_def)
  have mttr: "(pp_health (build_mttr_panel ops m) = HealthDegraded) = recovery_late ops m"
    by (simp add: build_mttr_panel_def recovery_late_def Let_def split: sum.split)
  have incident: "pp_health (build_incidents_panel incidents) =
      (if list_ex (\<lambda>x. in_state x = IncidentOpen) incidents then HealthDegraded else HealthHealthy)"
    by (auto simp: build_incidents_panel_def Let_def filter_empty_conv list_ex_iff)
  have regression: "(pp_health (build_regression_panel regressions) = HealthDegraded) =
      (3 < List.length (filter is_open_report regressions))"
    by (simp add: build_regression_panel_def Let_def not_le)
  have "foldr (max \<circ> pp_health) ?panels HealthUnknown \<noteq> HealthUnknown"
    by (simp add: worst_unknown incident)
  moreover have "(foldr (max \<circ> pp_health) ?panels HealthUnknown = HealthDegraded) =
      (list_ex breaching (evaluate_all_slos ops reg) \<or> budget_empty ops m \<or> recovery_late ops m \<or>
       list_ex (\<lambda>x. in_state x = IncidentOpen) incidents \<or> 3 < List.length (filter is_open_report regressions))"
    using slo_d(1) budget_d mttr incident regression by (auto simp: worst_degraded)
  moreover have "filter (\<lambda>k. k = SloBreach) (map dv_kind es) = map dv_kind es"
    "filter (\<lambda>k. k \<noteq> SloBreach) (map dv_kind es) = []"
    unfolding slo_d(3) by simp_all
  moreover have "List.length (filter (\<lambda>k. k \<noteq> SloBreach) (map dv_kind fs)) \<le> 1"
    using fs(3) by (metis length_filter_le length_map le_trans)
  ultimately show ?thesis
    unfolding snapshot Let_def using fs(1,2) slo_d(2,3) by (simp del: length_filter_map)
qed

end
