(* ===== verification/Canvas_Focus.thy ===== *)
theory Canvas_Focus
  imports Ordered_Map
begin

text \<open>
  Keyboard access to the canvas (\<open>ify-canvas/src/accessibility.rs\<close>): key bindings with their default map,
  and the focus that moves through the registered nodes.
\<close>

datatype key_action =
    ZoomIn | ZoomOut | ZoomReset | PanLeft | PanRight | PanUp | PanDown | FocusNext | FocusPrevious
  | ToggleSelection | ClearOrClose | OpenInspector | SelectAll | OpenCommandPalette | UndoKey | RedoKey
  | DeleteSelected | FitSelection | ToggleMinimap

record key_binding =
  kb_key :: string
  kb_ctrl :: bool
  kb_shift :: bool
  kb_alt :: bool

definition plain_key :: "string \<Rightarrow> key_binding" where
  "plain_key key = \<lparr>kb_key = key, kb_ctrl = False, kb_shift = False, kb_alt = False\<rparr>"

definition ctrl_key :: "string \<Rightarrow> key_binding" where
  "ctrl_key key = \<lparr>kb_key = key, kb_ctrl = True, kb_shift = False, kb_alt = False\<rparr>"

definition ctrl_shift_key :: "string \<Rightarrow> key_binding" where
  "ctrl_shift_key key = \<lparr>kb_key = key, kb_ctrl = True, kb_shift = True, kb_alt = False\<rparr>"

type_synonym key_map = "key_binding \<rightharpoonup> key_action"

definition register_key :: "key_binding \<Rightarrow> key_action \<Rightarrow> key_map \<Rightarrow> key_map" where
  "register_key b a m = m(b \<mapsto> a)"

definition remove_key :: "key_binding \<Rightarrow> key_map \<Rightarrow> key_map" where
  "remove_key b m = m(b := None)"

definition resolve_key :: "key_map \<Rightarrow> key_binding \<Rightarrow> key_action option" where
  "resolve_key m b = m b"

definition default_bindings :: "(key_binding \<times> key_action) list" where
  "default_bindings =
     [(plain_key ''+'', ZoomIn), (plain_key ''='', ZoomIn), (plain_key ''-'', ZoomOut), (plain_key ''0'', ZoomReset),
      (plain_key ''ArrowLeft'', PanLeft), (plain_key ''ArrowRight'', PanRight), (plain_key ''ArrowUp'', PanUp),
      (plain_key ''ArrowDown'', PanDown),
      (plain_key ''Tab'', FocusNext),
      (\<lparr>kb_key = ''Tab'', kb_ctrl = False, kb_shift = True, kb_alt = False\<rparr>, FocusPrevious),
      (plain_key ''Space'', ToggleSelection), (plain_key ''Escape'', ClearOrClose),
      (plain_key ''Enter'', OpenInspector), (ctrl_key ''a'', SelectAll),
      (ctrl_key ''f'', OpenCommandPalette), (ctrl_key ''/'', OpenCommandPalette),
      (ctrl_key ''z'', UndoKey), (ctrl_shift_key ''z'', RedoKey), (ctrl_key ''y'', RedoKey),
      (plain_key ''Delete'', DeleteSelected), (plain_key ''Backspace'', DeleteSelected),
      (plain_key ''f'', FitSelection), (plain_key ''m'', ToggleMinimap)]"

definition default_keymap :: key_map where
  "default_keymap = fold (\<lambda>(b, a). register_key b a) default_bindings Map.empty"

section \<open>The focus\<close>

record focus_manager =
  fo_nodes :: "string list"
  fo_focused :: "nat option"

definition new_focus_manager :: focus_manager where
  "new_focus_manager = \<lparr>fo_nodes = [], fo_focused = None\<rparr>"

definition register_focus_node :: "string \<Rightarrow> focus_manager \<Rightarrow> focus_manager" where
  "register_focus_node i s = s\<lparr>fo_nodes := fo_nodes s @ [i]\<rparr>"

definition unregister_focus_node :: "string \<Rightarrow> focus_manager \<Rightarrow> focus_manager" where
  "unregister_focus_node i s =
     (case position (\<lambda>n. n = i) (fo_nodes s) of
        None \<Rightarrow> s
      | Some pos \<Rightarrow>
          s\<lparr>fo_nodes := take pos (fo_nodes s) @ drop (Suc pos) (fo_nodes s),
            fo_focused :=
              (case fo_focused s of
                 None \<Rightarrow> None
               | Some j \<Rightarrow> if j = pos then None else if pos < j then Some (j - 1) else Some j)\<rparr>)"

definition nth_node :: "string list \<Rightarrow> nat \<Rightarrow> string option" where
  "nth_node xs j = (if j < List.length xs then Some (xs ! j) else None)"

definition focus_next :: "focus_manager \<Rightarrow> string option \<times> focus_manager" where
  "focus_next s =
     (if fo_nodes s = [] then (None, s)
      else
        let j = (case fo_focused s of None \<Rightarrow> 0 | Some i \<Rightarrow> (i + 1) mod List.length (fo_nodes s))
        in (nth_node (fo_nodes s) j, s\<lparr>fo_focused := Some j\<rparr>))"

definition focus_previous :: "focus_manager \<Rightarrow> string option \<times> focus_manager" where
  "focus_previous s =
     (if fo_nodes s = [] then (None, s)
      else
        let j = (case fo_focused s of
                   None \<Rightarrow> List.length (fo_nodes s) - 1
                 | Some i \<Rightarrow> if i = 0 then List.length (fo_nodes s) - 1 else i - 1)
        in (nth_node (fo_nodes s) j, s\<lparr>fo_focused := Some j\<rparr>))"

definition focused_node :: "focus_manager \<Rightarrow> string option" where
  "focused_node s = (case fo_focused s of None \<Rightarrow> None | Some j \<Rightarrow> nth_node (fo_nodes s) j)"

definition clear_focus :: "focus_manager \<Rightarrow> focus_manager" where
  "clear_focus s = s\<lparr>fo_focused := None\<rparr>"

end
