(* ===== verification/Canvas_View.thy ===== *)
theory Canvas_View
  imports Reliability_Metrics Graph_Query
begin

text \<open>
  What the canvas shows: zoom levels and the zoom state (\<open>ify-canvas/src/zoom.rs\<close>), the detail of nodes
  (\<open>visibility.rs\<close>), and frame budgets with the adaptive culler (\<open>performance.rs\<close>). The arithmetic of
  floats is the argument \<open>ops\<close>, their comparison that of \<open>Float_Order\<close>; constants are bit patterns.
\<close>

datatype zoom_level = Micro | Standard | Overview | Constellation | Galaxy

text \<open>0.01, 0.05, 0.2, 0.6, 2 and 8.\<close>

definition SCALE_MIN :: f64 where
  "SCALE_MIN = 0x3F847AE147AE147B"

definition SCALE_MAX :: f64 where
  "SCALE_MAX = 0x4020000000000000"

primrec scale_range :: "zoom_level \<Rightarrow> f64 \<times> f64" where
  "scale_range Galaxy = (0x3F847AE147AE147B, 0x3FA999999999999A)"
| "scale_range Constellation = (0x3FA999999999999A, 0x3FC999999999999A)"
| "scale_range Overview = (0x3FC999999999999A, 0x3FE3333333333333)"
| "scale_range Standard = (0x3FE3333333333333, 0x4000000000000000)"
| "scale_range Micro = (0x4000000000000000, 0x4020000000000000)"

primrec level_name :: "zoom_level \<Rightarrow> string" where
  "level_name Galaxy = ''Galaxy''"
| "level_name Constellation = ''Constellation''"
| "level_name Overview = ''Overview''"
| "level_name Standard = ''Standard''"
| "level_name Micro = ''Micro''"

definition FRAME_BUDGET_MS :: u32 where
  "FRAME_BUDGET_MS = 16"

datatype zoom_error = ScaleOutOfBounds f64 | DeltaIsZero

definition f64_same :: "f64 \<Rightarrow> f64 \<Rightarrow> bool" where
  "f64_same x y = (f64_le x y \<and> f64_le y x)"

definition in_range :: "f64 \<Rightarrow> zoom_level \<Rightarrow> bool" where
  "in_range scale level = (case scale_range level of (lo, hi) \<Rightarrow> f64_le lo scale \<and> f64_lt scale hi)"

definition from_scale :: "f64 \<Rightarrow> zoom_error + zoom_level" where
  "from_scale scale =
     (case find (in_range scale) [Micro, Standard, Overview, Constellation, Galaxy] of
        Some level \<Rightarrow> Inr level
      | None \<Rightarrow> if f64_same scale SCALE_MAX then Inr Micro else Inl (ScaleOutOfBounds scale))"

definition all_levels :: "zoom_level list" where
  "all_levels = [Galaxy, Constellation, Overview, Standard, Micro]"

record zoom_constraints =
  zc_scale_min :: f64
  zc_scale_max :: f64
  zc_max_scroll_velocity :: f64
  zc_pan_enabled :: bool
  zc_selection_enabled :: bool
  zc_lasso_enabled :: bool
  zc_edge_edit_enabled :: bool
  zc_transition_max_ms :: u32

text \<open>500, 300, 150, 80 and 40 canvas units per millisecond.\<close>

definition constraints_for_level :: "zoom_level \<Rightarrow> zoom_constraints" where
  "constraints_for_level level =
     (let (lo, hi) = scale_range level;
          mk = (\<lambda>velocity selection lasso edge_edit.
            \<lparr>zc_scale_min = lo, zc_scale_max = hi, zc_max_scroll_velocity = velocity, zc_pan_enabled = True,
             zc_selection_enabled = selection, zc_lasso_enabled = lasso, zc_edge_edit_enabled = edge_edit,
             zc_transition_max_ms = 16\<rparr>)
      in case level of
           Galaxy \<Rightarrow> mk 0x407F400000000000 False False False
         | Constellation \<Rightarrow> mk 0x4072C00000000000 False False False
         | Overview \<Rightarrow> mk 0x4062C00000000000 True True False
         | Standard \<Rightarrow> mk 0x4054000000000000 True True True
         | Micro \<Rightarrow> mk 0x4044000000000000 True True True)"

section \<open>The zoom state\<close>

record zoom_state =
  zs_scale :: f64
  zs_level :: zoom_level
  zs_origin :: "f64 \<times> f64"

definition new_zoom_state :: zoom_state where
  "new_zoom_state = \<lparr>zs_scale = 0x3FF0000000000000, zs_level = Standard, zs_origin = (0, 0)\<rparr>"

text \<open>\<open>zoom\<close>: the scale and the origin are set before the level of the new scale is determined.\<close>

definition zoom_by :: "float_arith \<Rightarrow> f64 \<Rightarrow> f64 \<times> f64 \<Rightarrow> zoom_state \<Rightarrow> (zoom_error, unit, zoom_state) outcome" where
  "zoom_by ops delta focal s =
     (if f64_same delta 0 then (Inl DeltaIsZero, s)
      else
        let new_scale = f64_clamp SCALE_MIN SCALE_MAX (fa_mul ops (zs_scale s) delta);
            ratio = fa_div ops new_scale (zs_scale s);
            towards = (\<lambda>f c. fa_sub ops f (fa_mul ops (fa_sub ops f c) ratio));
            s1 = s\<lparr>zs_origin := (towards (fst focal) (fst (zs_origin s)), towards (snd focal) (snd (zs_origin s))),
                   zs_scale := new_scale\<rparr>
        in case from_scale new_scale of
             Inl err \<Rightarrow> (Inl err, s1)
           | Inr level \<Rightarrow> (Inr (), s1\<lparr>zs_level := level\<rparr>))"

definition pan_by :: "float_arith \<Rightarrow> f64 \<Rightarrow> f64 \<Rightarrow> zoom_state \<Rightarrow> zoom_state" where
  "pan_by ops dx dy s =
     s\<lparr>zs_origin := (fa_add ops (fst (zs_origin s)) dx, fa_add ops (snd (zs_origin s)) dy)\<rparr>"

definition level_middle :: "float_arith \<Rightarrow> zoom_level \<Rightarrow> f64" where
  "level_middle ops level =
     (case scale_range level of (lo, hi) \<Rightarrow> fa_div ops (fa_add ops lo hi) 0x4000000000000000)"

definition jump_to_level :: "float_arith \<Rightarrow> zoom_level \<Rightarrow> f64 \<times> f64 \<Rightarrow> zoom_state \<Rightarrow> zoom_state" where
  "jump_to_level ops level focal s =
     s\<lparr>zs_scale := level_middle ops level, zs_level := level, zs_origin := focal\<rparr>"

section \<open>Detail of nodes\<close>

datatype detail_level = Hidden | ClusterBadge | GroupOutline | Chip | Card | CardDebug

primrec detail_for_zoom :: "zoom_level \<Rightarrow> detail_level" where
  "detail_for_zoom Galaxy = ClusterBadge"
| "detail_for_zoom Constellation = GroupOutline"
| "detail_for_zoom Overview = Chip"
| "detail_for_zoom Standard = Card"
| "detail_for_zoom Micro = CardDebug"

definition is_visible :: "detail_level \<Rightarrow> bool" where
  "is_visible d = (d \<noteq> Hidden)"

definition show_ports :: "detail_level \<Rightarrow> bool" where
  "show_ports d = (case d of Card \<Rightarrow> True | CardDebug \<Rightarrow> True | _ \<Rightarrow> False)"

definition show_full_label :: "detail_level \<Rightarrow> bool" where
  "show_full_label d = (case d of Card \<Rightarrow> True | CardDebug \<Rightarrow> True | _ \<Rightarrow> False)"

definition show_status_overlay :: "detail_level \<Rightarrow> bool" where
  "show_status_overlay d = (case d of Chip \<Rightarrow> True | Card \<Rightarrow> True | CardDebug \<Rightarrow> True | _ \<Rightarrow> False)"

definition show_debug_overlay :: "detail_level \<Rightarrow> bool" where
  "show_debug_overlay d = (d = CardDebug)"

type_synonym corners = "f64 \<times> f64 \<times> f64 \<times> f64"

record visibility_policy =
  vp_zoom_level :: zoom_level
  vp_viewport :: corners

definition new_visibility_policy :: "zoom_level \<Rightarrow> corners \<Rightarrow> visibility_policy" where
  "new_visibility_policy level viewport = \<lparr>vp_zoom_level = level, vp_viewport = viewport\<rparr>"

definition intersects_viewport :: "visibility_policy \<Rightarrow> corners \<Rightarrow> bool" where
  "intersects_viewport p rect =
     (case (vp_viewport p, rect) of ((vx0, vy0, vx1, vy1), (rx0, ry0, rx1, ry1)) \<Rightarrow>
        f64_le vx0 rx1 \<and> f64_le rx0 vx1 \<and> f64_le vy0 ry1 \<and> f64_le ry0 vy1)"

definition detail_for_node :: "visibility_policy \<Rightarrow> corners \<Rightarrow> detail_level" where
  "detail_for_node p rect =
     (if \<not> intersects_viewport p rect then Hidden else detail_for_zoom (vp_zoom_level p))"

definition batch_detail :: "visibility_policy \<Rightarrow> corners list \<Rightarrow> detail_level list" where
  "batch_detail p rects = map (detail_for_node p) rects"

section \<open>Frame budgets\<close>

record performance_budget =
  fb_frame_budget_ms :: f64
  fb_max_visible_nodes :: u32
  fb_render_batch_size :: u32
  fb_zoom_transition_max_ms :: f64

text \<open>Every budget allows 16 milliseconds.\<close>

definition budget_for_zoom :: "zoom_level \<Rightarrow> performance_budget" where
  "budget_for_zoom level =
     (let mk = (\<lambda>nodes batch.
            \<lparr>fb_frame_budget_ms = 0x4030000000000000, fb_max_visible_nodes = nodes,
             fb_render_batch_size = batch, fb_zoom_transition_max_ms = 0x4030000000000000\<rparr>)
      in case level of
           Galaxy \<Rightarrow> mk 10000 500
         | Constellation \<Rightarrow> mk 5000 250
         | Overview \<Rightarrow> mk 2000 100
         | Standard \<Rightarrow> mk 500 50
         | Micro \<Rightarrow> mk 100 20)"

record frame_sample =
  fs_frame_index :: u64
  fs_duration_ms :: f64
  fs_nodes_rendered :: u32

definition within_budget :: "frame_sample \<Rightarrow> performance_budget \<Rightarrow> bool" where
  "within_budget x b = f64_le (fs_duration_ms x) (fb_frame_budget_ms b)"

record performance_monitor =
  pm_budget :: performance_budget
  pm_samples :: "frame_sample list"
  pm_window :: usize
  pm_total_frames :: u64
  pm_budget_violations :: u64

definition new_monitor :: "performance_budget \<Rightarrow> usize \<Rightarrow> performance_monitor" where
  "new_monitor budget window =
     \<lparr>pm_budget = budget, pm_samples = [], pm_window = window, pm_total_frames = 0, pm_budget_violations = 0\<rparr>"

text \<open>The front is dropped only at exactly the window's length.\<close>

definition ring_push :: "usize \<Rightarrow> 'a \<Rightarrow> 'a list \<Rightarrow> 'a list" where
  "ring_push n x xs = (if List.length xs = unat n then tl xs else xs) @ [x]"

definition record_frame :: "frame_sample \<Rightarrow> performance_monitor \<Rightarrow> performance_monitor" where
  "record_frame x s =
     s\<lparr>pm_budget_violations := pm_budget_violations s + (if within_budget x (pm_budget s) then 0 else 1),
       pm_total_frames := pm_total_frames s + 1,
       pm_samples := ring_push (pm_window s) x (pm_samples s)\<rparr>"

definition avg_frame_ms :: "float_arith \<Rightarrow> performance_monitor \<Rightarrow> f64" where
  "avg_frame_ms ops s =
     (if pm_samples s = [] then 0
      else fa_div ops (fa_sum ops (map fs_duration_ms (pm_samples s)))
             (fa_of_u64 ops (of_nat (List.length (pm_samples s)))))"

definition frames_per_second :: "float_arith \<Rightarrow> performance_monitor \<Rightarrow> f64" where
  "frames_per_second ops s =
     (let avg = avg_frame_ms ops s
      in if f64_le avg 0 then 0 else fa_div ops 0x408F400000000000 avg)"

definition is_within_budget :: "float_arith \<Rightarrow> performance_monitor \<Rightarrow> bool" where
  "is_within_budget ops s = f64_le (avg_frame_ms ops s) (fb_frame_budget_ms (pm_budget s))"

definition set_budget :: "performance_budget \<Rightarrow> performance_monitor \<Rightarrow> performance_monitor" where
  "set_budget b s = s\<lparr>pm_budget := b\<rparr>"

record adaptive_culler =
  ac_current_max :: u32
  ac_budget_max :: u32
  ac_step :: u32

definition culler_from_budget :: "performance_budget \<Rightarrow> adaptive_culler" where
  "culler_from_budget b =
     \<lparr>ac_current_max = fb_max_visible_nodes b, ac_budget_max = fb_max_visible_nodes b,
      ac_step = max (fb_max_visible_nodes b div 10) 1\<rparr>"

definition adjust_culler :: "bool \<Rightarrow> adaptive_culler \<Rightarrow> adaptive_culler" where
  "adjust_culler over_budget c =
     (if over_budget then c\<lparr>ac_current_max := saturating_sub (ac_current_max c) (ac_step c)\<rparr>
      else c\<lparr>ac_current_max := min (ac_current_max c + ac_step c) (ac_budget_max c)\<rparr>)"

end
