(* ===== verification/Canvas_Selection.thy ===== *)
theory Canvas_Selection
  imports Canvas_View
begin

text \<open>
  Selection and navigation on the canvas (\<open>ify-canvas/src/selection.rs\<close>, \<open>ify-canvas/src/navigation.rs\<close>):
  points and rectangles, the selection set, the lasso, the snap grid, alignment and distribution, the
  minimap, breadcrumbs and focus mode; then collaboration (\<open>collaboration.rs\<close>). Arithmetic of floats is the argument \<open>ops\<close>, \<open>f64::round\<close> the
  argument \<open>round_f64\<close>.
\<close>

record point =
  pt_x :: f64
  pt_y :: f64

definition new_point :: "f64 \<Rightarrow> f64 \<Rightarrow> point" where
  "new_point x y = \<lparr>pt_x = x, pt_y = y\<rparr>"

record rect =
  rc_origin :: point
  rc_width :: f64
  rc_height :: f64

definition new_rect :: "f64 \<Rightarrow> f64 \<Rightarrow> f64 \<Rightarrow> f64 \<Rightarrow> rect" where
  "new_rect x y width height = \<lparr>rc_origin = new_point x y, rc_width = width, rc_height = height\<rparr>"

definition rect_right :: "float_arith \<Rightarrow> rect \<Rightarrow> f64" where
  "rect_right ops r = fa_add ops (pt_x (rc_origin r)) (rc_width r)"

definition rect_bottom :: "float_arith \<Rightarrow> rect \<Rightarrow> f64" where
  "rect_bottom ops r = fa_add ops (pt_y (rc_origin r)) (rc_height r)"

definition contains_point :: "float_arith \<Rightarrow> rect \<Rightarrow> point \<Rightarrow> bool" where
  "contains_point ops r p =
     (f64_le (pt_x (rc_origin r)) (pt_x p) \<and> f64_le (pt_x p) (rect_right ops r) \<and>
      f64_le (pt_y (rc_origin r)) (pt_y p) \<and> f64_le (pt_y p) (rect_bottom ops r))"

definition intersects :: "float_arith \<Rightarrow> rect \<Rightarrow> rect \<Rightarrow> bool" where
  "intersects ops r other =
     (f64_lt (pt_x (rc_origin r)) (rect_right ops other) \<and> f64_lt (pt_x (rc_origin other)) (rect_right ops r) \<and>
      f64_lt (pt_y (rc_origin r)) (rect_bottom ops other) \<and> f64_lt (pt_y (rc_origin other)) (rect_bottom ops r))"

definition half :: "float_arith \<Rightarrow> f64 \<Rightarrow> f64" where
  "half ops x = fa_div ops x 0x4000000000000000"

definition center_x :: "float_arith \<Rightarrow> rect \<Rightarrow> f64" where
  "center_x ops r = fa_add ops (pt_x (rc_origin r)) (half ops (rc_width r))"

definition center_y :: "float_arith \<Rightarrow> rect \<Rightarrow> f64" where
  "center_y ops r = fa_add ops (pt_y (rc_origin r)) (half ops (rc_height r))"

section \<open>Selection\<close>

text \<open>The identifiers are a \<open>HashSet\<close>.\<close>

type_synonym selection_set = "string set"

definition new_selection :: selection_set where
  "new_selection = {}"

definition select_node :: "string \<Rightarrow> selection_set \<Rightarrow> selection_set" where
  "select_node i s = insert i s"

definition deselect_node :: "string \<Rightarrow> selection_set \<Rightarrow> selection_set" where
  "deselect_node i s = s - {i}"

definition toggle_node :: "string \<Rightarrow> selection_set \<Rightarrow> selection_set" where
  "toggle_node i s = (if i \<in> s then s - {i} else insert i s)"

definition clear_selection :: "selection_set \<Rightarrow> selection_set" where
  "clear_selection s = {}"

fun lasso_select :: "float_arith \<Rightarrow> rect \<Rightarrow> (string \<times> rect) list \<Rightarrow> selection_set \<Rightarrow> selection_set" where
  "lasso_select ops lasso [] sel = sel"
| "lasso_select ops lasso ((i, r) # nodes) sel =
     lasso_select ops lasso nodes (if intersects ops lasso r then select_node i sel else sel)"

definition select_by_lasso :: "float_arith \<Rightarrow> rect \<Rightarrow> (string \<times> rect) list \<Rightarrow> selection_set" where
  "select_by_lasso ops lasso nodes = lasso_select ops lasso nodes new_selection"

section \<open>The snap grid\<close>

record snap_grid =
  sg_cell_size :: f64
  sg_enabled :: bool

definition new_snap_grid :: "f64 \<Rightarrow> snap_grid" where
  "new_snap_grid cell_size = \<lparr>sg_cell_size = cell_size, sg_enabled = True\<rparr>"

definition snap_value :: "float_arith \<Rightarrow> (f64 \<Rightarrow> f64) \<Rightarrow> snap_grid \<Rightarrow> f64 \<Rightarrow> f64" where
  "snap_value ops round_f64 g v =
     (if \<not> sg_enabled g \<or> f64_le (sg_cell_size g) 0 then v
      else fa_mul ops (round_f64 (fa_div ops v (sg_cell_size g))) (sg_cell_size g))"

definition snap_point :: "float_arith \<Rightarrow> (f64 \<Rightarrow> f64) \<Rightarrow> snap_grid \<Rightarrow> point \<Rightarrow> point" where
  "snap_point ops round_f64 g p =
     new_point (snap_value ops round_f64 g (pt_x p)) (snap_value ops round_f64 g (pt_y p))"

section \<open>Alignment\<close>

datatype axis = Horizontal | Vertical

datatype align_anchor = AnchorMin | AnchorCenter | AnchorMax

datatype align_error = TooFewNodes

text \<open>\<open>f64::min\<close> ignores a NaN.\<close>

definition f64_min :: "f64 \<Rightarrow> f64 \<Rightarrow> f64" where
  "f64_min x y = (if f64_is_nan x then y else if f64_is_nan y then x else if f64_lt y x then y else x)"

definition f64_neg_infinity :: f64 where
  "f64_neg_infinity = 0xFFF0000000000000"

definition f64_pos_infinity :: f64 where
  "f64_pos_infinity = 0x7FF0000000000000"

definition mean_f64 :: "float_arith \<Rightarrow> f64 list \<Rightarrow> f64" where
  "mean_f64 ops xs = fa_div ops (fa_sum ops xs) (fa_of_u64 ops (of_nat (List.length xs)))"

primrec align_target :: "float_arith \<Rightarrow> rect list \<Rightarrow> align_anchor \<Rightarrow> axis \<Rightarrow> f64" where
  "align_target ops nodes AnchorMin =
     (\<lambda>a. case a of Horizontal \<Rightarrow> fold (\<lambda>r acc. f64_min acc (pt_x (rc_origin r))) nodes f64_pos_infinity
        | Vertical \<Rightarrow> fold (\<lambda>r acc. f64_min acc (pt_y (rc_origin r))) nodes f64_pos_infinity)"
| "align_target ops nodes AnchorCenter =
     (\<lambda>a. case a of Horizontal \<Rightarrow> mean_f64 ops (map (center_x ops) nodes)
        | Vertical \<Rightarrow> mean_f64 ops (map (center_y ops) nodes))"
| "align_target ops nodes AnchorMax =
     (\<lambda>a. case a of Horizontal \<Rightarrow> fold (\<lambda>r acc. f64_max acc (rect_right ops r)) nodes f64_neg_infinity
        | Vertical \<Rightarrow> fold (\<lambda>r acc. f64_max acc (rect_bottom ops r)) nodes f64_neg_infinity)"

definition move_x :: "f64 \<Rightarrow> rect \<Rightarrow> rect" where
  "move_x x r = r\<lparr>rc_origin := (rc_origin r)\<lparr>pt_x := x\<rparr>\<rparr>"

definition move_y :: "f64 \<Rightarrow> rect \<Rightarrow> rect" where
  "move_y y r = r\<lparr>rc_origin := (rc_origin r)\<lparr>pt_y := y\<rparr>\<rparr>"

definition align_node :: "float_arith \<Rightarrow> axis \<Rightarrow> align_anchor \<Rightarrow> f64 \<Rightarrow> rect \<Rightarrow> rect" where
  "align_node ops a anchor target r =
     (case (a, anchor) of
        (Horizontal, AnchorMin) \<Rightarrow> move_x target r
      | (Horizontal, AnchorCenter) \<Rightarrow> move_x (fa_sub ops target (half ops (rc_width r))) r
      | (Horizontal, AnchorMax) \<Rightarrow> move_x (fa_sub ops target (rc_width r)) r
      | (Vertical, AnchorMin) \<Rightarrow> move_y target r
      | (Vertical, AnchorCenter) \<Rightarrow> move_y (fa_sub ops target (half ops (rc_height r))) r
      | (Vertical, AnchorMax) \<Rightarrow> move_y (fa_sub ops target (rc_height r)) r)"

definition align_nodes :: "float_arith \<Rightarrow> axis \<Rightarrow> align_anchor \<Rightarrow> rect list \<Rightarrow> align_error + rect list" where
  "align_nodes ops a anchor nodes =
     (if List.length nodes < 2 then Inl TooFewNodes
      else Inr (map (align_node ops a anchor (align_target ops nodes anchor a)) nodes))"

text \<open>
  \<open>sort_by\<close> with \<open>partial_cmp(..).unwrap()\<close>: a stable sort by the rank of the coordinate, and a panic,
  here \<open>None\<close>, when it compares a NaN. Every element of a slice of two or more is compared.
\<close>

definition sort_coordinate :: "(rect \<Rightarrow> f64) \<Rightarrow> rect list \<Rightarrow> rect list option" where
  "sort_coordinate coord nodes =
     (if list_ex (\<lambda>r. f64_is_nan (coord r)) nodes then None
      else Some (sort_key (\<lambda>r. f64_rank (coord r)) nodes))"

fun place_nodes :: "float_arith \<Rightarrow> (f64 \<Rightarrow> rect \<Rightarrow> rect) \<Rightarrow> (rect \<Rightarrow> f64) \<Rightarrow> f64 \<Rightarrow> f64 \<Rightarrow> rect list \<Rightarrow> rect list" where
  "place_nodes ops move extent gap cursor [] = []"
| "place_nodes ops move extent gap cursor (r # rs) =
     move cursor r # place_nodes ops move extent gap (fa_add ops cursor (fa_add ops (extent r) gap)) rs"

definition distribute_along ::
  "float_arith \<Rightarrow> (f64 \<Rightarrow> rect \<Rightarrow> rect) \<Rightarrow> (rect \<Rightarrow> f64) \<Rightarrow> (rect \<Rightarrow> f64) \<Rightarrow> rect list \<Rightarrow> rect list option" where
  "distribute_along ops move coord extent nodes =
     (case sort_coordinate coord nodes of
        None \<Rightarrow> None
      | Some ordered \<Rightarrow>
          let start = coord (hd ordered);
              end_pos = fa_add ops (coord (List.last ordered)) (extent (List.last ordered));
              total = fa_sum ops (map extent ordered);
              gap = fa_div ops (fa_sub ops (fa_sub ops end_pos start) total)
                      (fa_sub ops (fa_of_u64 ops (of_nat (List.length ordered))) f64_one)
          in Some (place_nodes ops move extent gap start ordered))"

text \<open>The outer option is the panic.\<close>

definition distribute_nodes :: "float_arith \<Rightarrow> axis \<Rightarrow> rect list \<Rightarrow> (align_error + rect list) option" where
  "distribute_nodes ops a nodes =
     (if List.length nodes < 2 then Some (Inl TooFewNodes)
      else map_option Inr
        (case a of
           Horizontal \<Rightarrow> distribute_along ops move_x (\<lambda>r. pt_x (rc_origin r)) rc_width nodes
         | Vertical \<Rightarrow> distribute_along ops move_y (\<lambda>r. pt_y (rc_origin r)) rc_height nodes))"

section \<open>Navigation\<close>

record minimap =
  mm_visible :: bool
  mm_canvas_bounds :: rect
  mm_viewport_rect :: rect

definition new_minimap :: "rect \<Rightarrow> minimap" where
  "new_minimap bounds = \<lparr>mm_visible = False, mm_canvas_bounds = bounds, mm_viewport_rect = bounds\<rparr>"

definition toggle_minimap :: "minimap \<Rightarrow> minimap" where
  "toggle_minimap m = m\<lparr>mm_visible := \<not> mm_visible m\<rparr>"

definition update_viewport :: "rect \<Rightarrow> minimap \<Rightarrow> minimap" where
  "update_viewport v m = m\<lparr>mm_viewport_rect := v\<rparr>"

definition indicator_rect :: "float_arith \<Rightarrow> minimap \<Rightarrow> f64 \<times> f64 \<Rightarrow> f64 \<times> f64 \<times> f64 \<times> f64" where
  "indicator_rect ops m widget =
     (let cb = mm_canvas_bounds m;
          vp = mm_viewport_rect m;
          scale_x = fa_div ops (fst widget) (f64_max (rc_width cb) f64_one);
          scale_y = fa_div ops (snd widget) (f64_max (rc_height cb) f64_one)
      in (fa_mul ops (fa_sub ops (pt_x (rc_origin vp)) (pt_x (rc_origin cb))) scale_x,
          fa_mul ops (fa_sub ops (pt_y (rc_origin vp)) (pt_y (rc_origin cb))) scale_y,
          fa_mul ops (rc_width vp) scale_x, fa_mul ops (rc_height vp) scale_y))"

datatype breadcrumb_kind = CrumbDimension | CrumbGroup | CrumbNode

record breadcrumb_entry =
  bd_label :: string
  bd_kind :: breadcrumb_kind
  bd_id :: string

type_synonym breadcrumbs = "breadcrumb_entry list"

definition push_crumb :: "breadcrumb_entry \<Rightarrow> breadcrumbs \<Rightarrow> breadcrumbs" where
  "push_crumb e b = b @ [e]"

definition pop_crumb :: "breadcrumbs \<Rightarrow> breadcrumb_entry option \<times> breadcrumbs" where
  "pop_crumb b = (if b = [] then (None, []) else (Some (List.last b), butlast b))"

text \<open>\<open>truncate(depth + 1)\<close>; in a release build the addition wraps.\<close>

definition navigate_to :: "usize \<Rightarrow> breadcrumbs \<Rightarrow> breadcrumbs" where
  "navigate_to depth b = take (unat (depth + 1)) b"

definition current_crumb :: "breadcrumbs \<Rightarrow> breadcrumb_entry option" where
  "current_crumb b = (if b = [] then None else Some (List.last b))"

record focus_mode =
  fm_active :: bool
  fm_focused_nodes :: "string list"

definition new_focus_mode :: focus_mode where
  "new_focus_mode = \<lparr>fm_active = False, fm_focused_nodes = []\<rparr>"

definition enter_focus :: "string list \<Rightarrow> focus_mode \<Rightarrow> focus_mode" where
  "enter_focus ids m = m\<lparr>fm_focused_nodes := ids, fm_active := True\<rparr>"

definition exit_focus :: "focus_mode \<Rightarrow> focus_mode" where
  "exit_focus m = m\<lparr>fm_active := False, fm_focused_nodes := []\<rparr>"

definition is_node_visible :: "focus_mode \<Rightarrow> string \<Rightarrow> bool" where
  "is_node_visible m i = (\<not> fm_active m \<or> list_ex (\<lambda>n. n = i) (fm_focused_nodes m))"

record navigation_state =
  nv_minimap :: minimap
  nv_breadcrumbs :: breadcrumbs
  nv_focus_mode :: focus_mode

definition new_navigation :: "rect \<Rightarrow> navigation_state" where
  "new_navigation bounds =
     \<lparr>nv_minimap = new_minimap bounds, nv_breadcrumbs = [], nv_focus_mode = new_focus_mode\<rparr>"

section \<open>Collaboration\<close>

text \<open>
  Collaboration on the canvas (\<open>ify-canvas/src/collaboration.rs\<close>): the presence of cursors and the
  resolution of concurrent edits, where the last write wins. A JSON value is a value of the type \<open>'j\<close>.
\<close>

record cursor_presence =
  cu_collaborator_id :: string
  cu_display_name :: string
  cu_position :: point
  cu_color :: string
  cu_updated_at_ms :: u64
  cu_focused_node :: "string option"

type_synonym presence_store = "string \<rightharpoonup> cursor_presence"

definition upsert_presence :: "cursor_presence \<Rightarrow> presence_store \<Rightarrow> presence_store" where
  "upsert_presence p s = s(cu_collaborator_id p \<mapsto> p)"

definition remove_presence :: "string \<Rightarrow> presence_store \<Rightarrow> presence_store" where
  "remove_presence i s = s(i := None)"

datatype 'j node_change =
    MoveTo point
  | SetParameter string 'j
  | AddEdge string string string string
  | RemoveEdge string string string string

record 'j edit_operation =
  eo_op_id :: string
  eo_author :: string
  eo_timestamp_ms :: u64
  eo_node_id :: string
  eo_change :: "'j node_change"

definition edge_key :: "string \<Rightarrow> string \<Rightarrow> string \<Rightarrow> string \<Rightarrow> string" where
  "edge_key from_node from_port to_node to_port =
     ''edge:'' @ from_node @ '':'' @ from_port @ ''->'' @ to_node @ '':'' @ to_port"

definition field_key :: "'j edit_operation \<Rightarrow> string" where
  "field_key op =
     (case eo_change op of
        MoveTo _ \<Rightarrow> eo_node_id op @ '':position''
      | SetParameter name _ \<Rightarrow> eo_node_id op @ '':param:'' @ name
      | AddEdge fn fp tn tp \<Rightarrow> edge_key fn fp tn tp
      | RemoveEdge fn fp tn tp \<Rightarrow> edge_key fn fp tn tp)"

type_synonym 'j conflict_resolver = "string \<rightharpoonup> 'j edit_operation"

definition newer :: "'j edit_operation \<Rightarrow> 'j edit_operation \<Rightarrow> bool" where
  "newer op existing =
     (eo_timestamp_ms existing < eo_timestamp_ms op \<or>
      eo_timestamp_ms op = eo_timestamp_ms existing \<and> eo_op_id existing < eo_op_id op)"

definition apply_edit :: "'j edit_operation \<Rightarrow> 'j conflict_resolver \<Rightarrow> bool \<times> 'j conflict_resolver" where
  "apply_edit op s =
     (case s (field_key op) of
        Some existing \<Rightarrow> if \<not> newer op existing then (False, s) else (True, s(field_key op \<mapsto> op))
      | None \<Rightarrow> (True, s(field_key op \<mapsto> op)))"

definition accepted_op :: "'j conflict_resolver \<Rightarrow> string \<Rightarrow> 'j edit_operation option" where
  "accepted_op s key = s key"

end
