(* ===== verification/Canvas_Nodes.thy ===== *)
theory Canvas_Nodes
  imports Canvas_Selection Mesh_Schema
begin

text \<open>
  Adding nodes to the canvas (\<open>ify-canvas/src/node_adder.rs\<close>): templates, requests, the adder, and the
  bounded stack of undo and redo entries. A JSON value is a value of the type \<open>'j\<close>.
\<close>

record 'j canvas_template =
  ct_template_id :: string
  ct_label :: string
  ct_kind :: string
  ct_default_position :: point
  ct_default_params :: "string \<rightharpoonup> 'j"

definition new_canvas_template :: "string \<Rightarrow> string \<Rightarrow> string \<Rightarrow> 'j canvas_template" where
  "new_canvas_template template_id label kind =
     \<lparr>ct_template_id = template_id, ct_label = label, ct_kind = kind,
      ct_default_position = new_point 0 0, ct_default_params = Map.empty\<rparr>"

record 'j add_node_request =
  aq_template_id :: string
  aq_position :: "point option"
  aq_param_overrides :: "string \<rightharpoonup> 'j"
  aq_label_override :: "string option"

definition request_from_template :: "string \<Rightarrow> 'j add_node_request" where
  "request_from_template template_id =
     \<lparr>aq_template_id = template_id, aq_position = None, aq_param_overrides = Map.empty,
      aq_label_override = None\<rparr>"

record add_node_result =
  an_node_id :: string
  an_position :: point
  an_label :: string

datatype node_adder_error = CanvasTemplateNotFound string | NothingToUndo | NothingToRedo

section \<open>The undo stack\<close>

datatype undo_entry =
    UndoAddNode string
  | UndoMoveNode string point point
  | UndoDeleteNode string

record undo_stack =
  us_undo :: "undo_entry list"
  us_redo :: "undo_entry list"
  us_capacity :: usize

definition new_undo_stack :: "usize \<Rightarrow> undo_stack" where
  "new_undo_stack capacity = \<lparr>us_undo = [], us_redo = [], us_capacity = capacity\<rparr>"

definition push_undo :: "undo_entry \<Rightarrow> undo_stack \<Rightarrow> undo_stack" where
  "push_undo e s = s\<lparr>us_undo := ring_push (us_capacity s) e (us_undo s), us_redo := []\<rparr>"

definition undo_last :: "undo_stack \<Rightarrow> undo_entry option \<times> undo_stack" where
  "undo_last s =
     (if us_undo s = [] then (None, s)
      else (Some (List.last (us_undo s)),
            s\<lparr>us_undo := butlast (us_undo s), us_redo := us_redo s @ [List.last (us_undo s)]\<rparr>))"

definition redo_last :: "undo_stack \<Rightarrow> undo_entry option \<times> undo_stack" where
  "redo_last s =
     (if us_redo s = [] then (None, s)
      else (Some (List.last (us_redo s)),
            s\<lparr>us_redo := butlast (us_redo s), us_undo := us_undo s @ [List.last (us_redo s)]\<rparr>))"

section \<open>The adder\<close>

record 'j node_adder =
  na_templates :: "string \<rightharpoonup> 'j canvas_template"
  na_next_id :: u64
  na_undo_stack :: undo_stack

definition register_canvas_template :: "'j canvas_template \<Rightarrow> 'j node_adder \<Rightarrow> 'j node_adder" where
  "register_canvas_template t s = s\<lparr>na_templates := (na_templates s)(ct_template_id t \<mapsto> t)\<rparr>"

definition new_node_adder :: "'j canvas_template list \<Rightarrow> 'j node_adder" where
  "new_node_adder ts =
     \<lparr>na_templates = fold (\<lambda>t m. m(ct_template_id t \<mapsto> t)) ts Map.empty, na_next_id = 1,
      na_undo_stack = new_undo_stack 64\<rparr>"

definition add_canvas_node ::
  "'j add_node_request \<Rightarrow> 'j node_adder \<Rightarrow> (node_adder_error, add_node_result, 'j node_adder) outcome" where
  "add_canvas_node q s =
     (case na_templates s (aq_template_id q) of
        None \<Rightarrow> (Inl (CanvasTemplateNotFound (aq_template_id q)), s)
      | Some t \<Rightarrow>
          let node_id = ''node-'' @ show_nat (unat (na_next_id s));
              position = (case aq_position q of Some p \<Rightarrow> p | None \<Rightarrow> ct_default_position t);
              label = (case aq_label_override q of Some l \<Rightarrow> l | None \<Rightarrow> ct_label t)
          in (Inr \<lparr>an_node_id = node_id, an_position = position, an_label = label\<rparr>,
              s\<lparr>na_next_id := na_next_id s + 1, na_undo_stack := push_undo (UndoAddNode node_id) (na_undo_stack s)\<rparr>))"

definition undo_adder :: "'j node_adder \<Rightarrow> (node_adder_error, undo_entry, 'j node_adder) outcome" where
  "undo_adder s =
     (case undo_last (na_undo_stack s) of
        (None, u) \<Rightarrow> (Inl NothingToUndo, s\<lparr>na_undo_stack := u\<rparr>)
      | (Some e, u) \<Rightarrow> (Inr e, s\<lparr>na_undo_stack := u\<rparr>))"

definition redo_adder :: "'j node_adder \<Rightarrow> (node_adder_error, undo_entry, 'j node_adder) outcome" where
  "redo_adder s =
     (case redo_last (na_undo_stack s) of
        (None, u) \<Rightarrow> (Inl NothingToRedo, s\<lparr>na_undo_stack := u\<rparr>)
      | (Some e, u) \<Rightarrow> (Inr e, s\<lparr>na_undo_stack := u\<rparr>))"

end
