(* ===== verification/Canvas_Search.thy ===== *)
theory Canvas_Search
  imports Reliability_Metrics
begin

text \<open>
  Search and commands of the canvas (\<open>ify-canvas/src/search.rs\<close>), and the data of the node inspector
  (\<open>ify-canvas/src/inspector.rs\<close>). The Unicode lower case is the argument \<open>lower\<close>. Items are a
  \<open>HashMap\<close>; they are kept in the order of their identifiers, which is the order of equal scores here.
\<close>

type_synonym f32 = "32 word"

datatype search_scope = ScopeAll | ScopeCommands | ScopeAgents | ScopeTasks | ScopeNodes

text \<open>The white space of Unicode in UTF-8.\<close>

fun skip_space :: "string \<Rightarrow> string option" where
  "skip_space [] = None"
| "skip_space (c # s) =
     (if of_char c \<in> {9 :: nat .. 13} \<or> c = CHR 0x20 then Some s
      else if c = CHR 0xC2
        then (case s of d # s' \<Rightarrow> if d = CHR 0x85 \<or> d = CHR 0xA0 then Some s' else None | [] \<Rightarrow> None)
      else case s of
             d # e # s' \<Rightarrow>
               if c = CHR 0xE1 \<and> d = CHR 0x9A \<and> e = CHR 0x80 then Some s'
               else if c = CHR 0xE2 \<and> d = CHR 0x80 \<and> (of_char e \<in> {0x80 :: nat .. 0x8A} \<or> e = CHR 0xA8 \<or> e = CHR 0xA9 \<or> e = CHR 0xAF)
                 then Some s'
               else if c = CHR 0xE2 \<and> d = CHR 0x81 \<and> e = CHR 0x9F then Some s'
               else if c = CHR 0xE3 \<and> d = CHR 0x80 \<and> e = CHR 0x80 then Some s'
               else None
           | _ \<Rightarrow> None)"

lemma skip_space_length: "skip_space s = Some s' \<Longrightarrow> List.length s' < List.length s"
  by (cases s rule: skip_space.cases) (auto split: if_splits list.splits)

function trim_start :: "string \<Rightarrow> string" where
  "trim_start s = (case skip_space s of None \<Rightarrow> s | Some s' \<Rightarrow> trim_start s')"
  by pat_completeness auto

termination
  by (relation "measure List.length") (auto simp: skip_space_length)

definition scope_from_prefix :: "string \<Rightarrow> search_scope \<times> string" where
  "scope_from_prefix query =
     (if prefix ''>'' query then (ScopeCommands, trim_start (drop 1 query))
      else if prefix ''@'' query then (ScopeAgents, trim_start (drop 1 query))
      else if prefix ''#'' query then (ScopeTasks, trim_start (drop 1 query))
      else if prefix ''n:'' query then (ScopeNodes, trim_start (drop 2 query))
      else (ScopeAll, query))"

datatype search_item_kind = ItemNode | ItemAgent | ItemTask | ItemCommand

record search_item =
  si_id :: string
  si_kind :: search_item_kind
  si_label :: string
  si_subtitle :: "string option"
  si_score :: f32
  si_dimension_id :: "string option"

type_synonym search_index = "(string, search_item) om"

definition upsert_item :: "search_item \<Rightarrow> search_index \<Rightarrow> search_index" where
  "upsert_item x s = om_insert (si_id x) x s"

definition remove_item :: "string \<Rightarrow> search_index \<Rightarrow> search_index" where
  "remove_item i s = om_remove i s"

definition kind_matches :: "search_scope \<Rightarrow> search_item_kind \<Rightarrow> bool" where
  "kind_matches scope k =
     (case scope of
        ScopeAll \<Rightarrow> True
      | ScopeCommands \<Rightarrow> k = ItemCommand
      | ScopeAgents \<Rightarrow> k = ItemAgent
      | ScopeTasks \<Rightarrow> k = ItemTask
      | ScopeNodes \<Rightarrow> k = ItemNode)"

definition text_matches :: "(string \<Rightarrow> string) \<Rightarrow> string \<Rightarrow> search_item \<Rightarrow> bool" where
  "text_matches lower q x =
     (q = [] \<or> sublist q (lower (si_label x)) \<or>
      sublist q (lower (case si_subtitle x of None \<Rightarrow> [] | Some t \<Rightarrow> t)))"

text \<open>1.0, 0.8 and 0.5 as \<open>f32\<close>.\<close>

definition match_score :: "(string \<Rightarrow> string) \<Rightarrow> string \<Rightarrow> search_item \<Rightarrow> f32" where
  "match_score lower q x =
     (if lower (si_label x) = q then 0x3F800000
      else if prefix q (lower (si_label x)) then 0x3F4CCCCD
      else 0x3F000000)"

text \<open>Scores are positive, so their bit patterns order them; the sort is stable, highest first.\<close>

definition search_items :: "(string \<Rightarrow> string) \<Rightarrow> string \<Rightarrow> search_index \<Rightarrow> search_item list" where
  "search_items lower raw_query s =
     (let (scope, query) = scope_from_prefix raw_query;
          q = lower query;
          found = filter (\<lambda>x. kind_matches scope (si_kind x) \<and> text_matches lower q x) (om_values s);
          scored = map (\<lambda>x. x\<lparr>si_score := match_score lower q x\<rparr>) found
      in sort_key (\<lambda>x. - int (unat (si_score x))) scored)"

section \<open>Commands\<close>

record canvas_command =
  cm_id :: string
  cm_label :: string
  cm_shortcut :: "string option"
  cm_category :: string

type_synonym command_registry = "(string, canvas_command) om"

definition register_command :: "canvas_command \<Rightarrow> command_registry \<Rightarrow> command_registry" where
  "register_command c r = om_insert (cm_id c) c r"

definition default_commands :: "(string \<times> string \<times> string option \<times> string) list" where
  "default_commands =
     [(''fit-selection'', ''Fit Selection'', Some ''F'', ''Navigation''),
      (''zoom-in'', ''Zoom In'', Some ''+'', ''Navigation''),
      (''zoom-out'', ''Zoom Out'', Some ''-'', ''Navigation''),
      (''zoom-reset'', ''Reset Zoom'', Some ''0'', ''Navigation''),
      (''toggle-minimap'', ''Toggle Minimap'', Some ''M'', ''Navigation''),
      (''select-all'', ''Select All'', Some ''Ctrl+A'', ''Selection''),
      (''open-inspector'', ''Open Inspector'', Some ''Enter'', ''Inspect''),
      (''open-command-palette'', ''Command Palette'', Some ''Ctrl+F'', ''General''),
      (''undo'', ''Undo'', Some ''Ctrl+Z'', ''Edit''),
      (''redo'', ''Redo'', Some ''Ctrl+Y'', ''Edit''),
      (''delete-selected'', ''Delete Selected'', Some ''Del'', ''Edit''),
      (''add-node'', ''Add Node'', None, ''Graph''),
      (''focus-mode'', ''Focus Mode'', None, ''Navigation'')]"

definition default_registry :: command_registry where
  "default_registry =
     fold (\<lambda>(i, label, shortcut, category). register_command
         \<lparr>cm_id = i, cm_label = label, cm_shortcut = shortcut, cm_category = category\<rparr>)
       default_commands om_empty"

definition get_command :: "command_registry \<Rightarrow> string \<Rightarrow> canvas_command option" where
  "get_command r i = om_get r i"

definition commands_sorted :: "command_registry \<Rightarrow> canvas_command list" where
  "commands_sorted r = sort_key cm_label (om_values r)"

section \<open>The inspector\<close>

datatype 'j parameter_value = ValString string | ValFloat f64 | ValInt "64 word" | ValBool bool | ValJson 'j

record 'j inspector_parameter =
  ix_name :: string
  ix_value :: "'j parameter_value"
  ix_description :: "string option"

definition new_inspector_parameter :: "string \<Rightarrow> 'j parameter_value \<Rightarrow> 'j inspector_parameter" where
  "new_inspector_parameter name v = \<lparr>ix_name = name, ix_value = v, ix_description = None\<rparr>"

definition parameter_with_description :: "string \<Rightarrow> 'j inspector_parameter \<Rightarrow> 'j inspector_parameter" where
  "parameter_with_description desc p = p\<lparr>ix_description := Some desc\<rparr>"

record tool_attachment =
  ta_tool_id :: string
  ta_display_name :: string
  ta_active :: bool
  ta_config_summary :: "string option"

record memory_snapshot =
  my_heap_bytes :: u64
  my_peak_heap_bytes :: u64
  my_artifact_refs :: u32

datatype log_level = LevelDebug | LevelInfo | LevelWarn | LevelError

record log_entry =
  lo_timestamp_ms :: u64
  lo_level :: log_level
  lo_message :: string

record artifact_summary =
  as_artifact_id :: string
  as_kind :: string
  as_size_bytes :: "u64 option"
  as_created_at_ms :: u64

record 'j inspector_data =
  id_node_id :: string
  id_label :: string
  id_kind :: string
  id_parameters :: "'j inspector_parameter list"
  id_tools :: "tool_attachment list"
  id_memory :: "memory_snapshot option"
  id_logs :: "log_entry list"
  id_artifacts :: "artifact_summary list"
  id_metadata :: "string \<rightharpoonup> string"

definition new_inspector_data :: "string \<Rightarrow> string \<Rightarrow> string \<Rightarrow> 'j inspector_data" where
  "new_inspector_data node_id label kind =
     \<lparr>id_node_id = node_id, id_label = label, id_kind = kind, id_parameters = [], id_tools = [],
      id_memory = None, id_logs = [], id_artifacts = [], id_metadata = Map.empty\<rparr>"

definition with_parameter :: "'j inspector_parameter \<Rightarrow> 'j inspector_data \<Rightarrow> 'j inspector_data" where
  "with_parameter p d = d\<lparr>id_parameters := id_parameters d @ [p]\<rparr>"

definition with_tool :: "tool_attachment \<Rightarrow> 'j inspector_data \<Rightarrow> 'j inspector_data" where
  "with_tool t d = d\<lparr>id_tools := id_tools d @ [t]\<rparr>"

definition with_memory :: "memory_snapshot \<Rightarrow> 'j inspector_data \<Rightarrow> 'j inspector_data" where
  "with_memory m d = d\<lparr>id_memory := Some m\<rparr>"

definition with_log :: "log_entry \<Rightarrow> 'j inspector_data \<Rightarrow> 'j inspector_data" where
  "with_log e d = d\<lparr>id_logs := id_logs d @ [e]\<rparr>"

definition with_artifact :: "artifact_summary \<Rightarrow> 'j inspector_data \<Rightarrow> 'j inspector_data" where
  "with_artifact a d = d\<lparr>id_artifacts := id_artifacts d @ [a]\<rparr>"

definition with_metadata :: "string \<Rightarrow> string \<Rightarrow> 'j inspector_data \<Rightarrow> 'j inspector_data" where
  "with_metadata key v d = d\<lparr>id_metadata := (id_metadata d)(key \<mapsto> v)\<rparr>"

type_synonym 'j inspector_store = "string \<rightharpoonup> 'j inspector_data"

definition upsert_inspector :: "'j inspector_data \<Rightarrow> 'j inspector_store \<Rightarrow> 'j inspector_store" where
  "upsert_inspector d s = s(id_node_id d \<mapsto> d)"

definition remove_inspector :: "string \<Rightarrow> 'j inspector_store \<Rightarrow> 'j inspector_store" where
  "remove_inspector i s = s(i := None)"

end
