(* ===== verification/Canvas_Claims.thy ===== *)
theory Canvas_Claims
  imports Canvas_Focus Canvas_Selection Canvas_Nodes Canvas_Search "HOL-Library.Multiset"
begin

text \<open>
  What holds of the canvas: the zoom level follows the scale, concurrent edits converge, the focus
  visits every node, the undo stack is bounded, and search results are grouped by how they match.
\<close>

section \<open>Zoom\<close>

datatype zoom_call = ZoomBy f64 "f64 \<times> f64" | PanBy f64 f64 | JumpTo zoom_level "f64 \<times> f64"

primrec zoom_step :: "float_arith \<Rightarrow> zoom_call \<Rightarrow> zoom_state \<Rightarrow> zoom_state" where
  "zoom_step ops (ZoomBy delta focal) s = after (zoom_by ops delta focal s)"
| "zoom_step ops (PanBy dx dy) s = pan_by ops dx dy s"
| "zoom_step ops (JumpTo level focal) s = jump_to_level ops level focal s"

text \<open>The middle of each range lies in it, as in IEEE arithmetic.\<close>

definition middles_inside :: "float_arith \<Rightarrow> bool" where
  "middles_inside ops = list_all (\<lambda>l. in_range (level_middle ops l) l) all_levels"

lemma scale_bounds:
  "f64_lt 0x3F847AE147AE147B 0x3FA999999999999A" "f64_lt 0x3FA999999999999A 0x3FC999999999999A"
  "f64_lt 0x3FC999999999999A 0x3FE3333333333333" "f64_lt 0x3FE3333333333333 0x4000000000000000"
  "f64_lt 0x4000000000000000 0x4020000000000000"
  by (simp_all add: f64_lt_def f64_is_nan_def f64_rank_def f64_magnitude_def)

lemma ranges_disjoint: "in_range x l \<Longrightarrow> in_range x l' \<Longrightarrow> l = l'"
  using scale_bounds by (cases l; cases l') (auto simp: in_range_def f64_le_def f64_lt_def)

lemma from_scale_in_range: "in_range x l \<Longrightarrow> from_scale x = Inr l"
  using ranges_disjoint [of x l] by (cases l) (auto simp: from_scale_def)

lemma in_range_bounds: "in_range x l \<Longrightarrow> f64_le SCALE_MIN x \<and> f64_le x SCALE_MAX"
  using scale_bounds by (cases l) (auto simp: in_range_def f64_le_def f64_lt_def SCALE_MIN_def SCALE_MAX_def)

lemma range_end_number: "\<not> f64_is_nan (snd (scale_range l))"
  by (cases l) (simp_all add: f64_is_nan_def f64_magnitude_def)

lemma above_range:
  "\<not> in_range x l \<Longrightarrow> f64_le (fst (scale_range l)) x \<Longrightarrow> f64_le (snd (scale_range l)) x"
  using f64_le_or_lt [OF range_end_number [of l], of x] by (auto simp: in_range_def f64_le_def split: prod.splits)

lemma from_scale_total:
  assumes "f64_le SCALE_MIN x" "f64_le x SCALE_MAX"
  obtains l where "from_scale x = Inr l"
proof (cases "\<exists>l. in_range x l")
  case True
  then show ?thesis using that from_scale_in_range by blast
next
  case False
  then have "f64_le SCALE_MAX x"
    using assms(1) above_range [of x Galaxy] above_range [of x Constellation] above_range [of x Overview]
      above_range [of x Standard] above_range [of x Micro]
    by (simp add: SCALE_MIN_def SCALE_MAX_def)
  then show ?thesis using that False assms(2) by (simp add: from_scale_def f64_same_def)
qed

definition zoom_ok :: "zoom_state \<Rightarrow> bool" where
  "zoom_ok s =
     (if f64_is_nan (zs_scale s) then True
      else from_scale (zs_scale s) = Inr (zs_level s) \<and> f64_le SCALE_MIN (zs_scale s) \<and> f64_le (zs_scale s) SCALE_MAX)"

lemma clamped_scale:
  "\<not> f64_is_nan x \<Longrightarrow>
    f64_le SCALE_MIN (f64_clamp SCALE_MIN SCALE_MAX x) \<and> f64_le (f64_clamp SCALE_MIN SCALE_MAX x) SCALE_MAX"
  "f64_is_nan x \<Longrightarrow> f64_clamp SCALE_MIN SCALE_MAX x = x"
proof -
  have "f64_lt SCALE_MIN SCALE_MAX" "\<not> f64_is_nan SCALE_MIN" "\<not> f64_is_nan SCALE_MAX"
    by (simp_all add: SCALE_MIN_def SCALE_MAX_def f64_lt_def f64_is_nan_def f64_rank_def f64_magnitude_def)
  then show "\<not> f64_is_nan x \<Longrightarrow>
      f64_le SCALE_MIN (f64_clamp SCALE_MIN SCALE_MAX x) \<and> f64_le (f64_clamp SCALE_MIN SCALE_MAX x) SCALE_MAX"
    "f64_is_nan x \<Longrightarrow> f64_clamp SCALE_MIN SCALE_MAX x = x"
    by (auto simp: f64_clamp_def f64_le_def f64_lt_def)
qed

lemma from_scale_nan: "f64_is_nan x \<Longrightarrow> from_scale x = Inl (ScaleOutOfBounds x)"
  by (simp add: from_scale_def in_range_def f64_same_def f64_le_def split: prod.split)

lemma zoom_by_zero: "f64_same delta 0 \<Longrightarrow> zoom_by ops delta focal s = (Inl DeltaIsZero, s)"
  by (simp add: zoom_by_def)

lemma zoom_by_nan:
  assumes "\<not> f64_same delta 0" and "f64_is_nan (fa_mul ops (zs_scale s) delta)"
  shows "\<exists>s'. zoom_by ops delta focal s = (Inl (ScaleOutOfBounds (fa_mul ops (zs_scale s) delta)), s') \<and>
    zs_scale s' = fa_mul ops (zs_scale s) delta \<and> zs_level s' = zs_level s"
  using assms by (simp add: zoom_by_def Let_def clamped_scale(2) from_scale_nan)

lemma zoom_by_ok:
  assumes "\<not> f64_same delta 0" and "\<not> f64_is_nan (fa_mul ops (zs_scale s) delta)"
  shows "\<exists>s'. zoom_by ops delta focal s = (Inr (), s') \<and> zoom_ok s' \<and>
    zs_scale s' = f64_clamp SCALE_MIN SCALE_MAX (fa_mul ops (zs_scale s) delta)"
proof -
  let ?x = "f64_clamp SCALE_MIN SCALE_MAX (fa_mul ops (zs_scale s) delta)"
  have bounds: "f64_le SCALE_MIN ?x \<and> f64_le ?x SCALE_MAX" by (rule clamped_scale(1) [OF assms(2)])
  then obtain l where "from_scale ?x = Inr l" using from_scale_total by blast
  then show ?thesis using assms(1) bounds by (simp add: zoom_by_def Let_def zoom_ok_def)
qed

lemma zoom_by_zoom_ok: "zoom_ok s \<Longrightarrow> zoom_ok (after (zoom_by ops delta focal s))"
  using zoom_by_zero [of delta ops focal s] zoom_by_nan [of delta ops s focal] zoom_by_ok [of delta ops s focal]
  by (cases "f64_same delta 0"; cases "f64_is_nan (fa_mul ops (zs_scale s) delta)") (auto simp: zoom_ok_def)

lemma zoom_step_ok:
  assumes "middles_inside ops" and "zoom_ok s"
  shows "zoom_ok (zoom_step ops c s)"
proof (cases c)
  case (ZoomBy delta focal)
  then show ?thesis using zoom_by_zoom_ok [OF assms(2)] by simp
next
  case (PanBy dx dy)
  then show ?thesis using assms(2) by (simp add: pan_by_def zoom_ok_def)
next
  case (JumpTo level focal)
  have "in_range (level_middle ops level) level"
    using assms(1) by (cases level) (simp_all add: middles_inside_def all_levels_def)
  then show ?thesis
    using in_range_bounds from_scale_in_range by (simp add: JumpTo jump_to_level_def zoom_ok_def)
qed

interpretation zoom_runs: invariant_system "\<lambda>_ _. True" "zoom_step ops" "\<lambda>s. middles_inside ops \<and> zoom_ok s" for ops
  by unfold_locales (simp add: zoom_step_ok)

text \<open>
  C37: In exact middle arithmetic, after any zooms, pans and jumps the scale is within the supported
  range and the level is the one of the scale, unless the scale is not a number. A further zoom is
  refused without any change for a zero factor; when the product is not a number it is refused as
  well, but the state has already taken that scale and keeps the old level; otherwise it succeeds.
\<close>
theorem zoom_level_follows_scale:
  assumes "middles_inside ops"
  shows "let s = fold (zoom_step ops) calls new_zoom_state;
             x = fa_mul ops (zs_scale s) delta;
             (r, s') = zoom_by ops delta focal s
         in zoom_ok s \<and>
            (if f64_same delta 0 then r = Inl DeltaIsZero \<and> s' = s
             else if f64_is_nan x
               then r = Inl (ScaleOutOfBounds x) \<and> f64_is_nan (zs_scale s') \<and> zs_level s' = zs_level s
             else r = Inr () \<and> zs_scale s' = f64_clamp SCALE_MIN SCALE_MAX x \<and> zoom_ok s')"
proof -
  define s where "s = fold (zoom_step ops) calls new_zoom_state"
  have "in_range 0x3FF0000000000000 Standard"
    by (simp add: in_range_def f64_le_def f64_lt_def f64_is_nan_def f64_rank_def f64_magnitude_def)
  then have "zoom_ok new_zoom_state"
    using in_range_bounds from_scale_in_range by (simp add: zoom_ok_def new_zoom_state_def)
  then have ok: "zoom_ok s"
    unfolding s_def using assms zoom_runs.run_inv [of ops new_zoom_state calls] by simp
  show ?thesis
    unfolding s_def [symmetric] Let_def
    using ok zoom_by_zero [of delta ops focal s] zoom_by_nan [of delta ops s focal] zoom_by_ok [of delta ops s focal]
    by (cases "f64_same delta 0"; cases "f64_is_nan (fa_mul ops (zs_scale s) delta)") auto
qed

text \<open>An instance of the arithmetic on the numbers of the ranges: 0.03, 0.125, 0.4, 1.3 and 5.\<close>

definition sample_sum :: "f64 \<Rightarrow> f64 \<Rightarrow> f64" where
  "sample_sum x y =
     (if x = 0x3F847AE147AE147B then 0x3FAEB851EB851EB9 else if x = 0x3FA999999999999A then 0x3FD0000000000000
      else if x = 0x3FC999999999999A then 0x3FE999999999999A else if x = 0x3FE3333333333333 then 0x4004CCCCCCCCCCCD
      else 0x4024000000000000)"

definition sample_half :: "f64 \<Rightarrow> f64 \<Rightarrow> f64" where
  "sample_half x y = x - 0x0010000000000000"

definition sample_arith :: float_arith where
  "sample_arith = \<lparr>fa_add = sample_sum, fa_sub = (\<lambda>x y. x), fa_mul = (\<lambda>x y. y), fa_div = sample_half,
     fa_of_u64 = (\<lambda>x. x), fa_round_usize = (\<lambda>x. x), fa_sum = (\<lambda>xs. 0)\<rparr>"

lemma sample_middles: "middles_inside sample_arith"
  by (simp add: middles_inside_def all_levels_def level_middle_def sample_arith_def sample_sum_def sample_half_def
      in_range_def f64_le_def f64_lt_def f64_is_nan_def f64_rank_def f64_magnitude_def)

theorem zoom_level_follows_scale_witness:
  "let s = fold (zoom_step sample_arith) [JumpTo Galaxy (0, 0)] new_zoom_state in zoom_ok s"
  using zoom_level_follows_scale [OF sample_middles, of "[JumpTo Galaxy (0, 0)]" 0 "(0, 0)"]
  by (simp add: Let_def split: prod.splits)

section \<open>Concurrent edits\<close>

definition apply_edits :: "'j edit_operation list \<Rightarrow> 'j conflict_resolver" where
  "apply_edits ops = fold (\<lambda>op s. snd (apply_edit op s)) ops Map.empty"

lemma newer_trans: "newer a b \<Longrightarrow> newer b c \<Longrightarrow> newer a c"
  by (auto simp: newer_def)

lemma not_newer_trans: "\<not> newer a b \<Longrightarrow> \<not> newer b c \<Longrightarrow> \<not> newer a c"
  by (auto simp: newer_def not_less)

lemma newer_asym: "newer a b \<Longrightarrow> \<not> newer b a"
  by (auto simp: newer_def)

lemma newer_total: "\<not> newer a b \<Longrightarrow> \<not> newer b a \<Longrightarrow> eo_op_id a = eo_op_id b"
  by (auto simp: newer_def not_less)

text \<open>The winner of a field: one of the operations on it, with none newer.\<close>

definition wins :: "'j edit_operation set \<Rightarrow> string \<Rightarrow> 'j edit_operation option \<Rightarrow> bool" where
  "wins ops key w =
     (case w of
        None \<Rightarrow> \<forall>op \<in> ops. field_key op \<noteq> key
      | Some op \<Rightarrow> op \<in> ops \<and> field_key op = key \<and> (\<forall>op' \<in> ops. field_key op' = key \<longrightarrow> \<not> newer op' op))"

lemma wins_apply:
  assumes "wins done_ops key (s key)"
  shows "wins (insert op done_ops) key (snd (apply_edit op s) key)"
proof (cases "field_key op = key")
  case True
  show ?thesis
  proof (cases "s key")
    case None
    then show ?thesis using assms True newer_asym by (auto simp: wins_def apply_edit_def)
  next
    case (Some old)
    then show ?thesis
      using assms True newer_asym not_newer_trans [of _ old op] by (auto simp: wins_def apply_edit_def)
  qed
next
  case False
  then have "snd (apply_edit op s) key = s key"
    by (auto simp: apply_edit_def split: option.split)
  then show ?thesis using assms False by (auto simp: wins_def split: option.splits)
qed

lemma wins_fold:
  "\<forall>key. wins done_ops key (s key) \<Longrightarrow>
    wins (done_ops \<union> set ops) key (fold (\<lambda>op s. snd (apply_edit op s)) ops s key)"
proof (induction ops arbitrary: s done_ops)
  case (Cons op ops)
  have "\<forall>key. wins (insert op done_ops) key (snd (apply_edit op s) key)"
    using Cons.prems wins_apply by blast
  then show ?case using Cons.IH by fastforce
qed simp

lemma wins_unique:
  assumes "inj_on eo_op_id ops" and "wins ops key v" and "wins ops key w"
  shows "v = w"
  using assms newer_total by (auto simp: wins_def inj_on_def split: option.splits) blast+

text \<open>
  C28: Concurrent edits converge. If different operations have different identifiers, the accepted
  operations depend only on which operations were delivered, not on their order or repetition; and
  the accepted operation of a field is one on that field than which no other delivered one is newer.
\<close>
theorem edits_converge:
  assumes "inj_on eo_op_id (set ops)" and "set ops' = set ops"
  shows "apply_edits ops' = apply_edits ops \<and>
    (case accepted_op (apply_edits ops) key of
       None \<Rightarrow> filter (\<lambda>op. field_key op = key) ops = []
     | Some op \<Rightarrow> op \<in> set ops \<and> field_key op = key \<and>
         filter (\<lambda>op'. field_key op' = key \<and> newer op' op) ops = [])"
proof -
  have w: "wins (set xs) k (apply_edits xs k)" for xs :: "'a edit_operation list" and k
    using wins_fold [of "{}" Map.empty xs k] by (simp add: apply_edits_def wins_def)
  have "apply_edits ops' k = apply_edits ops k" for k
    using wins_unique [OF assms(1)] w [of ops k] w [of ops' k] assms(2) by simp
  then have "apply_edits ops' = apply_edits ops" by (simp add: fun_eq_iff)
  then show ?thesis
    using w [of ops key] by (auto simp: wins_def accepted_op_def filter_empty_conv split: option.split)
qed

definition sample_edit :: "string \<Rightarrow> u64 \<Rightarrow> nat edit_operation" where
  "sample_edit i at_ms = \<lparr>eo_op_id = i, eo_author = ''ann'', eo_timestamp_ms = at_ms, eo_node_id = ''n'',
     eo_change = MoveTo (new_point 0 0)\<rparr>"

theorem edits_converge_witness:
  "apply_edits [sample_edit ''b'' 1, sample_edit ''a'' 2, sample_edit ''b'' 1] =
     apply_edits [sample_edit ''a'' 2, sample_edit ''b'' 1]"
  using edits_converge [of "[sample_edit ''a'' 2, sample_edit ''b'' 1]"
      "[sample_edit ''b'' 1, sample_edit ''a'' 2, sample_edit ''b'' 1]"]
  by (auto simp: sample_edit_def)

text \<open>The text of a field does not determine the node: edits of different nodes can meet in one field.\<close>

lemma field_keys_collide:
  "field_key \<lparr>eo_op_id = i, eo_author = a, eo_timestamp_ms = t, eo_node_id = ''n:param:x'', eo_change = MoveTo p\<rparr> =
   field_key \<lparr>eo_op_id = j, eo_author = b, eo_timestamp_ms = u, eo_node_id = ''n'',
     eo_change = SetParameter ''x:position'' v\<rparr>"
  by (simp add: field_key_def)

section \<open>Focus\<close>

datatype focus_call = RegisterNode string | UnregisterNode string | NextNode | PreviousNode | ClearFocus

primrec focus_step :: "focus_call \<Rightarrow> focus_manager \<Rightarrow> focus_manager" where
  "focus_step (RegisterNode i) s = register_focus_node i s"
| "focus_step (UnregisterNode i) s = unregister_focus_node i s"
| "focus_step NextNode s = snd (focus_next s)"
| "focus_step PreviousNode s = snd (focus_previous s)"
| "focus_step ClearFocus s = clear_focus s"

definition focus_ok :: "focus_manager \<Rightarrow> bool" where
  "focus_ok s = (case fo_focused s of None \<Rightarrow> True | Some j \<Rightarrow> j < List.length (fo_nodes s))"

lemma position_bound: "position P xs = Some i \<Longrightarrow> i < List.length xs"
  by (drule position_Some) auto

lemma focus_step_ok: "focus_ok s \<Longrightarrow> focus_ok (focus_step c s)"
proof (cases c)
  case (UnregisterNode i)
  then show "focus_ok s \<Longrightarrow> ?thesis"
    using position_bound [of "\<lambda>n. n = i" "fo_nodes s"]
    by (auto simp: unregister_focus_node_def focus_ok_def min_def split: option.splits)
qed (auto simp: register_focus_node_def focus_next_def focus_previous_def clear_focus_def focus_ok_def Let_def
    split: option.splits)

text \<open>The nodes that \<open>k\<close> further calls of \<open>focus_next\<close> visit.\<close>

fun visited :: "nat \<Rightarrow> focus_manager \<Rightarrow> string option list" where
  "visited 0 s = []"
| "visited (Suc k) s = (let (v, s') = focus_next s in v # visited k s')"

definition next_index :: "focus_manager \<Rightarrow> nat" where
  "next_index s = (case fo_focused s of None \<Rightarrow> 0 | Some i \<Rightarrow> (i + 1) mod List.length (fo_nodes s))"

lemma visited_from:
  assumes "fo_nodes s \<noteq> []"
  shows "visited k s =
    map (\<lambda>j. Some (fo_nodes s ! ((next_index s + j) mod List.length (fo_nodes s)))) [0..<k]"
  using assms
proof (induction k arbitrary: s)
  case (Suc k)
  have bound: "next_index s < List.length (fo_nodes s)"
    using Suc.prems by (auto simp: next_index_def split: option.split)
  define s' where "s' = s\<lparr>fo_focused := Some (next_index s)\<rparr>"
  have "focus_next s = (Some (fo_nodes s ! next_index s), s')"
    using Suc.prems bound by (simp add: focus_next_def next_index_def [symmetric] nth_node_def s'_def Let_def)
  moreover have "next_index s' = Suc (next_index s) mod List.length (fo_nodes s)" "fo_nodes s' = fo_nodes s"
    by (simp_all add: s'_def next_index_def)
  ultimately show ?case
    using Suc.IH [of s'] Suc.prems bound by (simp add: map_upt_Suc mod_simps del: upt_Suc)
qed simp

interpretation focus_runs: invariant_system "\<lambda>_ _. True" focus_step focus_ok
  by unfold_locales (rule focus_step_ok)

text \<open>
  After any calls the focus is on a registered node or nowhere. The next calls of focus_next, as
  many as there are nodes, visit each of them once in the order of registration, starting after the
  focused one; a step back undoes a step forward from a focused node; and unregistering a node moves
  the focus only if it removes the very entry in focus.
\<close>
theorem focus_visits_every_node:
  "let s = fold focus_step calls new_focus_manager;
       n = List.length (fo_nodes s);
       s' = unregister_focus_node i s
   in focus_ok s \<and>
      visited n s = map Some (rotate (next_index s) (fo_nodes s)) \<and>
      (if fo_focused s = None then True else snd (focus_previous (snd (focus_next s))) = s) \<and>
      focused_node s' =
        (if fo_focused s = position (\<lambda>x. x = i) (fo_nodes s) then None else focused_node s)"
proof -
  define s where "s = fold focus_step calls new_focus_manager"
  have ok: "focus_ok s" unfolding s_def by (rule focus_runs.run_inv) (simp_all add: focus_ok_def new_focus_manager_def)
  have "visited (List.length (fo_nodes s)) s = map Some (rotate (next_index s) (fo_nodes s))"
  proof (cases "fo_nodes s = []")
    case False
    then show ?thesis
      unfolding visited_from [OF False] by (intro nth_equalityI) (auto simp: nth_rotate)
  qed simp
  moreover have "snd (focus_previous (snd (focus_next s))) = s" if "fo_focused s = Some j" for j
    using that ok
    by (cases s) (auto simp: focus_ok_def focus_next_def focus_previous_def Let_def mod_Suc split: if_splits)
  moreover have "focused_node (unregister_focus_node i s) =
      (if fo_focused s = position (\<lambda>x. x = i) (fo_nodes s) then None else focused_node s)"
    using ok position_bound [of "\<lambda>x. x = i" "fo_nodes s"]
    by (auto simp: focused_node_def unregister_focus_node_def focus_ok_def nth_node_def nth_append min_def
        split: option.splits)
  ultimately show ?thesis
    unfolding s_def [symmetric] Let_def using ok by auto
qed

section \<open>The undo stack and frames\<close>

datatype undo_call = PushEntry undo_entry | UndoEntry | RedoEntry

primrec undo_step :: "undo_call \<Rightarrow> undo_stack \<Rightarrow> undo_stack" where
  "undo_step (PushEntry e) s = push_undo e s"
| "undo_step UndoEntry s = snd (undo_last s)"
| "undo_step RedoEntry s = snd (redo_last s)"

text \<open>A stack without a bound, as a reference.\<close>

primrec unbounded_step :: "undo_call \<Rightarrow> undo_entry list \<times> undo_entry list \<Rightarrow> undo_entry list \<times> undo_entry list" where
  "unbounded_step (PushEntry e) s = (fst s @ [e], [])"
| "unbounded_step UndoEntry s = (if fst s = [] then s else (butlast (fst s), snd s @ [List.last (fst s)]))"
| "unbounded_step RedoEntry s = (if snd s = [] then s else (fst s @ [List.last (snd s)], butlast (snd s)))"

definition undo_bounded :: "undo_stack \<Rightarrow> bool" where
  "undo_bounded s = (List.length (us_undo s) + List.length (us_redo s) \<le> unat (us_capacity s))"

lemma undo_step_bounded:
  assumes "undo_bounded s" and "0 < us_capacity s"
  shows "undo_bounded (undo_step c s) \<and> us_capacity (undo_step c s) = us_capacity s"
proof (cases c)
  case (PushEntry e)
  have "0 < unat (us_capacity s)" using assms(2) by (simp add: unat_gt_0 word_neq_0_conv)
  then show ?thesis
    using assms(1) by (auto simp: PushEntry push_undo_def ring_push_def undo_bounded_def)
next
  case UndoEntry
  show ?thesis using assms(1) by (cases "us_undo s") (auto simp: UndoEntry undo_last_def undo_bounded_def)
next
  case RedoEntry
  show ?thesis using assms(1) by (cases "us_redo s") (auto simp: RedoEntry redo_last_def undo_bounded_def)
qed

interpretation undo_runs: invariant_system "\<lambda>_ _. True" undo_step
    "\<lambda>s. undo_bounded s \<and> us_capacity s = c \<and> 0 < c" for c
  by unfold_locales (use undo_step_bounded in auto)

text \<open>
  A stack with a positive capacity never holds more undo and redo entries together than its
  capacity; undoing and redoing are inverse. With capacity zero nothing is ever dropped.
\<close>
theorem undo_stack_bounded:
  "let s = fold undo_step calls (new_undo_stack c)
   in (if c = 0 then True else List.length (us_undo s) + List.length (us_redo s) \<le> unat c) \<and>
      (if us_undo s = [] then True else snd (redo_last (snd (undo_last s))) = s) \<and>
      (if us_redo s = [] then True else snd (undo_last (snd (redo_last s))) = s) \<and>
      List.length (us_undo (fold push_undo es (new_undo_stack 0))) = List.length es"
proof -
  have grows: "List.length (us_undo (fold push_undo es s)) = List.length (us_undo s) + List.length es \<and>
      us_capacity (fold push_undo es s) = us_capacity s" if "us_capacity s = 0" for s es
    using that
  proof (induction es arbitrary: s)
    case (Cons e es)
    then show ?case using Cons.IH [of "push_undo e s"] by (auto simp: push_undo_def ring_push_def)
  qed simp
  define s where "s = fold undo_step calls (new_undo_stack c)"
  have "List.length (us_undo s) + List.length (us_redo s) \<le> unat c" if "c \<noteq> 0"
    using undo_runs.run_inv [where c = c and s = "new_undo_stack c" and ops = calls] that
    unfolding s_def [symmetric] by (auto simp: undo_bounded_def new_undo_stack_def word_neq_0_conv)
  moreover have "List.length (us_undo (fold push_undo es (new_undo_stack 0))) = List.length es"
    using grows [of "new_undo_stack 0" es] by (simp add: new_undo_stack_def)
  ultimately show ?thesis
    unfolding s_def [symmetric] Let_def by (auto simp: undo_last_def redo_last_def)
qed

text \<open>The monitor keeps the last frames of a positive window, and every frame of the window zero.\<close>

lemma ring_push_window_push:
  "List.length xs \<le> unat n \<Longrightarrow> ring_push n x xs = window_push n x xs"
  by (auto simp: ring_push_def window_push_def)

section \<open>Search\<close>

lemma sort_three:
  fixes f :: "'x \<Rightarrow> int"
  assumes "\<forall>x \<in> set xs. f x \<in> {a, b, c}" and "a < b" "b < c"
  shows "sort_key f xs = filter (\<lambda>x. f x = a) xs @ filter (\<lambda>x. f x = b) xs @ filter (\<lambda>x. f x = c) (xs :: 'x list)"
    (is "_ = ?r")
proof -
  have flip: "(\<lambda>x. k = f x) = (\<lambda>x. f x = k)" for k by (intro ext) blast
  have "filter (\<lambda>x. f x = k) ?r = filter (\<lambda>x. f x = k) xs" for k
    using assms by (cases "k = a"; cases "k = b"; cases "k = c") (auto simp: filter_empty_conv eq_commute [of "[]"])
  then have "filter (\<lambda>x. k = f x) ?r = filter (\<lambda>x. k = f x) xs" for k
    unfolding flip by blast
  moreover have "sorted (map f (filter (\<lambda>x. f x = k) xs))" for k
    by (induction xs) auto
  then have "sorted (map f ?r)" using assms(2,3) by (auto simp: sorted_append)
  moreover have "mset ?r = mset xs"
  proof -
    have "mset ys = mset (filter (\<lambda>x. f x = a) ys) + mset (filter (\<lambda>x. f x = b) ys) + mset (filter (\<lambda>x. f x = c) ys)"
      if "\<forall>x \<in> set ys. f x \<in> {a, b, c}" for ys
      using that assms(2,3) by (induction ys) auto
    note split = this [OF assms(1)]
    have "mset ?r = mset (filter (\<lambda>x. f x = a) xs) + mset (filter (\<lambda>x. f x = b) xs) + mset (filter (\<lambda>x. f x = c) xs)"
      by (simp add: add.assoc)
    also have "\<dots> = mset xs" by (rule split [symmetric])
    finally show ?thesis .
  qed
  ultimately show ?thesis by (intro properties_for_sort_key) blast+
qed

definition search_hits :: "(string \<Rightarrow> string) \<Rightarrow> string \<Rightarrow> search_index \<Rightarrow> search_item list" where
  "search_hits lower raw s =
     (let (scope, query) = scope_from_prefix raw
      in filter (\<lambda>x. kind_matches scope (si_kind x) \<and> text_matches lower (lower query) x) (om_values s))"

text \<open>
  A search returns the matching items of its scope in three groups, each in the order of the
  index: those whose label is the query, then those whose label starts with it, then the others; the
  scores are one, 0.8 and one half, whatever score the items were stored with.
\<close>
theorem search_groups:
  "let hits = search_hits lower raw s;
       q = lower (snd (scope_from_prefix raw));
       exact = (\<lambda>x. lower (si_label x) = q);
       starts = (\<lambda>x. prefix q (lower (si_label x)))
   in search_items lower raw s =
        map (\<lambda>x. x\<lparr>si_score := 0x3F800000\<rparr>) (filter exact hits) @
        map (\<lambda>x. x\<lparr>si_score := 0x3F4CCCCD\<rparr>) (filter (\<lambda>x. starts x \<and> \<not> exact x) hits) @
        map (\<lambda>x. x\<lparr>si_score := 0x3F000000\<rparr>) (filter (\<lambda>x. \<not> starts x) hits)"
proof -
  obtain scope query where p: "scope_from_prefix raw = (scope, query)" by (cases "scope_from_prefix raw")
  define q where "q = lower query"
  define score where "score = (\<lambda>x. x\<lparr>si_score := match_score lower q x\<rparr>)"
  define hits where "hits = search_hits lower raw s"
  have run: "search_items lower raw s = sort_key (\<lambda>x. - int (unat (si_score x))) (map score hits)"
    by (simp add: search_items_def p Let_def q_def score_def hits_def search_hits_def)
  have three: "sort_key (\<lambda>x. - int (unat (si_score x))) (map score hits) =
      filter (\<lambda>x. - int (unat (si_score x)) = - int 0x3F800000) (map score hits) @
      filter (\<lambda>x. - int (unat (si_score x)) = - int 0x3F4CCCCD) (map score hits) @
      filter (\<lambda>x. - int (unat (si_score x)) = - int 0x3F000000) (map score hits)"
    by (rule sort_three) (auto simp: score_def match_score_def)
  have scores: "- int (unat (si_score (score x))) = - int 0x3F800000 \<longleftrightarrow> lower (si_label x) = q"
    "- int (unat (si_score (score x))) = - int 0x3F4CCCCD \<longleftrightarrow> prefix q (lower (si_label x)) \<and> lower (si_label x) \<noteq> q"
    "- int (unat (si_score (score x))) = - int 0x3F000000 \<longleftrightarrow> \<not> prefix q (lower (si_label x))" for x
    by (auto simp: score_def match_score_def)
  have "map score (filter (\<lambda>x. lower (si_label x) = q) hits) =
      map (\<lambda>x. x\<lparr>si_score := 0x3F800000\<rparr>) (filter (\<lambda>x. lower (si_label x) = q) hits)"
    "map score (filter (\<lambda>x. prefix q (lower (si_label x)) \<and> lower (si_label x) \<noteq> q) hits) =
      map (\<lambda>x. x\<lparr>si_score := 0x3F4CCCCD\<rparr>) (filter (\<lambda>x. prefix q (lower (si_label x)) \<and> lower (si_label x) \<noteq> q) hits)"
    "map score (filter (\<lambda>x. \<not> prefix q (lower (si_label x))) hits) =
      map (\<lambda>x. x\<lparr>si_score := 0x3F000000\<rparr>) (filter (\<lambda>x. \<not> prefix q (lower (si_label x))) hits)"
    by (auto simp: score_def match_score_def)
  then show ?thesis
    unfolding run three filter_map comp_def scores Let_def hits_def [symmetric] p snd_conv q_def [symmetric]
    by simp
qed

section \<open>Frames and arrangement\<close>

definition culler_ok :: "performance_budget \<Rightarrow> adaptive_culler \<Rightarrow> bool" where
  "culler_ok b c \<longleftrightarrow>
     ac_budget_max c = fb_max_visible_nodes b \<and> ac_step c = max (fb_max_visible_nodes b div 10) 1 \<and>
     ac_current_max c \<le> fb_max_visible_nodes b"

interpretation culler_runs: invariant_system "\<lambda>_ _. True" adjust_culler "culler_ok b" for b
proof
  fix c and f :: bool
  assume "culler_ok b c"
  then show "culler_ok b (adjust_culler f c)"
    by (cases f) (auto simp: culler_ok_def adjust_culler_def unat_saturating_sub word_le_nat_alt min_def)
qed

text \<open>
  The limit of visible nodes stays within the budget of the level, and eleven frames over the budget
  in a row bring it to zero, whatever it was.
\<close>
theorem culler_within_budget:
  "let b = budget_for_zoom level; c = fold adjust_culler frames (culler_from_budget b)
   in culler_ok b c \<and> ac_current_max (fold adjust_culler (replicate 11 True) c) = 0"
proof -
  let ?b = "budget_for_zoom level"
  have ok: "culler_ok ?b (fold adjust_culler frames (culler_from_budget ?b))"
    by (rule culler_runs.run_inv) (simp_all add: culler_ok_def culler_from_budget_def)
  have down: "unat (ac_current_max (fold adjust_culler (replicate k True) c)) = unat (ac_current_max c) - k * unat (ac_step c) \<and>
      ac_step (fold adjust_culler (replicate k True) c) = ac_step c" for k c
    by (induction k arbitrary: c) (auto simp: adjust_culler_def unat_saturating_sub algebra_simps)
  have "unat (ac_current_max c) \<le> 11 * unat (ac_step c)" if "culler_ok ?b c" for c
    using that by (cases level) (auto simp: culler_ok_def budget_for_zoom_def word_le_nat_alt)
  then have "ac_current_max (fold adjust_culler (replicate 11 True) c) = 0" if "culler_ok ?b c" for c
    using down [of 11 c] that unat_eq_zero by fastforce
  then show ?thesis using ok by (simp add: Let_def del: replicate.simps)
qed

text \<open>Distribution keeps the sizes, but of the sorted nodes: the caller's order is lost.\<close>

lemma place_nodes_sizes:
  "map rc_width (place_nodes ops move_x extent gap cursor rs) = map rc_width rs"
  "map rc_height (place_nodes ops move_x extent gap cursor rs) = map rc_height rs"
  by (induction rs arbitrary: cursor) (simp_all add: move_x_def)

lemma distribute_reorders:
  "case distribute_nodes ops Horizontal [new_rect 0x3FF0000000000000 0 2 2, new_rect 0 0 3 3] of
     Some (Inr rs) \<Rightarrow> map rc_width rs = [3, 2]
   | _ \<Rightarrow> False"
proof -
  have keys: "f64_rank 0 < f64_rank 0x3FF0000000000000" "\<not> f64_is_nan 0" "\<not> f64_is_nan 0x3FF0000000000000"
    by (simp_all add: f64_rank_def f64_is_nan_def f64_magnitude_def)
  show ?thesis
    using keys place_nodes_sizes(1)
    by (simp add: distribute_nodes_def distribute_along_def sort_coordinate_def new_rect_def new_point_def Let_def
        move_x_def)
qed

end
