(* ===== verification/Connectors.thy ===== *)
theory Connectors
  imports Graph_Claims
begin

text \<open>
  The workflow connectors (\<open>connectors.rs\<close>): the catalogue of connector kinds, the ten built-in
  templates with their ports and parameters, the registry and the instantiation of a graph node.

  \<open>PortDef::new\<close> draws a fresh UUID; the templates are built once, in order, so the \<open>n\<close>-th draw
  is \<open>fresh n\<close>. The JSON literals of the defaults are \<open>json_literal\<close> values that the argument
  \<open>json\<close> turns into the JSON type, as \<open>serde_json::json!\<close> does.
\<close>

section \<open>Kinds\<close>

datatype workflow_connector_kind =
    HttpRequest | HttpWebhook | BlockchainRpc | BlockchainSign | DatabaseQuery
  | DatabaseWrite | MlPredict | MlTrain | TradingOrder | TradingMarketData

primrec node_kind :: "workflow_connector_kind \<Rightarrow> string" where
  "node_kind HttpRequest = ''http.request''"
| "node_kind HttpWebhook = ''http.webhook''"
| "node_kind BlockchainRpc = ''blockchain.rpc''"
| "node_kind BlockchainSign = ''blockchain.sign''"
| "node_kind DatabaseQuery = ''db.query''"
| "node_kind DatabaseWrite = ''db.write''"
| "node_kind MlPredict = ''ml.predict''"
| "node_kind MlTrain = ''ml.train''"
| "node_kind TradingOrder = ''trading.order''"
| "node_kind TradingMarketData = ''trading.market_data''"

primrec workflow_display_name :: "workflow_connector_kind \<Rightarrow> string" where
  "workflow_display_name HttpRequest = ''HTTP Request''"
| "workflow_display_name HttpWebhook = ''HTTP Webhook''"
| "workflow_display_name BlockchainRpc = ''Blockchain RPC''"
| "workflow_display_name BlockchainSign = ''Blockchain Sign & Submit''"
| "workflow_display_name DatabaseQuery = ''Database Query''"
| "workflow_display_name DatabaseWrite = ''Database Write''"
| "workflow_display_name MlPredict = ''ML Predict''"
| "workflow_display_name MlTrain = ''ML Train''"
| "workflow_display_name TradingOrder = ''Trading Order''"
| "workflow_display_name TradingMarketData = ''Market Data''"

section \<open>Templates\<close>

record 'j connector_param =
  cp_name :: string
  cp_description :: string
  cp_required :: bool
  cp_default :: "'j option"

definition required_param :: "string \<Rightarrow> string \<Rightarrow> 'j connector_param" where
  "required_param name desc =
     \<lparr>cp_name = name, cp_description = desc, cp_required = True, cp_default = None\<rparr>"

definition optional_param :: "string \<Rightarrow> string \<Rightarrow> 'j \<Rightarrow> 'j connector_param" where
  "optional_param name desc value =
     \<lparr>cp_name = name, cp_description = desc, cp_required = False, cp_default = Some value\<rparr>"

record 'j connector_template =
  ct_kind :: workflow_connector_kind
  ct_node_kind :: string
  ct_display_name :: string
  ct_description :: string
  ct_ports :: "port_def list"
  ct_params :: "'j connector_param list"

definition set_default ::
  "'j connector_param \<Rightarrow> (string \<rightharpoonup> 'j) \<Rightarrow> (string \<rightharpoonup> 'j)" where
  "set_default param m =
     (case cp_default param of None \<Rightarrow> m | Some v \<Rightarrow> m(cp_name param \<mapsto> v))"

definition instantiate_connector ::
  "u64 \<Rightarrow> uuid \<Rightarrow> string \<Rightarrow> 'j connector_template \<Rightarrow> 'j graph_node" where
  "instantiate_connector now fresh_node label t =
     (let node = new_node now fresh_node (ct_node_kind t) label;
          node = fold (\<lambda>port n. after (add_port port n)) (ct_ports t) node
      in node\<lparr>gn_parameters := fold set_default (ct_params t) (gn_parameters node)\<rparr>)"

section \<open>The built-in templates\<close>

datatype json_literal = LText string | LNum nat | LBool bool | LObject

definition http_request :: "(nat \<Rightarrow> uuid) \<Rightarrow> (json_literal \<Rightarrow> 'j) \<Rightarrow> 'j connector_template" where
  "http_request fresh json =
     \<lparr>ct_kind = HttpRequest, ct_node_kind = ''http.request'',
      ct_display_name = ''HTTP Request'',
      ct_description = ''Send an HTTP request and receive the response.'',
      ct_ports =
        [with_description ''Execution trigger''
           (new_port (fresh 0) ''trigger'' In Any),
         with_description ''Optional request body''
           (new_port (fresh 1) ''body'' In Json),
         with_description ''Parsed JSON response''
           (new_port (fresh 2) ''response'' Out Json),
         with_description ''HTTP response status code''
           (new_port (fresh 3) ''status_code'' Out Number),
         with_description ''Error message if request failed''
           (new_port (fresh 4) ''error'' Out String)],
      ct_params =
        [required_param ''url'' ''Request URL'',
         optional_param ''method'' ''HTTP method''
           (json (LText ''GET'')),
         optional_param ''timeout_ms'' ''Request timeout in milliseconds''
           (json (LNum 5000)),
         optional_param ''headers'' ''Additional request headers (JSON object)''
           (json (LObject))]\<rparr>"

definition http_webhook :: "(nat \<Rightarrow> uuid) \<Rightarrow> (json_literal \<Rightarrow> 'j) \<Rightarrow> 'j connector_template" where
  "http_webhook fresh json =
     \<lparr>ct_kind = HttpWebhook, ct_node_kind = ''http.webhook'',
      ct_display_name = ''HTTP Webhook'',
      ct_description = ''Receive incoming HTTP webhook events.'',
      ct_ports =
        [with_description ''Incoming webhook payload''
           (new_port (fresh 5) ''payload'' Out Json),
         with_description ''Incoming HTTP headers''
           (new_port (fresh 6) ''headers'' Out Json),
         with_description ''HTTP method of the incoming request''
           (new_port (fresh 7) ''method'' Out String)],
      ct_params =
        [required_param ''path'' ''Webhook path (e.g. /hooks/my-event)'',
         optional_param ''secret'' ''HMAC signing secret for payload verification''
           (json (LText ''''))]\<rparr>"

definition blockchain_rpc :: "(nat \<Rightarrow> uuid) \<Rightarrow> (json_literal \<Rightarrow> 'j) \<Rightarrow> 'j connector_template" where
  "blockchain_rpc fresh json =
     \<lparr>ct_kind = BlockchainRpc, ct_node_kind = ''blockchain.rpc'',
      ct_display_name = ''Blockchain RPC'',
      ct_description = ''Execute a JSON-RPC call against a blockchain node.'',
      ct_ports =
        [with_description ''Execution trigger''
           (new_port (fresh 8) ''trigger'' In Any),
         with_description ''RPC method parameters array''
           (new_port (fresh 9) ''params'' In Array),
         with_description ''RPC result value''
           (new_port (fresh 10) ''result'' Out Json),
         with_description ''RPC error message, if any''
           (new_port (fresh 11) ''error'' Out String)],
      ct_params =
        [required_param ''rpc_url'' ''Blockchain node RPC endpoint URL'',
         required_param ''method'' ''JSON-RPC method name (e.g. eth_blockNumber)'',
         optional_param ''chain_id'' ''EVM chain ID''
           (json (LNum 1))]\<rparr>"

definition blockchain_sign :: "(nat \<Rightarrow> uuid) \<Rightarrow> (json_literal \<Rightarrow> 'j) \<Rightarrow> 'j connector_template" where
  "blockchain_sign fresh json =
     \<lparr>ct_kind = BlockchainSign, ct_node_kind = ''blockchain.sign'',
      ct_display_name = ''Blockchain Sign & Submit'',
      ct_description = ''Sign and submit a transaction to a blockchain.'',
      ct_ports =
        [port_required (with_description ''Unsigned transaction object''
           (new_port (fresh 12) ''tx_data'' In Json)),
         with_description ''Submitted transaction hash''
           (new_port (fresh 13) ''tx_hash'' Out String),
         with_description ''Transaction receipt (after confirmation)''
           (new_port (fresh 14) ''receipt'' Out Json),
         with_description ''Error message if submission failed''
           (new_port (fresh 15) ''error'' Out String)],
      ct_params =
        [required_param ''rpc_url'' ''Blockchain node RPC endpoint URL'',
         required_param ''key_ref'' ''Reference to the signing key (secret store key name)'',
         optional_param ''wait_confirmations'' ''Number of confirmations to wait for receipt''
           (json (LNum 1))]\<rparr>"

definition database_query :: "(nat \<Rightarrow> uuid) \<Rightarrow> (json_literal \<Rightarrow> 'j) \<Rightarrow> 'j connector_template" where
  "database_query fresh json =
     \<lparr>ct_kind = DatabaseQuery, ct_node_kind = ''db.query'',
      ct_display_name = ''Database Query'',
      ct_description = ''Execute a read query against a database.'',
      ct_ports =
        [with_description ''Execution trigger''
           (new_port (fresh 16) ''trigger'' In Any),
         with_description ''Query parameter bindings''
           (new_port (fresh 17) ''bindings'' In Json),
         with_description ''Result rows as a JSON array''
           (new_port (fresh 18) ''rows'' Out Array),
         with_description ''Number of rows returned''
           (new_port (fresh 19) ''row_count'' Out Number),
         with_description ''Error message if query failed''
           (new_port (fresh 20) ''error'' Out String)],
      ct_params =
        [required_param ''connection_ref'' ''DB connection string reference'',
         required_param ''query'' ''SQL or NoSQL query string'',
         optional_param ''timeout_ms'' ''Query timeout in milliseconds''
           (json (LNum 10000))]\<rparr>"

definition database_write :: "(nat \<Rightarrow> uuid) \<Rightarrow> (json_literal \<Rightarrow> 'j) \<Rightarrow> 'j connector_template" where
  "database_write fresh json =
     \<lparr>ct_kind = DatabaseWrite, ct_node_kind = ''db.write'',
      ct_display_name = ''Database Write'',
      ct_description = ''Execute a write (insert / update / delete) against a database.'',
      ct_ports =
        [with_description ''Execution trigger''
           (new_port (fresh 21) ''trigger'' In Any),
         with_description ''Data payload to write''
           (new_port (fresh 22) ''data'' In Json),
         with_description ''Number of rows affected''
           (new_port (fresh 23) ''affected_rows'' Out Number),
         with_description ''Error message if write failed''
           (new_port (fresh 24) ''error'' Out String)],
      ct_params =
        [required_param ''connection_ref'' ''DB connection string reference'',
         required_param ''statement'' ''SQL or NoSQL write statement'',
         optional_param ''timeout_ms'' ''Write timeout in milliseconds''
           (json (LNum 10000))]\<rparr>"

definition ml_predict :: "(nat \<Rightarrow> uuid) \<Rightarrow> (json_literal \<Rightarrow> 'j) \<Rightarrow> 'j connector_template" where
  "ml_predict fresh json =
     \<lparr>ct_kind = MlPredict, ct_node_kind = ''ml.predict'',
      ct_display_name = ''ML Predict'',
      ct_description = ''Run inference against a registered ML model.'',
      ct_ports =
        [port_required (with_description ''Feature vector / input JSON''
           (new_port (fresh 25) ''features'' In Json)),
         with_description ''Model prediction output''
           (new_port (fresh 26) ''prediction'' Out Json),
         with_description ''Confidence or probability score [0,1]''
           (new_port (fresh 27) ''confidence'' Out Number),
         with_description ''Inference error, if any''
           (new_port (fresh 28) ''error'' Out String)],
      ct_params =
        [required_param ''model_id'' ''Registered model identifier'',
         optional_param ''version'' ''Model version (defaults to latest)''
           (json (LText ''latest'')),
         optional_param ''timeout_ms'' ''Inference timeout in milliseconds''
           (json (LNum 3000))]\<rparr>"

definition ml_train :: "(nat \<Rightarrow> uuid) \<Rightarrow> (json_literal \<Rightarrow> 'j) \<Rightarrow> 'j connector_template" where
  "ml_train fresh json =
     \<lparr>ct_kind = MlTrain, ct_node_kind = ''ml.train'',
      ct_display_name = ''ML Train'',
      ct_description = ''Submit a training job for an ML model.'',
      ct_ports =
        [port_required (with_description ''Artifact ID of the training dataset''
           (new_port (fresh 29) ''dataset_ref'' In String)),
         with_description ''Training configuration overrides''
           (new_port (fresh 30) ''config'' In Json),
         with_description ''Artifact ID of the trained model''
           (new_port (fresh 31) ''model_artifact'' Out String),
         with_description ''Training metrics (loss, accuracy, etc.)''
           (new_port (fresh 32) ''metrics'' Out Json),
         with_description ''Training error, if any''
           (new_port (fresh 33) ''error'' Out String)],
      ct_params =
        [required_param ''model_kind'' ''Type of model to train (e.g. xgboost, transformer)'',
         optional_param ''max_epochs'' ''Maximum number of training epochs''
           (json (LNum 100)),
         optional_param ''gpu_budget'' ''GPU memory budget in MiB (0 = CPU only)''
           (json (LNum 0))]\<rparr>"

definition trading_order :: "(nat \<Rightarrow> uuid) \<Rightarrow> (json_literal \<Rightarrow> 'j) \<Rightarrow> 'j connector_template" where
  "trading_order fresh json =
     \<lparr>ct_kind = TradingOrder, ct_node_kind = ''trading.order'',
      ct_display_name = ''Trading Order'',
      ct_description = ''Submit a trading order (market, limit, or stop).'',
      ct_ports =
        [port_required (with_description ''Trading signal including side, size, and price''
           (new_port (fresh 34) ''signal'' In Json)),
         with_description ''Exchange-assigned order ID''
           (new_port (fresh 35) ''order_id'' Out String),
         with_description ''Fill details (price, quantity, timestamp)''
           (new_port (fresh 36) ''fill'' Out Json),
         with_description ''Order rejection or error''
           (new_port (fresh 37) ''error'' Out String)],
      ct_params =
        [required_param ''exchange_ref'' ''Exchange connection reference'',
         required_param ''symbol'' ''Trading symbol (e.g. BTC-USD)'',
         optional_param ''order_type'' ''Order type: market | limit | stop''
           (json (LText ''market'')),
         optional_param ''paper_mode'' ''Run in paper trading mode''
           (json (LBool True))]\<rparr>"

definition trading_market_data :: "(nat \<Rightarrow> uuid) \<Rightarrow> (json_literal \<Rightarrow> 'j) \<Rightarrow> 'j connector_template" where
  "trading_market_data fresh json =
     \<lparr>ct_kind = TradingMarketData, ct_node_kind = ''trading.market_data'',
      ct_display_name = ''Market Data'',
      ct_description = ''Ingest and normalise market data (OHLCV, tick, order book).'',
      ct_ports =
        [with_description ''Fetch trigger or subscription start''
           (new_port (fresh 38) ''trigger'' In Any),
         with_description ''OHLCV candle array''
           (new_port (fresh 39) ''ohlcv'' Out Array),
         with_description ''Latest traded price''
           (new_port (fresh 40) ''last_price'' Out Number),
         with_description ''Current order book snapshot''
           (new_port (fresh 41) ''order_book'' Out Json),
         with_description ''Data fetch error, if any''
           (new_port (fresh 42) ''error'' Out String)],
      ct_params =
        [required_param ''exchange_ref'' ''Exchange connection reference'',
         required_param ''symbol'' ''Trading symbol (e.g. ETH-USD)'',
         optional_param ''interval'' ''Candle interval (e.g. 1m, 5m, 1h)''
           (json (LText ''1m'')),
         optional_param ''limit'' ''Number of candles to fetch''
           (json (LNum 100))]\<rparr>"

definition built_in_templates ::
  "(nat \<Rightarrow> uuid) \<Rightarrow> (json_literal \<Rightarrow> 'j) \<Rightarrow> 'j connector_template list" where
  "built_in_templates fresh json =
     [http_request fresh json, http_webhook fresh json, blockchain_rpc fresh json,
      blockchain_sign fresh json, database_query fresh json, database_write fresh json,
      ml_predict fresh json, ml_train fresh json, trading_order fresh json,
      trading_market_data fresh json]"

section \<open>The registry\<close>

type_synonym 'j connector_registry = "workflow_connector_kind \<rightharpoonup> 'j connector_template"

definition new_connector_registry ::
  "(nat \<Rightarrow> uuid) \<Rightarrow> (json_literal \<Rightarrow> 'j) \<Rightarrow> 'j connector_registry" where
  "new_connector_registry fresh json =
     fold (\<lambda>t m. m(ct_kind t \<mapsto> t)) (built_in_templates fresh json) Map.empty"

definition get_workflow_connector :: "'j connector_registry \<Rightarrow> workflow_connector_kind \<Rightarrow> 'j connector_template option" where
  "get_workflow_connector reg kind = reg kind"

text \<open>\<open>all\<close> iterates over the values; the order is the hash map's.\<close>

definition all_workflow_connectors :: "'j connector_registry \<Rightarrow> 'j connector_template set" where
  "all_workflow_connectors reg = ran reg"

definition instantiate_kind ::
  "u64 \<Rightarrow> uuid \<Rightarrow> 'j connector_registry \<Rightarrow> workflow_connector_kind \<Rightarrow> string \<Rightarrow> 'j graph_node option" where
  "instantiate_kind now fresh_node reg kind label =
     map_option (instantiate_connector now fresh_node label) (get_workflow_connector reg kind)"

section \<open>What an instance contains\<close>

definition keyed :: "port_def list \<Rightarrow> (uuid \<times> port_def) list" where
  "keyed ports = map (\<lambda>p. (pd_id p, p)) ports"

definition connector_template_ok :: "'j connector_template \<Rightarrow> bool" where
  "connector_template_ok t =
     (distinct (map pd_name (ct_ports t)) \<and> distinct (map pd_id (ct_ports t))
      \<and> distinct (map cp_name (ct_params t))
      \<and> list_all (\<lambda>p. cp_required p = (cp_default p = None)) (ct_params t))"

lemma add_ports_fields:
  "gn_kind (fold (\<lambda>port n. after (add_port port n)) ps n) = gn_kind n"
  "gn_label (fold (\<lambda>port n. after (add_port port n)) ps n) = gn_label n"
  "gn_id (fold (\<lambda>port n. after (add_port port n)) ps n) = gn_id n"
  "gn_parameters (fold (\<lambda>port n. after (add_port port n)) ps n) = gn_parameters n"
  by (induction ps arbitrary: n) (simp_all add: add_port_def)

lemma add_ports:
  assumes "om_ok (gn_ports n)" "distinct (map pd_name ps)" "distinct (map pd_id ps)"
    "pd_name ` set ps \<inter> pd_name ` set (om_values (gn_ports n)) = {}"
    "pd_id ` set ps \<inter> set (om_keys (gn_ports n)) = {}"
  shows "om_ok (gn_ports (fold (\<lambda>port n. after (add_port port n)) ps n))
    \<and> set (gn_ports (fold (\<lambda>port n. after (add_port port n)) ps n)) = set (gn_ports n) \<union> set (keyed ps)"
  using assms
proof (induction ps arbitrary: n)
  case Nil
  then show ?case by (simp add: keyed_def)
next
  case (Cons p ps)
  define n' where "n' = after (add_port p n)"
  have "pd_name p \<notin> pd_name ` set (om_values (gn_ports n))" using Cons.prems(4) by auto
  then have ports: "gn_ports n' = om_insert (pd_id p) p (gn_ports n)"
    by (auto simp: n'_def add_port_def list_ex_iff image_iff)
  have new: "pd_id p \<notin> fst ` set (gn_ports n)" using Cons.prems(5) by auto
  have ok: "om_ok (gn_ports n')" using Cons.prems(1) by (simp add: ports om_insert_ok)
  have "(k, v) \<in> set (gn_ports n') \<longleftrightarrow> (k, v) \<in> insert (pd_id p, p) (set (gn_ports n))" for k v
    using Cons.prems(1) ok new
    by (auto simp: ports om_get_iff [symmetric] om_get_update) (metis fst_conv image_eqI om_get_in_set)
  then have entries: "set (gn_ports n') = insert (pd_id p, p) (set (gn_ports n))" by auto
  have "om_ok (gn_ports (fold (\<lambda>port n. after (add_port port n)) ps n'))
      \<and> set (gn_ports (fold (\<lambda>port n. after (add_port port n)) ps n')) = set (gn_ports n') \<union> set (keyed ps)"
  proof (rule Cons.IH [OF ok])
    show "distinct (map pd_name ps)" "distinct (map pd_id ps)" using Cons.prems by simp_all
    show "pd_name ` set ps \<inter> pd_name ` set (om_values (gn_ports n')) = {}"
      using Cons.prems(2,4) by (force simp: entries image_Un)
    show "pd_id ` set ps \<inter> set (om_keys (gn_ports n')) = {}"
      using Cons.prems(3,5) by (force simp: entries)
  qed
  then show ?case by (simp add: n'_def [symmetric] entries keyed_def)
qed

lemma set_defaults:
  assumes "distinct (map cp_name ps)"
  shows "fold set_default ps m k =
    (case map_of (map (\<lambda>p. (cp_name p, cp_default p)) ps) k of
       Some (Some v) \<Rightarrow> Some v | _ \<Rightarrow> m k)"
  using assms
proof (induction ps arbitrary: m)
  case Nil
  then show ?case by simp
next
  case (Cons p ps)
  have "map_of (map (\<lambda>p. (cp_name p, cp_default p)) ps) (cp_name p) = None"
    using Cons.prems by (auto simp: map_of_eq_None_iff)
  then show ?case using Cons by (auto simp: set_default_def split: option.split)
qed

lemma instantiate_spec:
  fixes t :: "'j connector_template" and now n label
  assumes "connector_template_ok t"
  defines "node \<equiv> instantiate_connector now n label t"
  shows "gn_id node = n" "gn_kind node = ct_node_kind t" "gn_label node = label"
    "om_ok (gn_ports node)" "set (gn_ports node) = set (keyed (ct_ports t))"
    "list_all (\<lambda>p. gn_parameters node (cp_name p) = cp_default p) (ct_params t)"
    "dom (gn_parameters node) \<subseteq> cp_name ` set (ct_params t)"
proof -
  let ?n = "new_node now n (ct_node_kind t) label :: 'j graph_node"
  note params = set_defaults [of "ct_params t" Map.empty]
  have empty: "gn_ports ?n = []" "gn_parameters ?n = Map.empty" by (simp_all add: new_node_def)
  show "gn_id node = n" "gn_kind node = ct_node_kind t" "gn_label node = label"
    by (simp_all add: node_def instantiate_connector_def Let_def add_ports_fields new_node_def)
  have ports: "gn_ports node = gn_ports (fold (\<lambda>port n. after (add_port port n)) (ct_ports t) ?n)"
    by (simp add: node_def instantiate_connector_def Let_def)
  have "om_ok (gn_ports node) \<and> set (gn_ports node) = set (gn_ports ?n) \<union> set (keyed (ct_ports t))"
    unfolding ports by (rule add_ports) (use assms(1) in \<open>simp_all add: connector_template_ok_def empty\<close>)
  then show "om_ok (gn_ports node)" "set (gn_ports node) = set (keyed (ct_ports t))"
    by (simp_all add: empty)
  have ps: "gn_parameters node = fold set_default (ct_params t) Map.empty"
    by (simp add: node_def instantiate_connector_def Let_def add_ports_fields empty)
  have dist: "distinct (map cp_name (ct_params t))" using assms(1) by (simp add: connector_template_ok_def)
  have "map_of (map (\<lambda>p. (cp_name p, cp_default p)) (ct_params t)) (cp_name p) = Some (cp_default p)"
    if "p \<in> set (ct_params t)" for p
    by (rule map_of_is_SomeI) (use dist that in \<open>simp_all add: comp_def\<close>)
  then show "list_all (\<lambda>p. gn_parameters node (cp_name p) = cp_default p) (ct_params t)"
    by (auto simp: list_all_iff ps params [OF dist] split: option.split)
  show "dom (gn_parameters node) \<subseteq> cp_name ` set (ct_params t)"
    by (auto simp: ps params [OF dist] dest!: map_of_SomeD split: option.splits)
qed

lemmas builtin_defs = http_request_def http_webhook_def blockchain_rpc_def blockchain_sign_def
  database_query_def database_write_def ml_predict_def ml_train_def trading_order_def
  trading_market_data_def

lemma builtin_kinds: "map ct_kind (built_in_templates fresh json) =
    [HttpRequest, HttpWebhook, BlockchainRpc, BlockchainSign, DatabaseQuery, DatabaseWrite,
     MlPredict, MlTrain, TradingOrder, TradingMarketData]"
  by (simp add: built_in_templates_def builtin_defs)

lemma builtin_names:
  "list_all (\<lambda>t. ct_node_kind t = node_kind (ct_kind t)
     \<and> ct_display_name t = workflow_display_name (ct_kind t)) (built_in_templates fresh json)"
  by (simp add: built_in_templates_def builtin_defs)

lemma registry_lookup:
  "distinct (map ct_kind ts) \<Longrightarrow>
     fold (\<lambda>t m. m(ct_kind t \<mapsto> t)) ts m k =
       (case map_of (map (\<lambda>t. (ct_kind t, t)) ts) k of None \<Rightarrow> m k | Some t \<Rightarrow> Some t)"
proof (induction ts arbitrary: m)
  case Nil
  then show ?case by simp
next
  case (Cons t ts)
  then have "map_of (map (\<lambda>t. (ct_kind t, t)) ts) (ct_kind t) = None"
    by (auto simp: map_of_eq_None_iff)
  with Cons show ?case by (auto split: option.split)
qed

lemma registered:
  obtains t where "get_workflow_connector (new_connector_registry fresh json) kind = Some t"
    "t \<in> set (built_in_templates fresh json)" "ct_kind t = kind"
proof -
  let ?ts = "built_in_templates fresh json"
  have dist: "distinct (map ct_kind ?ts)" by (simp add: builtin_kinds)
  have "kind \<in> set (map ct_kind ?ts)" unfolding builtin_kinds by (cases kind) simp_all
  then obtain t where t: "map_of (map (\<lambda>t. (ct_kind t, t)) ?ts) kind = Some t"
    by (cases "map_of (map (\<lambda>t. (ct_kind t, t)) ?ts) kind") (force simp: map_of_eq_None_iff)+
  from map_of_SomeD [OF t] have "t \<in> set ?ts" "ct_kind t = kind" by auto
  moreover have "get_workflow_connector (new_connector_registry fresh json) kind = Some t"
    by (simp add: get_workflow_connector_def new_connector_registry_def registry_lookup [OF dist] t)
  ultimately show thesis by (rule that [rotated])
qed

text \<open>Each template is well formed as soon as its port identifiers are distinct.\<close>

lemmas port_fields = with_description_def port_required_def new_port_def

lemma builtin_ports:
  "concat (map (map pd_id \<circ> ct_ports) (built_in_templates fresh json)) = map fresh [0..<43]"
  by (simp add: built_in_templates_def builtin_defs port_fields upt_rec eval_nat_numeral)

lemma builtin_distinct_names:
  "list_all (\<lambda>t. distinct (map pd_name (ct_ports t)) \<and> distinct (map cp_name (ct_params t))
      \<and> list_all (\<lambda>p. cp_required p = (cp_default p = None)) (ct_params t))
     (built_in_templates fresh json)"
  by (simp add: built_in_templates_def builtin_defs port_fields required_param_def optional_param_def)

lemma builtin_ok:
  assumes "inj_on fresh {..<43}" "t \<in> set (built_in_templates fresh json)"
  shows "connector_template_ok t"
proof -
  have "distinct (map fresh [0..<43])"
    using assms(1) by (simp add: distinct_map lessThan_atLeast0)
  then have "distinct (concat (map (map pd_id \<circ> ct_ports) (built_in_templates fresh json)))"
    by (simp only: builtin_ports)
  then have "distinct (map pd_id (ct_ports t))"
    using assms(2) by (auto simp: distinct_concat_iff)
  then show ?thesis
    using builtin_distinct_names [of fresh json] assms(2) by (auto simp: connector_template_ok_def list_all_iff)
qed

section \<open>Properties\<close>

text \<open>The registry holds a template for every connector kind, named as the kind prescribes. When
  the port identifiers drawn for the templates are distinct, a node instantiated from a kind has
  exactly the template's ports under their identifiers, none lost to a duplicate name, the default
  of every optional parameter, no value for a required one, and no other parameter.\<close>

theorem connectors_instantiate:
  assumes "inj_on fresh {..<43}"
  shows "let reg = new_connector_registry fresh json in
    case (get_workflow_connector reg kind, instantiate_kind now n reg kind label) of
      (Some t, Some node) \<Rightarrow>
        ct_kind t = kind \<and> ct_node_kind t = node_kind kind
        \<and> ct_display_name t = workflow_display_name kind
        \<and> gn_id node = n \<and> gn_kind node = node_kind kind \<and> gn_label node = label
        \<and> om_ok (gn_ports node) \<and> set (gn_ports node) = set (keyed (ct_ports t))
        \<and> distinct (map pd_name (ct_ports t))
        \<and> list_all (\<lambda>p. gn_parameters node (cp_name p) = (if cp_required p then None else cp_default p))
            (ct_params t)
        \<and> dom (gn_parameters node) \<subseteq> cp_name ` set (ct_params t)
    | _ \<Rightarrow> False"
proof -
  obtain t where t: "get_workflow_connector (new_connector_registry fresh json) kind = Some t"
    "t \<in> set (built_in_templates fresh json)" "ct_kind t = kind"
    by (rule registered)
  have ok: "connector_template_ok t" using assms t(2) by (rule builtin_ok)
  note inst = instantiate_spec [OF ok, of now n label]
  have "ct_node_kind t = node_kind kind" "ct_display_name t = workflow_display_name kind"
    using builtin_names [of fresh json] t(2,3) by (auto simp: list_all_iff)
  moreover have "distinct (map pd_name (ct_ports t))"
    "list_all (\<lambda>p. cp_required p = (cp_default p = None)) (ct_params t)"
    using ok by (simp_all add: connector_template_ok_def)
  ultimately show ?thesis
    using inst t by (auto simp: Let_def instantiate_kind_def list_all_iff)
qed

theorem connectors_instantiate_witness:
  "case instantiate_kind 0 (99 :: uuid) (new_connector_registry of_nat (\<lambda>_. ())) MlTrain ''train'' of
     None \<Rightarrow> False | Some node \<Rightarrow> gn_id node = 99"
proof -
  have "inj_on (of_nat :: nat \<Rightarrow> uuid) {..<43}"
    by (rule inj_onI) (auto simp: word_of_nat_eq_iff take_bit_nat_eq_self)
  from connectors_instantiate [OF this, where json = "\<lambda>_. ()" and kind = MlTrain and now = 0
      and n = 99 and label = "''train''"] show ?thesis
    by (auto simp: Let_def split: option.splits)
qed

text \<open>Two instances of a template share their port identifiers, although a port identifier is
  documented as unique.\<close>

lemma add_ports_only:
  "gn_ports (fold (\<lambda>port n. after (add_port port n)) ps a) =
     fold (\<lambda>p m. if list_ex (\<lambda>q. pd_name q = pd_name p) (om_values m) then m
              else om_insert (pd_id p) p m) ps (gn_ports a)"
  by (induction ps arbitrary: a) (simp_all add: add_port_def)

lemma instances_share_ports:
  "gn_ports (instantiate_connector now n label t) = gn_ports (instantiate_connector now' n' label' t)"
  by (simp add: instantiate_connector_def Let_def new_node_def add_ports_only)

end
