(* ===== verification/Interfaces.thy ===== *)
theory Interfaces
  imports Mesh_Schema Orchestrator Registry Mesh_Ops Graph_Validate
begin

text \<open>
  The value types and the published versions of \<open>ify-interfaces\<close>, then the
  stable traits of \<open>ify-interfaces\<close> and their implementations in
  \<open>ify-controller/src/interfaces.rs\<close>. A trait is a locale: its methods are the parameters and the
  contract its documentation publishes is what is assumed, so a client written against the trait
  is a lemma of the locale. Each \<open>impl\<close> block is a group of definitions over the component's
  model and an interpretation of the trait's locale; the interpretations are in
  \<open>Interface_Claims\<close>. \<open>subscribe\<close> hands out a tokio receiver and is not modelled; the
  \<open>debug!\<close> trace, the only use of a submission's priority and payload, is not either.
\<close>

text \<open>
  The published interface versions of \<open>ify-interfaces\<close> (\<open>versioning.rs\<close>) and the value types
  its traits exchange (\<open>mesh.rs\<close>, \<open>event_bus.rs\<close>, \<open>editor.rs\<close>). The derived ordering of
  \<open>InterfaceVersion\<close> is lexicographic in the field order; the model instantiates the order
  classes with it and relates the hand-written compatibility test to it.
\<close>

section \<open>Versions\<close>

datatype interface_version =
  InterfaceVersion (iv_major: u32) (iv_minor: u32) (iv_patch: u32)

definition version_is_compatible_with :: "interface_version \<Rightarrow> interface_version \<Rightarrow> bool" where
  "version_is_compatible_with self other =
     (if iv_major self \<noteq> iv_major other then False
      else if iv_minor other > iv_minor self then True
      else if iv_minor other < iv_minor self then False
      else iv_patch other \<ge> iv_patch self)"

definition show_version :: "interface_version \<Rightarrow> string" where
  "show_version v =
     show_nat (unat (iv_major v)) @ ''.'' @ show_nat (unat (iv_minor v)) @ ''.''
       @ show_nat (unat (iv_patch v))"

definition EVENT_BUS_API_VERSION :: interface_version where
  "EVENT_BUS_API_VERSION = InterfaceVersion 1 0 0"

definition MESH_ARTIFACT_API_VERSION :: interface_version where
  "MESH_ARTIFACT_API_VERSION = InterfaceVersion 1 0 0"

definition NODE_EXECUTION_API_VERSION :: interface_version where
  "NODE_EXECUTION_API_VERSION = InterfaceVersion 1 0 0"

definition EDITOR_INTEGRATION_API_VERSION :: interface_version where
  "EDITOR_INTEGRATION_API_VERSION = InterfaceVersion 1 0 0"

text \<open>The derived \<open>PartialOrd\<close> and \<open>Ord\<close>: major, then minor, then patch.\<close>

definition version_le :: "interface_version \<Rightarrow> interface_version \<Rightarrow> bool" where
  "version_le v w = (iv_major v < iv_major w \<or> (iv_major v = iv_major w \<and>
      (iv_minor v < iv_minor w \<or> (iv_minor v = iv_minor w \<and> iv_patch v \<le> iv_patch w))))"

definition version_less :: "interface_version \<Rightarrow> interface_version \<Rightarrow> bool" where
  "version_less v w = (iv_major v < iv_major w \<or> (iv_major v = iv_major w \<and>
      (iv_minor v < iv_minor w \<or> (iv_minor v = iv_minor w \<and> iv_patch v < iv_patch w))))"

instantiation interface_version :: linorder
begin

definition less_eq_interface_version :: "interface_version \<Rightarrow> interface_version \<Rightarrow> bool" where
  "v \<le> w = version_le v w"

definition less_interface_version :: "interface_version \<Rightarrow> interface_version \<Rightarrow> bool" where
  "v < w = version_less v w"

instance
proof
  note order_defs = less_eq_interface_version_def less_interface_version_def version_le_def version_less_def
  fix u v w :: interface_version
  show "(v < w) = (v \<le> w \<and> \<not> w \<le> v)" by (auto simp: order_defs)
  show "v \<le> v" by (simp add: order_defs)
  show "u \<le> v \<Longrightarrow> v \<le> w \<Longrightarrow> u \<le> w" by (auto simp: order_defs)
  show "v \<le> w \<Longrightarrow> w \<le> v \<Longrightarrow> v = w" by (cases v; cases w) (auto simp: order_defs)
  show "v \<le> w \<or> w \<le> v" by (auto simp: order_defs)
qed

end

section \<open>Values the traits exchange\<close>

datatype immutability_tier = Ephemeral | Session | Persistent

text \<open>The discriminant the \<open>repr(u8)\<close> attribute fixes.\<close>

primrec tier_code :: "immutability_tier \<Rightarrow> u8" where
  "tier_code Ephemeral = 0"
| "tier_code Session = 1"
| "tier_code Persistent = 2"

record artifact_provenance_ref =
  apr_producing_task_id :: task_id
  apr_producing_node_id :: "uuid option"
  apr_schema_version :: string

datatype orchestrator_event_kind =
    KSubmitted | KProgress | KCompleted | KFailed | KCancelled

text \<open>The names \<open>rename_all = "snake_case"\<close> gives the variants on the wire.\<close>

primrec event_kind_name :: "orchestrator_event_kind \<Rightarrow> string" where
  "event_kind_name KSubmitted = ''submitted''"
| "event_kind_name KProgress = ''progress''"
| "event_kind_name KCompleted = ''completed''"
| "event_kind_name KFailed = ''failed''"
| "event_kind_name KCancelled = ''cancelled''"

record editor_ref =
  er_id :: uuid
  er_dimension_id :: dimension_id
  er_language :: string

record interpreter_ref =
  ir_id :: uuid
  ir_interpreter_type :: string

record runtime_handle =
  rh_id :: uuid
  rh_task_id :: task_id
  rh_executor_endpoint :: string

section \<open>Lemmas\<close>

lemma compatible_iff:
  "version_is_compatible_with v w \<longleftrightarrow> iv_major v = iv_major w \<and> v \<le> w"
  by (auto simp: version_is_compatible_with_def less_eq_interface_version_def version_le_def)

lemma show_version_pieces:
  "map parse_u32 (split_on (CHR ''.'') (show_version v)) =
     [Some (iv_major v), Some (iv_minor v), Some (iv_patch v)]"
proof -
  have "split_on (CHR ''.'') (show_version v) =
      [show_nat (unat (iv_major v)), show_nat (unat (iv_minor v)), show_nat (unat (iv_patch v))]"
    by (simp add: show_version_def split_on_append split_on_none no_dot_in_number)
  moreover have "parse_u32 (show_nat (unat w)) = Some w" for w :: u32
    using parse_u32_show [of "unat w"] unsigned_less [of w] by simp
  ultimately show ?thesis by simp
qed

lemma show_version_inject: "show_version v = show_version w \<longleftrightarrow> v = w"
proof
  assume "show_version v = show_version w"
  then have "[Some (iv_major v), Some (iv_minor v), Some (iv_patch v)] =
      [Some (iv_major w), Some (iv_minor w), Some (iv_patch w)]"
    by (metis show_version_pieces)
  then show "v = w" by (intro interface_version.expand) simp
qed simp

section \<open>Properties\<close>

text \<open>Compatibility is the derived version order restricted to one major version: a provider is
  accepted exactly when its major version is the consumer's and it is not older. The text of a
  version gives its three numbers back, so different versions never print alike.\<close>

theorem compatibility_is_version_order:
  "version_is_compatible_with v w = (iv_major v = iv_major w \<and> v \<le> w)
   \<and> map parse_u32 (split_on (CHR ''.'') (show_version v)) =
       [Some (iv_major v), Some (iv_minor v), Some (iv_patch v)]
   \<and> (show_version v = show_version w) = (v = w)"
  by (simp add: compatible_iff show_version_pieces show_version_inject)

section \<open>The event bus: ActionLog\<close>

definition bus_append :: "'j action_log_entry \<Rightarrow> 'j action_log \<Rightarrow> 'j action_log" where
  "bus_append entry l = append_log entry l"

definition bus_entries_for_dimension ::
  "'j action_log \<Rightarrow> dimension_id \<Rightarrow> 'j action_log_entry list" where
  "bus_entries_for_dimension l dim = entries_for_dimension l dim"

definition bus_entries_for_task :: "'j action_log \<Rightarrow> task_id \<Rightarrow> 'j action_log_entry list" where
  "bus_entries_for_task l task_id = entries_for_task l task_id"

definition bus_all_entries :: "'j action_log \<Rightarrow> 'j action_log_entry list" where
  "bus_all_entries l = all_entries l"

definition bus_len :: "'j action_log \<Rightarrow> nat" where
  "bus_len l = log_len l"

text \<open>The trait's default method.\<close>

definition bus_is_empty :: "'j action_log \<Rightarrow> bool" where
  "bus_is_empty l = (bus_len l = 0)"

locale event_bus =
  fixes publish :: "'x \<Rightarrow> 's \<Rightarrow> 's"
    and history :: "'s \<Rightarrow> 'x list"
    and of_dimension of_task :: "'s \<Rightarrow> uuid \<Rightarrow> 'x list"
    and size_of :: "'s \<Rightarrow> nat"
    and dim_of task_of :: "'x \<Rightarrow> uuid option"
  assumes history_publish: "history (publish x s) = history s @ [x]"
    and scoped_dimension: "of_dimension s d = filter (\<lambda>x. dim_of x = Some d) (history s)"
    and scoped_task: "of_task s t = filter (\<lambda>x. task_of x = Some t) (history s)"
    and sized: "size_of s = List.length (history s)"
begin

lemma written_run: "history (fold publish xs s) = history s @ xs"
  by (induction xs arbitrary: s) (simp_all add: history_publish)

lemma dimension_run:
  "of_dimension (fold publish xs s) d = of_dimension s d @ filter (\<lambda>x. dim_of x = Some d) xs"
  by (simp add: scoped_dimension written_run)

lemma task_run:
  "of_task (fold publish xs s) t = of_task s t @ filter (\<lambda>x. task_of x = Some t) xs"
  by (simp add: scoped_task written_run)

lemma size_run: "size_of (fold publish xs s) = size_of s + List.length xs"
  by (simp add: sized written_run)

end

section \<open>The orchestrator bus, the executor and the reporter: LocalOrchestrator\<close>

definition bus_submit ::
  "(uuid \<Rightarrow> string) \<Rightarrow> env \<Rightarrow> task_id \<Rightarrow> dimension_id \<Rightarrow> u8 \<Rightarrow> 'j \<Rightarrow> 'j orchestrator
     \<Rightarrow> (orchestrator_error, unit, 'j orchestrator) outcome" where
  "bus_submit to_str e task_id dimension_id priority payload s =
     orch_submit to_str e task_id dimension_id s"

definition bus_progress ::
  "(uuid \<Rightarrow> string) \<Rightarrow> env \<Rightarrow> task_id \<Rightarrow> u8 \<Rightarrow> string \<Rightarrow> 'j orchestrator
     \<Rightarrow> (orchestrator_error, unit, 'j orchestrator) outcome" where
  "bus_progress to_str e task_id percent message s = orch_progress to_str e task_id percent message s"

definition bus_complete ::
  "(uuid \<Rightarrow> string) \<Rightarrow> env \<Rightarrow> task_id \<Rightarrow> 'j orchestrator
     \<Rightarrow> (orchestrator_error, unit, 'j orchestrator) outcome" where
  "bus_complete to_str e task_id s = orch_complete to_str e task_id s"

definition bus_fail ::
  "(uuid \<Rightarrow> string) \<Rightarrow> env \<Rightarrow> task_id \<Rightarrow> string \<Rightarrow> 'j orchestrator
     \<Rightarrow> (orchestrator_error, unit, 'j orchestrator) outcome" where
  "bus_fail to_str e task_id error s = orch_fail to_str e task_id error s"

definition bus_cancel ::
  "(uuid \<Rightarrow> string) \<Rightarrow> env \<Rightarrow> task_id \<Rightarrow> 'j orchestrator
     \<Rightarrow> (orchestrator_error, unit, 'j orchestrator) outcome" where
  "bus_cancel to_str e task_id s = orch_cancel to_str e task_id s"

definition bus_replay ::
  "(uuid \<Rightarrow> string) \<Rightarrow> env \<Rightarrow> task_id \<Rightarrow> 'j orchestrator
     \<Rightarrow> (orchestrator_error, orchestrator_event list, 'j orchestrator) outcome" where
  "bus_replay to_str e task_id s = orch_replay to_str e task_id s"

definition executor_submit ::
  "(uuid \<Rightarrow> string) \<Rightarrow> env \<Rightarrow> task_id \<Rightarrow> dimension_id \<Rightarrow> u8 \<Rightarrow> 'j \<Rightarrow> 'j orchestrator
     \<Rightarrow> (orchestrator_error, unit, 'j orchestrator) outcome" where
  "executor_submit to_str e task_id dimension_id priority payload s =
     orch_submit to_str e task_id dimension_id s"

definition executor_cancel ::
  "(uuid \<Rightarrow> string) \<Rightarrow> env \<Rightarrow> task_id \<Rightarrow> 'j orchestrator
     \<Rightarrow> (orchestrator_error, unit, 'j orchestrator) outcome" where
  "executor_cancel to_str e task_id s = orch_cancel to_str e task_id s"

definition reporter_progress ::
  "(uuid \<Rightarrow> string) \<Rightarrow> env \<Rightarrow> task_id \<Rightarrow> u8 \<Rightarrow> string \<Rightarrow> 'j orchestrator
     \<Rightarrow> (orchestrator_error, unit, 'j orchestrator) outcome" where
  "reporter_progress to_str e task_id percent message s =
     orch_progress to_str e task_id percent message s"

definition reporter_complete ::
  "(uuid \<Rightarrow> string) \<Rightarrow> env \<Rightarrow> task_id \<Rightarrow> 'j orchestrator
     \<Rightarrow> (orchestrator_error, unit, 'j orchestrator) outcome" where
  "reporter_complete to_str e task_id s = orch_complete to_str e task_id s"

definition reporter_fail ::
  "(uuid \<Rightarrow> string) \<Rightarrow> env \<Rightarrow> task_id \<Rightarrow> string \<Rightarrow> 'j orchestrator
     \<Rightarrow> (orchestrator_error, unit, 'j orchestrator) outcome" where
  "reporter_fail to_str e task_id error_message s = orch_fail to_str e task_id error_message s"

definition reporter_cancel ::
  "(uuid \<Rightarrow> string) \<Rightarrow> env \<Rightarrow> task_id \<Rightarrow> 'j orchestrator
     \<Rightarrow> (orchestrator_error, unit, 'j orchestrator) outcome" where
  "reporter_cancel to_str e task_id s = orch_cancel to_str e task_id s"

text \<open>The calls of the three traits, as one alphabet.\<close>

datatype 'j trait_call =
    TSubmit task_id dimension_id u8 'j
  | TProgress task_id u8 string
  | TComplete task_id
  | TFail task_id string
  | TCancel task_id

primrec call_task :: "'j trait_call \<Rightarrow> task_id" where
  "call_task (TSubmit t d p j) = t"
| "call_task (TProgress t p m) = t"
| "call_task (TComplete t) = t"
| "call_task (TFail t m) = t"
| "call_task (TCancel t) = t"

primrec is_terminal_call :: "'j trait_call \<Rightarrow> bool" where
  "is_terminal_call (TSubmit t d p j) = False"
| "is_terminal_call (TProgress t p m) = False"
| "is_terminal_call (TComplete t) = True"
| "is_terminal_call (TFail t m) = True"
| "is_terminal_call (TCancel t) = True"

primrec is_submit_call :: "'j trait_call \<Rightarrow> bool" where
  "is_submit_call (TSubmit t d p j) = True"
| "is_submit_call (TProgress t p m) = False"
| "is_submit_call (TComplete t) = False"
| "is_submit_call (TFail t m) = False"
| "is_submit_call (TCancel t) = False"

fun trait_do ::
  "(uuid \<Rightarrow> string) \<Rightarrow> env \<times> 'j trait_call \<Rightarrow> 'j orchestrator
     \<Rightarrow> (orchestrator_error, unit, 'j orchestrator) outcome" where
  "trait_do to_str (e, TSubmit t d p j) s = executor_submit to_str e t d p j s"
| "trait_do to_str (e, TProgress t p m) s = reporter_progress to_str e t p m s"
| "trait_do to_str (e, TComplete t) s = reporter_complete to_str e t s"
| "trait_do to_str (e, TFail t m) s = reporter_fail to_str e t m s"
| "trait_do to_str (e, TCancel t) s = reporter_cancel to_str e t s"

text \<open>
  What \<open>NodeReporterApi\<close> promises: a terminal call that succeeds ends the task; on a task that
  has ended, every report is refused and changes nothing; only a submission reopens one.
\<close>

locale task_reporter =
  fixes report :: "'c \<Rightarrow> 's \<Rightarrow> ('e + unit) \<times> 's"
    and ended :: "'s \<Rightarrow> uuid \<Rightarrow> bool"
    and subject :: "'c \<Rightarrow> uuid"
    and terminal opens :: "'c \<Rightarrow> bool"
  assumes terminal_ends:
      "terminal c \<Longrightarrow> fst (report c s) = Inr () \<Longrightarrow> ended (snd (report c s)) (subject c)"
    and ended_refuses:
      "ended s (subject c) \<Longrightarrow> \<not> opens c \<Longrightarrow>
         (\<exists>err. fst (report c s) = Inl err) \<and> snd (report c s) = s"
    and ended_kept:
      "ended s t \<Longrightarrow> subject c \<noteq> t \<Longrightarrow> ended (snd (report c s)) t"
    and terminal_no_open: "terminal c \<Longrightarrow> \<not> opens c"
begin

definition run :: "'c list \<Rightarrow> 's \<Rightarrow> 's" where
  "run cs s = fold (\<lambda>c s. snd (report c s)) cs s"

lemma ended_step: "ended s t \<Longrightarrow> \<not> (opens c \<and> subject c = t) \<Longrightarrow> ended (snd (report c s)) t"
  by (cases "subject c = t") (use ended_refuses ended_kept in auto)

lemma ended_run:
  "ended s t \<Longrightarrow> list_all (\<lambda>c. \<not> (opens c \<and> subject c = t)) cs \<Longrightarrow> ended (run cs s) t"
  by (induction cs arbitrary: s) (auto simp: run_def intro: ended_step)

text \<open>The second terminal call is an error and a no-op, whatever happens in between.\<close>

lemma terminal_once:
  assumes "terminal c" "fst (report c s) = Inr ()" "terminal c'" "subject c' = subject c"
    and "list_all (\<lambda>k. \<not> (opens k \<and> subject k = subject c)) cs"
  shows "(\<exists>err. fst (report c' (run cs (snd (report c s)))) = Inl err)
    \<and> snd (report c' (run cs (snd (report c s)))) = run cs (snd (report c s))"
proof -
  have "ended (run cs (snd (report c s))) (subject c')"
    using assms by (auto intro: ended_run terminal_ends)
  then show ?thesis using assms(3) by (intro ended_refuses terminal_no_open)
qed

end

section \<open>The artifact mesh: MeshArtifactStore\<close>

definition mesh_api_produce ::
  "env \<Rightarrow> 'j mesh_artifact \<Rightarrow> 'j mesh_store \<Rightarrow> artifact_id \<times> 'j mesh_store" where
  "mesh_api_produce e artifact s = produce e artifact s"

definition mesh_api_consume ::
  "env \<Rightarrow> artifact_id \<Rightarrow> 'j mesh_store \<Rightarrow> (mesh_error, 'j mesh_artifact, 'j mesh_store) outcome" where
  "mesh_api_consume e i s = consume e i s"

definition mesh_api_snapshot_node ::
  "env \<Rightarrow> artifact_id \<Rightarrow> dimension_id \<Rightarrow> task_id \<Rightarrow> uuid \<Rightarrow> 'j \<Rightarrow> 'j mesh_store
     \<Rightarrow> artifact_id \<times> 'j mesh_store" where
  "mesh_api_snapshot_node e fresh dimension_id task_id node_id content s =
     snapshot_node e fresh node_id content task_id dimension_id s"

definition mesh_api_get_snapshot ::
  "'j mesh_store \<Rightarrow> artifact_id \<Rightarrow> mesh_error + 'j node_snapshot" where
  "mesh_api_get_snapshot s i = get_snapshot s i"

text \<open>
  \<open>parse_ops\<close> is serde's reading of a JSON value as a list of patch operations and \<open>json_null\<close>
  is \<open>Value::Null\<close>; a value that does not parse is stored with no operations.
\<close>

definition mesh_api_patch ::
  "('j \<Rightarrow> 'j patch_op list option) \<Rightarrow> 'j \<Rightarrow> env \<Rightarrow> artifact_id \<Rightarrow> dimension_id \<Rightarrow> task_id \<Rightarrow> uuid
     \<Rightarrow> 'j \<Rightarrow> 'j mesh_store \<Rightarrow> artifact_id \<times> 'j mesh_store" where
  "mesh_api_patch parse_ops json_null e fresh dimension_id task_id node_id ops s =
     (let (pre, post, patch_ops) =
            (case parse_ops ops of
               Some deserialized \<Rightarrow> (json_null, ops, deserialized)
             | None \<Rightarrow> (json_null, ops, []))
      in mesh_patch e fresh node_id pre post patch_ops task_id dimension_id s)"

definition mesh_api_get_patch :: "'j mesh_store \<Rightarrow> artifact_id \<Rightarrow> mesh_error + 'j diff_patch" where
  "mesh_api_get_patch s i = get_patch s i"

definition mesh_api_artifact_count :: "'j mesh_store \<Rightarrow> nat" where
  "mesh_api_artifact_count s = artifact_count s"

text \<open>The read-once contract of \<open>MeshArtifactApi\<close>.\<close>

locale read_once =
  fixes put :: "'k \<Rightarrow> 'a \<Rightarrow> 's \<Rightarrow> uuid \<times> 's"
    and read :: "'k \<Rightarrow> uuid \<Rightarrow> 's \<Rightarrow> ('e + 'a) \<times> 's"
    and inv :: "'s \<Rightarrow> bool"
  assumes put_readable: "inv s \<Longrightarrow> is_ok (fst (read k' (fst (put k a s)) (snd (put k a s))))"
    and read_spends:
      "inv s \<Longrightarrow> is_ok (fst (read k i s)) \<Longrightarrow> \<not> is_ok (fst (read k' i (snd (read k i s))))"
    and refused_unchanged: "\<not> is_ok (fst (read k i s)) \<Longrightarrow> snd (read k i s) = s"
    and put_inv: "inv s \<Longrightarrow> inv (snd (put k a s))"
    and read_inv: "inv s \<Longrightarrow> inv (snd (read k i s))"
begin

lemma read_exactly_once:
  assumes "inv s"
  shows "is_ok (fst (read k' (fst (put k a s)) (snd (put k a s))))
    \<and> (let s' = snd (read k' (fst (put k a s)) (snd (put k a s)))
       in \<not> is_ok (fst (read k'' (fst (put k a s)) s')) \<and> snd (read k'' (fst (put k a s)) s') = s')"
  using assms by (simp add: Let_def put_readable read_spends put_inv refused_unchanged)

end

section \<open>The editor pipeline: BlockRegistry\<close>

definition editor_api_register_block ::
  "env \<Rightarrow> uuid \<Rightarrow> dimension_id \<Rightarrow> task_id \<Rightarrow> 'j registry_sys \<Rightarrow> uuid \<times> 'j registry_sys" where
  "editor_api_register_block e new_id dimension_id task_id s =
     register_block e new_id dimension_id task_id s"

definition editor_ref_of :: "editor_instance \<Rightarrow> editor_ref" where
  "editor_ref_of ei =
     \<lparr>er_id = ed_id ei, er_dimension_id = ed_dimension_id ei, er_language = ed_language ei\<rparr>"

definition runtime_handle_of :: "(uuid \<Rightarrow> string) \<Rightarrow> runtime_binding \<Rightarrow> runtime_handle" where
  "runtime_handle_of to_str rb =
     \<lparr>rh_id = rb_block_id rb, rh_task_id = rb_task_id rb,
      rh_executor_endpoint = ''local://'' @ to_str (rb_block_id rb)\<rparr>"

definition editor_api_create_editor ::
  "env \<Rightarrow> uuid \<Rightarrow> uuid \<Rightarrow> string \<Rightarrow> 'j registry_sys
     \<Rightarrow> (registry_error, editor_ref, 'j registry_sys) outcome" where
  "editor_api_create_editor e new_id block_id language s =
     (case create_editor e new_id block_id language s of
        (Inl err, s1) \<Rightarrow> (Inl err, s1)
      | (Inr _, s1) \<Rightarrow>
          (case editor_for s1 block_id of
             None \<Rightarrow> (Inl (InternalInvariant block_id
                        ''editor not found immediately after create_editor succeeded''), s1)
           | Some ei \<Rightarrow> (Inr (editor_ref_of ei), s1)))"

definition editor_api_attach_interpreter ::
  "env \<Rightarrow> uuid \<Rightarrow> string \<Rightarrow> 'j \<Rightarrow> 'j registry_sys
     \<Rightarrow> (registry_error, interpreter_ref, 'j registry_sys) outcome" where
  "editor_api_attach_interpreter e block_id interpreter_type config s =
     (case attach_interpreter e block_id interpreter_type config s of
        (Inl err, s1) \<Rightarrow> (Inl err, s1)
      | (Inr _, s1) \<Rightarrow>
          (case editor_for s1 block_id of
             None \<Rightarrow> (Inl (InternalInvariant block_id
                        ''editor not found after attach_interpreter succeeded''), s1)
           | Some ei \<Rightarrow>
               (Inr \<lparr>ir_id = ed_id ei, ir_interpreter_type = interpreter_type\<rparr>, s1)))"

definition editor_api_bind_runtime ::
  "(uuid \<Rightarrow> string) \<Rightarrow> env \<Rightarrow> uuid \<Rightarrow> 'j registry_sys
     \<Rightarrow> (registry_error, runtime_handle, 'j registry_sys) outcome" where
  "editor_api_bind_runtime to_str e block_id s =
     (case bind_runtime to_str e block_id s of
        (Inl err, s1) \<Rightarrow> (Inl err, s1)
      | (Inr rb, s1) \<Rightarrow> (Inr (runtime_handle_of to_str rb), s1))"

definition editor_api_editor_for :: "'j registry_sys \<Rightarrow> uuid \<Rightarrow> editor_ref option" where
  "editor_api_editor_for s block_id = map_option editor_ref_of (editor_for s block_id)"

definition editor_api_binding_for ::
  "(uuid \<Rightarrow> string) \<Rightarrow> 'j registry_sys \<Rightarrow> uuid \<Rightarrow> runtime_handle option" where
  "editor_api_binding_for to_str s block_id =
     map_option (runtime_handle_of to_str) (binding_for s block_id)"

section \<open>The planner: FlowGraph\<close>

text \<open>
  The outer option is the model's: None would be a planner that does not return
  (\<open>topological_order\<close> in \<open>Graph_Order\<close>).
\<close>

definition planner_plan ::
  "dimension_id \<Rightarrow> 'j flow_graph \<Rightarrow> (flow_graph_error + uuid list) option" where
  "planner_plan dimension_id g =
     (if fs_dimension_id (fg_schema g) \<noteq> dimension_id
      then Some (Inl (DimensionMismatch (fs_dimension_id (fg_schema g)) dimension_id))
      else topological_order (fg_schema g))"

definition issue_text :: "validation_issue \<Rightarrow> message_part list" where
  "issue_text i = MText (''['' @ vi_kind i @ ''] '') # vi_description i"

definition planner_validate ::
  "env \<Rightarrow> dimension_id \<Rightarrow> 'j flow_graph \<Rightarrow> (message_part list list, unit, 'j flow_graph) outcome" where
  "planner_validate e dimension_id g =
     (if fs_dimension_id (fg_schema g) \<noteq> dimension_id
      then (Inl [[MText ''dimension mismatch: graph owns '', MId (fs_dimension_id (fg_schema g)),
                  MText '', caller requested '', MId dimension_id]], g)
      else
        let (report, g') = validate e g
        in (if vr_valid report then (Inr (), g')
            else (Inl (map issue_text (vr_issues report)), g')))"

end
