(* ===== verification/Interface_Claims.thy ===== *)
theory Interface_Claims
  imports Interfaces Mesh_Claims Graph_Claims
begin

text \<open>
  That the implementations of \<open>interfaces.rs\<close> keep the contracts of their traits: the
  interpretations of the trait locales and what follows for the callers. Three places where the
  code does less than the traits' documentation says are stated as lemmas at the end.
\<close>

section \<open>The event bus\<close>

lemmas bus_defs = bus_append_def bus_entries_for_dimension_def bus_entries_for_task_def
  bus_all_entries_def bus_len_def bus_is_empty_def

interpretation log_bus: event_bus bus_append bus_all_entries bus_entries_for_dimension
    bus_entries_for_task bus_len le_dimension_id le_task_id
  by unfold_locales
    (simp_all add: bus_defs all_entries_def append_log_def entries_for_dimension_def
      entries_for_task_def log_len_def)

section \<open>The reporter\<close>

lemmas trait_defs = executor_submit_def executor_cancel_def reporter_progress_def
  reporter_complete_def reporter_fail_def reporter_cancel_def

definition orch_ended :: "'j orchestrator \<Rightarrow> task_id \<Rightarrow> bool" where
  "orch_ended s t = (case or_tasks s t of None \<Rightarrow> False | Some r \<Rightarrow> otr_terminal r)"

lemma trait_terminal_ends:
  "is_terminal_call c \<Longrightarrow> fst (trait_do to_str (e, c) s) = Inr () \<Longrightarrow>
     orch_ended (snd (trait_do to_str (e, c) s)) (call_task c)"
  by (cases c) (auto simp: trait_defs orch_defs orch_ended_def split: option.splits if_splits)

lemma trait_ended_refuses:
  "orch_ended s (call_task c) \<Longrightarrow> \<not> is_submit_call c \<Longrightarrow>
     trait_do to_str (e, c) s = (Inl (AlreadyTerminal (call_task c)), s)"
  by (cases c) (auto simp: trait_defs orch_defs orch_ended_def split: option.splits)

lemma trait_ended_kept:
  "orch_ended s t \<Longrightarrow> call_task c \<noteq> t \<Longrightarrow> orch_ended (snd (trait_do to_str (e, c) s)) t"
  by (cases c) (auto simp: trait_defs orch_defs orch_ended_def split: option.splits if_splits)

interpretation reporter: task_reporter "trait_do to_str" orch_ended
    "\<lambda>k. call_task (snd k)" "\<lambda>k. is_terminal_call (snd k)" "\<lambda>k. is_submit_call (snd k)" for to_str
proof unfold_locales
  fix k :: "env \<times> 'a trait_call" and s :: "'a orchestrator" and t
  obtain e c where k: "k = (e, c)" by (cases k)
  show "is_terminal_call (snd k) \<Longrightarrow> fst (trait_do to_str k s) = Inr () \<Longrightarrow>
      orch_ended (snd (trait_do to_str k s)) (call_task (snd k))"
    by (simp add: k trait_terminal_ends)
  show "orch_ended s (call_task (snd k)) \<Longrightarrow> \<not> is_submit_call (snd k) \<Longrightarrow>
      (\<exists>err. fst (trait_do to_str k s) = Inl err) \<and> snd (trait_do to_str k s) = s"
    by (simp add: k trait_ended_refuses)
  show "orch_ended s t \<Longrightarrow> call_task (snd k) \<noteq> t \<Longrightarrow> orch_ended (snd (trait_do to_str k s)) t"
    by (simp add: k trait_ended_kept)
  show "is_terminal_call (snd k) \<Longrightarrow> \<not> is_submit_call (snd k)"
    by (cases c) (simp_all add: k)
qed

section \<open>The artifact mesh\<close>

lemmas mesh_api_defs = mesh_api_produce_def mesh_api_consume_def mesh_api_snapshot_node_def
  mesh_api_get_snapshot_def mesh_api_patch_def mesh_api_get_patch_def mesh_api_artifact_count_def

lemma mesh_artifacts_simps [simp]:
  "ms_artifacts (mesh_log e ev d t p s) = ms_artifacts s"
  "ms_artifacts (notify note s) = ms_artifacts s"
  "ms_artifacts (touch_optional now n up s) = ms_artifacts s"
  "ms_artifacts (touch_node_state now m up s) = ms_artifacts s"
  "ms_artifacts (put_artifact a s) = om_insert (ma_id a) a (ms_artifacts s)"
  by (simp_all add: mesh_log_def notify_def touch_optional_def touch_node_state_def
      put_artifact_def Let_def split: option.split)

lemma mesh_ok_om:
  "mesh_ok s \<Longrightarrow> om_ok (ms_artifacts s)" "mesh_ok s \<Longrightarrow> om_ok (ms_snapshots s)"
  "mesh_ok s \<Longrightarrow> om_ok (ms_patches s)"
  by (simp_all add: mesh_ok_def index_ok_def revisions_ok_def)

lemma produced_entry:
  assumes "mesh_ok s"
  shows "om_get (ms_artifacts (snd (produce e a s))) (fst (produce e a s)) =
    Some ((prepare_artifact (env_now e) a)\<lparr>ma_consumed := False\<rparr>)"
  using mesh_ok_om(1) [OF assms] by (simp add: produce_def Let_def om_get_insert)

lemma consume_ok_iff:
  "is_ok (result (consume e i s)) =
     (case om_get (ms_artifacts s) i of None \<Rightarrow> False | Some a \<Rightarrow> \<not> ma_consumed a)"
  by (simp add: consume_def Let_def split: option.split)

lemma consume_spends:
  assumes "mesh_ok s" "is_ok (result (consume e i s))"
  shows "\<not> is_ok (result (consume e' i (after (consume e i s))))"
  using assms(2) mesh_ok_om(1) [OF assms(1)]
  by (auto simp: consume_ok_iff) (auto simp: consume_def Let_def om_get_insert split: option.splits if_splits)

lemma consume_refused: "\<not> is_ok (result (consume e i s)) \<Longrightarrow> after (consume e i s) = s"
  by (auto simp: consume_def Let_def split: option.splits if_splits)

interpretation mesh_reads: read_once mesh_api_produce mesh_api_consume mesh_ok
  by unfold_locales
    (simp_all add: mesh_api_defs consume_spends consume_refused mesh_ok_produce mesh_ok_consume
      consume_ok_iff [of _ _ "snd (produce _ _ _)"] produced_entry)

section \<open>Properties\<close>

text \<open>A history written through \<open>EventBusApi\<close> is append-only and complete: after any sequence
  of appends the log holds what it held and then exactly the appended entries in order, the
  dimension and task views are the same appends filtered by their scope, the length counts them,
  and \<open>is_empty\<close> is true only when there is nothing to read.\<close>

theorem event_bus_history:
  "let l' = fold bus_append xs l in
     bus_all_entries l' = bus_all_entries l @ xs
   \<and> bus_entries_for_dimension l' d =
       bus_entries_for_dimension l d @ filter (\<lambda>x. le_dimension_id x = Some d) xs
   \<and> bus_entries_for_task l' t = bus_entries_for_task l t @ filter (\<lambda>x. le_task_id x = Some t) xs
   \<and> bus_len l' = bus_len l + List.length xs
   \<and> bus_is_empty l' = (bus_all_entries l' = [])"
  unfolding Let_def
  by (intro conjI log_bus.written_run log_bus.dimension_run log_bus.task_run log_bus.size_run)
    (simp add: bus_is_empty_def log_bus.sized)

text \<open>C38: The terminal reports of \<open>NodeReporterApi\<close> take effect once: after a completion, failure or
  cancellation of a task has succeeded, and whatever calls follow short of submitting the task
  again, any terminal report for it is answered \<open>AlreadyTerminal\<close> and changes nothing.\<close>

theorem terminal_reports_once:
  "let (r, s1) = trait_do to_str (e, c) s;
       s2 = fold (\<lambda>k s. snd (trait_do to_str k s)) ks s1
   in if is_terminal_call c \<and> r = Inr () \<and> is_terminal_call c' \<and> call_task c' = call_task c
         \<and> list_all (\<lambda>k. \<not> (is_submit_call (snd k) \<and> call_task (snd k) = call_task c)) ks
      then trait_do to_str (e', c') s2 = (Inl (AlreadyTerminal (call_task c)), s2)
      else True"
proof -
  have "trait_do to_str (e', c') s2 = (Inl (AlreadyTerminal (call_task c)), s2)"
    if "is_terminal_call c" "fst (trait_do to_str (e, c) s) = Inr ()" "is_terminal_call c'"
      "call_task c' = call_task c"
      "list_all (\<lambda>k. \<not> (is_submit_call (snd k) \<and> call_task (snd k) = call_task c)) ks"
      "s2 = fold (\<lambda>k s. snd (trait_do to_str k s)) ks (snd (trait_do to_str (e, c) s))" for s2
  proof -
    have "orch_ended s2 (call_task c')"
      using reporter.ended_run [OF trait_terminal_ends [OF that(1,2)], of ks] that(4,5,6)
      by (simp add: reporter.run_def)
    moreover have "\<not> is_submit_call c'" using that(3) by (cases c') simp_all
    ultimately show ?thesis using that(4) by (simp add: trait_ended_refuses)
  qed
  then show ?thesis by (auto simp: Let_def case_prod_beta)
qed

definition logs_one :: "event_type \<Rightarrow> 'j mesh_store \<Rightarrow> 'j mesh_store \<Rightarrow> bool" where
  "logs_one ev s s' =
     (al_entries (ms_log s') = butlast (al_entries (ms_log s')) @ [last (al_entries (ms_log s'))]
      \<and> butlast (al_entries (ms_log s')) = al_entries (ms_log s)
      \<and> le_event_type (last (al_entries (ms_log s'))) = ev)"

lemmas mesh_log_frame = mesh_log_def notify_def touch_optional_def touch_node_state_def
  put_artifact_def

lemma mesh_api_produced_once:
  assumes "mesh_ok s"
  shows "let (i, s1) = mesh_api_produce e a s; (got, s2) = mesh_api_consume e' i s1 in
    (case got of Inl err \<Rightarrow> False
     | Inr b \<Rightarrow> b = (prepare_artifact (env_now e) a)\<lparr>ma_consumed := True\<rparr>)
    \<and> mesh_api_consume e'' i s2 = (Inl (AlreadyConsumed i), s2)
    \<and> logs_one ArtifactProduced s s1 \<and> logs_one ArtifactConsumed s1 s2"
proof -
  obtain i s1 where put: "produce e a s = (i, s1)" by (cases "produce e a s")
  have ok: "mesh_ok s1" using mesh_ok_produce [OF assms, of e a] put by simp
  have entry: "om_get (ms_artifacts s1) i = Some ((prepare_artifact (env_now e) a)\<lparr>ma_consumed := False\<rparr>)"
    using produced_entry [OF assms, of e a] put by simp
  have "logs_one ArtifactProduced s s1"
    using put by (auto simp: logs_one_def produce_def Let_def mesh_log_frame log_simps split: option.splits)
  moreover have "logs_one ArtifactConsumed s1 (after (consume e' i s1))"
    by (simp add: logs_one_def consume_def entry Let_def mesh_log_frame log_simps)
  moreover have "om_get (ms_artifacts (after (consume e' i s1))) i =
      Some ((prepare_artifact (env_now e) a)\<lparr>ma_consumed := True\<rparr>)"
    using mesh_ok_om(1) [OF ok] by (simp add: consume_def entry Let_def om_get_insert)
  then have "consume e'' i (after (consume e' i s1)) = (Inl (AlreadyConsumed i), after (consume e' i s1))"
    by (simp add: consume_def [of e''])
  moreover have "result (consume e' i s1) = Inr ((prepare_artifact (env_now e) a)\<lparr>ma_consumed := True\<rparr>)"
    by (simp add: consume_def entry Let_def)
  ultimately show ?thesis by (simp add: mesh_api_defs put case_prod_beta Let_def)
qed

lemma mesh_api_snapshot_stored:
  assumes "mesh_ok s"
  shows "let (j, s') = mesh_api_snapshot_node e fresh d t n content s in
    (case mesh_api_get_snapshot s' j of Inl err \<Rightarrow> False
     | Inr x \<Rightarrow> ns_state x = content \<and> ns_node_id x = n \<and> ns_dimension_id x = d \<and> ns_task_id x = t
         \<and> ns_revision x = current_revision s n)
    \<and> mesh_api_artifact_count s' = mesh_api_artifact_count s \<and> logs_one ArtifactSnapshot s s'"
  using mesh_ok_om(2) [OF assms]
  by (simp add: mesh_api_defs snapshot_node_def get_snapshot_def artifact_count_def logs_one_def
      Let_def mesh_log_frame om_get_insert log_simps)

lemma mesh_api_patch_stored:
  assumes "mesh_ok s"
  shows "let (k, s') = mesh_api_patch parse_ops json_null e fresh d t n ops s in
    (case mesh_api_get_patch s' k of Inl err \<Rightarrow> False
     | Inr p \<Rightarrow> dp_before p = json_null \<and> dp_after p = ops
         \<and> dp_ops p = (case parse_ops ops of None \<Rightarrow> [] | Some xs \<Rightarrow> xs)
         \<and> dp_node_id p = n \<and> dp_dimension_id p = d \<and> dp_task_id p = t \<and> \<not> dp_conflict p)
    \<and> mesh_api_artifact_count s' = mesh_api_artifact_count s \<and> logs_one ArtifactPatched s s'"
  using mesh_ok_om(3) [OF assms]
  by (simp add: mesh_api_defs mesh_patch_def advance_revision_def record_patch_def store_patch_def
      get_patch_def artifact_count_def logs_one_def current_revision_def state_or_new_def new_node_state_def Let_def
      mesh_log_frame om_get_insert log_simps split: option.split)

text \<open>C25: On every reachable store, the mesh trait keeps its contract: a produced artifact is read
  back, as prepared, by the first consumption and refused unchanged to every later one; a snapshot
  and a patch are read back under the identifier they were given with the node, task, dimension and
  content of the call, and do not count as artifacts; the operations of a patch are the parsed ones,
  or none when the JSON does not parse; and each of the four writes exactly one log entry of its kind.\<close>

theorem mesh_interface_conforms:
  "let s = mesh_run now l ks;
       (i, s1) = mesh_api_produce e a s; (got, s2) = mesh_api_consume e' i s1;
       (j, s3) = mesh_api_snapshot_node e fresh d t n content s;
       (k, s4) = mesh_api_patch parse_ops json_null e fresh d t n ops s
   in (case got of Inl err \<Rightarrow> False
       | Inr b \<Rightarrow> b = (prepare_artifact (env_now e) a)\<lparr>ma_consumed := True\<rparr>)
    \<and> mesh_api_consume e'' i s2 = (Inl (AlreadyConsumed i), s2)
    \<and> (case mesh_api_get_snapshot s3 j of Inl err \<Rightarrow> False
       | Inr x \<Rightarrow> ns_state x = content \<and> ns_node_id x = n \<and> ns_dimension_id x = d \<and> ns_task_id x = t
           \<and> ns_revision x = current_revision s n)
    \<and> (case mesh_api_get_patch s4 k of Inl err \<Rightarrow> False
       | Inr p \<Rightarrow> dp_before p = json_null \<and> dp_after p = ops
           \<and> dp_ops p = (case parse_ops ops of None \<Rightarrow> [] | Some xs \<Rightarrow> xs)
           \<and> dp_node_id p = n \<and> dp_dimension_id p = d \<and> dp_task_id p = t \<and> \<not> dp_conflict p)
    \<and> mesh_api_artifact_count s3 = mesh_api_artifact_count s
    \<and> mesh_api_artifact_count s4 = mesh_api_artifact_count s
    \<and> logs_one ArtifactProduced s s1 \<and> logs_one ArtifactConsumed s1 s2
    \<and> logs_one ArtifactSnapshot s s3 \<and> logs_one ArtifactPatched s s4"
proof -
  note ok = mesh_run_ok [of now l ks]
  show ?thesis
    using mesh_api_produced_once [OF ok, of e a e' e''] mesh_api_snapshot_stored [OF ok, of e fresh d t n content]
      mesh_api_patch_stored [OF ok, of parse_ops json_null e fresh d t n ops]
    by (simp add: Let_def case_prod_beta)
qed

lemmas editor_api_defs = editor_api_register_block_def editor_api_create_editor_def
  editor_api_attach_interpreter_def editor_api_bind_runtime_def editor_api_editor_for_def
  editor_api_binding_for_def

lemma editor_api_create_spec:
  assumes "registry_inv s"
  shows "case editor_api_create_editor e new_id b lang s of
      (Inl err, s') \<Rightarrow> s' = s \<and> (err = BlockNotFound b \<or> err = EditorAlreadyExists b)
        \<and> registry_abs s b \<noteq> Some 0
    | (Inr er, s') \<Rightarrow> registry_abs s b = Some 0 \<and> er_id er = new_id \<and> er_language er = lang
        \<and> editor_api_editor_for s' b = Some er"
proof -
  obtain bs l where s: "s = (bs, l)" by (cases s)
  show ?thesis
    by (cases rule: block_cases [OF assms [unfolded s], of b])
      (simp_all add: s editor_api_defs create_editor_def registry_abs_pair stage_of_def Let_def
        editor_for_def editor_ref_of_def)
qed

lemma editor_api_attach_spec:
  assumes "registry_inv s"
  shows "case editor_api_attach_interpreter e b ty cfg s of
      (Inl err, s') \<Rightarrow> s' = s \<and> registry_abs s b \<noteq> Some 1
        \<and> (case err of InternalInvariant i m \<Rightarrow> False | _ \<Rightarrow> True)
    | (Inr ir, s') \<Rightarrow> registry_abs s b = Some 1 \<and> ir_interpreter_type ir = ty
        \<and> map_option er_id (editor_api_editor_for s' b) = Some (ir_id ir)"
proof -
  obtain bs l where s: "s = (bs, l)" by (cases s)
  show ?thesis
    by (cases rule: block_cases [OF assms [unfolded s], of b])
      (simp_all add: s editor_api_defs attach_interpreter_def registry_abs_pair stage_of_def Let_def
        editor_for_def editor_ref_of_def)
qed

lemma editor_api_bind_spec:
  assumes "registry_inv s"
  shows "case editor_api_bind_runtime to_str e b s of
      (Inl err, s') \<Rightarrow> s' = s \<and> registry_abs s b \<noteq> Some 2
    | (Inr rh, s') \<Rightarrow> registry_abs s b = Some 2 \<and> rh_id rh = b
        \<and> rh_executor_endpoint rh = ''local://'' @ to_str b
        \<and> editor_api_binding_for to_str s' b = Some rh"
proof -
  obtain bs l where s: "s = (bs, l)" by (cases s)
  show ?thesis
    by (cases rule: block_cases [OF assms [unfolded s], of b])
      (simp_all add: s editor_api_defs bind_runtime_def registry_abs_pair stage_of_def Let_def
        binding_for_def runtime_handle_of_def)
qed

text \<open>Behind \<open>EditorIntegrationApi\<close>, after any history of registry calls, each stage succeeds
  exactly when the block is at the stage before it, a refused call changes nothing, and what a call
  returns is what the queries then report for the block; the internal errors of the wrappers, an
  editor that vanished between creation and lookup, cannot occur.\<close>

theorem editor_interface_conforms:
  "let s = fold (registry_step to_str) ks (new_registry l) in
    (case editor_api_create_editor e new_id b lang s of
       (Inl err, s') \<Rightarrow> s' = s \<and> (err = BlockNotFound b \<or> err = EditorAlreadyExists b)
         \<and> registry_abs s b \<noteq> Some 0
     | (Inr er, s') \<Rightarrow> registry_abs s b = Some 0 \<and> er_id er = new_id \<and> er_language er = lang
         \<and> editor_api_editor_for s' b = Some er)
    \<and> (case editor_api_attach_interpreter e b ty cfg s of
         (Inl err, s') \<Rightarrow> s' = s \<and> registry_abs s b \<noteq> Some 1
           \<and> (case err of InternalInvariant i m \<Rightarrow> False | _ \<Rightarrow> True)
       | (Inr ir, s') \<Rightarrow> registry_abs s b = Some 1 \<and> ir_interpreter_type ir = ty
           \<and> map_option er_id (editor_api_editor_for s' b) = Some (ir_id ir))
    \<and> (case editor_api_bind_runtime to_str e b s of
         (Inl err, s') \<Rightarrow> s' = s \<and> registry_abs s b \<noteq> Some 2
       | (Inr rh, s') \<Rightarrow> registry_abs s b = Some 2 \<and> rh_id rh = b
           \<and> rh_executor_endpoint rh = ''local://'' @ to_str b
           \<and> editor_api_binding_for to_str s' b = Some rh)"
proof -
  have inv: "registry_inv (fold (registry_step to_str) ks (new_registry l))"
    by (rule registry_sys.run_inv) (simp_all add: registry_inv_new)
  show ?thesis
    unfolding Let_def
    by (intro conjI editor_api_create_spec [OF inv] editor_api_attach_spec [OF inv]
        editor_api_bind_spec [OF inv])
qed

lemma planner_plan_cases:
  assumes closed: "link_closed (fg_schema g)"
  shows "case planner_plan dim g of
      None \<Rightarrow> False
    | Some (Inl err) \<Rightarrow>
        (if dim = fs_dimension_id (fg_schema g) then \<not> acyclic (edges (fg_schema g))
         else err = DimensionMismatch (fs_dimension_id (fg_schema g)) dim)
    | Some (Inr order) \<Rightarrow> dim = fs_dimension_id (fg_schema g)
        \<and> acyclic (edges (fg_schema g)) \<and> execution_order (fg_schema g) order"
  by (cases rule: topological_order_cases [OF closed])
    (auto simp: planner_plan_def execution_order_acyclic closed)

text \<open>C19: On every graph built through the checked calls, planning returns: for the graph's own
  dimension an execution order of all its nodes if the links are acyclic and an error otherwise, for
  any other dimension the mismatch; and a graph that validates for a dimension can be planned for it.\<close>

theorem planner_conforms:
  assumes "admissible checked_call graph_step ks (new_flow_graph fresh d t l)"
  shows "let g = graph_run fresh d t l ks in
    (case planner_plan dim g of
       None \<Rightarrow> False
     | Some (Inl err) \<Rightarrow>
         (if dim = fs_dimension_id (fg_schema g) then \<not> acyclic (edges (fg_schema g))
          else err = DimensionMismatch (fs_dimension_id (fg_schema g)) dim)
     | Some (Inr order) \<Rightarrow> dim = fs_dimension_id (fg_schema g)
         \<and> acyclic (edges (fg_schema g)) \<and> execution_order (fg_schema g) order)
    \<and> (if is_ok (fst (planner_validate e dim g))
       then case planner_plan dim g of Some (Inr order) \<Rightarrow> True | _ \<Rightarrow> False
       else True)"
proof -
  let ?g = "graph_run fresh d t l ks"
  have ok: "om_ok (fs_nodes (fg_schema ?g))" by (rule schema_okD [OF graph_run_ok(1)])
  note plan = planner_plan_cases [OF graph_run_closed [OF assms], of dim]
  have "dim = fs_dimension_id (fg_schema ?g) \<and> acyclic (edges (fg_schema ?g))"
    if "is_ok (fst (planner_validate e dim ?g))"
    using that
    by (auto simp: planner_validate_def validate_def Let_def validate_schema_valid [OF ok] split: if_splits)
  with plan show ?thesis by (auto simp: Let_def split: option.splits sum.splits)
qed

theorem planner_conforms_witness:
  "case planner_plan 7 (graph_run 50 7 8 new_log sample_calls) of None \<Rightarrow> False | Some r \<Rightarrow> True"
proof -
  have "admissible checked_call graph_step sample_calls (new_flow_graph 50 7 8 new_log)"
    by (simp add: sample_calls_def checked_call_def)
  from planner_conforms [OF this, of 7 graph_env] show ?thesis
    by (auto simp: Let_def split: option.splits)
qed

section \<open>Less than the traits document\<close>

text \<open>A plan is produced for a graph whose validation fails: one node whose required input port is
  not connected.\<close>

definition unfed_graph :: "nat flow_graph" where
  "unfed_graph = graph_run 50 7 8 new_log
     [(graph_env, CAddNode ((new_node 0 1 ''task'' ''t'')
        \<lparr>gn_ports := [(1, (new_port 1 ''in'' In Any)\<lparr>pd_required := True\<rparr>)]\<rparr>))]"

lemma unfed_graph_schema:
  "fs_dimension_id (fg_schema unfed_graph) = 7" "fs_links (fg_schema unfed_graph) = []"
  "fs_nodes (fg_schema unfed_graph) =
     [(1, (new_node 0 1 ''task'' ''t'')\<lparr>gn_ports := [(1, (new_port 1 ''in'' In Any)\<lparr>pd_required := True\<rparr>)]\<rparr>)]"
  by (simp_all add: unfed_graph_def graph_run_def graph_step_def new_flow_graph_def new_schema_def
      add_node_def on_schema_def log_graph_def Let_def new_node_def set_nodes_def)

lemma plan_ignores_validation:
  "case planner_plan 7 unfed_graph of Some (Inr order) \<Rightarrow> set order = {1} | _ \<Rightarrow> False"
  "\<not> is_ok (fst (planner_validate graph_env 7 unfed_graph))"
proof -
  let ?s = "fg_schema unfed_graph"
  have none: "edges ?s = {}" "om_ok (fs_nodes ?s)"
    by (simp_all add: edges_def unfed_graph_schema om_ok_Cons)
  then have closed: "link_closed ?s" by (simp add: link_closed_def)
  have acyclic: "acyclic (edges ?s)" by (simp add: none acyclic_def)
  have nodes: "node_set ?s = {1}" by (simp add: node_set_def unfed_graph_schema(3))
  show "case planner_plan 7 unfed_graph of Some (Inr order) \<Rightarrow> set order = {1} | _ \<Rightarrow> False"
  proof (cases rule: topological_order_cases [OF closed])
    case (1 order)
    then show ?thesis
      using nodes by (simp add: planner_plan_def unfed_graph_schema(1) execution_order_def)
  qed (use acyclic in simp)
  have "\<not> vr_valid (validate_schema ?s)"
    unfolding validate_schema_valid [OF none(2)]
    by (simp add: unfed_graph_schema fed_def inputs_def new_node_def new_port_def)
  then show "\<not> is_ok (fst (planner_validate graph_env 7 unfed_graph))"
    by (simp add: planner_validate_def unfed_graph_schema(1) validate_def Let_def)
qed

text \<open>The reporter takes any byte for a percentage.\<close>

lemma percentage_unchecked:
  "fst (trait_do to_str (e, TProgress 5 255 m)
     (snd (trait_do to_str (e, TSubmit 5 9 0 j) (new_orchestrator 9 new_log)))) = Inr ()"
  by (simp add: trait_defs orch_defs new_orchestrator_def orch_log_def)

text \<open>What is returned as the identifier of an interpreter session is the editor's.\<close>

lemma interpreter_named_by_editor:
  "result (editor_api_attach_interpreter e b ty cfg s) = Inr ir \<Longrightarrow>
     map_option ed_id (editor_for (after (editor_api_attach_interpreter e b ty cfg s)) b) = Some (ir_id ir)"
  by (auto simp: editor_api_attach_interpreter_def split: prod.splits sum.splits option.splits)

text \<open>The priority and the payload of a submission are dropped.\<close>

lemma submission_payload_dropped:
  "trait_do to_str (e, TSubmit t d p j) s = trait_do to_str (e, TSubmit t d p' j') s"
  by (simp add: trait_defs)

end
