(* ===== verification/Quality_Data.thy ===== *)
theory Quality_Data
  imports Graph_Cycle Mesh_Schema Float_Order
begin

text \<open>
  The test datasets of \<open>ify-quality\<close> (\<open>datasets.rs\<close>): graph fixtures with their cycle check, and
  tabular fixtures. The cycle check keeps two sets of marks where \<open>detect_cycle\<close> of \<open>graph.rs\<close>
  keeps three colours; it is refined to that search, and its correctness follows from the one
  proved in \<open>Graph_Cycle\<close>. \<open>fuel\<close> bounds the depth of the recursion. The JSON constructors are
  arguments: \<open>text_json\<close>, \<open>nat_json\<close> and \<open>float_json\<close>; \<open>scale\<close> is \<open>i as f64 * 1.5\<close>.
\<close>

section \<open>Graph fixtures\<close>

record 'j fixture_node =
  fn_id :: string
  fn_label :: string
  fn_metadata :: "string \<rightharpoonup> 'j"

definition new_fixture_node :: "string \<Rightarrow> string \<Rightarrow> 'j fixture_node" where
  "new_fixture_node i label = \<lparr>fn_id = i, fn_label = label, fn_metadata = Map.empty\<rparr>"

definition node_with_meta :: "string \<Rightarrow> 'j \<Rightarrow> 'j fixture_node \<Rightarrow> 'j fixture_node" where
  "node_with_meta key v n = n\<lparr>fn_metadata := (fn_metadata n)(key \<mapsto> v)\<rparr>"

record fixture_edge =
  fe_from :: string
  fe_to :: string
  fe_label :: "string option"

definition new_fixture_edge :: "string \<Rightarrow> string \<Rightarrow> fixture_edge" where
  "new_fixture_edge a b = \<lparr>fe_from = a, fe_to = b, fe_label = None\<rparr>"

definition labeled :: "string \<Rightarrow> fixture_edge \<Rightarrow> fixture_edge" where
  "labeled label e = e\<lparr>fe_label := Some label\<rparr>"

record 'j graph_fixture =
  gf_id :: string
  gf_description :: string
  gf_nodes :: "'j fixture_node list"
  gf_edges :: "fixture_edge list"

text \<open>The bytes of the arrow of the descriptions, with the spaces around it.\<close>

definition arrow :: string where
  "arrow = [CHR 0x20, CHR 0xE2, CHR 0x86, CHR 0x92, CHR 0x20]"

definition linear_three :: "(string \<Rightarrow> 'j) \<Rightarrow> 'j graph_fixture" where
  "linear_three text_json =
     \<lparr>gf_id = ''linear-3'', gf_description = ''Straight-line graph: A'' @ arrow @ ''B'' @ arrow @ ''C'',
      gf_nodes =
        [node_with_meta ''kind'' (text_json ''source'') (new_fixture_node ''A'' ''Start''),
         node_with_meta ''kind'' (text_json ''process'') (new_fixture_node ''B'' ''Transform''),
         node_with_meta ''kind'' (text_json ''sink'') (new_fixture_node ''C'' ''Sink'')],
      gf_edges =
        [labeled ''flow'' (new_fixture_edge ''A'' ''B''), labeled ''flow'' (new_fixture_edge ''B'' ''C'')]\<rparr>"

definition diamond :: "'j graph_fixture" where
  "diamond =
     \<lparr>gf_id = ''diamond'',
      gf_description = ''Diamond graph: A'' @ arrow @ ''B, A'' @ arrow @ ''C, B'' @ arrow @ ''D, C'' @ arrow @ ''D'',
      gf_nodes =
        [new_fixture_node ''A'' ''Root'', new_fixture_node ''B'' ''Left'',
         new_fixture_node ''C'' ''Right'', new_fixture_node ''D'' ''Join''],
      gf_edges =
        [labeled ''left'' (new_fixture_edge ''A'' ''B''), labeled ''right'' (new_fixture_edge ''A'' ''C''),
         labeled ''merge'' (new_fixture_edge ''B'' ''D''), labeled ''merge'' (new_fixture_edge ''C'' ''D'')]\<rparr>"

definition cycle_fixture :: "'j graph_fixture" where
  "cycle_fixture =
     \<lparr>gf_id = ''cycle'',
      gf_description = ''Cyclic graph: X'' @ arrow @ ''Y'' @ arrow @ ''Z'' @ arrow @ ''X'',
      gf_nodes =
        [new_fixture_node ''X'' ''X'', new_fixture_node ''Y'' ''Y'', new_fixture_node ''Z'' ''Z''],
      gf_edges =
        [new_fixture_edge ''X'' ''Y'', new_fixture_edge ''Y'' ''Z'', new_fixture_edge ''Z'' ''X'']\<rparr>"

definition empty_fixture :: "'j graph_fixture" where
  "empty_fixture =
     \<lparr>gf_id = ''empty'', gf_description = ''Empty graph: no nodes, no edges'', gf_nodes = [], gf_edges = []\<rparr>"

definition single_node :: "'j graph_fixture" where
  "single_node =
     \<lparr>gf_id = ''single-node'', gf_description = ''Single isolated node'',
      gf_nodes = [new_fixture_node ''N'' ''Lone''], gf_edges = []\<rparr>"

definition all_fixtures :: "(string \<Rightarrow> 'j) \<Rightarrow> 'j graph_fixture list" where
  "all_fixtures text_json =
     [linear_three text_json, diamond, cycle_fixture, empty_fixture, single_node]"

section \<open>The cycle check\<close>

definition fixture_adjacency :: "fixture_edge list \<Rightarrow> string adjacency" where
  "fixture_adjacency es =
     fold (\<lambda>e m. om_insert (fe_from e)
       ((case om_get m (fe_from e) of None \<Rightarrow> [] | Some ns \<Rightarrow> ns) @ [fe_to e]) m) es []"

text \<open>The marks: visited, and on the recursion stack.\<close>

type_synonym marks = "(string \<rightharpoonup> bool) \<times> (string \<rightharpoonup> bool)"

definition marked :: "(string \<rightharpoonup> bool) \<Rightarrow> string \<Rightarrow> bool" where
  "marked m n = (case m n of None \<Rightarrow> False | Some b \<Rightarrow> b)"

fun visit_neighbours ::
  "(string \<Rightarrow> marks \<Rightarrow> (bool \<times> marks) option) \<Rightarrow> string list \<Rightarrow> marks \<Rightarrow> (bool \<times> marks) option" where
  "visit_neighbours dfs [] st = Some (False, st)"
| "visit_neighbours dfs (nb # ns) (visited, rec_stack) =
     (if \<not> marked visited nb then
        (case dfs nb (visited, rec_stack) of
           None \<Rightarrow> None
         | Some (found, st) \<Rightarrow> if found then Some (True, st) else visit_neighbours dfs ns st)
      else if marked rec_stack nb then Some (True, (visited, rec_stack))
      else visit_neighbours dfs ns (visited, rec_stack))"

primrec fixture_dfs :: "nat \<Rightarrow> string adjacency \<Rightarrow> string \<Rightarrow> marks \<Rightarrow> (bool \<times> marks) option" where
  "fixture_dfs 0 = (\<lambda>adj node st. None)"
| "fixture_dfs (Suc fuel) = (\<lambda>adj node (visited, rec_stack).
     let entered = (visited(node \<mapsto> True), rec_stack(node \<mapsto> True)) in
     case (case om_get adj node of
             None \<Rightarrow> Some (False, entered)
           | Some neighbours \<Rightarrow> visit_neighbours (fixture_dfs fuel adj) neighbours entered) of
       None \<Rightarrow> None
     | Some (found, (visited', rec_stack')) \<Rightarrow>
         if found then Some (True, (visited', rec_stack'))
         else Some (False, (visited', rec_stack'(node \<mapsto> False))))"

fun search_nodes :: "nat \<Rightarrow> string adjacency \<Rightarrow> string list \<Rightarrow> marks \<Rightarrow> bool option" where
  "search_nodes fuel adj [] st = Some False"
| "search_nodes fuel adj (node # ids) (visited, rec_stack) =
     (if \<not> marked visited node then
        (case fixture_dfs fuel adj node (visited, rec_stack) of
           None \<Rightarrow> None
         | Some (found, st) \<Rightarrow> if found then Some True else search_nodes fuel adj ids st)
      else search_nodes fuel adj ids (visited, rec_stack))"

definition has_cycle :: "nat \<Rightarrow> 'j graph_fixture \<Rightarrow> bool option" where
  "has_cycle fuel g =
     search_nodes fuel (fixture_adjacency (gf_edges g)) (map fn_id (gf_nodes g)) (Map.empty, Map.empty)"

section \<open>Tabular fixtures\<close>

record 'j data_record =
  dr_index :: nat
  dr_fields :: "string \<rightharpoonup> 'j"

definition new_data_record :: "nat \<Rightarrow> (string \<times> 'j) list \<Rightarrow> 'j data_record" where
  "new_data_record index fs =
     \<lparr>dr_index = index, dr_fields = fold (\<lambda>(k, v) m. m(k \<mapsto> v)) fs Map.empty\<rparr>"

record 'j dataset_fixture =
  df_id :: string
  df_columns :: "string list"
  df_records :: "'j data_record list"

definition timeseries_five ::
  "(string \<Rightarrow> 'j) \<Rightarrow> (u64 \<Rightarrow> 'j) \<Rightarrow> (f64 \<Rightarrow> 'j) \<Rightarrow> (nat \<Rightarrow> f64) \<Rightarrow> 'j dataset_fixture" where
  "timeseries_five text_json nat_json float_json scale =
     \<lparr>df_id = ''timeseries-5'', df_columns = [''timestamp'', ''value'', ''label''],
      df_records = map (\<lambda>i. new_data_record i
        [(''timestamp'', nat_json (1700000000 + of_nat i * 60)),
         (''value'', float_json (scale i)),
         (''label'', text_json (''point-'' @ show_nat i))]) [0..<5]\<rparr>"

definition kv_pairs_ten :: "(string \<Rightarrow> 'j) \<Rightarrow> (u64 \<Rightarrow> 'j) \<Rightarrow> 'j dataset_fixture" where
  "kv_pairs_ten text_json nat_json =
     \<lparr>df_id = ''kv-pairs-10'', df_columns = [''key'', ''value''],
      df_records = map (\<lambda>i. new_data_record i
        [(''key'', text_json (''k'' @ (if i < 10 then ''0'' else '''') @ show_nat i)),
         (''value'', nat_json (of_nat (i * i)))]) [0..<10]\<rparr>"

definition empty_dataset :: "'j dataset_fixture" where
  "empty_dataset = \<lparr>df_id = ''empty-dataset'', df_columns = [''id'', ''payload''], df_records = []\<rparr>"

definition all_datasets ::
  "(string \<Rightarrow> 'j) \<Rightarrow> (u64 \<Rightarrow> 'j) \<Rightarrow> (f64 \<Rightarrow> 'j) \<Rightarrow> (nat \<Rightarrow> f64) \<Rightarrow> 'j dataset_fixture list" where
  "all_datasets text_json nat_json float_json scale =
     [timeseries_five text_json nat_json float_json scale, kv_pairs_ten text_json nat_json, empty_dataset]"

section \<open>Refinement of the marks to the colours\<close>

definition same_marks :: "marks \<Rightarrow> (string \<rightharpoonup> u8) \<Rightarrow> bool" where
  "same_marks st c =
     (\<forall>n. marked (fst st) n = (colour_of c n \<noteq> 0) \<and> marked (snd st) n = (colour_of c n = 1))"

definition same_result ::
  "(bool \<times> marks) option \<Rightarrow> (string list + string dfs_state) option \<Rightarrow> bool" where
  "same_result a b =
     (case (a, b) of
        (None, None) \<Rightarrow> True
      | (Some (found, st), Some (Inl cycle)) \<Rightarrow> found
      | (Some (found, st), Some (Inr (c, stack))) \<Rightarrow> \<not> found \<and> same_marks st c
      | _ \<Rightarrow> False)"

lemma same_result_simps [simp]:
  "same_result None None" "same_result (Some (found, st)) (Some (Inl cycle)) = found"
  "same_result (Some (found, st)) (Some (Inr (c, stack))) = (\<not> found \<and> same_marks st c)"
  "\<not> same_result None (Some r)" "\<not> same_result (Some x) None"
  by (simp_all add: same_result_def)

lemma same_result_cases:
  assumes "same_result a b"
  obtains (out) "a = None" "b = None"
    | (found) st cycle where "a = Some (True, st)" "b = Some (Inl cycle)"
    | (clear) st c stack where "a = Some (False, st)" "b = Some (Inr (c, stack))" "same_marks st c"
proof (cases a)
  case None
  with assms show ?thesis by (cases b) (auto intro: out)
next
  case (Some x)
  obtain y where b: "b = Some y" using assms Some by (cases b) auto
  obtain found st where x: "x = (found, st)" by (cases x)
  show ?thesis
    using assms by (cases y) (auto simp: Some b x intro: found clear)
qed

lemma marked_upd [simp]: "marked (m(n \<mapsto> b)) k = (if k = n then b else marked m k)"
  by (simp add: marked_def)

lemma same_marks_enter: "same_marks (v, r) c \<Longrightarrow> same_marks (v(n \<mapsto> True), r(n \<mapsto> True)) (c(n \<mapsto> 1))"
  by (simp add: same_marks_def)

lemma visit_same:
  assumes "\<And>node st c stack. same_marks st c \<Longrightarrow> same_result (dfs node st) (dfs' node (c, stack))"
  shows "same_marks st c \<Longrightarrow> same_result (visit_neighbours dfs ns st) (visit dfs' ns (c, stack))"
proof (induction ns arbitrary: st c stack)
  case Nil
  then show ?case by simp
next
  case (Cons nb ns)
  obtain v r where st: "st = (v, r)" by (cases st)
  have m: "marked v nb = (colour_of c nb \<noteq> 0)" "marked r nb = (colour_of c nb = 1)"
    using Cons.prems by (simp_all add: same_marks_def st)
  show ?case
  proof (cases "colour_of c nb = 0")
    case True
    have "same_result (dfs nb (v, r)) (dfs' nb (c, stack))" using assms Cons.prems st by blast
    then show ?thesis
      by (cases rule: same_result_cases) (simp_all add: st m True Cons.IH)
  next
    case False
    then show ?thesis using Cons.IH [OF Cons.prems] m by (simp add: st)
  qed
qed

text \<open>A visited mark is never taken back.\<close>

lemma visit_keeps:
  assumes "\<And>node st found st'. dfs node st = Some (found, st') \<Longrightarrow> marked (fst st) n \<Longrightarrow> marked (fst st') n"
  shows "visit_neighbours dfs ns st = Some (found, st') \<Longrightarrow> marked (fst st) n \<Longrightarrow> marked (fst st') n"
proof (induction ns arbitrary: st)
  case Nil
  then show ?case by simp
next
  case (Cons nb ns)
  obtain v r where st: "st = (v, r)" by (cases st)
  show ?case
    using Cons.prems Cons.IH assms [of nb st]
    by (auto simp: st split: option.splits if_splits)
qed

lemma dfs_keeps:
  "fixture_dfs fuel adj node st = Some (found, st') \<Longrightarrow> marked (fst st) n \<Longrightarrow> marked (fst st') n"
proof (induction fuel arbitrary: node st found st')
  case 0
  then show ?case by simp
next
  case (Suc fuel)
  obtain v r where st: "st = (v, r)" by (cases st)
  have "marked a n" if "marked v n"
    "visit_neighbours (fixture_dfs fuel adj) ns (v(node \<mapsto> True), r(node \<mapsto> True)) = Some (found, (a, b))"
    for ns found a b
    using visit_keeps [of "fixture_dfs fuel adj" n ns, OF _ that(2)] Suc.IH that(1) by force
  then show ?case
    using Suc.prems by (auto simp: st Let_def split: option.splits if_splits)
qed

lemma dfs_same:
  "same_marks st c \<Longrightarrow> same_result (fixture_dfs fuel adj node st) (dfs_cycle fuel adj node (c, stack))"
proof (induction fuel arbitrary: node st c stack)
  case 0
  then show ?case by simp
next
  case (Suc fuel)
  obtain v r where st: "st = (v, r)" by (cases st)
  let ?st = "(v(node \<mapsto> True), r(node \<mapsto> True))"
  have "same_marks ?st (c(node \<mapsto> 1))" using Suc.prems st same_marks_enter by simp
  then have "same_result (visit_neighbours (fixture_dfs fuel adj) ns ?st)
      (visit (dfs_cycle fuel adj) ns (c(node \<mapsto> 1), stack @ [node]))" for ns
    by (intro visit_same Suc.IH)
  with \<open>same_marks ?st (c(node \<mapsto> 1))\<close> have "same_result
      (case om_get adj node of None \<Rightarrow> Some (False, ?st)
       | Some ns \<Rightarrow> visit_neighbours (fixture_dfs fuel adj) ns ?st)
      (case om_get adj node of None \<Rightarrow> Some (Inr (c(node \<mapsto> 1), stack @ [node]))
       | Some ns \<Rightarrow> visit (dfs_cycle fuel adj) ns (c(node \<mapsto> 1), stack @ [node]))"
    by (simp split: option.split)
  moreover have "marked (fst st') node"
    if "(case om_get adj node of None \<Rightarrow> Some (False, ?st)
         | Some ns \<Rightarrow> visit_neighbours (fixture_dfs fuel adj) ns ?st) = Some (False, st')" for st'
    using that visit_keeps [of "fixture_dfs fuel adj" node, OF dfs_keeps]
    by (auto split: option.splits)
  ultimately show ?case
    by (cases rule: same_result_cases) (auto simp: st same_marks_def)
qed

lemma search_same:
  "same_marks st c \<Longrightarrow>
     search_nodes fuel adj ids st =
       (case detect_from fuel adj ids (c, stack) of
          None \<Rightarrow> None | Some (Inl cycle) \<Rightarrow> Some True | Some (Inr st') \<Rightarrow> Some False)"
proof (induction ids arbitrary: st c stack)
  case Nil
  then show ?case by simp
next
  case (Cons n ids)
  obtain v r where st: "st = (v, r)" by (cases st)
  have m: "marked v n = (colour_of c n \<noteq> 0)" using Cons.prems by (simp add: same_marks_def st)
  have "same_result (fixture_dfs fuel adj n (v, r)) (dfs_cycle fuel adj n (c, stack))"
    using Cons.prems by (simp add: st dfs_same)
  then show ?case
    using Cons.IH [OF Cons.prems]
    by (cases rule: same_result_cases) (simp_all add: st m Cons.IH)
qed

section \<open>Correctness\<close>

definition fixture_edges :: "'j graph_fixture \<Rightarrow> (string \<times> string) set" where
  "fixture_edges g = (\<lambda>e. (fe_from e, fe_to e)) ` set (gf_edges g)"

lemma fixture_adjacency_fold:
  "om_ok m \<Longrightarrow>
     om_ok (fold (\<lambda>e m. om_insert (fe_from e)
       ((case om_get m (fe_from e) of None \<Rightarrow> [] | Some ns \<Rightarrow> ns) @ [fe_to e]) m) es m) \<and>
     adj_of (fold (\<lambda>e m. om_insert (fe_from e)
       ((case om_get m (fe_from e) of None \<Rightarrow> [] | Some ns \<Rightarrow> ns) @ [fe_to e]) m) es m) n =
       adj_of m n @ map fe_to (filter (\<lambda>e. fe_from e = n) es)"
  by (induction es arbitrary: m) (auto simp: om_insert_ok adj_of_def om_get_insert)

lemma fixture_adjacency_edges: "adj_edges (fixture_adjacency (gf_edges g)) = fixture_edges g"
  using fixture_adjacency_fold [OF om_ok_Nil, of "gf_edges g"]
  by (auto simp: adj_edges_def fixture_adjacency_def fixture_edges_def adj_of_def)

text \<open>C20: The cycle check of a graph fixture returns within a recursion depth of the number of nodes
  and edges. It only reports cycles that exist, and when every edge starts at a listed node it
  reports a cycle exactly if there is one.\<close>

theorem has_cycle_correct:
  "case has_cycle (List.length (gf_nodes g) + List.length (gf_edges g) + extra) g of
     None \<Rightarrow> False
   | Some found \<Rightarrow>
       (if found then \<not> acyclic (fixture_edges g)
        else if list_all (\<lambda>e. fe_from e \<in> fn_id ` set (gf_nodes g)) (gf_edges g)
        then acyclic (fixture_edges g) else True)"
proof -
  let ?adj = "fixture_adjacency (gf_edges g)" and ?ids = "map fn_id (gf_nodes g)"
  let ?fuel = "List.length (gf_nodes g) + List.length (gf_edges g) + extra"
  let ?U = "set (?ids @ map fe_to (gf_edges g))"
  note E = fixture_adjacency_edges [of g]
  have "same_marks (Map.empty, Map.empty) Map.empty"
    by (simp add: same_marks_def marked_def colour_of_def)
  from search_same [OF this, of ?fuel ?adj ?ids "[]"]
  have run: "has_cycle ?fuel g = (case detect_from ?fuel ?adj ?ids (Map.empty, []) of
      None \<Rightarrow> None | Some (Inl cycle) \<Rightarrow> Some True | Some (Inr st') \<Rightarrow> Some False)"
    by (simp add: has_cycle_def)
  have "fixture_edges g `` ?U \<subseteq> ?U" by (auto simp: fixture_edges_def)
  moreover have "card ?U \<le> ?fuel"
    using card_length [of "?ids @ map fe_to (gf_edges g)"] by simp
  moreover have "dfs_inv ?adj (Map.empty, [])" using dfs_inv_start [of ?adj "[]"] by simp
  ultimately have res: "case detect_from ?fuel ?adj ?ids (Map.empty, []) of
        None \<Rightarrow> False
      | Some (Inl cycle) \<Rightarrow> closed_walk (fixture_edges g) cycle
      | Some (Inr (c', stack)) \<Rightarrow> dfs_inv ?adj (c', []) \<and> blacks Map.empty \<union> set ?ids \<subseteq> blacks c'"
    unfolding E [symmetric] by (intro detect_from_ok) auto
  have "acyclic (fixture_edges g)"
    if "dfs_inv ?adj (c', [])" "set ?ids \<subseteq> blacks c'"
      "list_all (\<lambda>e. fe_from e \<in> fn_id ` set (gf_nodes g)) (gf_edges g)" for c'
  proof -
    have "fixture_edges g `` blacks c' \<subseteq> blacks c'" and ac: "acyclic (fixture_edges g \<inter> blacks c' \<times> blacks c')"
      using that(1) by (simp_all add: dfs_inv_def E)
    moreover have "fst ` fixture_edges g \<subseteq> blacks c'"
      using that(2,3) by (auto simp: fixture_edges_def list_all_iff)
    ultimately have "fixture_edges g \<inter> blacks c' \<times> blacks c' = fixture_edges g" by force
    with ac show ?thesis by simp
  qed
  with res show ?thesis
    unfolding run by (auto simp: closed_walk_cyclic split: option.splits sum.splits)
qed

end
