(* ===== verification/Quality_Gates.thy ===== *)
theory Quality_Gates
  imports Ordered_Map Float_Order "HOL-Library.List_Lexorder" "HOL-Library.Char_ord"
begin

text \<open>
  Quality gates, load scenarios and the test strategy of \<open>ify-quality\<close> (\<open>gates.rs\<close>,
  \<open>load.rs\<close>, \<open>strategy.rs\<close>), and the contract their registries share: a registration under a new
  name is kept, one under a known name is refused and changes nothing.

  Comparisons of \<open>f64\<close> are those of \<open>Float_Order\<close>; the subtraction in an equality gate, and the
  divisions of the load runner, are arguments. A \<open>HashMap\<close> that is iterated over is kept in key
  order. The clock readings of the load runner are its arguments.
\<close>

section \<open>Registries\<close>

locale named_registry =
  fixes add :: "'i \<Rightarrow> 's \<Rightarrow> ('e + unit) \<times> 's"
    and lookup :: "'s \<Rightarrow> string \<Rightarrow> 'i option"
    and name_of :: "'i \<Rightarrow> string"
    and duplicate :: "string \<Rightarrow> 'e"
    and wf :: "'s \<Rightarrow> bool"
  assumes add_new: "wf s \<Longrightarrow> lookup s (name_of i) = None \<Longrightarrow>
        fst (add i s) = Inr () \<and> wf (snd (add i s))
        \<and> lookup (snd (add i s)) = (lookup s)(name_of i \<mapsto> i)"
    and add_known: "wf s \<Longrightarrow> lookup s (name_of i) = Some j \<Longrightarrow>
        add i s = (Inl (duplicate (name_of i)), s)"
begin

definition add_all :: "'i list \<Rightarrow> 's \<Rightarrow> 's" where
  "add_all is s = fold (\<lambda>i s. snd (add i s)) is s"

lemma add_wf: "wf s \<Longrightarrow> wf (snd (add i s))"
  using add_new [of s i] add_known [of s i] by (cases "lookup s (name_of i)") auto

lemma add_lookup:
  "wf s \<Longrightarrow> lookup (snd (add i s)) n =
     (if n = name_of i \<and> lookup s n = None then Some i else lookup s n)"
  using add_new [of s i] add_known [of s i] by (cases "lookup s (name_of i)") auto

text \<open>The first registration of a name stays: what a registry holds after any number of calls.\<close>

lemma add_all_lookup:
  "wf s \<Longrightarrow> wf (add_all is s) \<and>
     lookup (add_all is s) n =
       (case lookup s n of Some j \<Rightarrow> Some j | None \<Rightarrow> find (\<lambda>i. name_of i = n) is)"
  by (induction "is" arbitrary: s)
    (auto simp: add_all_def add_wf add_lookup split: option.split)

lemma add_all_distinct:
  assumes "wf s" "lookup s = Map.empty" "distinct (map name_of is)" "i \<in> set is"
  shows "lookup (add_all is s) (name_of i) = Some i"
proof -
  have "find (\<lambda>j. name_of j = name_of i) is = Some i"
    using assms(3,4) by (induction "is") (auto simp: inj_on_def)
  with add_all_lookup [OF assms(1), of "is" "name_of i"] assms(2) show ?thesis by simp
qed

end

section \<open>Gates (gates.rs)\<close>

datatype gate_error = DuplicateGate string | MissingMetric string

datatype gate_category =
    TestPassing | GateCoverage | GateSecurity | GatePerformance | ContractConformance
  | GateDocumentation

text \<open>The report only ever looks metrics up.\<close>

type_synonym merge_readiness_report = "string \<rightharpoonup> f64"

definition new_merge_report :: merge_readiness_report where
  "new_merge_report = Map.empty"

definition record_metric :: "string \<Rightarrow> f64 \<Rightarrow> merge_readiness_report \<Rightarrow> merge_readiness_report" where
  "record_metric name value r = r(name \<mapsto> value)"

definition get_metric :: "merge_readiness_report \<Rightarrow> string \<Rightarrow> f64 option" where
  "get_metric r name = r name"

datatype gate_op = AtLeast | AtMost | Equal

record merge_gate =
  qg_name :: string
  qg_category :: gate_category
  qg_metric :: string
  qg_op :: gate_op
  qg_threshold :: f64
  qg_rationale :: string

definition new_gate ::
  "string \<Rightarrow> gate_category \<Rightarrow> string \<Rightarrow> gate_op \<Rightarrow> f64 \<Rightarrow> string \<Rightarrow> merge_gate" where
  "new_gate name category metric op threshold rationale =
     \<lparr>qg_name = name, qg_category = category, qg_metric = metric, qg_op = op,
      qg_threshold = threshold, qg_rationale = rationale\<rparr>"

record gate_outcome =
  go_gate_name :: string
  go_passed :: bool
  go_metric_value :: f64
  go_threshold :: f64

text \<open>The tolerance \<open>1e-9\<close>, and the comparison; \<open>sub\<close> is the subtraction of floats.\<close>

definition gate_epsilon :: f64 where
  "gate_epsilon = 0x3E112E0BE826D695"

definition gate_holds :: "(f64 \<Rightarrow> f64 \<Rightarrow> f64) \<Rightarrow> gate_op \<Rightarrow> f64 \<Rightarrow> f64 \<Rightarrow> bool" where
  "gate_holds sub op value threshold =
     (case op of
        AtLeast \<Rightarrow> f64_le threshold value
      | AtMost \<Rightarrow> f64_le value threshold
      | Equal \<Rightarrow> f64_lt (f64_magnitude (sub value threshold)) gate_epsilon)"

definition evaluate_gate ::
  "(f64 \<Rightarrow> f64 \<Rightarrow> f64) \<Rightarrow> merge_readiness_report \<Rightarrow> merge_gate \<Rightarrow> gate_error + gate_outcome" where
  "evaluate_gate sub report g =
     (case get_metric report (qg_metric g) of
        None \<Rightarrow> Inl (MissingMetric (qg_metric g))
      | Some value \<Rightarrow>
          Inr \<lparr>go_gate_name = qg_name g, go_passed = gate_holds sub (qg_op g) value (qg_threshold g),
               go_metric_value = value, go_threshold = qg_threshold g\<rparr>)"

type_synonym merge_gate_set = "merge_gate list"

definition add_gate :: "merge_gate \<Rightarrow> merge_gate_set \<Rightarrow> (gate_error + unit) \<times> merge_gate_set" where
  "add_gate gate gs =
     (if list_ex (\<lambda>g. qg_name g = qg_name gate) gs then (Inl (DuplicateGate (qg_name gate)), gs)
      else (Inr (), gs @ [gate]))"

definition canonical_gate_list :: "merge_gate list" where
  "canonical_gate_list =
        [
new_gate ''all-unit-tests-pass'' TestPassing ''unit_tests_passed'' Equal 0x3FF0000000000000
           ''All unit tests must pass (1.0 = pass, 0.0 = failure)'',
         new_gate ''all-integration-tests-pass'' TestPassing ''integration_tests_passed'' Equal 0x3FF0000000000000
           ''All integration tests must pass'',
         new_gate ''line-coverage-min-80'' GateCoverage ''line_coverage_pct'' AtLeast 0x4054000000000000
           ''Line coverage must be at least 80 %'',
         new_gate ''branch-coverage-min-70'' GateCoverage ''branch_coverage_pct'' AtLeast 0x4051800000000000
           ''Branch coverage must be at least 70 %'',
         new_gate ''no-critical-security-findings'' GateSecurity ''critical_security_findings'' AtMost 0x0000000000000000
           ''Zero critical security findings allowed'',
         new_gate ''no-high-security-findings'' GateSecurity ''high_security_findings'' AtMost 0x0000000000000000
           ''Zero high-severity security findings allowed'',
         new_gate ''p99-latency-regression-max-20pct'' GatePerformance ''p99_latency_regression_pct'' AtMost 0x4034000000000000
           ''p99 latency must not regress by more than 20 % vs baseline'',
         new_gate ''throughput-regression-max-10pct'' GatePerformance ''throughput_regression_pct'' AtMost 0x4024000000000000
           ''Throughput must not regress by more than 10 % vs baseline'',
         new_gate ''contract-conformance-pass'' ContractConformance ''contract_conformance_passed'' Equal 0x3FF0000000000000
           ''All IDL contract conformance tests must pass'',
         new_gate ''changelog-present'' GateDocumentation ''changelog_entry_present'' Equal 0x3FF0000000000000
           ''A CHANGELOG entry describing the change must be present'']"

definition canonical_gates :: merge_gate_set where
  "canonical_gates = fold (\<lambda>g gs. snd (add_gate g gs)) canonical_gate_list []"

record gate_set_verdict =
  gv_all_passed :: bool
  gv_outcomes :: "gate_outcome list"

definition gate_outcome_of ::
  "(f64 \<Rightarrow> f64 \<Rightarrow> f64) \<Rightarrow> merge_readiness_report \<Rightarrow> merge_gate \<Rightarrow> gate_outcome" where
  "gate_outcome_of sub report gate =
     (case evaluate_gate sub report gate of
        Inr x \<Rightarrow> x
      | Inl _ \<Rightarrow> \<lparr>go_gate_name = qg_name gate, go_passed = False, go_metric_value = 0,
                 go_threshold = qg_threshold gate\<rparr>)"

definition evaluate_all ::
  "(f64 \<Rightarrow> f64 \<Rightarrow> f64) \<Rightarrow> merge_readiness_report \<Rightarrow> merge_gate_set \<Rightarrow> gate_set_verdict" where
  "evaluate_all sub report gs =
     (let outcomes = map (gate_outcome_of sub report) gs
      in \<lparr>gv_all_passed = list_all go_passed outcomes, gv_outcomes = outcomes\<rparr>)"

definition failed_gates :: "gate_set_verdict \<Rightarrow> gate_outcome list" where
  "failed_gates v = filter (\<lambda>x. \<not> go_passed x) (gv_outcomes v)"

section \<open>Load scenarios (load.rs)\<close>

datatype load_error =
    DuplicateScenario string
  | ThroughputRegression f64 f64
  | LatencyRegression f64 f64

datatype load_target = LoadOrchestrator | LoadMeshArtifactBus | LoadActionLog | LoadNodeGraph

record load_scenario =
  ls_name :: string
  ls_target :: load_target
  ls_concurrency :: nat
  ls_total_ops :: u64
  ls_min_throughput_ops_per_sec :: f64
  ls_max_p99_latency_ms :: f64
  ls_description :: string

definition new_load_scenario ::
  "string \<Rightarrow> load_target \<Rightarrow> nat \<Rightarrow> u64 \<Rightarrow> f64 \<Rightarrow> f64 \<Rightarrow> string \<Rightarrow> load_scenario" where
  "new_load_scenario name target concurrency total_ops min_throughput max_p99 description =
     \<lparr>ls_name = name, ls_target = target, ls_concurrency = concurrency, ls_total_ops = total_ops,
      ls_min_throughput_ops_per_sec = min_throughput, ls_max_p99_latency_ms = max_p99,
      ls_description = description\<rparr>"

record latency_histogram =
  lh_p50_ms :: f64
  lh_p95_ms :: f64
  lh_p99_ms :: f64
  lh_max_ms :: f64

record load_result =
  lr_scenario :: string
  lr_ops_completed :: u64
  lr_elapsed_secs :: f64
  lr_throughput_ops_per_sec :: f64
  lr_latency :: latency_histogram
  lr_passed :: bool

definition evaluate_load ::
  "load_scenario \<Rightarrow> load_result \<Rightarrow> (load_error + unit) \<times> load_result" where
  "evaluate_load sc r =
     (if f64_lt (lr_throughput_ops_per_sec r) (ls_min_throughput_ops_per_sec sc)
      then (Inl (ThroughputRegression (lr_throughput_ops_per_sec r) (ls_min_throughput_ops_per_sec sc)),
            r\<lparr>lr_passed := False\<rparr>)
      else if f64_lt (ls_max_p99_latency_ms sc) (lh_p99_ms (lr_latency r))
      then (Inl (LatencyRegression (lh_p99_ms (lr_latency r)) (ls_max_p99_latency_ms sc)),
            r\<lparr>lr_passed := False\<rparr>)
      else (Inr (), r\<lparr>lr_passed := True\<rparr>))"

type_synonym load_registry = "(string, load_scenario) om"

definition add_scenario :: "load_scenario \<Rightarrow> load_registry \<Rightarrow> (load_error + unit) \<times> load_registry" where
  "add_scenario sc r =
     (if om_contains r (ls_name sc) then (Inl (DuplicateScenario (ls_name sc)), r)
      else (Inr (), om_insert (ls_name sc) sc r))"

definition get_scenario :: "load_registry \<Rightarrow> string \<Rightarrow> load_scenario option" where
  "get_scenario r name = om_get r name"

definition canonical_scenario_list :: "load_scenario list" where
  "canonical_scenario_list =
        [
new_load_scenario ''orchestrator-single-threaded-baseline'' LoadOrchestrator 1 1000 0x407F400000000000 0x4049000000000000
           ''Single-threaded orchestrator baseline: 1 000 sequential task submissions'',
         new_load_scenario ''orchestrator-high-concurrency'' LoadOrchestrator 16 10000 0x40B3880000000000 0x4059000000000000
           ''High-concurrency orchestrator: 16 concurrent workers, 10 000 tasks'',
         new_load_scenario ''mesh-produce-consume-baseline'' LoadMeshArtifactBus 1 1000 0x408F400000000000 0x4034000000000000
           ''Single-threaded mesh produce/consume: 1 000 artifacts'',
         new_load_scenario ''mesh-high-concurrency'' LoadMeshArtifactBus 8 5000 0x40A7700000000000 0x4049000000000000
           ''High-concurrency mesh: 8 concurrent producers/consumers, 5 000 artifacts'',
         new_load_scenario ''actionlog-write-throughput'' LoadActionLog 4 10000 0x40C3880000000000 0x4024000000000000
           ''ActionLog write throughput: 4 concurrent writers, 10 000 events'']"

definition canonical_scenarios :: load_registry where
  "canonical_scenarios = fold (\<lambda>sc r. snd (add_scenario sc r)) canonical_scenario_list []"

text \<open>
  \<open>run_noop\<close> on the nanosecond latencies it measured and the elapsed seconds. \<open>index p n\<close> is
  \<open>((p / 100.0) * n as f64) as usize\<close>, \<open>to_ms\<close> the division by a million, \<open>rate\<close> the quotient
  of operations and seconds.
\<close>

definition percentile_ms ::
  "(f64 \<Rightarrow> nat \<Rightarrow> nat) \<Rightarrow> (u64 \<Rightarrow> f64) \<Rightarrow> u64 list \<Rightarrow> f64 \<Rightarrow> f64" where
  "percentile_ms index to_ms latencies p =
     (let n = List.length latencies in to_ms (latencies ! min (index p n) (n - 1)))"

definition run_noop ::
  "(f64 \<Rightarrow> nat \<Rightarrow> nat) \<Rightarrow> (u64 \<Rightarrow> f64) \<Rightarrow> (u64 \<Rightarrow> f64 \<Rightarrow> f64) \<Rightarrow> u64 list \<Rightarrow> f64 \<Rightarrow> load_scenario
     \<Rightarrow> load_result" where
  "run_noop index to_ms rate measured elapsed_secs sc =
     (if ls_total_ops sc = 0
      then \<lparr>lr_scenario = ls_name sc, lr_ops_completed = 0, lr_elapsed_secs = 0,
            lr_throughput_ops_per_sec = 0,
            lr_latency = \<lparr>lh_p50_ms = 0, lh_p95_ms = 0, lh_p99_ms = 0, lh_max_ms = 0\<rparr>,
            lr_passed = False\<rparr>
      else
        let latencies = sort (take (unat (ls_total_ops sc)) measured);
            throughput = (if f64_le elapsed_secs 0 then 0 else rate (ls_total_ops sc) elapsed_secs);
            r = \<lparr>lr_scenario = ls_name sc, lr_ops_completed = ls_total_ops sc,
                 lr_elapsed_secs = elapsed_secs, lr_throughput_ops_per_sec = throughput,
                 lr_latency =
                   \<lparr>lh_p50_ms = percentile_ms index to_ms latencies 0x4049000000000000,
                    lh_p95_ms = percentile_ms index to_ms latencies 0x4057C00000000000,
                    lh_p99_ms = percentile_ms index to_ms latencies 0x4058C00000000000,
                    lh_max_ms = to_ms (if latencies = [] then 0 else List.last latencies)\<rparr>,
                 lr_passed = False\<rparr>
        in snd (evaluate_load sc r))"

section \<open>The test strategy (strategy.rs)\<close>

datatype strategy_error = InvalidConfig string

datatype pyramid_level = UnitLevel | IntegrationLevel | PerformanceLevel

datatype tested_layer =
    LKernel | LRuntimeCore | LController | LCanvas | LReliability | LSecurity | LCrossLayer

record coverage_threshold =
  cv_line_coverage_pct :: f64
  cv_branch_coverage_pct :: f64

text \<open>\<open>(0.0..=100.0).contains(x)\<close>, and the two bytes of the message's dash around it.\<close>

definition percentage :: "f64 \<Rightarrow> bool" where
  "percentage x = (f64_le 0 x \<and> f64_le x 0x4059000000000000)"

definition range_text :: string where
  "range_text = '' must be 0'' @ [CHR 0xE2, CHR 0x80, CHR 0x93] @ ''100, got ''"

definition new_threshold ::
  "(f64 \<Rightarrow> string) \<Rightarrow> f64 \<Rightarrow> f64 \<Rightarrow> strategy_error + coverage_threshold" where
  "new_threshold show_f64 line_pct branch_pct =
     (if \<not> percentage line_pct
      then Inl (InvalidConfig (''line_coverage_pct'' @ range_text @ show_f64 line_pct))
      else if \<not> percentage branch_pct
      then Inl (InvalidConfig (''branch_coverage_pct'' @ range_text @ show_f64 branch_pct))
      else Inr \<lparr>cv_line_coverage_pct = line_pct, cv_branch_coverage_pct = branch_pct\<rparr>)"

record timing_budget =
  tb_max_per_test_ms :: u64
  tb_max_suite_secs :: u64

definition UNIT_BUDGET :: timing_budget where
  "UNIT_BUDGET = \<lparr>tb_max_per_test_ms = 100, tb_max_suite_secs = 60\<rparr>"

definition INTEGRATION_BUDGET :: timing_budget where
  "INTEGRATION_BUDGET = \<lparr>tb_max_per_test_ms = 10000, tb_max_suite_secs = 300\<rparr>"

definition PERFORMANCE_BUDGET :: timing_budget where
  "PERFORMANCE_BUDGET = \<lparr>tb_max_per_test_ms = - 1, tb_max_suite_secs = 600\<rparr>"

record test_suite_descriptor =
  ts_name :: string
  ts_level :: pyramid_level
  ts_layer :: tested_layer
  ts_budget :: timing_budget
  ts_coverage :: "coverage_threshold option"
  ts_required_for_merge :: bool

definition new_suite ::
  "string \<Rightarrow> pyramid_level \<Rightarrow> tested_layer \<Rightarrow> timing_budget \<Rightarrow> coverage_threshold option \<Rightarrow> bool
     \<Rightarrow> test_suite_descriptor" where
  "new_suite name level layer budget coverage required =
     \<lparr>ts_name = name, ts_level = level, ts_layer = layer, ts_budget = budget,
      ts_coverage = coverage, ts_required_for_merge = required\<rparr>"

type_synonym test_strategy = "test_suite_descriptor list"

definition register_suite :: "test_suite_descriptor \<Rightarrow> test_strategy \<Rightarrow> test_strategy" where
  "register_suite suite s = s @ [suite]"

text \<open>The three loops of \<open>canonical\<close>.\<close>

definition register_suites ::
  "pyramid_level \<Rightarrow> timing_budget \<Rightarrow> coverage_threshold option \<Rightarrow> bool
     \<Rightarrow> (string \<times> tested_layer) list \<Rightarrow> test_strategy \<Rightarrow> test_strategy" where
  "register_suites level budget coverage required entries s =
     fold (\<lambda>(name, layer). register_suite (new_suite name level layer budget coverage required)) entries s"

definition canonical_strategy :: test_strategy where
  "canonical_strategy =
     (let line80 = \<lparr>cv_line_coverage_pct = 0x4054000000000000, cv_branch_coverage_pct = 0x4051800000000000\<rparr>;
          line70 = \<lparr>cv_line_coverage_pct = 0x4051800000000000, cv_branch_coverage_pct = 0x404E000000000000\<rparr>;
          s = register_suites UnitLevel UNIT_BUDGET (Some line80) True
                [(''kernel-unit'', LKernel), (''runtime-core-unit'', LRuntimeCore),
                 (''controller-unit'', LController), (''canvas-unit'', LCanvas),
                 (''reliability-unit'', LReliability), (''security-unit'', LSecurity)] [];
          s = register_suites IntegrationLevel INTEGRATION_BUDGET (Some line70) True
                [(''kernel-runtime-ffi-integration'', LCrossLayer),
                 (''actionlog-completeness-integration'', LCrossLayer),
                 (''mesh-provenance-integration'', LCrossLayer)] s
      in register_suites PerformanceLevel PERFORMANCE_BUDGET None False
           [(''scheduler-throughput-perf'', LKernel), (''executor-latency-perf'', LRuntimeCore),
            (''actionlog-write-throughput-perf'', LController),
            (''mesh-artifact-write-throughput-perf'', LController)] s)"

definition required_suites :: "test_strategy \<Rightarrow> test_suite_descriptor list" where
  "required_suites s = filter ts_required_for_merge s"

definition get_suite :: "test_strategy \<Rightarrow> string \<Rightarrow> test_suite_descriptor option" where
  "get_suite s name = find (\<lambda>x. ts_name x = name) s"

end
