(* ===== verification/Quality_Contract.thy ===== *)
theory Quality_Contract
  imports Quality_Gates
begin

text \<open>
  Contract tests, golden snapshots, security scanners, the release checklist and the test report of
  \<open>ify-quality\<close> (\<open>contract.rs\<close>, \<open>golden.rs\<close>, \<open>security_testing.rs\<close>, \<open>rc_checklist.rs\<close>, \<open>report.rs\<close>). A
  \<open>HashMap\<close> is kept in key order. \<open>serde_json::to_string_pretty\<close> is an argument; an \<open>f32\<close> is its
  bit pattern.
\<close>

section \<open>Interface contracts (contract.rs)\<close>

datatype contract_error = DuplicateContract string | UnknownContract string

datatype interface_layer = KernelAbi | RustTraits | MeshProtocol | ActionLogSchema | EditorApi

record contract_invariant =
  ci_id :: string
  ci_description :: string
  ci_mandatory :: bool

definition mandatory_invariant :: "string \<Rightarrow> string \<Rightarrow> contract_invariant" where
  "mandatory_invariant i description =
     \<lparr>ci_id = i, ci_description = description, ci_mandatory = True\<rparr>"

definition advisory_invariant :: "string \<Rightarrow> string \<Rightarrow> contract_invariant" where
  "advisory_invariant i description =
     \<lparr>ci_id = i, ci_description = description, ci_mandatory = False\<rparr>"

record interface_contract =
  ic_name :: string
  ic_layer :: interface_layer
  ic_version :: string
  ic_invariants :: "contract_invariant list"

definition new_interface_contract :: "string \<Rightarrow> interface_layer \<Rightarrow> string \<Rightarrow> interface_contract" where
  "new_interface_contract name layer version =
     \<lparr>ic_name = name, ic_layer = layer, ic_version = version, ic_invariants = []\<rparr>"

definition with_invariant :: "contract_invariant \<Rightarrow> interface_contract \<Rightarrow> interface_contract" where
  "with_invariant i c = c\<lparr>ic_invariants := ic_invariants c @ [i]\<rparr>"

record probe_result =
  pb_contract :: string
  pb_invariant_id :: string
  pb_passed :: bool
  pb_message :: "string option"

definition probe_pass :: "string \<Rightarrow> string \<Rightarrow> probe_result" where
  "probe_pass contract invariant_id =
     \<lparr>pb_contract = contract, pb_invariant_id = invariant_id, pb_passed = True, pb_message = None\<rparr>"

definition probe_fail :: "string \<Rightarrow> string \<Rightarrow> string \<Rightarrow> probe_result" where
  "probe_fail contract invariant_id message =
     \<lparr>pb_contract = contract, pb_invariant_id = invariant_id, pb_passed = False,
      pb_message = Some message\<rparr>"

type_synonym contract_registry = "(string, interface_contract) om"

definition add_contract ::
  "interface_contract \<Rightarrow> contract_registry \<Rightarrow> (contract_error + unit) \<times> contract_registry" where
  "add_contract c r =
     (if om_contains r (ic_name c) then (Inl (DuplicateContract (ic_name c)), r)
      else (Inr (), om_insert (ic_name c) c r))"

definition get_contract :: "contract_registry \<Rightarrow> string \<Rightarrow> interface_contract option" where
  "get_contract r name = om_get r name"

definition canonical_contract_list :: "interface_contract list" where
  "canonical_contract_list =
        
[fold with_invariant
           [mandatory_invariant ''produce-returns-artifact-id''
              ''produce() must return a non-empty ArtifactId on success'',
            mandatory_invariant ''consume-returns-latest-immutable''
              ''consume() on an Immutable artifact must always return the same bytes'',
            mandatory_invariant ''snapshot-is-consistent''
              ''snapshot() must capture a point-in-time view with no partial writes'',
            advisory_invariant ''diff-patch-idempotent''
              ''Applying a patch twice must yield the same result as applying it once'']
           (new_interface_contract ''mesh-artifact-api-v1'' RustTraits ''1.0.0''),
         fold with_invariant
           [mandatory_invariant ''emit-records-event''
              ''emit() must persist the event before returning'',
            mandatory_invariant ''replay-ordered''
              ''replay() must return events in emission order'',
            mandatory_invariant ''correlation-id-propagated''
              ''All emitted events must carry a non-empty correlation_id'']
           (new_interface_contract ''event-bus-api-v1'' RustTraits ''1.0.0''),
         fold with_invariant
           [mandatory_invariant ''plan-returns-dag''
              ''plan() must return a DAG with at least one node'',
            mandatory_invariant ''execute-emits-started-completed''
              ''execute() must emit NodeStarted and NodeCompleted (or NodeFailed) events'',
            mandatory_invariant ''report-includes-task-id''
              ''report() output must include the originating TaskId'']
           (new_interface_contract ''node-execution-api-v1'' RustTraits ''1.0.0''),
         fold with_invariant
           [mandatory_invariant ''ffi-init-returns-zero-on-success''
              ''ify_kernel_init() must return 0 on success, non-zero on failure'',
            mandatory_invariant ''task-id-monotonic''
              ''Consecutive ify_task_next() calls must return strictly increasing IDs'',
            mandatory_invariant ''alloc-returns-aligned-pointer''
              ''ify_alloc() must return a pointer aligned to at least 8 bytes, or NULL on OOM'']
           (new_interface_contract ''kernel-abi-v1'' KernelAbi ''1.0.0''),
         fold with_invariant
           [mandatory_invariant ''attach-interpreter-idempotent''
              ''Attaching the same interpreter twice must be a no-op (not an error)'',
            mandatory_invariant ''bind-runtime-returns-handle''
              ''bind_runtime() must return a non-null RuntimeHandle'']
           (new_interface_contract ''editor-integration-api-v1'' EditorApi ''1.0.0'')]"

definition canonical_contracts :: contract_registry where
  "canonical_contracts = fold (\<lambda>c r. snd (add_contract c r)) canonical_contract_list []"

text \<open>The runner is the list of recorded results.\<close>

definition record_probe :: "probe_result \<Rightarrow> probe_result list \<Rightarrow> probe_result list" where
  "record_probe probe runner = runner @ [probe]"

definition blocking_probe :: "contract_registry \<Rightarrow> probe_result \<Rightarrow> bool" where
  "blocking_probe registry probe =
     (\<not> pb_passed probe \<and>
      (case get_contract registry (pb_contract probe) of
         None \<Rightarrow> False
       | Some contract \<Rightarrow>
           (case find (\<lambda>i. ci_id i = pb_invariant_id probe) (ic_invariants contract) of
              None \<Rightarrow> False
            | Some i \<Rightarrow> ci_mandatory i)))"

definition all_mandatory_passed :: "contract_registry \<Rightarrow> probe_result list \<Rightarrow> bool" where
  "all_mandatory_passed registry runner = (\<not> list_ex (blocking_probe registry) runner)"

record contract_run_summary =
  cr_total :: nat
  cr_passed :: nat
  cr_failed :: nat

definition probe_summary :: "probe_result list \<Rightarrow> contract_run_summary" where
  "probe_summary runner =
     (let total = List.length runner; passed = List.length (filter pb_passed runner)
      in \<lparr>cr_total = total, cr_passed = passed, cr_failed = total - passed\<rparr>)"

section \<open>Golden snapshots (golden.rs)\<close>

datatype golden_error = SnapshotMissing string | SnapshotMismatch string string string

type_synonym f32_bits = "32 word"

datatype layout_node =
  LayoutNode (ly_component: string) (ly_bounds: "f32_bits \<times> f32_bits \<times> f32_bits \<times> f32_bits")
    (ly_attrs: "(string, string) om") (ly_children: "layout_node list")

definition layout_leaf :: "string \<Rightarrow> f32_bits \<times> f32_bits \<times> f32_bits \<times> f32_bits \<Rightarrow> layout_node" where
  "layout_leaf component bounds = LayoutNode component bounds om_empty []"

definition with_attr :: "string \<Rightarrow> string \<Rightarrow> layout_node \<Rightarrow> layout_node" where
  "with_attr key v n =
     LayoutNode (ly_component n) (ly_bounds n) (om_insert key v (ly_attrs n)) (ly_children n)"

definition with_child :: "layout_node \<Rightarrow> layout_node \<Rightarrow> layout_node" where
  "with_child child n =
     LayoutNode (ly_component n) (ly_bounds n) (ly_attrs n) (ly_children n @ [child])"

definition to_snapshot_string :: "(layout_node \<Rightarrow> string + string) \<Rightarrow> layout_node \<Rightarrow> string" where
  "to_snapshot_string pretty n =
     (case pretty n of
        Inr json \<Rightarrow> json
      | Inl err \<Rightarrow>
          [CHR 0x7B, CHR 0x22] @ ''serialization_error'' @ [CHR 0x22, CHR 0x3A, CHR 0x22] @ err
            @ [CHR 0x22, CHR 0x2C, CHR 0x22] @ ''component'' @ [CHR 0x22, CHR 0x3A, CHR 0x22]
            @ ly_component n @ [CHR 0x22, CHR 0x7D])"

text \<open>The store only looks snapshots up.\<close>

type_synonym golden_store = "string \<rightharpoonup> string"

definition new_golden_store :: golden_store where
  "new_golden_store = Map.empty"

definition insert_snapshot :: "string \<Rightarrow> string \<Rightarrow> golden_store \<Rightarrow> golden_store" where
  "insert_snapshot name snapshot s = s(name \<mapsto> snapshot)"

definition update_snapshot :: "string \<Rightarrow> string \<Rightarrow> golden_store \<Rightarrow> golden_store" where
  "update_snapshot name actual s = s(name \<mapsto> actual)"

definition assert_matches :: "golden_store \<Rightarrow> string \<Rightarrow> string \<Rightarrow> golden_error + unit" where
  "assert_matches s name actual =
     (case s name of
        None \<Rightarrow> Inl (SnapshotMissing name)
      | Some expected \<Rightarrow>
          if expected = actual then Inr () else Inl (SnapshotMismatch name expected actual))"

definition get_snapshot_text :: "golden_store \<Rightarrow> string \<Rightarrow> string option" where
  "get_snapshot_text s name = s name"

definition single_node_standard_zoom :: layout_node where
  "single_node_standard_zoom =
     with_child
        (with_attr ''status'' ''idle'' (with_attr ''label'' ''Start'' (layout_leaf ''canvas-node'' (0x42C80000, 0x42C80000, 0x43200000, 0x42A00000))))
      (with_attr ''theme'' ''dark'' (with_attr ''zoom'' ''1.0'' (layout_leaf ''canvas-viewport'' (0x00000000, 0x00000000, 0x44A00000, 0x44480000))))"

definition diamond_graph_layout :: layout_node where
  "diamond_graph_layout =
     with_child
        (with_attr ''id'' ''D'' (with_attr ''label'' ''Join'' (layout_leaf ''canvas-node'' (0x43C80000, 0x43AF0000, 0x43200000, 0x42A00000))))
      (with_child
        (with_attr ''id'' ''C'' (with_attr ''label'' ''Right'' (layout_leaf ''canvas-node'' (0x44160000, 0x43480000, 0x43200000, 0x42A00000))))
      (with_child
        (with_attr ''id'' ''B'' (with_attr ''label'' ''Left'' (layout_leaf ''canvas-node'' (0x43480000, 0x43480000, 0x43200000, 0x42A00000))))
      (with_child
        (with_attr ''id'' ''A'' (with_attr ''label'' ''Root'' (layout_leaf ''canvas-node'' (0x43C80000, 0x42480000, 0x43200000, 0x42A00000))))
      (with_attr ''zoom'' ''1.0'' (layout_leaf ''canvas-viewport'' (0x00000000, 0x00000000, 0x44A00000, 0x44480000))))))"

definition inspector_panel :: layout_node where
  "inspector_panel =
     with_child
        (with_attr ''section'' ''parameters'' (layout_leaf ''inspector-body'' (0x44610000, 0x42400000, 0x43BE0000, 0x443C0000)))
      (with_child
        (with_attr ''title'' ''Node Inspector'' (layout_leaf ''inspector-header'' (0x44610000, 0x00000000, 0x43BE0000, 0x42400000)))
      (with_attr ''visible'' ''true'' (layout_leaf ''inspector-panel'' (0x44610000, 0x00000000, 0x43BE0000, 0x44480000))))"
section \<open>Security scanners (security_testing.rs)\<close>

datatype security_testing_error = DuplicateScanner string

datatype finding_severity = SevInfo | SevLow | SevMedium | SevHigh | SevCritical

text \<open>The derived \<open>Ord\<close> is the order of the variants.\<close>

primrec severity_rank :: "finding_severity \<Rightarrow> nat" where
  "severity_rank SevInfo = 0"
| "severity_rank SevLow = 1"
| "severity_rank SevMedium = 2"
| "severity_rank SevHigh = 3"
| "severity_rank SevCritical = 4"

definition severity_le :: "finding_severity \<Rightarrow> finding_severity \<Rightarrow> bool" where
  "severity_le a b = (severity_rank a \<le> severity_rank b)"

definition severity_less :: "finding_severity \<Rightarrow> finding_severity \<Rightarrow> bool" where
  "severity_less a b = (severity_rank a < severity_rank b)"

instantiation finding_severity :: linorder
begin

definition less_eq_finding_severity :: "finding_severity \<Rightarrow> finding_severity \<Rightarrow> bool" where
  "a \<le> b = severity_le a b"

definition less_finding_severity :: "finding_severity \<Rightarrow> finding_severity \<Rightarrow> bool" where
  "a < b = severity_less a b"

instance
proof
  fix a b c :: finding_severity
  show "a \<le> b \<Longrightarrow> b \<le> a \<Longrightarrow> a = b"
    by (cases a; cases b) (simp_all add: less_eq_finding_severity_def severity_le_def)
qed (auto simp: less_eq_finding_severity_def less_finding_severity_def severity_le_def severity_less_def)

end

datatype pipeline_kind = Sast | Dast | Sca

record scanner_config =
  sn_name :: string
  sn_kind :: pipeline_kind
  sn_command :: string
  sn_fail_on_severity :: finding_severity
  sn_ci_enabled :: bool
  sn_options :: "string \<rightharpoonup> string"

definition new_scanner :: "string \<Rightarrow> pipeline_kind \<Rightarrow> string \<Rightarrow> finding_severity \<Rightarrow> scanner_config" where
  "new_scanner name kind command fail_on_severity =
     \<lparr>sn_name = name, sn_kind = kind, sn_command = command,
      sn_fail_on_severity = fail_on_severity, sn_ci_enabled = True, sn_options = Map.empty\<rparr>"

definition with_option :: "string \<Rightarrow> string \<Rightarrow> scanner_config \<Rightarrow> scanner_config" where
  "with_option key v c = c\<lparr>sn_options := (sn_options c)(key \<mapsto> v)\<rparr>"

record security_finding =
  sf_scanner :: string
  sf_severity :: finding_severity
  sf_title :: string
  sf_description :: string
  sf_location :: "string option"
  sf_advisory_id :: "string option"

definition new_finding :: "string \<Rightarrow> finding_severity \<Rightarrow> string \<Rightarrow> string \<Rightarrow> security_finding" where
  "new_finding scanner severity title description =
     \<lparr>sf_scanner = scanner, sf_severity = severity, sf_title = title,
      sf_description = description, sf_location = None, sf_advisory_id = None\<rparr>"

definition finding_at :: "string \<Rightarrow> security_finding \<Rightarrow> security_finding" where
  "finding_at location f = f\<lparr>sf_location := Some location\<rparr>"

definition with_advisory :: "string \<Rightarrow> security_finding \<Rightarrow> security_finding" where
  "with_advisory i f = f\<lparr>sf_advisory_id := Some i\<rparr>"

type_synonym security_pipeline = "(string, scanner_config) om"

definition add_scanner ::
  "scanner_config \<Rightarrow> security_pipeline \<Rightarrow> (security_testing_error + unit) \<times> security_pipeline" where
  "add_scanner c p =
     (if om_contains p (sn_name c) then (Inl (DuplicateScanner (sn_name c)), p)
      else (Inr (), om_insert (sn_name c) c p))"

definition canonical_scanner_list :: "scanner_config list" where
  "canonical_scanner_list =
        
[new_scanner ''cargo-audit'' Sca ''cargo audit --deny warnings'' SevHigh,
         new_scanner ''cargo-deny'' Sast ''cargo deny check'' SevHigh,
         with_option ''config'' ''p/rust''
           (new_scanner ''semgrep-rust'' Sast ''semgrep --config=p/rust --error'' SevHigh),
         new_scanner ''codeql'' Sast ''codeql database analyze --format=sarif-latest'' SevCritical,
         with_option ''risk-level'' ''medium''
           (new_scanner ''owasp-zap-baseline'' Dast ''zap-baseline.py -t http://localhost:8080'' SevHigh)]"

definition canonical_scanners :: security_pipeline where
  "canonical_scanners = fold (\<lambda>c p. snd (add_scanner c p)) canonical_scanner_list []"

definition ci_scanners :: "security_pipeline \<Rightarrow> scanner_config list" where
  "ci_scanners p = filter sn_ci_enabled (om_values p)"

definition get_scanner :: "security_pipeline \<Rightarrow> string \<Rightarrow> scanner_config option" where
  "get_scanner p name = om_get p name"

record pipeline_evaluation =
  pe_passed :: bool
  pe_total_findings :: nat
  pe_blocking_count :: nat
  pe_unknown_scanner_count :: nat

text \<open>One turn of the loop over the pair of counters.\<close>

definition count_finding :: "security_pipeline \<Rightarrow> security_finding \<Rightarrow> nat \<times> nat \<Rightarrow> nat \<times> nat" where
  "count_finding p f = (\<lambda>(blocking, unknown).
     case get_scanner p (sf_scanner f) of
       Some scanner \<Rightarrow>
         (if sf_severity f \<ge> sn_fail_on_severity scanner then blocking + 1 else blocking, unknown)
     | None \<Rightarrow> (blocking + 1, unknown + 1))"

definition evaluate_findings :: "security_pipeline \<Rightarrow> security_finding list \<Rightarrow> pipeline_evaluation" where
  "evaluate_findings p findings =
     (let (blocking, unknown) = fold (count_finding p) findings (0, 0)
      in \<lparr>pe_passed = (blocking = 0), pe_total_findings = List.length findings,
          pe_blocking_count = blocking, pe_unknown_scanner_count = unknown\<rparr>)"

section \<open>The release checklist (rc-checklist)\<close>

datatype rc_error = DuplicateItem string | UnknownItem string | NotComplete string

datatype rc_category =
    RcTesting | RcPerformance | RcSecurity | RcDocumentation | RcCompatibility | RcOperations
  | RcLegal

datatype item_state =
    ItemPending
  | ItemComplete
  | ItemSignedOff string string
  | ItemWaived string string

record rc_item =
  rc_item_id :: string
  rc_category :: rc_category
  rc_description :: string
  rc_evidence_required :: string
  rc_blocking :: bool
  rc_state :: item_state
  rc_evidence_link :: "string option"

definition blocking_item :: "string \<Rightarrow> rc_category \<Rightarrow> string \<Rightarrow> string \<Rightarrow> rc_item" where
  "blocking_item i category description evidence_required =
     \<lparr>rc_item_id = i, rc_category = category, rc_description = description,
      rc_evidence_required = evidence_required, rc_blocking = True, rc_state = ItemPending,
      rc_evidence_link = None\<rparr>"

definition advisory_item :: "string \<Rightarrow> rc_category \<Rightarrow> string \<Rightarrow> string \<Rightarrow> rc_item" where
  "advisory_item i category description evidence_required =
     (blocking_item i category description evidence_required)\<lparr>rc_blocking := False\<rparr>"

definition mark_complete :: "string \<Rightarrow> rc_item \<Rightarrow> rc_item" where
  "mark_complete evidence_link x =
     x\<lparr>rc_state := ItemComplete, rc_evidence_link := Some evidence_link\<rparr>"

definition sign_off :: "string \<Rightarrow> string \<Rightarrow> rc_item \<Rightarrow> (rc_error + unit) \<times> rc_item" where
  "sign_off reviewer timestamp x =
     (if rc_state x \<noteq> ItemComplete then (Inl (NotComplete (rc_item_id x)), x)
      else (Inr (), x\<lparr>rc_state := ItemSignedOff reviewer timestamp\<rparr>))"

definition waive :: "string \<Rightarrow> string \<Rightarrow> rc_item \<Rightarrow> rc_item" where
  "waive waived_by reason x = x\<lparr>rc_state := ItemWaived waived_by reason\<rparr>"

definition is_resolved :: "rc_item \<Rightarrow> bool" where
  "is_resolved x =
     (case rc_state x of
        ItemPending \<Rightarrow> False | ItemComplete \<Rightarrow> True | ItemSignedOff _ _ \<Rightarrow> True
      | ItemWaived _ _ \<Rightarrow> True)"

record rc_checklist =
  cl_rc_id :: string
  cl_created_at :: string
  cl_items :: "(string, rc_item) om"
  cl_item_order :: "string list"

definition new_checklist :: "string \<Rightarrow> string \<Rightarrow> rc_checklist" where
  "new_checklist rc_id created_at =
     \<lparr>cl_rc_id = rc_id, cl_created_at = created_at, cl_items = om_empty, cl_item_order = []\<rparr>"

definition add_item :: "rc_item \<Rightarrow> rc_checklist \<Rightarrow> (rc_error + unit) \<times> rc_checklist" where
  "add_item x cl =
     (if om_contains (cl_items cl) (rc_item_id x) then (Inl (DuplicateItem (rc_item_id x)), cl)
      else (Inr (), cl\<lparr>cl_item_order := cl_item_order cl @ [rc_item_id x],
                      cl_items := om_insert (rc_item_id x) x (cl_items cl)\<rparr>))"

text \<open>\<open>item_mut\<close> with what the caller does through the reference, and its result.\<close>

definition with_item :: "string \<Rightarrow> (rc_item \<Rightarrow> 'r \<times> rc_item) \<Rightarrow> rc_checklist \<Rightarrow> 'r option \<times> rc_checklist" where
  "with_item i act cl =
     (case om_get (cl_items cl) i of
        None \<Rightarrow> (None, cl)
      | Some x \<Rightarrow> (let (r, x') = act x in (Some r, cl\<lparr>cl_items := om_insert i x' (cl_items cl)\<rparr>)))"

definition checklist_item :: "rc_checklist \<Rightarrow> string \<Rightarrow> rc_item option" where
  "checklist_item cl i = om_get (cl_items cl) i"

definition items_ordered :: "rc_checklist \<Rightarrow> rc_item list" where
  "items_ordered cl = List.map_filter (om_get (cl_items cl)) (cl_item_order cl)"

definition is_release_ready :: "rc_checklist \<Rightarrow> bool" where
  "is_release_ready cl = list_all is_resolved (filter rc_blocking (om_values (cl_items cl)))"

definition blocking_unresolved :: "rc_checklist \<Rightarrow> rc_item list" where
  "blocking_unresolved cl =
     filter (\<lambda>x. rc_blocking x \<and> \<not> is_resolved x) (om_values (cl_items cl))"

definition canonical_item_list :: "rc_item list" where
  "canonical_item_list =
        
[blocking_item ''unit-tests-pass'' RcTesting
           ''All unit test suites pass with no failures''
           ''CI test job URL or cargo test output'',
         blocking_item ''integration-tests-pass'' RcTesting
           ''All integration test suites pass with no failures''
           ''CI integration job URL'',
         blocking_item ''coverage-thresholds-met'' RcTesting
           (''Line coverage '' @ [CHR 0xE2, CHR 0x89, CHR 0xA5] @ '' 80 % and branch coverage '' @ [CHR 0xE2, CHR 0x89, CHR 0xA5] @ '' 70 % for all layers'')
           ''Coverage report artifact link'',
         blocking_item ''contract-conformance-verified'' RcCompatibility
           ''All IDL contract conformance probes pass''
           ''Contract test run report'',
         advisory_item ''fuzz-campaigns-clean'' RcTesting
           ''No new crashes found in fuzz campaigns since previous RC''
           ''Fuzz campaign summary artifact'',
         blocking_item ''perf-no-throughput-regression'' RcPerformance
           ''Orchestrator and mesh throughput within 10 % of baseline''
           ''Benchmark comparison report'',
         blocking_item ''perf-no-p99-regression'' RcPerformance
           ''p99 latency within 20 % of baseline for all measured paths''
           ''Benchmark comparison report'',
         blocking_item ''sast-scan-clean'' RcSecurity
           ''SAST pipeline (cargo-audit, cargo-deny, semgrep, CodeQL) reports no critical/high findings''
           ''SAST scan report artifact'',
         blocking_item ''dast-scan-clean'' RcSecurity
           ''DAST pipeline reports no high-risk findings against local API surface''
           ''DAST scan report artifact'',
         advisory_item ''sbom-generated'' RcSecurity
           ''SBOM generated and attached as a release artifact''
           ''SBOM artifact link'',
         blocking_item ''changelog-updated'' RcDocumentation
           ''CHANGELOG entry written for this release''
           ''CHANGELOG.md diff link'',
         advisory_item ''api-docs-regenerated'' RcDocumentation
           ''Rust API docs regenerated with `cargo doc` and reviewed for completeness''
           ''cargo doc output / docs.rs preview'',
         blocking_item ''runbook-reviewed'' RcOperations
           ''Operational runbook reviewed and updated for this release''
           ''Runbook diff link'',
         blocking_item ''abi-compatibility-confirmed'' RcCompatibility
           ''Kernel ABI version negotiation tested against all supported runtime versions''
           ''ABI conformance test run output'']"

definition canonical_template :: "string \<Rightarrow> string \<Rightarrow> rc_checklist" where
  "canonical_template rc_id created_at =
     fold (\<lambda>x cl. snd (add_item x cl)) canonical_item_list (new_checklist rc_id created_at)"

text \<open>The Markdown report. \<open>category_debug\<close> is the derived \<open>Debug\<close> form of a category.\<close>

primrec category_debug :: "rc_category \<Rightarrow> string" where
  "category_debug RcTesting = ''Testing''"
| "category_debug RcPerformance = ''Performance''"
| "category_debug RcSecurity = ''Security''"
| "category_debug RcDocumentation = ''Documentation''"
| "category_debug RcCompatibility = ''Compatibility''"
| "category_debug RcOperations = ''Operations''"
| "category_debug RcLegal = ''Legal''"

definition item_marker :: "item_state \<Rightarrow> string" where
  "item_marker st =
     (case st of ItemPending \<Rightarrow> ''[ ]'' | ItemComplete \<Rightarrow> ''[~]'' | ItemSignedOff _ _ \<Rightarrow> ''[x]''
      | ItemWaived _ _ \<Rightarrow> ''[w]'')"

definition item_lines :: "rc_item \<Rightarrow> string list" where
  "item_lines x =
     (''- '' @ item_marker (rc_state x) @ '' **'' @ rc_item_id x @ ''**''
        @ (if rc_blocking x then '' _(blocking)_'' else '''') @ '': '' @ rc_description x)
     # (case rc_evidence_link x of None \<Rightarrow> [] | Some l \<Rightarrow> [''  - Evidence: '' @ l])"

definition category_lines :: "rc_checklist \<Rightarrow> rc_category \<Rightarrow> string list" where
  "category_lines cl cat =
     (let xs = filter (\<lambda>x. rc_category x = cat) (items_ordered cl)
      in if xs = [] then []
         else (''## '' @ category_debug cat) # concat (map item_lines xs) @ [''''])"

definition rc_categories :: "rc_category list" where
  "rc_categories = [RcTesting, RcPerformance, RcSecurity, RcDocumentation, RcCompatibility,
     RcOperations, RcLegal]"

text \<open>\<open>join\<close> with a newline; the marks before YES and NO are the bytes of their emoji.\<close>

fun join_lines :: "string list \<Rightarrow> string" where
  "join_lines [] = ''''"
| "join_lines [l] = l"
| "join_lines (l # ls) = l @ [CHR 0x0A] @ join_lines ls"

definition to_markdown :: "rc_checklist \<Rightarrow> string" where
  "to_markdown cl = join_lines
     ([''# Release Candidate Checklist '' @ [CHR 0xE2, CHR 0x80, CHR 0x94, CHR 0x20] @ cl_rc_id cl,
       ''_Created: '' @ cl_created_at cl @ ''_'', '''',
       ''**Release ready:** '' @ (if is_release_ready cl then [CHR 0xE2, CHR 0x9C, CHR 0x85] @ '' YES''
                                 else [CHR 0xE2, CHR 0x9D, CHR 0x8C] @ '' NO''), '''']
      @ concat (map (category_lines cl) rc_categories))"

section \<open>Test report (report.rs)\<close>

text \<open>
  The test report of \<open>ify-quality\<close> (\<open>report.rs\<close>): suite reports, the metrics derived from them
  for the quality gates, and the text panel. The suites are a \<open>HashMap\<close>, kept in key order; the
  sums, quotients and conversions of floats and the fixed-point forms of the panel are arguments. Sums of
  \<open>u64\<close> counts wrap, as in a build without overflow checks.
\<close>

section \<open>Records\<close>

datatype report_error = DuplicateSuite string

datatype suite_status = SuitePassed | SuiteFailed | SuiteSkipped | SuiteInProgress

record suite_report =
  sr_name :: string
  sr_status :: suite_status
  sr_passed :: u64
  sr_failed :: u64
  sr_skipped :: u64
  sr_elapsed_secs :: f64
  sr_line_coverage_pct :: "f64 option"
  sr_branch_coverage_pct :: "f64 option"
  sr_metadata :: "string \<rightharpoonup> string"

definition passing_report :: "string \<Rightarrow> u64 \<Rightarrow> f64 \<Rightarrow> suite_report" where
  "passing_report name passed elapsed_secs =
     \<lparr>sr_name = name, sr_status = SuitePassed, sr_passed = passed, sr_failed = 0, sr_skipped = 0,
      sr_elapsed_secs = elapsed_secs, sr_line_coverage_pct = None, sr_branch_coverage_pct = None,
      sr_metadata = Map.empty\<rparr>"

definition with_coverage :: "f64 \<Rightarrow> f64 \<Rightarrow> suite_report \<Rightarrow> suite_report" where
  "with_coverage line_pct branch_pct r =
     r\<lparr>sr_line_coverage_pct := Some line_pct, sr_branch_coverage_pct := Some branch_pct\<rparr>"

definition report_with_meta :: "string \<Rightarrow> string \<Rightarrow> suite_report \<Rightarrow> suite_report" where
  "report_with_meta key v r = r\<lparr>sr_metadata := (sr_metadata r)(key \<mapsto> v)\<rparr>"

record security_scan_summary =
  ss_critical :: u64
  ss_high :: u64
  ss_medium :: u64
  ss_low :: u64
  ss_info :: u64

definition empty_scan_summary :: security_scan_summary where
  "empty_scan_summary = \<lparr>ss_critical = 0, ss_high = 0, ss_medium = 0, ss_low = 0, ss_info = 0\<rparr>"

definition scan_is_clean :: "security_scan_summary \<Rightarrow> bool" where
  "scan_is_clean s = (ss_critical s = 0 \<and> ss_high s = 0)"

record fuzz_campaign_summary =
  fz_target :: string
  fz_corpus_size :: u64
  fz_crashes :: u64
  fz_total_execs :: u64
  fz_execs_per_sec :: f64

record test_report_snapshot =
  rp_run_id :: string
  rp_timestamp :: string
  rp_suite_reports :: "(string, suite_report) om"
  rp_security :: security_scan_summary
  rp_fuzz_campaigns :: "fuzz_campaign_summary list"
  rp_metrics :: "string \<rightharpoonup> f64"

definition new_snapshot :: "string \<Rightarrow> string \<Rightarrow> test_report_snapshot" where
  "new_snapshot run_id timestamp =
     \<lparr>rp_run_id = run_id, rp_timestamp = timestamp, rp_suite_reports = om_empty,
      rp_security = empty_scan_summary, rp_fuzz_campaigns = [], rp_metrics = Map.empty\<rparr>"

definition add_suite ::
  "suite_report \<Rightarrow> test_report_snapshot \<Rightarrow> (report_error + unit) \<times> test_report_snapshot" where
  "add_suite r s =
     (if om_contains (rp_suite_reports s) (sr_name r) then (Inl (DuplicateSuite (sr_name r)), s)
      else (Inr (), s\<lparr>rp_suite_reports := om_insert (sr_name r) r (rp_suite_reports s)\<rparr>))"

definition failed_suites :: "test_report_snapshot \<Rightarrow> suite_report list" where
  "failed_suites s = filter (\<lambda>r. sr_status r = SuiteFailed) (om_values (rp_suite_reports s))"

section \<open>Metrics\<close>

definition is_unit_suite :: "suite_report \<Rightarrow> bool" where
  "is_unit_suite r = (suffix ''-unit'' (sr_name r) \<or> sublist ''-unit-'' (sr_name r))"

definition is_integration_suite :: "suite_report \<Rightarrow> bool" where
  "is_integration_suite r = sublist ''-integration'' (sr_name r)"

text \<open>The two flags of a kind of suite, as the loop keeps them: any seen, all passed.\<close>

definition observe_suite :: "(suite_report \<Rightarrow> bool) \<Rightarrow> suite_report \<Rightarrow> bool \<times> bool \<Rightarrow> bool \<times> bool" where
  "observe_suite kind r = (\<lambda>(seen, all_passed).
     if kind r then (True, if sr_status r \<noteq> SuitePassed then False else all_passed)
     else (seen, all_passed))"

definition kind_passed :: "(suite_report \<Rightarrow> bool) \<Rightarrow> suite_report list \<Rightarrow> bool" where
  "kind_passed kind rs =
     (let (seen, all_passed) = fold (observe_suite kind) rs (False, True) in seen \<and> all_passed)"

definition f64_flag :: "bool \<Rightarrow> f64" where
  "f64_flag b = (if b then 0x3FF0000000000000 else 0)"

text \<open>\<open>mean\<close> is the sum divided by the length; a coverage nobody reports sets no metric.\<close>

definition coverage_metric ::
  "(f64 list \<Rightarrow> f64) \<Rightarrow> string \<Rightarrow> (suite_report \<Rightarrow> f64 option) \<Rightarrow> suite_report list
     \<Rightarrow> (string \<rightharpoonup> f64) \<Rightarrow> (string \<rightharpoonup> f64)" where
  "coverage_metric mean name get rs m =
     (let vs = List.map_filter get rs in if vs = [] then m else m(name \<mapsto> mean vs))"

definition derive_metrics ::
  "(f64 list \<Rightarrow> f64) \<Rightarrow> (u64 \<Rightarrow> f64) \<Rightarrow> test_report_snapshot \<Rightarrow> test_report_snapshot" where
  "derive_metrics mean of_u64 s =
     (let rs = om_values (rp_suite_reports s);
          m = rp_metrics s;
          m = m(''unit_tests_passed'' \<mapsto> f64_flag (kind_passed is_unit_suite rs));
          m = m(''integration_tests_passed'' \<mapsto> f64_flag (kind_passed is_integration_suite rs));
          m = coverage_metric mean ''line_coverage_pct'' sr_line_coverage_pct rs m;
          m = coverage_metric mean ''branch_coverage_pct'' sr_branch_coverage_pct rs m;
          m = m(''critical_security_findings'' \<mapsto> of_u64 (ss_critical (rp_security s)));
          m = m(''high_security_findings'' \<mapsto> of_u64 (ss_high (rp_security s)));
          m = m(''fuzz_crashes'' \<mapsto> of_u64 (sum_list (map fz_crashes (rp_fuzz_campaigns s))))
      in s\<lparr>rp_metrics := m\<rparr>)"

definition snapshot_metric :: "test_report_snapshot \<Rightarrow> string \<Rightarrow> f64 option" where
  "snapshot_metric s name = rp_metrics s name"

section \<open>The panel\<close>

primrec suite_status_text :: "suite_status \<Rightarrow> string" where
  "suite_status_text SuitePassed = ''PASS''"
| "suite_status_text SuiteFailed = ''FAIL''"
| "suite_status_text SuiteSkipped = ''SKIP''"
| "suite_status_text SuiteInProgress = ''RUNNING''"

text \<open>\<open>show\<close> is the decimal form, \<open>fixed n\<close> the one with \<open>n\<close> places.\<close>

definition suite_line ::
  "(u64 \<Rightarrow> string) \<Rightarrow> (nat \<Rightarrow> f64 \<Rightarrow> string) \<Rightarrow> string \<times> suite_report \<Rightarrow> string" where
  "suite_line shown fixed = (\<lambda>(name, r).
     ''  ['' @ suite_status_text (sr_status r) @ ''] '' @ name @ [CHR 0x20, CHR 0xE2, CHR 0x80, CHR 0x94, CHR 0x20]
       @ shown (sr_passed r) @ ''/'' @ shown (sr_passed r + sr_failed r) @ '' passed (''
       @ fixed 2 (sr_elapsed_secs r) @ ''s)'')"

definition campaign_line ::
  "(u64 \<Rightarrow> string) \<Rightarrow> (nat \<Rightarrow> f64 \<Rightarrow> string) \<Rightarrow> fuzz_campaign_summary \<Rightarrow> string" where
  "campaign_line shown fixed fc =
     ''  '' @ fz_target fc @ '': corpus='' @ shown (fz_corpus_size fc) @ '' crashes=''
       @ shown (fz_crashes fc) @ '' execs='' @ fixed 0 (fz_execs_per_sec fc) @ ''/s''"

definition render_report ::
  "(u64 \<Rightarrow> string) \<Rightarrow> (nat \<Rightarrow> f64 \<Rightarrow> string) \<Rightarrow> test_report_snapshot \<Rightarrow> string" where
  "render_report shown fixed s = join_lines
     ([''=== Test Report ['' @ rp_run_id s @ ''] ==='', ''Timestamp: '' @ rp_timestamp s, '''',
       ''--- Suites ---'']
      @ map (suite_line shown fixed) (rp_suite_reports s)
      @ ['''', ''--- Security ---'',
         ''  Critical: '' @ shown (ss_critical (rp_security s)) @ ''  High: '' @ shown (ss_high (rp_security s))
           @ ''  Medium: '' @ shown (ss_medium (rp_security s)) @ ''  Low: '' @ shown (ss_low (rp_security s))
           @ ''  Info: '' @ shown (ss_info (rp_security s))]
      @ (if rp_fuzz_campaigns s = [] then []
         else ['''', ''--- Fuzz Campaigns ---''] @ map (campaign_line shown fixed) (rp_fuzz_campaigns s)))"

end
