(* ===== verification/Quality_Fuzz.thy ===== *)
theory Quality_Fuzz
  imports Quality_Gates Mesh_Schema
begin

text \<open>
  The fuzz targets of \<open>ify-quality\<close> (\<open>fuzz.rs\<close>): the base64 codec of the seed corpus, corpus
  entries, targets and their registry. Bytes are \<open>u8\<close> words; text is the list of its bytes.
  \<open>debug_char\<close> is the \<open>Debug\<close> form of a character in a message.
\<close>

section \<open>Base64\<close>

definition ALPHABET :: string where
  "ALPHABET = ''ABCDEFGHIJKLMNOPQRSTUVWXYZabcdefghijklmnopqrstuvwxyz0123456789+/''"

text \<open>\<open>slice::chunks\<close>.\<close>

function chunks :: "nat \<Rightarrow> 'a list \<Rightarrow> 'a list list" where
  "chunks n xs = (if xs = [] \<or> n = 0 then [] else take n xs # chunks n (drop n xs))"
  by pat_completeness auto

termination
  by (relation "measure (\<lambda>(n, xs). List.length xs)") auto

declare chunks.simps [simp del]

definition b64_char :: "u8 \<Rightarrow> char" where
  "b64_char w = ALPHABET ! unat w"

definition encode_chunk :: "u8 list \<Rightarrow> string" where
  "encode_chunk chunk =
     (let b0 = chunk ! 0;
          b1 = (if List.length chunk > 1 then chunk ! 1 else 0);
          b2 = (if List.length chunk > 2 then chunk ! 2 else 0)
      in [b64_char (drop_bit 2 b0),
          b64_char (push_bit 4 (b0 AND 3) OR drop_bit 4 b1),
          if List.length chunk > 1 then b64_char (push_bit 2 (b1 AND 15) OR drop_bit 6 b2) else CHR ''='',
          if List.length chunk > 2 then b64_char (b2 AND 63) else CHR ''=''])"

definition base64_encode :: "u8 list \<Rightarrow> string" where
  "base64_encode input = concat (map encode_chunk (chunks 3 input))"

text \<open>The lookup table: the index in the alphabet, zero for padding, \<open>0xFF\<close> for anything else.\<close>

definition b64_table :: "char \<Rightarrow> u8" where
  "b64_table c =
     (if c = CHR ''='' then 0
      else case position (\<lambda>x. x = c) ALPHABET of Some i \<Rightarrow> of_nat i | None \<Rightarrow> 255)"

definition trim_padding :: "string \<Rightarrow> string" where
  "trim_padding s = rev (dropWhile (\<lambda>c. c = CHR ''='') (rev s))"

definition decode_chunk :: "(char \<Rightarrow> string) \<Rightarrow> string \<Rightarrow> string + u8 list" where
  "decode_chunk debug_char chunk =
     (case find (\<lambda>c. b64_table c = 255) chunk of
        Some c \<Rightarrow> Inl (''invalid base64 character: '' @ debug_char c)
      | None \<Rightarrow>
          (let c0 = b64_table (chunk ! 0);
               c1 = (if List.length chunk > 1 then b64_table (chunk ! 1) else 0);
               c2 = (if List.length chunk > 2 then b64_table (chunk ! 2) else 0);
               c3 = (if List.length chunk > 3 then b64_table (chunk ! 3) else 0)
           in Inr ([push_bit 2 c0 OR drop_bit 4 c1]
                   @ (if List.length chunk > 2 then [push_bit 4 c1 OR drop_bit 2 c2] else [])
                   @ (if List.length chunk > 3 then [push_bit 6 c2 OR c3] else []))))"

fun decode_chunks :: "(char \<Rightarrow> string) \<Rightarrow> string list \<Rightarrow> u8 list \<Rightarrow> string + u8 list" where
  "decode_chunks debug_char [] decoded = Inr decoded"
| "decode_chunks debug_char (chunk # rest) decoded =
     (case decode_chunk debug_char chunk of
        Inl msg \<Rightarrow> Inl msg
      | Inr bytes \<Rightarrow> decode_chunks debug_char rest (decoded @ bytes))"

definition base64_decode :: "(char \<Rightarrow> string) \<Rightarrow> string \<Rightarrow> string + u8 list" where
  "base64_decode debug_char input = decode_chunks debug_char (chunks 4 (trim_padding input)) []"

section \<open>Corpus entries and targets\<close>

datatype fuzz_error =
    DuplicateTarget string
  | UnknownTarget string
  | InvalidCorpusData string string

datatype fuzz_category =
    FuzzSerialization | FuzzGraphParsing | FuzzMeshProtocol | FuzzActionLogParsing
  | FuzzFfiBoundary | FuzzInputValidation

record corpus_entry =
  ce_name :: string
  ce_data_b64 :: string
  ce_description :: "string option"

definition from_bytes :: "string \<Rightarrow> u8 list \<Rightarrow> corpus_entry" where
  "from_bytes name bytes =
     \<lparr>ce_name = name, ce_data_b64 = base64_encode bytes, ce_description = None\<rparr>"

definition entry_with_description :: "string \<Rightarrow> corpus_entry \<Rightarrow> corpus_entry" where
  "entry_with_description desc c = c\<lparr>ce_description := Some desc\<rparr>"

definition entry_bytes :: "(char \<Rightarrow> string) \<Rightarrow> corpus_entry \<Rightarrow> fuzz_error + u8 list" where
  "entry_bytes debug_char c =
     (case base64_decode debug_char (ce_data_b64 c) of
        Inl msg \<Rightarrow> Inl (InvalidCorpusData (ce_name c) msg)
      | Inr bytes \<Rightarrow> Inr bytes)"

record fuzz_target =
  ft_name :: string
  ft_category :: fuzz_category
  ft_description :: string
  ft_seed_corpus :: "corpus_entry list"
  ft_max_input_len :: nat
  ft_ci_enabled :: bool

definition new_target :: "string \<Rightarrow> fuzz_category \<Rightarrow> string \<Rightarrow> fuzz_target" where
  "new_target name category description =
     \<lparr>ft_name = name, ft_category = category, ft_description = description,
      ft_seed_corpus = [], ft_max_input_len = 4096, ft_ci_enabled = True\<rparr>"

definition with_seed :: "corpus_entry \<Rightarrow> fuzz_target \<Rightarrow> fuzz_target" where
  "with_seed entry t = t\<lparr>ft_seed_corpus := ft_seed_corpus t @ [entry]\<rparr>"

definition with_max_len :: "nat \<Rightarrow> fuzz_target \<Rightarrow> fuzz_target" where
  "with_max_len len t = t\<lparr>ft_max_input_len := len\<rparr>"

type_synonym fuzz_registry = "(string, fuzz_target) om"

definition register_target :: "fuzz_target \<Rightarrow> fuzz_registry \<Rightarrow> (fuzz_error + unit) \<times> fuzz_registry" where
  "register_target target r =
     (if om_contains r (ft_name target) then (Inl (DuplicateTarget (ft_name target)), r)
      else (Inr (), om_insert (ft_name target) target r))"

definition canonical_target_list :: "fuzz_target list" where
  "canonical_target_list =
        
[with_seed (entry_with_description ''minimal valid JSON array'' (from_bytes ''empty_array'' [91, 93]))
            (with_seed (entry_with_description ''minimal valid JSON object'' (from_bytes ''empty_object'' [123, 125]))
            (new_target ''fuzz_json_deserializer'' FuzzSerialization
            ''Fuzz the serde_json deserializer on arbitrary byte sequences to detect panics or invalid output'')),
         with_seed (entry_with_description ''empty graph JSON'' (from_bytes ''minimal_graph'' [123, 34, 110, 111, 100, 101, 115, 34, 58, 91, 93, 44, 34, 101, 100, 103, 101, 115, 34, 58, 91, 93, 125]))
            (new_target ''fuzz_graph_wire_format'' FuzzGraphParsing
            ''Fuzz the node-graph wire-format parser with arbitrary bytes''),
         with_max_len 65536
            (new_target ''fuzz_mesh_framing'' FuzzMeshProtocol
            ''Fuzz the mesh artifact framing/deframing layer''),
         new_target ''fuzz_actionlog_event'' FuzzActionLogParsing
            ''Fuzz ActionLog event deserialization to find malformed-input crashes'',
         with_max_len 256
            (new_target ''fuzz_ffi_boundary'' FuzzFfiBoundary
            (''Fuzz C'' @ [CHR 0xE2, CHR 0x86, CHR 0x94] @ ''Rust FFI boundary input validation routines'')),
         new_target ''fuzz_input_validator'' FuzzInputValidation
            ''Fuzz the ify-security InputValidator with arbitrary JSON payloads'']"

definition canonical_targets :: fuzz_registry where
  "canonical_targets = fold (\<lambda>t r. snd (register_target t r)) canonical_target_list []"

definition get_target :: "fuzz_registry \<Rightarrow> string \<Rightarrow> fuzz_target option" where
  "get_target r name = om_get r name"

definition ci_targets :: "fuzz_registry \<Rightarrow> fuzz_target list" where
  "ci_targets r = filter ft_ci_enabled (om_values r)"

section \<open>The codec round trip\<close>

lemma chunks_Nil [simp]: "chunks n [] = []"
  by (subst chunks.simps) simp

lemma chunks_step: "xs \<noteq> [] \<Longrightarrow> 0 < n \<Longrightarrow> chunks n xs = take n xs # chunks n (drop n xs)"
  by (subst chunks.simps) simp

lemma b64_table_index: "list_all (\<lambda>i. b64_table (ALPHABET ! i) = of_nat i) [0..<64]"
  by code_simp

lemma b64_char_ne: "list_all (\<lambda>i. ALPHABET ! i \<noteq> CHR ''='') [0..<64]"
  by code_simp

lemma unat_numeral_64: "unat (64 :: u8) = 64"
  by simp

lemma six_bits: "drop_bit 6 w = 0 \<Longrightarrow> unat w < 64" for w :: u8
proof -
  assume "drop_bit 6 w = 0"
  then have "w div 64 = 0" by (simp add: drop_bit_eq_div)
  then have "unat w div 64 = 0" by (metis unat_div unat_numeral_64 unsigned_0)
  then show ?thesis by simp
qed

lemma b64_char_table:
  assumes "drop_bit 6 w = 0"
  shows "b64_table (b64_char w) = w" "b64_char w \<noteq> CHR ''=''" "w \<noteq> 255"
proof -
  have n: "unat w < 64" using six_bits [OF assms] .
  then show "b64_table (b64_char w) = w" "b64_char w \<noteq> CHR ''=''"
    using b64_table_index b64_char_ne by (simp_all add: list_all_iff b64_char_def)
  show "w \<noteq> 255" using n by auto
qed

lemma sextets:
  "drop_bit 6 (drop_bit 2 a) = 0" "drop_bit 6 (push_bit 4 (a AND 3) OR drop_bit 4 b) = 0"
  "drop_bit 6 (push_bit 2 (b AND 15) OR drop_bit 6 c) = 0" "drop_bit 6 (c AND 63) = 0"
  for a b c :: u8
  by (rule bit_word_eqI; auto simp: bit_simps less_Suc_eq numeral_eq_Suc)+

lemma u8_eqI: "list_all (\<lambda>n. bit a n = bit b n) [0, 1, 2, 3, 4, 5, 6, 7] \<Longrightarrow> a = b" for a b :: u8
proof (rule bit_word_eqI)
  fix n
  assume eq: "list_all (\<lambda>n. bit a n = bit b n) [0, 1, 2, 3, 4, 5, 6, 7]" and "n < LENGTH(8)"
  then have "n < 8" by simp
  then have "n \<in> set [0, 1, 2, 3, 4, 5, 6, 7]" by (simp only: list.set insert_iff empty_iff) presburger
  with eq show "bit a n = bit b n" unfolding list_all_iff by blast
qed

lemma octets:
  "push_bit 2 (drop_bit 2 a) OR drop_bit 4 (push_bit 4 (a AND 3) OR drop_bit 4 b) = a"
  "push_bit 4 (push_bit 4 (a AND 3) OR drop_bit 4 b) OR drop_bit 2 (push_bit 2 (b AND 15) OR drop_bit 6 c) = b"
  "push_bit 6 (push_bit 2 (b AND 15) OR drop_bit 6 c) OR (c AND 63) = c"
  for a b c :: u8
  by (rule u8_eqI; simp add: bit_simps; (simp add: eval_nat_numeral)?)+

lemma not_invalid: "drop_bit 6 w = 0 \<Longrightarrow> b64_table (b64_char w) \<noteq> 255"
  by (simp add: b64_char_table)

lemma encode_chunk_cases:
  "encode_chunk [a] = [b64_char (drop_bit 2 a), b64_char (push_bit 4 (a AND 3) OR drop_bit 4 0),
     CHR ''='', CHR ''='']"
  "encode_chunk [a, b] = [b64_char (drop_bit 2 a), b64_char (push_bit 4 (a AND 3) OR drop_bit 4 b),
     b64_char (push_bit 2 (b AND 15) OR drop_bit 6 0), CHR ''='']"
  "encode_chunk [a, b, c] = [b64_char (drop_bit 2 a), b64_char (push_bit 4 (a AND 3) OR drop_bit 4 b),
     b64_char (push_bit 2 (b AND 15) OR drop_bit 6 c), b64_char (c AND 63)]"
  by (simp_all add: encode_chunk_def Let_def)

lemma base64_encode_simps:
  "base64_encode [] = []" "base64_encode [a] = encode_chunk [a]"
  "base64_encode [a, b] = encode_chunk [a, b]"
  "base64_encode (a # b # c # r) = encode_chunk [a, b, c] @ base64_encode r"
  by (simp_all add: base64_encode_def chunks_step)

lemma trim_padding_simps:
  "trim_padding [] = []" "trim_padding (s @ [CHR ''='']) = trim_padding s"
  "c \<noteq> CHR ''='' \<Longrightarrow> trim_padding (c # s) = c # trim_padding s"
  by (simp_all add: trim_padding_def dropWhile_append)

lemma trim_padding_core:
  assumes "x \<noteq> CHR ''=''" "y \<noteq> CHR ''=''"
  shows "trim_padding [x, y, CHR ''='', CHR ''=''] = [x, y]"
    "z \<noteq> CHR ''='' \<Longrightarrow> trim_padding [x, y, z, CHR ''=''] = [x, y, z]"
  using assms by (simp_all add: trim_padding_def)

lemma decode_chunk_cases:
  assumes "drop_bit 6 w = 0" "drop_bit 6 x = 0"
  shows "decode_chunk f [b64_char w, b64_char x] = Inr [push_bit 2 w OR drop_bit 4 x]"
    "drop_bit 6 y = 0 \<Longrightarrow> decode_chunk f [b64_char w, b64_char x, b64_char y] =
       Inr [push_bit 2 w OR drop_bit 4 x, push_bit 4 x OR drop_bit 2 y]"
    "drop_bit 6 y = 0 \<Longrightarrow> drop_bit 6 z = 0 \<Longrightarrow>
       decode_chunk f [b64_char w, b64_char x, b64_char y, b64_char z] =
         Inr [push_bit 2 w OR drop_bit 4 x, push_bit 4 x OR drop_bit 2 y, push_bit 6 y OR z]"
  using not_invalid [OF assms(1)] not_invalid [OF assms(2)] not_invalid [of y] not_invalid [of z]
    b64_char_table(1) [OF assms(1)] b64_char_table(1) [OF assms(2)] b64_char_table(1) [of y]
    b64_char_table(1) [of z]
  by (simp_all add: decode_chunk_def Let_def)

lemma decode_chunks_acc:
  "decode_chunks f cs acc =
     (case decode_chunks f cs [] of Inl msg \<Rightarrow> Inl msg | Inr r \<Rightarrow> Inr (acc @ r))"
proof (induction cs arbitrary: acc)
  case Nil
  then show ?case by simp
next
  case (Cons c cs)
  show ?case
  proof (cases "decode_chunk f c")
    case (Inr bytes)
    show ?thesis
      using Cons.IH [of "acc @ bytes"] Cons.IH [of bytes]
      by (cases "decode_chunks f cs []") (simp_all add: Inr)
  qed simp
qed

lemma base64_cases:
  obtains "bs = []" | a where "bs = [a]" | a b where "bs = [a, b]" | a b c r where "bs = a # b # c # r"
  by (metis list.exhaust)

lemma decode_encode_chunks:
  "decode_chunks f (chunks 4 (trim_padding (base64_encode bs))) [] = Inr bs"
proof (induction bs rule: measure_induct_rule [of List.length])
  case (less bs)
  show ?case
  proof (cases bs rule: base64_cases)
    case 1
    then show ?thesis by (simp add: base64_encode_simps trim_padding_simps(1))
  next
    case (2 a)
    let ?w = "drop_bit 2 a" and ?x = "push_bit 4 (a AND 3) OR drop_bit 4 0"
    have "trim_padding (base64_encode bs) = [b64_char ?w, b64_char ?x]"
      unfolding 2 base64_encode_simps encode_chunk_cases
      by (intro trim_padding_core b64_char_table(2) sextets)
    moreover have "decode_chunk f [b64_char ?w, b64_char ?x] = Inr [a]"
      using decode_chunk_cases(1) [OF sextets(1,2), of f a a 0] unfolding octets .
    ultimately show ?thesis by (simp add: 2 chunks_step)
  next
    case (3 a b)
    let ?w = "drop_bit 2 a" and ?x = "push_bit 4 (a AND 3) OR drop_bit 4 b"
      and ?y = "push_bit 2 (b AND 15) OR drop_bit 6 0"
    have "trim_padding (base64_encode bs) = [b64_char ?w, b64_char ?x, b64_char ?y]"
      unfolding 3 base64_encode_simps encode_chunk_cases
      by (intro trim_padding_core b64_char_table(2) sextets)
    moreover have "decode_chunk f [b64_char ?w, b64_char ?x, b64_char ?y] = Inr [a, b]"
      using decode_chunk_cases(2) [OF sextets(1,2,3), of f a a b b 0] unfolding octets .
    ultimately show ?thesis by (simp add: 3 chunks_step)
  next
    case (4 a b c r)
    let ?cs = "encode_chunk [a, b, c]"
    have "trim_padding (base64_encode bs) = ?cs @ trim_padding (base64_encode r)"
      unfolding 4 base64_encode_simps encode_chunk_cases append_Cons append_Nil
      by (simp only: trim_padding_simps(3) [OF b64_char_table(2)] sextets)
    moreover have "decode_chunk f ?cs = Inr [a, b, c]"
      using decode_chunk_cases(3) [OF sextets(1,2,3,4), of f a a b b c c] unfolding octets encode_chunk_cases .
    moreover have "?cs \<noteq> []" "List.length ?cs = 4" by (simp_all add: encode_chunk_cases)
    moreover have "decode_chunks f (chunks 4 (trim_padding (base64_encode r))) [] = Inr r"
      by (rule less.IH) (simp add: 4)
    ultimately show ?thesis
      using decode_chunks_acc [of f _ "[a, b, c]"] by (simp add: 4 chunks_step)
  qed
qed

lemma base64_roundtrip: "base64_decode f (base64_encode bs) = Inr bs"
  by (simp add: base64_decode_def decode_encode_chunks)

lemma concat_chunks: "0 < n \<Longrightarrow> concat (chunks n xs) = xs"
proof (induction n xs rule: chunks.induct)
  case (1 n xs)
  show ?case
  proof (cases "xs = []")
    case False
    with 1 have "concat (chunks n (drop n xs)) = drop n xs" by simp
    with False 1(2) show ?thesis by (simp add: chunks_step)
  qed simp
qed

lemma b64_table_invalid: "b64_table c = 255 \<longleftrightarrow> c \<notin> set ALPHABET \<and> c \<noteq> CHR ''=''"
proof (cases "position (\<lambda>x. x = c) ALPHABET")
  case None
  moreover have "c \<notin> set ALPHABET" using None by (auto simp: position_None)
  ultimately show ?thesis by (simp add: b64_table_def)
next
  case (Some i)
  from position_Some [OF this] obtain ys x zs where split: "ALPHABET = ys @ x # zs" "List.length ys = i" "x = c"
    by blast
  from split(3) have "c \<in> set (ys @ x # zs)" by simp
  then have "c \<in> set ALPHABET" unfolding split(1) .
  have "List.length ALPHABET = 64" by (simp add: ALPHABET_def)
  then have "List.length (ys @ x # zs) = 64" unfolding split(1) .
  with split(2) have small: "i < 64" by simp
  then have "unat (of_nat i :: u8) = i" by (simp add: unat_of_nat)
  with small have "(of_nat i :: u8) \<noteq> 255" by auto
  with \<open>c \<in> set ALPHABET\<close> show ?thesis by (auto simp: b64_table_def Some)
qed

lemma find_none_list_all: "(find P xs = None) = list_all (\<lambda>x. \<not> P x) xs"
  by (induction xs) auto

lemma decode_chunks_ok:
  "is_ok (decode_chunks f cs acc) = list_all (\<lambda>c. b64_table c \<noteq> 255) (concat cs)"
proof (induction cs arbitrary: acc)
  case Nil
  then show ?case by simp
next
  case (Cons c cs)
  have "is_ok (decode_chunk f c) = list_all (\<lambda>c. b64_table c \<noteq> 255) c"
    unfolding decode_chunk_def find_none_list_all [symmetric]
    by (cases "find (\<lambda>c. b64_table c = 255) c") (simp_all add: Let_def)
  then show ?case using Cons.IH by (cases "decode_chunk f c") auto
qed

lemma encode_length: "List.length (base64_encode bs) = 4 * ((List.length bs + 2) div 3)"
proof (induction bs rule: measure_induct_rule [of List.length])
  case (less bs)
  show ?case
  proof (cases bs rule: base64_cases)
    case (4 a b c r)
    have "List.length (base64_encode r) = 4 * ((List.length r + 2) div 3)" by (rule less.IH) (simp add: 4)
    moreover have "(5 + List.length r) div 3 = Suc ((List.length r + 2) div 3)" by simp
    ultimately show ?thesis by (simp add: 4 base64_encode_simps encode_chunk_cases)
  qed (simp_all add: base64_encode_simps encode_chunk_cases)
qed

section \<open>Property\<close>

text \<open>C30: The corpus codec loses nothing: what was encoded, of whatever length, decodes to the same
  bytes, also through a corpus entry; four characters stand for each group of up to three bytes; and
  decoding fails exactly on the texts that, without their trailing padding, contain a character
  that is neither in the alphabet nor a padding sign.\<close>

theorem corpus_codec:
  "base64_decode f (base64_encode bs) = Inr bs
   \<and> entry_bytes f (from_bytes name bs) = Inr bs
   \<and> List.length (base64_encode bs) = 4 * ((List.length bs + 2) div 3)
   \<and> is_ok (base64_decode f s) = list_all (\<lambda>c. c \<in> set ALPHABET \<or> c = CHR ''='') (trim_padding s)"
proof (intro conjI)
  show "base64_decode f (base64_encode bs) = Inr bs" by (rule base64_roundtrip)
  then show "entry_bytes f (from_bytes name bs) = Inr bs" by (simp add: entry_bytes_def from_bytes_def)
  show "List.length (base64_encode bs) = 4 * ((List.length bs + 2) div 3)" by (rule encode_length)
  show "is_ok (base64_decode f s) = list_all (\<lambda>c. c \<in> set ALPHABET \<or> c = CHR ''='') (trim_padding s)"
    by (simp add: base64_decode_def decode_chunks_ok concat_chunks b64_table_invalid)
qed

text \<open>Padding inside the text and a lone last character are decoded rather than refused.\<close>

lemma padding_inside_accepted:
  "base64_decode f ''QQ==QQ'' = Inr [65, 0, 0, 65]" "base64_decode f ''Q'' = Inr [64]"
  by code_simp+

end
