(* ===== verification/Quality_Claims.thy ===== *)
theory Quality_Claims
  imports Quality_Contract Quality_Fuzz Interface_Claims
begin

text \<open>
  What holds of the quality tooling: the registries of all its modules are one contract, the gates
  and the scanners judge what is reported, the corpus codec loses nothing, and the release
  checklist is ready exactly when its blocking items are resolved.
\<close>

section \<open>Registries\<close>

lemma om_contains_None: "om_contains m k = (om_get m k \<noteq> None)"
  by (simp add: om_contains_def)

lemma find_key_None: "find (\<lambda>g. f g = n) gs = None \<longleftrightarrow> \<not> list_ex (\<lambda>g. f g = n) gs"
  by (induction gs) auto

lemma find_key_append: "find P (xs @ ys) = (case find P xs of None \<Rightarrow> find P ys | Some x \<Rightarrow> Some x)"
  by (induction xs) auto

interpretation gate_names: named_registry add_gate "\<lambda>gs n. find (\<lambda>g. qg_name g = n) gs" qg_name
    DuplicateGate "\<lambda>_. True"
  by unfold_locales
    (auto simp: add_gate_def find_key_None [symmetric] find_key_append fun_eq_iff split: option.split)

interpretation scenario_names: named_registry add_scenario get_scenario ls_name DuplicateScenario om_ok
  by unfold_locales
    (simp_all add: add_scenario_def get_scenario_def om_contains_None om_get_insert om_insert_ok fun_eq_iff)

interpretation target_names: named_registry register_target get_target ft_name DuplicateTarget om_ok
  by unfold_locales
    (simp_all add: register_target_def get_target_def om_contains_None om_get_insert om_insert_ok fun_eq_iff)

interpretation contract_names: named_registry add_contract get_contract ic_name DuplicateContract om_ok
  by unfold_locales
    (simp_all add: add_contract_def get_contract_def om_contains_None om_get_insert om_insert_ok fun_eq_iff)

interpretation scanner_names: named_registry add_scanner get_scanner sn_name DuplicateScanner om_ok
  by unfold_locales
    (simp_all add: add_scanner_def get_scanner_def om_contains_None om_get_insert om_insert_ok fun_eq_iff)

interpretation item_names: named_registry add_item checklist_item rc_item_id DuplicateItem
    "\<lambda>cl. om_ok (cl_items cl)"
  by unfold_locales
    (simp_all add: add_item_def checklist_item_def om_contains_None om_get_insert om_insert_ok fun_eq_iff)

interpretation suite_names: named_registry add_suite "\<lambda>s n. om_get (rp_suite_reports s) n" sr_name
    DuplicateSuite "\<lambda>s. om_ok (rp_suite_reports s)"
  by unfold_locales
    (simp_all add: add_suite_def om_contains_None om_get_insert om_insert_ok fun_eq_iff)

lemmas add_all_defs = gate_names.add_all_def scenario_names.add_all_def target_names.add_all_def
  contract_names.add_all_def scanner_names.add_all_def item_names.add_all_def

lemma canonical_names_distinct:
  "distinct (map qg_name canonical_gate_list)" "distinct (map ls_name canonical_scenario_list)"
  "distinct (map ft_name canonical_target_list)" "distinct (map ic_name canonical_contract_list)"
  "distinct (map sn_name canonical_scanner_list)" "distinct (map rc_item_id canonical_item_list)"
  by (simp_all add: canonical_gate_list_def new_gate_def canonical_scenario_list_def
      new_load_scenario_def canonical_target_list_def new_target_def with_seed_def with_max_len_def
      canonical_contract_list_def new_interface_contract_def with_invariant_def
      canonical_scanner_list_def new_scanner_def with_option_def
      canonical_item_list_def blocking_item_def advisory_item_def)

text \<open>Registering entries under distinct names keeps them all.\<close>

lemma add_gates_distinct:
  "distinct (map qg_name (hs @ gs)) \<Longrightarrow> fold (\<lambda>g gs. snd (add_gate g gs)) gs hs = hs @ gs"
proof (induction gs arbitrary: hs)
  case Nil
  then show ?case by simp
next
  case (Cons g gs)
  have "\<not> list_ex (\<lambda>h. qg_name h = qg_name g) hs" using Cons.prems by (auto simp: list_ex_iff) (metis image_eqI)
  then have "snd (add_gate g hs) = hs @ [g]" by (simp add: add_gate_def)
  moreover have "fold (\<lambda>g gs. snd (add_gate g gs)) gs (hs @ [g]) = (hs @ [g]) @ gs"
    using Cons.prems by (intro Cons.IH) simp
  ultimately show ?case by simp
qed

lemma om_insert_fresh:
  assumes "om_ok m" "k \<notin> set (om_keys m)"
  shows "set (om_values (om_insert k v m)) = insert v (set (om_values m))"
proof -
  have "x \<in> set (om_values (om_insert k v m)) \<longleftrightarrow> x = v \<or> x \<in> set (om_values m)" for x
    using assms(2) om_values_mem [OF assms(1), of x] om_values_mem [OF om_insert_ok [OF assms(1)], of x k v]
    by (auto simp: om_get_update [OF assms(1)] dom_om_get [symmetric] simp del: set_map)
  then show ?thesis by blast
qed

lemma add_named_distinct:
  assumes "\<And>x m. \<not> om_contains m (name x) \<Longrightarrow> snd (add x m) = om_insert (name x) x m"
  shows "om_ok m \<Longrightarrow> distinct (map name xs) \<Longrightarrow> name ` set xs \<inter> set (om_keys m) = {} \<Longrightarrow>
    set (om_values (fold (\<lambda>x m. snd (add x m)) xs m)) = set (om_values m) \<union> set xs"
proof (induction xs arbitrary: m)
  case Nil
  then show ?case by simp
next
  case (Cons x xs)
  have new: "name x \<notin> set (om_keys m)" using Cons.prems(3) by auto
  then have add: "snd (add x m) = om_insert (name x) x m" by (intro assms) (simp add: om_contains_iff)
  have "name ` set xs \<inter> set (om_keys (om_insert (name x) x m)) = {}"
    using Cons.prems(2,3) by (auto simp: om_insert_keys)
  then show ?case
    using Cons.IH [OF om_insert_ok [OF Cons.prems(1)]] Cons.prems(2)
    by (simp add: add om_insert_fresh [OF Cons.prems(1) new] del: set_map)
qed

section \<open>The release checklist\<close>

definition checklist_ok :: "rc_checklist \<Rightarrow> bool" where
  "checklist_ok cl =
     (om_ok (cl_items cl) \<and> distinct (cl_item_order cl) \<and> set (cl_item_order cl) = set (om_keys (cl_items cl))
      \<and> list_all (\<lambda>(i, x). rc_item_id x = i) (cl_items cl))"

datatype rc_op =
    AddItem rc_item
  | MarkComplete string string
  | SignOff string string string
  | Waive string string string

fun rc_step :: "rc_op \<Rightarrow> rc_checklist \<Rightarrow> rc_checklist" where
  "rc_step (AddItem x) cl = snd (add_item x cl)"
| "rc_step (MarkComplete i link) cl = snd (with_item i (\<lambda>x. ((), mark_complete link x)) cl)"
| "rc_step (SignOff i reviewer timestamp) cl = snd (with_item i (sign_off reviewer timestamp) cl)"
| "rc_step (Waive i waived_by reason) cl = snd (with_item i (\<lambda>x. ((), waive waived_by reason x)) cl)"

lemma checklist_okD:
  assumes "checklist_ok cl"
  shows "om_get (cl_items cl) i = Some x \<Longrightarrow> rc_item_id x = i"
    "i \<in> set (cl_item_order cl) \<longleftrightarrow> om_get (cl_items cl) i \<noteq> None"
  using assms om_get_in_set [of "cl_items cl" i x]
  by (auto simp: checklist_ok_def list_all_iff dom_om_get [symmetric] simp del: set_map)

lemma om_insert_list_all:
  "om_ok m \<Longrightarrow> list_all P m \<Longrightarrow> P (k, v) \<Longrightarrow> list_all P (om_insert k v m)"
  by (induction m) (auto simp: om_ok_Cons)

lemma with_item_ok:
  assumes ok: "checklist_ok cl" and id: "\<And>x. rc_item_id (snd (act x)) = rc_item_id x"
  shows "checklist_ok (snd (with_item i act cl))"
proof (cases "om_get (cl_items cl) i")
  case None
  with ok show ?thesis by (simp add: with_item_def)
next
  case (Some x)
  obtain r x' where act: "act x = (r, x')" by (cases "act x")
  have "rc_item_id x' = i" using id [of x] checklist_okD(1) [OF ok Some] act by simp
  moreover have "i \<in> fst ` set (cl_items cl)" using Some by (metis om_get_in_set fst_conv image_eqI)
  ultimately show ?thesis
    using ok by (auto simp: with_item_def Some act checklist_ok_def om_insert_ok om_insert_keys
        intro!: om_insert_list_all)
qed

lemma add_item_ok:
  assumes ok: "checklist_ok cl"
  shows "checklist_ok (snd (add_item x cl))"
  using ok
  by (auto simp: add_item_def checklist_ok_def om_contains_iff om_insert_ok om_insert_keys
      intro!: om_insert_list_all)

lemma rc_step_ok: "checklist_ok cl \<Longrightarrow> checklist_ok (rc_step op cl)"
  by (cases op) (simp_all add: add_item_ok with_item_ok mark_complete_def sign_off_def waive_def)

interpretation checklist_runs: invariant_system "\<lambda>_ _. True" rc_step checklist_ok
  by unfold_locales (rule rc_step_ok)

lemma checklist_ok_new: "checklist_ok (new_checklist rc created)"
  by (simp add: checklist_ok_def new_checklist_def)

lemma items_ordered_map: "checklist_ok cl \<Longrightarrow> map Some (items_ordered cl) = map (om_get (cl_items cl)) (cl_item_order cl)"
proof -
  assume ok: "checklist_ok cl"
  have "map Some (List.map_filter (om_get (cl_items cl)) is) = map (om_get (cl_items cl)) is"
    if "set is \<subseteq> set (cl_item_order cl)" for "is"
    using that checklist_okD(2) [OF ok] by (induction "is") (auto simp: List.map_filter_simps)
  then show ?thesis by (simp add: items_ordered_def)
qed

lemma image_Some: "(\<And>i. i \<in> A \<longleftrightarrow> f i \<noteq> None) \<Longrightarrow> Some x \<in> f ` A \<longleftrightarrow> (\<exists>i. f i = Some x)"
  by (metis (no_types, lifting) image_iff option.distinct(1))

lemma map_names: "map Some xs = map f ks \<Longrightarrow> (\<And>i x. f i = Some x \<Longrightarrow> name x = i) \<Longrightarrow> map name xs = ks"
  by (induction ks arbitrary: xs) (auto simp: map_eq_Cons_conv)

lemma items_ordered_set:
  assumes ok: "checklist_ok cl"
  shows "set (items_ordered cl) = set (om_values (cl_items cl))"
    "map rc_item_id (items_ordered cl) = cl_item_order cl"
proof -
  have om: "om_ok (cl_items cl)" using ok by (simp add: checklist_ok_def)
  have in_order: "x \<in> set (items_ordered cl) \<longleftrightarrow> Some x \<in> om_get (cl_items cl) ` set (cl_item_order cl)" for x
    using arg_cong [OF items_ordered_map [OF ok], of set] by (auto simp: set_eq_iff image_iff)
  have "x \<in> set (items_ordered cl) \<longleftrightarrow> x \<in> set (om_values (cl_items cl))" for x
    unfolding in_order om_values_mem [OF om] by (rule image_Some) (rule checklist_okD(2) [OF ok])
  then show "set (items_ordered cl) = set (om_values (cl_items cl))" by blast
  show "map rc_item_id (items_ordered cl) = cl_item_order cl"
    using items_ordered_map [OF ok] checklist_okD(1) [OF ok] by (rule map_names)
qed

lemma add_item_ordered:
  assumes ok: "checklist_ok cl" and new: "rc_item_id x \<notin> set (cl_item_order cl)"
  shows "items_ordered (snd (add_item x cl)) = items_ordered cl @ [x]"
proof -
  have om: "om_ok (cl_items cl)" using ok by (simp add: checklist_ok_def)
  have "\<not> om_contains (cl_items cl) (rc_item_id x)"
    using new checklist_okD(2) [OF ok] by (simp add: om_contains_def)
  moreover have "List.map_filter ((om_get (cl_items cl))(rc_item_id x \<mapsto> x)) is =
      List.map_filter (om_get (cl_items cl)) is" if "rc_item_id x \<notin> set is" for "is"
    using that by (induction "is") (auto simp: List.map_filter_simps split: option.splits)
  ultimately show ?thesis
    using new by (simp add: add_item_def items_ordered_def om_get_insert [OF om] map_filter_append
        List.map_filter_simps)
qed

lemma add_items_ordered:
  "checklist_ok cl \<Longrightarrow> distinct (map rc_item_id xs) \<Longrightarrow> rc_item_id ` set xs \<inter> set (cl_item_order cl) = {} \<Longrightarrow>
     items_ordered (fold (\<lambda>x cl. snd (add_item x cl)) xs cl) = items_ordered cl @ xs"
proof (induction xs arbitrary: cl)
  case Nil
  then show ?case by simp
next
  case (Cons x xs)
  have new: "rc_item_id x \<notin> set (cl_item_order cl)" using Cons.prems(3) by auto
  then have "\<not> om_contains (cl_items cl) (rc_item_id x)"
    using checklist_okD(2) [OF Cons.prems(1)] by (simp add: om_contains_def)
  then have order: "cl_item_order (snd (add_item x cl)) = cl_item_order cl @ [rc_item_id x]"
    by (simp add: add_item_def)
  have "items_ordered (fold (\<lambda>x cl. snd (add_item x cl)) xs (snd (add_item x cl))) =
      items_ordered (snd (add_item x cl)) @ xs"
    using Cons.prems by (intro Cons.IH add_item_ok) (auto simp: order)
  then show ?case by (simp add: add_item_ordered [OF Cons.prems(1) new])
qed

lemma release_ready_iff:
  "is_release_ready cl = (\<forall>x \<in> set (om_values (cl_items cl)). rc_blocking x \<longrightarrow> is_resolved x)"
  by (auto simp: is_release_ready_def list_all_iff)

lemma canonical_gates_complete: "canonical_gates = canonical_gate_list"
  using add_gates_distinct [of "[]" canonical_gate_list] canonical_names_distinct(1)
  by (simp add: canonical_gates_def)

lemma canonical_items: "items_ordered (canonical_template rc created) = canonical_item_list"
  using add_items_ordered [OF checklist_ok_new canonical_names_distinct(6), of rc created]
  by (simp add: canonical_template_def new_checklist_def items_ordered_def List.map_filter_simps)

section \<open>Properties\<close>

text \<open>C39: Every registry of the quality tooling keeps the first entry of a name: after any sequence of
  registrations a name is looked up as the first entry registered under it, and as nothing if there
  was none. The built-in sets are complete: no registration whose result is thrown away is refused.\<close>

theorem registries_keep_first:
  "find (\<lambda>g. qg_name g = n) (fold (\<lambda>i s. snd (add_gate i s)) gs []) = find (\<lambda>g. qg_name g = n) gs
   \<and> get_scenario (fold (\<lambda>i s. snd (add_scenario i s)) scs []) n = find (\<lambda>x. ls_name x = n) scs
   \<and> get_target (fold (\<lambda>i s. snd (register_target i s)) ts []) n = find (\<lambda>x. ft_name x = n) ts
   \<and> get_contract (fold (\<lambda>i s. snd (add_contract i s)) cs []) n = find (\<lambda>x. ic_name x = n) cs
   \<and> get_scanner (fold (\<lambda>i s. snd (add_scanner i s)) sns []) n = find (\<lambda>x. sn_name x = n) sns
   \<and> checklist_item (fold (\<lambda>i s. snd (add_item i s)) xs (new_checklist rc created)) n =
       find (\<lambda>x. rc_item_id x = n) xs
   \<and> canonical_gates = canonical_gate_list
   \<and> set (om_values canonical_scenarios) = set canonical_scenario_list
   \<and> set (om_values canonical_targets) = set canonical_target_list
   \<and> set (om_values canonical_contracts) = set canonical_contract_list
   \<and> set (om_values canonical_scanners) = set canonical_scanner_list
   \<and> items_ordered (canonical_template rc created) = canonical_item_list"
proof (intro conjI canonical_items canonical_gates_complete)
  show "find (\<lambda>g. qg_name g = n) (fold (\<lambda>i s. snd (add_gate i s)) gs []) = find (\<lambda>g. qg_name g = n) gs"
    using gate_names.add_all_lookup [of n gs "[]"] by (simp add: gate_names.add_all_def)
  show "get_scenario (fold (\<lambda>i s. snd (add_scenario i s)) scs []) n = find (\<lambda>x. ls_name x = n) scs"
    using scenario_names.add_all_lookup [OF om_ok_Nil, of scs n]
    by (simp add: scenario_names.add_all_def get_scenario_def)
  show "get_target (fold (\<lambda>i s. snd (register_target i s)) ts []) n = find (\<lambda>x. ft_name x = n) ts"
    using target_names.add_all_lookup [OF om_ok_Nil, of ts n]
    by (simp add: target_names.add_all_def get_target_def)
  show "get_contract (fold (\<lambda>i s. snd (add_contract i s)) cs []) n = find (\<lambda>x. ic_name x = n) cs"
    using contract_names.add_all_lookup [OF om_ok_Nil, of cs n]
    by (simp add: contract_names.add_all_def get_contract_def)
  show "get_scanner (fold (\<lambda>i s. snd (add_scanner i s)) sns []) n = find (\<lambda>x. sn_name x = n) sns"
    using scanner_names.add_all_lookup [OF om_ok_Nil, of sns n]
    by (simp add: scanner_names.add_all_def get_scanner_def)
  show "checklist_item (fold (\<lambda>i s. snd (add_item i s)) xs (new_checklist rc created)) n =
       find (\<lambda>x. rc_item_id x = n) xs"
    using item_names.add_all_lookup [of "new_checklist rc created" xs n]
    by (simp add: item_names.add_all_def checklist_item_def new_checklist_def)
  show "set (om_values canonical_scenarios) = set canonical_scenario_list"
    using add_named_distinct [of ls_name add_scenario "[]" canonical_scenario_list] canonical_names_distinct(2)
    by (simp add: canonical_scenarios_def add_scenario_def)
  show "set (om_values canonical_targets) = set canonical_target_list"
    using add_named_distinct [of ft_name register_target "[]" canonical_target_list] canonical_names_distinct(3)
    by (simp add: canonical_targets_def register_target_def)
  show "set (om_values canonical_contracts) = set canonical_contract_list"
    using add_named_distinct [of ic_name add_contract "[]" canonical_contract_list] canonical_names_distinct(4)
    by (simp add: canonical_contracts_def add_contract_def)
  show "set (om_values canonical_scanners) = set canonical_scanner_list"
    using add_named_distinct [of sn_name add_scanner "[]" canonical_scanner_list] canonical_names_distinct(5)
    by (simp add: canonical_scanners_def add_scanner_def)
qed

text \<open>Whatever the history of additions, completions, sign-offs and waivers, a checklist is ready
  for release exactly when every blocking item in its ordered list is resolved, which is when it
  reports no unresolved blocking item; the ordered list holds every item of the checklist once; and
  the canonical template starts out not ready.\<close>

theorem release_ready_exact:
  "let cl = fold rc_step ops (new_checklist rc created) in
     is_release_ready cl = list_all (\<lambda>x. if rc_blocking x then is_resolved x else True) (items_ordered cl)
   \<and> is_release_ready cl = (blocking_unresolved cl = [])
   \<and> set (items_ordered cl) = set (om_values (cl_items cl))
   \<and> distinct (map rc_item_id (items_ordered cl))
   \<and> \<not> is_release_ready (canonical_template rc created)"
proof -
  define cl where "cl = fold rc_step ops (new_checklist rc created)"
  have ok: "checklist_ok cl"
    unfolding cl_def by (rule checklist_runs.run_inv) (simp_all add: checklist_ok_new)
  note ordered = items_ordered_set [OF ok]
  have "is_release_ready cl = (blocking_unresolved cl = [])"
    by (auto simp: release_ready_iff blocking_unresolved_def filter_empty_conv)
  moreover have "is_release_ready cl =
      list_all (\<lambda>x. if rc_blocking x then is_resolved x else True) (items_ordered cl)"
    unfolding release_ready_iff list_all_iff ordered(1) by simp
  moreover have "distinct (map rc_item_id (items_ordered cl))"
    using ok by (simp add: ordered(2) checklist_ok_def)
  moreover have "(\<lambda>x. rc_step (AddItem x)) = (\<lambda>x cl. snd (add_item x cl))" by (simp add: fun_eq_iff)
  then have run: "fold rc_step (map AddItem canonical_item_list) (new_checklist rc created) = canonical_template rc created"
    by (simp add: canonical_template_def fold_map comp_def)
  have "checklist_ok (canonical_template rc created)"
    unfolding run [symmetric] by (rule checklist_runs.run_inv) (simp_all add: checklist_ok_new)
  note canonical = items_ordered_set(1) [OF this, unfolded canonical_items]
  have "list_ex (\<lambda>x. rc_blocking x \<and> \<not> is_resolved x) canonical_item_list"
    by (simp add: canonical_item_list_def blocking_item_def is_resolved_def)
  then have "\<not> is_release_ready (canonical_template rc created)"
    unfolding release_ready_iff canonical [symmetric] list_ex_iff by blast
  ultimately show ?thesis by (simp add: cl_def [symmetric] Let_def ordered(1))
qed

text \<open>The verdict of a gate set passes exactly when every gate's metric is present and meets its
  threshold, with one outcome per gate in order, and a missing metric fails its gate. The metrics
  derived from a fresh report, whatever suites were added to it, never pass the canonical gates:
  nothing derives the regression, conformance and changelog metrics.\<close>

theorem merge_verdict:
  "let v = evaluate_all sub report gs in
     gv_all_passed v = list_all (\<lambda>g. case report (qg_metric g) of
         None \<Rightarrow> False | Some x \<Rightarrow> gate_holds sub (qg_op g) x (qg_threshold g)) gs
   \<and> map go_gate_name (gv_outcomes v) = map qg_name gs
   \<and> gv_all_passed v = (failed_gates v = [])
   \<and> (let s = fold (\<lambda>r s. snd (add_suite r s)) rs (new_snapshot run stamp)
      in \<not> gv_all_passed (evaluate_all sub (rp_metrics (derive_metrics mean of_u64 s)) canonical_gates))"
proof -
  have outcome: "go_passed (gate_outcome_of sub report g) = (case report (qg_metric g) of
       None \<Rightarrow> False | Some x \<Rightarrow> gate_holds sub (qg_op g) x (qg_threshold g))"
    "go_gate_name (gate_outcome_of sub report g) = qg_name g" for report g
    by (simp_all add: gate_outcome_of_def evaluate_gate_def get_metric_def split: option.split)
  have start: "rp_metrics (fold (\<lambda>r s. snd (add_suite r s)) rs s) = rp_metrics s" for s
    by (induction rs arbitrary: s) (simp_all add: add_suite_def)
  let ?s = "fold (\<lambda>r s. snd (add_suite r s)) rs (new_snapshot run stamp)"
  have "rp_metrics (derive_metrics mean of_u64 ?s) ''changelog_entry_present'' = None"
    by (simp add: derive_metrics_def Let_def coverage_metric_def start new_snapshot_def)
  moreover have "list_ex (\<lambda>g. qg_metric g = ''changelog_entry_present'') canonical_gate_list"
    by (simp add: canonical_gate_list_def new_gate_def)
  then have "list_ex (\<lambda>g. qg_metric g = ''changelog_entry_present'') canonical_gates"
    unfolding canonical_gates_complete .
  ultimately have "\<not> gv_all_passed (evaluate_all sub (rp_metrics (derive_metrics mean of_u64 ?s)) canonical_gates)"
    by (force simp: evaluate_all_def Let_def list_all_iff list_ex_iff outcome)
  then show ?thesis
    by (simp add: evaluate_all_def Let_def failed_gates_def list_all_iff filter_empty_conv outcome comp_def)
qed

section \<open>Scanners, probes and reports\<close>

lemma count_findings:
  "fold (count_finding p) fs (b, u) =
     (b + List.length (filter (\<lambda>f. case get_scanner p (sf_scanner f) of
          None \<Rightarrow> True | Some sc \<Rightarrow> sf_severity f \<ge> sn_fail_on_severity sc) fs),
      u + List.length (filter (\<lambda>f. get_scanner p (sf_scanner f) = None) fs))"
  by (induction fs arbitrary: b u) (auto simp: count_finding_def split: option.splits)

lemma findings_verdict:
  "pe_passed (evaluate_findings p fs) = list_all (\<lambda>f. case get_scanner p (sf_scanner f) of
     None \<Rightarrow> False | Some sc \<Rightarrow> sf_severity f < sn_fail_on_severity sc) fs"
  by (auto simp: evaluate_findings_def count_findings list_all_iff not_le [symmetric] filter_empty_conv
      split: option.splits)

lemma kind_passed_iff:
  "kind_passed kind rs =
     (list_ex kind rs \<and> list_all (\<lambda>r. if kind r then sr_status r = SuitePassed else True) rs)"
proof -
  have "fold (observe_suite kind) rs (seen, passed) =
      (seen \<or> list_ex kind rs, passed \<and> list_all (\<lambda>r. if kind r then sr_status r = SuitePassed else True) rs)"
    for seen passed
    by (induction rs arbitrary: seen passed) (auto simp: observe_suite_def)
  then show ?thesis by (simp add: kind_passed_def)
qed

text \<open>One passing unit suite is enough for the metric, although the strategy requires six.\<close>

lemma unreported_suites_ignored:
  "rp_metrics (derive_metrics mean of_u64
     (snd (add_suite (passing_report ''kernel-unit'' 1 0) (new_snapshot run stamp)))) ''unit_tests_passed'' =
       Some (f64_flag True)"
  by (simp add: derive_metrics_def Let_def add_suite_def new_snapshot_def coverage_metric_def
      om_contains_def kind_passed_iff is_unit_suite_def passing_report_def suffix_def)

text \<open>The contract run passes when nothing was probed, or the failing probe names no known contract.\<close>

lemma unprobed_contracts_pass:
  "all_mandatory_passed canonical_contracts []"
  "om_get registry name = None \<Longrightarrow> all_mandatory_passed registry [probe_fail name i m]"
  by (simp_all add: all_mandatory_passed_def blocking_probe_def probe_fail_def get_contract_def)

text \<open>The editor contract demands that attaching an interpreter twice is no error; it is one.\<close>

lemma second_attachment_refused:
  "is_ok (result (editor_api_attach_interpreter e b ty cfg s)) \<Longrightarrow>
     result (editor_api_attach_interpreter e' b ty cfg (after (editor_api_attach_interpreter e b ty cfg s))) =
       Inl (InterpreterAlreadyAttached b)"
  by (auto simp: editor_api_attach_interpreter_def attach_interpreter_def Let_def editor_for_def
      split: prod.splits option.splits if_splits)

end
