(* ===== verification/Spec2Isabelle.thy ===== *)
theory Spec2Isabelle
  imports Task_Allocator Controller Registry Orchestrator Executor Scheduler_Claims Graph_Diff Mesh_Claims Node_History
    Flow_Control_Claims Pipeline_Claims Node_Instance_Claims
    Graph_Query_Claims Replica_Claims
    Signing_Claims Sandbox_Claims Policy_Claims Audit_Claims Boundary_Claims Threat_Model Reliability_Claims Canvas_Claims
    Connectors Interface_Claims Quality_Data Quality_Claims
begin

text \<open>
  A verification development of infinityOS, the canvas-first operating system whose performer
  runtime is the Rust workspace \<open>runtime-rust/crates\<close>. The runtime is modelled; the C kernel, the
  documents and the deployment files are not.

  The program. A flow graph describes work (\<open>graph.rs\<close>): nodes with typed ports, links, groups and
  subgraphs, edited directly, by patches and by diffs, checked and put in execution order. Tasks go
  through a scheduler (\<open>scheduler.rs\<close>) with dependencies, priorities, leases, retries and quotas;
  identifiers come from an allocator per dimension (\<open>task_allocator.rs\<close>), and
  \<open>ify-executor\<close> runs futures under a semaphore. An orchestrator (\<open>orchestrator.rs\<close>) records what a
  task did; block controllers and the block registry (\<open>controller.rs\<close>, \<open>registry.rs\<close>) keep the
  lifecycles of blocks. What tasks produce lives in a mesh (\<open>mesh.rs\<close>): indexed artifacts, node
  state under revisions, garbage collection, replication. The canvas side is the node graph with
  undo and redo (\<open>node.rs\<close>), queries over a graph and messages between its nodes
  (\<open>graph_query.rs\<close>), and flows over it (\<open>flow_control.rs\<close>) with conditions, visit
  limits and chat payloads. Pipelines (\<open>pipeline.rs\<close>) transform data under versions, schemas and
  checkpoints; instance templates (\<open>node_instance.rs\<close>) turn groups of nodes into parameterised
  instances. A model runtime (\<open>model_runtime.rs\<close>) routes requests to module replicas under plans
  and reload policies. These components write to one append-only action log (\<open>action_log.rs\<close>).
  The workflow connectors (\<open>connectors.rs\<close>) are a catalogue of node templates, and
  \<open>interfaces.rs\<close> implements the traits of \<open>ify-interfaces\<close>, through which other crates are to
  reach the log, the orchestrator, the mesh, the registry and the planner.
  Four crates surround them. \<open>ify-security\<close> signs artifacts and components, sandboxes tools,
  decides requests by policies and capabilities, keeps a hash-chained audit trail, redacts secrets
  and validates inputs. \<open>ify-reliability\<close> measures recovery, error budgets and objectives, turns
  telemetry into incidents, triages regressions, injects faults and shows all of it on a dashboard.
  \<open>ify-canvas\<close> is the view of the graph: zoom levels and what is visible at each, selection,
  navigation, keyboard focus, shared editing, search, the inspector and the node adder.
  \<open>ify-quality\<close> is the test and release tooling: merge gates, load scenarios, the test strategy,
  fuzz corpora, contracts, golden snapshots, scanners, the release checklist, reports and datasets.

  Theories and code.
  \<^item> \<open>Prelude\<close>: word types, time, the contracts several components share (invariants under
    steps, logs that only grow, lifecycles). \<open>Ordered_Map\<close>:
    \<open>BTreeMap\<close> as its entries in key order, with its contract. \<open>Float_Order\<close>: comparisons of
    \<open>f64\<close> on bit patterns. \<open>Core\<close>: identifiers and capability bits (\<open>ify-core\<close>).
    \<open>Action_Log\<close>: event types, entries, the log.
  \<^item> \<open>Task_Allocator\<close>, \<open>Controller\<close>, \<open>Registry\<close>, \<open>Orchestrator\<close>, \<open>Executor\<close>: one file each for the
    source of that name. The executor is a step relation over atomic actions, since its tasks
    interleave, panics and cancellations included; what the futures await is a restriction on runs.
    The others hold a mutex over each method, which is one step.
  \<^item> \<open>Scheduler\<close> is \<open>scheduler.rs\<close>; \<open>Scheduler_Steps\<close> the abstract steps its operations are made
    of, \<open>Scheduler_Ops\<close> and \<open>Scheduler_Calls\<close> the decomposition of each operation,
    \<open>Scheduler_Inv\<close> the invariants, \<open>Scheduler_Props\<close> the interpretations, \<open>Scheduler_Claims\<close> the
    properties. \<open>sched_op\<close> holds every call but \<open>restore\<close>, \<open>sched_event\<close> \<open>restore\<close> as well; the
    queue and the counters are judged over runs with restores, the rest over runs of \<open>sched_op\<close>.
  \<^item> \<open>Flow_Graph\<close>, \<open>Graph_Ops\<close>, \<open>Graph_Cycle\<close>, \<open>Graph_Order\<close>, \<open>Graph_Validate\<close> are \<open>graph.rs\<close>;
    \<open>Graph_Calls\<close> its calls and invariants, \<open>Graph_Claims\<close> and \<open>Graph_Diff\<close> the properties.
  \<^item> \<open>Mesh_Schema\<close>, \<open>Mesh\<close>, \<open>Mesh_Ops\<close> are \<open>mesh.rs\<close>; \<open>Mesh_Index\<close> the contract of its indexes,
    \<open>Mesh_Inv\<close> the calls and invariants, also of two replicated stores, \<open>Mesh_Claims\<close> the
    properties.
  \<^item> \<open>Node_Graph\<close> is \<open>node.rs\<close>, \<open>Node_History\<close> its refinement to a timeline.
  \<^item> \<open>Graph_Query\<close> is \<open>graph_query.rs\<close>, \<open>Graph_Query_Claims\<close> its properties.
  \<^item> \<open>Flow_Control\<close> is \<open>flow_control.rs\<close>, \<open>Flow_Control_Claims\<close> its properties.
  \<^item> \<open>Pipeline_Schema\<close>, \<open>Pipeline\<close>, \<open>Pipeline_Registry\<close> are \<open>pipeline.rs\<close>, \<open>Pipeline_Claims\<close> its
    calls and properties. \<open>Node_Instance\<close> is \<open>node_instance.rs\<close>, \<open>Node_Instance_Claims\<close> its calls
    and properties.
  \<^item> \<open>Model_Runtime\<close> and \<open>Replica_Pool\<close> are \<open>model_runtime.rs\<close>, \<open>Replica_Claims\<close> the properties of
    the pool and the plans.
  \<^item> \<open>ify-security\<close>: \<open>Signing\<close> and \<open>Supply_Chain\<close> with \<open>Signing_Claims\<close>, \<open>Sandbox\<close> with
    \<open>Sandbox_Claims\<close>, \<open>Policy_Engine\<close> (\<open>policy.rs\<close> and \<open>identity.rs\<close>) with \<open>Policy_Claims\<close>,
    \<open>Audit_Trail\<close> with \<open>Audit_Claims\<close>, \<open>Secrets\<close> and \<open>Input_Validator\<close> (\<open>validator.rs\<close>) with
    \<open>Boundary_Claims\<close>, and \<open>Threat_Model\<close>.
  \<^item> \<open>ify-reliability\<close>: \<open>Reliability_Metrics\<close> (\<open>metrics.rs\<close> and \<open>slo.rs\<close>), \<open>Incident_Pipeline\<close>,
    \<open>Triage\<close> (\<open>regression.rs\<close>), \<open>Chaos\<close> and \<open>Dashboard\<close>, with \<open>Reliability_Claims\<close>.
  \<^item> \<open>ify-canvas\<close>: \<open>Canvas_View\<close> (\<open>zoom.rs\<close>, \<open>visibility.rs\<close>, \<open>performance.rs\<close>),
    \<open>Canvas_Selection\<close> (\<open>selection.rs\<close>, \<open>navigation.rs\<close>, \<open>collaboration.rs\<close>),
    \<open>Canvas_Focus\<close> (\<open>accessibility.rs\<close>), \<open>Canvas_Search\<close> (\<open>search.rs\<close>, \<open>inspector.rs\<close>) and \<open>Canvas_Nodes\<close>
    (\<open>node_adder.rs\<close>), with \<open>Canvas_Claims\<close>.
  \<^item> \<open>Connectors\<close> is \<open>connectors.rs\<close> with its properties. \<open>Interfaces\<close> holds the version rules and
    the summaries of \<open>ify-interfaces\<close> and is \<open>interfaces.rs\<close>, \<open>Interface_Claims\<close> shows
    what each implementation promises over the component behind it.
  \<^item> \<open>ify-quality\<close>: \<open>Quality_Gates\<close> (\<open>gates.rs\<close>, \<open>load.rs\<close>, \<open>strategy.rs\<close>), \<open>Quality_Contract\<close>
    (\<open>contract.rs\<close>, \<open>golden.rs\<close>, \<open>security_testing.rs\<close>, \<open>rc_checklist.rs\<close>, \<open>report.rs\<close>),
    \<open>Quality_Fuzz\<close> with the round trip of its codec, \<open>Quality_Data\<close> (\<open>datasets.rs\<close>), whose cycle
    check refines to the one of \<open>Graph_Cycle\<close>, and \<open>Quality_Claims\<close>.

  State and operations. A struct is a record with the same fields under a short prefix, an enum a
  datatype with its variants. A method is a function from the state to its result and the state
  after it; a \<open>Result\<close> is a sum with the error on the left. A state change before an error
  return is in the state that comes with the error. Calls of a component are one datatype
  (\<open>sched_op\<close>, \<open>graph_op\<close>, \<open>mesh_op\<close>, \<open>canvas_op\<close> and others), and \<open>_run\<close> is any
  sequence of them on a new component: invariants are proved of every run. A call is atomic, also
  \<open>collect_garbage\<close> of the mesh, whose source takes its locks one after another.

  Lemma groups. \<open>om_simps\<close> and \<open>log_simps\<close> evaluate maps and logs. The locales state the
  interfaces: \<open>invariant_system\<close> (what every step keeps), \<open>audited\<close> (steps only append to the log),
  \<open>lifecycle\<close> (steps only raise a rank), \<open>keyed_store\<close>, \<open>secondary_index\<close>, \<open>undoable\<close> (a command
  and its inverse), \<open>replica_kernel\<close> (what the pool needs of a kernel of replicas), \<open>event_bus\<close>, \<open>task_reporter\<close> and
  \<open>read_once\<close> (the traits of \<open>ify-interfaces\<close>), \<open>named_registry\<close> (the registries of \<open>ify-quality\<close>);
  each is interpreted on the code's own operations, and the properties rest on those
  interpretations. Versions and severities are instances of \<open>linorder\<close>, as the source derives \<open>Ord\<close>.

  Bounds and fuel. Integers are words of the width of the source, arithmetic wraps as in a release
  build, and properties that need a counter not to wrap say so (fewer than \<open>2^64\<close> submissions or
  revisions, a flow's step bound below \<open>2^32\<close>). \<open>detect_cycle\<close> takes fuel for its recursion depth;
  \<open>cycle_fuel\<close>, the number of nodes and links, is proved to be enough, because every level greys a
  new node. \<open>topological_order\<close> is a partial function of the option type, and its value is proved
  to exist on every graph whose links enter through \<open>add_link\<close>; so no property is true just
  because a loop does not return. A drive of the executor is bounded by \<open>work_left\<close>, six steps per
  task, and can always go on if no future awaits a later task of its batch; one that does can hang it.

  Parameters. Fresh identifiers and clock readings are arguments (\<open>env\<close>). JSON values are a type
  parameter. Functions of crates outside the repository (the \<open>uuid\<close> parser and hash, text forms,
  float arithmetic, Unicode lower case) and implementations of traits (model scores, chat adapters) are arguments of
  the definitions that use them. The iteration order of a hash map is taken as key order where it
  can be observed at all, and the theories say where.

  Not modelled. \<open>serde\<close> derives, tracing, formatting of errors, delivery by channels (what is sent
  is, not the receivers that \<open>subscribe\<close> hands out). \<open>ify-ffi\<close>, which only calls into C, and the C
  kernel behind it. The crate roots, which declare modules. In \<open>ify-core\<close>, the generators of
  identifiers, which are arguments here; in \<open>ify-executor\<close>, the task bodies, which are the
  caller's futures. Tests and benchmarks.
\<close>

end
